(* ===== verification/UC_Prelude.thy ===== *)
theory UC_Prelude
  imports Main "HOL-Library.Word" "HOL-Library.Monad_Syntax"
begin

text \<open>
  Shared types, memory accesses and generic lemmas.

  Machine integers keep their width. A C object that is read or written through a pointer is
  the list of its bytes; every access goes through \<open>rd\<close>, \<open>wr\<close>, \<open>rd_block\<close> and
  \<open>wr_block\<close>, whose result is \<open>None\<close> when the access leaves the object, so that undefined
  behaviour of the source is a value of the model and its absence is something to prove. A
  pointer that the code compares with \<open>NULL\<close> is an option.
\<close>

unbundle bit_operations_syntax

type_synonym u8 = "8 word"
type_synonym u16 = "16 word"
type_synonym u32 = "32 word"
type_synonym u64 = "64 word"
type_synonym bytes = "8 word list"

named_theorems mem_simps "reading and writing byte objects"

subsection \<open>Checked memory accesses\<close>

definition rd :: "bytes \<Rightarrow> nat \<Rightarrow> u8 option" where
  "rd m i = (if i < length m then Some (m ! i) else None)"

definition wr :: "bytes \<Rightarrow> nat \<Rightarrow> u8 \<Rightarrow> bytes option" where
  "wr m i v = (if i < length m then Some (m[i := v]) else None)"

definition rd_block :: "bytes \<Rightarrow> nat \<Rightarrow> nat \<Rightarrow> bytes option" where
  "rd_block m i n = (if i + n \<le> length m then Some (take n (drop i m)) else None)"

definition wr_block :: "bytes \<Rightarrow> nat \<Rightarrow> bytes \<Rightarrow> bytes option" where
  "wr_block m i bs =
     (if i + length bs \<le> length m
      then Some (take i m @ bs @ drop (i + length bs) m) else None)"

lemma rd_Some [mem_simps]: "i < length m \<Longrightarrow> rd m i = Some (m ! i)"
  by (simp add: rd_def)

lemma wr_Some [mem_simps]: "i < length m \<Longrightarrow> wr m i v = Some (m[i := v])"
  by (simp add: wr_def)

lemma wr_block_length: "wr_block m i bs = Some m' \<Longrightarrow> length m' = length m"
  by (auto simp: wr_block_def split: if_splits)

lemma wr_block_fits [mem_simps]:
  "i + length bs \<le> length m \<Longrightarrow>
     wr_block m i bs = Some (take i m @ bs @ drop (i + length bs) m)"
  by (simp add: wr_block_def)

lemma rd_block_fits [mem_simps]:
  "i + n \<le> length m \<Longrightarrow> rd_block m i n = Some (take n (drop i m))"
  by (simp add: rd_block_def)

lemma rd_block_0: "rd_block m 0 n = (if n \<le> length m then Some (take n m) else None)"
  by (simp add: rd_block_def)

text \<open>A block written is read back; a block elsewhere is not disturbed.\<close>

lemma rd_block_wr_block_same:
  "wr_block m i bs = Some m' \<Longrightarrow> n = length bs \<Longrightarrow> rd_block m' i n = Some bs"
  by (auto simp: wr_block_def rd_block_def split: if_splits)

lemma rd_block_wr_block_other:
  assumes "wr_block m i bs = Some m'" and "j + n \<le> i \<or> i + length bs \<le> j"
  shows "rd_block m' j n = rd_block m j n"
proof (cases "j + n \<le> length m")
  case False
  with assms show ?thesis by (auto simp: wr_block_length rd_block_def)
next
  case True
  have "take n (drop j m') = take n (drop j m)"
  proof (rule nth_equalityI)
    show "length (take n (drop j m')) = length (take n (drop j m))"
      using assms(1) by (simp add: wr_block_length)
  next
    fix k
    assume "k < length (take n (drop j m'))"
    with assms True show "take n (drop j m') ! k = take n (drop j m) ! k"
      by (auto simp: wr_block_def nth_append split: if_splits)
  qed
  with True assms(1) show ?thesis by (simp add: rd_block_def wr_block_length)
qed

lemma rd_block_length: "rd_block m i n = Some bs \<Longrightarrow> length bs = n"
  by (auto simp: rd_block_def split: if_splits)

lemma take_Suc_drop: "i + Suc n \<le> length m \<Longrightarrow>
    take (Suc n) (drop i m) = m ! i # take n (drop (Suc i) m)"
  by (simp add: Cons_nth_drop_Suc[symmetric])

lemma take_Suc_drop_app: "i + n < length m \<Longrightarrow>
    take (Suc n) (drop i m) = take n (drop i m) @ [m ! (i + n)]"
  by (simp add: take_Suc_conv_app_nth)

subsection \<open>Words\<close>

lemma word_or_zero_eq: "((a :: 'a :: len word) OR b = 0) = (a = 0 \<and> b = 0)"
  by (fact or_eq_0_iff)

lemma word_xor_eq_0 [simp]: "((a :: 'a :: len word) XOR b = 0) = (a = b)"
proof
  assume "a XOR b = 0"
  then have "(a XOR b) XOR b = 0 XOR b" by simp
  then show "a = b" by (simp add: ac_simps)
qed simp

lemma word_xor_cancel_right: "((a :: 'a :: len word) XOR c = b XOR c) = (a = b)"
proof
  assume "a XOR c = b XOR c"
  then have "(a XOR c) XOR c = (b XOR c) XOR c" by simp
  then show "a = b" by (simp add: ac_simps)
qed simp

end
