(* ===== verification/UC_Error.thy ===== *)
theory UC_Error
  imports UC_Prelude
begin

text \<open>
  The error codes of \<open>modules/common/update-client-common/arm_uc_error.h\<close>.

  An \<open>arm_uc_error_t\<close> is a union of the 32-bit \<open>code\<close> and the pair of the 16-bit \<open>error\<close> and
  the 16-bit \<open>module\<close>. The model keeps the 32-bit code; \<open>err_error\<close> and \<open>err_module\<close> read the
  two halves. The code tests \<open>.code\<close> in some places and \<open>.error\<close> in others, and the two tests
  differ on the \<open>*_FIRST\<close> codes, so each definition uses the test the code uses.

  The enumerators are given by the X-macro lists, kept as lists of names with an optional fixed
  value and evaluated as C evaluates an enumeration. The abbreviations are the values.
\<close>

type_synonym arm_uc_error_t = u32

definition err_error :: "arm_uc_error_t \<Rightarrow> u16" where
  "err_error e = ucast e"

definition err_module :: "arm_uc_error_t \<Rightarrow> u16" where
  "err_module e = ucast (drop_bit 16 e)"

definition TWO_CC :: "u32 \<Rightarrow> u32 \<Rightarrow> u32" where
  "TWO_CC A B = (A AND 0xFF) OR push_bit 8 (B AND 0xFF)"

abbreviation (input) MANIFEST_MANAGER_PREFIX :: u32 where "MANIFEST_MANAGER_PREFIX \<equiv> TWO_CC 77 77"
abbreviation (input) AUTHORIZATION_PREFIX :: u32 where "AUTHORIZATION_PREFIX \<equiv> TWO_CC 65 85"
abbreviation (input) CERTIFICATE_MANAGER_PREFIX :: u32 where "CERTIFICATE_MANAGER_PREFIX \<equiv> TWO_CC 67 77"
abbreviation (input) SOURCE_MANAGER_PREFIX :: u32 where "SOURCE_MANAGER_PREFIX \<equiv> TWO_CC 83 77"
abbreviation (input) SOURCE_PREFIX :: u32 where "SOURCE_PREFIX \<equiv> TWO_CC 83 69"
abbreviation (input) FIRMWARE_MANAGER_PREFIX :: u32 where "FIRMWARE_MANAGER_PREFIX \<equiv> TWO_CC 70 77"
abbreviation (input) DER_PARSER_PREFIX :: u32 where "DER_PARSER_PREFIX \<equiv> TWO_CC 68 80"
abbreviation (input) MBED_TLS_ERROR_PREFIX :: u32 where "MBED_TLS_ERROR_PREFIX \<equiv> TWO_CC 77 84"
abbreviation (input) UPDATE_CRYPTO_PREFIX :: u32 where "UPDATE_CRYPTO_PREFIX \<equiv> TWO_CC 67 85"
abbreviation (input) DEVICE_IDENTITY_PREFIX :: u32 where "DEVICE_IDENTITY_PREFIX \<equiv> TWO_CC 68 73"
abbreviation (input) HUB_PREFIX :: u32 where "HUB_PREFIX \<equiv> TWO_CC 72 66"
abbreviation (input) EVENT_QUEUE_PREFIX :: u32 where "EVENT_QUEUE_PREFIX \<equiv> TWO_CC 69 81"
abbreviation (input) PAAL_PREFIX :: u32 where "PAAL_PREFIX \<equiv> TWO_CC 80 76"

definition ARM_UC_COMMON_ERR_LIST :: "(string \<times> u32 option) list" where
  "ARM_UC_COMMON_ERR_LIST =
    [(''ERR_NONE'', Some (0)),
     (''ERR_UNSPECIFIED'', None),
     (''ERR_INVALID_PARAMETER'', None),
     (''ERR_NULL_PTR'', None),
     (''ERR_NOT_READY'', None),
     (''ERR_INVALID_STATE'', None),
     (''ERR_OUT_OF_MEMORY'', None)]"

definition ARM_UC_AUTH_ERR_LIST :: "(string \<times> u32 option) list" where
  "ARM_UC_AUTH_ERR_LIST =
    [(''AUTH_ERR_FIRST'', Some (push_bit 16 AUTHORIZATION_PREFIX)),
     (''AUTH_ERR_INSTALL_REJECTED'', None),
     (''AUTH_ERR_INSTALL_UNAVAILABLE'', None),
     (''AUTH_ERR_DOWNLOAD_REJECTED'', None),
     (''AUTH_ERR_DOWNLOAD_UNAVAILABLE'', None),
     (''AUTH_ERR_LAST'', None)]"

definition ARM_UC_MM_ERR_LIST :: "(string \<times> u32 option) list" where
  "ARM_UC_MM_ERR_LIST =
    [(''MFST_ERR_FIRST'', Some (push_bit 16 MANIFEST_MANAGER_PREFIX)),
     (''MFST_ERR_NULL_PTR'', None),
     (''MFST_ERR_NOT_READY'', None),
     (''MFST_ERR_PENDING'', None),
     (''MFST_ERR_SIZE'', None),
     (''MFST_ERR_DER_FORMAT'', None),
     (''MFST_ERR_FORMAT'', None),
     (''MFST_ERR_VERSION'', None),
     (''MFST_ERR_ROLLBACK'', None),
     (''MFST_ERR_CRYPTO_MODE'', None),
     (''MFST_ERR_HASH'', None),
     (''MFST_ERR_GUID_VENDOR'', None),
     (''MFST_ERR_GUID_DEVCLASS'', None),
     (''MFST_ERR_GUID_DEVICE'', None),
     (''MFST_ERR_CFG_CREATE_FAILED'', None),
     (''MFST_ERR_KEY_SIZE'', None),
     (''MFST_ERR_CERT_INVALID'', None),
     (''MFST_ERR_CERT_NOT_FOUND'', None),
     (''MFST_ERR_CERT_READ'', None),
     (''MFST_ERR_INVALID_SIGNATURE'', None),
     (''MFST_ERR_INVALID_STATE'', None),
     (''MFST_ERR_BAD_EVENT'', None),
     (''MFST_ERR_EMPTY_FIELD'', None),
     (''MFST_ERR_NO_MANIFEST'', None),
     (''MFST_ERR_SIGNATURE_ALGORITHM'', None),
     (''MFST_ERR_UNSUPPORTED_CONDITION'', None),
     (''MFST_ERR_CTR_IV_SIZE'', None),
     (''MFST_ERR_MISSING_KEYTABLE'', None),
     (''MFST_ERR_BAD_KEYTABLE'', None),
     (''MFST_ERR_FIRMWARE_SIZE'', None),
     (''MFST_ERR_LAST'', None)]"

definition ARM_UC_CM_ERR_LIST :: "(string \<times> u32 option) list" where
  "ARM_UC_CM_ERR_LIST =
    [(''ARM_UC_CM_ERR_FIRST'', Some (push_bit 16 CERTIFICATE_MANAGER_PREFIX)),
     (''ARM_UC_CM_ERR_INVALID_PARAMETER'', None),
     (''ARM_UC_CM_ERR_NOT_FOUND'', None),
     (''ARM_UC_CM_ERR_INVALID_CERT'', None),
     (''ARM_UC_CM_ERR_BLACKLISTED'', None),
     (''ARM_UC_CM_ERR_LAST'', None)]"

definition ARM_UC_DP_ERR_LIST :: "(string \<times> u32 option) list" where
  "ARM_UC_DP_ERR_LIST =
    [(''ARM_UC_DP_ERR_FIRST'', Some (push_bit 16 DER_PARSER_PREFIX)),
     (''ARM_UC_DP_ERR_UNKNOWN'', None),
     (''ARM_UC_DP_ERR_NOT_FOUND'', None),
     (''ARM_UC_DP_ERR_NO_MORE_ELEMENTS'', None),
     (''ARM_UC_DP_ERR_LAST'', None)]"

definition ARM_UC_SM_ERR_LIST :: "(string \<times> u32 option) list" where
  "ARM_UC_SM_ERR_LIST =
    [(''SOMA_ERR_FIRST'', Some (push_bit 16 SOURCE_MANAGER_PREFIX)),
     (''SOMA_ERR_UNSPECIFIED'', None),
     (''SOMA_ERR_NETWORK_TIMEOUT'', None),
     (''SOMA_ERR_CONNECTION_FAILURE'', None),
     (''SOMA_ERR_DNS_LOOKUP_FAILURE'', None),
     (''SOMA_ERR_CONNECTION_LOSS'', None),
     (''SOMA_ERR_NO_ROUTE_TO_SOURCE'', None),
     (''SOMA_ERR_SOURCE_REGISTRY_FULL'', None),
     (''SOMA_ERR_SOURCE_NOT_FOUND'', None),
     (''SOMA_ERR_INVALID_URI'', None),
     (''SOMA_ERR_INVALID_REQUEST'', None),
     (''SOMA_ERR_INVALID_PARAMETER'', None),
     (''SOMA_ERR_INVALID_MANIFEST_STATE'', None),
     (''SOMA_ERR_INVALID_FW_STATE'', None),
     (''SOMA_ERR_INVALID_EVENT'', None),
     (''SOMA_ERR_LAST'', None)]"

definition ARM_UC_SRC_ERR_LIST :: "(string \<times> u32 option) list" where
  "ARM_UC_SRC_ERR_LIST =
    [(''SRCE_ERR_FIRST'', Some (push_bit 16 SOURCE_PREFIX)),
     (''SRCE_ERR_UNINITIALIZED'', None),
     (''SRCE_ERR_INVALID_PARAMETER'', None),
     (''SRCE_ERR_FAILED'', None),
     (''SRCE_ERR_ABORT'', None),
     (''SRCE_ERR_BUSY'', None),
     (''SRCE_ERR_LAST'', None)]"

definition ARM_UC_FM_ERR_LIST :: "(string \<times> u32 option) list" where
  "ARM_UC_FM_ERR_LIST =
    [(''FIRM_ERR_FIRST'', Some (push_bit 16 FIRMWARE_MANAGER_PREFIX)),
     (''FIRM_ERR_WRITE'', None),
     (''FIRM_ERR_INVALID_PARAMETER'', None),
     (''FIRM_ERR_INVALID_STATE'', None),
     (''FIRM_ERR_ACTIVATE'', None),
     (''FIRM_ERR_UNINITIALIZED'', None),
     (''FIRM_ERR_INVALID_HASH'', None),
     (''FIRM_ERR_FIRMWARE_TOO_LARGE'', None),
     (''FIRM_ERR_LAST'', None)]"

definition ARM_UC_CU_ERR_LIST :: "(string \<times> u32 option) list" where
  "ARM_UC_CU_ERR_LIST =
    [(''ARM_UC_CU_ERR_FIRST'', Some (push_bit 16 UPDATE_CRYPTO_PREFIX)),
     (''ARM_UC_CU_ERR_INVALID_PARAMETER'', None),
     (''ARM_UC_CU_ERR_LAST'', None)]"

definition ARM_UC_DI_ERR_LIST :: "(string \<times> u32 option) list" where
  "ARM_UC_DI_ERR_LIST =
    [(''ARM_UC_DI_ERR_FIRST'', Some (push_bit 16 DEVICE_IDENTITY_PREFIX)),
     (''ARM_UC_DI_ERR_INVALID_PARAMETER'', None),
     (''ARM_UC_DI_ERR_NOT_READY'', None),
     (''ARM_UC_DI_ERR_NOT_FOUND'', None),
     (''ARM_UC_DI_ERR_SIZE'', None),
     (''ARM_UC_DI_ERR_LAST'', None)]"

definition ARM_UC_HB_ERR_LIST :: "(string \<times> u32 option) list" where
  "ARM_UC_HB_ERR_LIST =
    [(''HUB_ERR_FIRST'', Some (push_bit 16 HUB_PREFIX)),
     (''HUB_ERR_INTERNAL_ERROR'', None),
     (''HUB_ERR_ROLLBACK_PROTECTION'', None),
     (''ARM_UC_HUB_ERR_NOT_AVAILABLE'', None),
     (''HUB_ERR_CONNECTION'', None),
     (''HUB_ERR_LAST'', None)]"

definition ARM_UC_EQ_ERR_LIST :: "(string \<times> u32 option) list" where
  "ARM_UC_EQ_ERR_LIST =
    [(''ARM_UC_EQ_ERR_FIRST'', Some (push_bit 16 EVENT_QUEUE_PREFIX)),
     (''ARM_UC_EQ_ERR_POOL_EXHAUSTED'', None),
     (''ARM_UC_EQ_ERR_FAILED_TAKE'', None),
     (''ARM_UC_EQ_ERR_LAST'', None)]"

definition ARM_UC_PAAL_ERR_LIST :: "(string \<times> u32 option) list" where
  "ARM_UC_PAAL_ERR_LIST =
    [(''PAAL_ERR_FIRST'', Some (push_bit 16 PAAL_PREFIX)),
     (''PAAL_ERR_FIRMWARE_TOO_LARGE'', None),
     (''PAAL_ERR_LAST'', None)]"

definition ARM_UC_ERR_LIST :: "(string \<times> u32 option) list" where
  "ARM_UC_ERR_LIST =
     ARM_UC_COMMON_ERR_LIST @
     ARM_UC_AUTH_ERR_LIST @
     ARM_UC_MM_ERR_LIST @
     ARM_UC_CM_ERR_LIST @
     ARM_UC_DP_ERR_LIST @
     ARM_UC_SM_ERR_LIST @
     ARM_UC_SRC_ERR_LIST @
     ARM_UC_FM_ERR_LIST @
     ARM_UC_CU_ERR_LIST @
     ARM_UC_DI_ERR_LIST @
     ARM_UC_HB_ERR_LIST @
     ARM_UC_EQ_ERR_LIST @
     ARM_UC_PAAL_ERR_LIST"

text \<open>The value C gives to each enumerator: the fixed one, or one more than the last.\<close>

fun enum_values :: "u32 \<Rightarrow> (string \<times> u32 option) list \<Rightarrow> (string \<times> u32) list" where
  "enum_values prev [] = []"
| "enum_values prev ((n, None) # xs) = (n, prev + 1) # enum_values (prev + 1) xs"
| "enum_values prev ((n, Some v) # xs) = (n, v) # enum_values v xs"

subsection \<open>The values\<close>

abbreviation (input) ERR_NONE :: u32 where "ERR_NONE \<equiv> 0x0"
abbreviation (input) ERR_UNSPECIFIED :: u32 where "ERR_UNSPECIFIED \<equiv> 0x1"
abbreviation (input) ERR_INVALID_PARAMETER :: u32 where "ERR_INVALID_PARAMETER \<equiv> 0x2"
abbreviation (input) ERR_NULL_PTR :: u32 where "ERR_NULL_PTR \<equiv> 0x3"
abbreviation (input) ERR_NOT_READY :: u32 where "ERR_NOT_READY \<equiv> 0x4"
abbreviation (input) ERR_INVALID_STATE :: u32 where "ERR_INVALID_STATE \<equiv> 0x5"
abbreviation (input) ERR_OUT_OF_MEMORY :: u32 where "ERR_OUT_OF_MEMORY \<equiv> 0x6"
abbreviation (input) AUTH_ERR_FIRST :: u32 where "AUTH_ERR_FIRST \<equiv> 0x55410000"
abbreviation (input) AUTH_ERR_INSTALL_REJECTED :: u32 where "AUTH_ERR_INSTALL_REJECTED \<equiv> 0x55410001"
abbreviation (input) AUTH_ERR_INSTALL_UNAVAILABLE :: u32 where "AUTH_ERR_INSTALL_UNAVAILABLE \<equiv> 0x55410002"
abbreviation (input) AUTH_ERR_DOWNLOAD_REJECTED :: u32 where "AUTH_ERR_DOWNLOAD_REJECTED \<equiv> 0x55410003"
abbreviation (input) AUTH_ERR_DOWNLOAD_UNAVAILABLE :: u32 where "AUTH_ERR_DOWNLOAD_UNAVAILABLE \<equiv> 0x55410004"
abbreviation (input) AUTH_ERR_LAST :: u32 where "AUTH_ERR_LAST \<equiv> 0x55410005"
abbreviation (input) MFST_ERR_FIRST :: u32 where "MFST_ERR_FIRST \<equiv> 0x4D4D0000"
abbreviation (input) MFST_ERR_NULL_PTR :: u32 where "MFST_ERR_NULL_PTR \<equiv> 0x4D4D0001"
abbreviation (input) MFST_ERR_NOT_READY :: u32 where "MFST_ERR_NOT_READY \<equiv> 0x4D4D0002"
abbreviation (input) MFST_ERR_PENDING :: u32 where "MFST_ERR_PENDING \<equiv> 0x4D4D0003"
abbreviation (input) MFST_ERR_SIZE :: u32 where "MFST_ERR_SIZE \<equiv> 0x4D4D0004"
abbreviation (input) MFST_ERR_DER_FORMAT :: u32 where "MFST_ERR_DER_FORMAT \<equiv> 0x4D4D0005"
abbreviation (input) MFST_ERR_FORMAT :: u32 where "MFST_ERR_FORMAT \<equiv> 0x4D4D0006"
abbreviation (input) MFST_ERR_VERSION :: u32 where "MFST_ERR_VERSION \<equiv> 0x4D4D0007"
abbreviation (input) MFST_ERR_ROLLBACK :: u32 where "MFST_ERR_ROLLBACK \<equiv> 0x4D4D0008"
abbreviation (input) MFST_ERR_CRYPTO_MODE :: u32 where "MFST_ERR_CRYPTO_MODE \<equiv> 0x4D4D0009"
abbreviation (input) MFST_ERR_HASH :: u32 where "MFST_ERR_HASH \<equiv> 0x4D4D000A"
abbreviation (input) MFST_ERR_GUID_VENDOR :: u32 where "MFST_ERR_GUID_VENDOR \<equiv> 0x4D4D000B"
abbreviation (input) MFST_ERR_GUID_DEVCLASS :: u32 where "MFST_ERR_GUID_DEVCLASS \<equiv> 0x4D4D000C"
abbreviation (input) MFST_ERR_GUID_DEVICE :: u32 where "MFST_ERR_GUID_DEVICE \<equiv> 0x4D4D000D"
abbreviation (input) MFST_ERR_CFG_CREATE_FAILED :: u32 where "MFST_ERR_CFG_CREATE_FAILED \<equiv> 0x4D4D000E"
abbreviation (input) MFST_ERR_KEY_SIZE :: u32 where "MFST_ERR_KEY_SIZE \<equiv> 0x4D4D000F"
abbreviation (input) MFST_ERR_CERT_INVALID :: u32 where "MFST_ERR_CERT_INVALID \<equiv> 0x4D4D0010"
abbreviation (input) MFST_ERR_CERT_NOT_FOUND :: u32 where "MFST_ERR_CERT_NOT_FOUND \<equiv> 0x4D4D0011"
abbreviation (input) MFST_ERR_CERT_READ :: u32 where "MFST_ERR_CERT_READ \<equiv> 0x4D4D0012"
abbreviation (input) MFST_ERR_INVALID_SIGNATURE :: u32 where "MFST_ERR_INVALID_SIGNATURE \<equiv> 0x4D4D0013"
abbreviation (input) MFST_ERR_INVALID_STATE :: u32 where "MFST_ERR_INVALID_STATE \<equiv> 0x4D4D0014"
abbreviation (input) MFST_ERR_BAD_EVENT :: u32 where "MFST_ERR_BAD_EVENT \<equiv> 0x4D4D0015"
abbreviation (input) MFST_ERR_EMPTY_FIELD :: u32 where "MFST_ERR_EMPTY_FIELD \<equiv> 0x4D4D0016"
abbreviation (input) MFST_ERR_NO_MANIFEST :: u32 where "MFST_ERR_NO_MANIFEST \<equiv> 0x4D4D0017"
abbreviation (input) MFST_ERR_SIGNATURE_ALGORITHM :: u32 where "MFST_ERR_SIGNATURE_ALGORITHM \<equiv> 0x4D4D0018"
abbreviation (input) MFST_ERR_UNSUPPORTED_CONDITION :: u32 where "MFST_ERR_UNSUPPORTED_CONDITION \<equiv> 0x4D4D0019"
abbreviation (input) MFST_ERR_CTR_IV_SIZE :: u32 where "MFST_ERR_CTR_IV_SIZE \<equiv> 0x4D4D001A"
abbreviation (input) MFST_ERR_MISSING_KEYTABLE :: u32 where "MFST_ERR_MISSING_KEYTABLE \<equiv> 0x4D4D001B"
abbreviation (input) MFST_ERR_BAD_KEYTABLE :: u32 where "MFST_ERR_BAD_KEYTABLE \<equiv> 0x4D4D001C"
abbreviation (input) MFST_ERR_FIRMWARE_SIZE :: u32 where "MFST_ERR_FIRMWARE_SIZE \<equiv> 0x4D4D001D"
abbreviation (input) MFST_ERR_LAST :: u32 where "MFST_ERR_LAST \<equiv> 0x4D4D001E"
abbreviation (input) ARM_UC_CM_ERR_FIRST :: u32 where "ARM_UC_CM_ERR_FIRST \<equiv> 0x4D430000"
abbreviation (input) ARM_UC_CM_ERR_INVALID_PARAMETER :: u32 where "ARM_UC_CM_ERR_INVALID_PARAMETER \<equiv> 0x4D430001"
abbreviation (input) ARM_UC_CM_ERR_NOT_FOUND :: u32 where "ARM_UC_CM_ERR_NOT_FOUND \<equiv> 0x4D430002"
abbreviation (input) ARM_UC_CM_ERR_INVALID_CERT :: u32 where "ARM_UC_CM_ERR_INVALID_CERT \<equiv> 0x4D430003"
abbreviation (input) ARM_UC_CM_ERR_BLACKLISTED :: u32 where "ARM_UC_CM_ERR_BLACKLISTED \<equiv> 0x4D430004"
abbreviation (input) ARM_UC_CM_ERR_LAST :: u32 where "ARM_UC_CM_ERR_LAST \<equiv> 0x4D430005"
abbreviation (input) ARM_UC_DP_ERR_FIRST :: u32 where "ARM_UC_DP_ERR_FIRST \<equiv> 0x50440000"
abbreviation (input) ARM_UC_DP_ERR_UNKNOWN :: u32 where "ARM_UC_DP_ERR_UNKNOWN \<equiv> 0x50440001"
abbreviation (input) ARM_UC_DP_ERR_NOT_FOUND :: u32 where "ARM_UC_DP_ERR_NOT_FOUND \<equiv> 0x50440002"
abbreviation (input) ARM_UC_DP_ERR_NO_MORE_ELEMENTS :: u32 where "ARM_UC_DP_ERR_NO_MORE_ELEMENTS \<equiv> 0x50440003"
abbreviation (input) ARM_UC_DP_ERR_LAST :: u32 where "ARM_UC_DP_ERR_LAST \<equiv> 0x50440004"
abbreviation (input) SOMA_ERR_FIRST :: u32 where "SOMA_ERR_FIRST \<equiv> 0x4D530000"
abbreviation (input) SOMA_ERR_UNSPECIFIED :: u32 where "SOMA_ERR_UNSPECIFIED \<equiv> 0x4D530001"
abbreviation (input) SOMA_ERR_NETWORK_TIMEOUT :: u32 where "SOMA_ERR_NETWORK_TIMEOUT \<equiv> 0x4D530002"
abbreviation (input) SOMA_ERR_CONNECTION_FAILURE :: u32 where "SOMA_ERR_CONNECTION_FAILURE \<equiv> 0x4D530003"
abbreviation (input) SOMA_ERR_DNS_LOOKUP_FAILURE :: u32 where "SOMA_ERR_DNS_LOOKUP_FAILURE \<equiv> 0x4D530004"
abbreviation (input) SOMA_ERR_CONNECTION_LOSS :: u32 where "SOMA_ERR_CONNECTION_LOSS \<equiv> 0x4D530005"
abbreviation (input) SOMA_ERR_NO_ROUTE_TO_SOURCE :: u32 where "SOMA_ERR_NO_ROUTE_TO_SOURCE \<equiv> 0x4D530006"
abbreviation (input) SOMA_ERR_SOURCE_REGISTRY_FULL :: u32 where "SOMA_ERR_SOURCE_REGISTRY_FULL \<equiv> 0x4D530007"
abbreviation (input) SOMA_ERR_SOURCE_NOT_FOUND :: u32 where "SOMA_ERR_SOURCE_NOT_FOUND \<equiv> 0x4D530008"
abbreviation (input) SOMA_ERR_INVALID_URI :: u32 where "SOMA_ERR_INVALID_URI \<equiv> 0x4D530009"
abbreviation (input) SOMA_ERR_INVALID_REQUEST :: u32 where "SOMA_ERR_INVALID_REQUEST \<equiv> 0x4D53000A"
abbreviation (input) SOMA_ERR_INVALID_PARAMETER :: u32 where "SOMA_ERR_INVALID_PARAMETER \<equiv> 0x4D53000B"
abbreviation (input) SOMA_ERR_INVALID_MANIFEST_STATE :: u32 where "SOMA_ERR_INVALID_MANIFEST_STATE \<equiv> 0x4D53000C"
abbreviation (input) SOMA_ERR_INVALID_FW_STATE :: u32 where "SOMA_ERR_INVALID_FW_STATE \<equiv> 0x4D53000D"
abbreviation (input) SOMA_ERR_INVALID_EVENT :: u32 where "SOMA_ERR_INVALID_EVENT \<equiv> 0x4D53000E"
abbreviation (input) SOMA_ERR_LAST :: u32 where "SOMA_ERR_LAST \<equiv> 0x4D53000F"
abbreviation (input) SRCE_ERR_FIRST :: u32 where "SRCE_ERR_FIRST \<equiv> 0x45530000"
abbreviation (input) SRCE_ERR_UNINITIALIZED :: u32 where "SRCE_ERR_UNINITIALIZED \<equiv> 0x45530001"
abbreviation (input) SRCE_ERR_INVALID_PARAMETER :: u32 where "SRCE_ERR_INVALID_PARAMETER \<equiv> 0x45530002"
abbreviation (input) SRCE_ERR_FAILED :: u32 where "SRCE_ERR_FAILED \<equiv> 0x45530003"
abbreviation (input) SRCE_ERR_ABORT :: u32 where "SRCE_ERR_ABORT \<equiv> 0x45530004"
abbreviation (input) SRCE_ERR_BUSY :: u32 where "SRCE_ERR_BUSY \<equiv> 0x45530005"
abbreviation (input) SRCE_ERR_LAST :: u32 where "SRCE_ERR_LAST \<equiv> 0x45530006"
abbreviation (input) FIRM_ERR_FIRST :: u32 where "FIRM_ERR_FIRST \<equiv> 0x4D460000"
abbreviation (input) FIRM_ERR_WRITE :: u32 where "FIRM_ERR_WRITE \<equiv> 0x4D460001"
abbreviation (input) FIRM_ERR_INVALID_PARAMETER :: u32 where "FIRM_ERR_INVALID_PARAMETER \<equiv> 0x4D460002"
abbreviation (input) FIRM_ERR_INVALID_STATE :: u32 where "FIRM_ERR_INVALID_STATE \<equiv> 0x4D460003"
abbreviation (input) FIRM_ERR_ACTIVATE :: u32 where "FIRM_ERR_ACTIVATE \<equiv> 0x4D460004"
abbreviation (input) FIRM_ERR_UNINITIALIZED :: u32 where "FIRM_ERR_UNINITIALIZED \<equiv> 0x4D460005"
abbreviation (input) FIRM_ERR_INVALID_HASH :: u32 where "FIRM_ERR_INVALID_HASH \<equiv> 0x4D460006"
abbreviation (input) FIRM_ERR_FIRMWARE_TOO_LARGE :: u32 where "FIRM_ERR_FIRMWARE_TOO_LARGE \<equiv> 0x4D460007"
abbreviation (input) FIRM_ERR_LAST :: u32 where "FIRM_ERR_LAST \<equiv> 0x4D460008"
abbreviation (input) ARM_UC_CU_ERR_FIRST :: u32 where "ARM_UC_CU_ERR_FIRST \<equiv> 0x55430000"
abbreviation (input) ARM_UC_CU_ERR_INVALID_PARAMETER :: u32 where "ARM_UC_CU_ERR_INVALID_PARAMETER \<equiv> 0x55430001"
abbreviation (input) ARM_UC_CU_ERR_LAST :: u32 where "ARM_UC_CU_ERR_LAST \<equiv> 0x55430002"
abbreviation (input) ARM_UC_DI_ERR_FIRST :: u32 where "ARM_UC_DI_ERR_FIRST \<equiv> 0x49440000"
abbreviation (input) ARM_UC_DI_ERR_INVALID_PARAMETER :: u32 where "ARM_UC_DI_ERR_INVALID_PARAMETER \<equiv> 0x49440001"
abbreviation (input) ARM_UC_DI_ERR_NOT_READY :: u32 where "ARM_UC_DI_ERR_NOT_READY \<equiv> 0x49440002"
abbreviation (input) ARM_UC_DI_ERR_NOT_FOUND :: u32 where "ARM_UC_DI_ERR_NOT_FOUND \<equiv> 0x49440003"
abbreviation (input) ARM_UC_DI_ERR_SIZE :: u32 where "ARM_UC_DI_ERR_SIZE \<equiv> 0x49440004"
abbreviation (input) ARM_UC_DI_ERR_LAST :: u32 where "ARM_UC_DI_ERR_LAST \<equiv> 0x49440005"
abbreviation (input) HUB_ERR_FIRST :: u32 where "HUB_ERR_FIRST \<equiv> 0x42480000"
abbreviation (input) HUB_ERR_INTERNAL_ERROR :: u32 where "HUB_ERR_INTERNAL_ERROR \<equiv> 0x42480001"
abbreviation (input) HUB_ERR_ROLLBACK_PROTECTION :: u32 where "HUB_ERR_ROLLBACK_PROTECTION \<equiv> 0x42480002"
abbreviation (input) ARM_UC_HUB_ERR_NOT_AVAILABLE :: u32 where "ARM_UC_HUB_ERR_NOT_AVAILABLE \<equiv> 0x42480003"
abbreviation (input) HUB_ERR_CONNECTION :: u32 where "HUB_ERR_CONNECTION \<equiv> 0x42480004"
abbreviation (input) HUB_ERR_LAST :: u32 where "HUB_ERR_LAST \<equiv> 0x42480005"
abbreviation (input) ARM_UC_EQ_ERR_FIRST :: u32 where "ARM_UC_EQ_ERR_FIRST \<equiv> 0x51450000"
abbreviation (input) ARM_UC_EQ_ERR_POOL_EXHAUSTED :: u32 where "ARM_UC_EQ_ERR_POOL_EXHAUSTED \<equiv> 0x51450001"
abbreviation (input) ARM_UC_EQ_ERR_FAILED_TAKE :: u32 where "ARM_UC_EQ_ERR_FAILED_TAKE \<equiv> 0x51450002"
abbreviation (input) ARM_UC_EQ_ERR_LAST :: u32 where "ARM_UC_EQ_ERR_LAST \<equiv> 0x51450003"
abbreviation (input) PAAL_ERR_FIRST :: u32 where "PAAL_ERR_FIRST \<equiv> 0x4C500000"
abbreviation (input) PAAL_ERR_FIRMWARE_TOO_LARGE :: u32 where "PAAL_ERR_FIRMWARE_TOO_LARGE \<equiv> 0x4C500001"
abbreviation (input) PAAL_ERR_LAST :: u32 where "PAAL_ERR_LAST \<equiv> 0x4C500002"

definition error_code_table :: "(string \<times> u32) list" where
  "error_code_table =
    [(''ERR_NONE'', ERR_NONE),
     (''ERR_UNSPECIFIED'', ERR_UNSPECIFIED),
     (''ERR_INVALID_PARAMETER'', ERR_INVALID_PARAMETER),
     (''ERR_NULL_PTR'', ERR_NULL_PTR),
     (''ERR_NOT_READY'', ERR_NOT_READY),
     (''ERR_INVALID_STATE'', ERR_INVALID_STATE),
     (''ERR_OUT_OF_MEMORY'', ERR_OUT_OF_MEMORY),
     (''AUTH_ERR_FIRST'', AUTH_ERR_FIRST),
     (''AUTH_ERR_INSTALL_REJECTED'', AUTH_ERR_INSTALL_REJECTED),
     (''AUTH_ERR_INSTALL_UNAVAILABLE'', AUTH_ERR_INSTALL_UNAVAILABLE),
     (''AUTH_ERR_DOWNLOAD_REJECTED'', AUTH_ERR_DOWNLOAD_REJECTED),
     (''AUTH_ERR_DOWNLOAD_UNAVAILABLE'', AUTH_ERR_DOWNLOAD_UNAVAILABLE),
     (''AUTH_ERR_LAST'', AUTH_ERR_LAST),
     (''MFST_ERR_FIRST'', MFST_ERR_FIRST),
     (''MFST_ERR_NULL_PTR'', MFST_ERR_NULL_PTR),
     (''MFST_ERR_NOT_READY'', MFST_ERR_NOT_READY),
     (''MFST_ERR_PENDING'', MFST_ERR_PENDING),
     (''MFST_ERR_SIZE'', MFST_ERR_SIZE),
     (''MFST_ERR_DER_FORMAT'', MFST_ERR_DER_FORMAT),
     (''MFST_ERR_FORMAT'', MFST_ERR_FORMAT),
     (''MFST_ERR_VERSION'', MFST_ERR_VERSION),
     (''MFST_ERR_ROLLBACK'', MFST_ERR_ROLLBACK),
     (''MFST_ERR_CRYPTO_MODE'', MFST_ERR_CRYPTO_MODE),
     (''MFST_ERR_HASH'', MFST_ERR_HASH),
     (''MFST_ERR_GUID_VENDOR'', MFST_ERR_GUID_VENDOR),
     (''MFST_ERR_GUID_DEVCLASS'', MFST_ERR_GUID_DEVCLASS),
     (''MFST_ERR_GUID_DEVICE'', MFST_ERR_GUID_DEVICE),
     (''MFST_ERR_CFG_CREATE_FAILED'', MFST_ERR_CFG_CREATE_FAILED),
     (''MFST_ERR_KEY_SIZE'', MFST_ERR_KEY_SIZE),
     (''MFST_ERR_CERT_INVALID'', MFST_ERR_CERT_INVALID),
     (''MFST_ERR_CERT_NOT_FOUND'', MFST_ERR_CERT_NOT_FOUND),
     (''MFST_ERR_CERT_READ'', MFST_ERR_CERT_READ),
     (''MFST_ERR_INVALID_SIGNATURE'', MFST_ERR_INVALID_SIGNATURE),
     (''MFST_ERR_INVALID_STATE'', MFST_ERR_INVALID_STATE),
     (''MFST_ERR_BAD_EVENT'', MFST_ERR_BAD_EVENT),
     (''MFST_ERR_EMPTY_FIELD'', MFST_ERR_EMPTY_FIELD),
     (''MFST_ERR_NO_MANIFEST'', MFST_ERR_NO_MANIFEST),
     (''MFST_ERR_SIGNATURE_ALGORITHM'', MFST_ERR_SIGNATURE_ALGORITHM),
     (''MFST_ERR_UNSUPPORTED_CONDITION'', MFST_ERR_UNSUPPORTED_CONDITION),
     (''MFST_ERR_CTR_IV_SIZE'', MFST_ERR_CTR_IV_SIZE),
     (''MFST_ERR_MISSING_KEYTABLE'', MFST_ERR_MISSING_KEYTABLE),
     (''MFST_ERR_BAD_KEYTABLE'', MFST_ERR_BAD_KEYTABLE),
     (''MFST_ERR_FIRMWARE_SIZE'', MFST_ERR_FIRMWARE_SIZE),
     (''MFST_ERR_LAST'', MFST_ERR_LAST),
     (''ARM_UC_CM_ERR_FIRST'', ARM_UC_CM_ERR_FIRST),
     (''ARM_UC_CM_ERR_INVALID_PARAMETER'', ARM_UC_CM_ERR_INVALID_PARAMETER),
     (''ARM_UC_CM_ERR_NOT_FOUND'', ARM_UC_CM_ERR_NOT_FOUND),
     (''ARM_UC_CM_ERR_INVALID_CERT'', ARM_UC_CM_ERR_INVALID_CERT),
     (''ARM_UC_CM_ERR_BLACKLISTED'', ARM_UC_CM_ERR_BLACKLISTED),
     (''ARM_UC_CM_ERR_LAST'', ARM_UC_CM_ERR_LAST),
     (''ARM_UC_DP_ERR_FIRST'', ARM_UC_DP_ERR_FIRST),
     (''ARM_UC_DP_ERR_UNKNOWN'', ARM_UC_DP_ERR_UNKNOWN),
     (''ARM_UC_DP_ERR_NOT_FOUND'', ARM_UC_DP_ERR_NOT_FOUND),
     (''ARM_UC_DP_ERR_NO_MORE_ELEMENTS'', ARM_UC_DP_ERR_NO_MORE_ELEMENTS),
     (''ARM_UC_DP_ERR_LAST'', ARM_UC_DP_ERR_LAST),
     (''SOMA_ERR_FIRST'', SOMA_ERR_FIRST),
     (''SOMA_ERR_UNSPECIFIED'', SOMA_ERR_UNSPECIFIED),
     (''SOMA_ERR_NETWORK_TIMEOUT'', SOMA_ERR_NETWORK_TIMEOUT),
     (''SOMA_ERR_CONNECTION_FAILURE'', SOMA_ERR_CONNECTION_FAILURE),
     (''SOMA_ERR_DNS_LOOKUP_FAILURE'', SOMA_ERR_DNS_LOOKUP_FAILURE),
     (''SOMA_ERR_CONNECTION_LOSS'', SOMA_ERR_CONNECTION_LOSS),
     (''SOMA_ERR_NO_ROUTE_TO_SOURCE'', SOMA_ERR_NO_ROUTE_TO_SOURCE),
     (''SOMA_ERR_SOURCE_REGISTRY_FULL'', SOMA_ERR_SOURCE_REGISTRY_FULL),
     (''SOMA_ERR_SOURCE_NOT_FOUND'', SOMA_ERR_SOURCE_NOT_FOUND),
     (''SOMA_ERR_INVALID_URI'', SOMA_ERR_INVALID_URI),
     (''SOMA_ERR_INVALID_REQUEST'', SOMA_ERR_INVALID_REQUEST),
     (''SOMA_ERR_INVALID_PARAMETER'', SOMA_ERR_INVALID_PARAMETER),
     (''SOMA_ERR_INVALID_MANIFEST_STATE'', SOMA_ERR_INVALID_MANIFEST_STATE),
     (''SOMA_ERR_INVALID_FW_STATE'', SOMA_ERR_INVALID_FW_STATE),
     (''SOMA_ERR_INVALID_EVENT'', SOMA_ERR_INVALID_EVENT),
     (''SOMA_ERR_LAST'', SOMA_ERR_LAST),
     (''SRCE_ERR_FIRST'', SRCE_ERR_FIRST),
     (''SRCE_ERR_UNINITIALIZED'', SRCE_ERR_UNINITIALIZED),
     (''SRCE_ERR_INVALID_PARAMETER'', SRCE_ERR_INVALID_PARAMETER),
     (''SRCE_ERR_FAILED'', SRCE_ERR_FAILED),
     (''SRCE_ERR_ABORT'', SRCE_ERR_ABORT),
     (''SRCE_ERR_BUSY'', SRCE_ERR_BUSY),
     (''SRCE_ERR_LAST'', SRCE_ERR_LAST),
     (''FIRM_ERR_FIRST'', FIRM_ERR_FIRST),
     (''FIRM_ERR_WRITE'', FIRM_ERR_WRITE),
     (''FIRM_ERR_INVALID_PARAMETER'', FIRM_ERR_INVALID_PARAMETER),
     (''FIRM_ERR_INVALID_STATE'', FIRM_ERR_INVALID_STATE),
     (''FIRM_ERR_ACTIVATE'', FIRM_ERR_ACTIVATE),
     (''FIRM_ERR_UNINITIALIZED'', FIRM_ERR_UNINITIALIZED),
     (''FIRM_ERR_INVALID_HASH'', FIRM_ERR_INVALID_HASH),
     (''FIRM_ERR_FIRMWARE_TOO_LARGE'', FIRM_ERR_FIRMWARE_TOO_LARGE),
     (''FIRM_ERR_LAST'', FIRM_ERR_LAST),
     (''ARM_UC_CU_ERR_FIRST'', ARM_UC_CU_ERR_FIRST),
     (''ARM_UC_CU_ERR_INVALID_PARAMETER'', ARM_UC_CU_ERR_INVALID_PARAMETER),
     (''ARM_UC_CU_ERR_LAST'', ARM_UC_CU_ERR_LAST),
     (''ARM_UC_DI_ERR_FIRST'', ARM_UC_DI_ERR_FIRST),
     (''ARM_UC_DI_ERR_INVALID_PARAMETER'', ARM_UC_DI_ERR_INVALID_PARAMETER),
     (''ARM_UC_DI_ERR_NOT_READY'', ARM_UC_DI_ERR_NOT_READY),
     (''ARM_UC_DI_ERR_NOT_FOUND'', ARM_UC_DI_ERR_NOT_FOUND),
     (''ARM_UC_DI_ERR_SIZE'', ARM_UC_DI_ERR_SIZE),
     (''ARM_UC_DI_ERR_LAST'', ARM_UC_DI_ERR_LAST),
     (''HUB_ERR_FIRST'', HUB_ERR_FIRST),
     (''HUB_ERR_INTERNAL_ERROR'', HUB_ERR_INTERNAL_ERROR),
     (''HUB_ERR_ROLLBACK_PROTECTION'', HUB_ERR_ROLLBACK_PROTECTION),
     (''ARM_UC_HUB_ERR_NOT_AVAILABLE'', ARM_UC_HUB_ERR_NOT_AVAILABLE),
     (''HUB_ERR_CONNECTION'', HUB_ERR_CONNECTION),
     (''HUB_ERR_LAST'', HUB_ERR_LAST),
     (''ARM_UC_EQ_ERR_FIRST'', ARM_UC_EQ_ERR_FIRST),
     (''ARM_UC_EQ_ERR_POOL_EXHAUSTED'', ARM_UC_EQ_ERR_POOL_EXHAUSTED),
     (''ARM_UC_EQ_ERR_FAILED_TAKE'', ARM_UC_EQ_ERR_FAILED_TAKE),
     (''ARM_UC_EQ_ERR_LAST'', ARM_UC_EQ_ERR_LAST),
     (''PAAL_ERR_FIRST'', PAAL_ERR_FIRST),
     (''PAAL_ERR_FIRMWARE_TOO_LARGE'', PAAL_ERR_FIRMWARE_TOO_LARGE),
     (''PAAL_ERR_LAST'', PAAL_ERR_LAST)]"

lemma enum_values_append:
  "enum_values p (xs @ ys) = enum_values p xs @ enum_values (last (p # map snd (enum_values p xs))) ys"
  by (induction p xs rule: enum_values.induct) auto

lemma error_code_table_enum: "enum_values (- 1) ARM_UC_ERR_LIST = error_code_table"
  by (simp add: ARM_UC_ERR_LIST_def error_code_table_def TWO_CC_def ARM_UC_COMMON_ERR_LIST_def ARM_UC_AUTH_ERR_LIST_def ARM_UC_MM_ERR_LIST_def ARM_UC_CM_ERR_LIST_def ARM_UC_DP_ERR_LIST_def ARM_UC_SM_ERR_LIST_def ARM_UC_SRC_ERR_LIST_def ARM_UC_FM_ERR_LIST_def ARM_UC_CU_ERR_LIST_def ARM_UC_DI_ERR_LIST_def ARM_UC_HB_ERR_LIST_def ARM_UC_EQ_ERR_LIST_def ARM_UC_PAAL_ERR_LIST_def)

lemma error_code_table_distinct: "distinct (map snd error_code_table)"
proof -
  have "map unat (map snd error_code_table) =
    [0, 1, 2, 3, 4, 5, 6, 1430323200, 1430323201, 1430323202, 1430323203, 1430323204,
     1430323205, 1296891904, 1296891905, 1296891906, 1296891907, 1296891908, 1296891909,
     1296891910, 1296891911, 1296891912, 1296891913, 1296891914, 1296891915, 1296891916,
     1296891917, 1296891918, 1296891919, 1296891920, 1296891921, 1296891922, 1296891923,
     1296891924, 1296891925, 1296891926, 1296891927, 1296891928, 1296891929, 1296891930,
     1296891931, 1296891932, 1296891933, 1296891934, 1296236544, 1296236545, 1296236546,
     1296236547, 1296236548, 1296236549, 1346633728, 1346633729, 1346633730, 1346633731,
     1346633732, 1297285120, 1297285121, 1297285122, 1297285123, 1297285124, 1297285125,
     1297285126, 1297285127, 1297285128, 1297285129, 1297285130, 1297285131, 1297285132,
     1297285133, 1297285134, 1297285135, 1163067392, 1163067393, 1163067394, 1163067395,
     1163067396, 1163067397, 1163067398, 1296433152, 1296433153, 1296433154, 1296433155,
     1296433156, 1296433157, 1296433158, 1296433159, 1296433160, 1430454272, 1430454273,
     1430454274, 1229193216, 1229193217, 1229193218, 1229193219, 1229193220, 1229193221,
     1112014848, 1112014849, 1112014850, 1112014851, 1112014852, 1112014853, 1363476480,
     1363476481, 1363476482, 1363476483, 1280311296, 1280311297, 1280311298]"
    by (simp add: error_code_table_def)
  then have "distinct (map unat (map snd error_code_table))" by simp
  then show ?thesis by (simp only: distinct_map)
qed


subsection \<open>Operations\<close>

definition ARM_UC_IS_ERROR :: "arm_uc_error_t \<Rightarrow> bool" where
  "ARM_UC_IS_ERROR e = (e \<noteq> ERR_NONE)"

definition ARM_UC_IS_NOT_ERROR :: "arm_uc_error_t \<Rightarrow> bool" where
  "ARM_UC_IS_NOT_ERROR e = (\<not> ARM_UC_IS_ERROR e)"

lemma not_error_iff [simp]: "ARM_UC_IS_NOT_ERROR e \<longleftrightarrow> \<not> ARM_UC_IS_ERROR e"
  by (simp add: ARM_UC_IS_NOT_ERROR_def)

lemma is_error_iff [simp]: "ARM_UC_IS_ERROR e \<longleftrightarrow> e \<noteq> 0"
  by (simp add: ARM_UC_IS_ERROR_def)

lemma err_error_none [simp]: "err_error ERR_NONE = 0"
  by (simp add: err_error_def)

lemma err_error_nonzero: "err_error e \<noteq> 0 \<Longrightarrow> e \<noteq> ERR_NONE"
  by (auto simp: err_error_def)

end
