(* ===== verification/UC_Types.thy ===== *)
theory UC_Types
  imports UC_Error
begin

text \<open>
  The shared structures of \<open>modules/common/update-client-common/arm_uc_types.h\<close> and the sizes it
  defines. An \<open>arm_uc_buffer_t\<close> carries the object its \<open>ptr\<close> points to; nothing in the type
  forces \<open>size_max\<close> to be the size of that object, so \<open>buf_ok\<close> states it where a property
  needs it.
\<close>

record arm_uc_buffer_t =
  size_max :: u32
  bsize :: u32
  ptr :: bytes

definition buf_ok :: "arm_uc_buffer_t \<Rightarrow> bool" where
  "buf_ok b = (length (ptr b) = unat (size_max b) \<and> bsize b \<le> size_max b)"

abbreviation (input) ARM_UC_GUID_SIZE :: nat where "ARM_UC_GUID_SIZE \<equiv> 16"
abbreviation (input) ARM_UC_SHA256_SIZE :: nat where "ARM_UC_SHA256_SIZE \<equiv> 32"
abbreviation (input) ARM_UC_ROT_SIZE :: nat where "ARM_UC_ROT_SIZE \<equiv> 16"
abbreviation (input) ARM_UC_DEVICE_KEY_SIZE :: nat where "ARM_UC_DEVICE_KEY_SIZE \<equiv> 32"

record arm_uc_firmware_details_t =
  version :: u64
  fsize :: u64
  hash :: bytes
  campaign :: bytes
  signatureSize :: u32

definition details_ok :: "arm_uc_firmware_details_t \<Rightarrow> bool" where
  "details_ok d = (length (hash d) = ARM_UC_SHA256_SIZE \<and> length (campaign d) = ARM_UC_GUID_SIZE)"

definition no_details :: arm_uc_firmware_details_t where
  "no_details = \<lparr>version = 0, fsize = 0, hash = replicate 32 0, campaign = replicate 16 0,
                 signatureSize = 0\<rparr>"

record arm_uc_installer_details_t =
  arm_hash :: bytes
  oem_hash :: bytes
  layout :: u32

lemma details_ok_no_details [simp]: "details_ok no_details"
  by (simp add: details_ok_def no_details_def)

text \<open>\<open>memset\<close> and \<open>memcpy\<close> on a checked object.\<close>

definition memset0 :: "bytes \<Rightarrow> nat \<Rightarrow> nat \<Rightarrow> bytes option" where
  "memset0 m i n = wr_block m i (replicate n 0)"

definition memcpy :: "bytes \<Rightarrow> nat \<Rightarrow> bytes \<Rightarrow> nat \<Rightarrow> nat \<Rightarrow> bytes option" where
  "memcpy dst i src j n = Option.bind (rd_block src j n) (wr_block dst i)"

lemma memset0_fits [mem_simps]:
  "i + n \<le> length m \<Longrightarrow> memset0 m i n = Some (take i m @ replicate n 0 @ drop (i + n) m)"
  by (simp add: memset0_def mem_simps)

lemma memset0_length: "memset0 m i n = Some m' \<Longrightarrow> length m' = length m"
  by (simp add: memset0_def wr_block_length)

lemma memcpy_length: "memcpy dst i src j n = Some m' \<Longrightarrow> length m' = length dst"
  by (auto simp: memcpy_def bind_eq_Some_conv wr_block_length)

lemma memcpy_Some:
  "\<lbrakk>i + n \<le> length dst; j + n \<le> length src\<rbrakk> \<Longrightarrow>
     memcpy dst i src j n = wr_block dst i (take n (drop j src))"
  by (simp add: memcpy_def mem_simps)

end
