(* ===== verification/UC_Buffer_Utils.thy ===== *)
theory UC_Buffer_Utils
  imports UC_Types
begin

text \<open>
  \<open>modules/metadata-header/source/arm_uc_buffer_utilities.c\<close>: the CRC, the big-endian integers
  and the constant-time comparison. A pointer argument is an offset into an object, or \<open>None\<close>
  for \<open>NULL\<close>; the outer option of a result is \<open>None\<close> when an access leaves the object.

  The lemmas show that the integers round trip, that the comparison is exact, and that the CRC
  is affine in the data and detects every corruption confined to four consecutive bytes.
\<close>

subsection \<open>CRC-32\<close>

definition crc_bit :: "u32 \<Rightarrow> u32" where
  "crc_bit crc = (if crc AND 1 \<noteq> 0 then drop_bit 1 crc XOR 0xEDB88320 else drop_bit 1 crc)"

definition crc_byte :: "u32 \<Rightarrow> u8 \<Rightarrow> u32" where
  "crc_byte crc b = (crc_bit ^^ 8) (crc XOR ucast b)"

fun crc_loop :: "bytes \<Rightarrow> nat \<Rightarrow> nat \<Rightarrow> u32 \<Rightarrow> u32 option" where
  "crc_loop m current 0 crc = Some crc"
| "crc_loop m current (Suc n) crc = do {
     b \<leftarrow> rd m current;
     crc_loop m (Suc current) n (crc_byte crc b)
   }"

definition arm_uc_crc32 :: "bytes \<Rightarrow> nat \<Rightarrow> u32 \<Rightarrow> u32 option" where
  "arm_uc_crc32 m buffer len = do {
     crc \<leftarrow> crc_loop m buffer (unat len) 0xFFFFFFFF;
     Some (crc XOR 0xFFFFFFFF)
   }"

subsection \<open>Big-endian integers\<close>

definition arm_uc_parse_uint32 :: "bytes \<Rightarrow> nat option \<Rightarrow> u32 option" where
  "arm_uc_parse_uint32 m input = (case input of None \<Rightarrow> Some 0 | Some p \<Rightarrow> do {
     b0 \<leftarrow> rd m p;
     let result = (ucast b0 :: u32);
     b1 \<leftarrow> rd m (p + 1);
     let result = push_bit 8 result OR ucast b1;
     b2 \<leftarrow> rd m (p + 2);
     let result = push_bit 8 result OR ucast b2;
     b3 \<leftarrow> rd m (p + 3);
     Some (push_bit 8 result OR ucast b3)
   })"

definition arm_uc_parse_uint64 :: "bytes \<Rightarrow> nat option \<Rightarrow> u64 option" where
  "arm_uc_parse_uint64 m input = (case input of None \<Rightarrow> Some 0 | Some p \<Rightarrow> do {
     b0 \<leftarrow> rd m p;
     let result = (ucast b0 :: u64);
     b1 \<leftarrow> rd m (p + 1);
     let result = push_bit 8 result OR ucast b1;
     b2 \<leftarrow> rd m (p + 2);
     let result = push_bit 8 result OR ucast b2;
     b3 \<leftarrow> rd m (p + 3);
     let result = push_bit 8 result OR ucast b3;
     b4 \<leftarrow> rd m (p + 4);
     let result = push_bit 8 result OR ucast b4;
     b5 \<leftarrow> rd m (p + 5);
     let result = push_bit 8 result OR ucast b5;
     b6 \<leftarrow> rd m (p + 6);
     let result = push_bit 8 result OR ucast b6;
     b7 \<leftarrow> rd m (p + 7);
     Some (push_bit 8 result OR ucast b7)
   })"

definition arm_uc_write_uint32 :: "bytes \<Rightarrow> nat option \<Rightarrow> u32 \<Rightarrow> bytes option" where
  "arm_uc_write_uint32 m buffer v = (case buffer of None \<Rightarrow> Some m | Some p \<Rightarrow> do {
     m \<leftarrow> wr m (p + 3) (ucast v);
     m \<leftarrow> wr m (p + 2) (ucast (drop_bit 8 v));
     m \<leftarrow> wr m (p + 1) (ucast (drop_bit 16 v));
     wr m p (ucast (drop_bit 24 v))
   })"

definition arm_uc_write_uint64 :: "bytes \<Rightarrow> nat option \<Rightarrow> u64 \<Rightarrow> bytes option" where
  "arm_uc_write_uint64 m buffer v = (case buffer of None \<Rightarrow> Some m | Some p \<Rightarrow> do {
     m \<leftarrow> wr m (p + 7) (ucast v);
     m \<leftarrow> wr m (p + 6) (ucast (drop_bit 8 v));
     m \<leftarrow> wr m (p + 5) (ucast (drop_bit 16 v));
     m \<leftarrow> wr m (p + 4) (ucast (drop_bit 24 v));
     m \<leftarrow> wr m (p + 3) (ucast (drop_bit 32 v));
     m \<leftarrow> wr m (p + 2) (ucast (drop_bit 40 v));
     m \<leftarrow> wr m (p + 1) (ucast (drop_bit 48 v));
     wr m p (ucast (drop_bit 56 v))
   })"

subsection \<open>Constant-time comparison\<close>

fun cmp_loop :: "bytes \<Rightarrow> bytes \<Rightarrow> nat \<Rightarrow> nat \<Rightarrow> u32 \<Rightarrow> u32 option" where
  "cmp_loop a b i 0 result = Some result"
| "cmp_loop a b i (Suc n) result = do {
     x \<leftarrow> rd a i;
     y \<leftarrow> rd b i;
     cmp_loop a b (Suc i) n (result OR ucast (x XOR y))
   }"

definition ARM_UC_BinCompareCT :: "arm_uc_buffer_t \<Rightarrow> arm_uc_buffer_t \<Rightarrow> u32 option" where
  "ARM_UC_BinCompareCT a b =
     (if bsize a \<noteq> bsize b then Some 1
      else do {
        result \<leftarrow> cmp_loop (ptr a) (ptr b) 0 (unat (bsize a)) 0;
        Some (drop_bit 31 (result OR (- result)))
      })"

subsection \<open>The integers\<close>

definition be32 :: "u32 \<Rightarrow> bytes" where
  "be32 v = [ucast (drop_bit 24 v), ucast (drop_bit 16 v), ucast (drop_bit 8 v), ucast v]"

definition be64 :: "u64 \<Rightarrow> bytes" where
  "be64 v = [ucast (drop_bit 56 v), ucast (drop_bit 48 v), ucast (drop_bit 40 v),
             ucast (drop_bit 32 v), ucast (drop_bit 24 v), ucast (drop_bit 16 v),
             ucast (drop_bit 8 v), ucast v]"

lemma length_be [simp]: "length (be32 v) = 4" "length (be64 w) = 8"
  by (simp_all add: be32_def be64_def)

lemma split_at_block:
  assumes "p + n \<le> length m"
  obtains xs bs ys where "m = xs @ bs @ ys" "length xs = p" "length bs = n"
  using assms
  by (intro that[of "take p m" "take n (drop p m)" "drop (p + n) m"])
     (auto simp: append_take_drop_id[symmetric] drop_drop[symmetric] add.commute simp del: drop_drop)

lemma upd_block4:
  assumes "p + 4 \<le> length m"
  shows "m[p + 3 := d, Suc (Suc p) := c, Suc p := b, p := a] =
    take p m @ [a, b, c, d] @ drop (p + 4) m"
proof -
  from assms obtain xs bs ys where m: "m = xs @ bs @ ys" "length xs = p" "length bs = 4"
    by (rule split_at_block)
  from m(3) obtain b0 b1 b2 b3 where "bs = [b0, b1, b2, b3]"
    by (auto simp: numeral_eq_Suc length_Suc_conv)
  with m(1,2) show ?thesis by (simp add: list_update_append numeral_eq_Suc)
qed

lemma upd_block8:
  assumes "p + 8 \<le> length m"
  shows "m[p + 7 := h, p + 6 := g, p + 5 := f, p + 4 := e, p + 3 := d, Suc (Suc p) := c,
      Suc p := b, p := a] = take p m @ [a, b, c, d, e, f, g, h] @ drop (p + 8) m"
proof -
  from assms obtain xs bs ys where m: "m = xs @ bs @ ys" "length xs = p" "length bs = 8"
    by (rule split_at_block)
  from m(3) obtain b0 b1 b2 b3 b4 b5 b6 b7 where "bs = [b0, b1, b2, b3, b4, b5, b6, b7]"
    by (auto simp: numeral_eq_Suc length_Suc_conv)
  with m(1,2) show ?thesis by (simp add: list_update_append numeral_eq_Suc)
qed

lemma write_uint32_block:
  "p + 4 \<le> length m \<Longrightarrow> arm_uc_write_uint32 m (Some p) v = wr_block m p (be32 v)"
  by (simp add: arm_uc_write_uint32_def be32_def mem_simps upd_block4 [simplified],
      simp add: numeral_eq_Suc)

lemma write_uint64_block:
  "p + 8 \<le> length m \<Longrightarrow> arm_uc_write_uint64 m (Some p) v = wr_block m p (be64 v)"
  by (simp add: arm_uc_write_uint64_def be64_def mem_simps upd_block8 [simplified],
      simp add: numeral_eq_Suc)

lemma be32_assemble:
  "push_bit 8 (push_bit 8 (push_bit 8 (ucast (ucast (drop_bit 24 v) :: u8)) OR
     ucast (ucast (drop_bit 16 v) :: u8)) OR ucast (ucast (drop_bit 8 v) :: u8)) OR
     ucast (ucast v :: u8) = (v :: u32)"
proof (rule bit_word_eqI)
  fix n
  assume "n < LENGTH(32)"
  then consider "n < 8" | "8 \<le> n \<and> n < 16" | "16 \<le> n \<and> n < 24" | "24 \<le> n \<and> n < 32"
    by fastforce
  then show "bit (push_bit 8 (push_bit 8 (push_bit 8 (ucast (ucast (drop_bit 24 v) :: u8)) OR
     ucast (ucast (drop_bit 16 v) :: u8)) OR ucast (ucast (drop_bit 8 v) :: u8)) OR
     ucast (ucast v :: u8) :: u32) n = bit v n"
    by cases (auto simp: bit_simps)
qed

lemma parse_uint32_be:
  assumes "rd_block m p 4 = Some (be32 v)"
  shows "arm_uc_parse_uint32 m (Some p) = Some v"
proof -
  from assms have l: "p + 4 \<le> length m" and b: "take 4 (drop p m) = be32 v"
    by (auto simp: rd_block_def split: if_splits)
  have "m ! (p + k) = be32 v ! k" if "k < 4" for k
    using that l unfolding b[symmetric] by simp
  from this[of 0] this[of 1] this[of 2] this[of 3] l show ?thesis
    by (simp add: arm_uc_parse_uint32_def mem_simps be32_def be32_assemble [simplified] Let_def)
qed

lemma drop_bit_split8:
  fixes v :: "'a :: len word"
  assumes "8 < LENGTH('a)"
  shows "push_bit 8 (drop_bit (k + 8) v) OR ucast (ucast (drop_bit k v) :: u8) = drop_bit k v"
proof (rule bit_word_eqI)
  fix n
  assume "n < LENGTH('a)"
  with assms show "bit (push_bit 8 (drop_bit (k + 8) v) OR ucast (ucast (drop_bit k v) :: u8)) n =
      bit (drop_bit k v) n"
    by (cases "n < 8") (auto simp: bit_simps dest: bit_imp_le_length)
qed

lemma ucast_top8: "ucast (ucast (drop_bit 56 (v :: u64)) :: u8) = drop_bit 56 v"
proof (rule bit_word_eqI)
  fix n
  show "n < LENGTH(64) \<Longrightarrow>
      bit (ucast (ucast (drop_bit 56 v) :: u8) :: u64) n = bit (drop_bit 56 v) n"
    by (cases "n < 8") (auto simp: bit_simps dest: bit_imp_le_length)
qed

lemma parse_uint64_be:
  assumes "rd_block m p 8 = Some (be64 v)"
  shows "arm_uc_parse_uint64 m (Some p) = Some v"
proof -
  from assms have l: "p + 8 \<le> length m" and b: "take 8 (drop p m) = be64 v"
    by (auto simp: rd_block_def split: if_splits)
  have n: "m ! (p + k) = be64 v ! k" if "k < 8" for k
    using that l unfolding b[symmetric] by simp
  note s = drop_bit_split8[where 'a = 64, simplified]
  from n[of 0] n[of 1] n[of 2] n[of 3] n[of 4] n[of 5] n[of 6] n[of 7] l
    s[of 48 v] s[of 40 v] s[of 32 v] s[of 24 v] s[of 16 v] s[of 8 v] s[of 0 v]
  show ?thesis
    by (simp add: arm_uc_parse_uint64_def mem_simps be64_def Let_def ucast_top8 del: push_bit_or push_bit_push_bit)
qed

text \<open>Writing and reading back, at any place of an object.\<close>

lemma write_parse_uint32:
  assumes "p + 4 \<le> length m"
  shows "\<exists>m'. arm_uc_write_uint32 m (Some p) v = Some m' \<and> arm_uc_parse_uint32 m' (Some p) = Some v"
  using assms parse_uint32_be rd_block_wr_block_same[of m p "be32 v"]
  by (simp add: write_uint32_block wr_block_fits)

lemma write_parse_uint64:
  assumes "p + 8 \<le> length m"
  shows "\<exists>m'. arm_uc_write_uint64 m (Some p) v = Some m' \<and> arm_uc_parse_uint64 m' (Some p) = Some v"
  using assms parse_uint64_be rd_block_wr_block_same[of m p "be64 v"]
  by (simp add: write_uint64_block wr_block_fits)

subsection \<open>The constant-time comparison\<close>

lemma uint_uminus_pos:
  assumes "(r :: u32) \<noteq> 0"
  shows "uint (- r) = 2 ^ 32 - uint r"
proof -
  have "uint r \<noteq> 0" using assms by (simp add: uint_0_iff)
  moreover have "0 \<le> uint r" "uint r < 2 ^ 32" using uint_lt2p[of r] by simp_all
  ultimately have "(- uint r) mod 2 ^ 32 = 2 ^ 32 - uint r"
    by (subst zmod_zminus1_eq_if) simp
  then show ?thesis by (simp add: uint_word_ariths)
qed

lemma bit31_iff: "bit (w :: u32) 31 \<longleftrightarrow> 2 ^ 31 \<le> uint w"
proof -
  have "uint w < 2 ^ 32" using uint_lt2p[of w] by simp
  then have "uint w div 2 ^ 31 = (if 2 ^ 31 \<le> uint w then 1 else 0)"
    by auto
  moreover have "bit (uint w) 31 = odd (uint w div 2 ^ 31)" by (rule bit_iff_odd)
  moreover have "bit (uint w) 31 = bit w 31" by (simp add: bit_uint_iff)
  ultimately show ?thesis by (simp split: if_splits)
qed

lemma drop_bit31: "drop_bit 31 (w :: u32) = (if bit w 31 then 1 else 0)"
proof (rule bit_word_eqI)
  fix n assume "n < LENGTH(32)"
  show "bit (drop_bit 31 w) n = bit (if bit w 31 then 1 else 0 :: u32) n"
    by (cases n) (auto simp: bit_simps dest: bit_imp_le_length)
qed

lemma reduce_CT: "drop_bit 31 ((r :: u32) OR (- r)) = (if r = 0 then 0 else 1)"
proof (cases "r = 0")
  case False
  then have "bit r 31 \<or> bit (- r) 31"
    using uint_uminus_pos[of r] by (auto simp: bit31_iff)
  then have "bit (r OR (- r)) 31" by (simp only: bit_or_iff)
  with False show ?thesis by (simp only: drop_bit31 if_True if_False)
qed simp

lemma ucast_eq_0_8_32: "(ucast (x :: u8) = (0 :: u32)) = (x = 0)"
proof
  assume a: "ucast x = (0 :: u32)"
  show "x = 0"
  proof (rule bit_word_eqI)
    fix n assume n: "n < LENGTH(8)"
    have "bit (ucast x :: u32) n = bit (0 :: u32) n" by (simp only: a)
    with n show "bit x n = bit 0 n" by (simp add: bit_simps)
  qed
qed simp

lemma ucast_xor_0: "(ucast (x XOR y :: u8) = (0 :: u32)) = (x = y)"
  by (simp add: ucast_eq_0_8_32)

lemma cmp_loop_spec:
  assumes "i + n \<le> length a" and "i + n \<le> length b"
  shows "\<exists>r'. cmp_loop a b i n r = Some r' \<and>
    (r' = 0 \<longleftrightarrow> r = 0 \<and> take n (drop i a) = take n (drop i b))"
  using assms
proof (induction a b i n r rule: cmp_loop.induct)
  case (2 a b i n result)
  then show ?case
    by (simp add: mem_simps word_or_zero_eq ucast_xor_0 take_Suc_drop conj_assoc)
qed simp

lemma BinCompareCT_spec:
  assumes "unat (bsize a) \<le> length (ptr a)" and "unat (bsize b) \<le> length (ptr b)"
  shows "ARM_UC_BinCompareCT a b =
    Some (if bsize a = bsize b \<and> take (unat (bsize a)) (ptr a) = take (unat (bsize b)) (ptr b)
          then 0 else 1)"
proof (cases "bsize a = bsize b")
  case True
  with assms obtain r where "cmp_loop (ptr a) (ptr b) 0 (unat (bsize a)) 0 = Some r"
      "r = 0 \<longleftrightarrow> take (unat (bsize a)) (ptr a) = take (unat (bsize b)) (ptr b)"
    using cmp_loop_spec[of 0 "unat (bsize a)" "ptr a" "ptr b" 0] by auto
  with True show ?thesis by (simp add: ARM_UC_BinCompareCT_def reduce_CT del: drop_bit_or)
qed (simp add: ARM_UC_BinCompareCT_def)

text \<open>
  On two buffers that hold at least their declared sizes, the constant-time comparison never
  reads outside them and returns 0 exactly when the sizes and the contents agree, 1 otherwise:
  the reduction through the sign bit loses nothing.
\<close>

theorem BinCompareCT_exact:
  assumes "unat (bsize a) \<le> length (ptr a)" and "unat (bsize b) \<le> length (ptr b)"
  shows "ARM_UC_BinCompareCT a b =
    Some (if bsize a = bsize b \<and> take (unat (bsize a)) (ptr a) = take (unat (bsize b)) (ptr b)
          then 0 else 1)"
  using BinCompareCT_spec[OF assms] .

theorem BinCompareCT_exact_witness:
  "ARM_UC_BinCompareCT \<lparr>size_max = 2, bsize = 2, ptr = [7, 8]\<rparr> \<lparr>size_max = 2, bsize = 2, ptr = [7, 9]\<rparr>
     = Some 1"
  by (subst BinCompareCT_exact) simp_all

subsection \<open>The CRC\<close>

lemma crc_bit_alt: "crc_bit a = drop_bit 1 a XOR (if odd a then 0xEDB88320 else 0)"
  by (simp add: crc_bit_def and_one_eq mod_2_eq_odd)

lemma crc_bit_0 [simp]: "crc_bit 0 = 0"
  by (simp add: crc_bit_def)

lemma crc_bit_xor: "crc_bit (a XOR b) = crc_bit a XOR crc_bit b"
  by (simp add: crc_bit_alt even_xor_iff ac_simps)

lemma crc_bit_eq_0 [simp]: "crc_bit a = 0 \<longleftrightarrow> a = 0"
proof
  assume z: "crc_bit a = 0"
  have "\<not> bit (drop_bit 1 a) 31" by (auto simp: bit_simps dest: bit_imp_le_length)
  then have "drop_bit 1 a \<noteq> 0xEDB88320" by auto
  with z have e: "even a" and d: "drop_bit 1 a = 0" by (auto simp: crc_bit_alt split: if_splits)
  show "a = 0"
  proof (rule bit_word_eqI)
    fix n
    show "bit a n = bit 0 n"
    proof (cases n)
      case 0 with e show ?thesis by (simp add: bit_0)
    next
      case (Suc k)
      have "bit (drop_bit 1 a) k = bit (0 :: u32) k" by (simp only: d)
      then show ?thesis using Suc by (simp add: bit_simps)
    qed
  qed
qed simp

lemma crc_bits_0 [simp]: "(crc_bit ^^ k) 0 = 0"
  by (induction k) auto

lemma crc_bits_eq_0 [simp]: "(crc_bit ^^ k) a = 0 \<longleftrightarrow> a = 0"
  by (induction k) auto

lemma crc_bits_xor: "(crc_bit ^^ k) (a XOR b) = (crc_bit ^^ k) a XOR (crc_bit ^^ k) b"
  by (induction k) (auto simp: crc_bit_xor)

lemma crc_bits_add: "(crc_bit ^^ k) ((crc_bit ^^ l) a) = (crc_bit ^^ (k + l)) a"
  by (simp add: funpow_add)

lemma crc_bits_push:
  assumes "\<And>n. 32 - k \<le> n \<Longrightarrow> \<not> bit w n"
  shows "(crc_bit ^^ k) (push_bit k w) = w"
  using assms
proof (induction k arbitrary: w)
  case (Suc k)
  have top: "\<not> bit (push_bit k w) 31" if "k \<le> 31"
    using Suc.prems[of "31 - k"] that by (auto simp: bit_simps)
  have "crc_bit (push_bit (Suc k) w) = push_bit k w"
  proof (rule bit_word_eqI)
    fix n assume n: "n < LENGTH(32)"
    have "even (push_bit (Suc k) w)" by (simp add: even_push_bit_iff)
    then have "crc_bit (push_bit (Suc k) w) = drop_bit 1 (push_bit (Suc k) w)"
      by (simp add: crc_bit_alt)
    then have "bit (crc_bit (push_bit (Suc k) w)) n \<longleftrightarrow> bit (push_bit (Suc k) w) (Suc n)"
      by (simp add: bit_drop_bit_eq del: push_bit_Suc)
    also have "\<dots> \<longleftrightarrow> k \<le> n \<and> Suc n < 32 \<and> bit w (n - k)"
      by (auto simp: bit_push_bit_iff simp del: push_bit_Suc)
    also have "\<dots> \<longleftrightarrow> bit (push_bit k w) n"
    proof (cases "Suc n < 32")
      case False
      with n have "n = 31" by simp
      with top show ?thesis by (auto simp: bit_simps)
    qed (auto simp: bit_simps)
    finally show "bit (crc_bit (push_bit (Suc k) w)) n = bit (push_bit k w) n" .
  qed
  then have "(crc_bit ^^ Suc k) (push_bit (Suc k) w) = (crc_bit ^^ k) (push_bit k w)"
    by (simp add: funpow_swap1 del: push_bit_Suc)
  also have "\<dots> = w" using Suc by simp
  finally show ?case .
qed simp

lemma crc_byte_xor: "crc_byte (s XOR d) b = crc_byte s b XOR (crc_bit ^^ 8) d"
proof -
  have "(s XOR d) XOR ucast b = (s XOR ucast b) XOR d" by (simp add: ac_simps)
  then show ?thesis by (simp only: crc_byte_def crc_bits_xor)
qed

lemma crc_byte_data: "crc_byte s (b XOR c) = crc_byte s b XOR crc_byte 0 c"
proof -
  have "s XOR ucast (b XOR c) = (s XOR ucast b) XOR (ucast c :: u32)"
    by (rule bit_word_eqI) (auto simp: bit_simps)
  then show ?thesis by (simp only: crc_byte_def crc_bits_xor) simp
qed

lemma foldl_crc_byte_xor:
  "foldl crc_byte (s XOR d) bs = foldl crc_byte s bs XOR (crc_bit ^^ (8 * length bs)) d"
proof (induction bs arbitrary: s d)
  case (Cons b bs)
  then show ?case by (simp only: foldl_Cons crc_byte_xor Cons.IH crc_bits_add) (simp add: add.commute)
qed simp

lemma foldl_crc_byte_inj:
  "foldl crc_byte s bs = foldl crc_byte t bs \<longleftrightarrow> s = t"
proof
  assume eq: "foldl crc_byte s bs = foldl crc_byte t bs"
  have "t XOR (t XOR s) = s" by (simp add: xor.assoc[symmetric])
  with foldl_crc_byte_xor[of t "t XOR s" bs] eq
  have "foldl crc_byte t bs = foldl crc_byte t bs XOR (crc_bit ^^ (8 * length bs)) (t XOR s)"
    by simp
  then have "foldl crc_byte t bs XOR foldl crc_byte t bs =
      foldl crc_byte t bs XOR (foldl crc_byte t bs XOR (crc_bit ^^ (8 * length bs)) (t XOR s))"
    by (rule arg_cong)
  then have "(crc_bit ^^ (8 * length bs)) (t XOR s) = 0"
    by (simp add: xor.assoc[symmetric])
  then show "s = t" by simp
qed simp

lemma crc_loop_foldl:
  "i + n \<le> length m \<Longrightarrow> crc_loop m i n s = Some (foldl crc_byte s (take n (drop i m)))"
  by (induction m i n s rule: crc_loop.induct)
     (auto simp: mem_simps Cons_nth_drop_Suc[symmetric])

lemma ucast_xor_u8: "(ucast (b XOR c :: u8) :: u32) = ucast b XOR ucast c"
  by (rule bit_word_eqI) (auto simp: bit_simps)

lemma foldl_crc_byte_data:
  "length bs = length ds \<Longrightarrow>
     foldl crc_byte s (map2 (XOR) bs ds) = foldl crc_byte s bs XOR foldl crc_byte 0 ds"
proof (induction bs ds arbitrary: s rule: rev_induct2)
  case 1 show ?case by simp
next
  case (4 b bs d ds)
  then show ?case
    by (simp add: crc_byte_def ucast_xor_u8 crc_bits_xor[symmetric] ac_simps)
qed auto

text \<open>Four data bytes shift into a zero register as one word.\<close>

lemma crc_push8: "(crc_bit ^^ 8) (push_bit 8 (ucast (d :: u8))) = ucast d"
  by (rule crc_bits_push) (auto simp: bit_simps dest: bit_imp_le_length)

lemma crc_four_bytes:
  "foldl crc_byte 0 [d0, d1, d2, d3] =
     (crc_bit ^^ 32) (ucast d0 XOR push_bit 8 (ucast d1) XOR push_bit 16 (ucast d2) XOR
       push_bit 24 (ucast d3))"
proof -
  have p2: "(crc_bit ^^ 16) (push_bit 16 (ucast (d :: u8))) = ucast d" for d
    by (rule crc_bits_push) (auto simp: bit_simps dest: bit_imp_le_length)
  have p3: "(crc_bit ^^ 24) (push_bit 24 (ucast (d :: u8))) = ucast d" for d
    by (rule crc_bits_push) (auto simp: bit_simps dest: bit_imp_le_length)
  have r1: "(crc_bit ^^ 32) (push_bit 8 (ucast (d :: u8))) = (crc_bit ^^ 24) (ucast d)" for d
    using crc_bits_add[of 24 8 "push_bit 8 (ucast d)"] by (simp only: crc_push8) simp
  have r2: "(crc_bit ^^ 32) (push_bit 16 (ucast (d :: u8))) = (crc_bit ^^ 16) (ucast d)" for d
    using crc_bits_add[of 16 16 "push_bit 16 (ucast d)"] by (simp only: p2) simp
  have r3: "(crc_bit ^^ 32) (push_bit 24 (ucast (d :: u8))) = (crc_bit ^^ 8) (ucast d)" for d
    using crc_bits_add[of 8 24 "push_bit 24 (ucast d)"] by (simp only: p3) simp
  have l: "foldl crc_byte 0 [d0, d1, d2, d3] = (crc_bit ^^ (8 + (8 + (8 + 8)))) (ucast d0) XOR
      (crc_bit ^^ (8 + (8 + 8))) (ucast d1) XOR (crc_bit ^^ (8 + 8)) (ucast d2) XOR
      (crc_bit ^^ 8) (ucast d3)"
    by (simp only: foldl_Cons foldl_Nil crc_byte_def xor.left_neutral crc_bits_xor crc_bits_add
        xor.assoc)
  show ?thesis unfolding l by (simp only: crc_bits_xor r1 r2 r3 xor.assoc) simp
qed

lemma four_bytes_zero:
  assumes "(ucast (d0 :: u8) XOR push_bit 8 (ucast (d1 :: u8)) XOR push_bit 16 (ucast (d2 :: u8))
     XOR push_bit 24 (ucast (d3 :: u8))) = (0 :: u32)"
  shows "d0 = 0 \<and> d1 = 0 \<and> d2 = 0 \<and> d3 = 0"
proof -
  have b: "bit (ucast d0 XOR push_bit 8 (ucast d1) XOR push_bit 16 (ucast d2) XOR
      push_bit 24 (ucast d3) :: u32) n = False" for n
    by (simp only: assms bit_0_eq bot_fun_def bot_bool_def)
  have "\<not> bit d0 n" "\<not> bit d1 n" "\<not> bit d2 n" "\<not> bit d3 n" if "n < 8" for n
    using that b[of n] b[of "n + 8"] b[of "n + 16"] b[of "n + 24"]
    by (auto simp: bit_simps dest: bit_imp_le_length)
  then show ?thesis by (auto intro!: bit_word_eqI)
qed

text \<open>A difference confined to four consecutive bytes changes the register.\<close>

lemma crc_window:
  assumes "length bs = 4" and "length cs = 4" and "bs \<noteq> cs"
  shows "foldl crc_byte s bs \<noteq> foldl crc_byte s cs"
proof
  assume eq: "foldl crc_byte s bs = foldl crc_byte s cs"
  from assms(1,2) obtain b0 b1 b2 b3 c0 c1 c2 c3
    where b: "bs = [b0, b1, b2, b3]" and c: "cs = [c0, c1, c2, c3]"
    by (auto simp: numeral_eq_Suc length_Suc_conv)
  let ?d = "[b0 XOR c0, b1 XOR c1, b2 XOR c2, b3 XOR c3]"
  have "cs = map2 (XOR) bs ?d" by (simp add: b c xor.assoc[symmetric])
  then have "foldl crc_byte s cs = foldl crc_byte s bs XOR foldl crc_byte 0 ?d"
    using foldl_crc_byte_data[of bs ?d s] b by simp
  with eq have "foldl crc_byte s bs XOR foldl crc_byte s bs =
      foldl crc_byte s bs XOR (foldl crc_byte s bs XOR foldl crc_byte 0 ?d)"
    by metis
  then have "foldl crc_byte 0 ?d = 0" by (simp only: xor.assoc[symmetric]) simp
  then have "b0 XOR c0 = 0 \<and> b1 XOR c1 = 0 \<and> b2 XOR c2 = 0 \<and> b3 XOR c3 = 0"
    unfolding crc_four_bytes crc_bits_eq_0 by (rule four_bytes_zero)
  with b c assms(3) show False by simp
qed

lemma arm_uc_crc32_foldl:
  "p + unat n \<le> length m \<Longrightarrow>
     arm_uc_crc32 m p n = Some (foldl crc_byte 0xFFFFFFFF (take (unat n) (drop p m)) XOR 0xFFFFFFFF)"
  by (simp add: arm_uc_crc32_def crc_loop_foldl)

lemma foldl_crc_window:
  assumes "length w = 4" "length w' = 4" "w \<noteq> w'"
  shows "foldl crc_byte s (pre @ w @ post) \<noteq> foldl crc_byte s (pre @ w' @ post)"
  using crc_window[OF assms] by (simp add: foldl_crc_byte_inj)

text \<open>
  C29. Two objects whose checked ranges differ, and differ only inside one window of four
  consecutive bytes, have different CRCs: any burst of corruption that fits four bytes of the
  range is detected.
\<close>

theorem crc32_detects_window:
  assumes "take (unat n) (drop p m) = pre @ w @ post" and "take (unat n) (drop p m') = pre @ w' @ post"
    and "p + unat n \<le> length m" and "p + unat n \<le> length m'"
    and "length w = 4" and "length w' = 4" and "w \<noteq> w'"
  shows "arm_uc_crc32 m p n \<noteq> arm_uc_crc32 m' p n"
  using foldl_crc_window[OF assms(5-7), of "0xFFFFFFFF" pre post] assms(1-4)
  by (simp add: arm_uc_crc32_foldl word_xor_cancel_right)

theorem crc32_detects_window_witness:
  "arm_uc_crc32 [1, 2, 3, 4, 5, 6] 0 6 \<noteq> arm_uc_crc32 [1, 2, 3, 4, 7, 9] 0 6"
  by (rule crc32_detects_window[where pre = "[1, 2]" and w = "[3, 4, 5, 6]" and w' = "[3, 4, 7, 9]"
        and post = "[]"]) simp_all

end
