(* ===== verification/UC_Crypto.thy ===== *)
theory UC_Crypto
  imports UC_Buffer_Utils
begin

text \<open>
  The crypto glue the update client is built with in the mbed-cloud-client profile,
  \<open>modules/common/source/arm_uc_crypto_pal.c\<close>. The platform abstraction it calls is a parameter:
  \<open>pal_mdHmacSha256\<close> gives the status and the bytes the call leaves in its output object (their
  number is the output size), \<open>pal_plat_osGetRoT\<close> the status and the root of trust, and the
  message digest functions of the handle operations give their statuses and the digest. A digest
  handle is the list of the bytes fed to it. \<open>PAL_SUCCESS\<close> is 0.
\<close>

type_synonym palStatus = "32 word"

record pal_crypto =
  pal_mdHmacSha256 :: "bytes \<Rightarrow> bytes \<Rightarrow> palStatus \<times> bytes"
  pal_plat_osGetRoT :: "palStatus \<times> bytes"
  pal_mdInit :: "palStatus"
  pal_mdUpdate :: "bytes \<Rightarrow> bytes \<Rightarrow> palStatus"
  pal_mdFinal :: "bytes \<Rightarrow> palStatus \<times> bytes"
  pal_mdFree :: "bytes \<Rightarrow> palStatus"
  key_derivation_backward_compat :: bool

definition store_at0 :: "arm_uc_buffer_t \<Rightarrow> bytes \<Rightarrow> arm_uc_buffer_t option" where
  "store_at0 b bs = map_option (\<lambda>m. b\<lparr>ptr := m\<rparr>) (wr_block (ptr b) 0 bs)"

definition ARM_UC_cryptoHashSetup :: "pal_crypto \<Rightarrow> bytes option \<Rightarrow> arm_uc_error_t \<times> bytes option" where
  "ARM_UC_cryptoHashSetup pc hDigest =
     (case hDigest of None \<Rightarrow> (ARM_UC_CU_ERR_INVALID_PARAMETER, None)
      | Some _ \<Rightarrow> (if pal_mdInit pc = 0 then ERR_NONE else ARM_UC_CU_ERR_INVALID_PARAMETER, Some []))"

definition ARM_UC_cryptoHashUpdate ::
    "pal_crypto \<Rightarrow> bytes option \<Rightarrow> arm_uc_buffer_t option \<Rightarrow> (arm_uc_error_t \<times> bytes option) option"
where
  "ARM_UC_cryptoHashUpdate pc hDigest input =
     (case (hDigest, input) of
        (Some fed, Some b) \<Rightarrow> do {
          bs \<leftarrow> rd_block (ptr b) 0 (unat (bsize b));
          Some (if pal_mdUpdate pc fed bs = 0 then (ERR_NONE, Some (fed @ bs))
                else (ARM_UC_CU_ERR_INVALID_PARAMETER, Some fed))
        }
      | _ \<Rightarrow> Some (ARM_UC_CU_ERR_INVALID_PARAMETER, hDigest))"

text \<open>
  \<open>HashFinish\<close> writes through \<open>output->ptr\<close> and releases the handle whatever happened. A failure
  of the release alone is reported with the module \<open>PA\<close> and the low half of the status.
\<close>

definition ARM_UC_cryptoHashFinish ::
    "pal_crypto \<Rightarrow> bytes option \<Rightarrow> arm_uc_buffer_t option \<Rightarrow>
     (arm_uc_error_t \<times> arm_uc_buffer_t option) option"
where
  "ARM_UC_cryptoHashFinish pc hDigest output = do {
     (result, output) \<leftarrow>
       (case (hDigest, output) of
          (Some fed, Some b) \<Rightarrow>
            (if size_max b \<ge> 256 div 8 then
               let (rc, digest) = pal_mdFinal pc fed in
               do { b \<leftarrow> store_at0 b digest;
                    Some (if rc = 0 then (ERR_NONE, Some (b\<lparr>bsize := 256 div 8\<rparr>))
                          else (ARM_UC_CU_ERR_INVALID_PARAMETER, Some b)) }
             else Some (ARM_UC_CU_ERR_INVALID_PARAMETER, output))
        | _ \<Rightarrow> Some (ARM_UC_CU_ERR_INVALID_PARAMETER, output));
     Some (case hDigest of
         None \<Rightarrow> (result, output)
       | Some fed \<Rightarrow>
           let rc = pal_mdFree pc fed in
           (if rc \<noteq> 0 \<and> err_error result = 0
            then (push_bit 16 (TWO_CC 80 65) OR (rc AND 0xFFFF), output)
            else (result, output)))
   }"

text \<open>
  The one-shot HMAC reads its key and its input before it writes the output, so the code may and
  does pass the same buffer for both. The new state of the output buffer is returned.
\<close>

definition ARM_UC_cryptoHMACSHA256 ::
    "pal_crypto \<Rightarrow> arm_uc_buffer_t \<Rightarrow> arm_uc_buffer_t \<Rightarrow> arm_uc_buffer_t \<Rightarrow>
     (arm_uc_error_t \<times> arm_uc_buffer_t) option"
where
  "ARM_UC_cryptoHMACSHA256 pc key input output = do {
     k \<leftarrow> rd_block (ptr key) 0 (unat (bsize key));
     i \<leftarrow> rd_block (ptr input) 0 (unat (bsize input));
     let (pal_st, out) = pal_mdHmacSha256 pc k i;
     output \<leftarrow> store_at0 output out;
     let output = output\<lparr>bsize := of_nat (length out)\<rparr>;
     Some (if pal_st = 0 \<and> bsize output = of_nat ARM_UC_SHA256_SIZE then ERR_NONE
           else ARM_UC_CU_ERR_INVALID_PARAMETER, output)
   }"

definition mbed_cloud_client_get_rot_128bit ::
    "pal_crypto \<Rightarrow> bytes \<Rightarrow> u32 \<Rightarrow> (8 word \<times> bytes) option"
where
  "mbed_cloud_client_get_rot_128bit pc key_buf len =
     (if unat len < ARM_UC_ROT_SIZE then Some (- 1, key_buf)
      else let (status, rot) = pal_plat_osGetRoT pc in
        do { key_buf \<leftarrow> wr_block key_buf 0 rot;
             if status = 0 then Some (0, key_buf)
             else do { key_buf \<leftarrow> memset0 key_buf 0 (unat len); Some (- 1, key_buf) } })"

definition ARM_UC_DEVICE_HMAC_KEY :: bytes where
  "ARM_UC_DEVICE_HMAC_KEY = [83, 116, 111, 114, 97, 103, 101, 69, 110, 99, 50, 53, 54, 72, 77, 65,
     67, 83, 72, 65, 50, 53, 54, 83, 73, 71, 78, 65, 84, 85, 82, 69]"

text \<open>The documented behaviour of the platform: it writes a root of trust of 16 bytes and, when it
  succeeds, an HMAC of 32 bytes.\<close>

definition pal_sizes :: "pal_crypto \<Rightarrow> bool" where
  "pal_sizes pc = (length (snd (pal_plat_osGetRoT pc)) = ARM_UC_ROT_SIZE \<and>
     (\<forall>k i. length (snd (pal_mdHmacSha256 pc k i)) = ARM_UC_SHA256_SIZE))"

subsection \<open>Decryption\<close>

text \<open>
  An AES context is the key it was loaded with. \<open>pal_aesCTR\<close> gives its status, the bytes it leaves
  in the output and the counter block afterwards, which it updates in place. \<open>uninit\<close> is what the
  uninitialised arrays on the stack contain.
\<close>

record pal_aes =
  pal_initAes :: palStatus
  pal_setAesKey :: "bytes \<Rightarrow> u32 \<Rightarrow> palStatus"
  pal_aesCTR :: "bytes option \<Rightarrow> bytes \<Rightarrow> bytes \<Rightarrow> palStatus \<times> bytes \<times> bytes"
  uninit :: bytes

record arm_uc_cipherHandle_t =
  aes_context :: "bytes option"
  aes_iv :: "bytes option"

definition ARM_UC_cryptoDecryptSetup ::
    "pal_aes \<Rightarrow> arm_uc_cipherHandle_t \<Rightarrow> arm_uc_buffer_t option \<Rightarrow> arm_uc_buffer_t option \<Rightarrow> u32 \<Rightarrow>
     (arm_uc_error_t \<times> arm_uc_cipherHandle_t) option"
where
  "ARM_UC_cryptoDecryptSetup pa h key iv aesKeySize =
     (case (key, iv) of
        (Some key, Some iv) \<Rightarrow>
          (if aesKeySize = 128 \<or> aesKeySize = 256 then
             if pal_initAes pa = 0 then do {
               k \<leftarrow> rd_block (ptr key) 0 (unat aesKeySize div 8);
               let rc = pal_setAesKey pa k aesKeySize;
               Some (if rc = 0 then ERR_NONE else ARM_UC_CU_ERR_INVALID_PARAMETER,
                     h\<lparr>aes_context := Some k, aes_iv := Some (ptr iv)\<rparr>)
             }
             else Some (ARM_UC_CU_ERR_INVALID_PARAMETER, h\<lparr>aes_iv := Some (ptr iv)\<rparr>)
           else Some (ARM_UC_CU_ERR_INVALID_PARAMETER, h))
      | _ \<Rightarrow> Some (ARM_UC_CU_ERR_INVALID_PARAMETER, h))"

definition ARM_UC_cryptoDecryptUpdate ::
    "pal_aes \<Rightarrow> arm_uc_cipherHandle_t \<Rightarrow> bytes \<Rightarrow> u32 \<Rightarrow> arm_uc_buffer_t \<Rightarrow>
     (arm_uc_error_t \<times> arm_uc_cipherHandle_t \<times> arm_uc_buffer_t) option"
where
  "ARM_UC_cryptoDecryptUpdate pa h input_ptr input_size output = do {
     let data_size = (if input_size < size_max output then input_size else size_max output);
     let output = output\<lparr>bsize := 0\<rparr>;
     input \<leftarrow> rd_block input_ptr 0 (unat data_size);
     ctr \<leftarrow> aes_iv h;
     let (rc, out, ctr') = pal_aesCTR pa (aes_context h) ctr input;
     output \<leftarrow> store_at0 output out;
     let h = h\<lparr>aes_iv := Some ctr'\<rparr>;
     Some (if rc = 0 then (ERR_NONE, h, output\<lparr>bsize := data_size\<rparr>)
           else (ARM_UC_CU_ERR_INVALID_PARAMETER, h, output))
   }"

definition ARM_UC_cryptoDecryptFinish ::
    "arm_uc_cipherHandle_t \<Rightarrow> arm_uc_error_t \<times> arm_uc_cipherHandle_t" where
  "ARM_UC_cryptoDecryptFinish h = (ERR_NONE, h\<lparr>aes_context := None\<rparr>)"

end
