(* ===== verification/UC_Metadata_Header.thy ===== *)
theory UC_Metadata_Header
  imports UC_Crypto
begin

text \<open>
  \<open>modules/metadata-header/source/arm_uc_metadata_header_v2.c\<close>: the internal header, which the
  boot loader leaves in front of the active image, and the external header, which the client
  writes in front of a candidate image and authenticates with an HMAC under a key derived from
  the device's root of trust.
\<close>

abbreviation (input) ARM_UC_INTERNAL_HEADER_MAGIC_V2 :: u32 where
  "ARM_UC_INTERNAL_HEADER_MAGIC_V2 \<equiv> 0x5a51b3d4"
abbreviation (input) ARM_UC_INTERNAL_HEADER_VERSION_V2 :: u32 where
  "ARM_UC_INTERNAL_HEADER_VERSION_V2 \<equiv> 2"
abbreviation (input) ARM_UC_EXTERNAL_HEADER_MAGIC_V2 :: u32 where
  "ARM_UC_EXTERNAL_HEADER_MAGIC_V2 \<equiv> 0x5a51b3d4"
abbreviation (input) ARM_UC_EXTERNAL_HEADER_VERSION_V2 :: u32 where
  "ARM_UC_EXTERNAL_HEADER_VERSION_V2 \<equiv> 2"

abbreviation (input) ARM_UC_INTERNAL_FIRMWARE_VERSION_OFFSET_V2 :: nat where
  "ARM_UC_INTERNAL_FIRMWARE_VERSION_OFFSET_V2 \<equiv> 8"
abbreviation (input) ARM_UC_INTERNAL_FIRMWARE_SIZE_OFFSET_V2 :: nat where
  "ARM_UC_INTERNAL_FIRMWARE_SIZE_OFFSET_V2 \<equiv> 16"
abbreviation (input) ARM_UC_INTERNAL_FIRMWARE_HASH_OFFSET_V2 :: nat where
  "ARM_UC_INTERNAL_FIRMWARE_HASH_OFFSET_V2 \<equiv> 24"
abbreviation (input) ARM_UC_INTERNAL_CAMPAIGN_OFFSET_V2 :: nat where
  "ARM_UC_INTERNAL_CAMPAIGN_OFFSET_V2 \<equiv> 88"
abbreviation (input) ARM_UC_INTERNAL_HEADER_CRC_OFFSET_V2 :: nat where
  "ARM_UC_INTERNAL_HEADER_CRC_OFFSET_V2 \<equiv> 108"
abbreviation (input) ARM_UC_INTERNAL_HEADER_SIZE_V2 :: nat where
  "ARM_UC_INTERNAL_HEADER_SIZE_V2 \<equiv> 112"

abbreviation (input) ARM_UC_EXTERNAL_FIRMWARE_VERSION_OFFSET_V2 :: nat where
  "ARM_UC_EXTERNAL_FIRMWARE_VERSION_OFFSET_V2 \<equiv> 8"
abbreviation (input) ARM_UC_EXTERNAL_FIRMWARE_SIZE_OFFSET_V2 :: nat where
  "ARM_UC_EXTERNAL_FIRMWARE_SIZE_OFFSET_V2 \<equiv> 16"
abbreviation (input) ARM_UC_EXTERNAL_FIRMWARE_HASH_OFFSET_V2 :: nat where
  "ARM_UC_EXTERNAL_FIRMWARE_HASH_OFFSET_V2 \<equiv> 24"
abbreviation (input) ARM_UC_EXTERNAL_PAYLOAD_SIZE_OFFSET_V2 :: nat where
  "ARM_UC_EXTERNAL_PAYLOAD_SIZE_OFFSET_V2 \<equiv> 88"
abbreviation (input) ARM_UC_EXTERNAL_PAYLOAD_HASH_OFFSET_V2 :: nat where
  "ARM_UC_EXTERNAL_PAYLOAD_HASH_OFFSET_V2 \<equiv> 96"
abbreviation (input) ARM_UC_EXTERNAL_CAMPAIGN_OFFSET_V2 :: nat where
  "ARM_UC_EXTERNAL_CAMPAIGN_OFFSET_V2 \<equiv> 160"
abbreviation (input) ARM_UC_EXTERNAL_HMAC_OFFSET_V2 :: nat where
  "ARM_UC_EXTERNAL_HMAC_OFFSET_V2 \<equiv> 232"
abbreviation (input) ARM_UC_EXTERNAL_HEADER_SIZE_V2 :: nat where
  "ARM_UC_EXTERNAL_HEADER_SIZE_V2 \<equiv> 296"

subsection \<open>The device key\<close>

definition ARM_UC_getDeviceKey256Bit ::
    "pal_crypto \<Rightarrow> arm_uc_buffer_t \<Rightarrow> (arm_uc_error_t \<times> arm_uc_buffer_t) option"
where
  "ARM_UC_getDeviceKey256Bit pc output = do {
     (result, output) \<leftarrow>
       (if size_max output \<ge> of_nat ARM_UC_DEVICE_KEY_SIZE then do {
          (rv, m) \<leftarrow> mbed_cloud_client_get_rot_128bit pc (ptr output) (size_max output);
          let output = output\<lparr>ptr := m\<rparr>;
          if rv = 0 then do {
            let input = \<lparr>size_max = of_nat (length ARM_UC_DEVICE_HMAC_KEY),
                         bsize = of_nat (length ARM_UC_DEVICE_HMAC_KEY),
                         ptr = ARM_UC_DEVICE_HMAC_KEY\<rparr>;
            let output = output\<lparr>bsize := of_nat ARM_UC_ROT_SIZE\<rparr>;
            if key_derivation_backward_compat pc
            then ARM_UC_cryptoHMACSHA256 pc input output output
            else ARM_UC_cryptoHMACSHA256 pc output input output
          } else Some (ARM_UC_CU_ERR_INVALID_PARAMETER, output)
        } else Some (ARM_UC_CU_ERR_INVALID_PARAMETER, output));
     if result \<noteq> ERR_NONE then do {
       m \<leftarrow> memset0 (ptr output) 0 (unat (size_max output));
       Some (result, output\<lparr>ptr := m\<rparr>)
     } else Some (result, output)
   }"

definition device_key_buffer :: arm_uc_buffer_t where
  "device_key_buffer = \<lparr>size_max = of_nat ARM_UC_DEVICE_KEY_SIZE, bsize = 0,
                        ptr = replicate ARM_UC_DEVICE_KEY_SIZE 0\<rparr>"

subsection \<open>The internal header\<close>

definition arm_uc_parse_internal_header_v2 ::
    "bytes option \<Rightarrow> arm_uc_firmware_details_t option \<Rightarrow>
     (arm_uc_error_t \<times> arm_uc_firmware_details_t option) option"
where
  "arm_uc_parse_internal_header_v2 input details =
     (case (input, details) of
        (Some m, Some d) \<Rightarrow> do {
          calculatedChecksum \<leftarrow> arm_uc_crc32 m 0 (of_nat ARM_UC_INTERNAL_HEADER_CRC_OFFSET_V2);
          temp32 \<leftarrow> arm_uc_parse_uint32 m (Some ARM_UC_INTERNAL_HEADER_CRC_OFFSET_V2);
          if temp32 = calculatedChecksum then do {
            v \<leftarrow> arm_uc_parse_uint64 m (Some ARM_UC_INTERNAL_FIRMWARE_VERSION_OFFSET_V2);
            s \<leftarrow> arm_uc_parse_uint64 m (Some ARM_UC_INTERNAL_FIRMWARE_SIZE_OFFSET_V2);
            h \<leftarrow> memcpy (hash d) 0 m ARM_UC_INTERNAL_FIRMWARE_HASH_OFFSET_V2 ARM_UC_SHA256_SIZE;
            c \<leftarrow> memcpy (campaign d) 0 m ARM_UC_INTERNAL_CAMPAIGN_OFFSET_V2 ARM_UC_GUID_SIZE;
            Some (ERR_NONE, Some (d\<lparr>version := v, fsize := s, hash := h, campaign := c\<rparr>))
          } else Some (ERR_INVALID_PARAMETER, details)
        }
      | _ \<Rightarrow> Some (ERR_INVALID_PARAMETER, details))"

definition arm_uc_create_internal_header_v2 ::
    "arm_uc_firmware_details_t option \<Rightarrow> arm_uc_buffer_t option \<Rightarrow>
     (arm_uc_error_t \<times> arm_uc_buffer_t option) option"
where
  "arm_uc_create_internal_header_v2 input output =
     (case (input, output) of
        (Some d, Some b) \<Rightarrow>
          (if size_max b \<ge> of_nat ARM_UC_INTERNAL_HEADER_SIZE_V2 then do {
             m \<leftarrow> memset0 (ptr b) 0 ARM_UC_INTERNAL_HEADER_SIZE_V2;
             m \<leftarrow> arm_uc_write_uint32 m (Some 0) ARM_UC_INTERNAL_HEADER_MAGIC_V2;
             m \<leftarrow> arm_uc_write_uint32 m (Some 4) ARM_UC_INTERNAL_HEADER_VERSION_V2;
             m \<leftarrow> arm_uc_write_uint64 m (Some ARM_UC_INTERNAL_FIRMWARE_VERSION_OFFSET_V2) (version d);
             m \<leftarrow> arm_uc_write_uint64 m (Some ARM_UC_INTERNAL_FIRMWARE_SIZE_OFFSET_V2) (fsize d);
             m \<leftarrow> memcpy m ARM_UC_INTERNAL_FIRMWARE_HASH_OFFSET_V2 (hash d) 0 ARM_UC_SHA256_SIZE;
             m \<leftarrow> memcpy m ARM_UC_INTERNAL_CAMPAIGN_OFFSET_V2 (campaign d) 0 ARM_UC_GUID_SIZE;
             checksum \<leftarrow> arm_uc_crc32 m 0 (of_nat ARM_UC_INTERNAL_HEADER_CRC_OFFSET_V2);
             m \<leftarrow> arm_uc_write_uint32 m (Some ARM_UC_INTERNAL_HEADER_CRC_OFFSET_V2) checksum;
             Some (ERR_NONE, Some (b\<lparr>ptr := m, bsize := of_nat ARM_UC_INTERNAL_HEADER_SIZE_V2\<rparr>))
           } else Some (ERR_INVALID_PARAMETER, output))
      | _ \<Rightarrow> Some (ERR_INVALID_PARAMETER, output))"

subsection \<open>The external header\<close>

definition arm_uc_parse_external_header_v2 ::
    "pal_crypto \<Rightarrow> bytes option \<Rightarrow> arm_uc_firmware_details_t option \<Rightarrow>
     (arm_uc_error_t \<times> arm_uc_firmware_details_t option) option"
where
  "arm_uc_parse_external_header_v2 pc input details =
     (case (input, details) of
        (Some m, Some d) \<Rightarrow> do {
          (status, key) \<leftarrow> ARM_UC_getDeviceKey256Bit pc device_key_buffer;
          if err_error status = 0 then do {
            let input_buf = \<lparr>size_max = of_nat ARM_UC_EXTERNAL_HMAC_OFFSET_V2,
                             bsize = of_nat ARM_UC_EXTERNAL_HMAC_OFFSET_V2, ptr = m\<rparr>;
            let output_buf = \<lparr>size_max = of_nat ARM_UC_SHA256_SIZE,
                              bsize = of_nat ARM_UC_SHA256_SIZE,
                              ptr = replicate ARM_UC_SHA256_SIZE 0\<rparr>;
            (status, output_buf) \<leftarrow> ARM_UC_cryptoHMACSHA256 pc key input_buf output_buf;
            if err_error status = 0 then do {
              let input_buf = \<lparr>size_max = of_nat ARM_UC_SHA256_SIZE, bsize = of_nat ARM_UC_SHA256_SIZE,
                               ptr = drop ARM_UC_EXTERNAL_HMAC_OFFSET_V2 m\<rparr>;
              diff \<leftarrow> ARM_UC_BinCompareCT input_buf output_buf;
              if diff = 0 then do {
                v \<leftarrow> arm_uc_parse_uint64 m (Some ARM_UC_EXTERNAL_FIRMWARE_VERSION_OFFSET_V2);
                s \<leftarrow> arm_uc_parse_uint64 m (Some ARM_UC_EXTERNAL_FIRMWARE_SIZE_OFFSET_V2);
                h \<leftarrow> memcpy (hash d) 0 m ARM_UC_EXTERNAL_FIRMWARE_HASH_OFFSET_V2 ARM_UC_SHA256_SIZE;
                c \<leftarrow> memcpy (campaign d) 0 m ARM_UC_EXTERNAL_CAMPAIGN_OFFSET_V2 ARM_UC_GUID_SIZE;
                Some (ERR_NONE, Some (d\<lparr>version := v, fsize := s, hash := h, campaign := c,
                                        signatureSize := 0\<rparr>))
              } else Some (ERR_INVALID_PARAMETER, details)
            } else Some (ERR_INVALID_PARAMETER, details)
          } else Some (ERR_INVALID_PARAMETER, details)
        }
      | _ \<Rightarrow> Some (ERR_INVALID_PARAMETER, details))"

text \<open>
  The HMAC is written in place: \<open>output_buf.ptr\<close> points into \<open>output->ptr\<close>, modelled by copying
  the bytes at the HMAC offset out and back.
\<close>

definition arm_uc_create_external_header_v2 ::
    "pal_crypto \<Rightarrow> arm_uc_firmware_details_t option \<Rightarrow> arm_uc_buffer_t option \<Rightarrow>
     (arm_uc_error_t \<times> arm_uc_buffer_t option) option"
where
  "arm_uc_create_external_header_v2 pc input output =
     (case (input, output) of
        (Some d, Some b) \<Rightarrow>
          (if size_max b \<ge> of_nat ARM_UC_EXTERNAL_HEADER_SIZE_V2 then do {
             m \<leftarrow> memset0 (ptr b) 0 ARM_UC_EXTERNAL_HEADER_SIZE_V2;
             m \<leftarrow> arm_uc_write_uint32 m (Some 0) ARM_UC_EXTERNAL_HEADER_MAGIC_V2;
             m \<leftarrow> arm_uc_write_uint32 m (Some 4) ARM_UC_EXTERNAL_HEADER_VERSION_V2;
             m \<leftarrow> arm_uc_write_uint64 m (Some ARM_UC_EXTERNAL_FIRMWARE_VERSION_OFFSET_V2) (version d);
             m \<leftarrow> arm_uc_write_uint64 m (Some ARM_UC_EXTERNAL_FIRMWARE_SIZE_OFFSET_V2) (fsize d);
             m \<leftarrow> memcpy m ARM_UC_EXTERNAL_FIRMWARE_HASH_OFFSET_V2 (hash d) 0 ARM_UC_SHA256_SIZE;
             m \<leftarrow> arm_uc_write_uint64 m (Some ARM_UC_EXTERNAL_PAYLOAD_SIZE_OFFSET_V2) (fsize d);
             m \<leftarrow> memcpy m ARM_UC_EXTERNAL_PAYLOAD_HASH_OFFSET_V2 (hash d) 0 ARM_UC_SHA256_SIZE;
             m \<leftarrow> memcpy m ARM_UC_EXTERNAL_CAMPAIGN_OFFSET_V2 (campaign d) 0 ARM_UC_GUID_SIZE;
             (status, key) \<leftarrow> ARM_UC_getDeviceKey256Bit pc device_key_buffer;
             if err_error status = 0 then do {
               let input_buf = \<lparr>size_max = of_nat ARM_UC_EXTERNAL_HMAC_OFFSET_V2,
                                bsize = of_nat ARM_UC_EXTERNAL_HMAC_OFFSET_V2, ptr = m\<rparr>;
               let output_buf = \<lparr>size_max = of_nat ARM_UC_SHA256_SIZE,
                                 bsize = of_nat ARM_UC_SHA256_SIZE,
                                 ptr = drop ARM_UC_EXTERNAL_HMAC_OFFSET_V2 m\<rparr>;
               (result, output_buf) \<leftarrow> ARM_UC_cryptoHMACSHA256 pc key input_buf output_buf;
               let m = take ARM_UC_EXTERNAL_HMAC_OFFSET_V2 m @ ptr output_buf;
               Some (result, Some (b\<lparr>ptr := m,
                 bsize := (if err_error result = 0 then of_nat ARM_UC_EXTERNAL_HEADER_SIZE_V2 else 0)\<rparr>))
             } else Some (ERR_INVALID_PARAMETER, Some (b\<lparr>ptr := m, bsize := 0\<rparr>))
           } else Some (ERR_INVALID_PARAMETER, output))
      | _ \<Rightarrow> Some (ERR_INVALID_PARAMETER, output))"

subsection \<open>Layout lemmas\<close>

lemma crc32_rd_block:
  "rd_block m p (unat n) = Some bs \<Longrightarrow>
     arm_uc_crc32 m p n = Some (foldl crc_byte 0xFFFFFFFF bs XOR 0xFFFFFFFF)"
  by (auto simp: rd_block_def arm_uc_crc32_foldl split: if_splits)

lemma memcpy_all: "length dst = n \<Longrightarrow> memcpy dst 0 src j n = rd_block src j n"
  by (auto simp: memcpy_def rd_block_def wr_block_def)

definition asm32 :: "u8 \<Rightarrow> u8 \<Rightarrow> u8 \<Rightarrow> u8 \<Rightarrow> u32" where
  "asm32 a b c d = push_bit 8 (push_bit 8 (push_bit 8 (ucast a) OR ucast b) OR ucast c) OR ucast d"

lemma bit_asm32: "bit (asm32 a b c d) n \<longleftrightarrow>
   n < 8 \<and> bit d n \<or> 8 \<le> n \<and> n < 16 \<and> bit c (n - 8) \<or>
   16 \<le> n \<and> n < 24 \<and> bit b (n - 16) \<or> 24 \<le> n \<and> n < 32 \<and> bit a (n - 24)"
proof -
  have l: "bit x k \<Longrightarrow> k < 8" for x :: u8 and k by (auto dest: bit_imp_le_length)
  have [simp]: "bit (ucast x :: u32) k \<longleftrightarrow> bit x k" for x :: u8 and k
    using l[of x k] by (auto simp: bit_simps)
  show ?thesis
    unfolding asm32_def bit_or_iff bit_push_bit_iff
    using l[of a "n - 24"] l[of b "n - 16"] l[of c "n - 8"] l[of d n] by auto
qed

lemma asm32_inj: "asm32 a b c d = asm32 a' b' c' d' \<Longrightarrow> a = a' \<and> b = b' \<and> c = c' \<and> d = d'"
proof -
  assume eq: "asm32 a b c d = asm32 a' b' c' d'"
  have e: "bit (asm32 a b c d) n = bit (asm32 a' b' c' d') n" for n by (simp only: eq)
  have "d = d'"
  proof (rule bit_word_eqI)
    fix n assume "n < LENGTH(8)" then show "bit d n = bit d' n" using e[of n] by (simp add: bit_asm32)
  qed
  moreover have "c = c'"
  proof (rule bit_word_eqI)
    fix n assume "n < LENGTH(8)" then show "bit c n = bit c' n" using e[of "n + 8"] by (simp add: bit_asm32)
  qed
  moreover have "b = b'"
  proof (rule bit_word_eqI)
    fix n assume "n < LENGTH(8)" then show "bit b n = bit b' n" using e[of "n + 16"] by (simp add: bit_asm32)
  qed
  moreover have "a = a'"
  proof (rule bit_word_eqI)
    fix n assume "n < LENGTH(8)" then show "bit a n = bit a' n" using e[of "n + 24"] by (simp add: bit_asm32)
  qed
  ultimately show ?thesis by simp
qed

lemma parse_uint32_asm32: "p + 4 \<le> length m \<Longrightarrow>
  arm_uc_parse_uint32 m (Some p) = Some (asm32 (m ! p) (m ! (p + 1)) (m ! (p + 2)) (m ! (p + 3)))"
  by (simp add: arm_uc_parse_uint32_def mem_simps Let_def asm32_def del: push_bit_or push_bit_push_bit)

lemma rd_block_4: "p + 4 \<le> length x \<Longrightarrow>
    rd_block x p 4 = Some [x ! p, x ! (p + 1), x ! (p + 2), x ! (p + 3)]"
  by (simp add: rd_block_def numeral_eq_Suc Cons_nth_drop_Suc[symmetric])

lemma parse_uint32_inj:
  assumes "p + 4 \<le> length m" and "p + 4 \<le> length m'"
    and "arm_uc_parse_uint32 m (Some p) = arm_uc_parse_uint32 m' (Some p)"
  shows "rd_block m p 4 = rd_block m' p 4"
  using assms asm32_inj by (simp only: parse_uint32_asm32 rd_block_4 option.inject) blast

subsection \<open>The internal header\<close>

lemma parse_internal_blocks:
  assumes "rd_block m 0 108 = Some body"
    and "rd_block m 108 4 = Some (be32 (foldl crc_byte 0xFFFFFFFF body XOR 0xFFFFFFFF))"
    and "rd_block m 8 8 = Some (be64 v)" and "rd_block m 16 8 = Some (be64 s)"
    and "rd_block m 24 32 = Some h" and "rd_block m 88 16 = Some c"
    and "details_ok e"
  shows "arm_uc_parse_internal_header_v2 (Some m) (Some e) =
    Some (ERR_NONE, Some (e\<lparr>version := v, fsize := s, hash := h, campaign := c\<rparr>))"
  using assms crc32_rd_block[of m 0 108 body] parse_uint32_be[OF assms(2)]
    parse_uint64_be[OF assms(3)] parse_uint64_be[OF assms(4)]
  by (simp add: arm_uc_parse_internal_header_v2_def details_ok_def memcpy_all)

lemma internal_header_length:
  assumes d: "details_ok d" and e: "details_ok e" and b: "buf_ok b" and sz: "112 \<le> size_max b"
  shows "\<exists>b'. arm_uc_create_internal_header_v2 (Some d) (Some b) = Some (ERR_NONE, Some b') \<and>
    bsize b' = 112 \<and> length (ptr b') = length (ptr b) \<and>
    arm_uc_parse_internal_header_v2 (Some (ptr b')) (Some e) =
      Some (ERR_NONE, Some (d\<lparr>signatureSize := signatureSize e\<rparr>))"
proof -
  from b sz have len: "112 \<le> length (ptr b)"
    by (simp add: buf_ok_def word_le_nat_alt)
  obtain m0 where m0: "memset0 (ptr b) 0 112 = Some m0" using len by (simp add: mem_simps)
  have l0: "112 \<le> length m0" using memset0_length[OF m0] len by simp
  obtain m1 where m1: "wr_block m0 0 (be32 0x5a51b3d4) = Some m1" using l0 by (simp add: mem_simps)
  have l1: "112 \<le> length m1" using wr_block_length[OF m1] l0 by simp
  obtain m2 where m2: "wr_block m1 4 (be32 2) = Some m2" using l1 by (simp add: mem_simps)
  have l2: "112 \<le> length m2" using wr_block_length[OF m2] l1 by simp
  obtain m3 where m3: "wr_block m2 8 (be64 (version d)) = Some m3" using l2 by (simp add: mem_simps)
  have l3: "112 \<le> length m3" using wr_block_length[OF m3] l2 by simp
  obtain m4 where m4: "wr_block m3 16 (be64 (fsize d)) = Some m4" using l3 by (simp add: mem_simps)
  have l4: "112 \<le> length m4" using wr_block_length[OF m4] l3 by simp
  obtain m5 where m5: "wr_block m4 24 (hash d) = Some m5" using l4 d
    by (simp add: mem_simps details_ok_def)
  have l5: "112 \<le> length m5" using wr_block_length[OF m5] l4 by simp
  obtain m6 where m6: "wr_block m5 88 (campaign d) = Some m6" using l5 d
    by (simp add: mem_simps details_ok_def)
  have l6: "112 \<le> length m6" using wr_block_length[OF m6] l5 by simp
  obtain body where body: "rd_block m6 0 108 = Some body" using l6 by (simp add: rd_block_0)
  let ?crc = "foldl crc_byte 0xFFFFFFFF body XOR 0xFFFFFFFF"
  obtain m7 where m7: "wr_block m6 108 (be32 ?crc) = Some m7" using l6 by (simp add: mem_simps)
  have l7: "112 \<le> length m7" using wr_block_length[OF m7] l6 by simp
  note same = rd_block_wr_block_same
  note other = rd_block_wr_block_other
  have create: "arm_uc_create_internal_header_v2 (Some d) (Some b) =
      Some (ERR_NONE, Some (b\<lparr>ptr := m7, bsize := 112\<rparr>))"
    using sz d l0 l1 l2 l3 l4 l5 l6 m0 m1 m2 m3 m4 m5 m6 m7 crc32_rd_block[of m6 0 108 body] body
    by (simp add: arm_uc_create_internal_header_v2_def write_uint32_block write_uint64_block
        memcpy_Some details_ok_def)
  have lens: "length (hash d) = 32" "length (campaign d) = 16"
    using d by (simp_all add: details_ok_def)
  have "rd_block m7 0 108 = Some body"
    using other[OF m7, of 0 108] body by simp
  moreover have "rd_block m7 108 4 = Some (be32 ?crc)"
    using same[OF m7] by simp
  moreover have "rd_block m7 8 8 = Some (be64 (version d))"
    using same[OF m3, of 8] other[OF m4, of 8 8] other[OF m5, of 8 8] other[OF m6, of 8 8]
      other[OF m7, of 8 8] by simp
  moreover have "rd_block m7 16 8 = Some (be64 (fsize d))"
    using same[OF m4, of 8] other[OF m5, of 16 8] other[OF m6, of 16 8]
      other[OF m7, of 16 8] by simp
  moreover have "rd_block m7 24 32 = Some (hash d)"
    using same[OF m5, of 32] other[OF m6, of 24 32] other[OF m7, of 24 32] lens by simp
  moreover have "rd_block m7 88 16 = Some (campaign d)"
    using same[OF m6, of 16] other[OF m7, of 88 16] lens by simp
  ultimately have "arm_uc_parse_internal_header_v2 (Some m7) (Some e) =
      Some (ERR_NONE, Some (e\<lparr>version := version d, fsize := fsize d, hash := hash d,
        campaign := campaign d\<rparr>))"
    using e by (intro parse_internal_blocks)
  then show ?thesis
    using create wr_block_length[OF m1] wr_block_length[OF m2] wr_block_length[OF m3]
      wr_block_length[OF m4] wr_block_length[OF m5] wr_block_length[OF m6] wr_block_length[OF m7]
      memset0_length[OF m0] by simp
qed

subsection \<open>The device key and the external header\<close>

definition device_key :: "pal_crypto \<Rightarrow> palStatus \<times> bytes" where
  "device_key pc =
     (if key_derivation_backward_compat pc
      then pal_mdHmacSha256 pc ARM_UC_DEVICE_HMAC_KEY (snd (pal_plat_osGetRoT pc))
      else pal_mdHmacSha256 pc (snd (pal_plat_osGetRoT pc)) ARM_UC_DEVICE_HMAC_KEY)"

definition device_key_available :: "pal_crypto \<Rightarrow> bool" where
  "device_key_available pc = (fst (pal_plat_osGetRoT pc) = 0 \<and> fst (device_key pc) = 0)"

definition key_buffer :: "pal_crypto \<Rightarrow> arm_uc_buffer_t" where
  "key_buffer pc = \<lparr>size_max = 32, bsize = 32, ptr = snd (device_key pc)\<rparr>"

lemma length_HMAC_KEY [simp]: "length ARM_UC_DEVICE_HMAC_KEY = 32"
  by (simp add: ARM_UC_DEVICE_HMAC_KEY_def)

lemma length_device_key: "pal_sizes pc \<Longrightarrow> length (snd (device_key pc)) = 32"
  by (simp add: pal_sizes_def device_key_def)

lemma cryptoHMAC_blocks:
  assumes "rd_block (ptr key) 0 (unat (bsize key)) = Some k"
    and "rd_block (ptr input) 0 (unat (bsize input)) = Some i"
    and "pal_sizes pc" and "32 \<le> length (ptr output)"
  shows "ARM_UC_cryptoHMACSHA256 pc key input output =
    Some (if fst (pal_mdHmacSha256 pc k i) = 0 then ERR_NONE else ARM_UC_CU_ERR_INVALID_PARAMETER,
          output\<lparr>ptr := snd (pal_mdHmacSha256 pc k i) @ drop 32 (ptr output), bsize := 32\<rparr>)"
proof (cases "pal_mdHmacSha256 pc k i")
  case (Pair st out)
  from assms(3) have "length (snd (pal_mdHmacSha256 pc k i)) = 32" by (simp add: pal_sizes_def)
  with Pair have "length out = 32" by simp
  with Pair assms show ?thesis
    by (simp add: ARM_UC_cryptoHMACSHA256_def store_at0_def wr_block_def)
qed

lemma get_rot_blocks:
  assumes "pal_sizes pc"
  shows "mbed_cloud_client_get_rot_128bit pc (replicate 32 0) 32 =
    Some (if fst (pal_plat_osGetRoT pc) = 0 then (0, snd (pal_plat_osGetRoT pc) @ replicate 16 0)
          else (- 1, replicate 32 0))"
  using assms
  by (cases "pal_plat_osGetRoT pc")
     (auto simp: mbed_cloud_client_get_rot_128bit_def pal_sizes_def wr_block_def memset0_def)

lemma getDeviceKey_eq:
  assumes "pal_sizes pc"
  shows "\<exists>st kb. ARM_UC_getDeviceKey256Bit pc device_key_buffer = Some (st, kb) \<and>
    (err_error st = 0 \<longleftrightarrow> device_key_available pc) \<and>
    (device_key_available pc \<longrightarrow> kb = key_buffer pc) \<and>
    (\<not> device_key_available pc \<longrightarrow> ptr kb = replicate 32 0)"
proof (cases "fst (pal_plat_osGetRoT pc) = 0")
  case False
  then show ?thesis
    by (simp add: ARM_UC_getDeviceKey256Bit_def device_key_buffer_def get_rot_blocks[OF assms]
        device_key_available_def memset0_def wr_block_def err_error_def)
next
  case True
  let ?rb = "\<lparr>size_max = 32, bsize = 16, ptr = snd (pal_plat_osGetRoT pc) @ replicate 16 0\<rparr>"
  let ?kb = "\<lparr>size_max = 32, bsize = 32, ptr = ARM_UC_DEVICE_HMAC_KEY\<rparr>"
  have rot: "length (snd (pal_plat_osGetRoT pc)) = 16" using assms by (simp add: pal_sizes_def)
  have h1: "ARM_UC_cryptoHMACSHA256 pc ?rb ?kb ?rb = Some
      (if fst (pal_mdHmacSha256 pc (snd (pal_plat_osGetRoT pc)) ARM_UC_DEVICE_HMAC_KEY) = 0
       then ERR_NONE else ARM_UC_CU_ERR_INVALID_PARAMETER,
       ?rb\<lparr>ptr := snd (pal_mdHmacSha256 pc (snd (pal_plat_osGetRoT pc)) ARM_UC_DEVICE_HMAC_KEY),
           bsize := 32\<rparr>)"
    using assms rot
    by (subst cryptoHMAC_blocks[where k = "snd (pal_plat_osGetRoT pc)" and i = ARM_UC_DEVICE_HMAC_KEY])
       (simp_all add: rd_block_0)
  have h2: "ARM_UC_cryptoHMACSHA256 pc ?kb ?rb ?rb = Some
      (if fst (pal_mdHmacSha256 pc ARM_UC_DEVICE_HMAC_KEY (snd (pal_plat_osGetRoT pc))) = 0
       then ERR_NONE else ARM_UC_CU_ERR_INVALID_PARAMETER,
       ?rb\<lparr>ptr := snd (pal_mdHmacSha256 pc ARM_UC_DEVICE_HMAC_KEY (snd (pal_plat_osGetRoT pc))),
           bsize := 32\<rparr>)"
    using assms rot
    by (subst cryptoHMAC_blocks[where i = "snd (pal_plat_osGetRoT pc)" and k = ARM_UC_DEVICE_HMAC_KEY])
       (simp_all add: rd_block_0)
  have len: "length (snd (pal_mdHmacSha256 pc a b)) = 32" for a b
    using assms by (simp add: pal_sizes_def)
  show ?thesis
    using True h1 h2 len
    by (simp add: ARM_UC_getDeviceKey256Bit_def device_key_buffer_def get_rot_blocks[OF assms]
        device_key_available_def device_key_def key_buffer_def memset0_def wr_block_def
        err_error_def)
qed

text \<open>The tag the device computes over a header, and whether a header carries it.\<close>

definition header_tag :: "pal_crypto \<Rightarrow> bytes \<Rightarrow> palStatus \<times> bytes" where
  "header_tag pc m = pal_mdHmacSha256 pc (snd (device_key pc)) (take 232 m)"

definition authentic :: "pal_crypto \<Rightarrow> bytes \<Rightarrow> bool" where
  "authentic pc m = (device_key_available pc \<and> fst (header_tag pc m) = 0 \<and>
     take 32 (drop 232 m) = snd (header_tag pc m))"

definition external_details :: "bytes \<Rightarrow> arm_uc_firmware_details_t \<Rightarrow> arm_uc_firmware_details_t option" where
  "external_details m e = do {
     v \<leftarrow> arm_uc_parse_uint64 m (Some 8);
     s \<leftarrow> arm_uc_parse_uint64 m (Some 16);
     h \<leftarrow> rd_block m 24 32;
     c \<leftarrow> rd_block m 160 16;
     Some (e\<lparr>version := v, fsize := s, hash := h, campaign := c, signatureSize := 0\<rparr>) }"

lemma external_details_Some: "296 \<le> length m \<Longrightarrow> \<exists>r. external_details m e = Some r"
  by (simp add: external_details_def arm_uc_parse_uint64_def mem_simps Let_def rd_block_def)

lemma parse_external_eq:
  assumes "pal_sizes pc" and "296 \<le> length m" and "details_ok e"
  shows "arm_uc_parse_external_header_v2 pc (Some m) (Some e) =
    (if authentic pc m then map_option (\<lambda>r. (ERR_NONE, Some r)) (external_details m e)
     else Some (ERR_INVALID_PARAMETER, Some e))"
proof -
  obtain st kb where k: "ARM_UC_getDeviceKey256Bit pc device_key_buffer = Some (st, kb)"
      "err_error st = 0 \<longleftrightarrow> device_key_available pc"
      "device_key_available pc \<longrightarrow> kb = key_buffer pc"
    using getDeviceKey_eq[OF assms(1)] by auto
  let ?in = "\<lparr>size_max = 232, bsize = 232, ptr = m\<rparr> :: arm_uc_buffer_t"
  let ?out = "\<lparr>size_max = 32, bsize = 32, ptr = replicate 32 0\<rparr> :: arm_uc_buffer_t"
  have tag: "length (snd (header_tag pc m)) = 32" using assms(1) by (simp add: pal_sizes_def header_tag_def)
  have h: "ARM_UC_cryptoHMACSHA256 pc (key_buffer pc) ?in ?out =
      Some (if fst (header_tag pc m) = 0 then ERR_NONE else ARM_UC_CU_ERR_INVALID_PARAMETER,
            \<lparr>size_max = 32, bsize = 32, ptr = snd (header_tag pc m)\<rparr>)"
    using assms length_device_key[OF assms(1)]
    by (subst cryptoHMAC_blocks[where k = "snd (device_key pc)" and i = "take 232 m"])
       (simp_all add: rd_block_0 key_buffer_def header_tag_def)
  have c: "ARM_UC_BinCompareCT \<lparr>size_max = 32, bsize = 32, ptr = drop 232 m\<rparr>
      \<lparr>size_max = 32, bsize = 32, ptr = snd (header_tag pc m)\<rparr> =
      Some (if take 32 (drop 232 m) = snd (header_tag pc m) then 0 else 1)"
    using assms(2) tag by (subst BinCompareCT_spec) simp_all
  show ?thesis
    using k h c assms(3)
    by (auto simp: arm_uc_parse_external_header_v2_def authentic_def external_details_def
        err_error_def details_ok_def memcpy_all bind_eq_Some_conv split: bind_splits)
qed

subsection \<open>Creating an external header\<close>

lemma external_header_create:
  assumes d: "details_ok d" and b: "buf_ok b" and sz: "296 \<le> size_max b"
    and pc: "pal_sizes pc" and av: "device_key_available pc"
    and h: "\<forall>x. fst (pal_mdHmacSha256 pc (snd (device_key pc)) x) = 0"
  shows "\<exists>b'. arm_uc_create_external_header_v2 pc (Some d) (Some b) = Some (ERR_NONE, Some b') \<and>
    bsize b' = 296 \<and> length (ptr b') = length (ptr b) \<and> authentic pc (ptr b') \<and>
    rd_block (ptr b') 8 8 = Some (be64 (version d)) \<and>
    rd_block (ptr b') 16 8 = Some (be64 (fsize d)) \<and>
    rd_block (ptr b') 24 32 = Some (hash d) \<and> rd_block (ptr b') 160 16 = Some (campaign d)"
proof -
  from b sz have len: "296 \<le> length (ptr b)" by (simp add: buf_ok_def word_le_nat_alt)
  have lens: "length (hash d) = 32" "length (campaign d) = 16"
    using d by (simp_all add: details_ok_def)
  obtain m0 where m0: "memset0 (ptr b) 0 296 = Some m0" using len by (simp add: mem_simps)
  note l0 = memset0_length[OF m0]
  obtain m1 where m1: "wr_block m0 0 (be32 0x5a51b3d4) = Some m1" using l0 len by (simp add: mem_simps)
  note l1 = wr_block_length[OF m1, unfolded l0]
  obtain m2 where m2: "wr_block m1 4 (be32 2) = Some m2" using l1 len by (simp add: mem_simps)
  note l2 = wr_block_length[OF m2, unfolded l1]
  obtain m3 where m3: "wr_block m2 8 (be64 (version d)) = Some m3" using l2 len by (simp add: mem_simps)
  note l3 = wr_block_length[OF m3, unfolded l2]
  obtain m4 where m4: "wr_block m3 16 (be64 (fsize d)) = Some m4" using l3 len by (simp add: mem_simps)
  note l4 = wr_block_length[OF m4, unfolded l3]
  obtain m5 where m5: "wr_block m4 24 (hash d) = Some m5" using l4 len lens by (simp add: mem_simps)
  note l5 = wr_block_length[OF m5, unfolded l4]
  obtain m6 where m6: "wr_block m5 88 (be64 (fsize d)) = Some m6" using l5 len by (simp add: mem_simps)
  note l6 = wr_block_length[OF m6, unfolded l5]
  obtain m7 where m7: "wr_block m6 96 (hash d) = Some m7" using l6 len lens by (simp add: mem_simps)
  note l7 = wr_block_length[OF m7, unfolded l6]
  obtain m8 where m8: "wr_block m7 160 (campaign d) = Some m8" using l7 len lens by (simp add: mem_simps)
  note l8 = wr_block_length[OF m8, unfolded l7]
  obtain st kb where k: "ARM_UC_getDeviceKey256Bit pc device_key_buffer = Some (st, kb)"
      "err_error st = 0" "kb = key_buffer pc"
    using getDeviceKey_eq[OF pc] av by auto
  let ?tag = "snd (header_tag pc m8)"
  let ?m9 = "take 232 m8 @ ?tag @ drop 264 m8"
  have tag: "length ?tag = 32" using pc by (simp add: pal_sizes_def header_tag_def)
  have hm: "ARM_UC_cryptoHMACSHA256 pc (key_buffer pc) \<lparr>size_max = 232, bsize = 232, ptr = m8\<rparr>
        \<lparr>size_max = 32, bsize = 32, ptr = drop 232 m8\<rparr> =
      Some (ERR_NONE, \<lparr>size_max = 32, bsize = 32, ptr = ?tag @ drop 264 m8\<rparr>)"
    using pc length_device_key[OF pc] l8 len h
    by (subst cryptoHMAC_blocks[where k = "snd (device_key pc)" and i = "take 232 m8"])
       (simp_all add: rd_block_0 key_buffer_def header_tag_def)
  have m9: "wr_block m8 232 ?tag = Some ?m9"
    using l8 len tag by (simp add: wr_block_def)
  have create: "arm_uc_create_external_header_v2 pc (Some d) (Some b) =
      Some (ERR_NONE, Some (b\<lparr>ptr := ?m9, bsize := 296\<rparr>))"
    using sz lens l0 l1 l2 l3 l4 l5 l6 l7 l8 len m0 m1 m2 m3 m4 m5 m6 m7 m8 k hm
    by (simp add: arm_uc_create_external_header_v2_def write_uint32_block write_uint64_block
        memcpy_Some)
  note other = rd_block_wr_block_other
  have auth: "authentic pc ?m9"
    using av h l8 len tag by (simp add: authentic_def header_tag_def)
  have "rd_block ?m9 8 8 = Some (be64 (version d))"
    using rd_block_wr_block_same[OF m3, of 8] other[OF m4, of 8 8] other[OF m5, of 8 8]
      other[OF m6, of 8 8] other[OF m7, of 8 8] other[OF m8, of 8 8] other[OF m9, of 8 8] by simp
  moreover have "rd_block ?m9 16 8 = Some (be64 (fsize d))"
    using rd_block_wr_block_same[OF m4, of 8] other[OF m5, of 16 8]
      other[OF m6, of 16 8] other[OF m7, of 16 8] other[OF m8, of 16 8] other[OF m9, of 16 8] by simp
  moreover have "rd_block ?m9 24 32 = Some (hash d)"
    using rd_block_wr_block_same[OF m5, of 32] other[OF m6, of 24 32] other[OF m7, of 24 32]
      other[OF m8, of 24 32] other[OF m9, of 24 32] lens by simp
  moreover have "rd_block ?m9 160 16 = Some (campaign d)"
    using rd_block_wr_block_same[OF m8, of 16] other[OF m9, of 160 16] lens by simp
  ultimately show ?thesis
    using create auth l8 len tag by (intro exI[of _ "b\<lparr>ptr := ?m9, bsize := 296\<rparr>"]) simp
qed

lemma external_details_blocks:
  assumes "rd_block m 8 8 = Some (be64 v)" and "rd_block m 16 8 = Some (be64 s)"
    and "rd_block m 24 32 = Some h" and "rd_block m 160 16 = Some c"
  shows "external_details m e =
    Some (e\<lparr>version := v, fsize := s, hash := h, campaign := c, signatureSize := 0\<rparr>)"
  using assms parse_uint64_be[OF assms(1)] parse_uint64_be[OF assms(2)]
  by (simp add: external_details_def)

subsection \<open>Properties\<close>

text \<open>
  C25. Writing the internal header of a firmware and parsing it back gives the firmware's version,
  size, hash and campaign; only the signature size, which is not in the header, is left as it was
  in the caller's structure.
\<close>

theorem internal_header_parse_create:
  assumes "details_ok d" and "details_ok e" and "buf_ok b" and "112 \<le> size_max b"
  shows "\<exists>b'. arm_uc_create_internal_header_v2 (Some d) (Some b) = Some (ERR_NONE, Some b') \<and>
    bsize b' = 112 \<and>
    arm_uc_parse_internal_header_v2 (Some (ptr b')) (Some e) =
      Some (ERR_NONE, Some (d\<lparr>signatureSize := signatureSize e\<rparr>))"
  using internal_header_length[OF assms] by blast

theorem internal_header_parse_create_witness:
  "\<exists>b'. arm_uc_create_internal_header_v2 (Some (no_details\<lparr>version := 7, fsize := 1000\<rparr>))
      (Some \<lparr>size_max = 120, bsize = 0, ptr = replicate 120 0xFF\<rparr>) = Some (ERR_NONE, Some b') \<and>
    bsize b' = 112 \<and>
    arm_uc_parse_internal_header_v2 (Some (ptr b')) (Some no_details) =
      Some (ERR_NONE, Some (no_details\<lparr>version := 7, fsize := 1000, signatureSize := 0\<rparr>))"
  using internal_header_parse_create[of "no_details\<lparr>version := 7, fsize := 1000\<rparr>" no_details
      "\<lparr>size_max = 120, bsize = 0, ptr = replicate 120 0xFF\<rparr>"]
  by (simp add: details_ok_def buf_ok_def no_details_def)

lemma parse_internal_status:
  assumes "112 \<le> length m"
  shows "arm_uc_parse_internal_header_v2 (Some m) (Some e) = Some (ERR_NONE, r) \<Longrightarrow>
     arm_uc_parse_uint32 m (Some 108) = arm_uc_crc32 m 0 108"
    and "arm_uc_parse_uint32 m (Some 108) \<noteq> arm_uc_crc32 m 0 108 \<Longrightarrow>
     arm_uc_parse_internal_header_v2 (Some m) (Some e) = Some (ERR_INVALID_PARAMETER, Some e)"
  using assms
  by (auto simp: arm_uc_parse_internal_header_v2_def parse_uint32_asm32 arm_uc_crc32_foldl
      split: if_splits)

text \<open>
  C28. If a header parses, then no header that differs from it inside four consecutive bytes of
  its first 108 bytes, or in the stored checksum alone, parses: the parser answers
  \<open>ERR_INVALID_PARAMETER\<close> and leaves the caller's structure untouched.
\<close>

theorem internal_header_detects_corruption:
  assumes "arm_uc_parse_internal_header_v2 (Some m) (Some e) = Some (ERR_NONE, r)"
    and "112 \<le> length m" and "112 \<le> length m'"
    and "take 108 m = pre @ w @ post" and "take 108 m' = pre @ w' @ post"
    and "length w = 4" and "length w' = 4"
    and "w \<noteq> w' \<and> take 4 (drop 108 m) = take 4 (drop 108 m') \<or>
         w = w' \<and> take 4 (drop 108 m) \<noteq> take 4 (drop 108 m')"
  shows "arm_uc_parse_internal_header_v2 (Some m') (Some e) = Some (ERR_INVALID_PARAMETER, Some e)"
proof (rule parse_internal_status(2)[OF assms(3)])
  have ok: "arm_uc_parse_uint32 m (Some 108) = arm_uc_crc32 m 0 108"
    using parse_internal_status(1)[OF assms(2,1)] .
  have crc: "arm_uc_crc32 x 0 108 = Some (foldl crc_byte 0xFFFFFFFF (take 108 x) XOR 0xFFFFFFFF)"
    if "112 \<le> length x" for x
    using that by (simp add: arm_uc_crc32_foldl)
  have blk: "arm_uc_parse_uint32 m (Some 108) = arm_uc_parse_uint32 m' (Some 108) \<longleftrightarrow>
      take 4 (drop 108 m) = take 4 (drop 108 m')"
    using parse_uint32_inj[of 108 m m'] assms(2,3)
    by (auto simp: rd_block_4 parse_uint32_asm32 rd_block_def numeral_eq_Suc Cons_nth_drop_Suc[symmetric])
  show "arm_uc_parse_uint32 m' (Some 108) \<noteq> arm_uc_crc32 m' 0 108"
    using assms(8)
  proof
    assume *: "w \<noteq> w' \<and> take 4 (drop 108 m) = take 4 (drop 108 m')"
    then have "foldl crc_byte 0xFFFFFFFF (take 108 m) \<noteq> foldl crc_byte 0xFFFFFFFF (take 108 m')"
      using foldl_crc_window[OF assms(6,7)] assms(4,5) by simp
    then have "arm_uc_crc32 m 0 108 \<noteq> arm_uc_crc32 m' 0 108"
      by (simp only: crc[OF assms(2)] crc[OF assms(3)] option.inject word_xor_cancel_right not_False_eq_True)
    with * blk ok show ?thesis by auto
  next
    assume *: "w = w' \<and> take 4 (drop 108 m) \<noteq> take 4 (drop 108 m')"
    then have "arm_uc_crc32 m 0 108 = arm_uc_crc32 m' 0 108"
      using crc[OF assms(2)] crc[OF assms(3)] assms(4,5) by simp
    with * blk ok show ?thesis by auto
  qed
qed

theorem internal_header_detects_corruption_witness:
  "\<exists>m m' r. arm_uc_parse_internal_header_v2 (Some m) (Some no_details) = Some (ERR_NONE, r) \<and>
     m' \<noteq> m \<and>
     arm_uc_parse_internal_header_v2 (Some m') (Some no_details) =
       Some (ERR_INVALID_PARAMETER, Some no_details)"
proof -
  have nd: "no_details\<lparr>signatureSize := signatureSize no_details\<rparr> = no_details"
    by (simp add: no_details_def)
  obtain b' :: arm_uc_buffer_t where b': "bsize b' = 112" "length (ptr b') = 112"
      "arm_uc_parse_internal_header_v2 (Some (ptr b')) (Some no_details) =
         Some (ERR_NONE, Some no_details)"
    using internal_header_length[of no_details no_details
        "\<lparr>size_max = 112, bsize = 0, ptr = replicate 112 0\<rparr>"]
    by (auto simp: buf_ok_def nd)
  have "4 + 104 \<le> length (ptr b')" using b'(2) by simp
  then obtain xs mid ys where m: "ptr b' = xs @ mid @ ys" "length xs = 4" "length mid = 104"
    by (rule split_at_block)
  from m(2) obtain x0 x1 x2 x3 where xs: "xs = [x0, x1, x2, x3]"
    by (auto simp: numeral_eq_Suc length_Suc_conv)
  let ?m' = "[x0 + 1, x1, x2, x3] @ mid @ ys"
  have "arm_uc_parse_internal_header_v2 (Some ?m') (Some no_details) =
      Some (ERR_INVALID_PARAMETER, Some no_details)"
    using b'(2) m xs
    by (intro internal_header_detects_corruption[OF b'(3), where pre = "[]" and w = xs
          and w' = "[x0 + 1, x1, x2, x3]" and post = mid]) simp_all
  moreover have "?m' \<noteq> ptr b'" using m xs by simp
  ultimately show ?thesis using b'(3) by blast
qed

text \<open>
  C23. The external header parser never reads outside a header of 296 bytes, and it accepts the
  header exactly when the device key can be derived and the HMAC over the first 232 bytes is the
  32 bytes stored behind them. An accepted header yields the stored details; a rejected one
  leaves the caller's structure untouched.
\<close>

theorem external_header_authentic:
  assumes "pal_sizes pc" and "296 \<le> length m" and "details_ok e"
  shows "arm_uc_parse_external_header_v2 pc (Some m) (Some e) =
    (if authentic pc m then map_option (\<lambda>r. (ERR_NONE, Some r)) (external_details m e)
     else Some (ERR_INVALID_PARAMETER, Some e))"
  using parse_external_eq[OF assms] .

definition demo_pal :: pal_crypto where
  "demo_pal = \<lparr>pal_mdHmacSha256 = (\<lambda>k i. (0, replicate 32 (foldl (+) (foldl (+) 0 k) i))),
     pal_plat_osGetRoT = (0, replicate 16 3), pal_mdInit = 0, pal_mdUpdate = (\<lambda>_ _. 0),
     pal_mdFinal = (\<lambda>fed. (0, replicate 32 (foldl (+) 0 fed))), pal_mdFree = (\<lambda>_. 0),
     key_derivation_backward_compat = False\<rparr>"

lemma demo_pal_sizes: "pal_sizes demo_pal"
  by (simp add: pal_sizes_def demo_pal_def)

lemma demo_pal_available: "device_key_available demo_pal"
  by (simp add: device_key_available_def device_key_def demo_pal_def)

text \<open>A platform whose HMAC sums the bytes: the all-zero header does not carry its tag.\<close>

lemma demo_not_authentic: "\<not> authentic demo_pal (replicate 296 0)"
proof -
  have "snd (header_tag demo_pal (replicate 296 0)) ! 0 \<noteq> 0"
    by code_simp
  then show ?thesis by (auto simp: authentic_def dest!: arg_cong[where f = "\<lambda>xs. xs ! 0"])
qed

theorem external_header_authentic_witness:
  "arm_uc_parse_external_header_v2 demo_pal (Some (replicate 296 0)) (Some no_details) =
     Some (ERR_INVALID_PARAMETER, Some no_details)"
  using external_header_authentic[of demo_pal "replicate 296 0" no_details]
  by (simp add: demo_pal_sizes demo_not_authentic)

text \<open>
  C24. With a platform that derives the key and computes the HMAC, the header the client writes in
  front of a candidate image is accepted by its own parser and yields the image's version, size,
  hash and campaign with no signature.
\<close>

theorem external_header_parse_create:
  assumes "details_ok d" and "details_ok e" and "buf_ok b" and "296 \<le> size_max b"
    and "pal_sizes pc" and "device_key_available pc"
    and "\<forall>x. fst (pal_mdHmacSha256 pc (snd (device_key pc)) x) = 0"
  shows "\<exists>b'. arm_uc_create_external_header_v2 pc (Some d) (Some b) = Some (ERR_NONE, Some b') \<and>
    bsize b' = 296 \<and>
    arm_uc_parse_external_header_v2 pc (Some (ptr b')) (Some e) =
      Some (ERR_NONE, Some (d\<lparr>signatureSize := 0\<rparr>))"
proof -
  obtain b' where b': "arm_uc_create_external_header_v2 pc (Some d) (Some b) = Some (ERR_NONE, Some b')"
      "bsize b' = 296" "length (ptr b') = length (ptr b)" "authentic pc (ptr b')"
      "rd_block (ptr b') 8 8 = Some (be64 (version d))" "rd_block (ptr b') 16 8 = Some (be64 (fsize d))"
      "rd_block (ptr b') 24 32 = Some (hash d)" "rd_block (ptr b') 160 16 = Some (campaign d)"
    using external_header_create[OF assms(1,3,4,5,6,7)] by blast
  have "296 \<le> length (ptr b')"
    using b'(3) assms(3,4) by (simp add: buf_ok_def word_le_nat_alt)
  with b' show ?thesis
    using parse_external_eq[OF assms(5) _ assms(2)] external_details_blocks[OF b'(5-8)] by simp
qed

theorem external_header_parse_create_witness:
  "\<exists>b'. arm_uc_create_external_header_v2 demo_pal (Some (no_details\<lparr>version := 9, fsize := 5\<rparr>))
      (Some \<lparr>size_max = 300, bsize = 0, ptr = replicate 300 1\<rparr>) = Some (ERR_NONE, Some b') \<and>
    bsize b' = 296 \<and>
    arm_uc_parse_external_header_v2 demo_pal (Some (ptr b')) (Some no_details) =
      Some (ERR_NONE, Some (no_details\<lparr>version := 9, fsize := 5, signatureSize := 0\<rparr>))"
  by (rule external_header_parse_create)
     (simp_all add: demo_pal_sizes demo_pal_available details_ok_def buf_ok_def no_details_def,
      simp add: demo_pal_def)

end
