(* ===== verification/UC_Utilities.thy ===== *)
theory UC_Utilities
  imports UC_Types
begin

text \<open>
  \<open>modules/common/source/arm_uc_utilities.c\<close>: parsing of URIs and decimal numbers, substring
  search, bounded string length and the base64 variant of the update client.

  Pointers into the buffer being parsed are offsets into its object. \<open>size_t\<close> and pointer
  differences are 32 bits wide, as on the K64F, so \<open>buffer_size - (str - buffer)\<close> is a 32-bit
  subtraction that wraps when \<open>str\<close> has moved past the end.
\<close>

subsection \<open>Library functions of C\<close>

fun memchr :: "bytes \<Rightarrow> nat \<Rightarrow> u8 \<Rightarrow> nat \<Rightarrow> nat option option" where
  "memchr m p c 0 = Some None"
| "memchr m p c (Suc n) = do {
     b \<leftarrow> rd m p;
     if b = c then Some (Some p) else memchr m (Suc p) c n
   }"

fun strlen_from :: "bytes \<Rightarrow> nat option" where
  "strlen_from [] = None"
| "strlen_from (b # bs) = (if b = 0 then Some 0 else map_option Suc (strlen_from bs))"

subsection \<open>Bounded length and decimal numbers\<close>

fun strnlen_loop :: "bytes \<Rightarrow> nat \<Rightarrow> nat \<Rightarrow> nat \<Rightarrow> nat option" where
  "strnlen_loop m p len 0 = Some len"
| "strnlen_loop m p len (Suc n) = do {
     b \<leftarrow> rd m (p + len);
     if b = 0 then Some len else strnlen_loop m p (Suc len) n
   }"

definition arm_uc_strnlen :: "bytes \<Rightarrow> nat \<Rightarrow> u32 \<Rightarrow> u32 option" where
  "arm_uc_strnlen m buffer max_length =
     map_option of_nat (strnlen_loop m buffer 0 (unat max_length))"

fun str2uint_loop :: "bytes \<Rightarrow> nat \<Rightarrow> nat \<Rightarrow> u64 \<Rightarrow> bool \<Rightarrow> (u64 \<times> bool) option" where
  "str2uint_loop m p 0 result found = Some (result, found)"
| "str2uint_loop m p (Suc n) result found = do {
     c \<leftarrow> rd m p;
     if 48 \<le> c \<and> c \<le> 57 \<and> result < 0xFFFFFFFFFFFFFFFF
     then str2uint_loop m (Suc p) n (result * 10 + ucast (c - 48)) True
     else Some (result, found)
   }"

definition arm_uc_str2uint32 :: "bytes \<Rightarrow> nat option \<Rightarrow> u32 \<Rightarrow> (u32 \<times> bool) option" where
  "arm_uc_str2uint32 m buffer max_length =
     (case buffer of
        None \<Rightarrow> Some (0, False)
      | Some p \<Rightarrow>
          (if max_length > 0 then do {
             (result, found) \<leftarrow> str2uint_loop m p (unat max_length) 0 False;
             Some (if found \<and> result \<le> 0xFFFFFFFFFFFFFFFF then (ucast result, True) else (0, False))
           } else Some (0, False)))"

subsection \<open>Substring search\<close>

fun strnstrn_hashes :: "bytes \<Rightarrow> bytes \<Rightarrow> nat \<Rightarrow> nat \<Rightarrow> u8 \<Rightarrow> u8 \<Rightarrow> (u8 \<times> u8) option" where
  "strnstrn_hashes big little i 0 lh bh = Some (lh, bh)"
| "strnstrn_hashes big little i (Suc n) lh bh = do {
     l \<leftarrow> rd little i;
     b \<leftarrow> rd big i;
     strnstrn_hashes big little (Suc i) n (lh XOR l) (bh XOR b)
   }"

fun strnstrn_checks :: "bytes \<Rightarrow> bytes \<Rightarrow> nat \<Rightarrow> nat \<Rightarrow> nat \<Rightarrow> nat option" where
  "strnstrn_checks big little index checks 0 = Some checks"
| "strnstrn_checks big little index checks (Suc n) = do {
     b \<leftarrow> rd big (index + checks);
     l \<leftarrow> rd little checks;
     if b \<noteq> l then Some checks else strnstrn_checks big little index (Suc checks) n
   }"

fun strnstrn_loop :: "bytes \<Rightarrow> bytes \<Rightarrow> nat \<Rightarrow> u8 \<Rightarrow> nat \<Rightarrow> nat \<Rightarrow> u8 \<Rightarrow> nat option option" where
  "strnstrn_loop big little ll lh index 0 bh = Some None"
| "strnstrn_loop big little ll lh index (Suc n) bh = do {
     b \<leftarrow> rd big (index + (ll - 1));
     let bh = bh XOR b;
     checks \<leftarrow> (if lh = bh then strnstrn_checks big little index 0 ll else Some 0);
     if lh = bh \<and> checks = ll then Some (Some index)
     else do {
       t \<leftarrow> rd big index;
       strnstrn_loop big little ll lh (Suc index) n (bh XOR t)
     }
   }"

definition arm_uc_strnstrn :: "bytes option \<Rightarrow> u32 \<Rightarrow> bytes option \<Rightarrow> u32 \<Rightarrow> u32 option" where
  "arm_uc_strnstrn big_buffer big_length little_buffer little_length =
     (case (big_buffer, little_buffer) of
        (Some big, Some little) \<Rightarrow>
          (if big_length \<ge> little_length \<and> little_length > 0 then do {
             let m1 = little_length - 1;
             (lh, bh) \<leftarrow> strnstrn_hashes big little 0 (unat m1) 0 0;
             l \<leftarrow> rd little (unat m1);
             r \<leftarrow> strnstrn_loop big little (unat little_length) (lh XOR l) 0
                   (unat (big_length - m1)) bh;
             Some (case r of None \<Rightarrow> 0xFFFFFFFF | Some i \<Rightarrow> of_nat i)
           } else Some 0xFFFFFFFF)
      | _ \<Rightarrow> Some 0xFFFFFFFF)"

subsection \<open>URIs\<close>

datatype arm_uc_uri_scheme_t = URI_SCHEME_NONE | URI_SCHEME_HTTP | URI_SCHEME_COAPS | URI_SCHEME_FILE

text \<open>\<open>host\<close> and \<open>path\<close> point into \<open>ptr\<close>.\<close>

record arm_uc_uri_t =
  uri_size_max :: u32
  uri_size :: u32
  uri_ptr :: "bytes option"
  scheme :: arm_uc_uri_scheme_t
  port :: u16
  host :: "nat option"
  path :: "nat option"

definition http_colon :: bytes where "http_colon = [104, 116, 116, 112, 58]"
definition coaps_colon :: bytes where "coaps_colon = [99, 111, 97, 112, 115, 58]"
definition file_colon :: bytes where "file_colon = [102, 105, 108, 101, 58]"

fun lower_loop :: "bytes \<Rightarrow> nat \<Rightarrow> nat \<Rightarrow> bytes \<Rightarrow> bytes option" where
  "lower_loop str index 0 d = Some d"
| "lower_loop str index (Suc n) d = do {
     c \<leftarrow> rd str index;
     d \<leftarrow> wr d index (if c < 97 then c + 32 else c);
     lower_loop str (Suc index) n d
   }"

fun skip_slash :: "bytes \<Rightarrow> nat \<Rightarrow> nat \<Rightarrow> nat \<Rightarrow> nat option" where
  "skip_slash m str bufend 0 = do { _ \<leftarrow> rd m str; Some str }"
| "skip_slash m str bufend (Suc left) = do {
     c \<leftarrow> rd m str;
     if c = 47 \<and> str < bufend then skip_slash m (Suc str) bufend left else Some str
   }"

definition uri_scheme_of :: "bytes \<Rightarrow> arm_uc_uri_t \<Rightarrow> arm_uc_uri_t option" where
  "uri_scheme_of d uri = do {
     b \<leftarrow> rd_block d 0 5;
     if b = http_colon then Some (uri\<lparr>scheme := URI_SCHEME_HTTP, port := 80\<rparr>)
     else do {
       b \<leftarrow> rd_block d 0 6;
       if b = coaps_colon then Some (uri\<lparr>scheme := URI_SCHEME_COAPS, port := 5683\<rparr>)
       else do {
         b \<leftarrow> rd_block d 0 5;
         if b = file_colon then Some (uri\<lparr>scheme := URI_SCHEME_FILE\<rparr>)
         else Some (uri\<lparr>scheme := URI_SCHEME_NONE\<rparr>)
       }
     }
   }"

text \<open>The path of a \<open>file\<close> URI is everything behind the slashes.\<close>

definition uri_file :: "bytes \<Rightarrow> u32 \<Rightarrow> nat \<Rightarrow> bytes \<Rightarrow> arm_uc_uri_t \<Rightarrow> (arm_uc_error_t \<times> arm_uc_uri_t) option"
where
  "uri_file m buffer_size str d uri = do {
     d \<leftarrow> wr d 0 0;
     let len = buffer_size - of_nat str;
     d \<leftarrow> memcpy d 1 m str (unat len);
     d \<leftarrow> wr d (unat (len + 1)) 0;
     Some (ERR_NONE, uri\<lparr>uri_ptr := Some d, host := Some 0, path := Some 1, uri_size := len + 2\<rparr>)
   }"

text \<open>Host, optional port and path.\<close>

definition uri_host_path ::
    "bytes \<Rightarrow> u32 \<Rightarrow> nat \<Rightarrow> bytes \<Rightarrow> arm_uc_uri_t \<Rightarrow> (arm_uc_error_t \<times> arm_uc_uri_t) option"
where
  "uri_host_path m buffer_size str d uri = do {
     slash \<leftarrow> memchr m str 47 (unat (buffer_size - of_nat str));
     case slash of
       None \<Rightarrow> Some (ERR_INVALID_PARAMETER, uri)
     | Some slash \<Rightarrow> do {
         colon \<leftarrow> memchr m str 58 (unat (buffer_size - of_nat slash));
         (uri, len, parsed) \<leftarrow>
           (case colon of
              Some colon \<Rightarrow> do {
                (v, parsed) \<leftarrow> arm_uc_str2uint32 m (Some (colon + 1)) (buffer_size - of_nat colon);
                Some (uri\<lparr>port := ucast v\<rparr>, of_nat (colon - str) :: u32, parsed)
              }
            | None \<Rightarrow> Some (uri, of_nat (slash - str), True));
         if parsed \<and> len < uri_size_max uri then do {
           d \<leftarrow> memcpy d 0 m str (unat len);
           d \<leftarrow> wr d (unat len) 0;
           let uri = uri\<lparr>uri_ptr := Some d, uri_size := len + 1, host := Some 0\<rparr>;
           len \<leftarrow> arm_uc_strnlen m slash (buffer_size - of_nat slash);
           if len > 0 \<and> len < uri_size_max uri - uri_size uri then do {
             let at = uri_size uri;
             d \<leftarrow> memcpy d (unat at) m slash (unat len);
             d \<leftarrow> wr d (unat (at + len)) 0;
             Some (ERR_NONE, uri\<lparr>uri_ptr := Some d, path := Some (unat at),
                               uri_size := at + (len + 1)\<rparr>)
           } else Some (ERR_INVALID_PARAMETER, uri)
         } else Some (ERR_INVALID_PARAMETER, uri)
       }
   }"

text \<open>
  When there is no colon, the code subtracts a null pointer from \<open>str\<close>; the model has no value
  for that.
\<close>

definition arm_uc_str2uri ::
    "bytes option \<Rightarrow> u32 \<Rightarrow> arm_uc_uri_t option \<Rightarrow> (arm_uc_error_t \<times> arm_uc_uri_t option) option"
where
  "arm_uc_str2uri buffer buffer_size uri_ref =
     (case (buffer, uri_ref) of
        (Some m, Some uri) \<Rightarrow>
          (case uri_ptr uri of
             None \<Rightarrow> Some (ERR_INVALID_PARAMETER, uri_ref)
           | Some d \<Rightarrow>
               (if buffer_size < uri_size_max uri then do {
                  found \<leftarrow> memchr m 0 58 (unat buffer_size);
                  colon \<leftarrow> found;
                  let len = (of_nat colon :: u32);
                  if len < uri_size_max uri then do {
                    d \<leftarrow> lower_loop m 0 (unat len) d;
                    c \<leftarrow> rd m (unat len);
                    d \<leftarrow> wr d (unat len) c;
                    uri \<leftarrow> uri_scheme_of d uri;
                    let uri = uri\<lparr>uri_ptr := Some d\<rparr>;
                    if scheme uri \<noteq> URI_SCHEME_NONE then do {
                      str \<leftarrow> skip_slash m (colon + 1 + 1) (unat buffer_size) 1;
                      map_option (\<lambda>(e, u). (e, Some u))
                        (if scheme uri = URI_SCHEME_FILE then uri_file m buffer_size str d uri
                         else uri_host_path m buffer_size str d uri)
                    } else Some (ERR_INVALID_PARAMETER, Some uri)
                  } else Some (ERR_INVALID_PARAMETER, uri_ref)
                } else Some (ERR_INVALID_PARAMETER, uri_ref)))
      | _ \<Rightarrow> Some (ERR_INVALID_PARAMETER, uri_ref))"

definition arm_uc_calculate_full_uri_length :: "arm_uc_uri_t \<Rightarrow> u32 option" where
  "arm_uc_calculate_full_uri_length uri =
     (case scheme uri of
        URI_SCHEME_NONE \<Rightarrow> Some 0
      | s \<Rightarrow> do {
          let scheme_length = (case s of URI_SCHEME_COAPS \<Rightarrow> 8 + 1 | URI_SCHEME_HTTP \<Rightarrow> 7 + 1 | _ \<Rightarrow> 7 + 1);
          d \<leftarrow> uri_ptr uri;
          p \<leftarrow> path uri;
          n \<leftarrow> strlen_from (drop p d);
          Some (uri_size uri + of_nat n + scheme_length)
        })"

subsection \<open>Base64\<close>

definition MBED_CLOUD_UPDATE_BASE64_CHARSET :: bytes where
  "MBED_CLOUD_UPDATE_BASE64_CHARSET =
     map word_of_nat ([48 ..< 58] @ [64 ..< 91] @ [95] @ [97 ..< 123] @ [45])"

text \<open>The loop writes four characters while four fit before \<open>lastPos\<close>, then a terminator.\<close>

function base64_enc_loop ::
    "bytes \<Rightarrow> int \<Rightarrow> arm_uc_buffer_t \<Rightarrow> nat \<Rightarrow> nat \<Rightarrow> (bytes \<times> nat) option"
where
  "base64_enc_loop out lastPos bin buf i =
     (if i < unat (bsize bin) \<and> int buf \<le> lastPos - 4 then do {
        let pad2 = unat (bsize bin) - unat (bsize bin) mod 3;
        let pad1 = (unat (bsize bin) - unat (bsize bin) mod 3) + 1;
        b0 \<leftarrow> rd (ptr bin) i;
        let partial = push_bit 16 (ucast b0 :: u32);
        partial \<leftarrow> (if i < pad1 then do { b1 \<leftarrow> rd (ptr bin) (i + 1); Some (partial OR push_bit 8 (ucast b1)) }
                    else Some partial);
        partial \<leftarrow> (if i < pad2 then do { b2 \<leftarrow> rd (ptr bin) (i + 2); Some (partial OR ucast b2) }
                    else Some partial);
        let chr = (\<lambda>k. MBED_CLOUD_UPDATE_BASE64_CHARSET ! unat (drop_bit k partial AND 0x3f));
        out \<leftarrow> wr out buf (chr 18);
        out \<leftarrow> wr out (buf + 1) (chr 12);
        out \<leftarrow> wr out (buf + 2) (if i < pad1 then chr 6 else MBED_CLOUD_UPDATE_BASE64_CHARSET ! 64);
        out \<leftarrow> wr out (buf + 3) (if i < pad2 then chr 0 else MBED_CLOUD_UPDATE_BASE64_CHARSET ! 64);
        base64_enc_loop out lastPos bin (buf + 4) (i + 3)
      } else Some (out, buf))"
  by pat_completeness auto
termination
  by (relation "measure (\<lambda>(out, lastPos, bin, buf, i). unat (bsize bin) - i)") auto

definition ARM_UC_Base64Enc :: "bytes \<Rightarrow> nat \<Rightarrow> u32 \<Rightarrow> arm_uc_buffer_t \<Rightarrow> (bytes \<times> nat) option" where
  "ARM_UC_Base64Enc out buf size' bin = do {
     (out, buf) \<leftarrow> base64_enc_loop out (int buf + uint size') bin buf 0;
     out \<leftarrow> wr out buf 0;
     Some (out, buf)
   }"

fun base64_search :: "u8 \<Rightarrow> nat \<Rightarrow> nat \<Rightarrow> u32" where
  "base64_search c idx 0 = - 1"
| "base64_search c idx (Suc i) =
     (let tmpidx = idx + 2 ^ i;
          ct = MBED_CLOUD_UPDATE_BASE64_CHARSET ! tmpidx
      in if c = ct then of_nat tmpidx
         else if c > ct then base64_search c tmpidx i else base64_search c idx i)"

definition ARM_UC_Base64DecodeChar :: "u8 \<Rightarrow> u32" where
  "ARM_UC_Base64DecodeChar c =
     (if c = MBED_CLOUD_UPDATE_BASE64_CHARSET ! 64 \<or> c = MBED_CLOUD_UPDATE_BASE64_CHARSET ! 0 then 0
      else base64_search c 0 6)"

function base64_dec_loop ::
    "bytes \<Rightarrow> nat \<Rightarrow> nat \<Rightarrow> bytes \<Rightarrow> nat \<Rightarrow> nat \<Rightarrow> (bytes \<times> nat) option"
where
  "base64_dec_loop buf size' iptr out size_max' optr =
     (if iptr + 4 < size' \<and> optr + 1 < size_max' then do {
        ca \<leftarrow> rd buf iptr;
        cb \<leftarrow> rd buf (iptr + 1);
        cc \<leftarrow> rd buf (iptr + 2);
        cd \<leftarrow> rd buf (iptr + 3);
        let a = (ucast (ARM_UC_Base64DecodeChar ca) :: u8);
        let b = (ucast (ARM_UC_Base64DecodeChar cb) :: u8);
        let c = (ucast (ARM_UC_Base64DecodeChar cc) :: u8);
        let d = (ucast (ARM_UC_Base64DecodeChar cd) :: u8);
        let l = (3 - (if d = MBED_CLOUD_UPDATE_BASE64_CHARSET ! 64 then 1 else 0)
                   - (if c = MBED_CLOUD_UPDATE_BASE64_CHARSET ! 64 then 1 else 0) :: nat);
        let partial = [(push_bit 2 a AND 0xfc) OR (drop_bit 4 b AND 0x3),
                       (push_bit 4 b AND 0xf0) OR (drop_bit 2 c AND 0xf),
                       (push_bit 6 c AND 0xc0) OR (d AND 0x3f)];
        out \<leftarrow> memcpy out optr partial 0 l;
        if d = MBED_CLOUD_UPDATE_BASE64_CHARSET ! 64 then Some (out, optr + l)
        else base64_dec_loop buf size' (iptr + 4) out size_max' (optr + l)
      } else Some (out, optr))"
  by pat_completeness auto
termination
  by (relation "measure (\<lambda>(buf, size', iptr, _). size' - iptr)") auto

definition ARM_UC_Base64Dec :: "arm_uc_buffer_t \<Rightarrow> u32 \<Rightarrow> bytes \<Rightarrow> arm_uc_buffer_t option" where
  "ARM_UC_Base64Dec bin size' buf = do {
     (out, optr) \<leftarrow> base64_dec_loop buf (unat size') 0 (ptr bin) (unat (size_max bin)) 0;
     Some (bin\<lparr>ptr := out, bsize := of_nat optr\<rparr>)
   }"

subsection \<open>Substring search\<close>

definition xor_sum :: "bytes \<Rightarrow> u8" where "xor_sum xs = foldr (XOR) xs 0"

lemma xor_sum_Nil [simp]: "xor_sum [] = 0"
  by (simp add: xor_sum_def)

lemma xor_sum_Cons [simp]: "xor_sum (x # xs) = x XOR xor_sum xs"
  by (simp add: xor_sum_def)

lemma xor_sum_append [simp]: "xor_sum (xs @ ys) = xor_sum xs XOR xor_sum ys"
  by (induction xs) (auto simp: xor.assoc)

lemma strnstrn_hashes_spec:
  "\<lbrakk>i + n \<le> length big; i + n \<le> length little\<rbrakk> \<Longrightarrow>
     strnstrn_hashes big little i n lh bh =
       Some (lh XOR xor_sum (take n (drop i little)), bh XOR xor_sum (take n (drop i big)))"
proof (induction n arbitrary: i lh bh)
  case (Suc n)
  from Suc.prems show ?case
    by (simp add: mem_simps Suc.IH take_Suc_drop xor.assoc)
qed simp

lemma strnstrn_checks_spec:
  "\<lbrakk>index + checks + n \<le> length big; checks + n \<le> length little\<rbrakk> \<Longrightarrow>
     \<exists>c. strnstrn_checks big little index checks n = Some c \<and>
       (c = checks + n \<longleftrightarrow> take n (drop (index + checks) big) = take n (drop checks little)) \<and>
       c \<le> checks + n"
proof (induction n arbitrary: checks)
  case (Suc n)
  from Suc.prems Suc.IH[of "Suc checks"] show ?case
    by (auto simp: mem_simps take_Suc_drop)
qed simp

text \<open>The reference: the first position at which the little string occurs.\<close>

definition occurs_at :: "bytes \<Rightarrow> bytes \<Rightarrow> nat \<Rightarrow> nat \<Rightarrow> bool" where
  "occurs_at big little ll i = (take ll (drop i big) = take ll little)"

lemma strnstrn_loop_spec:
  assumes "ll = Suc k" and "index + n + k \<le> length big" and "ll \<le> length little"
    and "lh = xor_sum (take ll little)" and "bh = xor_sum (take k (drop index big))"
  shows "strnstrn_loop big little ll lh index n bh =
     Some (find (occurs_at big little ll) [index ..< index + n])"
  using assms
proof (induction n arbitrary: index bh)
  case (Suc n)
  let ?w = "take ll (drop index big)"
  let ?bh = "bh XOR big ! (index + k)"
  have w: "?w = take k (drop index big) @ [big ! (index + k)]"
    using Suc.prems by (simp add: take_Suc_drop_app)
  have bh: "?bh = xor_sum ?w"
    unfolding w using Suc.prems by simp
  have w': "?w = big ! index # take k (drop (Suc index) big)"
    using Suc.prems by (simp add: take_Suc_drop)
  have next_bh: "?bh XOR big ! index = xor_sum (take k (drop (Suc index) big))"
    unfolding bh w' by (simp add: ac_simps)
  obtain c where c: "strnstrn_checks big little index 0 ll = Some c"
      "c = ll \<longleftrightarrow> occurs_at big little ll index"
    using strnstrn_checks_spec[of index 0 ll big little] Suc.prems
    by (auto simp: occurs_at_def)
  have hash: "occurs_at big little ll index \<Longrightarrow> lh = ?bh"
    using Suc.prems bh by (simp add: occurs_at_def)
  have IH: "strnstrn_loop big little ll lh (Suc index) n (?bh XOR big ! index) =
      Some (find (occurs_at big little ll) [Suc index ..< Suc index + n])"
    using Suc.prems next_bh by (intro Suc.IH) auto
  have rds: "rd big (index + k) = Some (big ! (index + k))" "rd big index = Some (big ! index)"
    using Suc.prems by (simp_all add: mem_simps)
  have upt: "[index ..< index + Suc n] = index # [Suc index ..< Suc index + n]"
    by (simp add: upt_rec)
  show ?case
  proof (cases "occurs_at big little ll index")
    case True
    with hash have "lh = ?bh" by simp
    then have "strnstrn_loop big little ll lh index (Suc n) bh = Some (Some index)"
      using True c rds Suc.prems(1) by (simp add: Let_def del: strnstrn_checks.simps)
    then show ?thesis unfolding upt using True by simp
  next
    case False
    have step: "strnstrn_loop big little ll lh index (Suc n) bh =
        strnstrn_loop big little ll lh (Suc index) n (?bh XOR big ! index)"
      using False c rds Suc.prems(1) by (simp add: Let_def del: strnstrn_checks.simps)
    show ?thesis unfolding step IH upt using False by simp
  qed
qed simp

lemma arm_uc_strnstrn_spec:
  assumes "unat bl \<le> length big" and "unat ll \<le> length little" and "0 < ll" and "ll \<le> bl"
  shows "arm_uc_strnstrn (Some big) bl (Some little) ll =
     Some (case find (occurs_at big little (unat ll)) [0 ..< unat bl - unat ll + 1] of
             None \<Rightarrow> 0xFFFFFFFF | Some i \<Rightarrow> of_nat i)"
proof -
  have pos: "0 < unat ll" using assms(3) by (simp add: word_less_nat_alt)
  have le: "unat ll \<le> unat bl" using assms(4) by (simp add: word_le_nat_alt)
  have m1: "unat (ll - 1) = unat ll - 1"
    using assms(3) by (simp add: unat_minus_one less_imp_neq[symmetric] word_less_nat_alt)
  have "ll - 1 \<le> bl" using le m1 by (simp add: word_le_nat_alt)
  then have bm: "unat (bl - (ll - 1)) = unat bl - unat ll + 1"
    using le pos m1 by (simp add: unat_sub)
  obtain k where k: "unat ll = Suc k" using pos gr0_conv_Suc by blast
  have h: "strnstrn_hashes big little 0 (unat (ll - 1)) 0 0 =
      Some (xor_sum (take k little), xor_sum (take k big))"
    using strnstrn_hashes_spec[of 0 k big little 0 0] assms(1,2) le k m1 by simp
  have lh: "xor_sum (take k little) XOR little ! k = xor_sum (take (unat ll) little)"
    using assms(2) k by (simp add: take_Suc_conv_app_nth)
  have "strnstrn_loop big little (unat ll) (xor_sum (take k little) XOR little ! k) 0
      (unat bl - unat ll + 1) (xor_sum (take k big)) =
      Some (find (occurs_at big little (unat ll)) [0 ..< unat bl - unat ll + 1])"
    using strnstrn_loop_spec[OF k, of 0 "unat bl - unat ll + 1" big little] lh assms(1,2) le k by simp
  moreover have "rd little (unat (ll - 1)) = Some (little ! k)"
    using assms(2) k m1 by (simp add: mem_simps)
  ultimately show ?thesis
    using assms(3,4) h bm m1 k by (simp add: arm_uc_strnstrn_def Let_def del: strnstrn_loop.simps upt_Suc)
qed

text \<open>
  C36. The rolling-hash search is the naive search: inside its two buffers it never reads out of
  bounds and returns the first position at which the little string occurs in the big one, and
  \<open>UINT32_MAX\<close> when there is none, when the little string is empty or when it is the longer one.
\<close>

theorem strnstrn_first_occurrence:
  assumes "unat bl \<le> length big" and "unat ll \<le> length little"
  shows "arm_uc_strnstrn (Some big) bl (Some little) ll =
     Some (case find (\<lambda>i. take (unat ll) (drop i big) = take (unat ll) little)
                     (if ll = 0 \<or> bl < ll then [] else [0 ..< unat bl - unat ll + 1]) of
             None \<Rightarrow> 0xFFFFFFFF | Some i \<Rightarrow> of_nat i)"
proof (cases "ll = 0 \<or> bl < ll")
  case False
  then have "0 < ll" "ll \<le> bl" by (auto simp: word_neq_0_conv not_less)
  from arm_uc_strnstrn_spec[OF assms this] False show ?thesis by (simp add: occurs_at_def[abs_def])
qed (auto simp: arm_uc_strnstrn_def word_neq_0_conv)

theorem strnstrn_first_occurrence_witness:
  "arm_uc_strnstrn (Some [1, 2, 1, 2, 3, 9]) 6 (Some [1, 2, 3]) 3 = Some 2"
  by (subst strnstrn_first_occurrence) (simp_all add: upt_rec)

subsection \<open>Decimal numbers\<close>

definition is_digit :: "u8 \<Rightarrow> bool" where
  "is_digit c = (48 \<le> c \<and> c \<le> 57)"

definition dec_value :: "nat \<Rightarrow> bytes \<Rightarrow> nat" where
  "dec_value v ds = foldl (\<lambda>v c. v * 10 + (unat c - 48)) v ds"

lemma dec_value_Cons [simp]: "dec_value v (c # cs) = dec_value (v * 10 + (unat c - 48)) cs"
  by (simp add: dec_value_def)

lemma dec_value_Nil [simp]: "dec_value v [] = v"
  by (simp add: dec_value_def)

lemma dec_value_mono: "v \<le> dec_value v ds"
proof (induction ds arbitrary: v)
  case (Cons c cs)
  have "v \<le> v * 10 + (unat c - 48)" by simp
  also have "\<dots> \<le> dec_value (v * 10 + (unat c - 48)) cs" by (rule Cons.IH)
  finally show ?case by simp
qed simp

lemma digit_step:
  assumes "is_digit c" and "v * 10 + (unat c - 48) < 2 ^ 64"
  shows "(of_nat v :: u64) * 10 + ucast (c - 48) = of_nat (v * 10 + (unat c - 48))"
proof -
  have "unat (c - 48) = unat c - 48"
    using assms(1) by (simp add: is_digit_def unat_sub)
  then have "(ucast (c - 48) :: u64) = of_nat (unat c - 48)"
    by (metis of_nat_unat)
  then show ?thesis by simp
qed

lemma of_nat_lt_max64:
  "(of_nat v :: u64) < 0xFFFFFFFFFFFFFFFF \<longleftrightarrow> v < 0xFFFFFFFFFFFFFFFF" if "v < 2 ^ 64"
proof -
  have "unat (of_nat v :: u64) = v" using that by (simp add: unat_of_nat take_bit_nat_eq_self)
  then show ?thesis by (simp add: word_less_nat_alt)
qed

lemma str2uint_loop_digits:
  assumes "drop p m = ds @ rest" and "list_all is_digit ds" and "length ds \<le> n"
    and "length ds = n \<or> (\<exists>c cs. rest = c # cs \<and> \<not> is_digit c)"
    and "dec_value v ds < 0xFFFFFFFFFFFFFFFF"
  shows "str2uint_loop m p n (of_nat v) found = Some (of_nat (dec_value v ds), found \<or> ds \<noteq> [])"
  using assms
proof (induction ds arbitrary: p n v found)
  case Nil
  then show ?case
  proof (cases n)
    case (Suc k)
    with Nil obtain c cs where c: "rest = c # cs" "\<not> is_digit c" by auto
    with Nil have "p < length m" "m ! p = c"
      by (metis append_Nil drop_eq_Nil2 linorder_not_less list.discI)
        (metis Nil.prems(1) append_Nil c(1) hd_drop_conv_nth drop_eq_Nil2 linorder_not_less list.discI list.sel(1))
    with c Suc show ?thesis by (auto simp: mem_simps is_digit_def)
  qed simp
next
  case (Cons c cs)
  from Cons.prems(3) obtain k where k: "n = Suc k" by (cases n) auto
  have p: "p < length m" using Cons.prems(1) by (metis append_Cons drop_eq_Nil2 linorder_not_less list.discI)
  have mp: "m ! p = c" "drop (Suc p) m = cs @ rest"
    using Cons.prems(1) p by (simp_all add: Cons_nth_drop_Suc[symmetric])
  have le: "v \<le> dec_value v (c # cs)" "v * 10 + (unat c - 48) \<le> dec_value v (c # cs)"
    using dec_value_mono[of v "c # cs"] dec_value_mono[of "v * 10 + (unat c - 48)" cs] by simp_all
  have lt: "(of_nat v :: u64) < 0xFFFFFFFFFFFFFFFF"
    using le(1) Cons.prems(5) by (subst of_nat_lt_max64) (simp_all del: dec_value_Cons)
  have st: "(of_nat v :: u64) * 10 + ucast (c - 48) = of_nat (v * 10 + (unat c - 48))"
    using Cons.prems(2,5) le(2) by (intro digit_step) auto
  have "str2uint_loop m (Suc p) k (of_nat (v * 10 + (unat c - 48))) True =
      Some (of_nat (dec_value (v * 10 + (unat c - 48)) cs), True)"
    using Cons.IH[of "Suc p" k "v * 10 + (unat c - 48)" True] Cons.prems mp k by auto
  then show ?case
    using p mp(1) k lt st Cons.prems(2) by (simp add: mem_simps is_digit_def)
qed

lemma str2uint32_digits:
  assumes "drop p m = ds @ rest" and "list_all is_digit ds" and "ds \<noteq> []" and "length ds \<le> unat n"
    and "length ds = unat n \<or> (\<exists>c cs. rest = c # cs \<and> \<not> is_digit c)"
    and "dec_value 0 ds < 0xFFFFFFFFFFFFFFFF"
  shows "arm_uc_str2uint32 m (Some p) n = Some (of_nat (dec_value 0 ds), True)"
proof -
  have "0 < unat n" using assms(3,4) by (cases ds) auto
  then have n: "0 < n" by (simp add: word_less_nat_alt)
  have l: "str2uint_loop m p (unat n) 0 False = Some (of_nat (dec_value 0 ds), True)"
    using str2uint_loop_digits[OF assms(1,2,4,5,6), of False] assms(3) by simp
  have m: "(of_nat (dec_value 0 ds) :: u64) \<le> 0xFFFFFFFFFFFFFFFF"
    using unsigned_less[of "of_nat (dec_value 0 ds) :: u64", where 'a = nat]
    by (simp add: word_le_nat_alt)
  have "(ucast (of_nat (dec_value 0 ds) :: u64) :: u32) = of_nat (dec_value 0 ds)"
    using assms(6) by (simp add: unsigned_of_nat take_bit_nat_eq_self)
  with l m n show ?thesis by (simp add: arm_uc_str2uint32_def)
qed

text \<open>
  A run of decimal digits, ended by the length limit or by another character, and whose value
  fits 32 bits, is parsed to exactly that value with the success flag set.
\<close>

theorem str2uint32_exact:
  assumes "drop p m = ds @ rest" and "list_all is_digit ds" and "ds \<noteq> []" and "length ds \<le> unat n"
    and "length ds = unat n \<or> (\<exists>c cs. rest = c # cs \<and> \<not> is_digit c)"
    and "dec_value 0 ds < 2 ^ 32"
  shows "\<exists>v. arm_uc_str2uint32 m (Some p) n = Some (v, True) \<and> unat v = dec_value 0 ds"
  using str2uint32_digits[OF assms(1-5)] assms(6)
  by (auto simp: unat_of_nat take_bit_nat_eq_self)

theorem str2uint32_exact_witness:
  "\<exists>v. arm_uc_str2uint32 [52, 50, 47] (Some 0) 3 = Some (v, True) \<and> unat v = 42"
  using str2uint32_exact[of 0 "[52, 50, 47]" "[52, 50]" "[47]" 3]
  by (simp add: is_digit_def)

text \<open>
  C39. The limit the code checks is the one of 64 bits and not the documented one of 32: a digit
  string of 4294967296 up to 18446744073709551614 is accepted with success, and the value
  returned is its remainder modulo 2 to the 32.
\<close>

theorem str2uint32_truncates:
  assumes "drop p m = ds @ rest" and "list_all is_digit ds" and "ds \<noteq> []" and "length ds \<le> unat n"
    and "length ds = unat n \<or> (\<exists>c cs. rest = c # cs \<and> \<not> is_digit c)"
    and "2 ^ 32 \<le> dec_value 0 ds" and "dec_value 0 ds < 2 ^ 64 - 1"
  shows "\<exists>v. arm_uc_str2uint32 m (Some p) n = Some (v, True) \<and> unat v = dec_value 0 ds mod 2 ^ 32 \<and>
    unat v \<noteq> dec_value 0 ds"
proof -
  let ?v = "of_nat (dec_value 0 ds) :: u32"
  have "unat ?v = dec_value 0 ds mod 2 ^ 32" by (simp add: unat_of_nat take_bit_eq_mod)
  moreover have "unat ?v < 2 ^ 32" using unsigned_less[of ?v, where 'a = nat] by simp
  ultimately show ?thesis using str2uint32_digits[OF assms(1-5)] assms(6,7) by auto
qed

theorem str2uint32_truncates_witness:
  "\<exists>v. arm_uc_str2uint32 [52, 50, 57, 52, 57, 54, 55, 50, 57, 54] (Some 0) 10 = Some (v, True) \<and>
     unat v = 0"
  using str2uint32_truncates[of 0 "[52, 50, 57, 52, 57, 54, 55, 50, 57, 54]"
      "[52, 50, 57, 52, 57, 54, 55, 50, 57, 54]" "[]" 10]
  by (auto simp: is_digit_def)

subsection \<open>URIs\<close>

lemma memchr_absent:
  "p + n \<le> length m \<Longrightarrow> c \<notin> set (take n (drop p m)) \<Longrightarrow> memchr m p c n = Some None"
  by (induction n arbitrary: p) (auto simp: mem_simps take_Suc_drop)

lemma memchr_found:
  "\<lbrakk>drop p m = xs @ c # ys; c \<notin> set xs; length xs < n\<rbrakk> \<Longrightarrow>
     memchr m p c n = Some (Some (p + length xs))"
proof (induction xs arbitrary: p n)
  case Nil
  then have "p < length m" "m ! p = c"
    by (metis append_Nil drop_eq_Nil2 linorder_not_less list.discI)
       (metis Nil.prems(1) append_Nil drop_eq_Nil2 hd_drop_conv_nth linorder_not_less list.discI list.sel(1))
  with Nil show ?case by (cases n) (auto simp: mem_simps)
next
  case (Cons x xs)
  have p: "p < length m" using Cons.prems(1) by (metis append_Cons drop_eq_Nil2 linorder_not_less list.discI)
  have "m ! p = x" "drop (Suc p) m = xs @ c # ys"
    using Cons.prems(1) p by (simp_all add: Cons_nth_drop_Suc[symmetric])
  with Cons p show ?case by (cases n) (auto simp: mem_simps)
qed

lemma strnlen_loop_all:
  "\<lbrakk>p + k + n \<le> length m; 0 \<notin> set (take n (drop (p + k) m))\<rbrakk> \<Longrightarrow> strnlen_loop m p k n = Some (k + n)"
  by (induction n arbitrary: k) (auto simp: mem_simps take_Suc_drop)

definition lower_case :: "u8 \<Rightarrow> u8" where
  "lower_case c = (if c < 97 then c + 32 else c)"

lemma lower_loop_spec:
  "\<lbrakk>i + n \<le> length m; i + n \<le> length d\<rbrakk> \<Longrightarrow>
     lower_loop m i n d = Some (take i d @ map lower_case (take n (drop i m)) @ drop (i + n) d)"
proof (induction n arbitrary: i d)
  case (Suc n)
  let ?d = "d[i := lower_case (m ! i)]"
  have "lower_loop m i (Suc n) d = lower_loop m (Suc i) n ?d"
    using Suc.prems by (simp add: mem_simps lower_case_def)
  also have "\<dots> = Some (take (Suc i) ?d @ map lower_case (take n (drop (Suc i) m)) @ drop (Suc i + n) ?d)"
    using Suc.prems by (intro Suc.IH) auto
  also have "take (Suc i) ?d = take i d @ [lower_case (m ! i)]"
    using Suc.prems by (simp add: take_Suc_conv_app_nth)
  finally show ?case using Suc.prems by (simp add: take_Suc_drop)
qed simp

text \<open>Sizes of pointers into a buffer that is shorter than 2 to the 32.\<close>

lemma unat_sub_of_nat:
  "\<lbrakk>k \<le> unat (n :: u32)\<rbrakk> \<Longrightarrow> unat (n - of_nat k) = unat n - k"
proof -
  assume k: "k \<le> unat n"
  have "unat (of_nat k :: u32) = k"
    using k unsigned_less[of n, where 'a = nat]
    by (simp add: unat_of_nat take_bit_nat_eq_self)
  moreover from this k have "(of_nat k :: u32) \<le> n" by (simp add: word_le_nat_alt)
  ultimately show ?thesis by (simp add: unat_sub)
qed

lemma unat_of_nat_le: "k \<le> unat (n :: u32) \<Longrightarrow> unat (of_nat k :: u32) = k"
  using unsigned_less[of n, where 'a = nat] by (simp add: unat_of_nat take_bit_nat_eq_self)

lemma wr_block_0_prefix:
  "length bs \<le> length d \<Longrightarrow> wr_block d 0 bs = Some (bs @ drop (length bs) d)"
  by (simp add: wr_block_def)

text \<open>What the code leaves in the URI: the host, a terminator, the path and a terminator.\<close>

definition uri_of :: "arm_uc_uri_t \<Rightarrow> bytes \<Rightarrow> bytes \<Rightarrow> bytes \<Rightarrow> arm_uc_uri_t" where
  "uri_of u d h pth =
     u\<lparr>uri_ptr := Some (h @ [0] @ pth @ [0] @ drop (length h + length pth + 2) d),
       uri_size := of_nat (length h + length pth + 2),
       host := Some 0, path := Some (length h + 1)\<rparr>"

lemma rd_block_prefix:
  assumes "drop i m = bs @ rest" and "i \<le> length m"
  shows "rd_block m i (length bs) = Some bs"
proof -
  have "length m - i = length bs + length rest" using arg_cong[OF assms(1), of length] by simp
  then have "i + length bs \<le> length m" using assms(2) by simp
  then show ?thesis using assms(1) by (simp add: rd_block_def)
qed

lemma split_host_path:
  assumes "length h + length pth + 2 \<le> length d"
  obtains A x B y C where "d = A @ x # B @ y # C" "length A = length h" "length B = length pth"
proof -
  have "0 + length h \<le> length d" using assms by simp
  then obtain A d1 where d: "d = A @ d1" "length A = length h"
    by (metis append_take_drop_id length_take min.absorb2 add_0)
  with assms obtain x d2 where d1: "d1 = x # d2" by (cases d1) auto
  have "length pth \<le> length d2" using assms d d1 by simp
  then obtain B d3 where d2: "d2 = B @ d3" "length B = length pth"
    by (metis append_take_drop_id length_take min.absorb2)
  with assms d d1 obtain y C where "d3 = y # C" by (cases d3) auto
  with d d1 d2 that show thesis by simp
qed

lemma copy_host_path:
  assumes "drop str m = h @ rest" and "drop slash m = pth" and "str \<le> length m" and "slash \<le> length m"
    and "length h + length pth + 2 \<le> length d"
  shows "\<exists>d1 d2 d3. memcpy d 0 m str (length h) = Some d1 \<and> wr d1 (length h) 0 = Some d2 \<and>
    memcpy d2 (Suc (length h)) m slash (length pth) = Some d3 \<and>
    wr d3 (Suc (length h + length pth)) 0 =
      Some (h @ [0] @ pth @ [0] @ drop (length h + length pth + 2) d)"
proof -
  obtain A x B y C where d: "d = A @ x # B @ y # C" "length A = length h" "length B = length pth"
    using split_host_path[OF assms(5)] .
  have 1: "memcpy d 0 m str (length h) = Some (h @ x # B @ y # C)"
    using rd_block_prefix[OF assms(1,3)] d by (simp add: memcpy_def wr_block_def)
  have 2: "wr (h @ x # B @ y # C) (length h) 0 = Some (h @ 0 # B @ y # C)"
    by (simp add: wr_def list_update_append)
  have 3: "memcpy (h @ 0 # B @ y # C) (Suc (length h)) m slash (length pth) =
      Some (h @ 0 # pth @ y # C)"
    using rd_block_prefix[of slash m pth "[]"] assms(2,4) d(3)
    by (simp add: memcpy_def wr_block_def)
  have 4: "wr (h @ 0 # pth @ y # C) (Suc (length h + length pth)) 0 =
      Some (h @ [0] @ pth @ [0] @ drop (length h + length pth + 2) d)"
    using d by (simp add: wr_def list_update_append)
  show ?thesis using 1 2 3 4 by blast
qed

lemma uri_host_path_spec:
  assumes d: "uri_size_max u = of_nat (length d)" "length d < 2 ^ 32"
    and sz: "unat n = length m" "length m < length d"
    and str: "drop str m = h @ rest" "str \<le> length m" "2 \<le> str"
    and slash: "drop slash m = pth" "slash \<le> length m" "0 \<notin> set pth" "pth \<noteq> []" "str + length h \<le> slash"
    and search: "memchr m str 47 (length m - str) = Some (Some slash)"
    and colon: "memchr m str 58 (length m - slash) = Some cl"
    and hlen: "case cl of None \<Rightarrow> slash = str + length h
               | Some c \<Rightarrow> c = str + length h \<and> arm_uc_str2uint32 m (Some (c + 1)) (n - of_nat c) = Some (v, True)"
  shows "uri_host_path m n str d u =
    Some (ERR_NONE, uri_of (case cl of None \<Rightarrow> u | Some _ \<Rightarrow> u\<lparr>port := ucast v\<rparr>) d h pth)"
proof -
  have n32: "length m < 2 ^ 32" using sz d by simp
  have lm: "length pth = length m - slash" using slash(1) by auto
  have big: "length h + length pth + 2 \<le> length d"
    using lm slash(2,5) str(3) sz(2) by simp
  obtain d1 d2 d3 where c: "memcpy d 0 m str (length h) = Some d1" "wr d1 (length h) 0 = Some d2"
      "memcpy d2 (Suc (length h)) m slash (length pth) = Some d3"
      "wr d3 (Suc (length h + length pth)) 0 =
         Some (h @ [0] @ pth @ [0] @ drop (length h + length pth + 2) d)"
    using copy_host_path[OF str(1) slash(1) str(2) slash(2) big] by blast
  have u: "unat (n - of_nat str) = length m - str" "unat (n - of_nat slash) = length pth"
    using sz str(2) slash(2) lm by (simp_all add: unat_sub_of_nat)
  have hl: "unat (of_nat (length h) :: u32) = length h"
    "unat (of_nat (length d) :: u32) = length d" "unat (of_nat (Suc (length h)) :: u32) = Suc (length h)"
    "unat (of_nat (length pth) :: u32) = length pth"
    "unat (of_nat (Suc (length h + length pth)) :: u32) = Suc (length h + length pth)"
    using big d(2) by (simp_all add: unat_of_nat take_bit_nat_eq_self del: of_nat_Suc of_nat_add)
  have "arm_uc_strnlen m slash (n - of_nat slash) = Some (of_nat (length pth))"
    using strnlen_loop_all[of slash 0 "length pth" m] slash lm u(2)
    by (simp add: arm_uc_strnlen_def)
  moreover have "(of_nat (length h) :: u32) < of_nat (length d)"
    using big hl by (simp add: word_less_nat_alt)
  moreover have "(0 :: u32) < of_nat (length pth)"
    using hl slash(4) by (simp add: word_less_nat_alt)
  moreover have "(of_nat (length pth) :: u32) < of_nat (length d) - of_nat (Suc (length h))"
    using big hl unat_sub_of_nat[of "Suc (length h)" "of_nat (length d)"]
    by (simp add: word_less_nat_alt del: of_nat_Suc)
  moreover have "(of_nat (length h) :: u32) + 1 = of_nat (Suc (length h))"
    "(of_nat (Suc (length h)) :: u32) + of_nat (length pth) = of_nat (Suc (length h + length pth))"
    "(of_nat (Suc (length h)) :: u32) + (of_nat (length pth) + 1) = of_nat (length h + length pth + 2)"
    by simp_all
  moreover have "memchr m str 58 (length pth) = Some cl" using colon lm by simp
  ultimately show ?thesis
    using search hlen c u hl d(1)
    by (cases cl) (simp_all add: uri_host_path_def uri_of_def Let_def del: of_nat_Suc of_nat_add)
qed

definition uri_parsed :: "arm_uc_uri_t \<Rightarrow> arm_uc_uri_scheme_t \<Rightarrow> u16 \<Rightarrow> bytes \<Rightarrow> bytes \<Rightarrow> bool" where
  "uri_parsed r sc po h pth \<longleftrightarrow> scheme r = sc \<and> port r = po \<and> host r = Some 0 \<and>
     path r = Some (length h + 1) \<and> unat (uri_size r) = length h + length pth + 2 \<and>
     (\<exists>rest. uri_ptr r = Some (h @ [0] @ pth @ [0] @ rest))"

text \<open>The two network schemes, their names and default ports.\<close>

definition net_scheme :: "bytes \<Rightarrow> (arm_uc_uri_scheme_t \<times> u16) option" where
  "net_scheme s = (if s = butlast http_colon then Some (URI_SCHEME_HTTP, 80)
     else if s = butlast coaps_colon then Some (URI_SCHEME_COAPS, 5683) else None)"

lemma lower_case_colon: "lower_case 58 = 90"
  by (simp add: lower_case_def)

lemma net_scheme_no_colon:
  assumes "net_scheme (map lower_case s) = Some sp"
  shows "58 \<notin> set s" and "length s \<le> 5" and "4 \<le> length s"
proof -
  have "90 \<notin> set (map lower_case s)"
    using assms by (auto simp: net_scheme_def http_colon_def coaps_colon_def split: if_splits)
  then show "58 \<notin> set s" using lower_case_colon by (metis image_eqI set_map)
  show "length s \<le> 5" "4 \<le> length s"
    using arg_cong[of "map lower_case s" _ length] assms
    by (auto simp: net_scheme_def http_colon_def coaps_colon_def split: if_splits dest!: arg_cong[of _ _ length])
qed

lemma uri_scheme_of_net:
  assumes "net_scheme ls = Some (sc, po)" and "6 \<le> length (ls @ 58 # rest)"
  shows "uri_scheme_of (ls @ 58 # rest) u = Some (u\<lparr>scheme := sc, port := po\<rparr>)"
proof (cases "ls = butlast http_colon")
  case True
  then show ?thesis using assms
    by (simp add: net_scheme_def uri_scheme_of_def http_colon_def rd_block_def)
next
  case False
  then have "ls = [99, 111, 97, 112, 115]" "sc = URI_SCHEME_COAPS" "po = 5683"
    using assms(1) by (auto simp: net_scheme_def coaps_colon_def split: if_splits)
  then show ?thesis
    by (simp add: uri_scheme_of_def http_colon_def coaps_colon_def rd_block_def)
qed

lemma str2uri_net:
  assumes m: "m = s @ [58, 47, 47] @ body" "body \<noteq> []" "unat n = length m"
    and s: "net_scheme (map lower_case s) = Some (sc, po)"
    and u: "uri_ptr u = Some d" "uri_size_max u = of_nat (length d)" "length d < 2 ^ 32"
      "length m < length d"
    and r: "\<And>dd u'. \<lbrakk>length dd = length d; uri_size_max u' = of_nat (length dd); scheme u' = sc; port u' = po\<rbrakk> \<Longrightarrow>
        \<exists>r. uri_host_path m n (length s + 3) dd u' = Some (ERR_NONE, r) \<and> Q r"
  shows "\<exists>r. arm_uc_str2uri (Some m) n (Some u) = Some (ERR_NONE, Some r) \<and> Q r"
proof -
  note sc = net_scheme_no_colon[OF s]
  have n32: "length m < 2 ^ 32" using u by simp
  have colon: "memchr m 0 58 (unat n) = Some (Some (length s))"
    using memchr_found[of 0 m s 58 "[47, 47] @ body" "unat n"] m sc(1) by simp
  have ls: "unat (of_nat (length s) :: u32) = length s" "unat (uri_size_max u) = length d"
    using sc(2) u by (simp_all add: unat_of_nat take_bit_nat_eq_self)
  have lt: "n < uri_size_max u" "(of_nat (length s) :: u32) < uri_size_max u"
    using u m ls by (simp_all add: word_less_nat_alt)
  let ?dd = "map lower_case s @ 58 # drop (Suc (length s)) d"
  have d0: "drop (length s) d = d ! length s # drop (Suc (length s)) d"
    using u(4) m(1) by (simp add: Cons_nth_drop_Suc)
  have low: "lower_loop m 0 (length s) d = Some (map lower_case s @ d ! length s # drop (Suc (length s)) d)"
    using lower_loop_spec[of 0 "length s" m d] m(1) u(4) d0 by simp
  have c: "rd m (length s) = Some 58" using m(1) by (simp add: rd_def nth_append)
  have w: "wr (map lower_case s @ d ! length s # drop (Suc (length s)) d) (length s) 58 = Some ?dd"
    by (simp add: wr_def list_update_append)
  have dd: "length ?dd = length d" using u(4) m(1) by simp
  have sch: "uri_scheme_of ?dd u = Some (u\<lparr>scheme := sc, port := po\<rparr>)"
    using uri_scheme_of_net[OF s] dd sc(3) u(4) m(1,2) by (cases body) simp_all
  have net: "sc \<noteq> URI_SCHEME_NONE" "sc \<noteq> URI_SCHEME_FILE"
    using s by (auto simp: net_scheme_def split: if_splits)
  have skip: "skip_slash m (length s + 1 + 1) (unat n) 1 = Some (length s + 3)"
    using m by (cases body) (simp_all add: rd_def nth_append numeral_eq_Suc)
  obtain r where "uri_host_path m n (length s + 3) ?dd (u\<lparr>scheme := sc, port := po, uri_ptr := Some ?dd\<rparr>)
      = Some (ERR_NONE, r)" "Q r"
    using r[OF dd, of "u\<lparr>scheme := sc, port := po, uri_ptr := Some ?dd\<rparr>"] dd u(2) by auto
  then show ?thesis
    using u(1) colon lt ls(1) low c w sch net skip
    by (simp add: arm_uc_str2uri_def Let_def)
qed

lemma uri_parsed_uri_of:
  assumes "scheme u = sc" "port u = po" "length h + length pth + 2 < 2 ^ 32"
  shows "uri_parsed (uri_of u d h pth) sc po h pth"
proof -
  have "unat (of_nat (length h + length pth + 2) :: u32) = length h + length pth + 2"
    using assms(3) by (simp add: unat_of_nat take_bit_nat_eq_self del: of_nat_add of_nat_Suc)
  then show ?thesis using assms(1,2) by (simp add: uri_parsed_def uri_of_def del: of_nat_add of_nat_Suc)
qed



text \<open>
  C38. When the colon in front of the port lies within the searched window, that is when the host
  name is shorter than the path, host, port and path are split as the URI says, the port taken
  modulo 2 to the 16.
\<close>

theorem str2uri_explicit_port:
  assumes "m = s @ [58, 47, 47] @ h @ 58 # ds @ 47 # q" and "unat n = length m"
    and "net_scheme (map lower_case s) = Some (sc, po)"
    and "47 \<notin> set h" and "58 \<notin> set h" and "0 \<notin> set q" and "length h \<le> length q"
    and "list_all is_digit ds" and "ds \<noteq> []" and "dec_value 0 ds < 2 ^ 32"
    and "uri_ptr u = Some d" and "uri_size_max u = of_nat (length d)" and "length d < 2 ^ 32"
    and "length m < length d"
  shows "\<exists>r. arm_uc_str2uri (Some m) n (Some u) = Some (ERR_NONE, Some r) \<and>
    uri_parsed r sc (of_nat (dec_value 0 ds)) h (47 # q)"
proof (rule str2uri_net[OF assms(1) _ assms(2,3,11-14)])
  fix dd :: bytes and u' :: arm_uc_uri_t
  assume a: "length dd = length d" "uri_size_max u' = of_nat (length dd)" "scheme u' = sc" "port u' = po"
  let ?str = "length s + 3"
  let ?colon = "?str + length h" and ?slash = "?str + (length h + 1 + length ds)"
  have dr: "drop ?str m = (h @ 58 # ds) @ 47 # q" "drop ?slash m = 47 # q"
      "drop (?colon + 1) m = ds @ 47 # q" "drop ?str m = h @ 58 # (ds @ 47 # q)"
    using assms(1) by (simp_all add: numeral_eq_Suc)
  have lm: "length m = ?slash + length q + 1" using assms(1) by simp
  have nd: "47 \<notin> set ds" using assms(8) by (auto simp: list_all_iff is_digit_def)
  have "memchr m ?str 47 (length m - ?str) = Some (Some ?slash)"
    using memchr_found[OF dr(1), of "length m - ?str"] nd assms(4) lm by simp
  moreover have "memchr m ?str 58 (length m - ?slash) = Some (Some ?colon)"
    using memchr_found[OF dr(4) assms(5), of "length m - ?slash"] lm assms(7) by simp
  moreover have "arm_uc_str2uint32 m (Some (?colon + 1)) (n - of_nat ?colon) =
      Some (of_nat (dec_value 0 ds), True)"
  proof (rule str2uint32_digits[OF dr(3) assms(8,9)])
    have "unat (n - of_nat ?colon) = length m - ?colon"
      using assms(2) lm by (subst unat_sub_of_nat) simp_all
    then show "length ds \<le> unat (n - of_nat ?colon)" using lm by simp
  qed (use assms(10) in \<open>auto simp: is_digit_def\<close>)
  ultimately have "uri_host_path m n ?str dd u' =
      Some (ERR_NONE, uri_of (u'\<lparr>port := ucast (of_nat (dec_value 0 ds) :: u32)\<rparr>) dd h (47 # q))"
    using uri_host_path_spec[of u' dd n m ?str h "58 # ds @ 47 # q" ?slash "47 # q" "Some ?colon"
        "of_nat (dec_value 0 ds)"] a assms(2,6,13,14) dr(2,4) lm by simp
  moreover have "ucast (of_nat (dec_value 0 ds) :: u32) = (of_nat (dec_value 0 ds) :: u16)"
    using assms(10) by (simp add: unsigned_of_nat take_bit_nat_eq_self)
  ultimately show "\<exists>r. uri_host_path m n ?str dd u' = Some (ERR_NONE, r) \<and>
      uri_parsed r sc (of_nat (dec_value 0 ds)) h (47 # q)"
    using uri_parsed_uri_of[of "u'\<lparr>port := of_nat (dec_value 0 ds)\<rparr>" sc _ h "47 # q" dd] a assms(13,14) lm
    by simp
qed simp

text \<open>\<open>http://h:81/fw\<close>.\<close>

theorem str2uri_explicit_port_witness:
  "\<exists>r. arm_uc_str2uri (Some [104, 116, 116, 112, 58, 47, 47, 104, 58, 56, 49, 47, 102, 119])
      14 (Some \<lparr>uri_size_max = 40, uri_size = 0, uri_ptr = Some (replicate 40 0),
        scheme = URI_SCHEME_NONE, port = 0, host = None, path = None\<rparr>) = Some (ERR_NONE, Some r) \<and>
    uri_parsed r URI_SCHEME_HTTP 81 [104] [47, 102, 119]"
  using str2uri_explicit_port[where s = "[104, 116, 116, 112]" and q = "[102, 119]" and ds = "[56, 49]"
        and h = "[104]" and d = "replicate 40 0" and n = 14 and sc = URI_SCHEME_HTTP and po = 80,
      OF refl]
  by (simp add: net_scheme_def http_colon_def lower_case_def is_digit_def)

text \<open>
  A URI that ends right behind its scheme is read beyond its end: the code steps over the
  character behind the colon without looking at the length.
\<close>

theorem str2uri_overrun:
  assumes "m = s @ [58]" and "unat n = length m" and "net_scheme (map lower_case s) = Some (sc, po)"
    and "uri_ptr u = Some d" and "uri_size_max u = of_nat (length d)" and "length d < 2 ^ 32"
    and "length m < length d"
  shows "arm_uc_str2uri (Some m) n (Some u) = None"
proof -
  note sc = net_scheme_no_colon[OF assms(3)]
  have ls: "unat (of_nat (length s) :: u32) = length s" "unat (uri_size_max u) = length d"
    using sc(2) assms by (simp_all add: unat_of_nat take_bit_nat_eq_self)
  have lt: "n < uri_size_max u" "(of_nat (length s) :: u32) < uri_size_max u"
    using assms ls by (simp_all add: word_less_nat_alt)
  let ?dd = "map lower_case s @ 58 # drop (Suc (length s)) d"
  have d0: "drop (length s) d = d ! length s # drop (Suc (length s)) d"
    using assms(1,7) by (simp add: Cons_nth_drop_Suc)
  have low: "lower_loop m 0 (length s) d = Some (map lower_case s @ d ! length s # drop (Suc (length s)) d)"
    using lower_loop_spec[of 0 "length s" m d] assms(1,7) d0 by simp
  have colon: "memchr m 0 58 (unat n) = Some (Some (length s))"
    using memchr_found[of 0 m s 58 "[]" "unat n"] assms(1,2) sc(1) by simp
  have c: "rd m (length s) = Some 58" using assms(1) by (simp add: rd_def nth_append)
  have w: "wr (map lower_case s @ d ! length s # drop (Suc (length s)) d) (length s) 58 = Some ?dd"
    by (simp add: wr_def list_update_append)
  have sch: "uri_scheme_of ?dd u = Some (u\<lparr>scheme := sc, port := po\<rparr>)"
    using uri_scheme_of_net[OF assms(3)] sc(3) assms(1,7) by simp
  have net: "sc \<noteq> URI_SCHEME_NONE" "sc \<noteq> URI_SCHEME_FILE"
    using assms(3) by (auto simp: net_scheme_def split: if_splits)
  have skip: "skip_slash m (length s + 1 + 1) (unat n) 1 = None"
    using assms(1) by (simp add: rd_def)
  then show ?thesis
    using assms(4) colon lt ls(1) low c w sch net by (simp add: arm_uc_str2uri_def Let_def)
qed

theorem str2uri_overrun_witness:
  "arm_uc_str2uri (Some [104, 116, 116, 112, 58]) 5 (Some \<lparr>uri_size_max = 40, uri_size = 0,
     uri_ptr = Some (replicate 40 0), scheme = URI_SCHEME_NONE, port = 0, host = None, path = None\<rparr>) = None"
  by (rule str2uri_overrun[where s = "[104, 116, 116, 112]" and sc = URI_SCHEME_HTTP and po = 80
        and d = "replicate 40 0"])
     (simp_all add: net_scheme_def http_colon_def lower_case_def)

subsection \<open>Base64\<close>

definition charset_codes :: "nat list" where
  "charset_codes = [48 ..< 58] @ [64 ..< 91] @ [95] @ [97 ..< 123]"

lemma charset_codes_props:
  "length charset_codes = 64" "sorted_wrt (<) charset_codes" "\<forall>c \<in> set charset_codes. 48 \<le> c \<and> c < 123"
  by (auto simp: charset_codes_def sorted_wrt_append simp del: upt_Suc upt_conv_Cons)

lemma charset_nth: "k < 64 \<Longrightarrow> MBED_CLOUD_UPDATE_BASE64_CHARSET ! k = word_of_nat (charset_codes ! k)"
proof -
  assume k: "k < 64"
  have "MBED_CLOUD_UPDATE_BASE64_CHARSET = map word_of_nat charset_codes @ [45]"
    by (simp only: MBED_CLOUD_UPDATE_BASE64_CHARSET_def charset_codes_def map_append append_assoc) simp
  then have "MBED_CLOUD_UPDATE_BASE64_CHARSET ! k = (map word_of_nat charset_codes @ [45]) ! k" by (rule arg_cong)
  also have "\<dots> = map word_of_nat charset_codes ! k" using k charset_codes_props(1) by (intro nth_append_left) simp
  also have "\<dots> = word_of_nat (charset_codes ! k)" using k charset_codes_props(1) by (intro nth_map) simp
  finally show ?thesis .
qed

lemma charset_64: "MBED_CLOUD_UPDATE_BASE64_CHARSET ! 64 = 45"
proof -
  have "MBED_CLOUD_UPDATE_BASE64_CHARSET = map word_of_nat charset_codes @ [45]"
    by (simp only: MBED_CLOUD_UPDATE_BASE64_CHARSET_def charset_codes_def map_append append_assoc) simp
  then have "MBED_CLOUD_UPDATE_BASE64_CHARSET ! 64 = (map word_of_nat charset_codes @ [45]) ! length (map word_of_nat charset_codes :: bytes)"
    using charset_codes_props(1) by simp
  then show ?thesis by (simp only: nth_append_length)
qed

lemma charset_unat: "k < 64 \<Longrightarrow> unat (MBED_CLOUD_UPDATE_BASE64_CHARSET ! k) = charset_codes ! k"
proof -
  assume k: "k < 64"
  have "charset_codes ! k \<in> set charset_codes" using k charset_codes_props(1) by simp
  then have "charset_codes ! k < 256" using charset_codes_props(3) by force
  then show ?thesis unfolding charset_nth[OF k] by (simp add: unat_of_nat take_bit_nat_eq_self)
qed

lemma charset_order:
  assumes "k < l" and "l < 64"
  shows "MBED_CLOUD_UPDATE_BASE64_CHARSET ! k < MBED_CLOUD_UPDATE_BASE64_CHARSET ! l"
  using assms charset_codes_props(1) sorted_wrt_nth_less[OF charset_codes_props(2), of k l]
  by (simp add: word_less_nat_alt charset_unat)

lemma charset_not_pad:
  assumes "k < 64"
  shows "MBED_CLOUD_UPDATE_BASE64_CHARSET ! k \<noteq> MBED_CLOUD_UPDATE_BASE64_CHARSET ! 64"
proof
  assume "MBED_CLOUD_UPDATE_BASE64_CHARSET ! k = MBED_CLOUD_UPDATE_BASE64_CHARSET ! 64"
  then have "charset_codes ! k = 45" using charset_unat[OF assms] by (simp add: charset_64)
  moreover have "charset_codes ! k \<in> set charset_codes" using assms charset_codes_props(1) by simp
  ultimately show False using charset_codes_props(3) by force
qed

lemma base64_search_found:
  "\<lbrakk>idx < k; k < idx + 2 ^ i; idx + 2 ^ i \<le> 64\<rbrakk> \<Longrightarrow>
     base64_search (MBED_CLOUD_UPDATE_BASE64_CHARSET ! k) idx i = of_nat k"
proof (induction i arbitrary: idx)
  case (Suc i)
  let ?t = "idx + 2 ^ i"
  consider "k = ?t" | "k < ?t" | "?t < k" by linarith
  then show ?case
  proof cases
    case 1 then show ?thesis by (simp add: Let_def)
  next
    case 2
    with Suc charset_order[of k ?t] show ?thesis by (auto simp: Let_def)
  next
    case 3
    with Suc charset_order[of ?t k] show ?thesis by (auto simp: Let_def)
  qed
qed simp

text \<open>Decoding a character of the set gives its index.\<close>

lemma base64_char_index:
  assumes "k < 64"
  shows "ARM_UC_Base64DecodeChar (MBED_CLOUD_UPDATE_BASE64_CHARSET ! k) = of_nat k"
proof (cases "k = 0")
  case False
  with charset_order[of 0 k] charset_not_pad[OF assms] assms have
    "MBED_CLOUD_UPDATE_BASE64_CHARSET ! k \<noteq> MBED_CLOUD_UPDATE_BASE64_CHARSET ! 64"
    "MBED_CLOUD_UPDATE_BASE64_CHARSET ! k \<noteq> MBED_CLOUD_UPDATE_BASE64_CHARSET ! 0" by auto
  with False base64_search_found[of 0 k 6] assms show ?thesis
    by (simp add: ARM_UC_Base64DecodeChar_def)
qed (simp add: ARM_UC_Base64DecodeChar_def)

text \<open>
  When the size leaves remainder 1 modulo 3, the last group reads the byte behind the data: the
  test \<open>i < pad1\<close> holds for it.
\<close>

lemma base64_enc_overrun:
  assumes "length (ptr bin) = unat (bsize bin)" and "i < unat (bsize bin)"
    and "unat (bsize bin) = i + 1" and "i mod 3 = 0" and "int buf \<le> lastPos - 4"
  shows "base64_enc_loop out lastPos bin buf i = None"
proof -
  have "(i + 1) mod 3 = 1" using assms(4) by presburger
  then have "unat (bsize bin) - unat (bsize bin) mod 3 = i" using assms(3) by simp
  then show ?thesis
    using assms by (subst base64_enc_loop.simps) (simp add: Let_def rd_def)
qed

end
