(* ===== verification/Atomic_Queue.thy ===== *)
theory Atomic_Queue
  imports UC_Prelude
begin

text \<open>
  \<open>modules/atomic-queue/source/atomic-queue.c\<close> and \<open>atomic.c\<close>: the linked queue the scheduler
  posts its callbacks to. The queue object holds only the tail; each element points to the one
  that was pushed before it, and the element popped is the one whose \<open>next\<close> is \<open>NULL\<close>.

  The memory of elements maps addresses to elements, with the two fields of the scheduler's
  custom element. An operation runs to completion here, so a compare-and-swap succeeds when its
  expected value was read by the same operation; the loops around it are kept and proved to end.
  Traversals of the list may not end on an arbitrary memory; they are partial functions.

  The locale \<open>fifo\<close> states what the scheduler needs of the queue, over a representation relation;
  it is interpreted on the linked list at the end.
\<close>

subsection \<open>Memory\<close>

record ('a, 'f) element =
  "next" :: "'a option"
  lock :: u32
  callback :: "'f option"
  parameter :: u32

type_synonym ('a, 'f) elements = "'a \<Rightarrow> ('a, 'f) element"

datatype aq_status =
  ATOMIC_QUEUE_SUCCESS | ATOMIC_QUEUE_NULL_QUEUE | ATOMIC_QUEUE_NULL_ELEMENT
  | ATOMIC_QUEUE_DUPLICATE_ELEMENT | ATOMIC_QUEUE_INVALID_CONTEXT

abbreviation (input) ATOMIC_QUEUE_NO_CONTEXT :: u32 where "ATOMIC_QUEUE_NO_CONTEXT \<equiv> - 1"

definition zero_element :: "('a, 'f) element" where
  "zero_element = \<lparr>next = None, lock = 0, callback = None, parameter = 0\<rparr>"

subsection \<open>Atomic accesses\<close>

definition aq_atomic_cas_uintptr :: "'p \<Rightarrow> 'p \<Rightarrow> 'p \<Rightarrow> bool \<times> 'p" where
  "aq_atomic_cas_uintptr cur oldval newval = (if cur = oldval then (True, newval) else (False, cur))"

datatype cas_deref = AQ_ATOMIC_CAS_DEREF_SUCCESS | AQ_ATOMIC_CAS_DEREF_NULLPTR | AQ_ATOMIC_CAS_DEREF_VALUE

text \<open>
  The pointer \<open>px\<close> of the pop is the queue's tail (\<open>None\<close>) or the \<open>next\<close> field of an element. The
  result is the status, the pointer that was read, and the memory and tail after the exchange.
\<close>

definition deref :: "('a, 'f) elements \<Rightarrow> 'a option \<Rightarrow> 'a option \<Rightarrow> 'a option" where
  "deref h tail px = (case px of None \<Rightarrow> tail | Some c \<Rightarrow> next (h c))"

definition aq_atomic_cas_deref_uintptr ::
    "('a, 'f) elements \<Rightarrow> 'a option \<Rightarrow> 'a option \<Rightarrow> 'a option \<Rightarrow> 'a option \<Rightarrow>
     cas_deref \<times> 'a option \<times> ('a, 'f) elements \<times> 'a option"
where
  "aq_atomic_cas_deref_uintptr h tail px expected newptr =
     (case deref h tail px of
        None \<Rightarrow> (AQ_ATOMIC_CAS_DEREF_NULLPTR, None, h, tail)
      | Some c \<Rightarrow>
          (if next (h c) \<noteq> expected then (AQ_ATOMIC_CAS_DEREF_VALUE, Some c, h, tail)
           else (AQ_ATOMIC_CAS_DEREF_SUCCESS, Some c,
                 (case px of None \<Rightarrow> h | Some p \<Rightarrow> h(p := (h p)\<lparr>next := newptr\<rparr>)),
                 (case px of None \<Rightarrow> newptr | Some _ \<Rightarrow> tail))))"

subsection \<open>Operations\<close>

function aq_element_take ::
    "('a, 'f) elements \<Rightarrow> 'a option \<Rightarrow> u32 \<Rightarrow> aq_status \<times> ('a, 'f) elements"
where
  "aq_element_take h None ctx = (ATOMIC_QUEUE_NULL_ELEMENT, h)"
| "aq_element_take h (Some e) ctx =
     (if ctx = 0 then (ATOMIC_QUEUE_INVALID_CONTEXT, h)
      else let l = lock (h e) in
        if l \<noteq> 0 then (ATOMIC_QUEUE_DUPLICATE_ELEMENT, h)
        else (case aq_atomic_cas_uintptr (lock (h e)) l ctx of
                (True, l') \<Rightarrow> (ATOMIC_QUEUE_SUCCESS, h(e := (h e)\<lparr>lock := l'\<rparr>))
              | (False, _) \<Rightarrow> aq_element_take h (Some e) ctx))"
  by pat_completeness auto
termination
  by (relation "{}") (simp_all add: aq_atomic_cas_uintptr_def)

definition aq_element_release ::
    "('a, 'f) elements \<Rightarrow> 'a option \<Rightarrow> aq_status \<times> u32 \<times> ('a, 'f) elements"
where
  "aq_element_release h e_ref =
     (case e_ref of
        None \<Rightarrow> (ATOMIC_QUEUE_NULL_ELEMENT, 0, h)
      | Some e \<Rightarrow> (ATOMIC_QUEUE_SUCCESS, lock (h e), h(e := (h e)\<lparr>lock := 0\<rparr>)))"

function aq_push_tail ::
    "('a, 'f) elements \<Rightarrow> 'a option \<Rightarrow> 'a option \<Rightarrow> aq_status \<times> ('a, 'f) elements \<times> 'a option"
where
  "aq_push_tail h tail None = (ATOMIC_QUEUE_NULL_ELEMENT, h, tail)"
| "aq_push_tail h tail (Some e) =
     (let h' = h(e := (h e)\<lparr>next := tail\<rparr>) in
      case aq_atomic_cas_uintptr tail (next (h' e)) (Some e) of
        (True, tail') \<Rightarrow> (ATOMIC_QUEUE_SUCCESS, h', tail')
      | (False, _) \<Rightarrow> aq_push_tail h' tail (Some e))"
  by pat_completeness auto
termination
  by (relation "{}") (simp_all add: aq_atomic_cas_uintptr_def)

text \<open>
  The pop walks from the tail to the element whose \<open>next\<close> is \<open>NULL\<close> and unlinks it; it returns
  \<open>NULL\<close> when the queue is empty or when it comes back to the tail. A null pointer met on the way
  starts the walk again.
\<close>

partial_function (option) aq_pop_walk ::
    "('a, 'f) elements \<Rightarrow> 'a option \<Rightarrow> 'a option \<Rightarrow> ('a option \<times> ('a, 'f) elements \<times> 'a option) option"
where
  "aq_pop_walk h tail px =
     (if px = None \<and> tail = None then Some (None, h, tail)
      else (case aq_atomic_cas_deref_uintptr h tail px None None of
              (AQ_ATOMIC_CAS_DEREF_SUCCESS, current, h', tail') \<Rightarrow> Some (current, h', tail')
            | (AQ_ATOMIC_CAS_DEREF_NULLPTR, current, h', tail') \<Rightarrow> aq_pop_walk h' tail' None
            | (AQ_ATOMIC_CAS_DEREF_VALUE, current, h', tail') \<Rightarrow>
                (if next (h (the current)) = tail then Some (None, h, tail)
                 else aq_pop_walk h' tail' current)))"

definition aq_pop_head ::
    "('a, 'f) elements \<Rightarrow> 'a option \<Rightarrow> ('a option \<times> ('a, 'f) elements \<times> 'a option) option"
where
  "aq_pop_head h tail = aq_pop_walk h tail None"

definition aq_empty :: "'a option \<Rightarrow> bool" where
  "aq_empty tail = (tail = None)"

partial_function (option) aq_count_loop :: "('a, 'f) elements \<Rightarrow> 'a \<Rightarrow> 'a \<Rightarrow> u32 \<Rightarrow> u32 option" where
  "aq_count_loop h tail e x =
     (case next (h e) of
        None \<Rightarrow> Some x
      | Some e' \<Rightarrow> (if e' = tail then Some (- 1) else aq_count_loop h tail e' (x + 1)))"

definition aq_count :: "('a, 'f) elements \<Rightarrow> 'a option \<Rightarrow> u32 option" where
  "aq_count h tail =
     (if aq_empty tail then Some 0 else aq_count_loop h (the tail) (the tail) 1)"

definition aq_initialize_element :: "('a, 'f) elements \<Rightarrow> 'a option \<Rightarrow> ('a, 'f) elements" where
  "aq_initialize_element h e_ref =
     (case e_ref of None \<Rightarrow> h | Some e \<Rightarrow> h(e := (h e)\<lparr>lock := 0, next := None\<rparr>))"

subsection \<open>The list a tail pointer stands for\<close>

text \<open>From a pointer along \<open>next\<close> to \<open>NULL\<close>; for the queue's tail, the newest element first.\<close>

fun chain :: "('a, 'f) elements \<Rightarrow> 'a option \<Rightarrow> 'a list \<Rightarrow> bool" where
  "chain h p [] = (p = None)"
| "chain h p (x # xs) = (p = Some x \<and> chain h (next (h x)) xs)"

lemma chain_unique: "chain h p xs \<Longrightarrow> chain h p ys \<Longrightarrow> xs = ys"
proof (induction xs arbitrary: p ys)
  case Nil
  then show ?case by (cases ys) auto
next
  case (Cons x xs)
  then show ?case by (cases ys) auto
qed

lemma next_upd_id: "\<exists>n. (r :: ('a, 'f) element) = r\<lparr>next := n\<rparr>"
  by (rule exI[of _ "next r"]) simp

lemma chain_None [simp]: "chain h None xs = (xs = [])"
  by (cases xs) auto

lemma chain_frame:
  assumes "\<And>x. x \<in> set xs \<Longrightarrow> next (h' x) = next (h x)"
  shows "chain h' p xs = chain h p xs"
  using assms by (induction xs arbitrary: p) auto

lemma chain_upd [simp]:
  "x \<notin> set xs \<Longrightarrow> chain (h(x := e)) p xs = chain h p xs"
  by (rule chain_frame) auto

lemma chain_lock [simp]: "chain (h(x := (h x)\<lparr>lock := l\<rparr>)) p xs = chain h p xs"
  by (rule chain_frame) auto

lemma chain_append:
  "chain h p (xs @ y # ys) \<longleftrightarrow> chain h (Some y) (y # ys) \<and>
     (if xs = [] then p = Some y
      else chain (h(last xs := (h (last xs))\<lparr>next := None\<rparr>)) p xs \<and> next (h (last xs)) = Some y)"
  if "distinct xs" "y \<notin> set xs"
  using that
proof (induction xs arbitrary: p)
  case (Cons x xs)
  show ?case
  proof (cases "xs = []")
    case False
    with Cons show ?thesis by (auto simp: fun_upd_other)
  qed auto
qed auto

lemma cas_same [simp]: "aq_atomic_cas_uintptr x x y = (True, y)"
  by (simp add: aq_atomic_cas_uintptr_def)

lemma take_cases:
  "aq_element_take h (Some e) ctx =
     (if ctx = 0 then (ATOMIC_QUEUE_INVALID_CONTEXT, h)
      else if lock (h e) \<noteq> 0 then (ATOMIC_QUEUE_DUPLICATE_ELEMENT, h)
      else (ATOMIC_QUEUE_SUCCESS, h(e := (h e)\<lparr>lock := ctx\<rparr>)))"
  by (simp add: Let_def)

declare aq_element_take.simps(2) [simp del]

lemma push_eq:
  "aq_push_tail h tail (Some e) = (ATOMIC_QUEUE_SUCCESS, h(e := (h e)\<lparr>next := tail\<rparr>), Some e)"
  by (simp add: Let_def)

declare aq_push_tail.simps(2) [simp del]

lemma push_chain:
  assumes "chain h tail xs" and "e \<notin> set xs" and "aq_push_tail h tail (Some e) = (st, h', tail')"
  shows "st = ATOMIC_QUEUE_SUCCESS" and "chain h' tail' (e # xs)"
  using assms by (auto simp: push_eq)

subsection \<open>The pop\<close>

lemma walk_step:
  assumes "deref h tail px = Some c"
  shows "aq_pop_walk h tail px =
    (if next (h c) = None
     then Some (Some c, (case px of None \<Rightarrow> h | Some p \<Rightarrow> h(p := (h p)\<lparr>next := None\<rparr>)),
                (case px of None \<Rightarrow> None | Some _ \<Rightarrow> tail))
     else if next (h c) = tail then Some (None, h, tail) else aq_pop_walk h tail (Some c))"
  using assms
  by (subst aq_pop_walk.simps)
     (auto simp: aq_atomic_cas_deref_uintptr_def deref_def split: option.splits)

lemma walk_from:
  assumes "chain h (Some p) (p # xs @ [y])" and "distinct (p # xs @ [y])"
    and "tail \<notin> Some ` set (xs @ [y])" and "tail \<noteq> None"
  shows "aq_pop_walk h tail (Some p) =
    Some (Some y, h(last (p # xs) := (h (last (p # xs)))\<lparr>next := None\<rparr>), tail)"
  using assms
proof (induction xs arbitrary: p)
  case Nil
  then have "deref h tail (Some p) = Some y" "next (h y) = None" by (auto simp: deref_def)
  then show ?case by (simp add: walk_step fun_upd_def)
next
  case (Cons x xs)
  then have d: "deref h tail (Some p) = Some x" by (auto simp: deref_def)
  from Cons.prems have n: "next (h x) \<noteq> None" "next (h x) \<noteq> tail"
    by (cases xs; auto)+
  have "aq_pop_walk h tail (Some x) =
      Some (Some y, h(last (x # xs) := (h (last (x # xs)))\<lparr>next := None\<rparr>), tail)"
    using Cons.prems by (intro Cons.IH) auto
  moreover have "aq_pop_walk h tail (Some p) = aq_pop_walk h tail (Some x)"
    unfolding walk_step[OF d] using n by auto
  ultimately show ?case by (simp add: fun_upd_def)
qed

lemma pop_empty: "aq_pop_head h None = Some (None, h, None)"
  by (simp add: aq_pop_head_def aq_pop_walk.simps)

text \<open>The pop takes the last element of the chain and leaves the rest linked.\<close>

lemma pop_chain:
  assumes "chain h tail (xs @ [y])" and "distinct (xs @ [y])"
  shows "\<exists>h' tail'. aq_pop_head h tail = Some (Some y, h', tail') \<and> chain h' tail' xs \<and>
    (\<forall>z. z \<notin> set xs \<longrightarrow> h' z = h z) \<and> (\<forall>z. \<exists>n. h' z = (h z)\<lparr>next := n\<rparr>)"
proof (cases xs)
  case Nil
  with assms have "deref h tail None = Some y" "next (h y) = None" by (auto simp: deref_def)
  with Nil show ?thesis by (auto simp: aq_pop_head_def walk_step next_upd_id)
next
  case (Cons p ps)
  with assms have t: "tail = Some p" and c: "chain h (Some p) (p # ps @ [y])"
    and d: "distinct (p # ps @ [y])" by auto
  have dr: "deref h tail None = Some p" using t by (simp add: deref_def)
  have n: "next (h p) \<noteq> None" "next (h p) \<noteq> tail"
    using c d t by (cases ps; auto)+
  let ?q = "last (p # ps)"
  let ?h = "h(?q := (h ?q)\<lparr>next := None\<rparr>)"
  have "aq_pop_walk h tail (Some p) = Some (Some y, ?h, tail)"
    using d t by (intro walk_from[OF c d]) auto
  moreover have "aq_pop_walk h tail None = aq_pop_walk h tail (Some p)"
    unfolding walk_step[OF dr] using n by auto
  ultimately have pop: "aq_pop_head h tail = Some (Some y, ?h, tail)"
    by (simp only: aq_pop_head_def)
  have "chain ?h tail (p # ps)"
    using chain_append[of "p # ps" y h tail "[]"] assms Cons d by auto
  moreover have "?q \<in> set xs" using Cons by simp
  moreover have "\<exists>n. ?h z = (h z)\<lparr>next := n\<rparr>" for z
    by (cases "z = ?q") (auto simp: next_upd_id)
  ultimately show ?thesis using pop Cons by (intro exI[of _ ?h] exI[of _ tail]) auto
qed

lemma count_loop:
  assumes "chain h (Some e) (e # xs)" and "tail \<notin> set xs"
  shows "aq_count_loop h tail e x = Some (x + of_nat (length xs))"
  using assms
proof (induction xs arbitrary: e x)
  case Nil then show ?case by (simp add: aq_count_loop.simps)
next
  case (Cons y ys)
  then show ?case by (subst aq_count_loop.simps) (auto simp: add.assoc)
qed

text \<open>
  On a well-linked queue, the count is the number of queued elements (modulo the width of the
  counter).
\<close>

theorem aq_count_length:
  assumes "chain h tail xs" and "distinct xs"
  shows "aq_count h tail = Some (of_nat (length xs))"
  using assms count_loop[of h "hd xs" "tl xs" "hd xs" 1]
  by (cases xs) (auto simp: aq_count_def aq_empty_def)

theorem aq_count_length_witness:
  "aq_count (\<lambda>n :: nat. (zero_element :: (nat, nat) element)\<lparr>next := (if n = 1 then Some 2 else None)\<rparr>)
     (Some 1) = Some 2"
  using aq_count_length[of "\<lambda>n :: nat. zero_element\<lparr>next := (if n = 1 then Some 2 else None)\<rparr>" "Some 1" "[1, 2]"]
  by simp

subsection \<open>The interface the scheduler relies on\<close>

text \<open>
  A queue over a state: \<open>rep s xs\<close> says that the state holds the elements \<open>xs\<close>, the oldest first.
  An element may be put in when it is not held.
\<close>

locale fifo =
  fixes rep :: "'s \<Rightarrow> 'a list \<Rightarrow> bool"
    and enq :: "'a \<Rightarrow> 's \<Rightarrow> 's"
    and deq :: "'s \<Rightarrow> ('a option \<times> 's) option"
  assumes rep_unique: "rep s xs \<Longrightarrow> rep s ys \<Longrightarrow> xs = ys"
    and rep_distinct: "rep s xs \<Longrightarrow> distinct xs"
    and enq_rep: "rep s xs \<Longrightarrow> a \<notin> set xs \<Longrightarrow> rep (enq a s) (xs @ [a])"
    and deq_empty: "rep s [] \<Longrightarrow> \<exists>s'. deq s = Some (None, s') \<and> rep s' []"
    and deq_rep: "rep s (a # xs) \<Longrightarrow> \<exists>s'. deq s = Some (Some a, s') \<and> rep s' xs"
begin

text \<open>Taking \<open>n\<close> elements.\<close>

fun deq_n :: "nat \<Rightarrow> 's \<Rightarrow> ('a list \<times> 's) option" where
  "deq_n 0 s = Some ([], s)"
| "deq_n (Suc n) s = do {
     (a, s) \<leftarrow> deq s;
     case a of None \<Rightarrow> Some ([], s) | Some a \<Rightarrow> do { (as, s) \<leftarrow> deq_n n s; Some (a # as, s) }
   }"

lemma enq_all: "rep s xs \<Longrightarrow> distinct (xs @ as) \<Longrightarrow> rep (fold enq as s) (xs @ as)"
proof (induction as arbitrary: s xs)
  case (Cons a as)
  then have "rep (enq a s) (xs @ [a])" by (intro enq_rep) auto
  with Cons.IH[of "enq a s" "xs @ [a]"] Cons.prems show ?case by simp
qed simp

lemma deq_all: "rep s xs \<Longrightarrow> \<exists>s'. deq_n (length xs) s = Some (xs, s') \<and> rep s' []"
proof (induction xs arbitrary: s)
  case (Cons a xs)
  from deq_rep[OF Cons.prems] obtain s1 where "deq s = Some (Some a, s1)" "rep s1 xs" by blast
  with Cons.IH[of s1] show ?case by auto
qed auto

lemma fifo_order:
  assumes "rep s []" and "distinct as"
  shows "\<exists>s'. deq_n (length as) (fold enq as s) = Some (as, s') \<and> rep s' []"
  using deq_all enq_all[OF assms(1)] assms(2) by simp

lemma interleaved:
  assumes "rep s (a # xs)" and "b \<notin> set (a # xs)"
  shows "\<exists>s1 s2. deq (enq b s) = Some (Some a, s1) \<and> deq s = Some (Some a, s2) \<and>
    rep s1 (xs @ [b]) \<and> rep (enq b s2) (xs @ [b])"
proof -
  from enq_rep[OF assms] obtain s1 where "deq (enq b s) = Some (Some a, s1)" "rep s1 (xs @ [b])"
    using deq_rep[of "enq b s" a "xs @ [b]"] by auto
  moreover from deq_rep[OF assms(1)] obtain s2 where "deq s = Some (Some a, s2)" "rep s2 xs" by blast
  moreover have "rep (enq b s2) (xs @ [b])" using calculation(4) assms(2) by (intro enq_rep) auto
  ultimately show ?thesis by blast
qed

end

text \<open>The linked list is such a queue.\<close>

type_synonym ('a, 'f) aq = "('a, 'f) elements \<times> 'a option"

definition aq_rep :: "('a, 'f) aq \<Rightarrow> 'a list \<Rightarrow> bool" where
  "aq_rep q xs = (chain (fst q) (snd q) (rev xs) \<and> distinct xs)"

definition aq_enq :: "'a \<Rightarrow> ('a, 'f) aq \<Rightarrow> ('a, 'f) aq" where
  "aq_enq e q = snd (aq_push_tail (fst q) (snd q) (Some e))"

definition aq_deq :: "('a, 'f) aq \<Rightarrow> ('a option \<times> ('a, 'f) aq) option" where
  "aq_deq q = aq_pop_head (fst q) (snd q)"

interpretation aq: fifo aq_rep aq_enq aq_deq
proof
  fix s :: "('a, 'f) aq" and xs ys
  assume "aq_rep s xs" "aq_rep s ys"
  then show "xs = ys" using chain_unique by (auto simp: aq_rep_def)
next
  fix s :: "('a, 'f) aq" and xs
  assume "aq_rep s xs" then show "distinct xs" by (simp add: aq_rep_def)
next
  fix s :: "('a, 'f) aq" and xs a
  assume "aq_rep s xs" "a \<notin> set xs"
  then show "aq_rep (aq_enq a s) (xs @ [a])" by (simp add: aq_rep_def aq_enq_def push_eq)
next
  fix s :: "('a, 'f) aq"
  assume "aq_rep s []"
  then show "\<exists>s'. aq_deq s = Some (None, s') \<and> aq_rep s' []"
    by (cases s) (auto simp: aq_rep_def aq_deq_def pop_empty)
next
  fix s :: "('a, 'f) aq" and a xs
  assume "aq_rep s (a # xs)"
  then show "\<exists>s'. aq_deq s = Some (Some a, s') \<and> aq_rep s' xs"
    using pop_chain[of "fst s" "snd s" "rev xs" a] by (auto simp: aq_rep_def aq_deq_def)
qed

text \<open>
  C35. Elements pushed onto an empty queue are popped in the order they were pushed, each exactly
  once, after which the queue is empty: the pop's walk from the newest element always ends at the
  oldest one and unlinks nothing else.
\<close>

theorem atomic_queue_fifo:
  assumes "distinct es"
  shows "\<exists>q. aq.deq_n (length es) (fold aq_enq es (h, None)) = Some (es, q) \<and> snd q = None"
  using aq.fifo_order[of "(h, None)" es] assms by (auto simp: aq_rep_def)

theorem atomic_queue_fifo_witness:
  "\<exists>q. aq.deq_n (length [4, 2, 9 :: nat])
       (fold aq_enq [4, 2, 9] ((\<lambda>_ :: nat. (zero_element :: (nat, nat) element)), None)) =
     Some ([4, 2, 9], q) \<and> snd q = None"
  by (rule atomic_queue_fifo) simp

end
