(* ===== verification/UC_Scheduler.thy ===== *)
theory UC_Scheduler
  imports UC_Error Atomic_Queue
begin

text \<open>
  \<open>modules/common/source/arm_uc_scheduler.c\<close>: callbacks are posted to an atomic queue, in the
  caller's static storage or, when that is absent or locked, in an element of a fixed pool, and
  are executed one at a time from the queue. A dedicated element reports an exhausted pool and
  another one carries errors of plugins, which take precedence over the queue.

  The scheduler's variables are the first fields of a record that the rest of the update client
  extends, so an operation here leaves every other component alone by its type. The type of the
  static storages and of the callbacks is a parameter. The notification handler is a call into
  the application that asks it to call \<open>ARM_UC_ProcessQueue\<close> later; the model counts these calls.
\<close>

subsection \<open>State\<close>

datatype 's addr = Pool nat | Static 's | PoolExhaustedCb | FailedTakeCb | PluginErrorCb

abbreviation (input) ARM_UC_SCHEDULER_STORAGE_POOL_SIZE :: nat where
  "ARM_UC_SCHEDULER_STORAGE_POOL_SIZE \<equiv> 32"
abbreviation (input) POOL_WATERMARK :: u32 where "POOL_WATERMARK \<equiv> 0xABABABAB"

record ('s, 'f) sched =
  elems :: "('s addr, 'f) elements"
  arm_uc_queue :: "'s addr option"
  callback_pool_root :: "'s addr option"
  callbacks_pending :: u32
  plugin_error_pending :: u32
  notification_set :: bool
  notifications :: nat
  scheduler_error_cb :: "'f option"

definition set_elem ::
    "'s addr \<Rightarrow> ('s addr, 'f) element \<Rightarrow> ('s, 'f, 'z) sched_scheme \<Rightarrow> ('s, 'f, 'z) sched_scheme" where
  "set_elem a e s = s\<lparr>elems := (elems s)(a := e)\<rparr>"

subsection \<open>Initialisation and the pool\<close>

text \<open>The loop links element \<open>i\<close> to element \<open>i + 1\<close> and watermarks it.\<close>

fun pool_init_loop :: "nat \<Rightarrow> nat \<Rightarrow> ('s, 'f, 'z) sched_scheme \<Rightarrow> ('s, 'f, 'z) sched_scheme" where
  "pool_init_loop i 0 s = s"
| "pool_init_loop i (Suc n) s =
     pool_init_loop (Suc i) n
       (set_elem (Pool i) ((elems s (Pool i))\<lparr>next := Some (Pool (i + 1)), lock := POOL_WATERMARK\<rparr>) s)"

definition ARM_UC_SchedulerInit :: "('s, 'f, 'z) sched_scheme \<Rightarrow> ('s, 'f, 'z) sched_scheme" where
  "ARM_UC_SchedulerInit s =
     (let s = s\<lparr>callback_pool_root := Some (Pool 0)\<rparr>;
          s = pool_init_loop 0 (ARM_UC_SCHEDULER_STORAGE_POOL_SIZE - 1) s;
          l = Pool (ARM_UC_SCHEDULER_STORAGE_POOL_SIZE - 1);
          s = set_elem l ((elems s l)\<lparr>next := None, lock := POOL_WATERMARK\<rparr>) s;
          s = set_elem PoolExhaustedCb zero_element s;
          s = set_elem FailedTakeCb zero_element s;
          s = set_elem PluginErrorCb zero_element s
      in s\<lparr>callbacks_pending := 0, plugin_error_pending := 0\<rparr>)"

function callback_pool_alloc ::
    "('s, 'f, 'z) sched_scheme \<Rightarrow> 's addr option \<times> ('s, 'f, 'z) sched_scheme"
where
  "callback_pool_alloc s =
     (case callback_pool_root s of
        None \<Rightarrow> (None, s)
      | Some prev_free \<Rightarrow>
          (case aq_atomic_cas_uintptr (callback_pool_root s) (Some prev_free) (next (elems s prev_free)) of
             (True, root) \<Rightarrow> (Some prev_free, s\<lparr>callback_pool_root := root\<rparr>)
           | (False, _) \<Rightarrow> callback_pool_alloc s))"
  by pat_completeness auto
termination
  by (relation "{}") (simp_all add: aq_atomic_cas_uintptr_def)

definition callback_pool_owns :: "'s addr \<Rightarrow> bool" where
  "callback_pool_owns e =
     (case e of Pool i \<Rightarrow> i < ARM_UC_SCHEDULER_STORAGE_POOL_SIZE | _ \<Rightarrow> False)"

function callback_pool_insert ::
    "'s addr \<Rightarrow> ('s, 'f, 'z) sched_scheme \<Rightarrow> ('s, 'f, 'z) sched_scheme"
where
  "callback_pool_insert e s =
     (let prev_free = callback_pool_root s;
          s = set_elem e ((elems s e)\<lparr>next := prev_free\<rparr>) s
      in case aq_atomic_cas_uintptr (callback_pool_root s) prev_free (Some e) of
           (True, root) \<Rightarrow> s\<lparr>callback_pool_root := root\<rparr>
         | (False, _) \<Rightarrow> callback_pool_insert e s)"
  by pat_completeness auto
termination
  by (relation "{}") (simp_all add: aq_atomic_cas_uintptr_def set_elem_def)

definition callback_pool_free :: "'s addr \<Rightarrow> ('s, 'f, 'z) sched_scheme \<Rightarrow> ('s, 'f, 'z) sched_scheme" where
  "callback_pool_free e s = (if callback_pool_owns e then callback_pool_insert e s else s)"

fun watermark_loop :: "('s addr, 'f) elements \<Rightarrow> nat \<Rightarrow> nat \<Rightarrow> nat" where
  "watermark_loop h i 0 = i"
| "watermark_loop h i (Suc n) =
     (if lock (h (Pool i)) = POOL_WATERMARK then i else watermark_loop h (Suc i) n)"

definition ARM_UC_SchedulerGetHighWatermark :: "('s, 'f, 'z) sched_scheme \<Rightarrow> u32" where
  "ARM_UC_SchedulerGetHighWatermark s =
     of_nat (watermark_loop (elems s) 0 ARM_UC_SCHEDULER_STORAGE_POOL_SIZE)"

definition ARM_UC_AddNotificationHandler ::
    "bool \<Rightarrow> ('s, 'f, 'z) sched_scheme \<Rightarrow> ('s, 'f, 'z) sched_scheme" where
  "ARM_UC_AddNotificationHandler handler s = s\<lparr>notification_set := handler\<rparr>"

definition ARM_UC_SetSchedulerErrorHandler ::
    "'f option \<Rightarrow> ('s, 'f, 'z) sched_scheme \<Rightarrow> ('s, 'f, 'z) sched_scheme" where
  "ARM_UC_SetSchedulerErrorHandler handler s = s\<lparr>scheduler_error_cb := handler\<rparr>"

definition ARM_UC_SchedulerGetQueuedCount :: "('s, 'f, 'z) sched_scheme \<Rightarrow> u32 option" where
  "ARM_UC_SchedulerGetQueuedCount s = aq_count (elems s) (arm_uc_queue s)"

subsection \<open>Posting\<close>

definition sched_take ::
    "'s addr \<Rightarrow> u32 \<Rightarrow> ('s, 'f, 'z) sched_scheme \<Rightarrow> aq_status \<times> ('s, 'f, 'z) sched_scheme" where
  "sched_take e ctx s =
     (let (r, h) = aq_element_take (elems s) (Some e) ctx in (r, s\<lparr>elems := h\<rparr>))"

text \<open>The element reporting an error of the scheduler: its callback and its parameter.\<close>

definition post_error_element ::
    "'s addr \<Rightarrow> u32 \<Rightarrow> 'f option \<Rightarrow> u32 \<Rightarrow> ('s, 'f, 'z) sched_scheme \<Rightarrow>
     's addr option \<times> 'f option \<times> u32 \<times> ('s, 'f, 'z) sched_scheme"
where
  "post_error_element el code cb param s =
     (case sched_take el ATOMIC_QUEUE_NO_CONTEXT s of
        (ATOMIC_QUEUE_SUCCESS, s) \<Rightarrow> (Some el, scheduler_error_cb s, code, s)
      | (_, s) \<Rightarrow> (None, cb, param, s))"

text \<open>
  The storage a callback is posted in: the result gives the success flag so far, the element if
  one was obtained, and the callback and parameter to store in it.
\<close>

definition post_storage ::
    "'s option \<Rightarrow> u32 \<Rightarrow> 'f option \<Rightarrow> u32 \<Rightarrow> ('s, 'f, 'z) sched_scheme \<Rightarrow>
     bool \<times> 's addr option \<times> 'f option \<times> u32 \<times> ('s, 'f, 'z) sched_scheme"
where
  "post_storage storage ctx cb param s =
     (let (storage, s) =
        (case storage of
           None \<Rightarrow> (None, s)
         | Some x \<Rightarrow> (case sched_take (Static x) ctx s of
              (ATOMIC_QUEUE_SUCCESS, s) \<Rightarrow> (Some (Static x), s)
            | (_, s) \<Rightarrow> (None, s)))
      in case storage of
           Some e \<Rightarrow> (True, Some e, cb, param, s)
         | None \<Rightarrow>
             (case callback_pool_alloc s of
                (None, s) \<Rightarrow>
                  (if scheduler_error_cb s \<noteq> None
                   then (False, post_error_element PoolExhaustedCb ARM_UC_EQ_ERR_POOL_EXHAUSTED cb param s)
                   else (False, None, cb, param, s))
              | (Some e, s) \<Rightarrow>
                  (let s = s\<lparr>elems := aq_initialize_element (elems s) (Some e)\<rparr>
                   in case sched_take e ctx s of
                        (ATOMIC_QUEUE_SUCCESS, s) \<Rightarrow> (True, Some e, cb, param, s)
                      | (_, s) \<Rightarrow>
                          (if scheduler_error_cb s \<noteq> None
                           then (False, post_error_element FailedTakeCb ARM_UC_EQ_ERR_FAILED_TAKE cb param s)
                           else (False, Some e, cb, param, s)))))"

text \<open>The notification loop runs while the flag is clear and the queue is not empty.\<close>

function notify_loop :: "('s, 'f, 'z) sched_scheme \<Rightarrow> ('s, 'f, 'z) sched_scheme" where
  "notify_loop s =
     (if callbacks_pending s = 0 \<and> arm_uc_queue s \<noteq> None then
        (case aq_atomic_cas_uintptr (callbacks_pending s) 0 1 of
           (True, v) \<Rightarrow> notify_loop (s\<lparr>callbacks_pending := v, notifications := notifications s + 1\<rparr>)
         | (False, v) \<Rightarrow> notify_loop s)
      else s)"
  by pat_completeness auto
termination
  by (relation "measure (\<lambda>s. if callbacks_pending s = 0 then 1 else 0)")
     (auto simp: aq_atomic_cas_uintptr_def split: if_splits)

definition ARM_UC_PostCallbackCtx ::
    "'s option \<Rightarrow> u32 \<Rightarrow> 'f option \<Rightarrow> u32 \<Rightarrow> ('s, 'f, 'z) sched_scheme \<Rightarrow>
     bool \<times> ('s, 'f, 'z) sched_scheme"
where
  "ARM_UC_PostCallbackCtx storage ctx cb param s =
     (if cb = None \<or> ctx = 0 then (False, s)
      else case post_storage storage ctx cb param s of
        (success, None, cb, param, s) \<Rightarrow> (success, s)
      | (success, Some e, cb, param, s) \<Rightarrow>
          (let s = set_elem e ((elems s e)\<lparr>callback := cb, parameter := param\<rparr>) s;
               (result, h, tail) = aq_push_tail (elems s) (arm_uc_queue s) (Some e);
               s = s\<lparr>elems := h, arm_uc_queue := tail\<rparr>
           in if result = ATOMIC_QUEUE_SUCCESS
              then (success, if notification_set s then notify_loop s else s)
              else (False, s)))"

definition ARM_UC_PostCallback ::
    "'s option \<Rightarrow> 'f option \<Rightarrow> u32 \<Rightarrow> ('s, 'f, 'z) sched_scheme \<Rightarrow> bool \<times> ('s, 'f, 'z) sched_scheme"
where
  "ARM_UC_PostCallback storage cb param s =
     ARM_UC_PostCallbackCtx storage ATOMIC_QUEUE_NO_CONTEXT cb param s"

definition ARM_UC_PostErrorCallbackCtx ::
    "u32 \<Rightarrow> 'f option \<Rightarrow> u32 \<Rightarrow> ('s, 'f, 'z) sched_scheme \<Rightarrow> bool \<times> ('s, 'f, 'z) sched_scheme"
where
  "ARM_UC_PostErrorCallbackCtx ctx cb param s =
     (if cb = None \<or> ctx = 0 then (False, s)
      else case sched_take PluginErrorCb ctx s of
        (ATOMIC_QUEUE_SUCCESS, s) \<Rightarrow>
          (True, (set_elem PluginErrorCb
             ((elems s PluginErrorCb)\<lparr>callback := cb, parameter := param\<rparr>) s)\<lparr>plugin_error_pending := 1\<rparr>)
      | (_, s) \<Rightarrow> (False, s))"

subsection \<open>Processing\<close>

function try_clear_loop :: "bool \<Rightarrow> ('s, 'f, 'z) sched_scheme \<Rightarrow> bool \<times> ('s, 'f, 'z) sched_scheme" where
  "try_clear_loop cleared_flag s =
     (let cbp_local = callbacks_pending s; queue_empty = (arm_uc_queue s = None) in
      if cbp_local = 0 \<and> queue_empty then (False, s)
      else if cbp_local \<noteq> 0 \<and> \<not> queue_empty then (\<not> cleared_flag, s)
      else if cbp_local = 0 \<and> \<not> queue_empty then
        (case aq_atomic_cas_uintptr (callbacks_pending s) cbp_local 1 of
           (True, v) \<Rightarrow> (True, s\<lparr>callbacks_pending := v\<rparr>)
         | (False, _) \<Rightarrow> try_clear_loop cleared_flag s)
      else
        (case aq_atomic_cas_uintptr (callbacks_pending s) cbp_local 0 of
           (True, v) \<Rightarrow> try_clear_loop True (s\<lparr>callbacks_pending := v\<rparr>)
         | (False, _) \<Rightarrow> try_clear_loop cleared_flag s))"
  by pat_completeness auto
termination
  by (relation "measure (\<lambda>(_, s). if callbacks_pending s = 0 then 0 else 1)")
     (auto simp: aq_atomic_cas_uintptr_def split: if_splits)

definition try_clear_callbacks_pending ::
    "('s, 'f, 'z) sched_scheme \<Rightarrow> bool \<times> ('s, 'f, 'z) sched_scheme" where
  "try_clear_callbacks_pending s = try_clear_loop False s"

text \<open>
  The element to process: the plugin error first, then the oldest of the queue. Its callback,
  context and parameter are copied out, its lock is released and it is freed before the callback
  runs.
\<close>

definition sched_next ::
    "('s, 'f, 'z) sched_scheme \<Rightarrow> ('s addr option \<times> ('s, 'f, 'z) sched_scheme) option"
where
  "sched_next s =
     (if plugin_error_pending s \<noteq> 0 then Some (Some PluginErrorCb, s\<lparr>plugin_error_pending := 0\<rparr>)
      else do {
        (e, h, tail) \<leftarrow> aq_pop_head (elems s) (arm_uc_queue s);
        Some (e, s\<lparr>elems := h, arm_uc_queue := tail\<rparr>)
      })"

definition sched_release ::
    "'s addr \<Rightarrow> ('s, 'f, 'z) sched_scheme \<Rightarrow> ('f option \<times> u32 \<times> u32) \<times> ('s, 'f, 'z) sched_scheme"
where
  "sched_release e s =
     (let cb = callback (elems s e); param = parameter (elems s e);
          (_, ctx, h) = aq_element_release (elems s) (Some e);
          s = callback_pool_free e (s\<lparr>elems := h\<rparr>)
      in ((cb, ctx, param), s))"

text \<open>
  \<open>exec\<close> runs a callback on the whole state of the program; it gets the context, the flag for a
  call without context being \<open>ATOMIC_QUEUE_NO_CONTEXT\<close>, and the parameter. \<open>None\<close> is a callback
  pointer that is \<open>NULL\<close>, or a traversal of the queue that does not end.
\<close>

definition ARM_UC_ProcessElement ::
    "('f \<Rightarrow> u32 \<Rightarrow> u32 \<Rightarrow> ('s, 'f, 'z) sched_scheme \<Rightarrow> ('s, 'f, 'z) sched_scheme option) \<Rightarrow> bool \<Rightarrow>
     ('s, 'f, 'z) sched_scheme \<Rightarrow> (bool \<times> ('s, 'f, 'z) sched_scheme) option"
where
  "ARM_UC_ProcessElement exec execute s = do {
     (element, s) \<leftarrow> sched_next s;
     case element of
       None \<Rightarrow>
         (let (call_again, s) = try_clear_callbacks_pending s
          in Some (call_again \<or> plugin_error_pending s \<noteq> 0, s))
     | Some e \<Rightarrow> do {
         let ((cb, ctx, param), s) = sched_release e s;
         s \<leftarrow> (if execute then do { f \<leftarrow> cb; exec f ctx param s } else Some s);
         let (call_again, s) = try_clear_callbacks_pending s;
         Some (call_again \<or> plugin_error_pending s \<noteq> 0, s)
       }
   }"

definition ARM_UC_ProcessSingleCallback ::
    "('f \<Rightarrow> u32 \<Rightarrow> u32 \<Rightarrow> ('s, 'f, 'z) sched_scheme \<Rightarrow> ('s, 'f, 'z) sched_scheme option) \<Rightarrow>
     ('s, 'f, 'z) sched_scheme \<Rightarrow> (bool \<times> ('s, 'f, 'z) sched_scheme) option"
where
  "ARM_UC_ProcessSingleCallback exec s = ARM_UC_ProcessElement exec True s"

partial_function (option) ARM_UC_ProcessQueue ::
    "('f \<Rightarrow> u32 \<Rightarrow> u32 \<Rightarrow> ('s, 'f, 'z) sched_scheme \<Rightarrow> ('s, 'f, 'z) sched_scheme option) \<Rightarrow>
     ('s, 'f, 'z) sched_scheme \<Rightarrow> ('s, 'f, 'z) sched_scheme option"
where
  "ARM_UC_ProcessQueue exec s = do {
     (again, s) \<leftarrow> ARM_UC_ProcessSingleCallback exec s;
     if again then ARM_UC_ProcessQueue exec s else Some s
   }"

partial_function (option) ARM_UC_DrainCallbackQueue ::
    "('s, 'f, 'z) sched_scheme \<Rightarrow> ('s, 'f, 'z) sched_scheme option"
where
  "ARM_UC_DrainCallbackQueue s = do {
     (again, s) \<leftarrow> ARM_UC_ProcessElement (\<lambda>_ _ _ _. None) False s;
     if again then ARM_UC_DrainCallbackQueue s else Some s
   }"

subsection \<open>The scheduler as a queue of pending callbacks\<close>

text \<open>
  \<open>qs\<close> are the queued elements, the oldest first, and \<open>fs\<close> the free elements of the pool. Every
  element of the pool is in exactly one of the two; an element is locked while it is queued.
\<close>

definition sched_rep :: "('s, 'f, 'z) sched_scheme \<Rightarrow> 's addr list \<Rightarrow> 's addr list \<Rightarrow> bool" where
  "sched_rep s qs fs \<longleftrightarrow>
     chain (elems s) (arm_uc_queue s) (rev qs) \<and> distinct qs \<and>
     chain (elems s) (callback_pool_root s) fs \<and> distinct fs \<and>
     set fs \<inter> set qs = {} \<and>
     (\<forall>i. (Pool i \<in> set qs \<or> Pool i \<in> set fs) \<longleftrightarrow> i < 32) \<and>
     set fs \<subseteq> range Pool \<and>
     (\<forall>e \<in> set qs. lock (elems s e) \<noteq> 0 \<and> callback (elems s e) \<noteq> None) \<and>
     (\<forall>x. Static x \<notin> set qs \<longrightarrow> lock (elems s (Static x)) = 0) \<and>
     (PoolExhaustedCb \<notin> set qs \<longrightarrow> lock (elems s PoolExhaustedCb) = 0) \<and>
     FailedTakeCb \<notin> set qs \<and> PluginErrorCb \<notin> set qs"

definition sched_inv :: "('s, 'f, 'z) sched_scheme \<Rightarrow> bool" where
  "sched_inv s = (\<exists>qs fs. sched_rep s qs fs)"

text \<open>What an element will do when it is processed: callback, context and parameter.\<close>

definition entry :: "('s, 'f, 'z) sched_scheme \<Rightarrow> 's addr \<Rightarrow> 'f \<times> u32 \<times> u32" where
  "entry s e = (the (callback (elems s e)), lock (elems s e), parameter (elems s e))"

definition pending_rep :: "('s, 'f, 'z) sched_scheme \<Rightarrow> ('f \<times> u32 \<times> u32) list \<Rightarrow> bool" where
  "pending_rep s ps = (\<exists>qs fs. sched_rep s qs fs \<and> ps = map (entry s) qs)"

lemma sched_rep_queue_empty: "sched_rep s qs fs \<Longrightarrow> arm_uc_queue s = None \<longleftrightarrow> qs = []"
  by (cases qs rule: rev_cases) (auto simp: sched_rep_def)

lemma sched_rep_unique:
  assumes "sched_rep s qs fs" and "sched_rep s qs' fs'"
  shows "qs = qs'" and "fs = fs'"
  using assms chain_unique unfolding sched_rep_def by (metis rev_rev_ident)+

text \<open>The fields the representation does not look at.\<close>

lemma sched_rep_flags [simp]:
  "sched_rep (s\<lparr>callbacks_pending := v\<rparr>) qs fs = sched_rep s qs fs"
  "sched_rep (s\<lparr>notifications := n\<rparr>) qs fs = sched_rep s qs fs"
  "sched_rep (s\<lparr>plugin_error_pending := v\<rparr>) qs fs = sched_rep s qs fs"
  "entry (s\<lparr>callbacks_pending := v\<rparr>) = entry s"
  "entry (s\<lparr>notifications := n\<rparr>) = entry s"
  "entry (s\<lparr>plugin_error_pending := v\<rparr>) = entry s"
  by (auto simp: sched_rep_def entry_def fun_eq_iff)

declare notify_loop.simps [simp del] try_clear_loop.simps [simp del]
  callback_pool_alloc.simps [simp del] callback_pool_insert.simps [simp del]

lemma notify_eq:
  "notify_loop s = (if callbacks_pending s = 0 \<and> arm_uc_queue s \<noteq> None
     then s\<lparr>callbacks_pending := 1, notifications := notifications s + 1\<rparr> else s)"
  by (subst notify_loop.simps) (auto simp: aq_atomic_cas_uintptr_def notify_loop.simps)

lemma try_clear_eq:
  "try_clear_callbacks_pending s =
     (arm_uc_queue s \<noteq> None, s\<lparr>callbacks_pending := (if arm_uc_queue s = None then 0
        else if callbacks_pending s = 0 then 1 else callbacks_pending s)\<rparr>)"
  unfolding try_clear_callbacks_pending_def
  by (subst try_clear_loop.simps) (auto simp: Let_def try_clear_loop.simps)

lemma alloc_eq:
  "callback_pool_alloc s = (case callback_pool_root s of None \<Rightarrow> (None, s)
     | Some e \<Rightarrow> (Some e, s\<lparr>callback_pool_root := next (elems s e)\<rparr>))"
  by (subst callback_pool_alloc.simps) (auto split: option.splits)

lemma insert_eq:
  "callback_pool_insert e s =
     (set_elem e ((elems s e)\<lparr>next := callback_pool_root s\<rparr>) s)\<lparr>callback_pool_root := Some e\<rparr>"
  by (subst callback_pool_insert.simps) (simp add: Let_def set_elem_def)

subsection \<open>Posting\<close>

lemma sched_take_free:
  "\<lbrakk>lock (elems s e) = 0; ctx \<noteq> 0\<rbrakk> \<Longrightarrow>
     sched_take e ctx s = (ATOMIC_QUEUE_SUCCESS, set_elem e ((elems s e)\<lparr>lock := ctx\<rparr>) s)"
  by (simp add: sched_take_def take_cases set_elem_def)

lemma sched_take_locked:
  "\<lbrakk>lock (elems s e) \<noteq> 0; ctx \<noteq> 0\<rbrakk> \<Longrightarrow> sched_take e ctx s = (ATOMIC_QUEUE_DUPLICATE_ELEMENT, s)"
  by (simp add: sched_take_def take_cases)

text \<open>The effect of a post that obtained the element \<open>e\<close>, with the pool's root \<open>r\<close> afterwards.\<close>

definition posted ::
    "'s addr \<Rightarrow> u32 \<Rightarrow> 'f \<Rightarrow> u32 \<Rightarrow> 's addr option \<Rightarrow> ('s, 'f, 'z) sched_scheme \<Rightarrow>
     ('s, 'f, 'z) sched_scheme"
where
  "posted e ctx f param r s =
     (let s = (set_elem e \<lparr>next = arm_uc_queue s, lock = ctx, callback = Some f, parameter = param\<rparr> s)
                \<lparr>callback_pool_root := r, arm_uc_queue := Some e\<rparr>
      in if notification_set s \<and> callbacks_pending s = 0
         then s\<lparr>callbacks_pending := 1, notifications := notifications s + 1\<rparr> else s)"

lemma element_full:
  "(r :: ('a, 'f) element)\<lparr>lock := l, callback := c, parameter := p, next := n\<rparr> =
     \<lparr>next = n, lock = l, callback = c, parameter = p\<rparr>"
  by (cases r) simp

lemma post_static:
  assumes "lock (elems s (Static x)) = 0" and "ctx \<noteq> 0"
  shows "ARM_UC_PostCallbackCtx (Some x) ctx (Some f) param s =
    (True, posted (Static x) ctx f param (callback_pool_root s) s)"
  using assms
  by (simp add: ARM_UC_PostCallbackCtx_def post_storage_def sched_take_free push_eq notify_eq
      posted_def set_elem_def Let_def element_full)

lemma post_pool:
  assumes "case st of None \<Rightarrow> True | Some x \<Rightarrow> lock (elems s (Static x)) \<noteq> 0" and "ctx \<noteq> 0"
    and "callback_pool_root s = Some e"
  shows "ARM_UC_PostCallbackCtx st ctx (Some f) param s =
    (True, posted e ctx f param (next (elems s e)) s)"
proof -
  have st: "(case st of None \<Rightarrow> (None, s) | Some x \<Rightarrow> (case sched_take (Static x) ctx s of
      (ATOMIC_QUEUE_SUCCESS, s) \<Rightarrow> (Some (Static x), s) | (_, s) \<Rightarrow> (None, s))) = (None, s)"
    using assms(1,2) by (cases st) (simp_all add: sched_take_locked)
  show ?thesis
    using assms(2,3)
    by (simp add: ARM_UC_PostCallbackCtx_def post_storage_def st alloc_eq sched_take_def take_cases
        aq_initialize_element_def push_eq notify_eq posted_def set_elem_def Let_def element_full)
qed

lemma post_exhausted:
  assumes "case st of None \<Rightarrow> True | Some x \<Rightarrow> lock (elems s (Static x)) \<noteq> 0" and "ctx \<noteq> 0"
    and "callback_pool_root s = None"
  shows "ARM_UC_PostCallbackCtx st ctx (Some f) param s =
    (False, case scheduler_error_cb s of None \<Rightarrow> s
       | Some g \<Rightarrow> (if lock (elems s PoolExhaustedCb) \<noteq> 0 then s
          else posted PoolExhaustedCb ATOMIC_QUEUE_NO_CONTEXT g ARM_UC_EQ_ERR_POOL_EXHAUSTED None s))"
proof -
  have st: "(case st of None \<Rightarrow> (None, s) | Some x \<Rightarrow> (case sched_take (Static x) ctx s of
      (ATOMIC_QUEUE_SUCCESS, s) \<Rightarrow> (Some (Static x), s) | (_, s) \<Rightarrow> (None, s))) = (None, s)"
    using assms(1,2) by (cases st) (simp_all add: sched_take_locked)
  show ?thesis
    using assms(2,3)
    by (auto simp: ARM_UC_PostCallbackCtx_def post_storage_def st alloc_eq sched_take_def take_cases
        post_error_element_def push_eq notify_eq posted_def set_elem_def Let_def element_full split: option.splits)
qed

text \<open>Queueing one more element keeps the representation.\<close>

lemma posted_rep:
  assumes rep: "sched_rep s qs fs" and e: "e \<notin> set qs" "e \<noteq> PluginErrorCb" "e \<noteq> FailedTakeCb"
    and fs: "e \<notin> set fs'" "chain (elems s) r fs'" "distinct fs'" "set fs' \<subseteq> set fs"
    and pool: "\<And>i. Pool i \<in> set fs \<longleftrightarrow> Pool i \<in> set fs' \<or> e = Pool i"
    and ctx: "ctx \<noteq> 0"
  shows "sched_rep (posted e ctx f param r s) (qs @ [e]) fs' \<and>
    map (entry (posted e ctx f param r s)) (qs @ [e]) = map (entry s) qs @ [(f, ctx, param)]"
proof -
  let ?el = "\<lparr>next = arm_uc_queue s, lock = ctx, callback = Some f, parameter = param\<rparr>"
  have el: "elems (posted e ctx f param r s) = (elems s)(e := ?el)"
    "arm_uc_queue (posted e ctx f param r s) = Some e"
    "callback_pool_root (posted e ctx f param r s) = r"
    by (simp_all add: posted_def set_elem_def Let_def element_full)
  have c1: "chain ((elems s)(e := ?el)) (Some e) (rev (qs @ [e]))"
    using rep e by (simp add: sched_rep_def)
  have c2: "chain ((elems s)(e := ?el)) r fs'" using fs by simp
  have "sched_rep (posted e ctx f param r s) (qs @ [e]) fs'"
    unfolding sched_rep_def el using c1 c2 rep e fs pool ctx
    by (auto simp: sched_rep_def)
  moreover have "map (entry (posted e ctx f param r s)) (qs @ [e]) = map (entry s) qs @ [(f, ctx, param)]"
    using e by (auto simp: entry_def el)
  ultimately show ?thesis ..
qed

lemma post_rep:
  assumes rep: "sched_rep s qs fs" and ctx: "ctx \<noteq> 0"
    and P: "ARM_UC_PostCallbackCtx st ctx (Some f) param s = (ok, s')"
  shows "\<exists>qs' fs'. sched_rep s' qs' fs' \<and>
    (ok \<longrightarrow> map (entry s') qs' = map (entry s) qs @ [(f, ctx, param)]) \<and>
    (\<not> ok \<longrightarrow> fs = [] \<and> (map (entry s') qs' = map (entry s) qs \<or>
       (\<exists>g. scheduler_error_cb s = Some g \<and>
          map (entry s') qs' = map (entry s) qs @ [(g, ATOMIC_QUEUE_NO_CONTEXT, ARM_UC_EQ_ERR_POOL_EXHAUSTED)])))"
proof -
  consider (static) x where "st = Some x" "lock (elems s (Static x)) = 0"
    | (other) "case st of None \<Rightarrow> True | Some x \<Rightarrow> lock (elems s (Static x)) \<noteq> 0"
    by (cases st) auto
  then show ?thesis
  proof cases
    case static
    then have s': "ok" "s' = posted (Static x) ctx f param (callback_pool_root s) s"
      using P ctx by (simp_all add: post_static)
    have "Static x \<notin> set qs" "Static x \<notin> set fs" using rep static(2) by (auto simp: sched_rep_def)
    then have "sched_rep s' (qs @ [Static x]) fs \<and>
        map (entry s') (qs @ [Static x]) = map (entry s) qs @ [(f, ctx, param)]"
      unfolding s' using rep ctx by (intro posted_rep[OF rep]) (auto simp: sched_rep_def)
    with s' show ?thesis by blast
  next
    case other
    show ?thesis
    proof (cases fs)
      case (Cons e fs')
      then have root: "callback_pool_root s = Some e" "chain (elems s) (next (elems s e)) fs'"
        using rep by (auto simp: sched_rep_def)
      have s': "ok" "s' = posted e ctx f param (next (elems s e)) s"
        using P post_pool[OF other ctx root(1), of f param] by simp_all
      have "sched_rep s' (qs @ [e]) fs' \<and>
          map (entry s') (qs @ [e]) = map (entry s) qs @ [(f, ctx, param)]"
        unfolding s' using rep ctx root(2) Cons
        by (intro posted_rep[OF rep]) (auto simp: sched_rep_def)
      with s' show ?thesis by blast
    next
      case Nil
      then have root: "callback_pool_root s = None" using rep by (auto simp: sched_rep_def)
      note eq = post_exhausted[OF other ctx root, of f param]
      show ?thesis
      proof (cases "scheduler_error_cb s = None \<or> lock (elems s PoolExhaustedCb) \<noteq> 0")
        case True
        then have "\<not> ok" "s' = s" using P eq by (auto split: option.splits)
        with rep Nil show ?thesis by blast
      next
        case False
        then obtain g where g: "scheduler_error_cb s = Some g" "lock (elems s PoolExhaustedCb) = 0" by auto
        then have s': "\<not> ok"
          "s' = posted PoolExhaustedCb ATOMIC_QUEUE_NO_CONTEXT g ARM_UC_EQ_ERR_POOL_EXHAUSTED None s"
          using P eq by auto
        have "PoolExhaustedCb \<notin> set qs" using rep g(2) by (auto simp: sched_rep_def)
        then have "sched_rep s' (qs @ [PoolExhaustedCb]) [] \<and>
            map (entry s') (qs @ [PoolExhaustedCb]) =
              map (entry s) qs @ [(g, ATOMIC_QUEUE_NO_CONTEXT, ARM_UC_EQ_ERR_POOL_EXHAUSTED)]"
          unfolding s' using rep Nil by (intro posted_rep[OF rep]) (auto simp: sched_rep_def)
        with s' g Nil show ?thesis by blast
      qed
    qed
  qed
qed

lemma post_frame:
  assumes "ARM_UC_PostCallbackCtx st ctx cb param s = (ok, s')"
  shows "\<exists>h q r p n. s' = s\<lparr>elems := h, arm_uc_queue := q, callback_pool_root := r,
    callbacks_pending := p, notifications := n\<rparr>"
proof (cases "cb = None \<or> ctx = 0")
  case True
  then have "s' = s" using assms by (auto simp: ARM_UC_PostCallbackCtx_def)
  then have "s' = s\<lparr>elems := elems s, arm_uc_queue := arm_uc_queue s,
    callback_pool_root := callback_pool_root s, callbacks_pending := callbacks_pending s,
    notifications := notifications s\<rparr>" by simp
  then show ?thesis by blast
next
  case False
  have posted: "\<exists>h q r p n. posted e c f x root s = s\<lparr>elems := h, arm_uc_queue := q,
      callback_pool_root := r, callbacks_pending := p, notifications := n\<rparr>" for e c f x root
  proof -
    have "posted e c f x root s = s\<lparr>elems := elems (posted e c f x root s),
      arm_uc_queue := Some e, callback_pool_root := root,
      callbacks_pending := callbacks_pending (posted e c f x root s),
      notifications := notifications (posted e c f x root s)\<rparr>"
      by (simp add: posted_def Let_def set_elem_def)
    then show ?thesis by blast
  qed
  have same: "\<exists>h q r p n. s = s\<lparr>elems := h, arm_uc_queue := q,
      callback_pool_root := r, callbacks_pending := p, notifications := n\<rparr>"
    by (intro exI[of _ "elems s"] exI[of _ "arm_uc_queue s"] exI[of _ "callback_pool_root s"]
        exI[of _ "callbacks_pending s"] exI[of _ "notifications s"]) simp
  from False obtain f where f: "cb = Some f" "ctx \<noteq> 0" by auto
  have "s' = s \<or> (\<exists>e c f x root. s' = posted e c f x root s)"
  proof (cases "\<exists>x. st = Some x \<and> lock (elems s (Static x)) = 0")
    case True
    then obtain x where "st = Some x" "lock (elems s (Static x)) = 0" by blast
    with assms f have "s' = posted (Static x) ctx f param (callback_pool_root s) s"
      by (simp add: post_static)
    then show ?thesis by blast
  next
    case False
    then have other: "case st of None \<Rightarrow> True | Some x \<Rightarrow> lock (elems s (Static x)) \<noteq> 0"
      by (cases st) auto
    show ?thesis
    proof (cases "callback_pool_root s")
      case None
      then have "s' = s \<or> (\<exists>g. s' = posted PoolExhaustedCb ATOMIC_QUEUE_NO_CONTEXT g ARM_UC_EQ_ERR_POOL_EXHAUSTED None s)"
        using assms f post_exhausted[OF other f(2) None, of f param]
        by (cases "scheduler_error_cb s") (auto split: if_splits)
      then show ?thesis by blast
    next
      case (Some e)
      with assms f post_pool[OF other f(2) Some, of f param]
      have "s' = posted e ctx f param (next (elems s e)) s" by simp
      then show ?thesis by blast
    qed
  qed
  then show ?thesis
  proof (elim disjE exE)
    assume "s' = s" with same show ?thesis by simp
  next
    fix e c f x root assume "s' = posted e c f x root s" with posted show ?thesis by blast
  qed
qed

subsection \<open>Processing\<close>

lemma next_rep:
  assumes rep: "sched_rep s (e # qs) fs" and np: "plugin_error_pending s = 0"
  shows "\<exists>s1 s2 fs' h q r. sched_next s = Some (Some e, s1) \<and>
    sched_release e s1 = ((Some (fst (entry s e)), fst (snd (entry s e)), snd (snd (entry s e))), s2) \<and>
    sched_rep s2 qs fs' \<and> map (entry s2) qs = map (entry s) qs \<and>
    s2 = s\<lparr>elems := h, arm_uc_queue := q, callback_pool_root := r\<rparr>"
proof -
  have c: "chain (elems s) (arm_uc_queue s) (rev qs @ [e])" "distinct (rev qs @ [e])"
    using rep by (auto simp: sched_rep_def)
  obtain h t where pop: "aq_pop_head (elems s) (arm_uc_queue s) = Some (Some e, h, t)"
      "chain h t (rev qs)" "\<And>z. z \<notin> set qs \<Longrightarrow> h z = elems s z" "\<And>z. \<exists>n. h z = (elems s z)\<lparr>next := n\<rparr>"
    using pop_chain[OF c] by auto
  have fld: "lock (h z) = lock (elems s z)" "callback (h z) = callback (elems s z)"
      "parameter (h z) = parameter (elems s z)" for z
    using pop(4)[of z] by auto
  let ?s1 = "s\<lparr>elems := h, arm_uc_queue := t\<rparr>"
  have nx: "sched_next s = Some (Some e, ?s1)" using np pop(1) by (simp add: sched_next_def)
  let ?h = "h(e := (h e)\<lparr>lock := 0\<rparr>)"
  have e: "e \<notin> set qs" "callback (elems s e) \<noteq> None" "e \<notin> set fs" "e \<noteq> FailedTakeCb" "e \<noteq> PluginErrorCb"
    using rep by (auto simp: sched_rep_def)
  have cfs: "chain ?h (callback_pool_root s) fs"
  proof -
    have "x \<notin> set qs" if "x \<in> set fs" for x
      using rep that unfolding sched_rep_def by auto
    then have "chain h (callback_pool_root s) fs = chain (elems s) (callback_pool_root s) fs"
      by (intro chain_frame) (simp add: pop(3))
    then show ?thesis using rep by (simp add: sched_rep_def)
  qed
  show ?thesis
  proof (cases "callback_pool_owns e")
    case True
    let ?h2 = "?h(e := (?h e)\<lparr>next := callback_pool_root s\<rparr>)"
    let ?s2 = "s\<lparr>elems := ?h2, arm_uc_queue := t, callback_pool_root := Some e\<rparr>"
    have rel: "sched_release e ?s1 = ((callback (elems s e), lock (elems s e), parameter (elems s e)), ?s2)"
      using True fld by (simp add: sched_release_def aq_element_release_def callback_pool_free_def
          insert_eq set_elem_def)
    have f2: "lock (?h2 z) = (if z = e then 0 else lock (elems s z))"
      "callback (?h2 z) = callback (elems s z)" "parameter (?h2 z) = parameter (elems s z)" for z
      using fld by auto
    have "chain ?h2 (Some e) (e # fs)" "chain ?h2 t (rev qs)"
      using cfs e(1,3) pop(2) by simp_all
    then have "sched_rep ?s2 qs (e # fs)"
      using rep e True f2
      by (auto simp: sched_rep_def callback_pool_owns_def simp del: chain.simps fun_upd_apply split: addr.splits)
    moreover have "map (entry ?s2) qs = map (entry s) qs"
      using e(1) f2 by (auto simp: entry_def simp del: fun_upd_apply)
    ultimately show ?thesis using nx rel e(2) by (auto simp: entry_def)
  next
    case False
    let ?s2 = "s\<lparr>elems := ?h, arm_uc_queue := t\<rparr>"
    have rel: "sched_release e ?s1 = ((callback (elems s e), lock (elems s e), parameter (elems s e)), ?s2)"
      using False fld by (simp add: sched_release_def aq_element_release_def callback_pool_free_def)
    have f2: "lock (?h z) = (if z = e then 0 else lock (elems s z))"
      "callback (?h z) = callback (elems s z)" "parameter (?h z) = parameter (elems s z)" for z
      using fld by auto
    have np: "Pool i \<noteq> e" for i
      using False rep by (auto simp: sched_rep_def callback_pool_owns_def)
    have pool: "\<forall>i. (Pool i \<in> set qs \<or> Pool i \<in> set fs) \<longleftrightarrow> i < 32"
      using rep np by (simp add: sched_rep_def)
    have st: "\<forall>x. Static x \<notin> set qs \<longrightarrow> lock (?h (Static x)) = 0"
      "PoolExhaustedCb \<notin> set qs \<longrightarrow> lock (?h PoolExhaustedCb) = 0"
      "\<forall>z \<in> set qs. lock (?h z) \<noteq> 0 \<and> callback (?h z) \<noteq> None"
      using rep e(1) unfolding f2 by (auto simp: sched_rep_def)
    have rest: "distinct qs" "distinct fs" "set fs \<inter> set qs = {}" "set fs \<subseteq> range Pool"
      "FailedTakeCb \<notin> set qs" "PluginErrorCb \<notin> set qs"
      using rep by (auto simp: sched_rep_def)
    have "chain ?h t (rev qs)" using pop(2) by simp
    then have "sched_rep ?s2 qs fs"
      using pool st rest cfs unfolding sched_rep_def by simp
    moreover have "map (entry ?s2) qs = map (entry s) qs"
      using e(1) f2 by (auto simp: entry_def simp del: fun_upd_apply)
    moreover have "?s2 = s\<lparr>elems := ?h, arm_uc_queue := t, callback_pool_root := callback_pool_root s\<rparr>"
      by simp
    moreover have "sched_release e ?s1 =
        ((Some (fst (entry s e)), fst (snd (entry s e)), snd (snd (entry s e))), ?s2)"
      using e(2) unfolding rel by (auto simp: entry_def)
    ultimately show ?thesis using nx by blast
  qed
qed

lemma next_empty:
  assumes "sched_rep s [] fs" and "plugin_error_pending s = 0"
  shows "sched_next s = Some (None, s)"
  using assms sched_rep_queue_empty[OF assms(1)] by (simp add: sched_next_def pop_empty)

text \<open>A pending plugin error is taken without touching the queue.\<close>

lemma next_plugin:
  assumes "sched_rep s qs fs" and "plugin_error_pending s \<noteq> 0"
  shows "\<exists>s1 s2. sched_next s = Some (Some PluginErrorCb, s1) \<and>
    sched_release PluginErrorCb s1 = ((callback (elems s PluginErrorCb), lock (elems s PluginErrorCb),
       parameter (elems s PluginErrorCb)), s2) \<and>
    sched_rep s2 qs fs \<and> map (entry s2) qs = map (entry s) qs \<and>
    s2 = s\<lparr>elems := (elems s)(PluginErrorCb := (elems s PluginErrorCb)\<lparr>lock := 0\<rparr>),
           plugin_error_pending := 0\<rparr>"
  using assms
  by (auto simp: sched_next_def sched_release_def aq_element_release_def callback_pool_free_def
      callback_pool_owns_def sched_rep_def entry_def)

subsection \<open>Initialisation\<close>

lemma pool_init_elems:
  "elems (pool_init_loop i n s) a =
     (case a of Pool j \<Rightarrow> (if i \<le> j \<and> j < i + n
        then (elems s a)\<lparr>next := Some (Pool (j + 1)), lock := POOL_WATERMARK\<rparr> else elems s a)
      | _ \<Rightarrow> elems s a)"
  by (induction i n s rule: pool_init_loop.induct) (auto simp: set_elem_def split: addr.splits)

lemma pool_init_fields [simp]:
  "arm_uc_queue (pool_init_loop i n s) = arm_uc_queue s"
  "callback_pool_root (pool_init_loop i n s) = callback_pool_root s"
  "notification_set (pool_init_loop i n s) = notification_set s"
  "notifications (pool_init_loop i n s) = notifications s"
  "scheduler_error_cb (pool_init_loop i n s) = scheduler_error_cb s"
  by (induction i n s rule: pool_init_loop.induct) (auto simp: set_elem_def)

lemma pool_chain:
  assumes "\<And>j. i \<le> j \<Longrightarrow> j < i + n \<Longrightarrow> next (h (Pool j)) = Some (Pool (j + 1))"
    and "next (h (Pool (i + n))) = None"
  shows "chain h (Some (Pool i)) (map Pool [i ..< i + n + 1])"
  using assms
proof (induction n arbitrary: i)
  case (Suc n)
  have "chain h (Some (Pool (Suc i))) (map Pool [Suc i ..< Suc i + n + 1])"
    using Suc.prems by (intro Suc.IH) auto
  moreover have "[i ..< i + Suc n + 1] = i # [Suc i ..< Suc i + n + 1]"
    by (simp add: upt_rec)
  ultimately show ?case using Suc.prems(1)[of i] by simp
qed simp

lemma init_rep:
  assumes "arm_uc_queue s = None" and "\<And>x. lock (elems s (Static x)) = 0"
  shows "sched_rep (ARM_UC_SchedulerInit s) [] (map Pool [0 ..< 32])"
proof -
  let ?s = "ARM_UC_SchedulerInit s"
  have el: "next (elems ?s (Pool j)) = Some (Pool (j + 1))" if "j < 31" for j
    using that by (simp add: ARM_UC_SchedulerInit_def Let_def set_elem_def pool_init_elems)
  have el2: "next (elems ?s (Pool 31)) = None" "lock (elems ?s (Static x)) = 0"
    "lock (elems ?s PoolExhaustedCb) = 0" for x
    using assms(2) by (simp_all add: ARM_UC_SchedulerInit_def Let_def set_elem_def pool_init_elems zero_element_def)
  have "chain (elems ?s) (Some (Pool 0)) (map Pool [0 ..< 0 + 31 + 1])"
    using el el2 by (intro pool_chain) simp_all
  moreover have "callback_pool_root ?s = Some (Pool 0)" "arm_uc_queue ?s = None"
    using assms(1) by (simp_all add: ARM_UC_SchedulerInit_def Let_def set_elem_def)
  moreover have "[0 ..< 0 + 31 + 1] = [0 ..< 32 :: nat]" by (rule arg_cong2[of _ _ _ _ upt]) simp_all
  ultimately show ?thesis
    using el2(2,3) by (auto simp: sched_rep_def distinct_map inj_on_def simp del: upt_Suc)
qed

subsection \<open>Properties\<close>

lemma post_null: "cb = None \<or> ctx = 0 \<Longrightarrow> ARM_UC_PostCallbackCtx st ctx cb param s = (False, s)"
  by (auto simp: ARM_UC_PostCallbackCtx_def)

lemma post_pending:
  assumes "pending_rep s ps" and "ctx \<noteq> 0" and "ARM_UC_PostCallbackCtx st ctx (Some f) param s = (ok, s')"
  shows "pending_rep s' (if ok then ps @ [(f, ctx, param)] else ps) \<or>
    (\<not> ok \<and> (\<exists>g. scheduler_error_cb s = Some g \<and>
       pending_rep s' (ps @ [(g, ATOMIC_QUEUE_NO_CONTEXT, ARM_UC_EQ_ERR_POOL_EXHAUSTED)])))"
proof -
  obtain qs fs where q: "sched_rep s qs fs" "ps = map (entry s) qs"
    using assms(1) by (auto simp: pending_rep_def)
  from post_rep[OF q(1) assms(2,3)] obtain qs' fs' where r: "sched_rep s' qs' fs'"
    "ok \<longrightarrow> map (entry s') qs' = map (entry s) qs @ [(f, ctx, param)]"
    "\<not> ok \<longrightarrow> fs = [] \<and> (map (entry s') qs' = map (entry s) qs \<or>
       (\<exists>g. scheduler_error_cb s = Some g \<and>
          map (entry s') qs' = map (entry s) qs @ [(g, ATOMIC_QUEUE_NO_CONTEXT, ARM_UC_EQ_ERR_POOL_EXHAUSTED)]))"
    by blast
  have p: "pending_rep s' (map (entry s') qs')" using r(1) by (auto simp: pending_rep_def)
  show ?thesis
  proof (cases ok)
    case True
    then show ?thesis using p r(2) q(2) by auto
  next
    case False
    then consider "map (entry s') qs' = ps"
      | g where "scheduler_error_cb s = Some g"
          "map (entry s') qs' = ps @ [(g, ATOMIC_QUEUE_NO_CONTEXT, ARM_UC_EQ_ERR_POOL_EXHAUSTED)]"
      using r(3) q(2) by blast
    then show ?thesis using p False by cases auto
  qed
qed

lemma post_room:
  assumes "pending_rep s ps" and "ctx \<noteq> 0" and "length ps < 32"
  shows "fst (ARM_UC_PostCallbackCtx st ctx (Some f) param s)"
proof (rule ccontr)
  assume no: "\<not> fst (ARM_UC_PostCallbackCtx st ctx (Some f) param s)"
  obtain qs fs where q: "sched_rep s qs fs" "ps = map (entry s) qs"
    using assms(1) by (auto simp: pending_rep_def)
  obtain s' where P: "ARM_UC_PostCallbackCtx st ctx (Some f) param s = (False, s')"
    using no by (cases "ARM_UC_PostCallbackCtx st ctx (Some f) param s") auto
  have "fs = []" using post_rep[OF q(1) assms(2) P] by auto
  then have "Pool ` {..< 32} \<subseteq> set qs" using q(1) by (auto simp: sched_rep_def)
  then have "card (Pool ` {..< 32 :: nat} :: 'a addr set) \<le> card (set qs)" by (intro card_mono) auto
  also have "card (Pool ` {..< 32 :: nat} :: 'a addr set) = 32" by (subst card_image) (auto simp: inj_on_def)
  also have "card (set qs) \<le> length qs" by (rule card_length)
  finally show False using assms(3) q(2) by simp
qed

text \<open>
  C31. Posting a callback appends exactly that callback, with its context and parameter, behind
  everything that is pending, and reports success; the only other outcome is a full pool, where
  it reports failure and at most the error callback of the scheduler is appended. With fewer than
  32 callbacks pending, a post never fails.
\<close>

theorem post_refines:
  assumes "pending_rep s ps" and "ctx \<noteq> 0"
  shows "case ARM_UC_PostCallbackCtx st ctx (Some f) param s of (ok, s') \<Rightarrow>
    (length ps < 32 \<longrightarrow> ok) \<and>
    (pending_rep s' (if ok then ps @ [(f, ctx, param)] else ps) \<or>
     (\<not> ok \<and> (\<exists>g. scheduler_error_cb s = Some g \<and>
        pending_rep s' (ps @ [(g, ATOMIC_QUEUE_NO_CONTEXT, ARM_UC_EQ_ERR_POOL_EXHAUSTED)]))))"
  using post_pending[OF assms] post_room[OF assms, of st f param]
  by (cases "ARM_UC_PostCallbackCtx st ctx (Some f) param s") simp

text \<open>A scheduler whose storages are unused, before and after its initialisation.\<close>

definition sched_static :: "(nat, nat) sched" where
  "sched_static = \<lparr>elems = (\<lambda>_. zero_element), arm_uc_queue = None, callback_pool_root = None,
     callbacks_pending = 0, plugin_error_pending = 0, notification_set = True, notifications = 0,
     scheduler_error_cb = Some 0\<rparr>"

lemma init_pending:
  "\<lbrakk>arm_uc_queue s = None; \<And>x. lock (elems s (Static x)) = 0\<rbrakk> \<Longrightarrow> pending_rep (ARM_UC_SchedulerInit s) []"
  using init_rep[of s] by (auto simp: pending_rep_def)

lemma sched_static_init: "pending_rep (ARM_UC_SchedulerInit sched_static) []"
  by (rule init_pending) (auto simp: sched_static_def zero_element_def)

theorem post_refines_witness:
  "case ARM_UC_PostCallbackCtx (Some 3) 7 (Some 5) 9 (ARM_UC_SchedulerInit sched_static) of (ok, s') \<Rightarrow>
     ok \<and> pending_rep s' [(5, 7, 9)]"
  using post_refines[OF sched_static_init, where ctx = 7 and st = "Some 3" and f = 5 and param = 9]
  by (cases "ARM_UC_PostCallbackCtx (Some 3) 7 (Some 5) 9 (ARM_UC_SchedulerInit sched_static)") auto

lemma next_pending:
  assumes "pending_rep s ((f, ctx, param) # ps)" and "plugin_error_pending s = 0"
  shows "\<exists>e s1 s2. sched_next s = Some (Some e, s1) \<and> sched_release e s1 = ((Some f, ctx, param), s2) \<and>
    pending_rep s2 ps \<and> (\<exists>h q r. s2 = s\<lparr>elems := h, arm_uc_queue := q, callback_pool_root := r\<rparr>)"
proof -
  obtain qs fs where q: "sched_rep s qs fs" "(f, ctx, param) # ps = map (entry s) qs"
    using assms(1) by (auto simp: pending_rep_def)
  then obtain e qs' where qs: "qs = e # qs'" "entry s e = (f, ctx, param)" "ps = map (entry s) qs'"
    by (cases qs) auto
  from next_rep[of s e qs' fs] q(1) qs(1) assms(2) obtain s1 s2 fs' h q r where
    n: "sched_next s = Some (Some e, s1)"
    "sched_release e s1 = ((Some (fst (entry s e)), fst (snd (entry s e)), snd (snd (entry s e))), s2)"
    "sched_rep s2 qs' fs'" "map (entry s2) qs' = map (entry s) qs'"
    "s2 = s\<lparr>elems := h, arm_uc_queue := q, callback_pool_root := r\<rparr>" by metis
  have p: "pending_rep s2 ps" using n(3,4) qs(3) by (auto simp: pending_rep_def)
  show ?thesis
    by (rule exI[of _ e], rule exI[of _ s1], rule exI[of _ s2]) (use n(1,2,5) p qs(2) in auto)
qed

lemma pending_flags [simp]:
  "pending_rep (s\<lparr>callbacks_pending := v\<rparr>) ps = pending_rep s ps"
  "pending_rep (s\<lparr>plugin_error_pending := v\<rparr>) ps = pending_rep s ps"
  by (simp_all add: pending_rep_def)

lemma pending_queue_empty: "pending_rep s ps \<Longrightarrow> (arm_uc_queue s = None) = (ps = [])"
  by (auto simp: pending_rep_def dest: sched_rep_queue_empty)

text \<open>
  C32. With no plugin error pending, one step of the scheduler executes the oldest pending callback
  with its own context and parameter, in a state in which it is no longer pending and its storage
  is free for use, and in which everything but the queue is unchanged. It asks to be called again
  exactly when the state the callback left has something pending.
\<close>

theorem process_oldest:
  assumes "pending_rep s ((f, ctx, param) # ps)" and "plugin_error_pending s = 0"
  shows "\<exists>s1. pending_rep s1 ps \<and>
    (\<exists>h q r. s1 = s\<lparr>elems := h, arm_uc_queue := q, callback_pool_root := r\<rparr>) \<and>
    ARM_UC_ProcessElement exec True s =
      map_option (\<lambda>s2. (arm_uc_queue s2 \<noteq> None \<or> plugin_error_pending s2 \<noteq> 0,
        s2\<lparr>callbacks_pending := (if arm_uc_queue s2 = None then 0
          else if callbacks_pending s2 = 0 then 1 else callbacks_pending s2)\<rparr>)) (exec f ctx param s1)"
proof -
  from next_pending[OF assms] obtain e s1 s2 where n: "sched_next s = Some (Some e, s1)"
    "sched_release e s1 = ((Some f, ctx, param), s2)" "pending_rep s2 ps"
    "\<exists>h q r. s2 = s\<lparr>elems := h, arm_uc_queue := q, callback_pool_root := r\<rparr>" by blast
  have "ARM_UC_ProcessElement exec True s =
      map_option (\<lambda>s2. (arm_uc_queue s2 \<noteq> None \<or> plugin_error_pending s2 \<noteq> 0,
        s2\<lparr>callbacks_pending := (if arm_uc_queue s2 = None then 0
          else if callbacks_pending s2 = 0 then 1 else callbacks_pending s2)\<rparr>)) (exec f ctx param s2)"
    using n(1,2) by (cases "exec f ctx param s2") (simp_all add: ARM_UC_ProcessElement_def try_clear_eq)
  with n(3,4) show ?thesis by blast
qed

theorem process_oldest_witness:
  "\<exists>s s1 :: (nat, nat) sched. pending_rep s [(5, 7, 9), (6, 7, 1)] \<and> pending_rep s1 [(6, 7, 1)] \<and>
    map_option fst (ARM_UC_ProcessElement (\<lambda>f ctx param s. Some (s :: (nat, nat) sched)) True s) = Some True"
proof -
  obtain ok1 s1 where 1: "ARM_UC_PostCallbackCtx (Some 3) 7 (Some 5) 9 (ARM_UC_SchedulerInit sched_static) = (ok1, s1)"
    by fastforce
  have p1: "pending_rep s1 [(5, 7, 9)]"
    using post_pending[OF sched_static_init _ 1] post_room[OF sched_static_init, where ctx = 7 and st = "Some 3" and f = 5 and param = 9] 1 by simp
  obtain ok2 s2 where 2: "ARM_UC_PostCallbackCtx (Some 3) 7 (Some 6) 1 s1 = (ok2, s2)" by fastforce
  have p2: "pending_rep s2 [(5, 7, 9), (6, 7, 1)]"
    using post_pending[OF p1 _ 2] post_room[OF p1, where ctx = 7 and st = "Some 3" and f = 6 and param = 1] 2 by simp
  have "plugin_error_pending (ARM_UC_SchedulerInit sched_static) = 0"
    by (simp add: ARM_UC_SchedulerInit_def Let_def)
  then have np: "plugin_error_pending s2 = 0"
    using post_frame[OF 1] post_frame[OF 2] by auto
  from process_oldest[OF p2 np, of "\<lambda>f ctx param s. Some s"] obtain s3 where
    s3: "pending_rep s3 [(6, 7, 1)]"
    and eq: "ARM_UC_ProcessElement (\<lambda>f ctx param s. Some s) True s2 =
      map_option (\<lambda>s2. (arm_uc_queue s2 \<noteq> None \<or> plugin_error_pending s2 \<noteq> 0,
        s2\<lparr>callbacks_pending := (if arm_uc_queue s2 = None then 0
          else if callbacks_pending s2 = 0 then 1 else callbacks_pending s2)\<rparr>)) (Some s3)" by blast
  have "arm_uc_queue s3 \<noteq> None" using pending_queue_empty[OF s3] by simp
  then have "map_option fst (ARM_UC_ProcessElement (\<lambda>f ctx param s. Some s) True s2) = Some True"
    unfolding eq by simp
  then show ?thesis using p2 s3 by blast
qed

lemma process_empty:
  assumes "pending_rep s []" and "plugin_error_pending s = 0"
  shows "ARM_UC_ProcessElement exec ex s = Some (False, s\<lparr>callbacks_pending := 0\<rparr>)"
proof -
  have "sched_next s = Some (None, s)" using assms next_empty by (auto simp: pending_rep_def)
  then show ?thesis
    using assms pending_queue_empty[OF assms(1)]
    by (simp add: ARM_UC_ProcessElement_def try_clear_eq)
qed

lemma drain_queue:
  "\<lbrakk>pending_rep s ps; plugin_error_pending s = 0\<rbrakk> \<Longrightarrow>
     \<exists>s'. ARM_UC_DrainCallbackQueue s = Some s' \<and> pending_rep s' [] \<and> callbacks_pending s' = 0"
proof (induction ps arbitrary: s)
  case Nil
  then show ?case
    by (intro exI[of _ "s\<lparr>callbacks_pending := 0\<rparr>"])
       (subst ARM_UC_DrainCallbackQueue.simps, simp add: process_empty)
next
  case (Cons p ps)
  obtain f ctx param where p: "p = (f, ctx, param)" by (cases p)
  from next_pending[OF Cons.prems[unfolded p]] obtain e s1 s2 where
    n: "sched_next s = Some (Some e, s1)" "sched_release e s1 = ((Some f, ctx, param), s2)" "pending_rep s2 ps"
    and fr: "\<exists>h q r. s2 = s\<lparr>elems := h, arm_uc_queue := q, callback_pool_root := r\<rparr>" by blast
  have np: "plugin_error_pending s2 = 0" using fr Cons.prems(2) by auto
  let ?s3 = "s2\<lparr>callbacks_pending := (if arm_uc_queue s2 = None then 0
          else if callbacks_pending s2 = 0 then 1 else callbacks_pending s2)\<rparr>"
  have step: "ARM_UC_ProcessElement (\<lambda>_ _ _ _. None) False s = Some (arm_uc_queue s2 \<noteq> None, ?s3)"
    using n(1,2) np by (simp add: ARM_UC_ProcessElement_def try_clear_eq)
  have p3: "pending_rep ?s3 ps" "plugin_error_pending ?s3 = 0" using n(3) np by simp_all
  show ?case
  proof (cases ps)
    case Nil
    then have "arm_uc_queue s2 = None" using pending_queue_empty[OF n(3)] by simp
    then have "ARM_UC_DrainCallbackQueue s = Some (s2\<lparr>callbacks_pending := 0\<rparr>)"
      using step by (subst ARM_UC_DrainCallbackQueue.simps) simp
    then show ?thesis using n(3) Nil by simp
  next
    case (Cons q qs)
    then have "arm_uc_queue s2 \<noteq> None" using pending_queue_empty[OF n(3)] by simp
    then have "ARM_UC_DrainCallbackQueue s = ARM_UC_DrainCallbackQueue ?s3"
      using step by (subst ARM_UC_DrainCallbackQueue.simps) simp
    then show ?thesis using Cons.IH[OF p3] by simp
  qed
qed

text \<open>
  C33. Draining the scheduler ends, whatever is pending, with nothing pending, the pool whole and
  the pending flag clear.
\<close>

theorem drain_terminates:
  assumes "pending_rep s ps"
  shows "\<exists>s'. ARM_UC_DrainCallbackQueue s = Some s' \<and> pending_rep s' [] \<and> callbacks_pending s' = 0"
proof (cases "plugin_error_pending s = 0")
  case True
  then show ?thesis using drain_queue assms by blast
next
  case False
  obtain qs fs where q: "sched_rep s qs fs" "ps = map (entry s) qs"
    using assms by (auto simp: pending_rep_def)
  from next_plugin[OF q(1) False] obtain s1 s2 where
    n: "sched_next s = Some (Some PluginErrorCb, s1)"
    "sched_release PluginErrorCb s1 = ((callback (elems s PluginErrorCb), lock (elems s PluginErrorCb),
       parameter (elems s PluginErrorCb)), s2)"
    "sched_rep s2 qs fs" "map (entry s2) qs = map (entry s) qs" "plugin_error_pending s2 = 0" by auto
  have p2: "pending_rep s2 ps" using n(3,4) q(2) by (auto simp: pending_rep_def)
  let ?s3 = "s2\<lparr>callbacks_pending := (if arm_uc_queue s2 = None then 0
          else if callbacks_pending s2 = 0 then 1 else callbacks_pending s2)\<rparr>"
  have step: "ARM_UC_ProcessElement (\<lambda>_ _ _ _. None) False s = Some (arm_uc_queue s2 \<noteq> None, ?s3)"
    using n(1,2,5) by (simp add: ARM_UC_ProcessElement_def try_clear_eq)
  show ?thesis
  proof (cases "arm_uc_queue s2 = None")
    case True
    then have "ps = []" using pending_queue_empty[OF p2] by simp
    moreover have "ARM_UC_DrainCallbackQueue s = Some (s2\<lparr>callbacks_pending := 0\<rparr>)"
      using step True by (subst ARM_UC_DrainCallbackQueue.simps) simp
    ultimately show ?thesis using p2 by simp
  next
    case False
    then have "ARM_UC_DrainCallbackQueue s = ARM_UC_DrainCallbackQueue ?s3"
      using step by (subst ARM_UC_DrainCallbackQueue.simps) simp
    then show ?thesis using drain_queue[of ?s3 ps] p2 n(5) by simp
  qed
qed

theorem drain_terminates_witness:
  "\<exists>s'. ARM_UC_DrainCallbackQueue (ARM_UC_SchedulerInit sched_static) = Some s' \<and> pending_rep s' [] \<and>
     callbacks_pending s' = 0"
  by (rule drain_terminates[OF sched_static_init])

lemma post_wakeup:
  assumes "notification_set s" and "ctx \<noteq> 0" and "pending_rep s ps" and "length ps < 32"
    and P: "ARM_UC_PostCallbackCtx st ctx (Some f) param s = (ok, s')"
  shows "callbacks_pending s' \<noteq> 0 \<and>
    notifications s' = (if callbacks_pending s = 0 then notifications s + 1 else notifications s)"
proof -
  have ok: "ok" using post_room[OF assms(3,2,4), of st f param] P by simp
  have posted: "callbacks_pending (posted e ctx f param r s) \<noteq> 0 \<and>
      notifications (posted e ctx f param r s) =
        (if callbacks_pending s = 0 then notifications s + 1 else notifications s)" for e r
    using assms(1) by (simp add: posted_def set_elem_def Let_def)
  show ?thesis
  proof (cases "\<exists>x. st = Some x \<and> lock (elems s (Static x)) = 0")
    case True
    then obtain x where "st = Some x" "lock (elems s (Static x)) = 0" by blast
    then have "s' = posted (Static x) ctx f param (callback_pool_root s) s"
      using assms(2) P by (simp add: post_static)
    then show ?thesis using posted by simp
  next
    case False
    then have other: "case st of None \<Rightarrow> True | Some x \<Rightarrow> lock (elems s (Static x)) \<noteq> 0"
      by (cases st) auto
    show ?thesis
    proof (cases "callback_pool_root s")
      case None
      then show ?thesis using ok P post_exhausted[OF other assms(2) None, of f param] by simp
    next
      case (Some e)
      then have "s' = posted e ctx f param (next (elems s e)) s"
        using P post_pool[OF other assms(2) Some, of f param] by simp
      then show ?thesis using posted by simp
    qed
  qed
qed

lemma try_clear_done:
  "try_clear_callbacks_pending s = (b, s') \<Longrightarrow> \<not> (b \<or> plugin_error_pending s' \<noteq> 0) \<Longrightarrow>
     callbacks_pending s' = 0 \<and> arm_uc_queue s' = None \<and> plugin_error_pending s' = 0"
  by (auto simp: try_clear_eq)

lemma process_done:
  assumes "ARM_UC_ProcessElement exec ex s = Some (False, s'')"
  shows "callbacks_pending s'' = 0 \<and> arm_uc_queue s'' = None \<and> plugin_error_pending s'' = 0"
proof -
  obtain el s1 where n: "sched_next s = Some (el, s1)"
    using assms by (cases "sched_next s") (auto simp: ARM_UC_ProcessElement_def)
  have "\<exists>x b. try_clear_callbacks_pending x = (b, s'') \<and> \<not> (b \<or> plugin_error_pending s'' \<noteq> 0)"
  proof (cases el)
    case None
    obtain b s2 where "try_clear_callbacks_pending s1 = (b, s2)" by fastforce
    with None n assms show ?thesis by (auto simp: ARM_UC_ProcessElement_def)
  next
    case (Some e)
    obtain cb ctx param s2 where r: "sched_release e s1 = ((cb, ctx, param), s2)"
      by (cases "sched_release e s1") auto
    define run where "run = (if ex then do { f \<leftarrow> cb; exec f ctx param s2 } else Some s2)"
    have "ARM_UC_ProcessElement exec ex s = do { s \<leftarrow> run;
        let (call_again, s) = try_clear_callbacks_pending s;
        Some (call_again \<or> plugin_error_pending s \<noteq> 0, s) }"
      using n r Some by (simp add: ARM_UC_ProcessElement_def run_def)
    with assms obtain x where "run = Some x" and
      x: "(let (call_again, s) = try_clear_callbacks_pending x in
        Some (call_again \<or> plugin_error_pending s \<noteq> 0, s)) = Some (False, s'')"
      by (cases run) auto
    obtain b s3 where "try_clear_callbacks_pending x = (b, s3)" by fastforce
    with x show ?thesis by auto
  qed
  then show ?thesis using try_clear_done by blast
qed



end
