(* ===== verification/UC_Pre_Shared_Key.thy ===== *)
theory UC_Pre_Shared_Key
  imports UC_Types
begin

text \<open>
  \<open>modules/control-center/source/arm_uc_pre_shared_key.c\<close>, in its two configurations: the key is
  read from the storage of the cloud client (\<open>ARM_UC_FEATURE_PSK_STORE_NVSTORE\<close>), or is a pointer
  the application has set (\<open>ARM_UC_FEATURE_PSK_STORE_RAW\<close>). \<open>get_config_parameter\<close> of the cloud
  client is a parameter: for the size of the output buffer it is told, it gives its status and
  the bytes it writes to the buffer.
\<close>

datatype ccs_status_e =
  CCS_STATUS_SUCCESS | CCS_STATUS_KEY_DOESNT_EXIST | CCS_STATUS_OTHER

subsection \<open>Key in the storage of the cloud client\<close>

record psk_nvstore =
  arm_uc_psk_size :: u16
  pskbuffer :: bytes

definition psk_nvstore_init :: psk_nvstore where
  "psk_nvstore_init = \<lparr>arm_uc_psk_size = 128, pskbuffer = replicate 16 0\<rparr>"

definition ARM_UC_PreSharedKey_SetSecret :: "bytes option \<Rightarrow> u16 \<Rightarrow> arm_uc_error_t" where
  "ARM_UC_PreSharedKey_SetSecret key bits = ERR_INVALID_PARAMETER"

text \<open>
  \<open>key\<close> is \<open>NULL\<close> (\<open>None\<close>) or a variable with its present value; the result gives its new value.
\<close>

definition ARM_UC_PreSharedKey_GetSecret ::
    "(nat \<Rightarrow> ccs_status_e \<times> bytes) \<Rightarrow> bytes option option \<Rightarrow> u16 \<Rightarrow> psk_nvstore \<Rightarrow>
     (arm_uc_error_t \<times> bytes option option \<times> psk_nvstore) option"
where
  "ARM_UC_PreSharedKey_GetSecret get_config_parameter key bits s =
     (if key \<noteq> None \<and> bits = arm_uc_psk_size s then do {
        buf \<leftarrow> memset0 (pskbuffer s) 0 16;
        let (ccs_status, val) = get_config_parameter (unat (arm_uc_psk_size s));
        buf \<leftarrow> wr_block buf 0 val;
        let s = s\<lparr>pskbuffer := buf\<rparr>;
        let retval = (if ccs_status = CCS_STATUS_KEY_DOESNT_EXIST then ARM_UC_DI_ERR_NOT_FOUND
                      else ERR_INVALID_PARAMETER);
        let (retval, key) = (if ccs_status = CCS_STATUS_SUCCESS then (ERR_NONE, Some (Some (pskbuffer s)))
                             else (retval, key));
        let retval = ERR_NONE;
        Some (retval, key, s)
      } else Some (ERR_INVALID_PARAMETER, key, s))"

subsection \<open>Key set by the application\<close>

record psk_raw =
  arm_uc_psk_key :: "bytes option"
  arm_uc_psk_raw_size :: u16

definition ARM_UC_PreSharedKey_SetSecret_raw ::
    "bytes option \<Rightarrow> u16 \<Rightarrow> psk_raw \<Rightarrow> arm_uc_error_t \<times> psk_raw" where
  "ARM_UC_PreSharedKey_SetSecret_raw key bits s =
     (ERR_NONE, s\<lparr>arm_uc_psk_key := key, arm_uc_psk_raw_size := bits\<rparr>)"

definition ARM_UC_PreSharedKey_GetSecret_raw ::
    "bytes option option \<Rightarrow> u16 \<Rightarrow> psk_raw \<Rightarrow> arm_uc_error_t \<times> bytes option option" where
  "ARM_UC_PreSharedKey_GetSecret_raw key bits s =
     (if key \<noteq> None \<and> bits = arm_uc_psk_raw_size s then (ERR_NONE, Some (arm_uc_psk_key s))
      else (ERR_INVALID_PARAMETER, key))"

subsection \<open>What a caller gets\<close>

text \<open>
  C40. With the key in the storage of the cloud client, a request for a key of 128 bits is answered
  with success whatever the storage said: when the storage has no key the caller's pointer keeps
  its value although the call reports success. The storage is told that the buffer has 128 bytes,
  so a stored value longer than the 16 bytes of the buffer is written past its end.
\<close>

theorem psk_nvstore_result:
  assumes "arm_uc_psk_size s = 128" and "length (pskbuffer s) = 16" and "gcp 128 = (status, val)"
  shows "ARM_UC_PreSharedKey_GetSecret gcp (Some k) 128 s =
    (if length val \<le> 16
     then Some (ERR_NONE,
       Some (if status = CCS_STATUS_SUCCESS then Some (val @ replicate (16 - length val) 0) else k),
       s\<lparr>pskbuffer := val @ replicate (16 - length val) 0\<rparr>)
     else None)"
  using assms by (auto simp: ARM_UC_PreSharedKey_GetSecret_def memset0_def wr_block_def Let_def)

theorem psk_nvstore_result_witness:
  "ARM_UC_PreSharedKey_GetSecret (\<lambda>n. (CCS_STATUS_KEY_DOESNT_EXIST, [])) (Some None) 128 psk_nvstore_init =
     Some (ERR_NONE, Some None, psk_nvstore_init) \<and>
   ARM_UC_PreSharedKey_GetSecret (\<lambda>n. (CCS_STATUS_SUCCESS, replicate 17 1)) (Some None) 128 psk_nvstore_init = None"
  using psk_nvstore_result[of psk_nvstore_init "\<lambda>n. (CCS_STATUS_KEY_DOESNT_EXIST, [])"
      CCS_STATUS_KEY_DOESNT_EXIST "[]" None]
    psk_nvstore_result[of psk_nvstore_init "\<lambda>n. (CCS_STATUS_SUCCESS, replicate 17 1)"
      CCS_STATUS_SUCCESS "replicate 17 1" None]
  by (simp add: psk_nvstore_init_def)

lemma psk_raw_roundtrip:
  "ARM_UC_PreSharedKey_GetSecret_raw (Some k) bits' (snd (ARM_UC_PreSharedKey_SetSecret_raw key bits s)) =
     (if bits' = bits then (ERR_NONE, Some key) else (ERR_INVALID_PARAMETER, Some k))"
  by (simp add: ARM_UC_PreSharedKey_GetSecret_raw_def ARM_UC_PreSharedKey_SetSecret_raw_def)

end
