(* ===== verification/UC_World.thy ===== *)
theory UC_World
  imports UC_Types UC_Utilities UC_Scheduler
begin

text \<open>
  What the components of the update client share besides the scheduler: the functions whose
  address the program takes, the storages of its callbacks, the buffers it passes by pointer, and
  the code outside of the model.

  Storage drivers, download sources, the monitor, the manifest manager, the platform and the
  application are called through function pointers or are libraries; a call to one of them is
  recorded in the state, newest first, and answered by an \<open>environment\<close> that may look at all the calls
  made so far. A property that holds for every environment holds whatever those parts do.
\<close>

subsection \<open>Callbacks\<close>

datatype cb_storage =
  Cb_arm_uccc_authorize_callback | Cb_arm_uccc_reject_callback | Cb_arm_uccc_monitor_callback
  | Cb_arm_uccc_override_callback | Cb_arm_uc_event_handler_callback | Cb_event_cb_storage
  | Cb_async_retry_timer_callback_struct | Cb_applicationCallbackStorage | Cb_insert_callbackStorage
  | Cb_getFw_callbackStorage

text \<open>
  Functions used as callbacks. \<open>Fn_App n\<close> is a function of the application.
\<close>

datatype uc_fn =
  Fn_arm_uccc_override_task
  | Fn_ARM_UC_HUB_ControlCenterEventHandler
  | Fn_ARM_UC_HUB_FirmwareManagerEventHandler
  | Fn_ARM_UC_HUB_SourceManagerEventHandler
  | Fn_ARM_UC_HUB_ManifestManagerEventHandler
  | Fn_arm_uc_internal_event_handler
  | Fn_ARM_UCSM_DoAsyncBusyRetryGet
  | Fn_ARM_UC_mmCallbackFSMEntry
  | Fn_UC_HUB_scheduler_error_handler
  | Fn_App nat

subsection \<open>Buffers\<close>

text \<open>
  The update client passes two buffers around by address: the hub's \<open>front_buffer\<close> and
  \<open>back_buffer\<close> point to the buffers on \<open>message\<close> and \<open>message2\<close>. The other addresses are for
  buffers of a caller.
\<close>

datatype buf_addr = Buf_message | Buf_message2 | Buf_other nat

type_synonym buffers = "buf_addr \<Rightarrow> arm_uc_buffer_t"

subsection \<open>Calls out of the model\<close>

datatype ext_call =
  PAAL_SetStorage nat
  | PAAL_Initialize
  | PAAL_GetCapabilities
  | PAAL_GetMaxID
  | PAAL_Prepare u32 arm_uc_firmware_details_t buf_addr
  | PAAL_Write u32 u32 bytes
  | PAAL_Finalize u32
  | PAAL_Read u32 u32 buf_addr u32
  | PAAL_Activate u32
  | PAAL_GetActiveFirmwareDetails
  | PAAL_GetFirmwareDetails u32
  | PAAL_GetInstallerDetails
  | MON_Initialize
  | MON_SendState u32
  | MON_SendUpdateResult u32
  | MON_SendName bytes
  | MON_SendVersion u64
  | MON_SetBootloaderHash bytes
  | MON_SetOEMBootloaderHash bytes
  | APP_Authority uc_fn u32
  | APP_PriorityAuthority uc_fn u32 u64
  | APP_Progress uc_fn u32 u32
  | APP_Error uc_fn u32
  | APP_Initialized uc_fn u32
  | SRC_Initialize nat
  | SRC_Uninitialize nat
  | SRC_GetCapabilities nat
  | SRC_GetCost nat u32
  | SRC_GetManifestDefault nat "buf_addr option" u32
  | SRC_GetManifestURL nat "arm_uc_uri_t option" "buf_addr option" u32
  | SRC_GetFirmwareFragment nat "arm_uc_uri_t option" "buf_addr option" u32
  | SRC_GetKeytableURL nat "arm_uc_uri_t option" "buf_addr option"
  | PAL_TimerCreate
  | PAL_TimerStart
  | PAL_TimerStop
  | MM_InsertFSM u32 "bytes option"
  | MM_FetchFirmwareInfoFSM u32
  | DI_SetGUID nat bytes
  | DI_GetGUID nat
  | PLAT_reboot

text \<open>What the application does inside a callback: calls into the control center.\<close>

datatype app_action =
  Act_Authorize u32
  | Act_Reject u32 u32

record reply =
  rcode :: arm_uc_error_t
  rnum :: u32
  rbytes :: bytes
  rdetails :: arm_uc_firmware_details_t
  rinstaller :: arm_uc_installer_details_t
  ractions :: "app_action list"

type_synonym environment = "ext_call list \<Rightarrow> reply"

subsection \<open>State\<close>

record uc0 = "(cb_storage, uc_fn) sched" +
  trace :: "ext_call list"
  mem :: buffers

definition ext :: "environment \<Rightarrow> ext_call \<Rightarrow> 'z uc0_scheme \<Rightarrow> reply \<times> 'z uc0_scheme" where
  "ext w c s = (w (c # trace s), s\<lparr>trace := c # trace s\<rparr>)"

definition set_buf :: "buf_addr \<Rightarrow> arm_uc_buffer_t \<Rightarrow> 'z uc0_scheme \<Rightarrow> 'z uc0_scheme" where
  "set_buf a b s = s\<lparr>mem := (mem s)(a := b)\<rparr>"

text \<open>A post whose result the code ignores.\<close>

definition post :: "cb_storage \<Rightarrow> uc_fn option \<Rightarrow> u32 \<Rightarrow> 'z uc0_scheme \<Rightarrow> 'z uc0_scheme" where
  "post st f param s = snd (ARM_UC_PostCallback (Some st) f param s)"

text \<open>Calls to other parts leave the scheduler alone.\<close>

lemma sched_rep_uc0 [simp]:
  "sched_rep (s\<lparr>trace := t\<rparr>) qs fs = sched_rep s qs fs"
  "sched_rep (s\<lparr>mem := m\<rparr>) qs fs = sched_rep s qs fs"
  "entry (s\<lparr>trace := t\<rparr>) = entry s"
  "entry (s\<lparr>mem := m\<rparr>) = entry s"
  by (auto simp: sched_rep_def entry_def fun_eq_iff)

lemma pending_rep_uc0 [simp]:
  "pending_rep (s\<lparr>trace := t\<rparr>) ps = pending_rep s ps"
  "pending_rep (s\<lparr>mem := m\<rparr>) ps = pending_rep s ps"
  by (simp_all add: pending_rep_def)

lemma pending_ext [simp]: "pending_rep (snd (ext w c s)) ps = pending_rep s ps"
  by (simp add: ext_def)

text \<open>A post touches the fields of the scheduler only.\<close>

lemma post_shape:
  "\<exists>h q r p n. post st f param s = s\<lparr>elems := h, arm_uc_queue := q, callback_pool_root := r,
     callbacks_pending := p, notifications := n\<rparr>"
  unfolding post_def ARM_UC_PostCallback_def
  using post_frame[OF surjective_pairing] by blast

lemma post_uc0 [simp]:
  "trace (post st f param s) = trace s"
  "mem (post st f param s) = mem s"
  "plugin_error_pending (post st f param s) = plugin_error_pending s"
  "notification_set (post st f param s) = notification_set s"
  "scheduler_error_cb (post st f param s) = scheduler_error_cb s"
  using post_shape[of st f param s] by auto

lemma post_appends:
  assumes "pending_rep s ps" and "length ps < 32"
  shows "pending_rep (post st (Some f) param s) (ps @ [(f, ATOMIC_QUEUE_NO_CONTEXT, param)])"
proof -
  obtain ok s' where P: "ARM_UC_PostCallbackCtx (Some st) ATOMIC_QUEUE_NO_CONTEXT (Some f) param s = (ok, s')"
    by fastforce
  have ok: "ok" using post_room[OF assms(1) _ assms(2), of ATOMIC_QUEUE_NO_CONTEXT "Some st" f param] P by simp
  show ?thesis using post_pending[OF assms(1) _ P] ok P
    by (simp add: post_def ARM_UC_PostCallback_def)
qed

text \<open>Only three fields matter to what is pending.\<close>

lemma pending_rep_cong:
  assumes "elems s' = elems s" and "arm_uc_queue s' = arm_uc_queue s"
    and "callback_pool_root s' = callback_pool_root s"
  shows "pending_rep s' ps = pending_rep s ps"
proof -
  have "entry s' = entry s" using assms(1) by (simp add: entry_def fun_eq_iff)
  then show ?thesis using assms by (simp add: pending_rep_def sched_rep_def)
qed


lemma pool_init_shape: "\<exists>h. pool_init_loop i n s = s\<lparr>elems := h\<rparr>"
proof (induction n arbitrary: i s)
  case 0
  have "s = s\<lparr>elems := elems s\<rparr>" by simp
  then show ?case by (metis pool_init_loop.simps(1))
next
  case (Suc n)
  show ?case
    using Suc[of "Suc i" "set_elem (Pool i) ((elems s (Pool i))\<lparr>next := Some (Pool (i + 1)), lock := POOL_WATERMARK\<rparr>) s"]
    by (auto simp: set_elem_def)
qed

lemma SchedulerInit_shape:
  "\<exists>h. ARM_UC_SchedulerInit s =
     s\<lparr>callback_pool_root := Some (Pool 0), elems := h, callbacks_pending := 0, plugin_error_pending := 0\<rparr>"
proof -
  obtain h where "pool_init_loop 0 31 (s\<lparr>callback_pool_root := Some (Pool 0)\<rparr>) =
      s\<lparr>callback_pool_root := Some (Pool 0), elems := h\<rparr>" using pool_init_shape by blast
  then show ?thesis by (simp add: ARM_UC_SchedulerInit_def Let_def set_elem_def) (rule exI, rule refl)
qed

end
