(* ===== verification/UC_Control_Center.thy ===== *)
theory UC_Control_Center
  imports UC_World
begin

text \<open>
  \<open>modules/control-center/source/arm_uc_control_center.c\<close>: the authorizations the application
  gives or refuses, and the reports to the monitor. A request arms a token; an answer is accepted
  only while its token is armed, disarms it and posts one event to the hub. The answers the
  application gives inside its callback are part of the reply of the environment; an answer given
  later is a call to \<open>Authorize\<close> or \<open>Reject\<close> of its own.

  The local test configuration (\<open>TEST_USING_LOCAL_SOURCES\<close>) is not modelled.
\<close>

subsection \<open>State\<close>

record arm_update_monitor =
  has_SetBootloaderHash :: bool
  has_SetOEMBootloaderHash :: bool

record cc = uc0 +
  arm_uccc_event_handler :: "uc_fn option"
  arm_uc_authority_callback :: "uc_fn option"
  arm_uc_authority_priority_callback :: "uc_fn option"
  arm_uc_download_token_armed :: bool
  arm_uc_install_token_armed :: bool
  arm_uc_progress_callback :: "uc_fn option"
  arm_uc_monitor_struct :: "arm_update_monitor option"

abbreviation (input) ARM_UCCC_REQUEST_INVALID :: u32 where "ARM_UCCC_REQUEST_INVALID \<equiv> 0"
abbreviation (input) ARM_UCCC_REQUEST_DOWNLOAD :: u32 where "ARM_UCCC_REQUEST_DOWNLOAD \<equiv> 1"
abbreviation (input) ARM_UCCC_REQUEST_INSTALL :: u32 where "ARM_UCCC_REQUEST_INSTALL \<equiv> 2"

abbreviation (input) ARM_UCCC_REJECT_REASON_UNAUTHORIZED :: u32 where
  "ARM_UCCC_REJECT_REASON_UNAUTHORIZED \<equiv> 0"
abbreviation (input) ARM_UCCC_REJECT_REASON_UNAVAILABLE :: u32 where
  "ARM_UCCC_REJECT_REASON_UNAVAILABLE \<equiv> 1"

abbreviation (input) ARM_UCCC_EVENT_AUTHORIZE_DOWNLOAD :: u32 where "ARM_UCCC_EVENT_AUTHORIZE_DOWNLOAD \<equiv> 0"
abbreviation (input) ARM_UCCC_EVENT_REJECT_DOWNLOAD :: u32 where "ARM_UCCC_EVENT_REJECT_DOWNLOAD \<equiv> 1"
abbreviation (input) ARM_UCCC_EVENT_UNAVAILABLE_DOWNLOAD :: u32 where "ARM_UCCC_EVENT_UNAVAILABLE_DOWNLOAD \<equiv> 2"
abbreviation (input) ARM_UCCC_EVENT_AUTHORIZE_INSTALL :: u32 where "ARM_UCCC_EVENT_AUTHORIZE_INSTALL \<equiv> 3"
abbreviation (input) ARM_UCCC_EVENT_REJECT_INSTALL :: u32 where "ARM_UCCC_EVENT_REJECT_INSTALL \<equiv> 4"
abbreviation (input) ARM_UCCC_EVENT_UNAVAILABLE_INSTALL :: u32 where "ARM_UCCC_EVENT_UNAVAILABLE_INSTALL \<equiv> 5"
abbreviation (input) ARM_UCCC_EVENT_MONITOR_SEND_DONE :: u32 where "ARM_UCCC_EVENT_MONITOR_SEND_DONE \<equiv> 6"

subsection \<open>Setting up\<close>

definition ARM_UC_ControlCenter_Notification_Handler :: "'z cc_scheme \<Rightarrow> 'z cc_scheme" where
  "ARM_UC_ControlCenter_Notification_Handler s =
     (if arm_uccc_event_handler s \<noteq> None
      then post Cb_arm_uccc_monitor_callback (arm_uccc_event_handler s) ARM_UCCC_EVENT_MONITOR_SEND_DONE s
      else s)"

definition ARM_UC_ControlCenter_Initialize ::
    "uc_fn option \<Rightarrow> 'z cc_scheme \<Rightarrow> arm_uc_error_t \<times> 'z cc_scheme" where
  "ARM_UC_ControlCenter_Initialize cb s = (ERR_NONE, s\<lparr>arm_uccc_event_handler := cb\<rparr>)"

definition ARM_UC_ControlCenter_AddMonitor ::
    "environment \<Rightarrow> arm_update_monitor option \<Rightarrow> 'z cc_scheme \<Rightarrow> arm_uc_error_t \<times> 'z cc_scheme" where
  "ARM_UC_ControlCenter_AddMonitor w monitor s =
     (let s = s\<lparr>arm_uc_monitor_struct := monitor\<rparr> in
      if arm_uc_monitor_struct s \<noteq> None
      then (let (r, s) = ext w MON_Initialize s in (rcode r, s))
      else (ERR_INVALID_PARAMETER, s))"

definition ARM_UC_ControlCenter_SetProgressHandler ::
    "uc_fn option \<Rightarrow> 'z cc_scheme \<Rightarrow> arm_uc_error_t \<times> 'z cc_scheme" where
  "ARM_UC_ControlCenter_SetProgressHandler cb s = (ERR_NONE, s\<lparr>arm_uc_progress_callback := cb\<rparr>)"

definition ARM_UC_ControlCenter_SetAuthorityHandler ::
    "uc_fn option \<Rightarrow> 'z cc_scheme \<Rightarrow> arm_uc_error_t \<times> 'z cc_scheme" where
  "ARM_UC_ControlCenter_SetAuthorityHandler cb s = (ERR_NONE, s\<lparr>arm_uc_authority_callback := cb\<rparr>)"

definition ARM_UC_ControlCenter_SetPriorityAuthorityHandler ::
    "uc_fn option \<Rightarrow> 'z cc_scheme \<Rightarrow> arm_uc_error_t \<times> 'z cc_scheme" where
  "ARM_UC_ControlCenter_SetPriorityAuthorityHandler cb s =
     (ERR_NONE, s\<lparr>arm_uc_authority_priority_callback := cb\<rparr>)"

subsection \<open>Answers to requests\<close>

definition ARM_UC_ControlCenter_Authorize :: "u32 \<Rightarrow> 'z cc_scheme \<Rightarrow> arm_uc_error_t \<times> 'z cc_scheme" where
  "ARM_UC_ControlCenter_Authorize request s =
     (if request = ARM_UCCC_REQUEST_DOWNLOAD then
        (if arm_uccc_event_handler s \<noteq> None \<and> arm_uc_download_token_armed s
         then (ERR_NONE,
               post Cb_arm_uccc_authorize_callback (arm_uccc_event_handler s)
                 ARM_UCCC_EVENT_AUTHORIZE_DOWNLOAD (s\<lparr>arm_uc_download_token_armed := False\<rparr>))
         else (ERR_INVALID_PARAMETER, s))
      else if request = ARM_UCCC_REQUEST_INSTALL then
        (if arm_uccc_event_handler s \<noteq> None \<and> arm_uc_install_token_armed s
         then (ERR_NONE,
               post Cb_arm_uccc_authorize_callback (arm_uccc_event_handler s)
                 ARM_UCCC_EVENT_AUTHORIZE_INSTALL (s\<lparr>arm_uc_install_token_armed := False\<rparr>))
         else (ERR_INVALID_PARAMETER, s))
      else (ERR_INVALID_PARAMETER, s))"

text \<open>
  The event of a rejection; the code assigns none for a reason outside of the enumeration, and
  then posts the uninitialised variable. Its value is \<open>None\<close> here, and so is the call.
\<close>

definition reject_event :: "u32 \<Rightarrow> u32 \<Rightarrow> u32 \<Rightarrow> u32 option" where
  "reject_event reason rejected unavailable =
     (if reason = ARM_UCCC_REJECT_REASON_UNAUTHORIZED then Some rejected
      else if reason = ARM_UCCC_REJECT_REASON_UNAVAILABLE then Some unavailable
      else None)"

definition ARM_UC_ControlCenter_Reject ::
    "u32 \<Rightarrow> u32 \<Rightarrow> 'z cc_scheme \<Rightarrow> (arm_uc_error_t \<times> 'z cc_scheme) option" where
  "ARM_UC_ControlCenter_Reject request reason s =
     (if request = ARM_UCCC_REQUEST_DOWNLOAD then
        (if arm_uccc_event_handler s \<noteq> None \<and> arm_uc_download_token_armed s
         then do {
           event \<leftarrow> reject_event reason ARM_UCCC_EVENT_REJECT_DOWNLOAD ARM_UCCC_EVENT_UNAVAILABLE_DOWNLOAD;
           Some (ERR_NONE,
             post Cb_arm_uccc_reject_callback (arm_uccc_event_handler s) event
               (s\<lparr>arm_uc_download_token_armed := False\<rparr>)) }
         else Some (ERR_INVALID_PARAMETER, s))
      else if request = ARM_UCCC_REQUEST_INSTALL then
        (if arm_uccc_event_handler s \<noteq> None \<and> arm_uc_install_token_armed s
         then do {
           event \<leftarrow> reject_event reason ARM_UCCC_EVENT_REJECT_INSTALL ARM_UCCC_EVENT_UNAVAILABLE_INSTALL;
           Some (ERR_NONE,
             post Cb_arm_uccc_reject_callback (arm_uccc_event_handler s) event
               (s\<lparr>arm_uc_install_token_armed := False\<rparr>)) }
         else Some (ERR_INVALID_PARAMETER, s))
      else Some (ERR_INVALID_PARAMETER, s))"

subsection \<open>Requests\<close>

fun app_react :: "app_action list \<Rightarrow> 'z cc_scheme \<Rightarrow> 'z cc_scheme option" where
  "app_react [] s = Some s"
| "app_react (Act_Authorize request # as) s = app_react as (snd (ARM_UC_ControlCenter_Authorize request s))"
| "app_react (Act_Reject request reason # as) s = do {
     (_, s) \<leftarrow> ARM_UC_ControlCenter_Reject request reason s;
     app_react as s
   }"

definition call_authority ::
    "environment \<Rightarrow> u32 \<Rightarrow> u64 \<Rightarrow> 'z cc_scheme \<Rightarrow> 'z cc_scheme option" where
  "call_authority w request priority s =
     (case arm_uc_authority_priority_callback s of
        Some f \<Rightarrow> (let (r, s) = ext w (APP_PriorityAuthority f request priority) s in app_react (ractions r) s)
      | None \<Rightarrow>
          (case arm_uc_authority_callback s of
             Some f \<Rightarrow> (let (r, s) = ext w (APP_Authority f request) s in app_react (ractions r) s)
           | None \<Rightarrow> Some (snd (ARM_UC_ControlCenter_Authorize request s))))"

definition ARM_UC_ControlCenter_GetAuthorization ::
    "environment \<Rightarrow> u32 \<Rightarrow> u64 \<Rightarrow> 'z cc_scheme \<Rightarrow> (arm_uc_error_t \<times> 'z cc_scheme) option"
where
  "ARM_UC_ControlCenter_GetAuthorization w request priority s =
     (if request = ARM_UCCC_REQUEST_DOWNLOAD then do {
        s \<leftarrow> call_authority w ARM_UCCC_REQUEST_DOWNLOAD priority (s\<lparr>arm_uc_download_token_armed := True\<rparr>);
        Some (ERR_NONE, s) }
      else if request = ARM_UCCC_REQUEST_INSTALL then do {
        s \<leftarrow> call_authority w ARM_UCCC_REQUEST_INSTALL priority (s\<lparr>arm_uc_install_token_armed := True\<rparr>);
        Some (ERR_NONE, s) }
      else Some (ERR_INVALID_PARAMETER, s))"

definition ARM_UC_ControlCenter_OverrideAuthorization :: "'z cc_scheme \<Rightarrow> 'z cc_scheme" where
  "ARM_UC_ControlCenter_OverrideAuthorization s =
     post Cb_arm_uccc_override_callback (Some Fn_arm_uccc_override_task) 0 s"

text \<open>\<open>call\<close> is the call through the pointer to the event handler.\<close>

definition arm_uccc_override_task ::
    "(uc_fn \<Rightarrow> u32 \<Rightarrow> 'z cc_scheme \<Rightarrow> 'z cc_scheme option) \<Rightarrow> 'z cc_scheme \<Rightarrow> 'z cc_scheme option" where
  "arm_uccc_override_task call s = do {
     s \<leftarrow> (if arm_uc_download_token_armed s then
             let s = s\<lparr>arm_uc_download_token_armed := False\<rparr> in
             (case arm_uccc_event_handler s of None \<Rightarrow> Some s
              | Some f \<Rightarrow> call f ARM_UCCC_EVENT_AUTHORIZE_DOWNLOAD s)
           else if arm_uc_install_token_armed s then
             let s = s\<lparr>arm_uc_install_token_armed := False\<rparr> in
             (case arm_uccc_event_handler s of None \<Rightarrow> Some s
              | Some f \<Rightarrow> call f ARM_UCCC_EVENT_AUTHORIZE_INSTALL s)
           else Some s);
     Some (s\<lparr>arm_uc_authority_callback := None\<rparr>)
   }"

subsection \<open>Reports\<close>

definition ARM_UC_ControlCenter_ReportProgress ::
    "environment \<Rightarrow> u32 \<Rightarrow> u32 \<Rightarrow> 'z cc_scheme \<Rightarrow> arm_uc_error_t \<times> 'z cc_scheme" where
  "ARM_UC_ControlCenter_ReportProgress w progress amount s =
     (ERR_NONE,
      case arm_uc_progress_callback s of None \<Rightarrow> s
      | Some f \<Rightarrow> snd (ext w (APP_Progress f progress amount) s))"

definition monitor_send :: "environment \<Rightarrow> ext_call \<Rightarrow> 'z cc_scheme \<Rightarrow> arm_uc_error_t \<times> 'z cc_scheme" where
  "monitor_send w c s =
     (if arm_uc_monitor_struct s \<noteq> None then (ERR_NONE, snd (ext w c s))
      else (ERR_INVALID_PARAMETER, s))"

definition ARM_UC_ControlCenter_ReportState ::
    "environment \<Rightarrow> u32 \<Rightarrow> 'z cc_scheme \<Rightarrow> arm_uc_error_t \<times> 'z cc_scheme" where
  "ARM_UC_ControlCenter_ReportState w state s = monitor_send w (MON_SendState state) s"

definition ARM_UC_ControlCenter_ReportUpdateResult ::
    "environment \<Rightarrow> u32 \<Rightarrow> 'z cc_scheme \<Rightarrow> arm_uc_error_t \<times> 'z cc_scheme" where
  "ARM_UC_ControlCenter_ReportUpdateResult w updateResult s =
     monitor_send w (MON_SendUpdateResult updateResult) s"

definition ARM_UC_ControlCenter_ReportName ::
    "environment \<Rightarrow> arm_uc_buffer_t \<Rightarrow> 'z cc_scheme \<Rightarrow> arm_uc_error_t \<times> 'z cc_scheme" where
  "ARM_UC_ControlCenter_ReportName w nm s =
     monitor_send w (MON_SendName (take (unat (bsize nm)) (ptr nm))) s"

definition ARM_UC_ControlCenter_ReportVersion ::
    "environment \<Rightarrow> u64 \<Rightarrow> 'z cc_scheme \<Rightarrow> arm_uc_error_t \<times> 'z cc_scheme" where
  "ARM_UC_ControlCenter_ReportVersion w v s = monitor_send w (MON_SendVersion v) s"

definition ARM_UC_ControlCenter_ReportBootloaderHash ::
    "environment \<Rightarrow> arm_uc_buffer_t \<Rightarrow> 'z cc_scheme \<Rightarrow> arm_uc_error_t \<times> 'z cc_scheme" where
  "ARM_UC_ControlCenter_ReportBootloaderHash w h s =
     (case arm_uc_monitor_struct s of
        None \<Rightarrow> (ERR_INVALID_PARAMETER, s)
      | Some m \<Rightarrow>
          (if has_SetBootloaderHash m
           then (let (r, s) = ext w (MON_SetBootloaderHash (take (unat (bsize h)) (ptr h))) s in (rcode r, s))
           else (ERR_INVALID_PARAMETER, s)))"

definition ARM_UC_ControlCenter_ReportOEMBootloaderHash ::
    "environment \<Rightarrow> arm_uc_buffer_t \<Rightarrow> 'z cc_scheme \<Rightarrow> arm_uc_error_t \<times> 'z cc_scheme" where
  "ARM_UC_ControlCenter_ReportOEMBootloaderHash w h s =
     (case arm_uc_monitor_struct s of
        None \<Rightarrow> (ERR_INVALID_PARAMETER, s)
      | Some m \<Rightarrow>
          (if has_SetOEMBootloaderHash m
           then (let (r, s) = ext w (MON_SetOEMBootloaderHash (take (unat (bsize h)) (ptr h))) s in (rcode r, s))
           else (ERR_INVALID_PARAMETER, s)))"

subsection \<open>An answer is given once\<close>

lemma post_cc [simp]:
  "arm_uccc_event_handler (post st f param s) = arm_uccc_event_handler s"
  "arm_uc_authority_callback (post st f param s) = arm_uc_authority_callback s"
  "arm_uc_authority_priority_callback (post st f param s) = arm_uc_authority_priority_callback s"
  "arm_uc_download_token_armed (post st f param s) = arm_uc_download_token_armed s"
  "arm_uc_install_token_armed (post st f param s) = arm_uc_install_token_armed s"
  "arm_uc_progress_callback (post st f param s) = arm_uc_progress_callback s"
  "arm_uc_monitor_struct (post st f param s) = arm_uc_monitor_struct s"
  using post_shape[of st f param s] by auto

lemma sched_rep_cc [simp]:
  "pending_rep (s\<lparr>arm_uc_download_token_armed := b\<rparr>) ps = pending_rep s ps"
  "pending_rep (s\<lparr>arm_uc_install_token_armed := b\<rparr>) ps = pending_rep s ps"
  "pending_rep (s\<lparr>arm_uc_authority_callback := c\<rparr>) ps = pending_rep s ps"
  by (rule pending_rep_cong; simp)+

text \<open>The events that answer a request for a download, and those that answer one to install.\<close>

definition download_event :: "u32 \<Rightarrow> bool" where
  "download_event e = (e \<in> {ARM_UCCC_EVENT_AUTHORIZE_DOWNLOAD, ARM_UCCC_EVENT_REJECT_DOWNLOAD,
     ARM_UCCC_EVENT_UNAVAILABLE_DOWNLOAD})"

definition install_event :: "u32 \<Rightarrow> bool" where
  "install_event e = (e \<in> {ARM_UCCC_EVENT_AUTHORIZE_INSTALL, ARM_UCCC_EVENT_REJECT_INSTALL,
     ARM_UCCC_EVENT_UNAVAILABLE_INSTALL})"

text \<open>
  \<open>s'\<close> is reached from \<open>s\<close> by answers: one event is pending for each token that was used up, and
  nothing else was posted.
\<close>

definition answered :: "uc_fn \<Rightarrow> (uc_fn \<times> u32 \<times> u32) list \<Rightarrow> 'z cc_scheme \<Rightarrow> 'z cc_scheme \<Rightarrow> u32 list \<Rightarrow> bool" where
  "answered h ps s s' evs \<longleftrightarrow>
     pending_rep s' (ps @ map (\<lambda>e. (h, ATOMIC_QUEUE_NO_CONTEXT, e)) evs) \<and>
     (\<forall>e \<in> set evs. download_event e \<or> install_event e) \<and>
     length (filter download_event evs) =
       of_bool (arm_uc_download_token_armed s \<and> \<not> arm_uc_download_token_armed s') \<and>
     length (filter install_event evs) =
       of_bool (arm_uc_install_token_armed s \<and> \<not> arm_uc_install_token_armed s') \<and>
     (arm_uc_download_token_armed s' \<longrightarrow> arm_uc_download_token_armed s) \<and>
     (arm_uc_install_token_armed s' \<longrightarrow> arm_uc_install_token_armed s) \<and>
     arm_uccc_event_handler s' = Some h"

lemma event_kinds [simp]:
  "download_event 0" "download_event 1" "download_event 2" "\<not> download_event 3" "\<not> download_event 4"
  "\<not> download_event 5" "\<not> install_event 0" "\<not> install_event 1" "\<not> install_event 2"
  "install_event 3" "install_event 4" "install_event 5"
  by (simp_all add: download_event_def install_event_def)

lemma answered_length:
  assumes "answered h ps s s' evs"
  shows "length evs = of_bool (arm_uc_download_token_armed s \<and> \<not> arm_uc_download_token_armed s')
     + of_bool (arm_uc_install_token_armed s \<and> \<not> arm_uc_install_token_armed s')"
proof -
  have "\<forall>e \<in> set evs. download_event e \<or> install_event e" using assms by (simp add: answered_def)
  then have "length evs = length (filter download_event evs) + length (filter install_event evs)"
    by (induction evs) (auto simp: download_event_def install_event_def)
  then show ?thesis using assms by (simp add: answered_def)
qed

lemma answered_download:
  assumes "answered h ps s s1 evs" and "arm_uc_download_token_armed s1" and "length ps < 31"
    and "download_event e"
  shows "answered h ps s (post st (Some h) e (s1\<lparr>arm_uc_download_token_armed := False\<rparr>)) (evs @ [e])"
proof -
  have "length evs \<le> 1" using answered_length[OF assms(1)] assms(2) by simp
  then have "pending_rep (post st (Some h) e (s1\<lparr>arm_uc_download_token_armed := False\<rparr>))
      ((ps @ map (\<lambda>e. (h, ATOMIC_QUEUE_NO_CONTEXT, e)) evs) @ [(h, ATOMIC_QUEUE_NO_CONTEXT, e)])"
    using assms by (intro post_appends) (simp_all add: answered_def)
  moreover have "\<not> install_event e" using assms(4) by (auto simp: download_event_def install_event_def)
  ultimately show ?thesis using assms by (auto simp: answered_def)
qed

lemma answered_install:
  assumes "answered h ps s s1 evs" and "arm_uc_install_token_armed s1" and "length ps < 31"
    and "install_event e"
  shows "answered h ps s (post st (Some h) e (s1\<lparr>arm_uc_install_token_armed := False\<rparr>)) (evs @ [e])"
proof -
  have "length evs \<le> 1" using answered_length[OF assms(1)] assms(2) by simp
  then have "pending_rep (post st (Some h) e (s1\<lparr>arm_uc_install_token_armed := False\<rparr>))
      ((ps @ map (\<lambda>e. (h, ATOMIC_QUEUE_NO_CONTEXT, e)) evs) @ [(h, ATOMIC_QUEUE_NO_CONTEXT, e)])"
    using assms by (intro post_appends) (simp_all add: answered_def)
  moreover have "\<not> download_event e" using assms(4) by (auto simp: download_event_def install_event_def)
  ultimately show ?thesis using assms by (auto simp: answered_def)
qed

lemma authorize_answers:
  assumes "answered h ps s s1 evs" and "length ps < 31"
  shows "\<exists>evs'. answered h ps s (snd (ARM_UC_ControlCenter_Authorize request s1)) evs'"
proof -
  have h: "arm_uccc_event_handler s1 = Some h" using assms by (simp add: answered_def)
  show ?thesis
    using answered_download[OF assms(1) _ assms(2), of 0 "Cb_arm_uccc_authorize_callback"]
      answered_install[OF assms(1) _ assms(2), of 3 "Cb_arm_uccc_authorize_callback"] assms(1) h
    unfolding ARM_UC_ControlCenter_Authorize_def by fastforce
qed

lemma reject_answers:
  assumes "answered h ps s s1 evs" and "length ps < 31"
    and "ARM_UC_ControlCenter_Reject request reason s1 = Some (r, s2)"
  shows "\<exists>evs'. answered h ps s s2 evs'"
proof -
  have h: "arm_uccc_event_handler s1 = Some h" using assms by (simp add: answered_def)
  have d: "\<exists>evs'. answered h ps s s2 evs'"
    if "arm_uc_download_token_armed s1" and "reject_event reason 1 2 = Some e" and
      "s2 = post Cb_arm_uccc_reject_callback (Some h) e (s1\<lparr>arm_uc_download_token_armed := False\<rparr>)" for e
    using answered_download[OF assms(1) that(1) assms(2), of e] that(2,3)
    by (auto simp: reject_event_def split: if_splits)
  have i: "\<exists>evs'. answered h ps s s2 evs'"
    if "arm_uc_install_token_armed s1" and "reject_event reason 4 5 = Some e" and
      "s2 = post Cb_arm_uccc_reject_callback (Some h) e (s1\<lparr>arm_uc_install_token_armed := False\<rparr>)" for e
    using answered_install[OF assms(1) that(1) assms(2), of e] that(2,3)
    by (auto simp: reject_event_def split: if_splits)
  have same: "\<exists>evs'. answered h ps s s1 evs'" using assms(1) by blast
  show ?thesis
  proof (cases "request = 1 \<and> arm_uc_download_token_armed s1 \<or> request = 2 \<and> arm_uc_install_token_armed s1")
    case False
    then have "s2 = s1" using assms(3) by (auto simp: ARM_UC_ControlCenter_Reject_def split: if_splits)
    then show ?thesis using same by simp
  next
    case True
    then show ?thesis
    proof
      assume a: "request = 1 \<and> arm_uc_download_token_armed s1"
      then obtain e where "reject_event reason 1 2 = Some e" and
        "s2 = post Cb_arm_uccc_reject_callback (Some h) e (s1\<lparr>arm_uc_download_token_armed := False\<rparr>)"
        using assms(3) h by (auto simp: ARM_UC_ControlCenter_Reject_def bind_eq_Some_conv)
      then show ?thesis using d a by blast
    next
      assume a: "request = 2 \<and> arm_uc_install_token_armed s1"
      then obtain e where "reject_event reason 4 5 = Some e" and
        "s2 = post Cb_arm_uccc_reject_callback (Some h) e (s1\<lparr>arm_uc_install_token_armed := False\<rparr>)"
        using assms(3) h by (auto simp: ARM_UC_ControlCenter_Reject_def bind_eq_Some_conv)
      then show ?thesis using i a by blast
    qed
  qed
qed

lemma react_answers:
  assumes "answered h ps s s1 evs" and "length ps < 31" and "app_react as s1 = Some s2"
  shows "\<exists>evs'. answered h ps s s2 evs'"
  using assms(1,3)
proof (induction as arbitrary: s1 evs)
  case Nil
  then show ?case by auto
next
  case (Cons a as)
  show ?case
  proof (cases a)
    case (Act_Authorize request)
    then show ?thesis using Cons authorize_answers[OF Cons.prems(1) assms(2), of request] by auto
  next
    case (Act_Reject request reason)
    then show ?thesis using Cons reject_answers[OF Cons.prems(1) assms(2), of request reason]
      by (fastforce split: bind_splits)
  qed
qed

lemma answered_refl:
  "\<lbrakk>pending_rep s ps; arm_uccc_event_handler s = Some h\<rbrakk> \<Longrightarrow> answered h ps s s []"
  by (simp add: answered_def)

text \<open>
  C14. Whatever the application answers, and however often, a request is answered once: after any
  sequence of authorizations and rejections the hub has exactly one event pending for each token
  that was armed and is not any more, it is an event of that request, no other callback was
  posted, and no token was armed.
\<close>

theorem answered_once:
  assumes "pending_rep s ps" and "length ps < 31" and "arm_uccc_event_handler s = Some h"
    and "app_react as s = Some s'"
  shows "\<exists>evs. pending_rep s' (ps @ map (\<lambda>e. (h, ATOMIC_QUEUE_NO_CONTEXT, e)) evs) \<and>
     (\<forall>e \<in> set evs. download_event e \<or> install_event e) \<and>
     length (filter download_event evs) =
       of_bool (arm_uc_download_token_armed s \<and> \<not> arm_uc_download_token_armed s') \<and>
     length (filter install_event evs) =
       of_bool (arm_uc_install_token_armed s \<and> \<not> arm_uc_install_token_armed s') \<and>
     (arm_uc_download_token_armed s' \<longrightarrow> arm_uc_download_token_armed s) \<and>
     (arm_uc_install_token_armed s' \<longrightarrow> arm_uc_install_token_armed s)"
  using react_answers[OF answered_refl[OF assms(1,3)] assms(2,4)] unfolding answered_def by blast

definition cc_static :: cc where
  "cc_static = \<lparr>elems = (\<lambda>_. zero_element), arm_uc_queue = None, callback_pool_root = None,
     callbacks_pending = 0, plugin_error_pending = 0, notification_set = True, notifications = 0,
     scheduler_error_cb = None, trace = [], mem = (\<lambda>_. \<lparr>size_max = 0, bsize = 0, ptr = []\<rparr>),
     arm_uccc_event_handler = Some Fn_ARM_UC_HUB_ControlCenterEventHandler,
     arm_uc_authority_callback = Some (Fn_App 1), arm_uc_authority_priority_callback = Some (Fn_App 2),
     arm_uc_download_token_armed = True, arm_uc_install_token_armed = False,
     arm_uc_progress_callback = None, arm_uc_monitor_struct = None\<rparr>"

lemma cc_static_init: "pending_rep (ARM_UC_SchedulerInit cc_static) []"
  by (rule init_pending) (auto simp: cc_static_def zero_element_def)

theorem answered_once_witness:
  "\<exists>s'. app_react [Act_Authorize 1, Act_Authorize 1, Act_Reject 1 0] (ARM_UC_SchedulerInit cc_static) = Some s' \<and>
     (\<exists>evs. pending_rep s' (map (\<lambda>e. (Fn_ARM_UC_HUB_ControlCenterEventHandler, ATOMIC_QUEUE_NO_CONTEXT, e)) evs) \<and>
       length (filter download_event evs) = 1)"
proof -
  let ?s = "ARM_UC_SchedulerInit cc_static"
  have i: "arm_uccc_event_handler ?s = Some Fn_ARM_UC_HUB_ControlCenterEventHandler"
    "arm_uc_download_token_armed ?s" "\<not> arm_uc_install_token_armed ?s"
    using SchedulerInit_shape[of cc_static] by (auto simp: cc_static_def)
  obtain s' where r: "app_react [Act_Authorize 1, Act_Authorize 1, Act_Reject 1 0] ?s = Some s'"
    "\<not> arm_uc_download_token_armed s'"
    using i by (auto simp: ARM_UC_ControlCenter_Authorize_def ARM_UC_ControlCenter_Reject_def)
  show ?thesis using answered_once[OF cc_static_init _ i(1) r(1)] r i by auto
qed

subsection \<open>Requests and the override\<close>

lemma authorize_trace [simp]: "trace (snd (ARM_UC_ControlCenter_Authorize request s)) = trace s"
  by (auto simp: ARM_UC_ControlCenter_Authorize_def)

lemma reject_trace: "ARM_UC_ControlCenter_Reject request reason s = Some (r, s') \<Longrightarrow> trace s' = trace s"
  by (auto simp: ARM_UC_ControlCenter_Reject_def split: if_splits bind_splits)

lemma react_trace: "app_react as s = Some s' \<Longrightarrow> trace s' = trace s"
proof (induction as arbitrary: s)
  case (Cons a as)
  then show ?case by (cases a) (auto simp: reject_trace split: bind_splits)
qed simp

definition token_armed :: "u32 \<Rightarrow> 'z cc_scheme \<Rightarrow> bool" where
  "token_armed request s = (if request = ARM_UCCC_REQUEST_DOWNLOAD then arm_uc_download_token_armed s
     else arm_uc_install_token_armed s)"

definition authorize_event :: "u32 \<Rightarrow> u32" where
  "authorize_event request = (if request = ARM_UCCC_REQUEST_DOWNLOAD then ARM_UCCC_EVENT_AUTHORIZE_DOWNLOAD
     else ARM_UCCC_EVENT_AUTHORIZE_INSTALL)"

definition arm_token :: "u32 \<Rightarrow> 'z cc_scheme \<Rightarrow> 'z cc_scheme" where
  "arm_token request s = (if request = ARM_UCCC_REQUEST_DOWNLOAD then s\<lparr>arm_uc_download_token_armed := True\<rparr>
     else s\<lparr>arm_uc_install_token_armed := True\<rparr>)"

lemma arm_token [simp]:
  "token_armed request (arm_token request s)"
  "trace (arm_token request s) = trace s"
  "pending_rep (arm_token request s) ps = pending_rep s ps"
  "arm_uccc_event_handler (arm_token request s) = arm_uccc_event_handler s"
  "arm_uc_authority_callback (arm_token request s) = arm_uc_authority_callback s"
  "arm_uc_authority_priority_callback (arm_token request s) = arm_uc_authority_priority_callback s"
  by (simp_all add: token_armed_def arm_token_def)

lemma get_authorization:
  assumes "request \<in> {ARM_UCCC_REQUEST_DOWNLOAD, ARM_UCCC_REQUEST_INSTALL}"
  shows "ARM_UC_ControlCenter_GetAuthorization w request priority s =
    map_option (Pair ERR_NONE) (call_authority w request priority (arm_token request s))"
  using assms by (auto simp: ARM_UC_ControlCenter_GetAuthorization_def arm_token_def
      split: bind_splits option.splits)

lemma authorize_armed:
  assumes "request \<in> {ARM_UCCC_REQUEST_DOWNLOAD, ARM_UCCC_REQUEST_INSTALL}"
    and "token_armed request s" and "arm_uccc_event_handler s = Some h" and "pending_rep s ps"
    and "length ps < 32"
  shows "pending_rep (snd (ARM_UC_ControlCenter_Authorize request s))
      (ps @ [(h, ATOMIC_QUEUE_NO_CONTEXT, authorize_event request)])"
    and "\<not> token_armed request (snd (ARM_UC_ControlCenter_Authorize request s))"
  using assms post_appends[of s ps]
  by (auto simp: ARM_UC_ControlCenter_Authorize_def token_armed_def authorize_event_def intro!: post_appends)

lemma call_asked:
  assumes "call_authority w request priority s = Some s'"
    and "arm_uc_authority_priority_callback s \<noteq> None \<or> arm_uc_authority_callback s \<noteq> None"
  shows "trace s' = (case arm_uc_authority_priority_callback s of
       Some f \<Rightarrow> APP_PriorityAuthority f request priority
     | None \<Rightarrow> APP_Authority (the (arm_uc_authority_callback s)) request) # trace s"
    and "ractions (w (trace s')) = [] \<Longrightarrow> s' = s\<lparr>trace := trace s'\<rparr>"
proof -
  obtain c where c: "app_react (ractions (w (c # trace s))) (s\<lparr>trace := c # trace s\<rparr>) = Some s'"
    "c = (case arm_uc_authority_priority_callback s of
       Some f \<Rightarrow> APP_PriorityAuthority f request priority
     | None \<Rightarrow> APP_Authority (the (arm_uc_authority_callback s)) request)"
    using assms by (auto simp: call_authority_def ext_def Let_def split: option.splits)
  moreover have t: "trace s' = c # trace s" using react_trace[OF c(1)] by simp
  ultimately show "trace s' = (case arm_uc_authority_priority_callback s of
       Some f \<Rightarrow> APP_PriorityAuthority f request priority
     | None \<Rightarrow> APP_Authority (the (arm_uc_authority_callback s)) request) # trace s" by simp
  assume "ractions (w (trace s')) = []"
  with c(1) t show "s' = s\<lparr>trace := trace s'\<rparr>" by simp
qed

text \<open>
  C15. A request for an authorization arms its token and asks the application once, through the
  callback with a priority when there is one; while the application does not answer, nothing is
  posted and the token stays armed. Without any callback the request is authorized at once: the
  token is used up and exactly the authorization is pending for the hub.
\<close>

theorem authorization_requested:
  assumes "request \<in> {ARM_UCCC_REQUEST_DOWNLOAD, ARM_UCCC_REQUEST_INSTALL}"
    and "arm_uccc_event_handler s = Some h" and "pending_rep s ps" and "length ps < 32"
    and "ARM_UC_ControlCenter_GetAuthorization w request priority s = Some (r, s')"
  shows "r = ERR_NONE \<and>
    (if arm_uc_authority_priority_callback s = None \<and> arm_uc_authority_callback s = None
     then trace s' = trace s \<and> \<not> token_armed request s' \<and>
       pending_rep s' (ps @ [(h, ATOMIC_QUEUE_NO_CONTEXT, authorize_event request)])
     else trace s' = (case arm_uc_authority_priority_callback s of
           Some f \<Rightarrow> APP_PriorityAuthority f request priority
         | None \<Rightarrow> APP_Authority (the (arm_uc_authority_callback s)) request) # trace s \<and>
       (ractions (w (trace s')) = [] \<longrightarrow> token_armed request s' \<and> pending_rep s' ps))"
proof -
  let ?a = "arm_token request s"
  from assms(5) have c: "call_authority w request priority ?a = Some s'" and r: "r = ERR_NONE"
    using get_authorization[OF assms(1), of w priority s] by auto
  show ?thesis
  proof (cases "arm_uc_authority_priority_callback s = None \<and> arm_uc_authority_callback s = None")
    case True
    then have "s' = snd (ARM_UC_ControlCenter_Authorize request ?a)" using c by (simp add: call_authority_def)
    then show ?thesis using authorize_armed[OF assms(1), of ?a h ps] assms r True by simp
  next
    case False
    then have t: "trace s' = (case arm_uc_authority_priority_callback s of
           Some f \<Rightarrow> APP_PriorityAuthority f request priority
         | None \<Rightarrow> APP_Authority (the (arm_uc_authority_callback s)) request) # trace s"
      and q: "ractions (w (trace s')) = [] \<longrightarrow> s' = ?a\<lparr>trace := trace s'\<rparr>"
      using call_asked[OF c] by (auto split: option.splits)
    have "token_armed request (?a\<lparr>trace := t\<rparr>)" "pending_rep (?a\<lparr>trace := t\<rparr>) ps" for t
      using assms(3) by (simp_all add: token_armed_def arm_token_def)
    then have "ractions (w (trace s')) = [] \<longrightarrow> token_armed request s' \<and> pending_rep s' ps"
      using q by metis
    then show ?thesis using t r False by auto
  qed
qed

theorem authorization_requested_witness:
  "\<exists>s'. ARM_UC_ControlCenter_GetAuthorization (\<lambda>_. \<lparr>rcode = 0, rnum = 0, rbytes = [], rdetails = no_details,
        rinstaller = \<lparr>arm_hash = [], oem_hash = [], layout = 0\<rparr>, ractions = []\<rparr>) 2 7
      (ARM_UC_SchedulerInit cc_static) = Some (ERR_NONE, s') \<and>
     trace s' = [APP_PriorityAuthority (Fn_App 2) 2 7] \<and> token_armed 2 s' \<and> pending_rep s' []"
proof -
  let ?s = "ARM_UC_SchedulerInit cc_static"
  let ?w = "\<lambda>_. \<lparr>rcode = 0, rnum = 0, rbytes = [], rdetails = no_details,
        rinstaller = \<lparr>arm_hash = [], oem_hash = [], layout = 0\<rparr>, ractions = []\<rparr>"
  have i: "arm_uccc_event_handler ?s = Some Fn_ARM_UC_HUB_ControlCenterEventHandler"
    "arm_uc_authority_priority_callback ?s = Some (Fn_App 2)" "trace ?s = []"
    using SchedulerInit_shape[of cc_static] by (auto simp: cc_static_def)
  have "\<exists>s'. ARM_UC_ControlCenter_GetAuthorization ?w 2 7 ?s = Some (ERR_NONE, s')"
    using i by (simp add: get_authorization call_authority_def ext_def Let_def)
  then obtain s' where s': "ARM_UC_ControlCenter_GetAuthorization ?w 2 7 ?s = Some (ERR_NONE, s')" by blast
  have "trace s' = [APP_PriorityAuthority (Fn_App 2) 2 7] \<and> token_armed 2 s' \<and> pending_rep s' []"
    using authorization_requested[OF _ i(1) cc_static_init _ s'] i by simp
  then show ?thesis using s' by blast
qed

text \<open>
  C16. The override of a blocked update takes the plain callback away, so that a later request is
  authorized at once when no callback with a priority is installed; a callback with a priority
  stays installed and is asked again.
\<close>

theorem override_effect:
  assumes "arm_uccc_override_task call s = Some s1"
    and "\<And>f e x y. call f e x = Some y \<Longrightarrow>
       arm_uc_authority_priority_callback y = arm_uc_authority_priority_callback x"
    and "request \<in> {ARM_UCCC_REQUEST_DOWNLOAD, ARM_UCCC_REQUEST_INSTALL}"
    and "arm_uccc_event_handler s1 = Some h" and "pending_rep s1 ps" and "length ps < 32"
    and "ARM_UC_ControlCenter_GetAuthorization w request priority s1 = Some (r, s2)"
  shows "case arm_uc_authority_priority_callback s of
      None \<Rightarrow> trace s2 = trace s1 \<and> \<not> token_armed request s2 \<and>
        pending_rep s2 (ps @ [(h, ATOMIC_QUEUE_NO_CONTEXT, authorize_event request)])
    | Some f \<Rightarrow> trace s2 = APP_PriorityAuthority f request priority # trace s1"
proof -
  have p: "arm_uc_authority_priority_callback s1 = arm_uc_authority_priority_callback s"
    and a: "arm_uc_authority_callback s1 = None"
    using assms(1) by (auto simp: arm_uccc_override_task_def Let_def
        split: if_splits option.splits bind_splits dest!: assms(2))
  have c: "call_authority w request priority (arm_token request s1) = Some s2"
    using assms(7) get_authorization[OF assms(3), of w priority s1] by auto
  show ?thesis
  proof (cases "arm_uc_authority_priority_callback s")
    case None
    then have "s2 = snd (ARM_UC_ControlCenter_Authorize request (arm_token request s1))"
      using c p a by (simp add: call_authority_def)
    then show ?thesis using authorize_armed[OF assms(3), of "arm_token request s1" h ps] assms None by simp
  next
    case (Some f)
    then show ?thesis using call_asked(1)[OF c] p by simp
  qed
qed

theorem override_effect_witness:
  "\<exists>s1 s2. arm_uccc_override_task (\<lambda>f e x. Some x) (ARM_UC_SchedulerInit cc_static) = Some s1 \<and>
     ARM_UC_ControlCenter_GetAuthorization (\<lambda>_. \<lparr>rcode = 0, rnum = 0, rbytes = [], rdetails = no_details,
        rinstaller = \<lparr>arm_hash = [], oem_hash = [], layout = 0\<rparr>, ractions = []\<rparr>) 1 0 s1 = Some (ERR_NONE, s2) \<and>
     trace s2 = [APP_PriorityAuthority (Fn_App 2) 1 0]"
proof -
  let ?s = "ARM_UC_SchedulerInit cc_static"
  let ?w = "\<lambda>_. \<lparr>rcode = 0, rnum = 0, rbytes = [], rdetails = no_details,
        rinstaller = \<lparr>arm_hash = [], oem_hash = [], layout = 0\<rparr>, ractions = []\<rparr>"
  let ?s1 = "?s\<lparr>arm_uc_download_token_armed := False, arm_uc_authority_callback := None\<rparr>"
  have i: "arm_uccc_event_handler ?s = Some Fn_ARM_UC_HUB_ControlCenterEventHandler"
    "arm_uc_authority_priority_callback ?s = Some (Fn_App 2)" "trace ?s = []" "arm_uc_download_token_armed ?s"
    using SchedulerInit_shape[of cc_static] by (auto simp: cc_static_def)
  have o: "arm_uccc_override_task (\<lambda>f e x. Some x) ?s = Some ?s1"
    using i by (simp add: arm_uccc_override_task_def Let_def)
  have "\<exists>s2. ARM_UC_ControlCenter_GetAuthorization ?w 1 0 ?s1 = Some (ERR_NONE, s2)"
    using i by (simp add: get_authorization call_authority_def ext_def Let_def)
  then obtain s2 where s2: "ARM_UC_ControlCenter_GetAuthorization ?w 1 0 ?s1 = Some (ERR_NONE, s2)" by blast
  have "trace s2 = APP_PriorityAuthority (Fn_App 2) 1 0 # trace ?s1"
    using override_effect[OF o _ _ _ _ _ s2, of Fn_ARM_UC_HUB_ControlCenterEventHandler "[]"] i cc_static_init
    by simp
  then show ?thesis using o s2 i by auto
qed

end
