(* ===== verification/UC_PAAL_Update.thy ===== *)
theory UC_PAAL_Update
  imports UC_Control_Center
begin

text \<open>
  \<open>modules/paal/source/arm_uc_paal_update.c\<close>: the storage driver behind a pointer that may be
  \<open>NULL\<close>. In the configuration with delta updates the pointer is always the delta layer, which is
  told the driver below it; the delta layer and the drivers are outside of the model. A driver
  completes a call later with an event; what it writes through a pointer is part of its reply,
  for \<open>Read\<close> the bytes it puts at the start
  of the buffer and the size it sets.
\<close>

datatype paal_impl = ARM_UCP_DELTA_PAAL | Paal_storage nat

record paal = cc +
  paal_update_implementation :: "paal_impl option"

definition ARM_UCP_SetPAALUpdate ::
    "environment \<Rightarrow> bool \<Rightarrow> nat option \<Rightarrow> 'z paal_scheme \<Rightarrow> arm_uc_error_t \<times> 'z paal_scheme" where
  "ARM_UCP_SetPAALUpdate w FEATURE_DELTA_PAAL implementation s =
     (if FEATURE_DELTA_PAAL then
        let s = s\<lparr>paal_update_implementation := Some ARM_UCP_DELTA_PAAL\<rparr>;
            (r, s) = ext w (PAAL_SetStorage (case implementation of None \<Rightarrow> 0 | Some i \<Rightarrow> Suc i)) s
        in (rcode r, s)
      else (ERR_NONE, s\<lparr>paal_update_implementation := map_option Paal_storage implementation\<rparr>))"

definition paal_call :: "environment \<Rightarrow> ext_call \<Rightarrow> 'z paal_scheme \<Rightarrow> (arm_uc_error_t \<times> reply option) \<times> 'z paal_scheme" where
  "paal_call w c s =
     (if paal_update_implementation s \<noteq> None
      then let (r, s) = ext w c s in ((rcode r, Some r), s)
      else ((ERR_INVALID_PARAMETER, None), s))"

definition ARM_UCP_Initialize :: "environment \<Rightarrow> 'z paal_scheme \<Rightarrow> arm_uc_error_t \<times> 'z paal_scheme" where
  "ARM_UCP_Initialize w s = (let ((c, _), s) = paal_call w PAAL_Initialize s in (c, s))"

definition ARM_UCP_GetCapabilities :: "environment \<Rightarrow> 'z paal_scheme \<Rightarrow> u32 \<times> 'z paal_scheme" where
  "ARM_UCP_GetCapabilities w s =
     (let ((_, r), s) = paal_call w PAAL_GetCapabilities s in
      (case r of None \<Rightarrow> 0 | Some r \<Rightarrow> rnum r, s))"

definition ARM_UCP_GetMaxID :: "environment \<Rightarrow> 'z paal_scheme \<Rightarrow> u32 \<times> 'z paal_scheme" where
  "ARM_UCP_GetMaxID w s =
     (let ((_, r), s) = paal_call w PAAL_GetMaxID s in (case r of None \<Rightarrow> 0 | Some r \<Rightarrow> rnum r, s))"

definition ARM_UCP_Prepare ::
    "environment \<Rightarrow> u32 \<Rightarrow> arm_uc_firmware_details_t option \<Rightarrow> buf_addr option \<Rightarrow> 'z paal_scheme \<Rightarrow>
     arm_uc_error_t \<times> 'z paal_scheme"
where
  "ARM_UCP_Prepare w location details buffer s =
     (case (details, buffer) of
        (Some d, Some b) \<Rightarrow> (let ((c, _), s) = paal_call w (PAAL_Prepare location d b) s in (c, s))
      | _ \<Rightarrow> (ERR_INVALID_PARAMETER, s))"

definition ARM_UCP_Write ::
    "environment \<Rightarrow> u32 \<Rightarrow> u32 \<Rightarrow> buf_addr option \<Rightarrow> 'z paal_scheme \<Rightarrow> arm_uc_error_t \<times> 'z paal_scheme"
where
  "ARM_UCP_Write w location offset buffer s =
     (case buffer of
        Some b \<Rightarrow>
          (let ((c, _), s) =
             paal_call w (PAAL_Write location offset (take (unat (bsize (mem s b))) (ptr (mem s b)))) s
           in (c, s))
      | None \<Rightarrow> (ERR_INVALID_PARAMETER, s))"

definition ARM_UCP_Finalize :: "environment \<Rightarrow> u32 \<Rightarrow> 'z paal_scheme \<Rightarrow> arm_uc_error_t \<times> 'z paal_scheme" where
  "ARM_UCP_Finalize w location s = (let ((c, _), s) = paal_call w (PAAL_Finalize location) s in (c, s))"

text \<open>The buffer's \<open>size\<close> is the intended number of bytes before the call and the number read after it.\<close>

definition ARM_UCP_Read ::
    "environment \<Rightarrow> u32 \<Rightarrow> u32 \<Rightarrow> buf_addr option \<Rightarrow> 'z paal_scheme \<Rightarrow>
     (arm_uc_error_t \<times> 'z paal_scheme) option"
where
  "ARM_UCP_Read w location offset buffer s =
     (case buffer of
        Some b \<Rightarrow>
          (case paal_call w (PAAL_Read location offset b (bsize (mem s b))) s of
             ((c, Some r), s) \<Rightarrow> do {
               m \<leftarrow> wr_block (ptr (mem s b)) 0 (rbytes r);
               Some (c, set_buf b ((mem s b)\<lparr>ptr := m, bsize := rnum r\<rparr>) s) }
           | ((c, None), s) \<Rightarrow> Some (c, s))
      | None \<Rightarrow> Some (ERR_INVALID_PARAMETER, s))"

definition ARM_UCP_Activate :: "environment \<Rightarrow> u32 \<Rightarrow> 'z paal_scheme \<Rightarrow> arm_uc_error_t \<times> 'z paal_scheme" where
  "ARM_UCP_Activate w location s = (let ((c, _), s) = paal_call w (PAAL_Activate location) s in (c, s))"

text \<open>
  The functions that fill a structure return its new contents; \<open>None\<close> is a \<open>NULL\<close> pointer.
\<close>

definition ARM_UCP_GetActiveFirmwareDetails ::
    "environment \<Rightarrow> arm_uc_firmware_details_t option \<Rightarrow> 'z paal_scheme \<Rightarrow>
     arm_uc_error_t \<times> arm_uc_firmware_details_t option \<times> 'z paal_scheme"
where
  "ARM_UCP_GetActiveFirmwareDetails w details s =
     (case details of
        None \<Rightarrow> (ERR_INVALID_PARAMETER, None, s)
      | Some d \<Rightarrow> (let ((c, r), s) = paal_call w PAAL_GetActiveFirmwareDetails s in
          (c, Some (case r of None \<Rightarrow> d | Some r \<Rightarrow> rdetails r), s)))"

definition ARM_UCP_GetFirmwareDetails ::
    "environment \<Rightarrow> u32 \<Rightarrow> arm_uc_firmware_details_t option \<Rightarrow> 'z paal_scheme \<Rightarrow>
     arm_uc_error_t \<times> arm_uc_firmware_details_t option \<times> 'z paal_scheme"
where
  "ARM_UCP_GetFirmwareDetails w location details s =
     (case details of
        None \<Rightarrow> (ERR_INVALID_PARAMETER, None, s)
      | Some d \<Rightarrow> (let ((c, r), s) = paal_call w (PAAL_GetFirmwareDetails location) s in
          (c, Some (case r of None \<Rightarrow> d | Some r \<Rightarrow> rdetails r), s)))"

definition ARM_UCP_GetInstallerDetails ::
    "environment \<Rightarrow> arm_uc_installer_details_t option \<Rightarrow> 'z paal_scheme \<Rightarrow>
     arm_uc_error_t \<times> arm_uc_installer_details_t option \<times> 'z paal_scheme"
where
  "ARM_UCP_GetInstallerDetails w details s =
     (case details of
        None \<Rightarrow> (ERR_INVALID_PARAMETER, None, s)
      | Some d \<Rightarrow> (let ((c, r), s) = paal_call w PAAL_GetInstallerDetails s in
          (c, Some (case r of None \<Rightarrow> d | Some r \<Rightarrow> rinstaller r), s)))"

end
