(* ===== verification/UC_Firmware_Manager.thy ===== *)
theory UC_Firmware_Manager
  imports UC_PAAL_Update UC_Crypto
begin

text \<open>
  \<open>modules/firmware-manager/source/arm_uc_firmware_manager.c\<close>: a package is prepared, its
  fragments are decrypted and written, and after the last one the stored image is read back and
  hashed, in two buffers if there are two. The hub learns the outcome through its handler, which
  the operations call directly; the call through that pointer is the parameter \<open>call\<close>.

  The configuration is a structure of the hub that the firmware manager keeps a pointer to, so it
  is read from the memory of configurations each time. Its key, counter and hash are read only by
  \<open>Prepare\<close>; they are the buffers it points to at that moment. A buffer object always has memory,
  so the tests for a null \<open>ptr\<close> inside of one do not show; offsets inside of a fragment are natural
  numbers, a fragment being an object in memory. The debug output is not modelled.
\<close>

subsection \<open>State\<close>

datatype ARM_UCFM_mode_t =
  UCFM_MODE_UNINIT | UCFM_MODE_NONE_SHA_256 | UCFM_MODE_AES_CTR_128_SHA_256 | UCFM_MODE_AES_CTR_256_SHA_256

record ARM_UCFM_Setup_t =
  cfg_mode :: ARM_UCFM_mode_t
  cfg_key :: "arm_uc_buffer_t option"
  cfg_iv :: "arm_uc_buffer_t option"
  cfg_hash :: "arm_uc_buffer_t option"
  package_id :: u32
  package_size :: u32
  is_delta :: u8

record fm = paal +
  ucfm_handler :: "uc_fn option"
  setups :: "nat \<Rightarrow> ARM_UCFM_Setup_t"
  package_configuration :: "nat option"
  package_hash :: bytes
  package_offset :: u32
  ready_to_receive :: bool
  mdHandle :: bytes
  cipherHandle :: arm_uc_cipherHandle_t
  front_buffer :: "buf_addr option"
  back_buffer :: "buf_addr option"

text \<open>The code outside of the model, as the firmware manager and the hub use it.\<close>

record platform =
  env :: environment
  crypto :: pal_crypto
  aes :: pal_aes

abbreviation (input) ARM_UC_PAAL_EVENT_INITIALIZE_DONE :: u32 where "ARM_UC_PAAL_EVENT_INITIALIZE_DONE \<equiv> 0"
abbreviation (input) ARM_UC_PAAL_EVENT_PREPARE_DONE :: u32 where "ARM_UC_PAAL_EVENT_PREPARE_DONE \<equiv> 1"
abbreviation (input) ARM_UC_PAAL_EVENT_WRITE_DONE :: u32 where "ARM_UC_PAAL_EVENT_WRITE_DONE \<equiv> 2"
abbreviation (input) ARM_UC_PAAL_EVENT_FINALIZE_DONE :: u32 where "ARM_UC_PAAL_EVENT_FINALIZE_DONE \<equiv> 3"
abbreviation (input) ARM_UC_PAAL_EVENT_READ_DONE :: u32 where "ARM_UC_PAAL_EVENT_READ_DONE \<equiv> 4"
abbreviation (input) ARM_UC_PAAL_EVENT_ACTIVATE_DONE :: u32 where "ARM_UC_PAAL_EVENT_ACTIVATE_DONE \<equiv> 5"
abbreviation (input) ARM_UC_PAAL_EVENT_GET_ACTIVE_FIRMWARE_DETAILS_DONE :: u32 where
  "ARM_UC_PAAL_EVENT_GET_ACTIVE_FIRMWARE_DETAILS_DONE \<equiv> 6"
abbreviation (input) ARM_UC_PAAL_EVENT_GET_FIRMWARE_DETAILS_DONE :: u32 where
  "ARM_UC_PAAL_EVENT_GET_FIRMWARE_DETAILS_DONE \<equiv> 7"
abbreviation (input) ARM_UC_PAAL_EVENT_GET_INSTALLER_DETAILS_DONE :: u32 where
  "ARM_UC_PAAL_EVENT_GET_INSTALLER_DETAILS_DONE \<equiv> 8"
abbreviation (input) ARM_UC_PAAL_EVENT_INITIALIZE_ERROR :: u32 where "ARM_UC_PAAL_EVENT_INITIALIZE_ERROR \<equiv> 9"
abbreviation (input) ARM_UC_PAAL_EVENT_PREPARE_ERROR :: u32 where "ARM_UC_PAAL_EVENT_PREPARE_ERROR \<equiv> 10"
abbreviation (input) ARM_UC_PAAL_EVENT_FIRMWARE_TOO_LARGE_ERROR :: u32 where
  "ARM_UC_PAAL_EVENT_FIRMWARE_TOO_LARGE_ERROR \<equiv> 11"
abbreviation (input) ARM_UC_PAAL_EVENT_WRITE_ERROR :: u32 where "ARM_UC_PAAL_EVENT_WRITE_ERROR \<equiv> 12"
abbreviation (input) ARM_UC_PAAL_EVENT_FINALIZE_ERROR :: u32 where "ARM_UC_PAAL_EVENT_FINALIZE_ERROR \<equiv> 13"
abbreviation (input) ARM_UC_PAAL_EVENT_READ_ERROR :: u32 where "ARM_UC_PAAL_EVENT_READ_ERROR \<equiv> 14"
abbreviation (input) ARM_UC_PAAL_EVENT_ACTIVATE_ERROR :: u32 where "ARM_UC_PAAL_EVENT_ACTIVATE_ERROR \<equiv> 15"
abbreviation (input) ARM_UC_PAAL_EVENT_GET_ACTIVE_FIRMWARE_DETAILS_ERROR :: u32 where
  "ARM_UC_PAAL_EVENT_GET_ACTIVE_FIRMWARE_DETAILS_ERROR \<equiv> 16"
abbreviation (input) ARM_UC_PAAL_EVENT_GET_FIRMWARE_DETAILS_ERROR :: u32 where
  "ARM_UC_PAAL_EVENT_GET_FIRMWARE_DETAILS_ERROR \<equiv> 17"
abbreviation (input) ARM_UC_PAAL_EVENT_GET_INSTALLER_DETAILS_ERROR :: u32 where
  "ARM_UC_PAAL_EVENT_GET_INSTALLER_DETAILS_ERROR \<equiv> 18"

abbreviation (input) UCFM_EVENT_INITIALIZE_DONE :: u32 where "UCFM_EVENT_INITIALIZE_DONE \<equiv> 0"
abbreviation (input) UCFM_EVENT_PREPARE_DONE :: u32 where "UCFM_EVENT_PREPARE_DONE \<equiv> 1"
abbreviation (input) UCFM_EVENT_WRITE_DONE :: u32 where "UCFM_EVENT_WRITE_DONE \<equiv> 2"
abbreviation (input) UCFM_EVENT_FINALIZE_DONE :: u32 where "UCFM_EVENT_FINALIZE_DONE \<equiv> 3"
abbreviation (input) UCFM_EVENT_ACTIVATE_DONE :: u32 where "UCFM_EVENT_ACTIVATE_DONE \<equiv> 5"
abbreviation (input) UCFM_EVENT_GET_ACTIVE_FIRMWARE_DETAILS_DONE :: u32 where
  "UCFM_EVENT_GET_ACTIVE_FIRMWARE_DETAILS_DONE \<equiv> 6"
abbreviation (input) UCFM_EVENT_GET_FIRMWARE_DETAILS_DONE :: u32 where "UCFM_EVENT_GET_FIRMWARE_DETAILS_DONE \<equiv> 7"
abbreviation (input) UCFM_EVENT_GET_INSTALLER_DETAILS_DONE :: u32 where "UCFM_EVENT_GET_INSTALLER_DETAILS_DONE \<equiv> 8"
abbreviation (input) UCFM_EVENT_INITIALIZE_ERROR :: u32 where "UCFM_EVENT_INITIALIZE_ERROR \<equiv> 9"
abbreviation (input) UCFM_EVENT_PREPARE_ERROR :: u32 where "UCFM_EVENT_PREPARE_ERROR \<equiv> 10"
abbreviation (input) UCFM_EVENT_FIRMWARE_TOO_LARGE_ERROR :: u32 where "UCFM_EVENT_FIRMWARE_TOO_LARGE_ERROR \<equiv> 11"
abbreviation (input) UCFM_EVENT_WRITE_ERROR :: u32 where "UCFM_EVENT_WRITE_ERROR \<equiv> 12"
abbreviation (input) UCFM_EVENT_FINALIZE_ERROR :: u32 where "UCFM_EVENT_FINALIZE_ERROR \<equiv> 13"
abbreviation (input) UCFM_EVENT_ACTIVATE_ERROR :: u32 where "UCFM_EVENT_ACTIVATE_ERROR \<equiv> 15"
abbreviation (input) UCFM_EVENT_GET_ACTIVE_FIRMWARE_DETAILS_ERROR :: u32 where
  "UCFM_EVENT_GET_ACTIVE_FIRMWARE_DETAILS_ERROR \<equiv> 16"
abbreviation (input) UCFM_EVENT_GET_FIRMWARE_DETAILS_ERROR :: u32 where "UCFM_EVENT_GET_FIRMWARE_DETAILS_ERROR \<equiv> 17"
abbreviation (input) UCFM_EVENT_GET_INSTALLER_DETAILS_ERROR :: u32 where "UCFM_EVENT_GET_INSTALLER_DETAILS_ERROR \<equiv> 18"
abbreviation (input) UCFM_EVENT_FINALIZE_INVALID_HASH_ERROR :: u32 where "UCFM_EVENT_FINALIZE_INVALID_HASH_ERROR \<equiv> 19"

subsection \<open>Signalling\<close>

definition arm_uc_signal_ucfm_handler ::
    "(uc_fn \<Rightarrow> u32 \<Rightarrow> 'z fm_scheme \<Rightarrow> 'z fm_scheme option) \<Rightarrow> u32 \<Rightarrow> 'z fm_scheme \<Rightarrow> 'z fm_scheme option" where
  "arm_uc_signal_ucfm_handler call event s =
     (case ucfm_handler s of None \<Rightarrow> Some s | Some f \<Rightarrow> call f event s)"

subsection \<open>Reading the image back\<close>

text \<open>The configuration behind the pointer.\<close>

definition configuration_of :: "'z fm_scheme \<Rightarrow> ARM_UCFM_Setup_t option" where
  "configuration_of s = map_option (setups s) (package_configuration s)"

text \<open>Ask for as much of the rest of the package as fits in the back buffer.\<close>

definition read_back_buffer ::
    "platform \<Rightarrow> 'z fm_scheme \<Rightarrow> (arm_uc_error_t \<times> 'z fm_scheme) option" where
  "read_back_buffer pl s = do {
     cfg \<leftarrow> configuration_of s;
     b \<leftarrow> back_buffer s;
     let bytes_remaining = package_size cfg - package_offset s;
     let s = set_buf b ((mem s b)\<lparr>bsize := (if bytes_remaining > size_max (mem s b)
                                            then size_max (mem s b) else bytes_remaining)\<rparr>) s;
     ARM_UCP_Read (env pl) (package_id cfg) (package_offset s) (Some b) s
   }"

text \<open>
  The end of the hash calculation: the status, the event for an error and the state. The digest is
  compared with the hash kept by \<open>Prepare\<close>, which is cleared afterwards.
\<close>

definition finish_hash ::
    "platform \<Rightarrow> (uc_fn \<Rightarrow> u32 \<Rightarrow> 'z fm_scheme \<Rightarrow> 'z fm_scheme option) \<Rightarrow> 'z fm_scheme \<Rightarrow>
     (arm_uc_error_t \<times> u32 \<times> 'z fm_scheme) option"
where
  "finish_hash pl call s = do {
     (_, output) \<leftarrow> ARM_UC_cryptoHashFinish (crypto pl) (Some (mdHandle s))
       (Some \<lparr>size_max = 32, bsize = 0, ptr = uninit (aes pl)\<rparr>);
     hash_buffer \<leftarrow> output;
     if bsize hash_buffer = of_nat ARM_UC_SHA256_SIZE then do {
       digest \<leftarrow> rd_block (ptr hash_buffer) 0 ARM_UC_SHA256_SIZE;
       (status, error_event, s) \<leftarrow>
         (if digest = package_hash s
          then do { s \<leftarrow> arm_uc_signal_ucfm_handler call UCFM_EVENT_FINALIZE_DONE s;
                    Some (ERR_NONE, UCFM_EVENT_FINALIZE_ERROR, s) }
          else Some (FIRM_ERR_INVALID_PARAMETER, UCFM_EVENT_FINALIZE_INVALID_HASH_ERROR, s));
       h \<leftarrow> memset0 (package_hash s) 0 ARM_UC_SHA256_SIZE;
       Some (status, error_event, s\<lparr>package_hash := h\<rparr>)
     }
     else Some (FIRM_ERR_INVALID_PARAMETER, UCFM_EVENT_FINALIZE_ERROR, s)
   }"

definition arm_uc_internal_process_hash ::
    "platform \<Rightarrow> (uc_fn \<Rightarrow> u32 \<Rightarrow> 'z fm_scheme \<Rightarrow> 'z fm_scheme option) \<Rightarrow> 'z fm_scheme \<Rightarrow> 'z fm_scheme option"
where
  "arm_uc_internal_process_hash pl call s = do {
     let double_buffering = (front_buffer s \<noteq> back_buffer s);
     cfg \<leftarrow> configuration_of s;
     let needs_more_data = (package_offset s < package_size cfg);
     (status, s) \<leftarrow> (if double_buffering \<and> needs_more_data then read_back_buffer pl s
                     else Some (ERR_NONE, s));
     (status, error_event, s) \<leftarrow>
       (if err_error status = 0 then do {
          (_, md) \<leftarrow> ARM_UC_cryptoHashUpdate (crypto pl) (Some (mdHandle s)) (map_option (mem s) (front_buffer s));
          h \<leftarrow> md;
          let s = s\<lparr>mdHandle := h\<rparr>;
          (status, error_event, s) \<leftarrow>
            (if needs_more_data then do {
               (status, s) \<leftarrow> (if \<not> double_buffering then read_back_buffer pl s else Some (status, s));
               Some (status, UCFM_EVENT_FINALIZE_ERROR, s) }
             else finish_hash pl call s);
          Some (status, error_event, s\<lparr>front_buffer := back_buffer s, back_buffer := front_buffer s\<rparr>)
        }
        else Some (status, UCFM_EVENT_FINALIZE_ERROR, s));
     if err_error status \<noteq> 0 then arm_uc_signal_ucfm_handler call error_event s else Some s
   }"

definition event_handler_finalize ::
    "platform \<Rightarrow> (uc_fn \<Rightarrow> u32 \<Rightarrow> 'z fm_scheme \<Rightarrow> 'z fm_scheme option) \<Rightarrow> 'z fm_scheme \<Rightarrow> 'z fm_scheme option"
where
  "event_handler_finalize pl call s = do {
     let (result, md) = ARM_UC_cryptoHashSetup (crypto pl) (Some (mdHandle s));
     h \<leftarrow> md;
     let s = s\<lparr>mdHandle := h\<rparr>;
     (result, s) \<leftarrow>
       (if err_error result = 0 then do {
          let s = s\<lparr>package_offset := 0\<rparr>;
          cfg \<leftarrow> configuration_of s;
          f \<leftarrow> front_buffer s;
          let s = set_buf f ((mem s f)\<lparr>bsize := (if package_size cfg < size_max (mem s f)
                                                 then package_size cfg else size_max (mem s f))\<rparr>) s;
          ARM_UCP_Read (env pl) (package_id cfg) (package_offset s) (Some f) s
        }
        else Some (result, s));
     if err_error result \<noteq> 0 then arm_uc_signal_ucfm_handler call UCFM_EVENT_FINALIZE_ERROR s else Some s
   }"

definition event_handler_read ::
    "platform \<Rightarrow> (uc_fn \<Rightarrow> u32 \<Rightarrow> 'z fm_scheme \<Rightarrow> 'z fm_scheme option) \<Rightarrow> 'z fm_scheme \<Rightarrow> 'z fm_scheme option"
where
  "event_handler_read pl call s = do {
     f \<leftarrow> front_buffer s;
     if bsize (mem s f) > 0 then do {
       cfg \<leftarrow> configuration_of s;
       let s = (if package_offset s + bsize (mem s f) > package_size cfg
                then set_buf f ((mem s f)\<lparr>bsize := package_size cfg - package_offset s\<rparr>) s else s);
       let s = s\<lparr>package_offset := package_offset s + bsize (mem s f)\<rparr>;
       arm_uc_internal_process_hash pl call s
     }
     else arm_uc_signal_ucfm_handler call UCFM_EVENT_FINALIZE_ERROR s
   }"

definition arm_uc_internal_event_handler ::
    "platform \<Rightarrow> (uc_fn \<Rightarrow> u32 \<Rightarrow> 'z fm_scheme \<Rightarrow> 'z fm_scheme option) \<Rightarrow> u32 \<Rightarrow> 'z fm_scheme \<Rightarrow>
     'z fm_scheme option"
where
  "arm_uc_internal_event_handler pl call event s =
     (if event = ARM_UC_PAAL_EVENT_FINALIZE_DONE then event_handler_finalize pl call s
      else if event = ARM_UC_PAAL_EVENT_READ_DONE then event_handler_read pl call s
      else arm_uc_signal_ucfm_handler call event s)"

text \<open>The storage driver's event is posted.\<close>

definition ARM_UCFM_PALEventHandler :: "u32 \<Rightarrow> 'z fm_scheme \<Rightarrow> 'z fm_scheme" where
  "ARM_UCFM_PALEventHandler event s =
     post Cb_arm_uc_event_handler_callback (Some Fn_arm_uc_internal_event_handler) event s"

subsection \<open>Interface\<close>

definition ARM_UCFM_Initialize :: "platform \<Rightarrow> uc_fn option \<Rightarrow> 'z fm_scheme \<Rightarrow> arm_uc_error_t \<times> 'z fm_scheme" where
  "ARM_UCFM_Initialize pl handler s =
     (if handler \<noteq> None then
        let (result, s) = ARM_UCP_Initialize (env pl) s
        in (result, if err_error result = 0 then s\<lparr>ucfm_handler := handler\<rparr> else s)
      else (FIRM_ERR_INVALID_PARAMETER, s))"

definition prepare_decryption ::
    "platform \<Rightarrow> ARM_UCFM_Setup_t \<Rightarrow> 'z fm_scheme \<Rightarrow> (arm_uc_error_t \<times> 'z fm_scheme) option" where
  "prepare_decryption pl cfg s = do {
     let s = (if aes_iv (cipherHandle s) \<noteq> None
              then s\<lparr>cipherHandle := \<lparr>aes_context = None, aes_iv = None\<rparr>\<rparr> else s);
     let bits = (if cfg_mode cfg = UCFM_MODE_AES_CTR_128_SHA_256 then 128 else 256);
     (result, h) \<leftarrow> ARM_UC_cryptoDecryptSetup (aes pl) (cipherHandle s) (cfg_key cfg) (cfg_iv cfg) bits;
     Some (result, s\<lparr>cipherHandle := h\<rparr>)
   }"

definition ARM_UCFM_Prepare ::
    "platform \<Rightarrow> (uc_fn \<Rightarrow> u32 \<Rightarrow> 'z fm_scheme \<Rightarrow> 'z fm_scheme option) \<Rightarrow>
     nat option \<Rightarrow> arm_uc_firmware_details_t option \<Rightarrow> buf_addr option \<Rightarrow> 'z fm_scheme \<Rightarrow>
     (arm_uc_error_t \<times> 'z fm_scheme) option"
where
  "ARM_UCFM_Prepare pl call configuration details buffer s = do {
     let cfg = map_option (setups s) configuration;
     let result =
       (if ucfm_handler s = None then FIRM_ERR_UNINITIALIZED
        else if (case cfg of None \<Rightarrow> True
                 | Some c \<Rightarrow> \<not> (cfg_mode c = UCFM_MODE_NONE_SHA_256 \<or>
                               (cfg_key c \<noteq> None \<and> cfg_iv c \<noteq> None))) \<or> buffer = None
        then FIRM_ERR_INVALID_PARAMETER else ERR_NONE);
     let (result, s) =
       (if err_error result = 0 then ARM_UCP_Prepare (env pl) (package_id (the cfg)) details buffer s
        else (result, s));
     (result, s) \<leftarrow>
       (if err_error result = 0 \<and> cfg_mode (the cfg) \<noteq> UCFM_MODE_NONE_SHA_256
        then prepare_decryption pl (the cfg) s else Some (result, s));
     if err_error result = 0 then do {
       h \<leftarrow> cfg_hash (the cfg);
       p \<leftarrow> memcpy (package_hash s) 0 (ptr h) 0 ARM_UC_SHA256_SIZE;
       Some (result, s\<lparr>package_configuration := configuration, package_hash := p, package_offset := 0,
                       ready_to_receive := True\<rparr>)
     }
     else do {
       s \<leftarrow> arm_uc_signal_ucfm_handler call
         (if result = PAAL_ERR_FIRMWARE_TOO_LARGE then UCFM_EVENT_FIRMWARE_TOO_LARGE_ERROR
          else UCFM_EVENT_PREPARE_ERROR) s;
       Some (result, s)
     }
   }"

text \<open>
  The fragment is decrypted in place, up to 32 bytes at a time; the intermediate buffer keeps its
  contents between the rounds, and the status of the decryption is not looked at.
\<close>

function decrypt_loop ::
    "pal_aes \<Rightarrow> nat \<Rightarrow> nat \<Rightarrow> arm_uc_buffer_t \<Rightarrow> arm_uc_cipherHandle_t \<Rightarrow> bytes \<Rightarrow>
     (arm_uc_cipherHandle_t \<times> bytes) option"
where
  "decrypt_loop pa fragment_offset fragment_size decrypt_buffer h m =
     (if fragment_offset < fragment_size then do {
        let length_update = (if fragment_offset + 32 > fragment_size
                             then fragment_size - fragment_offset else 32);
        (_, h, decrypt_buffer) \<leftarrow>
          ARM_UC_cryptoDecryptUpdate pa h (drop fragment_offset m) (of_nat length_update) decrypt_buffer;
        m \<leftarrow> memcpy m fragment_offset (ptr decrypt_buffer) 0 length_update;
        decrypt_loop pa (fragment_offset + length_update) fragment_size decrypt_buffer h m
      }
      else Some (h, m))"
  by pat_completeness auto
termination
  by (relation "measure (\<lambda>(_, off, size, _). size - off)") auto

definition ARM_UCFM_Write :: "platform \<Rightarrow> buf_addr option \<Rightarrow> 'z fm_scheme \<Rightarrow> (arm_uc_error_t \<times> 'z fm_scheme) option" where
  "ARM_UCFM_Write pl fragment s =
     (case fragment of
        None \<Rightarrow> Some (FIRM_ERR_INVALID_PARAMETER, s)
      | Some b \<Rightarrow>
          (if size_max (mem s b) = 0 \<or> bsize (mem s b) > size_max (mem s b)
           then Some (FIRM_ERR_INVALID_PARAMETER, s)
           else if \<not> ready_to_receive s then Some (FIRM_ERR_UNINITIALIZED, s)
           else do {
             cfg \<leftarrow> configuration_of s;
             s \<leftarrow> (if cfg_mode cfg \<noteq> UCFM_MODE_NONE_SHA_256 then do {
                     (h, m) \<leftarrow> decrypt_loop (aes pl) 0 (unat (bsize (mem s b)))
                       \<lparr>size_max = 32, bsize = 0, ptr = uninit (aes pl)\<rparr> (cipherHandle s) (ptr (mem s b));
                     Some ((set_buf b ((mem s b)\<lparr>ptr := m\<rparr>) s)\<lparr>cipherHandle := h\<rparr>) }
                   else Some s);
             let (result, s) = ARM_UCP_Write (env pl) (package_id cfg) (package_offset s) (Some b) s;
             Some (result, if err_error result = 0
                           then s\<lparr>package_offset := package_offset s + bsize (mem s b)\<rparr> else s)
           }))"

definition ARM_UCFM_Finalize ::
    "platform \<Rightarrow> buf_addr option \<Rightarrow> buf_addr option \<Rightarrow> 'z fm_scheme \<Rightarrow> (arm_uc_error_t \<times> 'z fm_scheme) option" where
  "ARM_UCFM_Finalize pl front back s =
     (if \<not> ready_to_receive s then Some (FIRM_ERR_UNINITIALIZED, s)
      else if front = None \<or>
              (front \<noteq> None \<and> size_max (mem s (the front)) mod of_nat ARM_UC_SHA256_SIZE \<noteq> 0) \<or>
              (back \<noteq> None \<and> size_max (mem s (the back)) mod of_nat ARM_UC_SHA256_SIZE \<noteq> 0)
      then Some (FIRM_ERR_INVALID_PARAMETER, s)
      else do {
        cfg \<leftarrow> configuration_of s;
        let s = (if cfg_mode cfg \<noteq> UCFM_MODE_NONE_SHA_256
                 then s\<lparr>cipherHandle := \<lparr>aes_context = None, aes_iv = None\<rparr>\<rparr> else s);
        let s = s\<lparr>front_buffer := front, back_buffer := (if back = None then front else back)\<rparr>;
        let (result, s) = ARM_UCP_Finalize (env pl) (package_id cfg) s;
        Some (result, s\<lparr>ready_to_receive := False\<rparr>)
      })"

definition ARM_UCFM_Activate :: "platform \<Rightarrow> u32 \<Rightarrow> 'z fm_scheme \<Rightarrow> arm_uc_error_t \<times> 'z fm_scheme" where
  "ARM_UCFM_Activate pl location s =
     (if ucfm_handler s \<noteq> None then ARM_UCP_Activate (env pl) location s else (FIRM_ERR_ACTIVATE, s))"

definition ARM_UCFM_GetActiveFirmwareDetails ::
    "platform \<Rightarrow> arm_uc_firmware_details_t option \<Rightarrow> 'z fm_scheme \<Rightarrow>
     arm_uc_error_t \<times> arm_uc_firmware_details_t option \<times> 'z fm_scheme"
where
  "ARM_UCFM_GetActiveFirmwareDetails pl details s =
     (if ucfm_handler s \<noteq> None \<and> details \<noteq> None then ARM_UCP_GetActiveFirmwareDetails (env pl) details s
      else (FIRM_ERR_INVALID_PARAMETER, details, s))"

definition ARM_UCFM_GetFirmwareDetails ::
    "platform \<Rightarrow> u32 \<Rightarrow> arm_uc_firmware_details_t option \<Rightarrow> 'z fm_scheme \<Rightarrow>
     arm_uc_error_t \<times> arm_uc_firmware_details_t option \<times> 'z fm_scheme"
where
  "ARM_UCFM_GetFirmwareDetails pl location details s =
     (if ucfm_handler s \<noteq> None \<and> details \<noteq> None then ARM_UCP_GetFirmwareDetails (env pl) location details s
      else (FIRM_ERR_INVALID_PARAMETER, details, s))"

definition ARM_UCFM_GetInstallerDetails ::
    "platform \<Rightarrow> arm_uc_installer_details_t option \<Rightarrow> 'z fm_scheme \<Rightarrow>
     arm_uc_error_t \<times> arm_uc_installer_details_t option \<times> 'z fm_scheme"
where
  "ARM_UCFM_GetInstallerDetails pl details s =
     (if ucfm_handler s \<noteq> None \<and> details \<noteq> None then ARM_UCP_GetInstallerDetails (env pl) details s
      else (FIRM_ERR_INVALID_PARAMETER, details, s))"

subsection \<open>The verdict on the stored img\<close>

text \<open>
  The storage driver accepts reads and gives the bytes it has stored; the hash operations succeed
  and \<open>sha\<close> is the digest. Both are what the interfaces document.
\<close>

definition storage_serves :: "platform \<Rightarrow> u32 \<Rightarrow> bytes \<Rightarrow> bool" where
  "storage_serves pl loc img \<longleftrightarrow> (\<forall>calls off b n. let r = env pl (PAAL_Read loc off b n # calls) in
     rcode r = ERR_NONE \<and> rbytes r = take (unat n) (drop (unat off) img) \<and>
     rnum r = of_nat (length (rbytes r)))"

definition hashes :: "platform \<Rightarrow> (bytes \<Rightarrow> bytes) \<Rightarrow> bool" where
  "hashes pl sha \<longleftrightarrow> pal_mdInit (crypto pl) = 0 \<and> (\<forall>fed bs. pal_mdUpdate (crypto pl) fed bs = 0) \<and>
     (\<forall>fed. pal_mdFinal (crypto pl) fed = (0, sha fed) \<and> length (sha fed) = 32) \<and>
     length (uninit (aes pl)) = 32"

fun read_events ::
    "platform \<Rightarrow> (uc_fn \<Rightarrow> u32 \<Rightarrow> 'z fm_scheme \<Rightarrow> 'z fm_scheme option) \<Rightarrow> nat \<Rightarrow> 'z fm_scheme \<Rightarrow>
     'z fm_scheme option" where
  "read_events pl call 0 s = Some s"
| "read_events pl call (Suc n) s = do {
     s \<leftarrow> arm_uc_internal_event_handler pl call ARM_UC_PAAL_EVENT_READ_DONE s;
     read_events pl call n s
   }"

lemma ucp_read_serves:
  assumes "storage_serves pl loc img" and "paal_update_implementation s \<noteq> None"
    and "length (ptr (mem s b)) = unat (size_max (mem s b))" and "bsize (mem s b) \<le> size_max (mem s b)"
    and "unat off + unat (bsize (mem s b)) \<le> length img"
  shows "ARM_UCP_Read (env pl) loc off (Some b) s = Some (ERR_NONE,
    set_buf b ((mem s b)\<lparr>ptr := take (unat (bsize (mem s b))) (drop (unat off) img) @
        drop (unat (bsize (mem s b))) (ptr (mem s b))\<rparr>)
      (s\<lparr>trace := PAAL_Read loc off b (bsize (mem s b)) # trace s\<rparr>))"
proof -
  let ?n = "bsize (mem s b)"
  let ?r = "env pl (PAAL_Read loc off b ?n # trace s)"
  have r: "rcode ?r = ERR_NONE" "rbytes ?r = take (unat ?n) (drop (unat off) img)"
    "rnum ?r = of_nat (length (rbytes ?r))"
    using assms(1) by (auto simp: storage_serves_def Let_def)
  have l: "length (rbytes ?r) = unat ?n" using assms(5) r(2) by simp
  have n: "rnum ?r = ?n" using r(3) l by simp
  have "unat ?n \<le> length (ptr (mem s b))" using assms(3,4) by (simp add: word_le_nat_alt)
  then have "wr_block (ptr (mem s b)) 0 (rbytes ?r) = Some (rbytes ?r @ drop (unat ?n) (ptr (mem s b)))"
    using l by (simp add: wr_block_def)
  then show ?thesis using assms(2) r n
    by (simp add: ARM_UCP_Read_def paal_call_def ext_def Let_def)
qed

definition buffer_ok :: "arm_uc_buffer_t \<Rightarrow> bool" where
  "buffer_ok b = (length (ptr b) = unat (size_max b) \<and> size_max b > 0)"

text \<open>A read is done and its event has not been handled: \<open>off\<close> bytes are hashed.\<close>

definition reading :: "bytes \<Rightarrow> uc_fn \<Rightarrow> nat \<Rightarrow> 'z fm_scheme \<Rightarrow> bool" where
  "reading img h off s \<longleftrightarrow> (\<exists>c f b n. package_configuration s = Some c \<and>
     front_buffer s = Some f \<and> back_buffer s = Some b \<and> buffer_ok (mem s f) \<and> buffer_ok (mem s b) \<and>
     unat (package_size (setups s c)) \<le> length img \<and>
     package_offset s = of_nat off \<and> mdHandle s = take off img \<and> n = unat (bsize (mem s f)) \<and>
     0 < n \<and> bsize (mem s f) \<le> size_max (mem s f) \<and> off + n \<le> unat (package_size (setups s c)) \<and>
     take n (ptr (mem s f)) = take n (drop off img) \<and>
     paal_update_implementation s \<noteq> None \<and> ucfm_handler s = Some h)"

lemma set_buf_simps [simp]:
  "mem (set_buf b v s) = (mem s)(b := v)"
  "trace (set_buf b v s) = trace s"
  by (simp_all add: set_buf_def)

lemma set_buf_paal [simp]: "paal_update_implementation (set_buf b v s) = paal_update_implementation s"
  by (simp add: set_buf_def)

lemma set_buf_fm [simp]:
  "ucfm_handler (set_buf b v s) = ucfm_handler s" "setups (set_buf b v s) = setups s"
  "package_configuration (set_buf b v s) = package_configuration s"
  "package_hash (set_buf b v s) = package_hash s" "package_offset (set_buf b v s) = package_offset s"
  "ready_to_receive (set_buf b v s) = ready_to_receive s" "mdHandle (set_buf b v s) = mdHandle s"
  "cipherHandle (set_buf b v s) = cipherHandle s" "front_buffer (set_buf b v s) = front_buffer s"
  "back_buffer (set_buf b v s) = back_buffer s"
  by (simp_all add: set_buf_def)

text \<open>What a read into the back buffer of the rest of the package does.\<close>

lemma read_back:
  assumes serves: "storage_serves pl (package_id (setups s c)) img" and "package_configuration s = Some c"
    and "back_buffer s = Some b" and "buffer_ok (mem s b)" and "paal_update_implementation s \<noteq> None"
    and off: "package_offset s = of_nat off" "off < unat (package_size (setups s c))"
      "unat (package_size (setups s c)) \<le> length img"
  shows "\<exists>v t. read_back_buffer pl s = Some (ERR_NONE, set_buf b v (s\<lparr>trace := t\<rparr>)) \<and>
    buffer_ok v \<and> 0 < unat (bsize v) \<and> bsize v \<le> size_max v \<and>
    off + unat (bsize v) \<le> unat (package_size (setups s c)) \<and>
    take (unat (bsize v)) (ptr v) = take (unat (bsize v)) (drop off img)"
proof -
  let ?size = "package_size (setups s c)"
  have offu: "unat (package_offset s) = off"
    using off(1,2) unsigned_less[of ?size, where 'a = nat] by (simp add: unat_of_nat take_bit_nat_eq_self)
  define rest where "rest = ?size - package_offset s"
  have restu: "unat rest = unat ?size - off"
    using offu off(2) by (simp add: rest_def unat_sub word_le_nat_alt)
  define n where "n = (if rest > size_max (mem s b) then size_max (mem s b) else rest)"
  have n: "0 < unat n" "n \<le> size_max (mem s b)" "off + unat n \<le> unat ?size"
    using assms(4) restu off(2) by (auto simp: n_def buffer_ok_def word_less_nat_alt word_le_nat_alt unat_gt_0)
  let ?s = "set_buf b ((mem s b)\<lparr>bsize := n\<rparr>) s"
  have "read_back_buffer pl s =
      ARM_UCP_Read (env pl) (package_id (setups s c)) (package_offset s) (Some b) ?s"
    using assms(2,3) by (simp add: read_back_buffer_def configuration_of_def Let_def n_def rest_def)
  also have "\<dots> = Some (ERR_NONE, set_buf b ((mem ?s b)\<lparr>ptr := take (unat n) (drop off img) @
        drop (unat n) (ptr (mem s b))\<rparr>)
      (?s\<lparr>trace := PAAL_Read (package_id (setups s c)) (package_offset s) b n # trace s\<rparr>))"
    using ucp_read_serves[OF serves, of ?s b "package_offset s"] assms(4,5) n off(3) offu
    by (simp add: buffer_ok_def)
  also have "\<dots> = Some (ERR_NONE, set_buf b ((mem s b)\<lparr>bsize := n, ptr := take (unat n) (drop off img) @
        drop (unat n) (ptr (mem s b))\<rparr>)
      (s\<lparr>trace := PAAL_Read (package_id (setups s c)) (package_offset s) b n # trace s\<rparr>))"
    by (simp add: set_buf_def)
  finally have eq: "read_back_buffer pl s = Some (ERR_NONE, set_buf b ((mem s b)\<lparr>bsize := n, ptr :=
      take (unat n) (drop off img) @ drop (unat n) (ptr (mem s b))\<rparr>)
      (s\<lparr>trace := PAAL_Read (package_id (setups s c)) (package_offset s) b n # trace s\<rparr>))" .
  have "unat n \<le> unat (size_max (mem s b))" using n(2) by (simp add: word_le_nat_alt)
  then show ?thesis using eq n off(3) assms(4) by (intro exI conjI) (assumption | simp add: buffer_ok_def)+
qed

lemma hash_update_ok:
  assumes "hashes pl sha" and "unat (bsize b) \<le> length (ptr b)"
  shows "ARM_UC_cryptoHashUpdate (crypto pl) (Some fed) (Some b) =
    Some (ERR_NONE, Some (fed @ take (unat (bsize b)) (ptr b)))"
  using assms by (simp add: ARM_UC_cryptoHashUpdate_def hashes_def rd_block_def)

text \<open>The state of \<open>reading\<close> once the offset has been moved over the bytes just read.\<close>

lemma read_event_advances:
  assumes "reading img h off s" and "package_configuration s = Some c" and "front_buffer s = Some f"
  shows "event_handler_read pl call s = arm_uc_internal_process_hash pl call
      (s\<lparr>package_offset := of_nat (off + unat (bsize (mem s f)))\<rparr>)"
proof -
  let ?n = "bsize (mem s f)"
  have r: "package_offset s = of_nat off" "0 < unat ?n" "off + unat ?n \<le> unat (package_size (setups s c))"
    using assms by (auto simp: reading_def)
  have sum: "package_offset s + ?n = of_nat (off + unat ?n)" using r(1) by simp
  have u: "unat (package_offset s + ?n) = off + unat ?n"
  proof -
    have "off + unat ?n < 2 ^ 32"
      using r(3) unsigned_less[of "package_size (setups s c)", where 'a = nat] by simp
    then show ?thesis unfolding sum by (simp add: unat_of_nat take_bit_nat_eq_self del: of_nat_add)
  qed
  have no: "\<not> package_offset s + ?n > package_size (setups s c)"
    using r(3) u by (simp add: word_less_nat_alt)
  have pos: "?n > 0" using r(2) by (simp add: word_less_nat_alt)
  show ?thesis
    using assms(2,3) no pos sum
    by (simp add: event_handler_read_def configuration_of_def Let_def)
qed

lemma reading_step:
  assumes H: "hashes pl sha" and S: "storage_serves pl (package_id (setups s c)) img"
    and R: "reading img h off s" and c: "package_configuration s = Some c" and f: "front_buffer s = Some f"
    and more: "off + unat (bsize (mem s f)) < unat (package_size (setups s c))"
  shows "\<exists>s'. (\<forall>call. event_handler_read pl call s = Some s') \<and>
    reading img h (off + unat (bsize (mem s f))) s' \<and> package_configuration s' = Some c \<and>
    setups s' = setups s \<and> package_hash s' = package_hash s"
proof -
  define n where "n = unat (bsize (mem s f))"
  define off' where "off' = off + n"
  define s1 where "s1 = s\<lparr>package_offset := of_nat off'\<rparr>"
  obtain b where b: "back_buffer s = Some b" and ok: "buffer_ok (mem s f)" "buffer_ok (mem s b)"
    and sz: "unat (package_size (setups s c)) \<le> length img"
    and md: "mdHandle s = take off img" and n: "0 < n" "off + n \<le> unat (package_size (setups s c))"
    and nb: "bsize (mem s f) \<le> size_max (mem s f)"
    and content: "take n (ptr (mem s f)) = take n (drop off img)"
    and other: "paal_update_implementation s \<noteq> None" "ucfm_handler s = Some h"
    using R c f by (auto simp: reading_def n_def)
  have nl: "unat (bsize (mem s f)) \<le> length (ptr (mem s f))"
    using nb ok(1) by (simp add: buffer_ok_def word_le_nat_alt)
  have fed: "take off img @ take (unat (bsize (mem s f))) (ptr (mem s f)) = take off' img"
    using content by (simp add: off'_def n_def take_add)
  have needs: "package_offset s1 < package_size (setups s c)"
    using more unsigned_less[of "package_size (setups s c)", where 'a = nat]
    by (simp add: s1_def off'_def n_def word_less_nat_alt unat_of_nat take_bit_nat_eq_self del: of_nat_add)
  have ev: "event_handler_read pl call s = arm_uc_internal_process_hash pl call s1" for call
    using read_event_advances[OF R c f] by (simp add: s1_def off'_def n_def)
  have less: "off' < unat (package_size (setups s c))" using more by (simp add: off'_def n_def)
  show ?thesis
  proof (cases "f = b")
    case False
    obtain v t where v: "read_back_buffer pl s1 = Some (ERR_NONE, set_buf b v (s1\<lparr>trace := t\<rparr>))"
      "buffer_ok v" "0 < unat (bsize v)" "bsize v \<le> size_max v"
      "off' + unat (bsize v) \<le> unat (package_size (setups s c))"
      "take (unat (bsize v)) (ptr v) = take (unat (bsize v)) (drop off' img)"
      using read_back[of pl s1 c img b off'] S c b ok(2) other(1) less sz by (auto simp: s1_def)
    let ?s' = "(set_buf b v (s1\<lparr>trace := t\<rparr>))\<lparr>mdHandle := take off' img, front_buffer := Some b, back_buffer := Some f\<rparr>"
    have "arm_uc_internal_process_hash pl call s1 = Some ?s'" for call
      using v(1) needs False hash_update_ok[OF H nl, of "take off img"] fed c f b md
      by (simp add: arm_uc_internal_process_hash_def configuration_of_def Let_def s1_def err_error_def)
    moreover have "reading img h off' ?s'"
      using v False c f b ok sz other unfolding reading_def by (auto simp: s1_def)
    ultimately show ?thesis using ev c by (intro exI[of _ ?s']) (auto simp: s1_def off'_def n_def)
  next
    case True
    let ?s2 = "s1\<lparr>mdHandle := take off' img\<rparr>"
    obtain v t where v: "read_back_buffer pl ?s2 = Some (ERR_NONE, set_buf b v (?s2\<lparr>trace := t\<rparr>))"
      "buffer_ok v" "0 < unat (bsize v)" "bsize v \<le> size_max v"
      "off' + unat (bsize v) \<le> unat (package_size (setups s c))"
      "take (unat (bsize v)) (ptr v) = take (unat (bsize v)) (drop off' img)"
      using read_back[of pl ?s2 c img b off'] S c b ok(2) other(1) less sz by (auto simp: s1_def)
    let ?s' = "(set_buf b v (?s2\<lparr>trace := t\<rparr>))\<lparr>front_buffer := Some b, back_buffer := Some f\<rparr>"
    have "arm_uc_internal_process_hash pl call s1 = Some ?s'" for call
      using v(1) needs True hash_update_ok[OF H nl, of "take off img"] fed c f b md
      by (simp add: arm_uc_internal_process_hash_def configuration_of_def Let_def s1_def err_error_def)
    moreover have "reading img h off' ?s'"
      using v True c f b ok sz other unfolding reading_def by (auto simp: s1_def)
    ultimately show ?thesis using ev c by (intro exI[of _ ?s']) (auto simp: s1_def off'_def n_def)
  qed
qed

text \<open>After the handler has been told of a good image.\<close>

definition hash_done :: "'z fm_scheme \<Rightarrow> 'z fm_scheme option" where
  "hash_done s = do {
     p \<leftarrow> memset0 (package_hash s) 0 ARM_UC_SHA256_SIZE;
     Some (s\<lparr>package_hash := p, front_buffer := back_buffer s, back_buffer := front_buffer s\<rparr>) }"

lemma reading_last:
  assumes H: "hashes pl sha" and R: "reading img h off s" and c: "package_configuration s = Some c"
    and f: "front_buffer s = Some f" and hash32: "length (package_hash s) = 32"
    and last: "off + unat (bsize (mem s f)) = unat (package_size (setups s c))"
  shows "\<exists>s0 s1. \<forall>call. event_handler_read pl call s =
    (if sha (take (unat (package_size (setups s c))) img) = package_hash s
     then do { s \<leftarrow> call h UCFM_EVENT_FINALIZE_DONE s0; hash_done s }
     else call h UCFM_EVENT_FINALIZE_INVALID_HASH_ERROR s1)"
proof -
  define size where "size = unat (package_size (setups s c))"
  define s1 where "s1 = s\<lparr>package_offset := of_nat size\<rparr>"
  define s2 where "s2 = s1\<lparr>mdHandle := take size img\<rparr>"
  have md: "mdHandle s = take off img" and ok: "buffer_ok (mem s f)"
    and nb: "bsize (mem s f) \<le> size_max (mem s f)" and hd: "ucfm_handler s = Some h"
    and content: "take (unat (bsize (mem s f))) (ptr (mem s f)) = take (unat (bsize (mem s f))) (drop off img)"
    using R c f by (auto simp: reading_def)
  have nl: "unat (bsize (mem s f)) \<le> length (ptr (mem s f))"
    using nb ok by (simp add: buffer_ok_def word_le_nat_alt)
  have fed: "take off img @ take (unat (bsize (mem s f))) (ptr (mem s f)) = take size img"
    using content last by (simp add: size_def flip: take_add)
  have no: "\<not> package_offset s1 < package_size (setups s c)" by (simp add: s1_def size_def)
  have ev: "event_handler_read pl call s = arm_uc_internal_process_hash pl call s1" for call
    using read_event_advances[OF R c f] last by (simp add: s1_def size_def)
  have fin: "ARM_UC_cryptoHashFinish (crypto pl) (Some (take size img))
      (Some \<lparr>size_max = 32, bsize = 0, ptr = uninit (aes pl)\<rparr>) =
    Some (if pal_mdFree (crypto pl) (take size img) \<noteq> 0
          then push_bit 16 (TWO_CC 80 65) OR (pal_mdFree (crypto pl) (take size img) AND 0xFFFF) else ERR_NONE,
      Some \<lparr>size_max = 32, bsize = 32, ptr = sha (take size img)\<rparr>)"
    using H by (simp add: ARM_UC_cryptoHashFinish_def hashes_def store_at0_def wr_block_def Let_def err_error_def)
  have len: "length (sha x) = 32" for x using H by (simp add: hashes_def)
  have bad: "err_error FIRM_ERR_INVALID_PARAMETER \<noteq> 0" by (simp add: err_error_def TWO_CC_def)
  have fh: "finish_hash pl call s2 =
    (if sha (take size img) = package_hash s
     then do { s \<leftarrow> call h UCFM_EVENT_FINALIZE_DONE s2;
               p \<leftarrow> memset0 (package_hash s) 0 32;
               Some (ERR_NONE, UCFM_EVENT_FINALIZE_ERROR, s\<lparr>package_hash := p\<rparr>) }
     else Some (FIRM_ERR_INVALID_PARAMETER, UCFM_EVENT_FINALIZE_INVALID_HASH_ERROR,
                s2\<lparr>package_hash := replicate 32 0\<rparr>))" for call
    using fin len hd hash32
    by (simp add: finish_hash_def s2_def s1_def arm_uc_signal_ucfm_handler_def rd_block_def memset0_def
        wr_block_def)
  have ph: "arm_uc_internal_process_hash pl call s1 =
      do { (status, error_event, s) \<leftarrow> finish_hash pl call s2;
           let s = s\<lparr>front_buffer := back_buffer s, back_buffer := front_buffer s\<rparr>;
           if err_error status \<noteq> 0 then arm_uc_signal_ucfm_handler call error_event s else Some s }" for call
    using no hash_update_ok[OF H nl, of "take off img"] fed c f md
    by (cases "finish_hash pl call s2")
      (auto simp: arm_uc_internal_process_hash_def configuration_of_def Let_def s1_def s2_def err_error_def)
  define s3 where "s3 = s2\<lparr>package_hash := replicate 32 0, front_buffer := back_buffer s2,
     back_buffer := front_buffer s2\<rparr>"
  have "event_handler_read pl call s =
    (if sha (take size img) = package_hash s
     then do { s \<leftarrow> call h UCFM_EVENT_FINALIZE_DONE s2; hash_done s }
     else call h UCFM_EVENT_FINALIZE_INVALID_HASH_ERROR s3)" for call
    unfolding ev ph fh using bad hd
    by (auto simp: s3_def s2_def s1_def arm_uc_signal_ucfm_handler_def hash_done_def Let_def err_error_def
        split: bind_splits)
  then show ?thesis unfolding size_def by blast
qed

lemma read_all:
  assumes H: "hashes pl sha" and S: "storage_serves pl (package_id (setups s c)) img"
    and "reading img h off s" and "package_configuration s = Some c" and "length (package_hash s) = 32"
  shows "\<exists>n s0 s1. \<forall>call. read_events pl call n s =
    (if sha (take (unat (package_size (setups s c))) img) = package_hash s
     then do { s \<leftarrow> call h UCFM_EVENT_FINALIZE_DONE s0; hash_done s }
     else call h UCFM_EVENT_FINALIZE_INVALID_HASH_ERROR s1)"
  using assms(2-)
proof (induction "unat (package_size (setups s c)) - off" arbitrary: off s rule: less_induct)
  case less
  obtain f where f: "front_buffer s = Some f" using less.prems(2) by (auto simp: reading_def)
  have pos: "0 < unat (bsize (mem s f))" and le: "off + unat (bsize (mem s f)) \<le> unat (package_size (setups s c))"
    using less.prems(2,3) f by (auto simp: reading_def)
  show ?case
  proof (cases "off + unat (bsize (mem s f)) = unat (package_size (setups s c))")
    case True
    then obtain s0 s1 where "\<forall>call. event_handler_read pl call s =
        (if sha (take (unat (package_size (setups s c))) img) = package_hash s
         then do { s \<leftarrow> call h UCFM_EVENT_FINALIZE_DONE s0; hash_done s }
         else call h UCFM_EVENT_FINALIZE_INVALID_HASH_ERROR s1)"
      using reading_last[OF H less.prems(2,3) f less.prems(4)] by blast
    moreover have "read_events pl call (Suc 0) s = event_handler_read pl call s" for call
      by (cases "event_handler_read pl call s") (simp_all add: arm_uc_internal_event_handler_def)
    ultimately show ?thesis by metis
  next
    case False
    then have "off + unat (bsize (mem s f)) < unat (package_size (setups s c))" using le by simp
    from reading_step[OF H less.prems(1,2,3) f this] obtain s' where s':
      "\<forall>call. event_handler_read pl call s = Some s'" "reading img h (off + unat (bsize (mem s f))) s'"
      "package_configuration s' = Some c" "setups s' = setups s" "package_hash s' = package_hash s" by blast
    have "\<exists>n s0 s1. \<forall>call. read_events pl call n s' =
      (if sha (take (unat (package_size (setups s' c))) img) = package_hash s'
       then do { s \<leftarrow> call h UCFM_EVENT_FINALIZE_DONE s0; hash_done s }
       else call h UCFM_EVENT_FINALIZE_INVALID_HASH_ERROR s1)"
      using less.hyps[of s' "off + unat (bsize (mem s f))"] less.prems s' False le pos by simp
    then obtain n s0 s1 where "\<forall>call. read_events pl call n s' =
      (if sha (take (unat (package_size (setups s c))) img) = package_hash s
       then do { s \<leftarrow> call h UCFM_EVENT_FINALIZE_DONE s0; hash_done s }
       else call h UCFM_EVENT_FINALIZE_INVALID_HASH_ERROR s1)" using s'(4,5) by auto
    then show ?thesis using s'(1)
      by (intro exI[where x = "Suc n"] exI[where x = s0] exI[where x = s1])
        (simp add: arm_uc_internal_event_handler_def)
  qed
qed

lemma finalize_reads:
  assumes H: "hashes pl sha" and S: "storage_serves pl (package_id (setups s c)) img"
    and c: "package_configuration s = Some c" and f: "front_buffer s = Some f" and b: "back_buffer s = Some b"
    and ok: "buffer_ok (mem s f)" "buffer_ok (mem s b)" and hd: "ucfm_handler s = Some h"
    and impl: "paal_update_implementation s \<noteq> None"
    and size: "0 < package_size (setups s c)" "unat (package_size (setups s c)) \<le> length img"
  shows "\<exists>s'. (\<forall>call. event_handler_finalize pl call s = Some s') \<and> reading img h 0 s' \<and>
    package_configuration s' = Some c \<and> setups s' = setups s \<and> package_hash s' = package_hash s"
proof -
  define n where "n = (if package_size (setups s c) < size_max (mem s f) then package_size (setups s c)
     else size_max (mem s f))"
  define s1 where "s1 = set_buf f ((mem s f)\<lparr>bsize := n\<rparr>) (s\<lparr>mdHandle := [], package_offset := 0\<rparr>)"
  have n: "0 < unat n" "n \<le> size_max (mem s f)" "unat n \<le> unat (package_size (setups s c))"
    using ok(1) size(1) by (auto simp: n_def buffer_ok_def word_less_nat_alt word_le_nat_alt)
  define s' where "s' = set_buf f ((mem s1 f)\<lparr>ptr := take (unat n) img @ drop (unat n) (ptr (mem s f))\<rparr>)
      (s1\<lparr>trace := PAAL_Read (package_id (setups s c)) 0 f n # trace s\<rparr>)"
  have read: "ARM_UCP_Read (env pl) (package_id (setups s c)) 0 (Some f) s1 = Some (ERR_NONE, s')"
    using ucp_read_serves[OF S, of s1 f 0] impl ok(1) n size(2)
    by (simp add: s1_def s'_def buffer_ok_def)
  have "event_handler_finalize pl call s =
      do { (result, s) \<leftarrow> ARM_UCP_Read (env pl) (package_id (setups s c)) 0 (Some f) s1;
           if err_error result \<noteq> 0 then arm_uc_signal_ucfm_handler call UCFM_EVENT_FINALIZE_ERROR s else Some s }"
    for call
    using H c f
    by (simp add: event_handler_finalize_def ARM_UC_cryptoHashSetup_def hashes_def err_error_def Let_def
        configuration_of_def s1_def n_def)
  then have "event_handler_finalize pl call s = Some s'" for call
    using read by (simp add: err_error_def)
  moreover have "unat n \<le> unat (size_max (mem s f))" using n(2) by (simp add: word_le_nat_alt)
  then have "reading img h 0 s'"
    using c f b ok hd impl size n unfolding reading_def
    by (auto simp: s'_def s1_def buffer_ok_def)
  ultimately show ?thesis using c by (intro exI[of _ s']) (simp add: s'_def s1_def)
qed

text \<open>
  C5. The verdict on a stored image is right: when the storage driver reports that the image is
  complete, the firmware manager reads the whole package back, in one buffer or in two, whatever
  their sizes, and after finitely many reads calls the hub's handler once, with the event for a
  good image exactly when the digest of the stored bytes is the hash that was prepared, and with
  the event for an invalid hash otherwise.
\<close>

theorem verification_verdict:
  assumes "hashes pl sha" and "storage_serves pl (package_id (setups s c)) img"
    and "package_configuration s = Some c" and "front_buffer s = Some f" and "back_buffer s = Some b"
    and "buffer_ok (mem s f)" and "buffer_ok (mem s b)" and "ucfm_handler s = Some h"
    and "paal_update_implementation s \<noteq> None" and "0 < package_size (setups s c)"
    and "unat (package_size (setups s c)) \<le> length img" and "length (package_hash s) = 32"
  shows "\<exists>n s0 s1. \<forall>call.
    do { s \<leftarrow> arm_uc_internal_event_handler pl call ARM_UC_PAAL_EVENT_FINALIZE_DONE s;
         read_events pl call n s } =
    (if sha (take (unat (package_size (setups s c))) img) = package_hash s
     then do { s \<leftarrow> call h UCFM_EVENT_FINALIZE_DONE s0; hash_done s }
     else call h UCFM_EVENT_FINALIZE_INVALID_HASH_ERROR s1)"
proof -
  obtain s' where s': "\<forall>call. event_handler_finalize pl call s = Some s'" "reading img h 0 s'"
    "package_configuration s' = Some c" "setups s' = setups s" "package_hash s' = package_hash s"
    using finalize_reads[OF assms(1,2,3,4,5,6,7,8,9,10,11)] by blast
  have "\<exists>n s0 s1. \<forall>call. read_events pl call n s' =
      (if sha (take (unat (package_size (setups s c))) img) = package_hash s
       then do { s \<leftarrow> call h UCFM_EVENT_FINALIZE_DONE s0; hash_done s }
       else call h UCFM_EVENT_FINALIZE_INVALID_HASH_ERROR s1)"
    using read_all[OF assms(1) _ s'(2,3), unfolded s'(4,5)] assms(2,12) by blast
  then obtain n s0 s1 where "\<forall>call. read_events pl call n s' =
      (if sha (take (unat (package_size (setups s c))) img) = package_hash s
       then do { s \<leftarrow> call h UCFM_EVENT_FINALIZE_DONE s0; hash_done s }
       else call h UCFM_EVENT_FINALIZE_INVALID_HASH_ERROR s1)" by blast
  then show ?thesis using s'(1)
    by (intro exI[where x = n] exI[where x = s0] exI[where x = s1]) (simp add: arm_uc_internal_event_handler_def)
qed

text \<open>A platform and a state for the examples: a storage holding \<open>img\<close> and a constant digest.\<close>

definition no_reply :: reply where
  "no_reply = \<lparr>rcode = ERR_NONE, rnum = 0, rbytes = [], rdetails = no_details,
     rinstaller = \<lparr>arm_hash = [], oem_hash = [], layout = 0\<rparr>, ractions = []\<rparr>"

definition test_env :: "bytes \<Rightarrow> environment" where
  "test_env img calls = (case calls of
       PAAL_Read loc off b n # _ \<Rightarrow>
         (let bs = take (unat n) (drop (unat off) img) in
          no_reply\<lparr>rbytes := bs, rnum := of_nat (length bs)\<rparr>)
     | _ \<Rightarrow> no_reply)"

definition test_platform :: "bytes \<Rightarrow> platform" where
  "test_platform img = \<lparr>env = test_env img,
     crypto = \<lparr>pal_mdHmacSha256 = (\<lambda>_ _. (0, replicate 32 0)), pal_plat_osGetRoT = (0, replicate 16 0),
       pal_mdInit = 0, pal_mdUpdate = (\<lambda>_ _. 0), pal_mdFinal = (\<lambda>_. (0, replicate 32 7)),
       pal_mdFree = (\<lambda>_. 0), key_derivation_backward_compat = False\<rparr>,
     aes = \<lparr>pal_initAes = 0, pal_setAesKey = (\<lambda>_ _. 0), pal_aesCTR = (\<lambda>_ ctr i. (0, i, ctr)),
       uninit = replicate 32 0\<rparr>\<rparr>"

definition test_setup :: ARM_UCFM_Setup_t where
  "test_setup = \<lparr>cfg_mode = UCFM_MODE_NONE_SHA_256, cfg_key = None, cfg_iv = None,
     cfg_hash = Some \<lparr>size_max = 32, bsize = 32, ptr = replicate 32 7\<rparr>, package_id = 0, package_size = 100,
     is_delta = 0\<rparr>"

definition fm_static :: fm where
  "fm_static = \<lparr>elems = (\<lambda>_. zero_element), arm_uc_queue = None, callback_pool_root = None,
     callbacks_pending = 0, plugin_error_pending = 0, notification_set = True, notifications = 0,
     scheduler_error_cb = None, trace = [], mem = (\<lambda>_. \<lparr>size_max = 64, bsize = 0, ptr = replicate 64 0\<rparr>),
     arm_uccc_event_handler = Some Fn_ARM_UC_HUB_ControlCenterEventHandler,
     arm_uc_authority_callback = None, arm_uc_authority_priority_callback = None,
     arm_uc_download_token_armed = False, arm_uc_install_token_armed = False,
     arm_uc_progress_callback = None, arm_uc_monitor_struct = None,
     paal_update_implementation = Some ARM_UCP_DELTA_PAAL,
     ucfm_handler = Some Fn_ARM_UC_HUB_FirmwareManagerEventHandler, setups = (\<lambda>_. test_setup),
     package_configuration = Some 0, package_hash = replicate 32 7, package_offset = 0,
     ready_to_receive = False, mdHandle = [], cipherHandle = \<lparr>aes_context = None, aes_iv = None\<rparr>,
     front_buffer = Some Buf_message, back_buffer = Some Buf_message2\<rparr>"

lemma test_platform_hashes: "hashes (test_platform img) (\<lambda>_. replicate 32 7)"
  by (simp add: hashes_def test_platform_def)

lemma test_platform_serves: "storage_serves (test_platform img) loc img"
  by (simp add: storage_serves_def test_platform_def test_env_def no_reply_def Let_def)

theorem verification_verdict_witness:
  "\<exists>n s0. \<forall>call. do { s \<leftarrow> arm_uc_internal_event_handler (test_platform (replicate 200 5)) call 3 fm_static;
      read_events (test_platform (replicate 200 5)) call n s } =
    do { s \<leftarrow> call Fn_ARM_UC_HUB_FirmwareManagerEventHandler UCFM_EVENT_FINALIZE_DONE s0; hash_done s }"
  using verification_verdict[where s = fm_static and c = 0 and f = Buf_message and b = Buf_message2 and
      h = Fn_ARM_UC_HUB_FirmwareManagerEventHandler, OF test_platform_hashes
      test_platform_serves[of "replicate 200 5"]]
  by (simp add: fm_static_def buffer_ok_def test_setup_def)

subsection \<open>Writing the fragments\<close>

text \<open>The fragments arrive one after another in the buffer \<open>b\<close>; all of them must be accepted.\<close>

fun write_fragments :: "platform \<Rightarrow> buf_addr \<Rightarrow> arm_uc_buffer_t list \<Rightarrow> 'z fm_scheme \<Rightarrow> 'z fm_scheme option" where
  "write_fragments pl b [] s = Some s"
| "write_fragments pl b (fr # frs) s = do {
     (result, s) \<leftarrow> ARM_UCFM_Write pl (Some b) (set_buf b fr s);
     if err_error result = 0 then write_fragments pl b frs s else None
   }"

text \<open>The data of a fragment, and the calls that store the fragments from an offset on, newest first.\<close>

definition fragment_data :: "arm_uc_buffer_t \<Rightarrow> bytes" where
  "fragment_data fr = take (unat (bsize fr)) (ptr fr)"

fun store_calls :: "u32 \<Rightarrow> u32 \<Rightarrow> arm_uc_buffer_t list \<Rightarrow> ext_call list" where
  "store_calls loc off [] = []"
| "store_calls loc off (fr # frs) =
     store_calls loc (off + bsize fr) frs @ [PAAL_Write loc off (fragment_data fr)]"

text \<open>
  C6. The fragments of an unencrypted package are stored without gaps, overlaps or changes: when
  all of them are accepted, the calls to the storage driver are one write for each fragment, in
  order, with the fragment's data, at the sum of the sizes of the fragments before it.
\<close>

theorem fragments_contiguous:
  assumes "write_fragments pl b frs s = Some s'"
    and "package_configuration s = Some c" and "cfg_mode (setups s c) = UCFM_MODE_NONE_SHA_256"
    and "paal_update_implementation s \<noteq> None"
  shows "trace s' = store_calls (package_id (setups s c)) (package_offset s) frs @ trace s \<and>
    package_offset s' = package_offset s + sum_list (map bsize frs)"
  using assms
proof (induction frs arbitrary: s)
  case (Cons fr frs)
  let ?w = "PAAL_Write (package_id (setups s c)) (package_offset s) (fragment_data fr)"
  let ?s1 = "(set_buf b fr s)\<lparr>trace := ?w # trace s\<rparr>"
  let ?s2 = "?s1\<lparr>package_offset := package_offset s + bsize fr\<rparr>"
  from Cons.prems(1) obtain r s1 where w: "ARM_UCFM_Write pl (Some b) (set_buf b fr s) = Some (r, s1)"
    and r: "err_error r = 0" and rest: "write_fragments pl b frs s1 = Some s'"
    by (auto split: bind_splits if_splits)
  have bad: "err_error FIRM_ERR_INVALID_PARAMETER \<noteq> 0" "err_error FIRM_ERR_UNINITIALIZED \<noteq> 0"
    by (simp_all add: err_error_def TWO_CC_def)
  have s1: "s1 = ?s2"
    using w r bad Cons.prems(2-)
    by (auto simp: ARM_UCFM_Write_def configuration_of_def ARM_UCP_Write_def paal_call_def ext_def Let_def
        fragment_data_def split: if_splits)
  have "trace s' = store_calls (package_id (setups s c)) (package_offset s + bsize fr) frs @ ?w # trace s \<and>
      package_offset s' = package_offset s + bsize fr + sum_list (map bsize frs)"
    using Cons.IH[OF rest] Cons.prems(2-) s1 by simp
  then show ?case by (simp add: add.assoc)
qed simp

theorem fragments_contiguous_witness:
  "\<exists>s'. write_fragments (test_platform []) Buf_message
      [\<lparr>size_max = 4, bsize = 4, ptr = [1, 2, 3, 4]\<rparr>, \<lparr>size_max = 4, bsize = 2, ptr = [5, 6, 7, 8]\<rparr>]
      (fm_static\<lparr>ready_to_receive := True\<rparr>) = Some s' \<and>
    trace s' = [PAAL_Write 0 4 [5, 6], PAAL_Write 0 0 [1, 2, 3, 4]]"
proof -
  let ?frs = "[\<lparr>size_max = 4, bsize = 4, ptr = [1, 2, 3, 4]\<rparr>, \<lparr>size_max = 4, bsize = 2, ptr = [5, 6, 7, 8]\<rparr>] ::
    arm_uc_buffer_t list"
  let ?s = "fm_static\<lparr>ready_to_receive := True\<rparr>"
  have "\<exists>s'. write_fragments (test_platform []) Buf_message ?frs ?s = Some s'"
    by (simp add: ARM_UCFM_Write_def configuration_of_def ARM_UCP_Write_def paal_call_def ext_def Let_def
        fm_static_def test_setup_def test_platform_def test_env_def no_reply_def err_error_def)
  then obtain s' where s': "write_fragments (test_platform []) Buf_message ?frs ?s = Some s'" by blast
  have "trace s' = store_calls 0 0 ?frs"
    using fragments_contiguous[OF s', of 0] by (simp add: fm_static_def test_setup_def)
  then show ?thesis using s' by (auto simp: fragment_data_def)
qed

subsection \<open>When data is accepted\<close>

text \<open>After a package was closed nothing is written until the next one is prepared.\<close>

lemma closed_after_finalize:
  assumes "ARM_UCFM_Finalize pl (Some f) back s = Some (r, s')" and "ready_to_receive s"
    and "size_max (mem s f) mod 32 = 0" and "\<And>b. back = Some b \<Longrightarrow> size_max (mem s b) mod 32 = 0"
    and "ARM_UCFM_Write pl fr s' = Some (r', s'')"
  shows "err_error r' \<noteq> 0 \<and> s'' = s'"
proof -
  have "\<not> ready_to_receive s'"
    using assms(1-4) by (auto simp: ARM_UCFM_Finalize_def Let_def split: if_splits bind_splits prod.splits)
  moreover have "err_error FIRM_ERR_INVALID_PARAMETER \<noteq> 0" "err_error FIRM_ERR_UNINITIALIZED \<noteq> 0"
    by (simp_all add: err_error_def TWO_CC_def)
  ultimately show ?thesis using assms(5)
    by (auto simp: ARM_UCFM_Write_def split: option.splits if_splits)
qed

end
