(* ===== verification/UC_Source_Manager.thy ===== *)
theory UC_Source_Manager
  imports UC_Firmware_Manager
begin

text \<open>
  \<open>modules/source-manager/source/arm_uc_source_manager.c\<close> in the profile of the cloud client: a
  registry of ten download sources, one request in flight, and for each request the cheapest
  source that has not failed. A source that is busy is asked again after a delay. A source is
  called through its table of functions; it fills the buffer later and signals an event, so its
  answer to a request is a status only.

  A source is a number here and the empty slot of the registry is \<open>None\<close>. The parts of the file
  for another profile, without the timer, are not modelled.
\<close>

subsection \<open>State\<close>

abbreviation (input) MAX_SOURCES :: nat where "MAX_SOURCES \<equiv> 10"
abbreviation (input) MAX_BUSY_RETRIES :: u32 where "MAX_BUSY_RETRIES \<equiv> 2"

datatype query_type_t =
  QUERY_TYPE_UNKNOWN | QUERY_TYPE_MANIFEST_DEFAULT | QUERY_TYPE_MANIFEST_URL | QUERY_TYPE_FIRMWARE
  | QUERY_TYPE_KEYTABLE

record request_t =
  req_uri :: "arm_uc_uri_t option"
  req_buffer :: "buf_addr option"
  req_offset :: u32
  req_type :: query_type_t
  excludes :: "u8 list"
  current_source :: u8

record sm = fm +
  source_registry :: "nat option list"
  event_cb :: "uc_fn option"
  ucsm_last_error :: arm_uc_error_t
  request_in_flight :: request_t
  async_retry_timer_id :: u32
  num_busy_retries :: u32

abbreviation (input) EVENT_NOTIFICATION :: u32 where "EVENT_NOTIFICATION \<equiv> 0"
abbreviation (input) EVENT_MANIFEST :: u32 where "EVENT_MANIFEST \<equiv> 1"
abbreviation (input) EVENT_FIRMWARE :: u32 where "EVENT_FIRMWARE \<equiv> 2"
abbreviation (input) EVENT_KEYTABLE :: u32 where "EVENT_KEYTABLE \<equiv> 3"
abbreviation (input) EVENT_ERROR :: u32 where "EVENT_ERROR \<equiv> 4"
abbreviation (input) EVENT_ERROR_SOURCE :: u32 where "EVENT_ERROR_SOURCE \<equiv> 5"
abbreviation (input) EVENT_ERROR_BUFFER_SIZE :: u32 where "EVENT_ERROR_BUFFER_SIZE \<equiv> 6"

abbreviation (input) ARM_UC_SM_EVENT_NOTIFICATION :: u32 where "ARM_UC_SM_EVENT_NOTIFICATION \<equiv> 0"
abbreviation (input) ARM_UC_SM_EVENT_MANIFEST :: u32 where "ARM_UC_SM_EVENT_MANIFEST \<equiv> 1"
abbreviation (input) ARM_UC_SM_EVENT_FIRMWARE :: u32 where "ARM_UC_SM_EVENT_FIRMWARE \<equiv> 2"
abbreviation (input) ARM_UC_SM_EVENT_KEYTABLE :: u32 where "ARM_UC_SM_EVENT_KEYTABLE \<equiv> 3"
abbreviation (input) ARM_UC_SM_EVENT_ERROR :: u32 where "ARM_UC_SM_EVENT_ERROR \<equiv> 4"
abbreviation (input) ARM_UC_SM_EVENT_ERROR_SOURCE :: u32 where "ARM_UC_SM_EVENT_ERROR_SOURCE \<equiv> 5"
abbreviation (input) ARM_UC_SM_EVENT_ERROR_BUFFER_SIZE :: u32 where "ARM_UC_SM_EVENT_ERROR_BUFFER_SIZE \<equiv> 6"

subsection \<open>Errors, the request, the registry\<close>

definition ARM_UCSM_SetError :: "arm_uc_error_t \<Rightarrow> 'z sm_scheme \<Rightarrow> 'z sm_scheme" where
  "ARM_UCSM_SetError an_error s = s\<lparr>ucsm_last_error := an_error\<rparr>"

definition ARM_UCSM_GetError :: "'z sm_scheme \<Rightarrow> arm_uc_error_t" where
  "ARM_UCSM_GetError s = ucsm_last_error s"

definition initial_request :: request_t where
  "initial_request = \<lparr>req_uri = None, req_buffer = None, req_offset = 0, req_type = QUERY_TYPE_UNKNOWN,
     excludes = replicate MAX_SOURCES 0, current_source = of_nat MAX_SOURCES\<rparr>"

definition ARM_UCSM_RequestStructInit :: "'z sm_scheme \<Rightarrow> 'z sm_scheme" where
  "ARM_UCSM_RequestStructInit s = s\<lparr>request_in_flight := initial_request\<rparr>"

definition ARM_UCSM_SourceRegistryInit :: "'z sm_scheme \<Rightarrow> arm_uc_error_t \<times> 'z sm_scheme" where
  "ARM_UCSM_SourceRegistryInit s = (ERR_NONE, s\<lparr>source_registry := replicate MAX_SOURCES None\<rparr>)"

fun index_loop :: "nat option list \<Rightarrow> nat option \<Rightarrow> nat \<Rightarrow> nat \<Rightarrow> nat" where
  "index_loop reg src i 0 = MAX_SOURCES"
| "index_loop reg src i (Suc n) = (if reg ! i = src then i else index_loop reg src (Suc i) n)"

definition ARM_UCSM_GetIndexOf :: "nat option \<Rightarrow> 'z sm_scheme \<Rightarrow> nat" where
  "ARM_UCSM_GetIndexOf src s = index_loop (source_registry s) src 0 MAX_SOURCES"

definition ARM_UCSM_GetIndexOfSource :: "nat option \<Rightarrow> 'z sm_scheme \<Rightarrow> nat" where
  "ARM_UCSM_GetIndexOfSource src s = ARM_UCSM_GetIndexOf src s"

definition ARM_UCSM_SourceRegistryAdd :: "nat \<Rightarrow> 'z sm_scheme \<Rightarrow> arm_uc_error_t \<times> 'z sm_scheme" where
  "ARM_UCSM_SourceRegistryAdd src s =
     (let index = ARM_UCSM_GetIndexOf None s in
      if index = MAX_SOURCES
      then (SOMA_ERR_SOURCE_REGISTRY_FULL, ARM_UCSM_SetError SOMA_ERR_SOURCE_REGISTRY_FULL s)
      else (ERR_NONE, s\<lparr>source_registry := (source_registry s)[index := Some src]\<rparr>))"

definition ARM_UCSM_SourceRegistryRemove :: "nat \<Rightarrow> 'z sm_scheme \<Rightarrow> arm_uc_error_t \<times> 'z sm_scheme" where
  "ARM_UCSM_SourceRegistryRemove src s =
     (let index = ARM_UCSM_GetIndexOfSource (Some src) s in
      if index = MAX_SOURCES
      then (SOMA_ERR_SOURCE_NOT_FOUND, ARM_UCSM_SetError SOMA_ERR_SOURCE_NOT_FOUND s)
      else (ERR_NONE, s\<lparr>source_registry := (source_registry s)[index := None]\<rparr>))"

subsection \<open>Choosing a source\<close>

text \<open>
  The cost of one source for a request; the bits of the capabilities are \<open>manifest_default\<close> (1),
  \<open>manifest_url\<close> (2), \<open>firmware\<close> (3) and \<open>keytable\<close> (4).
\<close>

definition source_cost ::
    "environment \<Rightarrow> arm_uc_uri_t option \<Rightarrow> query_type_t \<Rightarrow> nat \<Rightarrow> 'z sm_scheme \<Rightarrow>
     (arm_uc_error_t \<times> u32) \<times> 'z sm_scheme"
where
  "source_cost w uri type src s =
     (let (cap, s) = ext w (SRC_GetCapabilities src) s;
          none = ((SOMA_ERR_NO_ROUTE_TO_SOURCE, 0xFFFFFFFF), s);
          ask = (\<lambda>t. let (r, s) = ext w (SRC_GetCost src t) s in ((rcode r, rnum r), s))
      in case type of
           QUERY_TYPE_UNKNOWN \<Rightarrow> none
         | QUERY_TYPE_MANIFEST_DEFAULT \<Rightarrow> (if uri = None \<and> bit (rnum cap) 1 then ask 1 else none)
         | QUERY_TYPE_MANIFEST_URL \<Rightarrow> (if uri \<noteq> None \<and> bit (rnum cap) 2 then ask 2 else none)
         | QUERY_TYPE_FIRMWARE \<Rightarrow> (if uri \<noteq> None \<and> bit (rnum cap) 3 then ask 3 else none)
         | QUERY_TYPE_KEYTABLE \<Rightarrow> (if uri \<noteq> None \<and> bit (rnum cap) 4 then ask 4 else none))"

text \<open>The loop over the registry; it returns the smallest cost and its index.\<close>

fun lowest_cost_loop ::
    "environment \<Rightarrow> arm_uc_uri_t option \<Rightarrow> query_type_t \<Rightarrow> u8 list \<Rightarrow> nat \<Rightarrow> nat \<Rightarrow> u32 \<times> nat \<Rightarrow>
     'z sm_scheme \<Rightarrow> (u32 \<times> nat) \<times> 'z sm_scheme"
where
  "lowest_cost_loop w uri type excl i 0 best s = (best, s)"
| "lowest_cost_loop w uri type excl i (Suc n) best s =
     (case source_registry s ! i of
        None \<Rightarrow> lowest_cost_loop w uri type excl (Suc i) n best s
      | Some src \<Rightarrow>
          (if excl ! i = 1 then lowest_cost_loop w uri type excl (Suc i) n best s
           else let ((retval, cost), s) = source_cost w uri type src s in
             if err_error retval \<noteq> 0
             then lowest_cost_loop w uri type excl (Suc i) n best (ARM_UCSM_SetError retval s)
             else lowest_cost_loop w uri type excl (Suc i) n (if cost < fst best then (cost, i) else best) s))"

definition ARM_UCSM_SourceRegistryGetLowestCost ::
    "environment \<Rightarrow> arm_uc_uri_t option \<Rightarrow> query_type_t \<Rightarrow> u8 list \<Rightarrow> nat \<Rightarrow> 'z sm_scheme \<Rightarrow>
     (arm_uc_error_t \<times> nat) \<times> 'z sm_scheme"
where
  "ARM_UCSM_SourceRegistryGetLowestCost w uri type excl index s =
     (let ((min_cost, min_cost_index), s) = lowest_cost_loop w uri type excl 0 MAX_SOURCES (0xFFFFFFFF, 0) s in
      if min_cost = 0xFFFFFFFF
      then ((SOMA_ERR_NO_ROUTE_TO_SOURCE, index), ARM_UCSM_SetError SOMA_ERR_NO_ROUTE_TO_SOURCE s)
      else ((ERR_NONE, min_cost_index), s))"

subsection \<open>Retrying\<close>

definition ARM_UCSM_ScheduleAsyncBusyRetryGet :: "environment \<Rightarrow> 'z sm_scheme \<Rightarrow> 'z sm_scheme" where
  "ARM_UCSM_ScheduleAsyncBusyRetryGet w s =
     (let (pal_status, s) =
        (if async_retry_timer_id s = 0
         then let (r, s) = ext w PAL_TimerCreate s in
              (rcode r, if rcode r = 0 then s\<lparr>async_retry_timer_id := rnum r\<rparr> else s)
         else (0, s));
          (pal_status, s) =
        (if pal_status = 0 then let (r, s) = ext w PAL_TimerStart s in (rcode r, s) else (pal_status, s))
      in if pal_status \<noteq> 0
         then post Cb_async_retry_timer_callback_struct (Some Fn_ARM_UCSM_DoAsyncBusyRetryGet) 0
                (s\<lparr>async_retry_timer_id := 0\<rparr>)
         else s)"

definition ARM_UCSM_PostAsyncBusyRetryGet :: "environment \<Rightarrow> 'z sm_scheme \<Rightarrow> 'z sm_scheme" where
  "ARM_UCSM_PostAsyncBusyRetryGet w s =
     (let (_, s) = ext w PAL_TimerStop s in
      post Cb_async_retry_timer_callback_struct (Some Fn_ARM_UCSM_DoAsyncBusyRetryGet) 0 s)"

subsection \<open>The request in flight\<close>

lemma post_sm [simp]:
  "source_registry (post st f param s) = source_registry s"
  "event_cb (post st f param s) = event_cb s"
  "ucsm_last_error (post st f param s) = ucsm_last_error s"
  "request_in_flight (post st f param s) = request_in_flight s"
  "num_busy_retries (post st f param s) = num_busy_retries s"
  using post_shape[of st f param s] by auto

lemma ext_sm [simp]:
  "source_registry (snd (ext w c s)) = source_registry s"
  "event_cb (snd (ext w c s)) = event_cb s"
  "ucsm_last_error (snd (ext w c s)) = ucsm_last_error s"
  "request_in_flight (snd (ext w c s)) = request_in_flight s"
  "num_busy_retries (snd (ext w c s)) = num_busy_retries s"
  by (simp_all add: ext_def)

text \<open>A source is asked and changes nothing but the record of calls.\<close>

lemma source_cost_shape:
  "\<exists>t. snd (source_cost w uri type src s) = s\<lparr>trace := t\<rparr>"
  by (cases type) (auto simp: source_cost_def ext_def Let_def)

lemma lowest_cost_loop_shape:
  "\<exists>t e. snd (lowest_cost_loop w uri type excl i n best s) = s\<lparr>trace := t, ucsm_last_error := e\<rparr>"
proof (induction n arbitrary: i best s)
  case 0
  have "s = s\<lparr>trace := trace s, ucsm_last_error := ucsm_last_error s\<rparr>" by simp
  then show ?case by (metis lowest_cost_loop.simps(1) snd_conv)
next
  case (Suc n)
  show ?case
  proof (cases "source_registry s ! i = None \<or> excl ! i = 1")
    case True
    then show ?thesis using Suc by (auto split: option.splits)
  next
    case False
    then obtain src where src: "source_registry s ! i = Some src" "excl ! i \<noteq> 1" by auto
    obtain r c s1 where c: "source_cost w uri type src s = ((r, c), s1)" by (metis surj_pair)
    obtain t where t: "s1 = s\<lparr>trace := t\<rparr>" using source_cost_shape[of w uri type src s] c by auto
    show ?thesis using src c Suc[of "Suc i" best "ARM_UCSM_SetError r s1"]
        Suc[of "Suc i" "if c < fst best then (c, i) else best" s1]
      by (auto simp: t ARM_UCSM_SetError_def)
  qed
qed

lemma lowest_cost_loop_index:
  assumes "lowest_cost_loop w uri type excl i n best s = ((c, k), s')"
  shows "(c, k) = best \<or> (i \<le> k \<and> k < i + n \<and> excl ! k \<noteq> 1 \<and> source_registry s ! k \<noteq> None)"
  using assms
proof (induction n arbitrary: i best s)
  case (Suc n)
  show ?case
  proof (cases "source_registry s ! i = None \<or> excl ! i = 1")
    case True
    then show ?thesis using Suc.IH[of "Suc i" best s] Suc.prems by (auto split: option.splits)
  next
    case False
    then obtain src where src: "source_registry s ! i = Some src" "excl ! i \<noteq> 1" by auto
    obtain r x s1 where x: "source_cost w uri type src s = ((r, x), s1)" by (metis surj_pair)
    obtain t where t: "s1 = s\<lparr>trace := t\<rparr>" using source_cost_shape[of w uri type src s] x by auto
    show ?thesis using src x Suc.prems Suc.IH[of "Suc i" best "ARM_UCSM_SetError r s1"]
        Suc.IH[of "Suc i" "(x, i)" s1] Suc.IH[of "Suc i" best s1]
      by (auto simp: t ARM_UCSM_SetError_def split: if_splits)
  qed
qed auto

lemma lowest_cost_shape:
  "\<exists>t e. snd (ARM_UCSM_SourceRegistryGetLowestCost w uri type excl index s) =
     s\<lparr>trace := t, ucsm_last_error := e\<rparr>"
proof -
  obtain c k s1 where l: "lowest_cost_loop w uri type excl 0 10 (0xFFFFFFFF, 0) s = ((c, k), s1)"
    by (metis surj_pair)
  then obtain t e where "s1 = s\<lparr>trace := t, ucsm_last_error := e\<rparr>"
    using lowest_cost_loop_shape[of w uri type excl 0 10 "(0xFFFFFFFF, 0)" s] by auto
  with l show ?thesis
    by (auto simp: ARM_UCSM_SourceRegistryGetLowestCost_def ARM_UCSM_SetError_def)
qed

lemma lowest_cost_result:
  assumes "ARM_UCSM_SourceRegistryGetLowestCost w uri type excl index s = ((r, k), s')"
  shows "r = SOMA_ERR_NO_ROUTE_TO_SOURCE \<or>
    (r = ERR_NONE \<and> k < MAX_SOURCES \<and> excl ! k \<noteq> 1 \<and> source_registry s ! k \<noteq> None)"
proof -
  obtain c k' s1 where l: "lowest_cost_loop w uri type excl 0 10 (0xFFFFFFFF, 0) s = ((c, k'), s1)"
    by (metis surj_pair)
  with assms lowest_cost_loop_index[OF l] show ?thesis
    by (auto simp: ARM_UCSM_SourceRegistryGetLowestCost_def split: if_splits)
qed

text \<open>The call of the chosen source.\<close>

definition source_get :: "environment \<Rightarrow> request_t \<Rightarrow> nat \<Rightarrow> 'z sm_scheme \<Rightarrow> arm_uc_error_t \<times> 'z sm_scheme" where
  "source_get w req src s =
     (case req_type req of
        QUERY_TYPE_MANIFEST_DEFAULT \<Rightarrow>
          (let (r, s) = ext w (SRC_GetManifestDefault src (req_buffer req) (req_offset req)) s in (rcode r, s))
      | QUERY_TYPE_MANIFEST_URL \<Rightarrow>
          (let (r, s) = ext w (SRC_GetManifestURL src (req_uri req) (req_buffer req) (req_offset req)) s in (rcode r, s))
      | QUERY_TYPE_FIRMWARE \<Rightarrow>
          (let (r, s) = ext w (SRC_GetFirmwareFragment src (req_uri req) (req_buffer req) (req_offset req)) s
           in (rcode r, s))
      | QUERY_TYPE_KEYTABLE \<Rightarrow>
          (let (r, s) = ext w (SRC_GetKeytableURL src (req_uri req) (req_buffer req)) s in (rcode r, s))
      | QUERY_TYPE_UNKNOWN \<Rightarrow>
          (if req_uri req = None then (SOMA_ERR_INVALID_URI, ARM_UCSM_SetError SOMA_ERR_INVALID_URI s)
           else (SOMA_ERR_INVALID_REQUEST, ARM_UCSM_SetError SOMA_ERR_INVALID_REQUEST s)))"

lemma source_get_shape: "\<exists>t e. snd (source_get w req src s) = s\<lparr>trace := t, ucsm_last_error := e\<rparr>"
proof -
  have "\<exists>t' e. s\<lparr>trace := t\<rparr> = s\<lparr>trace := t', ucsm_last_error := e\<rparr>" for t
    by (rule exI[of _ t], rule exI[of _ "ucsm_last_error s"]) simp
  moreover have "\<exists>t e'. s\<lparr>ucsm_last_error := e\<rparr> = s\<lparr>trace := t, ucsm_last_error := e'\<rparr>" for e
    by (rule exI[of _ "trace s"], rule exI[of _ e]) simp
  ultimately show ?thesis
    by (cases "req_type req") (simp_all add: source_get_def ext_def ARM_UCSM_SetError_def)
qed

text \<open>
  The request is the one in flight. \<open>None\<close> is a source called through an empty slot or an access
  outside of the array of excluded sources; neither happens. Each round excludes one more source.
\<close>

definition excluded_left :: "u8 list \<Rightarrow> nat" where
  "excluded_left xs = card {i. i < length xs \<and> xs ! i \<noteq> 1}"

lemma excluded_left_less:
  assumes "i < length xs" and "xs ! i \<noteq> 1"
  shows "excluded_left (xs[i := 1]) < excluded_left xs"
proof -
  have "{j. j < length (xs[i := 1]) \<and> xs[i := 1] ! j \<noteq> 1} \<subset> {j. j < length xs \<and> xs ! j \<noteq> 1}"
    using assms by (auto simp: nth_list_update)
  then show ?thesis unfolding excluded_left_def by (intro psubset_card_mono) auto
qed

definition lookup_source ::
    "environment \<Rightarrow> 'z sm_scheme \<Rightarrow> (arm_uc_error_t \<times> nat \<times> 'z sm_scheme) option" where
  "lookup_source w s =
     (let req = request_in_flight s;
          ((retval, index), s) = ARM_UCSM_SourceRegistryGetLowestCost w (req_uri req) (req_type req) (excludes req) 0 s
      in if err_error retval = 0
         then (case source_registry s ! index of
                 None \<Rightarrow> None
               | Some src \<Rightarrow> let (retval, s) = source_get w req src s in Some (retval, index, s))
         else Some (retval, index, s))"

lemma lookup_source_shape:
  assumes "lookup_source w s = Some (r, k, s')"
  shows "\<exists>t e. s' = s\<lparr>trace := t, ucsm_last_error := e\<rparr>"
    and "r = SOMA_ERR_NO_ROUTE_TO_SOURCE \<or> (k < MAX_SOURCES \<and> excludes (request_in_flight s) ! k \<noteq> 1)"
proof -
  let ?req = "request_in_flight s"
  obtain r1 k1 s1 where l: "ARM_UCSM_SourceRegistryGetLowestCost w (req_uri ?req) (req_type ?req)
      (excludes ?req) 0 s = ((r1, k1), s1)" by (metis surj_pair)
  obtain t e where s1: "s1 = s\<lparr>trace := t, ucsm_last_error := e\<rparr>"
    using lowest_cost_shape[of w "req_uri ?req" "req_type ?req" "excludes ?req" 0 s] l by auto
  show "\<exists>t e. s' = s\<lparr>trace := t, ucsm_last_error := e\<rparr>"
  proof (cases "err_error r1 = 0")
    case True
    then obtain src where "source_get w ?req src s1 = (r, s')"
      using assms l by (auto simp: lookup_source_def split: option.splits prod.splits)
    then show ?thesis using source_get_shape[of w ?req src s1] s1 by auto
  next
    case False
    then show ?thesis using assms l s1 by (auto simp: lookup_source_def)
  qed
  show "r = SOMA_ERR_NO_ROUTE_TO_SOURCE \<or> (k < MAX_SOURCES \<and> excludes ?req ! k \<noteq> 1)"
    using lowest_cost_result[OF l] assms l
    by (auto simp: lookup_source_def err_error_def split: option.splits prod.splits if_splits)
qed

function ARM_UCSM_Get :: "environment \<Rightarrow> 'z sm_scheme \<Rightarrow> (arm_uc_error_t \<times> 'z sm_scheme) option" where
  "ARM_UCSM_Get w s =
     (case lookup_source w s of
        None \<Rightarrow> None
      | Some (retval, index, s) \<Rightarrow>
          (if retval = SRCE_ERR_BUSY then Some (ERR_NONE, ARM_UCSM_ScheduleAsyncBusyRetryGet w s)
           else if retval = SOMA_ERR_NO_ROUTE_TO_SOURCE then Some (retval, s)
           else if err_error retval \<noteq> 0 then
             (let s = ARM_UCSM_SetError retval s; req = request_in_flight s in
              if index < length (excludes req) then
                (case ARM_UCSM_Get w (s\<lparr>request_in_flight := req\<lparr>excludes := (excludes req)[index := 1]\<rparr>\<rparr>) of
                   None \<Rightarrow> None
                 | Some (retval, s) \<Rightarrow>
                     Some (retval, if ARM_UC_IS_ERROR retval then ARM_UCSM_SetError retval s else s))
              else None)
           else Some (ERR_NONE, s\<lparr>request_in_flight := (request_in_flight s)\<lparr>current_source := of_nat index\<rparr>\<rparr>)))"
  by pat_completeness auto
termination
proof (relation "measure (\<lambda>(_, s). excluded_left (excludes (request_in_flight s)))")
  fix w :: environment and s :: "'z sm_scheme" and x1 x2 retval index s' s1 req
  assume l: "lookup_source w s = Some (x1 :: arm_uc_error_t \<times> nat \<times> 'z sm_scheme)" "(retval, x2) = x1" "(index, s') = x2"
    and n: "retval \<noteq> SOMA_ERR_NO_ROUTE_TO_SOURCE"
    and s1: "s1 = ARM_UCSM_SetError retval s'" and req: "req = request_in_flight s1"
    and i: "index < length (excludes req)"
  obtain t e where "s' = s\<lparr>trace := t, ucsm_last_error := e\<rparr>" using lookup_source_shape(1) l by blast
  moreover have "excludes (request_in_flight s) ! index \<noteq> 1" using lookup_source_shape(2) l n by blast
  ultimately have "excluded_left ((excludes req)[index := 1]) < excluded_left (excludes (request_in_flight s))"
    using i excluded_left_less by (simp add: req s1 ARM_UCSM_SetError_def)
  then show "((w, s1\<lparr>request_in_flight := req\<lparr>excludes := (excludes req)[index := 1]\<rparr>\<rparr>), w, s)
      \<in> measure (\<lambda>(_, s). excluded_left (excludes (request_in_flight s)))" by simp
qed simp

definition ARM_UCSM_DoAsyncBusyRetryGet :: "environment \<Rightarrow> 'z sm_scheme \<Rightarrow> 'z sm_scheme option" where
  "ARM_UCSM_DoAsyncBusyRetryGet w s =
     (let s = s\<lparr>num_busy_retries := num_busy_retries s + 1\<rparr> in
      if num_busy_retries s > MAX_BUSY_RETRIES then
        (let s = ARM_UCSM_RequestStructInit (s\<lparr>num_busy_retries := 0\<rparr>);
             s = ARM_UCSM_SetError SOMA_ERR_UNSPECIFIED s
         in Some (post Cb_event_cb_storage (event_cb s) ARM_UC_SM_EVENT_ERROR s))
      else do {
        (retval, s) \<leftarrow> ARM_UCSM_Get w s;
        Some (if err_error retval \<noteq> 0 then ARM_UCSM_ScheduleAsyncBusyRetryGet w s else s)
      })"

subsection \<open>Events of the sources\<close>

definition ARM_UCSM_TranslateEvent :: "u32 \<Rightarrow> u32" where
  "ARM_UCSM_TranslateEvent source_event =
     (if source_event = EVENT_NOTIFICATION then ARM_UC_SM_EVENT_NOTIFICATION
      else if source_event = EVENT_MANIFEST then ARM_UC_SM_EVENT_MANIFEST
      else if source_event = EVENT_FIRMWARE then ARM_UC_SM_EVENT_FIRMWARE
      else if source_event = EVENT_KEYTABLE then ARM_UC_SM_EVENT_KEYTABLE
      else if source_event = EVENT_ERROR then ARM_UC_SM_EVENT_ERROR
      else if source_event = EVENT_ERROR_SOURCE then ARM_UC_SM_EVENT_ERROR_SOURCE
      else if source_event = EVENT_ERROR_BUFFER_SIZE then ARM_UC_SM_EVENT_ERROR_BUFFER_SIZE
      else ARM_UC_SM_EVENT_ERROR)"

text \<open>
  The excluded sources are an array of ten entries; the index of the current source is ten while
  no source handles the request.
\<close>

definition ARM_UCSM_CallbackWrapper :: "environment \<Rightarrow> u32 \<Rightarrow> 'z sm_scheme \<Rightarrow> 'z sm_scheme option" where
  "ARM_UCSM_CallbackWrapper w source_event s =
     (let event = ARM_UCSM_TranslateEvent source_event in
      if event = ARM_UC_SM_EVENT_ERROR \<and> req_type (request_in_flight s) \<noteq> QUERY_TYPE_UNKNOWN then do {
        let req = request_in_flight s;
        excl \<leftarrow> wr (excludes req) (unat (current_source req)) 1;
        (retval, s) \<leftarrow> ARM_UCSM_Get w (s\<lparr>request_in_flight := req\<lparr>excludes := excl\<rparr>\<rparr>);
        if retval \<noteq> ERR_NONE then
          (let s = ARM_UCSM_SetError retval (ARM_UCSM_RequestStructInit s)
           in Some (post Cb_event_cb_storage (event_cb s) event s))
        else Some s
      }
      else
        (let s = ARM_UCSM_RequestStructInit s
         in Some (post Cb_event_cb_storage (event_cb s) event s)))"

subsection \<open>Interface\<close>

definition ARM_UCSM_Initialize :: "uc_fn option \<Rightarrow> 'z sm_scheme \<Rightarrow> arm_uc_error_t \<times> 'z sm_scheme" where
  "ARM_UCSM_Initialize cb s = ARM_UCSM_SourceRegistryInit (s\<lparr>event_cb := cb\<rparr>)"

fun uninit_loop :: "environment \<Rightarrow> nat \<Rightarrow> nat \<Rightarrow> 'z sm_scheme \<Rightarrow> 'z sm_scheme" where
  "uninit_loop w i 0 s = s"
| "uninit_loop w i (Suc n) s =
     (case source_registry s ! i of
        None \<Rightarrow> uninit_loop w (Suc i) n s
      | Some src \<Rightarrow>
          (let (_, s) = ext w (SRC_Uninitialize src) s in
           uninit_loop w (Suc i) n (s\<lparr>source_registry := (source_registry s)[i := None]\<rparr>)))"

definition ARM_UCSM_Uninitialize :: "environment \<Rightarrow> 'z sm_scheme \<Rightarrow> arm_uc_error_t \<times> 'z sm_scheme" where
  "ARM_UCSM_Uninitialize w s = (ERR_NONE, uninit_loop w 0 MAX_SOURCES s)"

definition ARM_UCSM_AddSource :: "environment \<Rightarrow> nat \<Rightarrow> 'z sm_scheme \<Rightarrow> arm_uc_error_t \<times> 'z sm_scheme" where
  "ARM_UCSM_AddSource w src s =
     (if ARM_UCSM_GetIndexOfSource (Some src) s \<noteq> MAX_SOURCES then (ERR_NONE, s)
      else let (_, s) = ext w (SRC_Initialize src) s in ARM_UCSM_SourceRegistryAdd src s)"

definition ARM_UCSM_RemoveSource :: "environment \<Rightarrow> nat \<Rightarrow> 'z sm_scheme \<Rightarrow> arm_uc_error_t \<times> 'z sm_scheme" where
  "ARM_UCSM_RemoveSource w src s =
     (let (err, s) = ARM_UCSM_SourceRegistryRemove src s in
      if err = ERR_NONE then let (_, s) = ext w (SRC_Uninitialize src) s in (err, s) else (err, s))"

definition ARM_UCSM_GetCommon ::
    "environment \<Rightarrow> arm_uc_uri_t option \<Rightarrow> buf_addr option \<Rightarrow> u32 \<Rightarrow> query_type_t \<Rightarrow> 'z sm_scheme \<Rightarrow>
     (arm_uc_error_t \<times> 'z sm_scheme) option"
where
  "ARM_UCSM_GetCommon w uri buffer offset type s = do {
     let s = ARM_UCSM_RequestStructInit s;
     let s = s\<lparr>request_in_flight := (request_in_flight s)\<lparr>req_uri := uri, req_buffer := buffer,
                req_offset := offset, req_type := type\<rparr>\<rparr>;
     (retval, s) \<leftarrow> ARM_UCSM_Get w s;
     Some (retval, if retval \<noteq> ERR_NONE then ARM_UCSM_RequestStructInit (ARM_UCSM_SetError retval s) else s)
   }"

definition ARM_UCSM_GetManifest ::
    "environment \<Rightarrow> buf_addr option \<Rightarrow> u32 \<Rightarrow> 'z sm_scheme \<Rightarrow> (arm_uc_error_t \<times> 'z sm_scheme) option" where
  "ARM_UCSM_GetManifest w buffer offset s = ARM_UCSM_GetCommon w None buffer offset QUERY_TYPE_MANIFEST_DEFAULT s"

definition ARM_UCSM_GetManifestFrom ::
    "environment \<Rightarrow> arm_uc_uri_t option \<Rightarrow> buf_addr option \<Rightarrow> u32 \<Rightarrow> 'z sm_scheme \<Rightarrow>
     (arm_uc_error_t \<times> 'z sm_scheme) option" where
  "ARM_UCSM_GetManifestFrom w uri buffer offset s = ARM_UCSM_GetCommon w uri buffer offset QUERY_TYPE_MANIFEST_URL s"

definition ARM_UCSM_GetFirmwareFragment ::
    "environment \<Rightarrow> arm_uc_uri_t option \<Rightarrow> buf_addr option \<Rightarrow> u32 \<Rightarrow> 'z sm_scheme \<Rightarrow>
     (arm_uc_error_t \<times> 'z sm_scheme) option" where
  "ARM_UCSM_GetFirmwareFragment w uri buffer offset s = ARM_UCSM_GetCommon w uri buffer offset QUERY_TYPE_FIRMWARE s"

definition ARM_UCSM_GetKeytable ::
    "environment \<Rightarrow> arm_uc_uri_t option \<Rightarrow> buf_addr option \<Rightarrow> 'z sm_scheme \<Rightarrow>
     (arm_uc_error_t \<times> 'z sm_scheme) option" where
  "ARM_UCSM_GetKeytable w uri buffer s = ARM_UCSM_GetCommon w uri buffer 0 QUERY_TYPE_KEYTABLE s"

declare ARM_UCSM_Get.simps [simp del]

subsection \<open>Sources are tried in the order of their costs\<close>

text \<open>
  The sources are steady when their answers depend on the call only: then each source has one
  capability, one cost and one answer for the request.
\<close>

definition steady :: "environment \<Rightarrow> bool" where
  "steady w = (\<forall>c t t'. w (c # t) = w (c # t'))"

lemma steady_ext: "steady w \<Longrightarrow> ext w c s = (w [c], s\<lparr>trace := c # trace s\<rparr>)"
  unfolding steady_def ext_def by metis

definition source_offer :: "environment \<Rightarrow> arm_uc_uri_t option \<Rightarrow> query_type_t \<Rightarrow> nat \<Rightarrow> u32 option" where
  "source_offer w uri type src =
     (let cap = rnum (w [SRC_GetCapabilities src]);
          ask = (\<lambda>t. let r = w [SRC_GetCost src t] in
                   if err_error (rcode r) = 0 \<and> rnum r \<noteq> 0xFFFFFFFF then Some (rnum r) else None)
      in case type of
           QUERY_TYPE_UNKNOWN \<Rightarrow> None
         | QUERY_TYPE_MANIFEST_DEFAULT \<Rightarrow> (if uri = None \<and> bit cap 1 then ask 1 else None)
         | QUERY_TYPE_MANIFEST_URL \<Rightarrow> (if uri \<noteq> None \<and> bit cap 2 then ask 2 else None)
         | QUERY_TYPE_FIRMWARE \<Rightarrow> (if uri \<noteq> None \<and> bit cap 3 then ask 3 else None)
         | QUERY_TYPE_KEYTABLE \<Rightarrow> (if uri \<noteq> None \<and> bit cap 4 then ask 4 else None))"

definition source_answer :: "environment \<Rightarrow> request_t \<Rightarrow> nat \<Rightarrow> arm_uc_error_t" where
  "source_answer w req src =
     (case req_type req of
        QUERY_TYPE_MANIFEST_DEFAULT \<Rightarrow> rcode (w [SRC_GetManifestDefault src (req_buffer req) (req_offset req)])
      | QUERY_TYPE_MANIFEST_URL \<Rightarrow> rcode (w [SRC_GetManifestURL src (req_uri req) (req_buffer req) (req_offset req)])
      | QUERY_TYPE_FIRMWARE \<Rightarrow> rcode (w [SRC_GetFirmwareFragment src (req_uri req) (req_buffer req) (req_offset req)])
      | QUERY_TYPE_KEYTABLE \<Rightarrow> rcode (w [SRC_GetKeytableURL src (req_uri req) (req_buffer req)])
      | QUERY_TYPE_UNKNOWN \<Rightarrow> SOMA_ERR_INVALID_REQUEST)"

text \<open>An offer is the cost of a source that can be asked: it is below the largest number.\<close>

lemma source_cost_offer:
  assumes "steady w" and "source_cost w uri type src s = ((r, c), s')"
  shows "source_offer w uri type src = (if err_error r = 0 \<and> c \<noteq> 0xFFFFFFFF then Some c else None)"
  using assms by (cases type)
    (auto simp: source_cost_def source_offer_def steady_ext Let_def err_error_def split: if_splits)

definition better :: "environment \<Rightarrow> arm_uc_uri_t option \<Rightarrow> query_type_t \<Rightarrow> u8 list \<Rightarrow> nat option list \<Rightarrow>
    nat \<Rightarrow> u32 \<Rightarrow> bool" where
  "better w uri type excl reg j c \<longleftrightarrow>
     (\<exists>src. reg ! j = Some src \<and> excl ! j \<noteq> 1 \<and> source_offer w uri type src = Some c)"

text \<open>The loop's result against the offers \<open>B\<close> of the slots it has visited.\<close>

definition best_in :: "(nat \<Rightarrow> u32 \<Rightarrow> bool) \<Rightarrow> nat \<Rightarrow> nat \<Rightarrow> u32 \<Rightarrow> nat \<Rightarrow> u32 \<Rightarrow> nat \<Rightarrow> bool" where
  "best_in B i n c0 k0 c k \<longleftrightarrow>
     ((c, k) = (c0, k0) \<or> (i \<le> k \<and> k < i + n \<and> c < c0 \<and> B k c)) \<and> c \<le> c0 \<and>
     (\<forall>j d. i \<le> j \<and> j < i + n \<and> B j d \<longrightarrow> c \<le> d) \<and>
     ((c, k) \<noteq> (c0, k0) \<longrightarrow> (\<forall>j d. i \<le> j \<and> j < k \<and> B j d \<longrightarrow> c < d))"

lemma best_keep:
  assumes "\<And>d. B i d \<Longrightarrow> c0 \<le> d" and "best_in B (Suc i) n c0 k0 c k"
  shows "best_in B i (Suc n) c0 k0 c k"
proof -
  have r: "i \<le> j \<longleftrightarrow> j = i \<or> Suc i \<le> j" for j by auto
  show ?thesis
    using assms unfolding best_in_def r add_Suc_right add_Suc
    by (meson order.strict_trans1 order.strict_trans2 order.trans)
qed

lemma best_take:
  assumes "\<And>d. B i d \<longleftrightarrow> d = x" and "x < c0" and "best_in B (Suc i) n x i c k"
  shows "best_in B i (Suc n) c0 k0 c k"
proof -
  have r: "i \<le> j \<longleftrightarrow> j = i \<or> Suc i \<le> j" for j by auto
  have c: "c \<le> x" "c < c0" using assms(2,3) by (auto simp: best_in_def)
  have k: "(c, k) = (x, i) \<or> (Suc i \<le> k \<and> k < Suc i + n \<and> c < x \<and> B k c)"
    and all: "\<And>j d. Suc i \<le> j \<Longrightarrow> j < Suc i + n \<Longrightarrow> B j d \<Longrightarrow> c \<le> d"
    and before: "\<And>j d. (c, k) \<noteq> (x, i) \<Longrightarrow> Suc i \<le> j \<Longrightarrow> j < k \<Longrightarrow> B j d \<Longrightarrow> c < d"
    using assms(3) unfolding best_in_def by blast+
  show ?thesis unfolding best_in_def
  proof (intro conjI allI impI)
    show "(c, k) = (c0, k0) \<or> (i \<le> k \<and> k < i + Suc n \<and> c < c0 \<and> B k c)" using k c assms(1) by auto
    show "c \<le> c0" using c by simp
    show "c \<le> d" if "i \<le> j \<and> j < i + Suc n \<and> B j d" for j d
      using that all[of j d] assms(1) c r[of j] by auto
    show "c < d" if "i \<le> j \<and> j < k \<and> B j d" for j d
      using that before[of j d] k assms(1) r[of j] by auto
  qed
qed

lemma lowest_cost_loop_min:
  assumes "steady w" and "lowest_cost_loop w uri type excl i n (c0, k0) s = ((c, k), s')"
  shows "best_in (better w uri type excl (source_registry s)) i n c0 k0 c k"
  using assms(2)
proof (induction n arbitrary: i c0 k0 s)
  case 0
  then show ?case by (auto simp: best_in_def)
next
  case (Suc n)
  show ?case
  proof (cases "source_registry s ! i = None \<or> excl ! i = 1")
    case True
    then have "lowest_cost_loop w uri type excl (Suc i) n (c0, k0) s = ((c, k), s')"
      using Suc.prems by (auto split: option.splits)
    then show ?thesis using True by (intro best_keep[OF _ Suc.IH]) (auto simp: better_def)
  next
    case False
    then obtain src where src: "source_registry s ! i = Some src" "excl ! i \<noteq> 1" by auto
    obtain r x s1 where x: "source_cost w uri type src s = ((r, x), s1)" by (metis surj_pair)
    obtain t where t: "s1 = s\<lparr>trace := t\<rparr>" using source_cost_shape[of w uri type src s] x by auto
    let ?B = "better w uri type excl (source_registry s)"
    have offer: "?B i d \<longleftrightarrow> err_error r = 0 \<and> x \<noteq> 0xFFFFFFFF \<and> d = x" for d
      using source_cost_offer[OF assms(1) x] src by (auto simp: better_def)
    show ?thesis
    proof (cases "err_error r = 0")
      case False
      then have l: "lowest_cost_loop w uri type excl (Suc i) n (c0, k0) (ARM_UCSM_SetError r s1) = ((c, k), s')"
        using Suc.prems src x by simp
      have "best_in ?B (Suc i) n c0 k0 c k" using Suc.IH[OF l] by (simp add: ARM_UCSM_SetError_def t)
      then show ?thesis using offer False by (intro best_keep) auto
    next
      case ok: True
      have step: "lowest_cost_loop w uri type excl (Suc i) n (if x < c0 then (x, i) else (c0, k0)) s1 = ((c, k), s')"
        using Suc.prems src x ok by simp
      show ?thesis
      proof (cases "x < c0")
        case True
        then have "best_in ?B (Suc i) n x i c k" using Suc.IH[of "Suc i" x i s1] step t by simp
        moreover have "x \<noteq> 0xFFFFFFFF"
          using True unsigned_less[of c0, where 'a = nat] by (auto simp: word_less_nat_alt)
        ultimately show ?thesis using offer True ok by (intro best_take[where x = x]) auto
      next
        case False
        then have "best_in ?B (Suc i) n c0 k0 c k" using Suc.IH[of "Suc i" c0 k0 s1] step t by simp
        then show ?thesis using offer False by (intro best_keep) (auto simp: not_less)
      qed
    qed
  qed
qed

text \<open>The slots that can serve the request in flight, with their costs.\<close>

definition candidate :: "environment \<Rightarrow> 'z sm_scheme \<Rightarrow> nat \<Rightarrow> u32 \<Rightarrow> bool" where
  "candidate w s k c \<longleftrightarrow> k < MAX_SOURCES \<and>
     better w (req_uri (request_in_flight s)) (req_type (request_in_flight s)) (excludes (request_in_flight s))
       (source_registry s) k c"

definition slot_answer :: "environment \<Rightarrow> 'z sm_scheme \<Rightarrow> nat \<Rightarrow> arm_uc_error_t" where
  "slot_answer w s k = source_answer w (request_in_flight s) (the (source_registry s ! k))"

lemma better_max: "better w uri type excl reg j d \<Longrightarrow> d \<noteq> 0xFFFFFFFF"
  by (cases type) (auto simp: better_def source_offer_def Let_def split: if_splits)

lemma max_le: "(0xFFFFFFFF :: u32) \<le> d \<Longrightarrow> d = 0xFFFFFFFF"
  using unsigned_less[of d, where 'a = nat] by (simp add: word_le_nat_alt word_unat_eq_iff)

lemma lookup_source_steady:
  assumes "steady w" and "req_type (request_in_flight s) \<noteq> QUERY_TYPE_UNKNOWN"
    and "lookup_source w s = Some (r, k, s')"
  shows "(r = SOMA_ERR_NO_ROUTE_TO_SOURCE \<and> (\<forall>j c. \<not> candidate w s j c)) \<or>
    (r = slot_answer w s k \<and> (\<exists>c. candidate w s k c \<and>
      (\<forall>j d. candidate w s j d \<longrightarrow> c \<le> d \<and> (j < k \<longrightarrow> c < d))))"
proof -
  let ?req = "request_in_flight s"
  let ?B = "better w (req_uri ?req) (req_type ?req) (excludes ?req) (source_registry s)"
  obtain c k1 s1 where l: "lowest_cost_loop w (req_uri ?req) (req_type ?req) (excludes ?req) 0 10
      (0xFFFFFFFF, 0) s = ((c, k1), s1)" by (metis surj_pair)
  note b = lowest_cost_loop_min[OF assms(1) l]
  obtain t e where s1: "s1 = s\<lparr>trace := t, ucsm_last_error := e\<rparr>"
    using lowest_cost_loop_shape[of w "req_uri ?req" "req_type ?req" "excludes ?req" 0 10 "(0xFFFFFFFF, 0)" s] l
    by auto
  show ?thesis
  proof (cases "c = 0xFFFFFFFF")
    case True
    have "\<not> candidate w s j d" for j d
    proof
      assume "candidate w s j d"
      then have "?B j d" "j < 10" by (auto simp: candidate_def)
      moreover from this have "c \<le> d" using b by (auto simp: best_in_def)
      ultimately show False using True max_le better_max by blast
    qed
    then show ?thesis using assms(3) l True
      by (auto simp: lookup_source_def ARM_UCSM_SourceRegistryGetLowestCost_def err_error_def)
  next
    case False
    then have k1: "k1 < 10" "?B k1 c" using b by (auto simp: best_in_def)
    have min: "\<forall>j d. candidate w s j d \<longrightarrow> c \<le> d \<and> (j < k1 \<longrightarrow> c < d)"
      using b False by (auto simp: best_in_def candidate_def)
    obtain src where src: "source_registry s ! k1 = Some src" using k1(2) by (auto simp: better_def)
    have "source_get w ?req src s1 = (r, s') \<and> k = k1"
      using assms(3) l False src s1
      by (auto simp: lookup_source_def ARM_UCSM_SourceRegistryGetLowestCost_def err_error_def split: prod.splits)
    moreover have "fst (source_get w ?req src s1) = source_answer w ?req src"
      using assms(1,2) by (cases "req_type ?req") (auto simp: source_get_def source_answer_def steady_ext)
    ultimately have "r = slot_answer w s k" "k = k1" using src by (auto simp: slot_answer_def)
    then show ?thesis using k1 min by (auto simp: candidate_def)
  qed
qed

lemma lookup_source_Some: "\<exists>r k s'. lookup_source w s = Some (r, k, s')"
proof -
  let ?req = "request_in_flight s"
  obtain r k s1 where l: "ARM_UCSM_SourceRegistryGetLowestCost w (req_uri ?req) (req_type ?req)
      (excludes ?req) 0 s = ((r, k), s1)" by (metis surj_pair)
  obtain t e where "s1 = s\<lparr>trace := t, ucsm_last_error := e\<rparr>"
    using lowest_cost_shape[of w "req_uri ?req" "req_type ?req" "excludes ?req" 0 s] l by auto
  then have "source_registry s1 = source_registry s" by simp
  then show ?thesis using l lowest_cost_result[OF l]
    by (auto simp: lookup_source_def err_error_def split: prod.splits)
qed

text \<open>An answer that ends the search.\<close>

definition decisive :: "arm_uc_error_t \<Rightarrow> bool" where
  "decisive a \<longleftrightarrow> a = SRCE_ERR_BUSY \<or> a = SOMA_ERR_NO_ROUTE_TO_SOURCE \<or> err_error a = 0"

definition first_choice :: "environment \<Rightarrow> 'z sm_scheme \<Rightarrow> nat \<Rightarrow> bool" where
  "first_choice w s k \<longleftrightarrow> (\<exists>c. candidate w s k c \<and> decisive (slot_answer w s k) \<and>
     (\<forall>j d. candidate w s j d \<and> decisive (slot_answer w s j) \<longrightarrow> c < d \<or> (c = d \<and> k \<le> j)))"

lemma schedule_request [simp]:
  "request_in_flight (ARM_UCSM_ScheduleAsyncBusyRetryGet w s) = request_in_flight s"
  "num_busy_retries (ARM_UCSM_ScheduleAsyncBusyRetryGet w s) = num_busy_retries s"
  by (auto simp: ARM_UCSM_ScheduleAsyncBusyRetryGet_def ext_def Let_def)

definition get_outcome :: "environment \<Rightarrow> 'z sm_scheme \<Rightarrow> arm_uc_error_t \<Rightarrow> 'z sm_scheme \<Rightarrow> bool" where
  "get_outcome w s r s' \<longleftrightarrow>
     (\<forall>k. first_choice w s k \<longrightarrow>
        (if slot_answer w s k = SRCE_ERR_BUSY
         then r = ERR_NONE \<and> current_source (request_in_flight s') = current_source (request_in_flight s)
         else if slot_answer w s k = SOMA_ERR_NO_ROUTE_TO_SOURCE then r = SOMA_ERR_NO_ROUTE_TO_SOURCE
         else r = ERR_NONE \<and> current_source (request_in_flight s') = of_nat k)) \<and>
     ((\<forall>k. \<not> first_choice w s k) \<longrightarrow> r = SOMA_ERR_NO_ROUTE_TO_SOURCE)"

text \<open>With one more slot excluded that had no decisive answer, the first choice is the same.\<close>

lemma first_choice_exclude:
  assumes "\<not> decisive (slot_answer w s i)" and "i < length (excludes (request_in_flight s))"
    and "length (excludes (request_in_flight s)) = 10"
    and "s' = s\<lparr>trace := t, ucsm_last_error := e,
           request_in_flight := (request_in_flight s)\<lparr>excludes := (excludes (request_in_flight s))[i := 1]\<rparr>\<rparr>"
  shows "first_choice w s' k = first_choice w s k" and "slot_answer w s' = slot_answer w s"
proof -
  have c: "candidate w s' j d \<longleftrightarrow> candidate w s j d \<and> j \<noteq> i" for j d
    using assms(2-) by (auto simp: candidate_def better_def nth_list_update)
  show a: "slot_answer w s' = slot_answer w s"
    using assms(4) by (auto simp: slot_answer_def source_answer_def fun_eq_iff split: query_type_t.splits)
  show "first_choice w s' k = first_choice w s k"
    unfolding first_choice_def c a using assms(1) by blast
qed

lemma get_by_cost:
  assumes "steady w" and "length (excludes (request_in_flight s)) = MAX_SOURCES"
    and "req_type (request_in_flight s) \<noteq> QUERY_TYPE_UNKNOWN"
  shows "\<exists>r s'. ARM_UCSM_Get w s = Some (r, s') \<and> get_outcome w s r s'"
  using assms(2,3)
proof (induction "excluded_left (excludes (request_in_flight s))" arbitrary: s rule: less_induct)
  case less
  let ?req = "request_in_flight s"
  obtain r k s1 where l: "lookup_source w s = Some (r, k, s1)" using lookup_source_Some by blast
  obtain t e where s1: "s1 = s\<lparr>trace := t, ucsm_last_error := e\<rparr>" using lookup_source_shape(1)[OF l] by blast
  from lookup_source_steady[OF assms(1) less.prems(2) l] consider
    (none) "r = SOMA_ERR_NO_ROUTE_TO_SOURCE" "\<And>j c. \<not> candidate w s j c"
  | (found) c where "r = slot_answer w s k" "candidate w s k c"
      "\<And>j d. candidate w s j d \<Longrightarrow> c \<le> d \<and> (j < k \<longrightarrow> c < d)" by blast
  then show ?case
  proof cases
    case none
    then have "ARM_UCSM_Get w s = Some (SOMA_ERR_NO_ROUTE_TO_SOURCE, s1)"
      using l by (subst ARM_UCSM_Get.simps) simp
    then show ?thesis using none(2) by (auto simp: get_outcome_def first_choice_def)
  next
    case found
    show ?thesis
    proof (cases "decisive r")
      case True
      have fc: "first_choice w s j \<longleftrightarrow> j = k" for j
      proof
        assume "j = k"
        then show "first_choice w s j" using found True
          by (auto simp: first_choice_def) (metis le_neq_implies_less not_le order_less_le)
      next
        assume "first_choice w s j"
        then obtain d where d: "candidate w s j d" "d < c \<or> (d = c \<and> j \<le> k)"
          using found True by (auto simp: first_choice_def)
        then have "d = c" "\<not> j < k" "j \<le> k" using found(3)[OF d(1)] by auto
        then show "j = k" by simp
      qed
      have "\<exists>r' s'. ARM_UCSM_Get w s = Some (r', s') \<and>
          (if r = SRCE_ERR_BUSY then r' = ERR_NONE \<and> current_source (request_in_flight s') = current_source ?req
           else if r = SOMA_ERR_NO_ROUTE_TO_SOURCE then r' = SOMA_ERR_NO_ROUTE_TO_SOURCE
           else r' = ERR_NONE \<and> current_source (request_in_flight s') = of_nat k)"
        using l s1 True by (subst ARM_UCSM_Get.simps) (auto simp: decisive_def)
      then obtain r' s' where g: "ARM_UCSM_Get w s = Some (r', s')"
          "if r = SRCE_ERR_BUSY then r' = ERR_NONE \<and> current_source (request_in_flight s') = current_source ?req
           else if r = SOMA_ERR_NO_ROUTE_TO_SOURCE then r' = SOMA_ERR_NO_ROUTE_TO_SOURCE
           else r' = ERR_NONE \<and> current_source (request_in_flight s') = of_nat k" by blast
      have "get_outcome w s r' s'" unfolding get_outcome_def fc using g(2) found(1) by simp
      then show ?thesis using g(1) by blast
    next
      case False
      then have nd: "\<not> decisive (slot_answer w s k)" "r \<noteq> SRCE_ERR_BUSY" "r \<noteq> SOMA_ERR_NO_ROUTE_TO_SOURCE"
        "err_error r \<noteq> 0" using found(1) by (auto simp: decisive_def)
      have k: "k < length (excludes ?req)" "excludes ?req ! k \<noteq> 1"
        using found(2) less.prems(1) by (auto simp: candidate_def better_def)
      let ?s2 = "s\<lparr>trace := t, ucsm_last_error := r,
           request_in_flight := ?req\<lparr>excludes := (excludes ?req)[k := 1]\<rparr>\<rparr>"
      have step: "ARM_UCSM_Get w s = (case ARM_UCSM_Get w ?s2 of None \<Rightarrow> None
          | Some (retval, s) \<Rightarrow> Some (retval, if ARM_UC_IS_ERROR retval then ARM_UCSM_SetError retval s else s))"
        using l s1 nd k by (subst ARM_UCSM_Get.simps) (simp add: ARM_UCSM_SetError_def Let_def)
      have "excluded_left (excludes (request_in_flight ?s2)) < excluded_left (excludes ?req)"
        using excluded_left_less[OF k] by simp
      then obtain r' s' where ih: "ARM_UCSM_Get w ?s2 = Some (r', s')" "get_outcome w ?s2 r' s'"
        using less.hyps[of ?s2] less.prems by auto
      note same = first_choice_exclude[where s' = ?s2 and t = t and e = r, OF nd(1) k(1) less.prems(1) refl]
      have "get_outcome w s r' s'" using ih(2) unfolding get_outcome_def same by simp
      moreover have "request_in_flight (ARM_UCSM_SetError r' s') = request_in_flight s'"
        by (simp add: ARM_UCSM_SetError_def)
      ultimately show ?thesis using step ih(1) unfolding get_outcome_def by auto
    qed
  qed
qed

text \<open>
  C17. A request goes to the cheapest source that takes it. With steady sources, the source that
  handles a request is the one with the smallest cost, and the smallest index among equals, of
  those that are registered, not excluded, able to serve the request and whose answer is not an
  error; the sources before it in this order are asked and skipped. When that source is busy the
  request is accepted for a retry and no source is recorded, and when every source has failed the
  caller gets the error for no route. The search always ends.
\<close>

theorem sources_by_cost:
  assumes "steady w" and "length (excludes (request_in_flight s)) = MAX_SOURCES"
    and "req_type (request_in_flight s) \<noteq> QUERY_TYPE_UNKNOWN"
  shows "\<exists>r s'. ARM_UCSM_Get w s = Some (r, s') \<and>
     (\<forall>k. first_choice w s k \<longrightarrow>
        (if slot_answer w s k = SRCE_ERR_BUSY
         then r = ERR_NONE \<and> current_source (request_in_flight s') = current_source (request_in_flight s)
         else if slot_answer w s k = SOMA_ERR_NO_ROUTE_TO_SOURCE then r = SOMA_ERR_NO_ROUTE_TO_SOURCE
         else r = ERR_NONE \<and> current_source (request_in_flight s') = of_nat k)) \<and>
     ((\<forall>k. \<not> first_choice w s k) \<longrightarrow> r = SOMA_ERR_NO_ROUTE_TO_SOURCE)"
  using get_by_cost[OF assms] unfolding get_outcome_def .

text \<open>An example: three sources, the cheapest fails, the next one is chosen.\<close>

definition sm_static :: sm where
  "sm_static = \<lparr>elems = (\<lambda>_. zero_element), arm_uc_queue = None, callback_pool_root = None,
     callbacks_pending = 0, plugin_error_pending = 0, notification_set = True, notifications = 0,
     scheduler_error_cb = None, trace = [], mem = (\<lambda>_. \<lparr>size_max = 64, bsize = 0, ptr = replicate 64 0\<rparr>),
     arm_uccc_event_handler = Some Fn_ARM_UC_HUB_ControlCenterEventHandler,
     arm_uc_authority_callback = None, arm_uc_authority_priority_callback = None,
     arm_uc_download_token_armed = False, arm_uc_install_token_armed = False,
     arm_uc_progress_callback = None, arm_uc_monitor_struct = None,
     paal_update_implementation = Some ARM_UCP_DELTA_PAAL,
     ucfm_handler = Some Fn_ARM_UC_HUB_FirmwareManagerEventHandler, setups = (\<lambda>_. test_setup),
     package_configuration = Some 0, package_hash = replicate 32 7, package_offset = 0,
     ready_to_receive = False, mdHandle = [], cipherHandle = \<lparr>aes_context = None, aes_iv = None\<rparr>,
     front_buffer = Some Buf_message, back_buffer = Some Buf_message2,
     source_registry = [Some 5, Some 6, Some 7] @ replicate 7 None,
     event_cb = Some Fn_ARM_UC_HUB_SourceManagerEventHandler, ucsm_last_error = 0,
     request_in_flight = initial_request\<lparr>req_type := QUERY_TYPE_MANIFEST_DEFAULT\<rparr>,
     async_retry_timer_id = 0, num_busy_retries = 2\<rparr>"

definition three_sources :: environment where
  "three_sources calls = (case hd calls of
       SRC_GetCapabilities src \<Rightarrow> no_reply\<lparr>rnum := 2\<rparr>
     | SRC_GetCost src t \<Rightarrow> no_reply\<lparr>rnum := (if src = 6 then 10 else if src = 7 then 20 else 30)\<rparr>
     | SRC_GetManifestDefault src b off \<Rightarrow>
         no_reply\<lparr>rcode := (if src = 6 then SRCE_ERR_FAILED else if src = 5 then SRCE_ERR_BUSY else ERR_NONE)\<rparr>
     | _ \<Rightarrow> no_reply)"

lemma three_steady: "steady three_sources"
  by (simp add: steady_def three_sources_def)

lemma three_offers:
  "source_offer three_sources None QUERY_TYPE_MANIFEST_DEFAULT src =
     Some (if src = 6 then 10 else if src = 7 then 20 else 30)"
  by (simp add: source_offer_def three_sources_def no_reply_def err_error_def bit_simps Let_def)

lemma sm_static_slot:
  "k < 10 \<Longrightarrow> source_registry sm_static ! k = (if k = 0 then Some 5 else if k = 1 then Some 6
     else if k = 2 then Some 7 else None)"
  by (auto simp: sm_static_def nth_append nth_Cons split: nat.splits)

lemma three_candidates:
  "candidate three_sources sm_static k c \<longleftrightarrow> (k = 0 \<and> c = 30) \<or> (k = 1 \<and> c = 10) \<or> (k = 2 \<and> c = 20)"
proof -
  have r: "req_uri (request_in_flight sm_static) = None"
    "req_type (request_in_flight sm_static) = QUERY_TYPE_MANIFEST_DEFAULT"
    by (simp_all add: sm_static_def initial_request_def)
  have x: "k < 10 \<Longrightarrow> excludes (request_in_flight sm_static) ! k = 0"
    by (simp only: sm_static_def initial_request_def request_t.simps sm.simps nth_replicate)
  have "candidate three_sources sm_static k c \<longleftrightarrow> k < 10 \<and> (case source_registry sm_static ! k of None \<Rightarrow> False
      | Some src \<Rightarrow> c = (if src = 6 then 10 else if src = 7 then 20 else 30))"
    unfolding candidate_def better_def r three_offers using x by (cases "source_registry sm_static ! k") auto
  then show ?thesis using sm_static_slot[of k] by (auto split: if_splits)
qed

lemma three_answers:
  "slot_answer three_sources sm_static 0 = SRCE_ERR_BUSY"
  "slot_answer three_sources sm_static 1 = SRCE_ERR_FAILED"
  "slot_answer three_sources sm_static 2 = ERR_NONE"
  by (simp_all add: slot_answer_def source_answer_def sm_static_def initial_request_def three_sources_def
      no_reply_def)

theorem sources_by_cost_witness:
  "\<exists>s'. ARM_UCSM_Get three_sources sm_static = Some (ERR_NONE, s') \<and>
     current_source (request_in_flight s') = 2"
proof -
  have f: "first_choice three_sources sm_static 2"
    unfolding first_choice_def three_candidates
    using three_answers by (auto simp: decisive_def err_error_def)
  have r: "length (excludes (request_in_flight sm_static)) = MAX_SOURCES"
    "req_type (request_in_flight sm_static) \<noteq> QUERY_TYPE_UNKNOWN"
    by (simp_all add: sm_static_def initial_request_def)
  show ?thesis using sources_by_cost[OF three_steady r] f three_answers(3) by auto
qed

subsection \<open>What a request leaves alone\<close>

lemma get_frame:
  "ARM_UCSM_Get w s = Some (r, s') \<Longrightarrow>
     num_busy_retries s' = num_busy_retries s \<and> event_cb s' = event_cb s \<and>
     source_registry s' = source_registry s \<and>
     req_type (request_in_flight s') = req_type (request_in_flight s) \<and>
     length (excludes (request_in_flight s')) = length (excludes (request_in_flight s))"
proof (induction w s arbitrary: r s' rule: ARM_UCSM_Get.induct)
  case (1 w s)
  obtain r1 k s1 where l: "lookup_source w s = Some (r1, k, s1)" using lookup_source_Some by blast
  obtain t e where s1: "s1 = s\<lparr>trace := t, ucsm_last_error := e\<rparr>" using lookup_source_shape(1)[OF l] by blast
  have sch: "event_cb (ARM_UCSM_ScheduleAsyncBusyRetryGet w x) = event_cb x"
    "source_registry (ARM_UCSM_ScheduleAsyncBusyRetryGet w x) = source_registry x" for x :: "'a sm_scheme"
    by (auto simp: ARM_UCSM_ScheduleAsyncBusyRetryGet_def ext_def Let_def)
  let ?req = "request_in_flight s"
  let ?s2 = "(ARM_UCSM_SetError r1 s1)\<lparr>request_in_flight := ?req\<lparr>excludes := (excludes ?req)[k := 1]\<rparr>\<rparr>"
  show ?case
  proof (cases "r1 = SRCE_ERR_BUSY \<or> r1 = SOMA_ERR_NO_ROUTE_TO_SOURCE \<or> err_error r1 = 0")
    case True
    then show ?thesis using "1.prems" l s1 sch by (subst (asm) ARM_UCSM_Get.simps) (auto split: if_splits)
  next
    case False
    then obtain r2 s2 where rec: "k < length (excludes ?req)" "ARM_UCSM_Get w ?s2 = Some (r2, s2)"
      and s': "s' = (if ARM_UC_IS_ERROR r2 then ARM_UCSM_SetError r2 s2 else s2)"
      using "1.prems" l s1
      by (subst (asm) ARM_UCSM_Get.simps) (auto simp: ARM_UCSM_SetError_def Let_def split: if_splits option.splits)
    have "num_busy_retries s2 = num_busy_retries ?s2 \<and> event_cb s2 = event_cb ?s2 \<and>
      source_registry s2 = source_registry ?s2 \<and>
      req_type (request_in_flight s2) = req_type (request_in_flight ?s2) \<and>
      length (excludes (request_in_flight s2)) = length (excludes (request_in_flight ?s2))"
      using "1.IH"[OF l refl refl _ _ _ refl refl, of r2 s2] False rec s1 by (simp add: ARM_UCSM_SetError_def)
    then show ?thesis using s' s1 by (auto simp: ARM_UCSM_SetError_def)
  qed
qed

lemma get_common_frame:
  assumes "ARM_UCSM_GetCommon w uri b off ty s = Some (r, s')"
  shows "num_busy_retries s' = num_busy_retries s \<and> event_cb s' = event_cb s"
  using assms
  by (auto simp: ARM_UCSM_GetCommon_def ARM_UCSM_RequestStructInit_def ARM_UCSM_SetError_def Let_def
      dest!: get_frame split: bind_splits if_splits)

subsection \<open>Busy sources\<close>

text \<open>
  C21. The number of retries is not counted per request: it is kept when a request succeeds, so
  after two retries for earlier requests the first retry of a new request asks no source, drops
  the request and reports an error to the hub.
\<close>

theorem busy_retries_carried_over:
  assumes "num_busy_retries s = MAX_BUSY_RETRIES" and "event_cb s = Some h"
    and "ARM_UCSM_GetCommon w uri b off ty s = Some (r, s1)" and "pending_rep s1 ps" and "length ps < 32"
  shows "\<exists>s2. ARM_UCSM_DoAsyncBusyRetryGet w s1 = Some s2 \<and> trace s2 = trace s1 \<and>
    req_type (request_in_flight s2) = QUERY_TYPE_UNKNOWN \<and> num_busy_retries s2 = 0 \<and>
    pending_rep s2 (ps @ [(h, ATOMIC_QUEUE_NO_CONTEXT, ARM_UC_SM_EVENT_ERROR)])"
proof -
  have f: "num_busy_retries s1 = 2" "event_cb s1 = Some h"
    using get_common_frame[OF assms(3)] assms(1,2) by simp_all
  let ?s = "s1\<lparr>num_busy_retries := 0, request_in_flight := initial_request, ucsm_last_error := SOMA_ERR_UNSPECIFIED\<rparr>"
  have "pending_rep ?s ps" using assms(4) pending_rep_cong[of ?s s1 ps] by simp
  then have "pending_rep (post Cb_event_cb_storage (Some h) ARM_UC_SM_EVENT_ERROR ?s)
      (ps @ [(h, ATOMIC_QUEUE_NO_CONTEXT, ARM_UC_SM_EVENT_ERROR)])" using assms(5) by (rule post_appends)
  moreover have "ARM_UCSM_DoAsyncBusyRetryGet w s1 = Some (post Cb_event_cb_storage (Some h) ARM_UC_SM_EVENT_ERROR ?s)"
    using f by (simp add: ARM_UCSM_DoAsyncBusyRetryGet_def ARM_UCSM_RequestStructInit_def ARM_UCSM_SetError_def Let_def)
  ultimately show ?thesis by (simp add: initial_request_def)
qed

lemma sm_static_init: "pending_rep (ARM_UC_SchedulerInit sm_static) []"
  by (rule init_pending) (auto simp: sm_static_def zero_element_def)

lemma no_source_get:
  assumes "source_registry s = replicate 10 None"
  shows "ARM_UCSM_Get w s = Some (SOMA_ERR_NO_ROUTE_TO_SOURCE, ARM_UCSM_SetError SOMA_ERR_NO_ROUTE_TO_SOURCE s)"
proof -
  have "lowest_cost_loop w uri ty ex i n b x = (b, x)" if "source_registry x = replicate 10 None" "i + n \<le> 10"
    for uri ty ex i n b and x :: "'a sm_scheme"
    using that(2)
  proof (induction n arbitrary: i)
    case (Suc n)
    then have "source_registry x ! i = None" unfolding that(1) by (intro nth_replicate) simp
    then show ?case using Suc by simp
  qed simp
  then show ?thesis using assms
    by (subst ARM_UCSM_Get.simps)
      (simp add: lookup_source_def ARM_UCSM_SourceRegistryGetLowestCost_def err_error_def)
qed

theorem busy_retries_carried_over_witness:
  "\<exists>s1 s2. ARM_UCSM_GetCommon three_sources None (Some Buf_message) 0 QUERY_TYPE_MANIFEST_DEFAULT
      ((ARM_UC_SchedulerInit sm_static)\<lparr>source_registry := replicate 10 None\<rparr>) =
      Some (SOMA_ERR_NO_ROUTE_TO_SOURCE, s1) \<and>
    ARM_UCSM_DoAsyncBusyRetryGet three_sources s1 = Some s2 \<and>
    pending_rep s2 [(Fn_ARM_UC_HUB_SourceManagerEventHandler, ATOMIC_QUEUE_NO_CONTEXT, ARM_UC_SM_EVENT_ERROR)]"
proof -
  let ?s = "(ARM_UC_SchedulerInit sm_static)\<lparr>source_registry := replicate 10 None\<rparr>"
  let ?r = "\<lparr>req_uri = None, req_buffer = Some Buf_message, req_offset = 0,
    req_type = QUERY_TYPE_MANIFEST_DEFAULT, excludes = replicate 10 0, current_source = 10\<rparr>"
  let ?s1 = "?s\<lparr>request_in_flight := initial_request, ucsm_last_error := SOMA_ERR_NO_ROUTE_TO_SOURCE\<rparr>"
  have i: "num_busy_retries ?s = 2" "event_cb ?s = Some Fn_ARM_UC_HUB_SourceManagerEventHandler"
    using SchedulerInit_shape[of sm_static] by (auto simp: sm_static_def)
  have g: "ARM_UCSM_GetCommon three_sources None (Some Buf_message) 0 QUERY_TYPE_MANIFEST_DEFAULT ?s =
      Some (SOMA_ERR_NO_ROUTE_TO_SOURCE, ?s1)"
    by (simp add: ARM_UCSM_GetCommon_def no_source_get ARM_UCSM_RequestStructInit_def ARM_UCSM_SetError_def)
  have "pending_rep ?s1 []" using sm_static_init pending_rep_cong[of ?s1 "ARM_UC_SchedulerInit sm_static"] by simp
  from busy_retries_carried_over[OF i g this] g show ?thesis by auto
qed

text \<open>
  C22. While a request waits for a busy source no source is recorded for it, and an error event of
  a source at that time writes behind the end of the array of excluded sources.
\<close>

theorem error_while_busy_overruns:
  assumes "steady w" and "ty \<noteq> QUERY_TYPE_UNKNOWN"
    and "first_choice w (s\<lparr>request_in_flight := initial_request\<lparr>req_uri := uri, req_buffer := b,
           req_offset := off, req_type := ty\<rparr>\<rparr>) k"
    and "slot_answer w (s\<lparr>request_in_flight := initial_request\<lparr>req_uri := uri, req_buffer := b,
           req_offset := off, req_type := ty\<rparr>\<rparr>) k = SRCE_ERR_BUSY"
  shows "\<exists>s'. ARM_UCSM_GetCommon w uri b off ty s = Some (ERR_NONE, s') \<and>
    ARM_UCSM_CallbackWrapper w EVENT_ERROR s' = None"
proof -
  let ?s = "s\<lparr>request_in_flight := initial_request\<lparr>req_uri := uri, req_buffer := b,
           req_offset := off, req_type := ty\<rparr>\<rparr>"
  obtain r s' where g: "ARM_UCSM_Get w ?s = Some (r, s')" "get_outcome w ?s r s'"
    using get_by_cost[OF assms(1), of ?s] assms(2) by (auto simp: initial_request_def)
  have "r = ERR_NONE \<and> current_source (request_in_flight s') = 10"
    using g(2) assms(3,4) by (auto simp: get_outcome_def initial_request_def)
  moreover have "req_type (request_in_flight s') = ty" "length (excludes (request_in_flight s')) = 10"
    using get_frame[OF g(1)] by (simp_all add: initial_request_def)
  ultimately show ?thesis using g(1) assms(2)
    by (simp add: ARM_UCSM_GetCommon_def ARM_UCSM_RequestStructInit_def ARM_UCSM_CallbackWrapper_def
        ARM_UCSM_TranslateEvent_def wr_def)
qed

definition one_busy :: environment where
  "one_busy calls = (case hd calls of
       SRC_GetCapabilities src \<Rightarrow> no_reply\<lparr>rnum := 2\<rparr>
     | SRC_GetCost src t \<Rightarrow> no_reply\<lparr>rnum := 10\<rparr>
     | SRC_GetManifestDefault src b off \<Rightarrow> no_reply\<lparr>rcode := SRCE_ERR_BUSY\<rparr>
     | _ \<Rightarrow> no_reply)"

theorem error_while_busy_overruns_witness:
  "\<exists>s'. ARM_UCSM_GetCommon one_busy None (Some Buf_message) 0 QUERY_TYPE_MANIFEST_DEFAULT sm_static =
      Some (ERR_NONE, s') \<and> ARM_UCSM_CallbackWrapper one_busy EVENT_ERROR s' = None"
proof -
  let ?s = "sm_static\<lparr>request_in_flight := initial_request\<lparr>req_uri := None, req_buffer := Some Buf_message,
           req_offset := 0, req_type := QUERY_TYPE_MANIFEST_DEFAULT\<rparr>\<rparr>"
  have st: "steady one_busy" by (simp add: steady_def one_busy_def)
  have o: "source_offer one_busy None QUERY_TYPE_MANIFEST_DEFAULT src = Some 10" for src
    by (simp add: source_offer_def one_busy_def no_reply_def err_error_def bit_simps Let_def)
  have slot0: "source_registry ?s ! 0 = Some 5" by (simp add: sm_static_def)
  have ex0: "excludes (request_in_flight ?s) ! 0 = 0" by (simp add: initial_request_def)
  have c0: "candidate one_busy ?s 0 10" using o slot0 ex0 by (simp add: candidate_def better_def)
  have cost: "candidate one_busy ?s j d \<Longrightarrow> d = 10" for j d using o by (auto simp: candidate_def better_def)
  have a: "slot_answer one_busy ?s 0 = SRCE_ERR_BUSY"
    using slot0 by (simp add: slot_answer_def source_answer_def one_busy_def no_reply_def)
  have "first_choice one_busy ?s 0" using c0 a cost by (auto simp: first_choice_def decisive_def)
  then show ?thesis using error_while_busy_overruns[OF st _ _ a] by simp
qed

subsection \<open>The registry as a set of at most ten sources\<close>

definition registered :: "'z sm_scheme \<Rightarrow> nat set" where
  "registered s = {n. Some n \<in> set (source_registry s)}"

definition registry_ok :: "'z sm_scheme \<Rightarrow> bool" where
  "registry_ok s \<longleftrightarrow> length (source_registry s) = MAX_SOURCES \<and>
     (\<forall>i j. i < MAX_SOURCES \<longrightarrow> j < MAX_SOURCES \<longrightarrow> source_registry s ! i = source_registry s ! j \<longrightarrow>
        source_registry s ! i \<noteq> None \<longrightarrow> i = j)"

lemma index_loop_spec:
  "i + n = 10 \<Longrightarrow> (index_loop reg x i n = 10 \<and> (\<forall>j. i \<le> j \<longrightarrow> j < 10 \<longrightarrow> reg ! j \<noteq> x)) \<or>
     (i \<le> index_loop reg x i n \<and> index_loop reg x i n < 10 \<and> reg ! index_loop reg x i n = x)"
proof (induction n arbitrary: i)
  case (Suc n)
  show ?case
  proof (cases "reg ! i = x")
    case False
    then show ?thesis using Suc.IH[of "Suc i"] Suc.prems
      by (auto simp: Suc_le_eq) (metis le_neq_implies_less)+
  qed (use Suc.prems in auto)
qed simp

lemma index_of:
  assumes "registry_ok s"
  shows "(ARM_UCSM_GetIndexOf x s = 10 \<and> x \<notin> set (source_registry s)) \<or>
    (ARM_UCSM_GetIndexOf x s < 10 \<and> source_registry s ! ARM_UCSM_GetIndexOf x s = x \<and> x \<in> set (source_registry s))"
  using index_loop_spec[of 0 10 "source_registry s" x] assms
  by (auto simp: ARM_UCSM_GetIndexOf_def registry_ok_def in_set_conv_nth)

lemma registered_card:
  assumes "registry_ok s"
  shows "card (registered s) \<le> 10" and "None \<in> set (source_registry s) \<longleftrightarrow> card (registered s) < 10"
proof -
  let ?reg = "source_registry s"
  let ?I = "{i. i < 10 \<and> ?reg ! i \<noteq> None}"
  have len: "length ?reg = 10" using assms by (simp add: registry_ok_def)
  have reg: "registered s = (\<lambda>i. the (?reg ! i)) ` ?I"
    using len by (auto simp: registered_def in_set_conv_nth image_iff) (metis option.sel option.distinct(1))
  have ok: "\<And>i j. i < 10 \<Longrightarrow> j < 10 \<Longrightarrow> ?reg ! i = ?reg ! j \<Longrightarrow> ?reg ! i \<noteq> None \<Longrightarrow> i = j"
    using assms unfolding registry_ok_def by blast
  have inj: "inj_on (\<lambda>i. the (?reg ! i)) ?I"
  proof (rule inj_onI)
    fix i j
    assume "i \<in> ?I" "j \<in> ?I" "the (?reg ! i) = the (?reg ! j)"
    then show "i = j" using ok[of i j] by (metis (mono_tags, lifting) mem_Collect_eq option.expand)
  qed
  have card: "card (registered s) = card ?I" unfolding reg by (rule card_image[OF inj])
  have sub: "?I \<subseteq> {..<10}" by auto
  show "card (registered s) \<le> 10" using card card_mono[OF _ sub] by simp
  show "None \<in> set ?reg \<longleftrightarrow> card (registered s) < 10"
  proof
    assume "None \<in> set ?reg"
    then obtain j where "j < 10" "?reg ! j = None" using len by (metis in_set_conv_nth)
    then have "j \<in> {..<10}" "j \<notin> ?I" by simp_all
    then have "?I \<subset> {..<10}" using sub by blast
    then show "card (registered s) < 10" using card psubset_card_mono[of "{..<10}" ?I] by simp
  next
    assume c: "card (registered s) < 10"
    show "None \<in> set ?reg"
    proof (rule ccontr)
      assume "None \<notin> set ?reg"
      then have "\<And>j. j < 10 \<Longrightarrow> ?reg ! j \<noteq> None" using len by (metis nth_mem)
      then have "?I = {..<10}" using sub by blast
      then show False using c card by simp
    qed
  qed
qed

lemma registry_nth: "registry_ok s \<Longrightarrow> m \<in> registered s \<longleftrightarrow> (\<exists>j<10. source_registry s ! j = Some m)"
  by (auto simp: registered_def registry_ok_def in_set_conv_nth)

lemma registry_set:
  assumes "registry_ok s" and "i < 10" and "\<And>j. j < 10 \<Longrightarrow> source_registry s ! j \<noteq> Some n"
    and "source_registry s ! i = None" and "source_registry s' = (source_registry s)[i := Some n]"
  shows "registry_ok s'" and "registered s' = insert n (registered s)"
proof -
  have len: "length (source_registry s) = 10" using assms(1) by (simp add: registry_ok_def)
  have nth: "source_registry s' ! j = (if j = i then Some n else source_registry s ! j)" if "j < 10" for j
    using that assms(5) len by (simp add: nth_list_update)
  show ok: "registry_ok s'" unfolding registry_ok_def
  proof (intro conjI allI impI)
    show "length (source_registry s') = 10" using assms(5) len by simp
    fix j k
    assume "j < 10" "k < 10" "source_registry s' ! j = source_registry s' ! k" "source_registry s' ! j \<noteq> None"
    then show "j = k" using nth[of j] nth[of k] assms(3)[of j] assms(3)[of k] assms(1)
      unfolding registry_ok_def by (metis (full_types))
  qed
  show "registered s' = insert n (registered s)"
  proof (rule set_eqI)
    fix m
    show "m \<in> registered s' \<longleftrightarrow> m \<in> insert n (registered s)"
      unfolding insert_iff registry_nth[OF ok] registry_nth[OF assms(1)] using nth assms(2,4)
      by (metis option.distinct(1) option.inject)
  qed
qed

lemma registry_unset:
  assumes "registry_ok s" and "i < 10" and "source_registry s ! i = Some n"
    and "source_registry s' = (source_registry s)[i := None]"
  shows "registry_ok s'" and "registered s' = registered s - {n}"
proof -
  show okr: "registry_ok s'" using assms by (auto simp: registry_ok_def nth_list_update)
  have len: "length (source_registry s) = 10" using assms(1) by (simp add: registry_ok_def)
  have uniq: "j = i" if "j < 10" "source_registry s ! j = Some n" for j
    using assms(1-3) that unfolding registry_ok_def by (metis option.distinct(1))
  have nth: "source_registry s' ! j = (if j = i then None else source_registry s ! j)" if "j < 10" for j
    using that assms(4) len by (simp add: nth_list_update)
  show "registered s' = registered s - {n}"
  proof (rule set_eqI)
    fix m
    show "m \<in> registered s' \<longleftrightarrow> m \<in> registered s - {n}"
      unfolding Diff_iff singleton_iff registry_nth[OF okr] registry_nth[OF assms(1)]
      using nth assms(2,3) uniq by (metis option.distinct(1) option.inject)
  qed
qed

lemma add_source_spec:
  assumes "registry_ok s" and "ARM_UCSM_AddSource w n s = (r, s')"
  shows "registry_ok s' \<and>
    (if n \<in> registered s then r = ERR_NONE \<and> registered s' = registered s
     else if card (registered s) < MAX_SOURCES then r = ERR_NONE \<and> registered s' = insert n (registered s)
     else r = SOMA_ERR_SOURCE_REGISTRY_FULL \<and> registered s' = registered s)"
proof (cases "n \<in> registered s")
  case True
  then have "ARM_UCSM_GetIndexOf (Some n) s \<noteq> 10" using index_of[OF assms(1), of "Some n"] by (auto simp: registered_def)
  then show ?thesis using assms True by (auto simp: ARM_UCSM_AddSource_def ARM_UCSM_GetIndexOfSource_def)
next
  case False
  let ?s = "s\<lparr>trace := SRC_Initialize n # trace s\<rparr>"
  have new: "ARM_UCSM_GetIndexOf (Some n) s = 10"
    using index_of[OF assms(1), of "Some n"] False by (auto simp: registered_def)
  have add: "ARM_UCSM_SourceRegistryAdd n ?s = (r, s')"
    using assms(2) new by (simp add: ARM_UCSM_AddSource_def ARM_UCSM_GetIndexOfSource_def ext_def)
  have idx: "ARM_UCSM_GetIndexOf None ?s = ARM_UCSM_GetIndexOf None s" by (simp add: ARM_UCSM_GetIndexOf_def)
  have absent: "j < 10 \<Longrightarrow> source_registry s ! j \<noteq> Some n" for j
    using False assms(1) by (auto simp: registered_def registry_ok_def in_set_conv_nth)
  show ?thesis
  proof (cases "card (registered s) < 10")
    case True
    then have i: "ARM_UCSM_GetIndexOf None s < 10" "source_registry s ! ARM_UCSM_GetIndexOf None s = None"
      using index_of[OF assms(1), of None] registered_card(2)[OF assms(1)] by auto
    then have r: "r = ERR_NONE" "source_registry s' = (source_registry s)[ARM_UCSM_GetIndexOf None s := Some n]"
      using add idx by (auto simp: ARM_UCSM_SourceRegistryAdd_def Let_def)
    then show ?thesis using registry_set[OF assms(1) i(1) absent i(2) r(2)] r(1) False True by simp
  next
    case full: False
    then have "ARM_UCSM_GetIndexOf None s = 10"
      using index_of[OF assms(1), of None] registered_card(2)[OF assms(1)] by auto
    then have "r = SOMA_ERR_SOURCE_REGISTRY_FULL" "source_registry s' = source_registry s"
      using add idx by (auto simp: ARM_UCSM_SourceRegistryAdd_def ARM_UCSM_SetError_def)
    then show ?thesis using assms(1) False full by (simp add: registry_ok_def registered_def)
  qed
qed

lemma remove_source_spec:
  assumes "registry_ok s" and "ARM_UCSM_RemoveSource w n s = (r, s')"
  shows "registry_ok s' \<and> registered s' = registered s - {n} \<and>
    r = (if n \<in> registered s then ERR_NONE else SOMA_ERR_SOURCE_NOT_FOUND)"
proof (cases "n \<in> registered s")
  case True
  then have i: "ARM_UCSM_GetIndexOf (Some n) s < 10" "source_registry s ! ARM_UCSM_GetIndexOf (Some n) s = Some n"
    using index_of[OF assms(1), of "Some n"] by (auto simp: registered_def)
  then have r: "r = ERR_NONE" "source_registry s' = (source_registry s)[ARM_UCSM_GetIndexOf (Some n) s := None]"
    using assms(2) by (auto simp: ARM_UCSM_RemoveSource_def ARM_UCSM_SourceRegistryRemove_def
        ARM_UCSM_GetIndexOfSource_def ext_def Let_def)
  then show ?thesis using registry_unset[OF assms(1) i r(2)] r(1) True by simp
next
  case False
  then have "ARM_UCSM_GetIndexOf (Some n) s = 10"
    using index_of[OF assms(1), of "Some n"] by (auto simp: registered_def)
  then have "r = SOMA_ERR_SOURCE_NOT_FOUND" "source_registry s' = source_registry s"
    using assms(2) by (auto simp: ARM_UCSM_RemoveSource_def ARM_UCSM_SourceRegistryRemove_def
        ARM_UCSM_GetIndexOfSource_def ARM_UCSM_SetError_def)
  then show ?thesis using assms(1) False by (simp add: registry_ok_def registered_def)
qed

text \<open>
  C18. The registry is a set of at most ten sources: adding a source inserts it when it is new and
  there is a free slot, reports a full registry and changes nothing when there is none, and never
  stores a source twice; removing a source takes exactly that source out and reports whether it
  was there. Both keep the registry well formed.
\<close>

theorem registry_is_set:
  assumes "registry_ok s"
  shows "(\<forall>r s'. ARM_UCSM_AddSource w n s = (r, s') \<longrightarrow> registry_ok s' \<and>
      (if n \<in> registered s then r = ERR_NONE \<and> registered s' = registered s
       else if card (registered s) < MAX_SOURCES then r = ERR_NONE \<and> registered s' = insert n (registered s)
       else r = SOMA_ERR_SOURCE_REGISTRY_FULL \<and> registered s' = registered s)) \<and>
    (\<forall>r s'. ARM_UCSM_RemoveSource w n s = (r, s') \<longrightarrow> registry_ok s' \<and> registered s' = registered s - {n} \<and>
      r = (if n \<in> registered s then ERR_NONE else SOMA_ERR_SOURCE_NOT_FOUND))"
  using add_source_spec[OF assms] remove_source_spec[OF assms] by blast

theorem registry_is_set_witness:
  "registered (snd (ARM_UCSM_AddSource one_busy 4 (snd (ARM_UCSM_SourceRegistryInit sm_static)))) = {4}"
proof -
  let ?s = "snd (ARM_UCSM_SourceRegistryInit sm_static)"
  have reg: "source_registry ?s = replicate 10 None" by (simp add: ARM_UCSM_SourceRegistryInit_def)
  have ok: "registry_ok ?s" unfolding registry_ok_def reg by (auto simp only: length_replicate nth_replicate)
  have none: "registered ?s = {}" unfolding registered_def reg by simp
  obtain r s' where a: "ARM_UCSM_AddSource one_busy 4 ?s = (r, s')" by fastforce
  with registry_is_set[OF ok, of one_busy 4] none show ?thesis by simp
qed

end
