(* ===== verification/UC_Manifest_Manager.thy ===== *)
theory UC_Manifest_Manager
  imports UC_Source_Manager
begin

text \<open>
  The interface of the manifest manager, \<open>modules/manifest-manager/source/manifest-manager-api.c\<close>
  and \<open>arm_uc_mmStateSelector.c\<close>: an operation sets the state, remembers its buffers and posts a
  callback; the callback runs the state machine of the operation and tells the hub how it ended.

  The two state machines, which parse and verify a manifest and extract the description of the
  firmware, are answered by the environment: a status and, for the second one, the bytes it stores
  at the start of its structure and whether it posts \<open>ARM_UC_MM_RC_NEED_FW\<close>. The first one is told
  the manifest it finds in memory. The machine for tests is not modelled, nor is the compiled-out
  code for a storage of manifests.
\<close>

subsection \<open>State\<close>

datatype arm_uc_mmState_t =
  ARM_UC_MM_STATE_INVALID | ARM_UC_MM_STATE_IDLE | ARM_UC_MM_STATE_INIT | ARM_UC_MM_STATE_INSERTING
  | ARM_UC_MM_STATE_STORING_CA | ARM_UC_MM_STATE_FWINFO | ARM_UC_MM_STATE_TEST

abbreviation (input) ARM_UC_MM_RC_ERROR :: u32 where "ARM_UC_MM_RC_ERROR \<equiv> 0"
abbreviation (input) ARM_UC_MM_RC_NONE :: u32 where "ARM_UC_MM_RC_NONE \<equiv> 1"
abbreviation (input) ARM_UC_MM_RC_NEED_DEP :: u32 where "ARM_UC_MM_RC_NEED_DEP \<equiv> 2"
abbreviation (input) ARM_UC_MM_RC_NEED_FW :: u32 where "ARM_UC_MM_RC_NEED_FW \<equiv> 3"
abbreviation (input) ARM_UC_MM_RC_DONE :: u32 where "ARM_UC_MM_RC_DONE \<equiv> 4"
abbreviation (input) ARM_UC_MM_EVENT_BEGIN :: u32 where "ARM_UC_MM_EVENT_BEGIN \<equiv> 1"

text \<open>A copy of a buffer structure whose \<open>ptr\<close> points into the memory of another buffer.\<close>

record mm_buffer =
  mb_addr :: buf_addr
  mb_offset :: nat
  mb_size_max :: u32
  mb_size :: u32

record mm = sm +
  mm_state :: arm_uc_mmState_t
  applicationEventHandler :: "uc_fn option"
  reportedError :: arm_uc_error_t
  insert_manifest :: "mm_buffer option"
  insert_certificateStorage :: "mm_buffer option"
  getFw_info :: "buf_addr option"

definition mm_bytes :: "mm_buffer option \<Rightarrow> 'z mm_scheme \<Rightarrow> bytes option" where
  "mm_bytes b s = Option.bind b (\<lambda>b. rd_block (ptr (mem s (mb_addr b))) (mb_offset b) (unat (mb_size b)))"

text \<open>The lock of a callback storage is cleared before it is used.\<close>

definition init_storage :: "cb_storage \<Rightarrow> 'z uc0_scheme \<Rightarrow> 'z uc0_scheme" where
  "init_storage st s = set_elem (Static st) ((elems s (Static st))\<lparr>lock := 0\<rparr>) s"

subsection \<open>The interface\<close>

text \<open>\<open>ctx\<close> tells whether the context is there: both pointers to it are not \<open>NULL\<close>.\<close>

definition ARM_UC_mmSetState :: "arm_uc_mmState_t \<Rightarrow> 'z mm_scheme \<Rightarrow> arm_uc_error_t \<times> 'z mm_scheme" where
  "ARM_UC_mmSetState newState s = (ERR_NONE, s\<lparr>mm_state := newState\<rparr>)"

definition ARM_UC_mmInit :: "bool \<Rightarrow> uc_fn option \<Rightarrow> 'z mm_scheme \<Rightarrow> arm_uc_error_t \<times> 'z mm_scheme" where
  "ARM_UC_mmInit ctx event_handler s =
     (if \<not> ctx then (MFST_ERR_NULL_PTR, s)
      else let s = s\<lparr>applicationEventHandler := event_handler\<rparr>;
               s = init_storage Cb_applicationCallbackStorage s
           in (ERR_NONE, post Cb_applicationCallbackStorage event_handler ARM_UC_MM_RC_DONE s))"

definition ARM_UC_mmInsert ::
    "bool \<Rightarrow> mm_buffer option \<Rightarrow> mm_buffer option \<Rightarrow> 'z mm_scheme \<Rightarrow> arm_uc_error_t \<times> 'z mm_scheme"
where
  "ARM_UC_mmInsert ctx buffer certificateStorage s =
     (if \<not> ctx \<or> buffer = None then (MFST_ERR_NULL_PTR, s)
      else let (err, s) = ARM_UC_mmSetState ARM_UC_MM_STATE_INSERTING s in
           if err \<noteq> ERR_NONE then (err, s)
           else let s = s\<lparr>insert_manifest := buffer, insert_certificateStorage := certificateStorage\<rparr>;
                    s = init_storage Cb_insert_callbackStorage s
                in (ERR_NONE,
                    post Cb_insert_callbackStorage (Some Fn_ARM_UC_mmCallbackFSMEntry) ARM_UC_MM_EVENT_BEGIN s))"

definition ARM_UC_mmFetchFirmwareInfo ::
    "bool \<Rightarrow> buf_addr option \<Rightarrow> 'z mm_scheme \<Rightarrow> arm_uc_error_t \<times> 'z mm_scheme"
where
  "ARM_UC_mmFetchFirmwareInfo ctx info s =
     (if \<not> ctx \<or> info = None then (MFST_ERR_NULL_PTR, s)
      else let (err, s) = ARM_UC_mmSetState ARM_UC_MM_STATE_FWINFO s in
           if err \<noteq> ERR_NONE then (err, s)
           else let s = init_storage Cb_getFw_callbackStorage (s\<lparr>getFw_info := info\<rparr>)
                in (ERR_NONE,
                    post Cb_getFw_callbackStorage (Some Fn_ARM_UC_mmCallbackFSMEntry) ARM_UC_MM_EVENT_BEGIN s))"

definition ARM_UC_mmFetchNextFirmwareInfo ::
    "buf_addr option \<Rightarrow> 'z mm_scheme \<Rightarrow> arm_uc_error_t \<times> 'z mm_scheme" where
  "ARM_UC_mmFetchNextFirmwareInfo info s =
     (let s = init_storage Cb_getFw_callbackStorage (s\<lparr>getFw_info := info\<rparr>)
      in (ERR_NONE, post Cb_getFw_callbackStorage (Some Fn_ARM_UC_mmCallbackFSMEntry) ARM_UC_MM_EVENT_BEGIN s))"

definition ARM_UC_mmGetError :: "'z mm_scheme \<Rightarrow> arm_uc_error_t" where
  "ARM_UC_mmGetError s = reportedError s"

text \<open>The format is a number in the last word of a GUID, in network byte order.\<close>

type_synonym manifest_guid_t = "u32 \<times> u32 \<times> u32 \<times> u32"

definition htobe :: "u32 \<Rightarrow> u32" where
  "htobe x = push_bit 24 (x AND 0xFF) OR push_bit 8 (x AND 0xFF00) OR drop_bit 8 (x AND 0xFF0000)
     OR drop_bit 24 x"

fun ARM_UC_mmCheckFormatUint32 :: "manifest_guid_t \<Rightarrow> u32 \<Rightarrow> bool" where
  "ARM_UC_mmCheckFormatUint32 (w0, w1, w2, w3) expected =
     (\<not> (w0 \<noteq> 0 \<or> w1 \<noteq> 0 \<or> w2 \<noteq> 0 \<or> w3 \<noteq> htobe expected))"

subsection \<open>The state selector\<close>

definition ARM_UC_mmInsertFSM :: "environment \<Rightarrow> u32 \<Rightarrow> 'z mm_scheme \<Rightarrow> (arm_uc_error_t \<times> 'z mm_scheme) option" where
  "ARM_UC_mmInsertFSM w event s =
     (let (r, s) = ext w (MM_InsertFSM event (mm_bytes (insert_manifest s) s)) s in Some (rcode r, s))"

definition ARM_UC_mmFetchFirmwareInfoFSM ::
    "environment \<Rightarrow> u32 \<Rightarrow> 'z mm_scheme \<Rightarrow> (arm_uc_error_t \<times> 'z mm_scheme) option"
where
  "ARM_UC_mmFetchFirmwareInfoFSM w event s = do {
     let (r, s) = ext w (MM_FetchFirmwareInfoFSM event) s;
     info \<leftarrow> getFw_info s;
     m \<leftarrow> wr_block (ptr (mem s info)) 0 (rbytes r);
     let s = set_buf info ((mem s info)\<lparr>ptr := m\<rparr>) s;
     Some (rcode r,
       if rnum r = 1 then post Cb_getFw_callbackStorage (applicationEventHandler s) ARM_UC_MM_RC_NEED_FW s
       else s)
   }"

text \<open>One round of the loop: the machine of the state, and the report when it has finished.\<close>

definition mm_finish :: "arm_uc_error_t \<Rightarrow> 'z mm_scheme \<Rightarrow> arm_uc_error_t \<times> 'z mm_scheme" where
  "mm_finish err s =
     (if err = ERR_NONE then
        let (err, s) = ARM_UC_mmSetState ARM_UC_MM_STATE_IDLE s
        in (err, post Cb_applicationCallbackStorage (applicationEventHandler s) ARM_UC_MM_RC_DONE s)
      else (err, s))"

definition mm_round :: "environment \<Rightarrow> u32 \<Rightarrow> 'z mm_scheme \<Rightarrow> (arm_uc_error_t \<times> 'z mm_scheme) option" where
  "mm_round w event s =
     (case mm_state s of
        ARM_UC_MM_STATE_IDLE \<Rightarrow> Some (ERR_NONE, s)
      | ARM_UC_MM_STATE_INSERTING \<Rightarrow> map_option (\<lambda>(err, s). mm_finish err s) (ARM_UC_mmInsertFSM w event s)
      | ARM_UC_MM_STATE_FWINFO \<Rightarrow> map_option (\<lambda>(err, s). mm_finish err s) (ARM_UC_mmFetchFirmwareInfoFSM w event s)
      | _ \<Rightarrow> Some (MFST_ERR_INVALID_STATE, s))"

lemma post_mm [simp]:
  "mm_state (post st f param s) = mm_state s"
  "applicationEventHandler (post st f param s) = applicationEventHandler s"
  "reportedError (post st f param s) = reportedError s"
  using post_shape[of st f param s] by auto

text \<open>A round that changes the state goes to the idle state.\<close>

lemma mm_round_state:
  assumes "mm_round w event s = Some (err, s')"
  shows "mm_state s' = mm_state s \<or> mm_state s' = ARM_UC_MM_STATE_IDLE"
  using assms
  by (auto simp: mm_round_def mm_finish_def ARM_UC_mmSetState_def ARM_UC_mmInsertFSM_def
      ARM_UC_mmFetchFirmwareInfoFSM_def ext_def set_buf_def Let_def bind_eq_Some_conv
      split: arm_uc_mmState_t.splits if_splits)

function ARM_UC_mmFSM :: "environment \<Rightarrow> u32 \<Rightarrow> 'z mm_scheme \<Rightarrow> (arm_uc_error_t \<times> 'z mm_scheme) option" where
  "ARM_UC_mmFSM w event s =
     (case mm_round w event s of
        None \<Rightarrow> None
      | Some (err, s') \<Rightarrow>
          (if err = ERR_NONE \<and> mm_state s \<noteq> mm_state s' then ARM_UC_mmFSM w event s' else Some (err, s')))"
  by pat_completeness auto
termination
  by (relation "measure (\<lambda>(_, _, s). if mm_state s = ARM_UC_MM_STATE_IDLE then 0 else 1)")
    (auto dest!: mm_round_state)

declare ARM_UC_mmFSM.simps [simp del]

definition ARM_UC_mmCallbackFSMEntry ::
    "environment \<Rightarrow> (uc_fn \<Rightarrow> u32 \<Rightarrow> 'z mm_scheme \<Rightarrow> 'z mm_scheme option) \<Rightarrow> u32 \<Rightarrow> 'z mm_scheme \<Rightarrow>
     'z mm_scheme option"
where
  "ARM_UC_mmCallbackFSMEntry w call event s = do {
     (err, s) \<leftarrow> ARM_UC_mmFSM w event s;
     if err \<noteq> ERR_NONE \<and> err \<noteq> MFST_ERR_PENDING then do {
       f \<leftarrow> applicationEventHandler s;
       call f ARM_UC_MM_RC_ERROR (s\<lparr>reportedError := err\<rparr>)
     }
     else Some s
   }"

end
