(* ===== verification/UC_Hub_State.thy ===== *)
theory UC_Hub_State
  imports UC_Manifest_Manager
begin

text \<open>
  The state of the hub, \<open>source/update_client_hub_state_machine.h\<close> and the globals of
  \<open>update_client_hub_state_machine.c\<close>, with the enumerations of \<open>arm_uc_public.h\<close>, for the build with
  delta updates and the new manifest, without pre-shared keys and not rootless.

  \<open>fwinfo\<close>, what the manifest says about the firmware, lies in the memory of the buffer \<open>message2\<close>: it
  is a view of the bytes there. How the compiler lays the structure out is not in the source, so
  the view is a parameter, as are the offsets of its last two members and the place that its
  \<open>uri.ptr\<close> points to. The memory that \<open>uri\<close> shares with the context of the manifest manager is
  modelled as its own.
\<close>

subsection \<open>Enumerations\<close>

abbreviation (input) ARM_UC_WARNING :: u32 where "ARM_UC_WARNING \<equiv> 0"
abbreviation (input) ARM_UC_WARNING_CERTIFICATE_NOT_FOUND :: u32 where
  "ARM_UC_WARNING_CERTIFICATE_NOT_FOUND \<equiv> 1"
abbreviation (input) ARM_UC_WARNING_IDENTITY_NOT_FOUND :: u32 where "ARM_UC_WARNING_IDENTITY_NOT_FOUND \<equiv> 2"
abbreviation (input) ARM_UC_WARNING_VENDOR_MISMATCH :: u32 where "ARM_UC_WARNING_VENDOR_MISMATCH \<equiv> 3"
abbreviation (input) ARM_UC_WARNING_CLASS_MISMATCH :: u32 where "ARM_UC_WARNING_CLASS_MISMATCH \<equiv> 4"
abbreviation (input) ARM_UC_WARNING_DEVICE_MISMATCH :: u32 where "ARM_UC_WARNING_DEVICE_MISMATCH \<equiv> 5"
abbreviation (input) ARM_UC_WARNING_CERTIFICATE_INVALID :: u32 where
  "ARM_UC_WARNING_CERTIFICATE_INVALID \<equiv> 6"
abbreviation (input) ARM_UC_WARNING_SIGNATURE_INVALID :: u32 where "ARM_UC_WARNING_SIGNATURE_INVALID \<equiv> 7"
abbreviation (input) ARM_UC_WARNING_BAD_KEYTABLE :: u32 where "ARM_UC_WARNING_BAD_KEYTABLE \<equiv> 8"
abbreviation (input) ARM_UC_WARNING_URI_NOT_FOUND :: u32 where "ARM_UC_WARNING_URI_NOT_FOUND \<equiv> 9"
abbreviation (input) ARM_UC_WARNING_ROLLBACK_PROTECTION :: u32 where
  "ARM_UC_WARNING_ROLLBACK_PROTECTION \<equiv> 10"
abbreviation (input) ARM_UC_WARNING_AUTHORIZATION_REJECTED :: u32 where
  "ARM_UC_WARNING_AUTHORIZATION_REJECTED \<equiv> 11"
abbreviation (input) ARM_UC_WARNING_AUTHORIZATION_UNAVAILABLE :: u32 where
  "ARM_UC_WARNING_AUTHORIZATION_UNAVAILABLE \<equiv> 12"
abbreviation (input) ARM_UC_WARNING_UNKNOWN :: u32 where "ARM_UC_WARNING_UNKNOWN \<equiv> 13"
abbreviation (input) ARM_UC_ERROR :: u32 where "ARM_UC_ERROR \<equiv> 14"
abbreviation (input) ARM_UC_ERROR_WRITE_TO_STORAGE :: u32 where "ARM_UC_ERROR_WRITE_TO_STORAGE \<equiv> 15"
abbreviation (input) ARM_UC_ERROR_INVALID_HASH :: u32 where "ARM_UC_ERROR_INVALID_HASH \<equiv> 16"
abbreviation (input) ARM_UC_ERROR_CONNECTION :: u32 where "ARM_UC_ERROR_CONNECTION \<equiv> 17"
abbreviation (input) ARM_UC_FATAL :: u32 where "ARM_UC_FATAL \<equiv> 18"
abbreviation (input) ARM_UC_UNKNOWN :: u32 where "ARM_UC_UNKNOWN \<equiv> 19"

abbreviation (input) ARM_UC_UPDATE_STATE_FIRST :: u32 where "ARM_UC_UPDATE_STATE_FIRST \<equiv> 0"
abbreviation (input) ARM_UC_UPDATE_STATE_UNINITIALISED :: u32 where "ARM_UC_UPDATE_STATE_UNINITIALISED \<equiv> 0"
abbreviation (input) ARM_UC_UPDATE_STATE_IDLE :: u32 where "ARM_UC_UPDATE_STATE_IDLE \<equiv> 1"
abbreviation (input) ARM_UC_UPDATE_STATE_PROCESSING_MANIFEST :: u32 where
  "ARM_UC_UPDATE_STATE_PROCESSING_MANIFEST \<equiv> 2"
abbreviation (input) ARM_UC_UPDATE_STATE_AWAITING_DOWNLOAD_APPROVAL :: u32 where
  "ARM_UC_UPDATE_STATE_AWAITING_DOWNLOAD_APPROVAL \<equiv> 3"
abbreviation (input) ARM_UC_UPDATE_STATE_DOWNLOADING_UPDATE :: u32 where
  "ARM_UC_UPDATE_STATE_DOWNLOADING_UPDATE \<equiv> 4"
abbreviation (input) ARM_UC_UPDATE_STATE_DOWNLOADED_UPDATE :: u32 where
  "ARM_UC_UPDATE_STATE_DOWNLOADED_UPDATE \<equiv> 5"
abbreviation (input) ARM_UC_UPDATE_STATE_AWAITING_INSTALL_APPROVAL :: u32 where
  "ARM_UC_UPDATE_STATE_AWAITING_INSTALL_APPROVAL \<equiv> 6"
abbreviation (input) ARM_UC_UPDATE_STATE_INSTALLING_UPDATE :: u32 where
  "ARM_UC_UPDATE_STATE_INSTALLING_UPDATE \<equiv> 7"
abbreviation (input) ARM_UC_UPDATE_STATE_REBOOTING :: u32 where "ARM_UC_UPDATE_STATE_REBOOTING \<equiv> 8"
abbreviation (input) ARM_UC_UPDATE_STATE_LAST :: u32 where "ARM_UC_UPDATE_STATE_LAST \<equiv> 8"

abbreviation (input) ARM_UC_UPDATE_RESULT_UPDATE_FIRST :: u32 where "ARM_UC_UPDATE_RESULT_UPDATE_FIRST \<equiv> 100"
abbreviation (input) ARM_UC_UPDATE_RESULT_UPDATE_SUCCEEDED :: u32 where
  "ARM_UC_UPDATE_RESULT_UPDATE_SUCCEEDED \<equiv> 100"
abbreviation (input) ARM_UC_UPDATE_RESULT_UPDATE_NONSPECIFIC_NETWORK_ERROR :: u32 where
  "ARM_UC_UPDATE_RESULT_UPDATE_NONSPECIFIC_NETWORK_ERROR \<equiv> 101"
abbreviation (input) ARM_UC_UPDATE_RESULT_UPDATE_NONSPECIFIC_VALIDITY_ERROR :: u32 where
  "ARM_UC_UPDATE_RESULT_UPDATE_NONSPECIFIC_VALIDITY_ERROR \<equiv> 102"
abbreviation (input) ARM_UC_UPDATE_RESULT_UPDATE_NONSPECIFIC_SYSTEM_ERROR :: u32 where
  "ARM_UC_UPDATE_RESULT_UPDATE_NONSPECIFIC_SYSTEM_ERROR \<equiv> 103"
abbreviation (input) ARM_UC_UPDATE_RESULT_UPDATE_LAST :: u32 where "ARM_UC_UPDATE_RESULT_UPDATE_LAST \<equiv> 103"
abbreviation (input) ARM_UC_UPDATE_RESULT_MANIFEST_FIRST :: u32 where
  "ARM_UC_UPDATE_RESULT_MANIFEST_FIRST \<equiv> 200"
abbreviation (input) ARM_UC_UPDATE_RESULT_MANIFEST_NONSPECIFIC_ERROR :: u32 where
  "ARM_UC_UPDATE_RESULT_MANIFEST_NONSPECIFIC_ERROR \<equiv> 200"
abbreviation (input) ARM_UC_UPDATE_RESULT_MANIFEST_NONSPECIFIC_NETWORK_ERROR :: u32 where
  "ARM_UC_UPDATE_RESULT_MANIFEST_NONSPECIFIC_NETWORK_ERROR \<equiv> 201"
abbreviation (input) ARM_UC_UPDATE_RESULT_MANIFEST_NETWORK_TIMEOUT :: u32 where
  "ARM_UC_UPDATE_RESULT_MANIFEST_NETWORK_TIMEOUT \<equiv> 202"
abbreviation (input) ARM_UC_UPDATE_RESULT_MANIFEST_NETWORK_CONNECTION_FAILURE :: u32 where
  "ARM_UC_UPDATE_RESULT_MANIFEST_NETWORK_CONNECTION_FAILURE \<equiv> 203"
abbreviation (input) ARM_UC_UPDATE_RESULT_MANIFEST_DNS_LOOKUP_FAILURE :: u32 where
  "ARM_UC_UPDATE_RESULT_MANIFEST_DNS_LOOKUP_FAILURE \<equiv> 204"
abbreviation (input) ARM_UC_UPDATE_RESULT_MANIFEST_NETWORK_CONNECTION_LOSS :: u32 where
  "ARM_UC_UPDATE_RESULT_MANIFEST_NETWORK_CONNECTION_LOSS \<equiv> 205"
abbreviation (input) ARM_UC_UPDATE_RESULT_MANIFEST_NOT_FOUND :: u32 where
  "ARM_UC_UPDATE_RESULT_MANIFEST_NOT_FOUND \<equiv> 206"
abbreviation (input) ARM_UC_UPDATE_RESULT_MANIFEST_INTEGRITY_CHECK_FAILED :: u32 where
  "ARM_UC_UPDATE_RESULT_MANIFEST_INTEGRITY_CHECK_FAILED \<equiv> 207"
abbreviation (input) ARM_UC_UPDATE_RESULT_MANIFEST_CERTIFICATE_NOT_FOUND :: u32 where
  "ARM_UC_UPDATE_RESULT_MANIFEST_CERTIFICATE_NOT_FOUND \<equiv> 208"
abbreviation (input) ARM_UC_UPDATE_RESULT_MANIFEST_INVALID_CERTIFICATE :: u32 where
  "ARM_UC_UPDATE_RESULT_MANIFEST_INVALID_CERTIFICATE \<equiv> 209"
abbreviation (input) ARM_UC_UPDATE_RESULT_MANIFEST_INVALID_SIGNATURE :: u32 where
  "ARM_UC_UPDATE_RESULT_MANIFEST_INVALID_SIGNATURE \<equiv> 210"
abbreviation (input) ARM_UC_UPDATE_RESULT_MANIFEST_DEPENDENT_MANIFEST_NOT_FOUND :: u32 where
  "ARM_UC_UPDATE_RESULT_MANIFEST_DEPENDENT_MANIFEST_NOT_FOUND \<equiv> 211"
abbreviation (input) ARM_UC_UPDATE_RESULT_MANIFEST_ALREADY_PROCESSING_ERROR :: u32 where
  "ARM_UC_UPDATE_RESULT_MANIFEST_ALREADY_PROCESSING_ERROR \<equiv> 212"
abbreviation (input) ARM_UC_UPDATE_RESULT_MANIFEST_RESOURCE_ALREADY_PRESENT_ERROR :: u32 where
  "ARM_UC_UPDATE_RESULT_MANIFEST_RESOURCE_ALREADY_PRESENT_ERROR \<equiv> 213"
abbreviation (input) ARM_UC_UPDATE_RESULT_MANIFEST_UNSUPPORTED_MANIFEST_VERSION :: u32 where
  "ARM_UC_UPDATE_RESULT_MANIFEST_UNSUPPORTED_MANIFEST_VERSION \<equiv> 214"
abbreviation (input) ARM_UC_UPDATE_RESULT_MANIFEST_WRONG_VENDOR_ID :: u32 where
  "ARM_UC_UPDATE_RESULT_MANIFEST_WRONG_VENDOR_ID \<equiv> 215"
abbreviation (input) ARM_UC_UPDATE_RESULT_MANIFEST_WRONG_CLASS_ID :: u32 where
  "ARM_UC_UPDATE_RESULT_MANIFEST_WRONG_CLASS_ID \<equiv> 216"
abbreviation (input) ARM_UC_UPDATE_RESULT_MANIFEST_INVALID_MANIFEST_SIZE :: u32 where
  "ARM_UC_UPDATE_RESULT_MANIFEST_INVALID_MANIFEST_SIZE \<equiv> 217"
abbreviation (input) ARM_UC_UPDATE_RESULT_MANIFEST_INVALID_MANIFEST_FORMAT :: u32 where
  "ARM_UC_UPDATE_RESULT_MANIFEST_INVALID_MANIFEST_FORMAT \<equiv> 218"
abbreviation (input) ARM_UC_UPDATE_RESULT_MANIFEST_INVALID_CRYPTO_MODE :: u32 where
  "ARM_UC_UPDATE_RESULT_MANIFEST_INVALID_CRYPTO_MODE \<equiv> 219"
abbreviation (input) ARM_UC_UPDATE_RESULT_MANIFEST_MISSING_FIELD :: u32 where
  "ARM_UC_UPDATE_RESULT_MANIFEST_MISSING_FIELD \<equiv> 220"
abbreviation (input) ARM_UC_UPDATE_RESULT_MANIFEST_ROLLBACK_PROTECTION :: u32 where
  "ARM_UC_UPDATE_RESULT_MANIFEST_ROLLBACK_PROTECTION \<equiv> 221"
abbreviation (input) ARM_UC_UPDATE_RESULT_MANIFEST_MISSING_ITEM :: u32 where
  "ARM_UC_UPDATE_RESULT_MANIFEST_MISSING_ITEM \<equiv> 222"
abbreviation (input) ARM_UC_UPDATE_RESULT_MANIFEST_CORRUPTED_KEYTABLE :: u32 where
  "ARM_UC_UPDATE_RESULT_MANIFEST_CORRUPTED_KEYTABLE \<equiv> 223"
abbreviation (input) ARM_UC_UPDATE_RESULT_MANIFEST_INVALID_KEYTABLE_ENCODING :: u32 where
  "ARM_UC_UPDATE_RESULT_MANIFEST_INVALID_KEYTABLE_ENCODING \<equiv> 224"
abbreviation (input) ARM_UC_UPDATE_RESULT_MANIFEST_INSUFFICIENT_STORAGE_SPACE :: u32 where
  "ARM_UC_UPDATE_RESULT_MANIFEST_INSUFFICIENT_STORAGE_SPACE \<equiv> 225"
abbreviation (input) ARM_UC_UPDATE_RESULT_MANIFEST_INSUFFICIENT_MEMORY_SPACE :: u32 where
  "ARM_UC_UPDATE_RESULT_MANIFEST_INSUFFICIENT_MEMORY_SPACE \<equiv> 226"
abbreviation (input) ARM_UC_UPDATE_RESULT_MANIFEST_WRITE_FAILURE :: u32 where
  "ARM_UC_UPDATE_RESULT_MANIFEST_WRITE_FAILURE \<equiv> 227"
abbreviation (input) ARM_UC_UPDATE_RESULT_MANIFEST_WRONG_DEVICE_ID :: u32 where
  "ARM_UC_UPDATE_RESULT_MANIFEST_WRONG_DEVICE_ID \<equiv> 228"
abbreviation (input) ARM_UC_UPDATE_RESULT_MANIFEST_WRONG_DELTA_PRECURSOR :: u32 where
  "ARM_UC_UPDATE_RESULT_MANIFEST_WRONG_DELTA_PRECURSOR \<equiv> 229"
abbreviation (input) ARM_UC_UPDATE_RESULT_MANIFEST_PROCESSOR_NOT_AVAILABLE :: u32 where
  "ARM_UC_UPDATE_RESULT_MANIFEST_PROCESSOR_NOT_AVAILABLE \<equiv> 230"
abbreviation (input) ARM_UC_UPDATE_RESULT_MANIFEST_LAST :: u32 where
  "ARM_UC_UPDATE_RESULT_MANIFEST_LAST \<equiv> 230"
abbreviation (input) ARM_UC_UPDATE_RESULT_FETCHER_FIRST :: u32 where
  "ARM_UC_UPDATE_RESULT_FETCHER_FIRST \<equiv> 300"
abbreviation (input) ARM_UC_UPDATE_RESULT_FETCHER_NONSPECIFIC_ERROR :: u32 where
  "ARM_UC_UPDATE_RESULT_FETCHER_NONSPECIFIC_ERROR \<equiv> 300"
abbreviation (input) ARM_UC_UPDATE_RESULT_FETCHER_NONSPECIFIC_NETWORK_ERROR :: u32 where
  "ARM_UC_UPDATE_RESULT_FETCHER_NONSPECIFIC_NETWORK_ERROR \<equiv> 301"
abbreviation (input) ARM_UC_UPDATE_RESULT_FETCHER_NO_ROUTE_AVAILABLE :: u32 where
  "ARM_UC_UPDATE_RESULT_FETCHER_NO_ROUTE_AVAILABLE \<equiv> 302"
abbreviation (input) ARM_UC_UPDATE_RESULT_FETCHER_NETWORK_TIMEOUT :: u32 where
  "ARM_UC_UPDATE_RESULT_FETCHER_NETWORK_TIMEOUT \<equiv> 303"
abbreviation (input) ARM_UC_UPDATE_RESULT_FETCHER_NETWORK_CONNECTION_FAILURE :: u32 where
  "ARM_UC_UPDATE_RESULT_FETCHER_NETWORK_CONNECTION_FAILURE \<equiv> 304"
abbreviation (input) ARM_UC_UPDATE_RESULT_FETCHER_DNS_LOOKUP_FAILURE :: u32 where
  "ARM_UC_UPDATE_RESULT_FETCHER_DNS_LOOKUP_FAILURE \<equiv> 305"
abbreviation (input) ARM_UC_UPDATE_RESULT_FETCHER_NETWORK_CONNECTION_LOSS :: u32 where
  "ARM_UC_UPDATE_RESULT_FETCHER_NETWORK_CONNECTION_LOSS \<equiv> 306"
abbreviation (input) ARM_UC_UPDATE_RESULT_FETCHER_INVALID_RESOURCE_URI :: u32 where
  "ARM_UC_UPDATE_RESULT_FETCHER_INVALID_RESOURCE_URI \<equiv> 307"
abbreviation (input) ARM_UC_UPDATE_RESULT_FETCHER_INVALID_REQUEST_TYPE :: u32 where
  "ARM_UC_UPDATE_RESULT_FETCHER_INVALID_REQUEST_TYPE \<equiv> 308"
abbreviation (input) ARM_UC_UPDATE_RESULT_FETCHER_INTEGRITY_CHECK_FAILED :: u32 where
  "ARM_UC_UPDATE_RESULT_FETCHER_INTEGRITY_CHECK_FAILED \<equiv> 309"
abbreviation (input) ARM_UC_UPDATE_RESULT_FETCHER_USER_DEFINED_ERROR_1 :: u32 where
  "ARM_UC_UPDATE_RESULT_FETCHER_USER_DEFINED_ERROR_1 \<equiv> 310"
abbreviation (input) ARM_UC_UPDATE_RESULT_FETCHER_USER_DEFINED_ERROR_2 :: u32 where
  "ARM_UC_UPDATE_RESULT_FETCHER_USER_DEFINED_ERROR_2 \<equiv> 311"
abbreviation (input) ARM_UC_UPDATE_RESULT_FETCHER_USER_DEFINED_ERROR_3 :: u32 where
  "ARM_UC_UPDATE_RESULT_FETCHER_USER_DEFINED_ERROR_3 \<equiv> 312"
abbreviation (input) ARM_UC_UPDATE_RESULT_FETCHER_USER_DEFINED_ERROR_4 :: u32 where
  "ARM_UC_UPDATE_RESULT_FETCHER_USER_DEFINED_ERROR_4 \<equiv> 313"
abbreviation (input) ARM_UC_UPDATE_RESULT_FETCHER_USER_DEFINED_ERROR_5 :: u32 where
  "ARM_UC_UPDATE_RESULT_FETCHER_USER_DEFINED_ERROR_5 \<equiv> 314"
abbreviation (input) ARM_UC_UPDATE_RESULT_FETCHER_AUTHORIZATON_REJECTED :: u32 where
  "ARM_UC_UPDATE_RESULT_FETCHER_AUTHORIZATON_REJECTED \<equiv> 315"
abbreviation (input) ARM_UC_UPDATE_RESULT_FETCHER_AUTHORIZATON_UNAVAILABLE :: u32 where
  "ARM_UC_UPDATE_RESULT_FETCHER_AUTHORIZATON_UNAVAILABLE \<equiv> 316"
abbreviation (input) ARM_UC_UPDATE_RESULT_FETCHER_LAST :: u32 where "ARM_UC_UPDATE_RESULT_FETCHER_LAST \<equiv> 316"
abbreviation (input) ARM_UC_UPDATE_RESULT_PROCESSOR_FIRST :: u32 where
  "ARM_UC_UPDATE_RESULT_PROCESSOR_FIRST \<equiv> 400"
abbreviation (input) ARM_UC_UPDATE_RESULT_PROCESSOR_NONSPECIFIC_ERROR :: u32 where
  "ARM_UC_UPDATE_RESULT_PROCESSOR_NONSPECIFIC_ERROR \<equiv> 400"
abbreviation (input) ARM_UC_UPDATE_RESULT_PROCESSOR_USER_DEFINED_ERROR_1 :: u32 where
  "ARM_UC_UPDATE_RESULT_PROCESSOR_USER_DEFINED_ERROR_1 \<equiv> 401"
abbreviation (input) ARM_UC_UPDATE_RESULT_PROCESSOR_USER_DEFINED_ERROR_2 :: u32 where
  "ARM_UC_UPDATE_RESULT_PROCESSOR_USER_DEFINED_ERROR_2 \<equiv> 402"
abbreviation (input) ARM_UC_UPDATE_RESULT_PROCESSOR_USER_DEFINED_ERROR_3 :: u32 where
  "ARM_UC_UPDATE_RESULT_PROCESSOR_USER_DEFINED_ERROR_3 \<equiv> 403"
abbreviation (input) ARM_UC_UPDATE_RESULT_PROCESSOR_USER_DEFINED_ERROR_4 :: u32 where
  "ARM_UC_UPDATE_RESULT_PROCESSOR_USER_DEFINED_ERROR_4 \<equiv> 404"
abbreviation (input) ARM_UC_UPDATE_RESULT_PROCESSOR_USER_DEFINED_ERROR_5 :: u32 where
  "ARM_UC_UPDATE_RESULT_PROCESSOR_USER_DEFINED_ERROR_5 \<equiv> 405"
abbreviation (input) ARM_UC_UPDATE_RESULT_PROCESSOR_INTEGRITY_CHECK_FAILED :: u32 where
  "ARM_UC_UPDATE_RESULT_PROCESSOR_INTEGRITY_CHECK_FAILED \<equiv> 406"
abbreviation (input) ARM_UC_UPDATE_RESULT_PROCESSOR_PARSE_ERROR :: u32 where
  "ARM_UC_UPDATE_RESULT_PROCESSOR_PARSE_ERROR \<equiv> 407"
abbreviation (input) ARM_UC_UPDATE_RESULT_PROCESSOR_INSUFFICIENT_STORAGE_SPACE :: u32 where
  "ARM_UC_UPDATE_RESULT_PROCESSOR_INSUFFICIENT_STORAGE_SPACE \<equiv> 408"
abbreviation (input) ARM_UC_UPDATE_RESULT_PROCESSOR_INSUFFICIENT_MEMORY_SPACE :: u32 where
  "ARM_UC_UPDATE_RESULT_PROCESSOR_INSUFFICIENT_MEMORY_SPACE \<equiv> 409"
abbreviation (input) ARM_UC_UPDATE_RESULT_PROCESSOR_LAST :: u32 where
  "ARM_UC_UPDATE_RESULT_PROCESSOR_LAST \<equiv> 409"
abbreviation (input) ARM_UC_UPDATE_RESULT_WRITER_FIRST :: u32 where "ARM_UC_UPDATE_RESULT_WRITER_FIRST \<equiv> 500"
abbreviation (input) ARM_UC_UPDATE_RESULT_WRITER_NONSPECIFIC_ERROR :: u32 where
  "ARM_UC_UPDATE_RESULT_WRITER_NONSPECIFIC_ERROR \<equiv> 500"
abbreviation (input) ARM_UC_UPDATE_RESULT_WRITER_INSUFFICIENT_STORAGE_SPACE :: u32 where
  "ARM_UC_UPDATE_RESULT_WRITER_INSUFFICIENT_STORAGE_SPACE \<equiv> 501"
abbreviation (input) ARM_UC_UPDATE_RESULT_WRITER_INSUFFICIENT_MEMORY_SPACE :: u32 where
  "ARM_UC_UPDATE_RESULT_WRITER_INSUFFICIENT_MEMORY_SPACE \<equiv> 502"
abbreviation (input) ARM_UC_UPDATE_RESULT_WRITER_WRITE_FAILURE :: u32 where
  "ARM_UC_UPDATE_RESULT_WRITER_WRITE_FAILURE \<equiv> 503"
abbreviation (input) ARM_UC_UPDATE_RESULT_WRITER_HASH_ERROR :: u32 where
  "ARM_UC_UPDATE_RESULT_WRITER_HASH_ERROR \<equiv> 504"
abbreviation (input) ARM_UC_UPDATE_RESULT_WRITER_ACTIVATION_FAILURE :: u32 where
  "ARM_UC_UPDATE_RESULT_WRITER_ACTIVATION_FAILURE \<equiv> 505"
abbreviation (input) ARM_UC_UPDATE_RESULT_WRITER_USER_DEFINED_ERROR_1 :: u32 where
  "ARM_UC_UPDATE_RESULT_WRITER_USER_DEFINED_ERROR_1 \<equiv> 506"
abbreviation (input) ARM_UC_UPDATE_RESULT_WRITER_USER_DEFINED_ERROR_2 :: u32 where
  "ARM_UC_UPDATE_RESULT_WRITER_USER_DEFINED_ERROR_2 \<equiv> 507"
abbreviation (input) ARM_UC_UPDATE_RESULT_WRITER_USER_DEFINED_ERROR_3 :: u32 where
  "ARM_UC_UPDATE_RESULT_WRITER_USER_DEFINED_ERROR_3 \<equiv> 508"
abbreviation (input) ARM_UC_UPDATE_RESULT_WRITER_USER_DEFINED_ERROR_4 :: u32 where
  "ARM_UC_UPDATE_RESULT_WRITER_USER_DEFINED_ERROR_4 \<equiv> 509"
abbreviation (input) ARM_UC_UPDATE_RESULT_WRITER_USER_DEFINED_ERROR_5 :: u32 where
  "ARM_UC_UPDATE_RESULT_WRITER_USER_DEFINED_ERROR_5 \<equiv> 510"
abbreviation (input) ARM_UC_UPDATE_RESULT_WRITER_AUTHORIZATON_REJECTED :: u32 where
  "ARM_UC_UPDATE_RESULT_WRITER_AUTHORIZATON_REJECTED \<equiv> 511"
abbreviation (input) ARM_UC_UPDATE_RESULT_WRITER_AUTHORIZATON_UNAVAILABLE :: u32 where
  "ARM_UC_UPDATE_RESULT_WRITER_AUTHORIZATON_UNAVAILABLE \<equiv> 512"
abbreviation (input) ARM_UC_UPDATE_RESULT_WRITER_LAST :: u32 where "ARM_UC_UPDATE_RESULT_WRITER_LAST \<equiv> 512"

abbreviation (input) ARM_UC_INIT_DONE :: u32 where "ARM_UC_INIT_DONE \<equiv> 0"

datatype arm_uc_hub_state_t =
    ARM_UC_HUB_STATE_UNINITIALIZED | ARM_UC_HUB_STATE_INITIALIZING | ARM_UC_HUB_STATE_INITIALIZED
    | ARM_UC_HUB_STATE_GET_ACTIVE_FIRMWARE_DETAILS | ARM_UC_HUB_STATE_REPORT_ACTIVE_HASH
    | ARM_UC_HUB_STATE_REPORT_ACTIVE_VERSION | ARM_UC_HUB_STATE_GET_INSTALLER_DETAILS
    | ARM_UC_HUB_STATE_REPORT_INSTALLER_DETAILS | ARM_UC_HUB_STATE_IDLE | ARM_UC_HUB_STATE_NOTIFIED
    | ARM_UC_HUB_STATE_CERT_STORED | ARM_UC_HUB_STATE_MANIFEST_FETCHED
    | ARM_UC_HUB_STATE_MANIFEST_AWAIT_INSERT | ARM_UC_HUB_STATE_MANIFEST_INSERT_DONE
    | ARM_UC_HUB_STATE_MANIFEST_AWAIT_MONITOR_REPORT_DONE | ARM_UC_HUB_STATE_MANIFEST_COMPLETE
    | ARM_UC_HUB_STATE_CHECK_VERSION | ARM_UC_HUB_STATE_PREPARE_FIRMWARE_SETUP
    | ARM_UC_HUB_STATE_DOWNLOAD_AUTHORIZATION_MONITOR_REPORT
    | ARM_UC_HUB_STATE_WAIT_FOR_DOWNLOAD_AUTHORIZATION_REPORT_DONE
    | ARM_UC_HUB_STATE_REQUEST_DOWNLOAD_AUTHORIZATION | ARM_UC_HUB_STATE_WAIT_FOR_DOWNLOAD_AUTHORIZATION
    | ARM_UC_HUB_STATE_SETUP_FIRMWARE | ARM_UC_HUB_STATE_AWAIT_FIRMWARE_SETUP
    | ARM_UC_HUB_STATE_FIRMWARE_SETUP_DONE | ARM_UC_HUB_STATE_AWAIT_FIRMWARE_MONITOR_REPORT_DONE
    | ARM_UC_HUB_STATE_FETCH_FIRST_FRAGMENT | ARM_UC_HUB_STATE_STORE_AND_DOWNLOAD
    | ARM_UC_HUB_STATE_WAIT_FOR_STORAGE | ARM_UC_HUB_STATE_WAIT_FOR_NETWORK
    | ARM_UC_HUB_STATE_AWAIT_LAST_FRAGMENT_STORED | ARM_UC_HUB_STATE_LAST_FRAGMENT_STORE_DONE
    | ARM_UC_HUB_STATE_AWAIT_LAST_FRAGMENT_MONITOR_REPORT_DONE | ARM_UC_HUB_STATE_FINALIZE_STORAGE
    | ARM_UC_HUB_STATE_STORAGE_FINALIZED | ARM_UC_HUB_STATE_WAIT_FOR_INSTALL_AUTHORIZATION
    | ARM_UC_HUB_STATE_INSTALL_AUTHORIZED | ARM_UC_HUB_STATE_ACTIVATE_FIRMWARE
    | ARM_UC_HUB_STATE_PREP_REBOOT | ARM_UC_HUB_STATE_REBOOT | ARM_UC_HUB_STATE_ERROR_FIRMWARE_MANAGER
    | ARM_UC_HUB_STATE_ERROR_MANIFEST_MANAGER | ARM_UC_HUB_STATE_ERROR_SOURCE_MANAGER
    | ARM_UC_HUB_STATE_ERROR_CONTROL_CENTER | ARM_UC_HUB_STATE_WAIT_FOR_ERROR_ACK

text \<open>C compares the states as numbers: their positions in the enumeration.\<close>

definition hub_states :: "arm_uc_hub_state_t list" where
  "hub_states =
    [ARM_UC_HUB_STATE_UNINITIALIZED, ARM_UC_HUB_STATE_INITIALIZING, ARM_UC_HUB_STATE_INITIALIZED,
     ARM_UC_HUB_STATE_GET_ACTIVE_FIRMWARE_DETAILS, ARM_UC_HUB_STATE_REPORT_ACTIVE_HASH,
     ARM_UC_HUB_STATE_REPORT_ACTIVE_VERSION, ARM_UC_HUB_STATE_GET_INSTALLER_DETAILS,
     ARM_UC_HUB_STATE_REPORT_INSTALLER_DETAILS, ARM_UC_HUB_STATE_IDLE, ARM_UC_HUB_STATE_NOTIFIED,
     ARM_UC_HUB_STATE_CERT_STORED, ARM_UC_HUB_STATE_MANIFEST_FETCHED,
     ARM_UC_HUB_STATE_MANIFEST_AWAIT_INSERT, ARM_UC_HUB_STATE_MANIFEST_INSERT_DONE,
     ARM_UC_HUB_STATE_MANIFEST_AWAIT_MONITOR_REPORT_DONE, ARM_UC_HUB_STATE_MANIFEST_COMPLETE,
     ARM_UC_HUB_STATE_CHECK_VERSION, ARM_UC_HUB_STATE_PREPARE_FIRMWARE_SETUP,
     ARM_UC_HUB_STATE_DOWNLOAD_AUTHORIZATION_MONITOR_REPORT,
     ARM_UC_HUB_STATE_WAIT_FOR_DOWNLOAD_AUTHORIZATION_REPORT_DONE,
     ARM_UC_HUB_STATE_REQUEST_DOWNLOAD_AUTHORIZATION, ARM_UC_HUB_STATE_WAIT_FOR_DOWNLOAD_AUTHORIZATION,
     ARM_UC_HUB_STATE_SETUP_FIRMWARE, ARM_UC_HUB_STATE_AWAIT_FIRMWARE_SETUP,
     ARM_UC_HUB_STATE_FIRMWARE_SETUP_DONE, ARM_UC_HUB_STATE_AWAIT_FIRMWARE_MONITOR_REPORT_DONE,
     ARM_UC_HUB_STATE_FETCH_FIRST_FRAGMENT, ARM_UC_HUB_STATE_STORE_AND_DOWNLOAD,
     ARM_UC_HUB_STATE_WAIT_FOR_STORAGE, ARM_UC_HUB_STATE_WAIT_FOR_NETWORK,
     ARM_UC_HUB_STATE_AWAIT_LAST_FRAGMENT_STORED, ARM_UC_HUB_STATE_LAST_FRAGMENT_STORE_DONE,
     ARM_UC_HUB_STATE_AWAIT_LAST_FRAGMENT_MONITOR_REPORT_DONE, ARM_UC_HUB_STATE_FINALIZE_STORAGE,
     ARM_UC_HUB_STATE_STORAGE_FINALIZED, ARM_UC_HUB_STATE_WAIT_FOR_INSTALL_AUTHORIZATION,
     ARM_UC_HUB_STATE_INSTALL_AUTHORIZED, ARM_UC_HUB_STATE_ACTIVATE_FIRMWARE,
     ARM_UC_HUB_STATE_PREP_REBOOT, ARM_UC_HUB_STATE_REBOOT, ARM_UC_HUB_STATE_ERROR_FIRMWARE_MANAGER,
     ARM_UC_HUB_STATE_ERROR_MANIFEST_MANAGER, ARM_UC_HUB_STATE_ERROR_SOURCE_MANAGER,
     ARM_UC_HUB_STATE_ERROR_CONTROL_CENTER, ARM_UC_HUB_STATE_WAIT_FOR_ERROR_ACK]"

definition hub_state_number :: "arm_uc_hub_state_t \<Rightarrow> nat" where
  "hub_state_number st = length (takeWhile (\<lambda>x. x \<noteq> st) hub_states)"

lemma hub_states_all: "st \<in> set hub_states"
  by (cases st) (simp_all add: hub_states_def)

lemma hub_state_number_inj: "hub_state_number a = hub_state_number b \<longleftrightarrow> a = b"
proof -
  have "hub_states ! hub_state_number st = st" for st
  proof -
    have "hub_state_number st < length hub_states"
      unfolding hub_state_number_def using hub_states_all[of st]
      by (metis (mono_tags, lifting) length_takeWhile_le linorder_neqE_nat not_le takeWhile_eq_take take_all
          set_takeWhileD order_refl)
    then show ?thesis
      using nth_length_takeWhile[of "\<lambda>x. x \<noteq> st" hub_states] by (simp add: hub_state_number_def)
  qed
  then show ?thesis by metis
qed

instantiation arm_uc_hub_state_t :: linorder
begin

definition less_eq_arm_uc_hub_state_t :: "arm_uc_hub_state_t \<Rightarrow> arm_uc_hub_state_t \<Rightarrow> bool" where
  "less_eq_arm_uc_hub_state_t a b = (hub_state_number a \<le> hub_state_number b)"

definition less_arm_uc_hub_state_t :: "arm_uc_hub_state_t \<Rightarrow> arm_uc_hub_state_t \<Rightarrow> bool" where
  "less_arm_uc_hub_state_t a b = (hub_state_number a < hub_state_number b)"

instance
  by standard (auto simp: less_eq_arm_uc_hub_state_t_def less_arm_uc_hub_state_t_def hub_state_number_inj)

end

subsection \<open>Firmware information\<close>

abbreviation (input) ARM_UC_MM_CIPHERMODE_NONE :: u32 where "ARM_UC_MM_CIPHERMODE_NONE \<equiv> 0"
abbreviation (input) ARM_UC_MM_CIPHERMODE_PSK :: u32 where "ARM_UC_MM_CIPHERMODE_PSK \<equiv> 1"
abbreviation (input) ARM_UC_MM_CIPHERMODE_CERT_CIPHERKEY :: u32 where "ARM_UC_MM_CIPHERMODE_CERT_CIPHERKEY \<equiv> 2"
abbreviation (input) ARM_UC_MM_CIPHERMODE_CERT_KEYTABLE :: u32 where "ARM_UC_MM_CIPHERMODE_CERT_KEYTABLE \<equiv> 3"
abbreviation (input) ARM_UC_MM_FORMAT_RAW_BINARY :: u32 where "ARM_UC_MM_FORMAT_RAW_BINARY \<equiv> 1"
abbreviation (input) ARM_UC_MM_FORMAT_BSDIFF_STREAM :: u32 where "ARM_UC_MM_FORMAT_BSDIFF_STREAM \<equiv> 5"
abbreviation (input) ARM_UC_MM_MANIFEST_BUFFER_SIZE :: nat where "ARM_UC_MM_MANIFEST_BUFFER_SIZE \<equiv> 640"

text \<open>The members that the hub reads.\<close>

record manifest_firmware_info_t =
  timestamp :: u64
  format :: manifest_guid_t
  fw_priority :: u64
  fw_size :: u32
  fw_uri :: arm_uc_buffer_t
  strgId :: "arm_uc_buffer_t option"
  installedSize :: u32
  installedHash :: arm_uc_buffer_t
  cipherMode :: u32

record hub_platform =
  plat :: platform
  fw_view :: "bytes \<Rightarrow> manifest_firmware_info_t"
  fw_uri_offset :: "bytes \<Rightarrow> nat"
  manifestSize_offset :: nat
  manifestBuffer_offset :: nat

subsection \<open>State\<close>

record arm_uc_delta_details_t =
  delta_is_delta :: u8
  delta_payload_size :: u32

record hub = mm +
  arm_uc_hub_state :: arm_uc_hub_state_t
  arm_uc_hub_init_cb :: "uc_fn option"
  hub_front_buffer :: buf_addr
  hub_back_buffer :: buf_addr
  campaign_priority :: u64
  arm_uc_active_details :: arm_uc_firmware_details_t
  arm_uc_active_details_available :: bool
  arm_uc_hub_delta_details :: arm_uc_delta_details_t
  arm_uc_installer_details :: arm_uc_installer_details_t
  firmware_offset :: u32
  fw_downloadSize :: u32
  hub_uri :: arm_uc_uri_t
  init_cb_called :: bool
  arm_uc_error_callback_handler :: "uc_fn option"
  arm_uc_sources :: "nat list"

abbreviation (input) arm_uc_hub_firmware_config :: nat where "arm_uc_hub_firmware_config \<equiv> 0"

definition fwinfo :: "hub_platform \<Rightarrow> 'z hub_scheme \<Rightarrow> manifest_firmware_info_t" where
  "fwinfo h s = fw_view h (ptr (mem s Buf_message2))"

definition ARM_UC_HUB_getState :: "'z hub_scheme \<Rightarrow> arm_uc_hub_state_t" where
  "ARM_UC_HUB_getState s = arm_uc_hub_state s"

definition ARM_UC_HUB_setInitializationCallback :: "uc_fn option \<Rightarrow> 'z hub_scheme \<Rightarrow> 'z hub_scheme" where
  "ARM_UC_HUB_setInitializationCallback cb s = s\<lparr>arm_uc_hub_init_cb := cb\<rparr>"

definition ARM_UC_HUB_getActiveFirmwareDetails :: "'z hub_scheme \<Rightarrow> arm_uc_firmware_details_t option" where
  "ARM_UC_HUB_getActiveFirmwareDetails s =
     (if arm_uc_active_details_available s then Some (arm_uc_active_details s) else None)"

definition ARM_UC_HUB_getDeltaDetails :: "'z hub_scheme \<Rightarrow> arm_uc_delta_details_t" where
  "ARM_UC_HUB_getDeltaDetails s = arm_uc_hub_delta_details s"

end
