(* ===== verification/UC_Hub_Error_Handler.thy ===== *)
theory UC_Hub_Error_Handler
  imports UC_Hub_State
begin

text \<open>
  \<open>source/update_client_hub_error_handler.c\<close>: an error is reported to the monitor and to the
  application with codes of theirs, and the hub is put into a state that waits for the report.
  The transition itself is the parameter \<open>setState\<close>, which the state machine supplies.
\<close>

definition ARM_UC_HUB_AddErrorCallbackInternal :: "uc_fn option \<Rightarrow> 'z hub_scheme \<Rightarrow> 'z hub_scheme" where
  "ARM_UC_HUB_AddErrorCallbackInternal cb s = s\<lparr>arm_uc_error_callback_handler := cb\<rparr>"

text \<open>The cases of the switch, with the assignments to the external code, the result and the next state.\<close>

definition hub_client_errors ::
    "(arm_uc_error_t list \<times> u32 option \<times> u32 option \<times> arm_uc_hub_state_t option) list"
where
  "hub_client_errors =
    [([ERR_UNSPECIFIED],
      None, None, None),
     ([ERR_INVALID_PARAMETER],
      None, None, None),
     ([ERR_NULL_PTR],
      None, None, None),
     ([ERR_NOT_READY],
      None, None, None),
     ([ERR_INVALID_STATE],
      None, None, None),
     ([ERR_OUT_OF_MEMORY],
      None, Some ARM_UC_UPDATE_RESULT_WRITER_INSUFFICIENT_MEMORY_SPACE, None),
     ([AUTH_ERR_INSTALL_REJECTED],
      Some ARM_UC_WARNING_AUTHORIZATION_REJECTED, Some ARM_UC_UPDATE_RESULT_WRITER_AUTHORIZATON_REJECTED, None),
     ([AUTH_ERR_INSTALL_UNAVAILABLE],
      Some ARM_UC_WARNING_AUTHORIZATION_UNAVAILABLE,
      Some ARM_UC_UPDATE_RESULT_WRITER_AUTHORIZATON_UNAVAILABLE, None),
     ([AUTH_ERR_DOWNLOAD_REJECTED],
      Some ARM_UC_WARNING_AUTHORIZATION_REJECTED, Some ARM_UC_UPDATE_RESULT_FETCHER_AUTHORIZATON_REJECTED, None),
     ([AUTH_ERR_DOWNLOAD_UNAVAILABLE],
      Some ARM_UC_WARNING_AUTHORIZATION_UNAVAILABLE,
      Some ARM_UC_UPDATE_RESULT_FETCHER_AUTHORIZATON_UNAVAILABLE, None),
     ([ARM_UC_CM_ERR_NOT_FOUND],
      Some ARM_UC_WARNING_CERTIFICATE_NOT_FOUND, Some ARM_UC_UPDATE_RESULT_MANIFEST_CERTIFICATE_NOT_FOUND, None),
     ([ARM_UC_CM_ERR_INVALID_CERT, ARM_UC_CM_ERR_BLACKLISTED],
      Some ARM_UC_WARNING_CERTIFICATE_INVALID, Some ARM_UC_UPDATE_RESULT_MANIFEST_INVALID_CERTIFICATE, None),
     ([ARM_UC_DP_ERR_UNKNOWN, ARM_UC_DP_ERR_NOT_FOUND, ARM_UC_DP_ERR_NO_MORE_ELEMENTS],
      None, Some ARM_UC_UPDATE_RESULT_MANIFEST_INVALID_MANIFEST_FORMAT, None),
     ([FIRM_ERR_WRITE],
      Some ARM_UC_ERROR_WRITE_TO_STORAGE, Some ARM_UC_UPDATE_RESULT_WRITER_WRITE_FAILURE, None),
     ([FIRM_ERR_INVALID_PARAMETER, FIRM_ERR_UNINITIALIZED],
      Some ARM_UC_ERROR_WRITE_TO_STORAGE, Some ARM_UC_UPDATE_RESULT_WRITER_NONSPECIFIC_ERROR, None),
     ([FIRM_ERR_ACTIVATE],
      None, Some ARM_UC_UPDATE_RESULT_WRITER_ACTIVATION_FAILURE, None),
     ([FIRM_ERR_INVALID_HASH],
      Some ARM_UC_ERROR_INVALID_HASH, Some ARM_UC_UPDATE_RESULT_WRITER_HASH_ERROR, None),
     ([FIRM_ERR_FIRMWARE_TOO_LARGE],
      Some ARM_UC_ERROR_WRITE_TO_STORAGE, Some ARM_UC_UPDATE_RESULT_MANIFEST_INSUFFICIENT_STORAGE_SPACE, None)]"

definition hub_manifest_errors ::
    "(arm_uc_error_t list \<times> u32 option \<times> u32 option \<times> arm_uc_hub_state_t option) list"
where
  "hub_manifest_errors =
    [([MFST_ERR_NULL_PTR],
      Some ARM_UC_WARNING_IDENTITY_NOT_FOUND, Some ARM_UC_UPDATE_RESULT_MANIFEST_NONSPECIFIC_ERROR, None),
     ([MFST_ERR_NOT_READY],
      None, Some ARM_UC_UPDATE_RESULT_MANIFEST_NONSPECIFIC_ERROR, None),
     ([MFST_ERR_SIZE],
      None, Some ARM_UC_UPDATE_RESULT_MANIFEST_INVALID_MANIFEST_SIZE, None),
     ([MFST_ERR_DER_FORMAT, MFST_ERR_FORMAT],
      None, Some ARM_UC_UPDATE_RESULT_MANIFEST_INVALID_MANIFEST_FORMAT, None),
     ([MFST_ERR_VERSION],
      None, Some ARM_UC_UPDATE_RESULT_MANIFEST_UNSUPPORTED_MANIFEST_VERSION, None),
     ([MFST_ERR_ROLLBACK],
      Some ARM_UC_WARNING_ROLLBACK_PROTECTION, Some ARM_UC_UPDATE_RESULT_MANIFEST_ROLLBACK_PROTECTION, None),
     ([MFST_ERR_CRYPTO_MODE],
      None, Some ARM_UC_UPDATE_RESULT_MANIFEST_INVALID_CRYPTO_MODE, None),
     ([MFST_ERR_HASH],
      Some ARM_UC_WARNING_SIGNATURE_INVALID, Some ARM_UC_UPDATE_RESULT_MANIFEST_INTEGRITY_CHECK_FAILED, None),
     ([MFST_ERR_GUID_VENDOR],
      Some ARM_UC_WARNING_VENDOR_MISMATCH, Some ARM_UC_UPDATE_RESULT_MANIFEST_WRONG_VENDOR_ID, None),
     ([MFST_ERR_GUID_DEVCLASS],
      Some ARM_UC_WARNING_CLASS_MISMATCH, Some ARM_UC_UPDATE_RESULT_MANIFEST_WRONG_CLASS_ID, None),
     ([MFST_ERR_GUID_DEVICE],
      Some ARM_UC_WARNING_DEVICE_MISMATCH, Some ARM_UC_UPDATE_RESULT_MANIFEST_NONSPECIFIC_ERROR, None),
     ([MFST_ERR_CERT_INVALID],
      Some ARM_UC_WARNING_CERTIFICATE_INVALID, Some ARM_UC_UPDATE_RESULT_MANIFEST_INVALID_CERTIFICATE, None),
     ([MFST_ERR_CERT_NOT_FOUND, MFST_ERR_CERT_READ],
      Some ARM_UC_WARNING_CERTIFICATE_NOT_FOUND, Some ARM_UC_UPDATE_RESULT_MANIFEST_CERTIFICATE_NOT_FOUND, None),
     ([MFST_ERR_INVALID_SIGNATURE],
      Some ARM_UC_WARNING_SIGNATURE_INVALID, Some ARM_UC_UPDATE_RESULT_MANIFEST_INVALID_SIGNATURE, None),
     ([MFST_ERR_INVALID_STATE],
      None, Some ARM_UC_UPDATE_RESULT_MANIFEST_NONSPECIFIC_ERROR, None),
     ([MFST_ERR_BAD_EVENT],
      None, Some ARM_UC_UPDATE_RESULT_MANIFEST_NONSPECIFIC_ERROR, None),
     ([MFST_ERR_EMPTY_FIELD],
      None, Some ARM_UC_UPDATE_RESULT_MANIFEST_MISSING_FIELD, None),
     ([MFST_ERR_NO_MANIFEST],
      None, Some ARM_UC_UPDATE_RESULT_MANIFEST_DEPENDENT_MANIFEST_NOT_FOUND, None),
     ([MFST_ERR_SIGNATURE_ALGORITHM, MFST_ERR_UNSUPPORTED_CONDITION],
      None, Some ARM_UC_UPDATE_RESULT_MANIFEST_NONSPECIFIC_ERROR, None),
     ([MFST_ERR_CTR_IV_SIZE, MFST_ERR_BAD_KEYTABLE],
      Some ARM_UC_WARNING_BAD_KEYTABLE, Some ARM_UC_UPDATE_RESULT_MANIFEST_CORRUPTED_KEYTABLE, None),
     ([MFST_ERR_MISSING_KEYTABLE],
      Some ARM_UC_WARNING_BAD_KEYTABLE, Some ARM_UC_UPDATE_RESULT_MANIFEST_MISSING_ITEM, None),
     ([MFST_ERR_FIRMWARE_SIZE],
      None, Some ARM_UC_UPDATE_RESULT_MANIFEST_NONSPECIFIC_ERROR, None)]"

definition hub_source_errors ::
    "(arm_uc_error_t list \<times> u32 option \<times> u32 option \<times> arm_uc_hub_state_t option) list"
where
  "hub_source_errors =
    [([SOMA_ERR_NETWORK_TIMEOUT],
      Some ARM_UC_ERROR_CONNECTION, Some ARM_UC_UPDATE_RESULT_FETCHER_NETWORK_TIMEOUT, None),
     ([SOMA_ERR_CONNECTION_FAILURE],
      Some ARM_UC_ERROR_CONNECTION, Some ARM_UC_UPDATE_RESULT_FETCHER_NETWORK_CONNECTION_FAILURE, None),
     ([SOMA_ERR_DNS_LOOKUP_FAILURE],
      Some ARM_UC_ERROR_CONNECTION, Some ARM_UC_UPDATE_RESULT_FETCHER_DNS_LOOKUP_FAILURE, None),
     ([SOMA_ERR_CONNECTION_LOSS],
      Some ARM_UC_ERROR_CONNECTION, Some ARM_UC_UPDATE_RESULT_FETCHER_NETWORK_CONNECTION_LOSS, None),
     ([SOMA_ERR_NO_ROUTE_TO_SOURCE],
      Some ARM_UC_ERROR_CONNECTION, Some ARM_UC_UPDATE_RESULT_FETCHER_NO_ROUTE_AVAILABLE, None),
     ([SOMA_ERR_SOURCE_REGISTRY_FULL, SOMA_ERR_SOURCE_NOT_FOUND],
      Some ARM_UC_ERROR_CONNECTION, Some ARM_UC_UPDATE_RESULT_UPDATE_NONSPECIFIC_NETWORK_ERROR, None),
     ([SOMA_ERR_INVALID_URI],
      Some ARM_UC_WARNING_URI_NOT_FOUND, Some ARM_UC_UPDATE_RESULT_FETCHER_INVALID_RESOURCE_URI, None),
     ([SOMA_ERR_INVALID_REQUEST],
      Some ARM_UC_WARNING_URI_NOT_FOUND, Some ARM_UC_UPDATE_RESULT_FETCHER_INVALID_REQUEST_TYPE, None),
     ([SOMA_ERR_INVALID_PARAMETER],
      Some ARM_UC_WARNING_URI_NOT_FOUND, None, None),
     ([SOMA_ERR_INVALID_MANIFEST_STATE],
      Some ARM_UC_WARNING_UNKNOWN, Some ARM_UC_UPDATE_RESULT_MANIFEST_NONSPECIFIC_ERROR, None),
     ([SOMA_ERR_INVALID_FW_STATE],
      Some ARM_UC_WARNING_UNKNOWN, None, None),
     ([SOMA_ERR_INVALID_EVENT],
      Some ARM_UC_WARNING_UNKNOWN, None, None),
     ([SRCE_ERR_UNINITIALIZED, SRCE_ERR_INVALID_PARAMETER, SRCE_ERR_FAILED, SRCE_ERR_ABORT],
      None, Some ARM_UC_UPDATE_RESULT_UPDATE_NONSPECIFIC_SYSTEM_ERROR, None),
     ([SRCE_ERR_BUSY],
      None, Some ARM_UC_UPDATE_RESULT_UPDATE_NONSPECIFIC_SYSTEM_ERROR, None),
     ([ARM_UC_CU_ERR_INVALID_PARAMETER],
      None, Some ARM_UC_UPDATE_RESULT_MANIFEST_INVALID_CRYPTO_MODE, None),
     ([ARM_UC_DI_ERR_INVALID_PARAMETER],
      None, Some ARM_UC_UPDATE_RESULT_UPDATE_NONSPECIFIC_SYSTEM_ERROR, None),
     ([ARM_UC_DI_ERR_NOT_READY, ARM_UC_DI_ERR_NOT_FOUND],
      None, Some ARM_UC_UPDATE_RESULT_MANIFEST_MISSING_ITEM, None),
     ([ARM_UC_DI_ERR_SIZE],
      None, Some ARM_UC_UPDATE_RESULT_MANIFEST_INSUFFICIENT_MEMORY_SPACE, None),
     ([HUB_ERR_INTERNAL_ERROR],
      Some ARM_UC_FATAL, None, None),
     ([HUB_ERR_ROLLBACK_PROTECTION],
      Some ARM_UC_WARNING_ROLLBACK_PROTECTION, Some ARM_UC_UPDATE_RESULT_MANIFEST_ROLLBACK_PROTECTION, None),
     ([ARM_UC_HUB_ERR_NOT_AVAILABLE],
      Some ARM_UC_ERROR_CONNECTION, None, None),
     ([HUB_ERR_CONNECTION],
      Some ARM_UC_ERROR_CONNECTION,
      Some ARM_UC_UPDATE_RESULT_FETCHER_NETWORK_CONNECTION_FAILURE, Some ARM_UC_HUB_STATE_IDLE)]"

definition hub_error_cases ::
    "(arm_uc_error_t list \<times> u32 option \<times> u32 option \<times> arm_uc_hub_state_t option) list"
where
  "hub_error_cases = hub_client_errors @ hub_manifest_errors @ hub_source_errors"

lemmas hub_error_tables = hub_error_cases_def hub_client_errors_def hub_manifest_errors_def hub_source_errors_def

definition hub_error_report :: "arm_uc_error_t \<Rightarrow> u32 \<times> u32 \<times> arm_uc_hub_state_t" where
  "hub_error_report error =
     (case find (\<lambda>(codes, _). error \<in> set codes) hub_error_cases of
        Some (_, external, monitor, nxt) \<Rightarrow>
          (case external of None \<Rightarrow> ARM_UC_ERROR | Some e \<Rightarrow> e,
           case monitor of None \<Rightarrow> ARM_UC_UPDATE_RESULT_UPDATE_NONSPECIFIC_SYSTEM_ERROR | Some m \<Rightarrow> m,
           case nxt of None \<Rightarrow> ARM_UC_HUB_STATE_WAIT_FOR_ERROR_ACK | Some st \<Rightarrow> st)
      | None \<Rightarrow> (ARM_UC_WARNING_UNKNOWN, ARM_UC_UPDATE_RESULT_UPDATE_NONSPECIFIC_SYSTEM_ERROR,
                  ARM_UC_HUB_STATE_WAIT_FOR_ERROR_ACK))"

definition ARM_UC_HUB_ErrorHandler ::
    "(arm_uc_hub_state_t \<Rightarrow> 'z hub_scheme \<Rightarrow> 'z hub_scheme option) \<Rightarrow> environment \<Rightarrow> arm_uc_error_t \<Rightarrow>
     arm_uc_hub_state_t \<Rightarrow> 'z hub_scheme \<Rightarrow> 'z hub_scheme option"
where
  "ARM_UC_HUB_ErrorHandler setState w error state s = do {
     let (error_external, error_monitor, next_state) = hub_error_report error;
     let (_, s) = ARM_UC_ControlCenter_ReportUpdateResult w error_monitor s;
     s \<leftarrow> setState next_state s;
     (case arm_uc_error_callback_handler s of
        None \<Rightarrow> Some s
      | Some f \<Rightarrow> (let (r, s) = ext w (APP_Error f error_external) s in app_react (ractions r) s))
   }"

end
