(* ===== verification/UC_Hub_Event_Handlers.thy ===== *)
theory UC_Hub_Event_Handlers
  imports UC_Hub_Error_Handler
begin

text \<open>
  \<open>source/update_client_hub_event_handlers.c\<close>: the handlers that the hub registers with the other
  components. They drive the state machine, which is the parameter \<open>setState\<close>; \<open>w\<close> is the environment,
  to which the error handler reports.
\<close>

definition ARM_UC_HUB_FirmwareManagerEventHandler ::
    "(arm_uc_hub_state_t \<Rightarrow> 'z hub_scheme \<Rightarrow> 'z hub_scheme option) \<Rightarrow> environment \<Rightarrow> u32 \<Rightarrow>
     'z hub_scheme \<Rightarrow> 'z hub_scheme option" where
  "ARM_UC_HUB_FirmwareManagerEventHandler setState w event s =
     (let st = ARM_UC_HUB_getState s; err = (\<lambda>e. ARM_UC_HUB_ErrorHandler setState w e st s) in
      if event = UCFM_EVENT_PREPARE_DONE then
        (if st = ARM_UC_HUB_STATE_AWAIT_FIRMWARE_SETUP then setState ARM_UC_HUB_STATE_FIRMWARE_SETUP_DONE s
         else err FIRM_ERR_INVALID_STATE)
      else if event = UCFM_EVENT_WRITE_DONE then
        (if st = ARM_UC_HUB_STATE_STORE_AND_DOWNLOAD then setState ARM_UC_HUB_STATE_WAIT_FOR_NETWORK s
         else if st = ARM_UC_HUB_STATE_WAIT_FOR_STORAGE then setState ARM_UC_HUB_STATE_STORE_AND_DOWNLOAD s
         else if st = ARM_UC_HUB_STATE_AWAIT_LAST_FRAGMENT_STORED
         then setState ARM_UC_HUB_STATE_LAST_FRAGMENT_STORE_DONE s
         else err FIRM_ERR_INVALID_STATE)
      else if event = UCFM_EVENT_FINALIZE_DONE then
        (if st = ARM_UC_HUB_STATE_FINALIZE_STORAGE then setState ARM_UC_HUB_STATE_STORAGE_FINALIZED s
         else err FIRM_ERR_INVALID_STATE)
      else if event = UCFM_EVENT_ACTIVATE_DONE then
        (if st = ARM_UC_HUB_STATE_ACTIVATE_FIRMWARE then setState ARM_UC_HUB_STATE_PREP_REBOOT s
         else err FIRM_ERR_INVALID_STATE)
      else if event = UCFM_EVENT_GET_ACTIVE_FIRMWARE_DETAILS_DONE then setState ARM_UC_HUB_STATE_REPORT_ACTIVE_HASH s
      else if event = UCFM_EVENT_GET_INSTALLER_DETAILS_DONE then setState ARM_UC_HUB_STATE_REPORT_INSTALLER_DETAILS s
      else if event = UCFM_EVENT_WRITE_ERROR then
        (if st = ARM_UC_HUB_STATE_STORE_AND_DOWNLOAD \<or> st = ARM_UC_HUB_STATE_WAIT_FOR_STORAGE \<or>
            st = ARM_UC_HUB_STATE_AWAIT_LAST_FRAGMENT_STORED
         then err FIRM_ERR_WRITE else err FIRM_ERR_INVALID_STATE)
      else if event = UCFM_EVENT_FINALIZE_ERROR then err FIRM_ERR_WRITE
      else if event = UCFM_EVENT_FINALIZE_INVALID_HASH_ERROR then err FIRM_ERR_INVALID_HASH
      else if event = UCFM_EVENT_ACTIVATE_ERROR then err FIRM_ERR_ACTIVATE
      else if event = UCFM_EVENT_GET_ACTIVE_FIRMWARE_DETAILS_ERROR
      then setState ARM_UC_HUB_STATE_GET_INSTALLER_DETAILS s
      else if event = UCFM_EVENT_GET_INSTALLER_DETAILS_ERROR then setState ARM_UC_HUB_STATE_IDLE s
      else if event = UCFM_EVENT_INITIALIZE_DONE then Some s
      else if event = UCFM_EVENT_GET_FIRMWARE_DETAILS_DONE then Some s
      else if event = UCFM_EVENT_INITIALIZE_ERROR then Some s
      else if event = UCFM_EVENT_PREPARE_ERROR then err FIRM_ERR_WRITE
      else if event = UCFM_EVENT_FIRMWARE_TOO_LARGE_ERROR then err FIRM_ERR_FIRMWARE_TOO_LARGE
      else if event = UCFM_EVENT_GET_FIRMWARE_DETAILS_ERROR then Some s
      else err FIRM_ERR_INVALID_PARAMETER)"

definition ARM_UC_HUB_ManifestManagerEventHandler ::
    "(arm_uc_hub_state_t \<Rightarrow> 'z hub_scheme \<Rightarrow> 'z hub_scheme option) \<Rightarrow> environment \<Rightarrow> u32 \<Rightarrow>
     'z hub_scheme \<Rightarrow> 'z hub_scheme option" where
  "ARM_UC_HUB_ManifestManagerEventHandler setState w event s =
     (let st = ARM_UC_HUB_getState s; err = (\<lambda>e. ARM_UC_HUB_ErrorHandler setState w e st s);
          event = (if event = ARM_UC_MM_RC_ERROR \<and> st = ARM_UC_HUB_STATE_UNINITIALIZED \<and>
                      ARM_UC_mmGetError s = MFST_ERR_NO_MANIFEST then ARM_UC_MM_RC_DONE else event) in
      if event = ARM_UC_MM_RC_ERROR then err (ARM_UC_mmGetError s)
      else if event = ARM_UC_MM_RC_NONE then err MFST_ERR_INVALID_STATE
      else if event = ARM_UC_MM_RC_NEED_DEP then err MFST_ERR_NO_MANIFEST
      else if event = ARM_UC_MM_RC_NEED_FW then
        (if st = ARM_UC_HUB_STATE_MANIFEST_COMPLETE then setState ARM_UC_HUB_STATE_CHECK_VERSION s
         else err MFST_ERR_INVALID_STATE)
      else if event = ARM_UC_MM_RC_DONE then
        (if st = ARM_UC_HUB_STATE_INITIALIZING then setState ARM_UC_HUB_STATE_INITIALIZED s
         else if st = ARM_UC_HUB_STATE_MANIFEST_AWAIT_INSERT then setState ARM_UC_HUB_STATE_MANIFEST_INSERT_DONE s
         else err MFST_ERR_INVALID_STATE)
      else err MFST_ERR_BAD_EVENT)"

definition ARM_UC_HUB_SourceManagerEventHandler ::
    "(arm_uc_hub_state_t \<Rightarrow> 'z hub_scheme \<Rightarrow> 'z hub_scheme option) \<Rightarrow> environment \<Rightarrow> u32 \<Rightarrow>
     'z hub_scheme \<Rightarrow> 'z hub_scheme option" where
  "ARM_UC_HUB_SourceManagerEventHandler setState w event s =
     (let st = ARM_UC_HUB_getState s; err = (\<lambda>e. ARM_UC_HUB_ErrorHandler setState w e st s) in
      if event = ARM_UC_SM_EVENT_NOTIFICATION then
        (if st = ARM_UC_HUB_STATE_IDLE then setState ARM_UC_HUB_STATE_NOTIFIED s else Some s)
      else if event = ARM_UC_SM_EVENT_MANIFEST then
        (if st = ARM_UC_HUB_STATE_NOTIFIED then setState ARM_UC_HUB_STATE_MANIFEST_FETCHED s
         else err SOMA_ERR_INVALID_EVENT)
      else if event = ARM_UC_SM_EVENT_FIRMWARE then
        (if st = ARM_UC_HUB_STATE_FETCH_FIRST_FRAGMENT \<or> st = ARM_UC_HUB_STATE_WAIT_FOR_NETWORK
         then setState ARM_UC_HUB_STATE_STORE_AND_DOWNLOAD s
         else if st = ARM_UC_HUB_STATE_STORE_AND_DOWNLOAD then setState ARM_UC_HUB_STATE_WAIT_FOR_STORAGE s
         else err SOMA_ERR_INVALID_FW_STATE)
      else if event = ARM_UC_SM_EVENT_KEYTABLE then err SOMA_ERR_INVALID_REQUEST
      else err (ARM_UCSM_GetError s))"

text \<open>
  After an acknowledged error the inner \<open>switch\<close> looks at the state read at the start, which is
  none of its cases.
\<close>

definition hub_report_done ::
    "(arm_uc_hub_state_t \<Rightarrow> 'z hub_scheme \<Rightarrow> 'z hub_scheme option) \<Rightarrow> arm_uc_hub_state_t \<Rightarrow>
     'z hub_scheme \<Rightarrow> 'z hub_scheme option" where
  "hub_report_done setState st s =
     (case st of
        ARM_UC_HUB_STATE_WAIT_FOR_DOWNLOAD_AUTHORIZATION_REPORT_DONE \<Rightarrow>
          setState ARM_UC_HUB_STATE_REQUEST_DOWNLOAD_AUTHORIZATION s
      | ARM_UC_HUB_STATE_AWAIT_FIRMWARE_MONITOR_REPORT_DONE \<Rightarrow> setState ARM_UC_HUB_STATE_FETCH_FIRST_FRAGMENT s
      | ARM_UC_HUB_STATE_AWAIT_LAST_FRAGMENT_MONITOR_REPORT_DONE \<Rightarrow> setState ARM_UC_HUB_STATE_FINALIZE_STORAGE s
      | ARM_UC_HUB_STATE_WAIT_FOR_INSTALL_AUTHORIZATION \<Rightarrow> Some s
      | ARM_UC_HUB_STATE_INSTALL_AUTHORIZED \<Rightarrow> setState ARM_UC_HUB_STATE_ACTIVATE_FIRMWARE s
      | ARM_UC_HUB_STATE_PREP_REBOOT \<Rightarrow> setState ARM_UC_HUB_STATE_REBOOT s
      | ARM_UC_HUB_STATE_MANIFEST_AWAIT_MONITOR_REPORT_DONE \<Rightarrow> setState ARM_UC_HUB_STATE_MANIFEST_COMPLETE s
      | _ \<Rightarrow> Some s)"

definition ARM_UC_HUB_ControlCenterEventHandler ::
    "(arm_uc_hub_state_t \<Rightarrow> 'z hub_scheme \<Rightarrow> 'z hub_scheme option) \<Rightarrow> environment \<Rightarrow> u32 \<Rightarrow>
     'z hub_scheme \<Rightarrow> 'z hub_scheme option" where
  "ARM_UC_HUB_ControlCenterEventHandler setState w event s =
     (let st = ARM_UC_HUB_getState s; err = (\<lambda>e. ARM_UC_HUB_ErrorHandler setState w e st s);
          in_state = (\<lambda>st' act. if st = st' then act else Some s) in
      if event = ARM_UCCC_EVENT_AUTHORIZE_DOWNLOAD then
        in_state ARM_UC_HUB_STATE_WAIT_FOR_DOWNLOAD_AUTHORIZATION (setState ARM_UC_HUB_STATE_SETUP_FIRMWARE s)
      else if event = ARM_UCCC_EVENT_REJECT_DOWNLOAD then
        in_state ARM_UC_HUB_STATE_WAIT_FOR_DOWNLOAD_AUTHORIZATION (err AUTH_ERR_DOWNLOAD_REJECTED)
      else if event = ARM_UCCC_EVENT_UNAVAILABLE_DOWNLOAD then
        in_state ARM_UC_HUB_STATE_WAIT_FOR_DOWNLOAD_AUTHORIZATION (err AUTH_ERR_DOWNLOAD_UNAVAILABLE)
      else if event = ARM_UCCC_EVENT_AUTHORIZE_INSTALL then
        in_state ARM_UC_HUB_STATE_WAIT_FOR_INSTALL_AUTHORIZATION (setState ARM_UC_HUB_STATE_INSTALL_AUTHORIZED s)
      else if event = ARM_UCCC_EVENT_REJECT_INSTALL then
        in_state ARM_UC_HUB_STATE_WAIT_FOR_INSTALL_AUTHORIZATION (err AUTH_ERR_INSTALL_REJECTED)
      else if event = ARM_UCCC_EVENT_UNAVAILABLE_INSTALL then
        in_state ARM_UC_HUB_STATE_WAIT_FOR_INSTALL_AUTHORIZATION (err AUTH_ERR_INSTALL_UNAVAILABLE)
      else if event = ARM_UCCC_EVENT_MONITOR_SEND_DONE then do {
        s \<leftarrow> (if st = ARM_UC_HUB_STATE_WAIT_FOR_ERROR_ACK then setState ARM_UC_HUB_STATE_IDLE s else Some s);
        hub_report_done setState st s
      }
      else err ERR_INVALID_PARAMETER)"

text \<open>A call through a pointer to one of the handlers.\<close>

definition hub_handler ::
    "(arm_uc_hub_state_t \<Rightarrow> 'z hub_scheme \<Rightarrow> 'z hub_scheme option) \<Rightarrow> environment \<Rightarrow> uc_fn \<Rightarrow> u32 \<Rightarrow>
     'z hub_scheme \<Rightarrow> 'z hub_scheme option" where
  "hub_handler setState w f event s =
     (case f of
        Fn_ARM_UC_HUB_ControlCenterEventHandler \<Rightarrow> ARM_UC_HUB_ControlCenterEventHandler setState w event s
      | Fn_ARM_UC_HUB_FirmwareManagerEventHandler \<Rightarrow> ARM_UC_HUB_FirmwareManagerEventHandler setState w event s
      | Fn_ARM_UC_HUB_SourceManagerEventHandler \<Rightarrow> ARM_UC_HUB_SourceManagerEventHandler setState w event s
      | Fn_ARM_UC_HUB_ManifestManagerEventHandler \<Rightarrow> ARM_UC_HUB_ManifestManagerEventHandler setState w event s
      | _ \<Rightarrow> None)"

end
