(* ===== verification/UC_Hub_State_Machine.thy ===== *)
theory UC_Hub_State_Machine
  imports UC_Hub_Event_Handlers
begin

text \<open>
  \<open>ARM_UC_HUB_setState\<close> of \<open>source/update_client_hub_state_machine.c\<close>: it stores the new state,
  performs the actions of the state and goes on as long as these ask for another state. A
  definition for each group of states gives the next state and the changed program state; \<open>err\<close>
  is the error handler and \<open>call\<close> the call through a function pointer, both of which may come back
  to \<open>ARM_UC_HUB_setState\<close>.

  \<open>HANDLE_ERROR\<close> makes the idle state the next one and leaves the case. The configurations with
  pre-shared keys and for the first stage of a rootless update are compiled out.
\<close>

subsection \<open>Start-up\<close>

definition HANDLE_ERROR :: "arm_uc_error_t \<Rightarrow> arm_uc_hub_state_t \<Rightarrow> arm_uc_hub_state_t" where
  "HANDLE_ERROR retval new_state = (if err_error retval \<noteq> 0 then ARM_UC_HUB_STATE_IDLE else new_state)"

definition hub_report_active :: "hub_platform \<Rightarrow> arm_uc_hub_state_t \<Rightarrow> 'z hub_scheme \<Rightarrow>
    (arm_uc_hub_state_t \<times> 'z hub_scheme) option" where
  "hub_report_active h st s =
     (case st of
        ARM_UC_HUB_STATE_INITIALIZED \<Rightarrow>
          Some (ARM_UC_HUB_STATE_GET_ACTIVE_FIRMWARE_DETAILS, s\<lparr>arm_uc_active_details_available := False\<rparr>)
      | ARM_UC_HUB_STATE_GET_ACTIVE_FIRMWARE_DETAILS \<Rightarrow>
          (let (retval, d, s) = ARM_UCFM_GetActiveFirmwareDetails (plat h) (Some (arm_uc_active_details s)) s
           in Some (HANDLE_ERROR retval st, s\<lparr>arm_uc_active_details := the d\<rparr>))
      | ARM_UC_HUB_STATE_REPORT_ACTIVE_HASH \<Rightarrow> do {
          let b = hub_front_buffer s;
          m \<leftarrow> memcpy (ptr (mem s b)) 0 (hash (arm_uc_active_details s)) 0 ARM_UC_SHA256_SIZE;
          let s = set_buf b ((mem s b)\<lparr>ptr := m, bsize := of_nat ARM_UC_SHA256_SIZE\<rparr>) s;
          let (_, s) = ARM_UC_ControlCenter_ReportName (env (plat h)) (mem s b) s;
          Some (ARM_UC_HUB_STATE_REPORT_ACTIVE_VERSION, s\<lparr>arm_uc_active_details_available := True\<rparr>) }
      | ARM_UC_HUB_STATE_REPORT_ACTIVE_VERSION \<Rightarrow>
          (let (_, s) = ARM_UC_ControlCenter_ReportVersion (env (plat h)) (version (arm_uc_active_details s)) s
           in Some (ARM_UC_HUB_STATE_GET_INSTALLER_DETAILS, s))
      | ARM_UC_HUB_STATE_GET_INSTALLER_DETAILS \<Rightarrow>
          (let (retval, d, s) = ARM_UCFM_GetInstallerDetails (plat h) (Some (arm_uc_installer_details s)) s
           in Some (HANDLE_ERROR retval st, s\<lparr>arm_uc_installer_details := the d\<rparr>))
      | ARM_UC_HUB_STATE_REPORT_INSTALLER_DETAILS \<Rightarrow>
          (let b = \<lparr>size_max = of_nat ARM_UC_SHA256_SIZE, bsize = of_nat ARM_UC_SHA256_SIZE,
                    ptr = arm_hash (arm_uc_installer_details s)\<rparr>;
               (_, s) = ARM_UC_ControlCenter_ReportBootloaderHash (env (plat h)) b s;
               b = b\<lparr>ptr := oem_hash (arm_uc_installer_details s)\<rparr>;
               (_, s) = ARM_UC_ControlCenter_ReportOEMBootloaderHash (env (plat h)) b s
           in Some (ARM_UC_HUB_STATE_IDLE, s))
      | _ \<Rightarrow> None)"

definition hub_idle :: "hub_platform \<Rightarrow> 'z hub_scheme \<Rightarrow> (arm_uc_hub_state_t \<times> 'z hub_scheme) option" where
  "hub_idle h s = do {
     let (_, s) = ARM_UC_ControlCenter_ReportState (env (plat h)) ARM_UC_UPDATE_STATE_IDLE s;
     s \<leftarrow> (if \<not> init_cb_called s then do {
             s \<leftarrow> (case arm_uc_hub_init_cb s of
                     None \<Rightarrow> Some s
                   | Some f \<Rightarrow> (let (r, s) = ext (env (plat h)) (APP_Initialized f ARM_UC_INIT_DONE) s
                               in app_react (ractions r) s));
             Some (s\<lparr>init_cb_called := True\<rparr>) }
           else Some s);
     Some (ARM_UC_HUB_STATE_IDLE, s)
   }"

subsection \<open>The manifest\<close>

text \<open>
  The copy of the manifest into \<open>fwinfo\<close>. When the front buffer is on the same memory, a copy of
  overlapping bytes is undefined. The size is stored in the target's byte order.
\<close>

definition word32_bytes :: "u32 \<Rightarrow> bytes" where
  "word32_bytes x = [ucast x, ucast (drop_bit 8 x), ucast (drop_bit 16 x), ucast (drop_bit 24 x)]"

definition save_manifest :: "hub_platform \<Rightarrow> 'z hub_scheme \<Rightarrow> 'z hub_scheme option" where
  "save_manifest h s = do {
     let f = mem s (hub_front_buffer s);
     let n = min ARM_UC_MM_MANIFEST_BUFFER_SIZE (unat (bsize f));
     m \<leftarrow> (if hub_front_buffer s = Buf_message2 \<and> manifestBuffer_offset h < n then None
           else memcpy (ptr (mem s Buf_message2)) (manifestBuffer_offset h) (ptr f) 0 n);
     m \<leftarrow> wr_block m (manifestSize_offset h) (word32_bytes (bsize f));
     Some (set_buf Buf_message2 ((mem s Buf_message2)\<lparr>ptr := m\<rparr>) s)
   }"

definition hub_manifest :: "hub_platform \<Rightarrow> arm_uc_hub_state_t \<Rightarrow> 'z hub_scheme \<Rightarrow>
    (arm_uc_hub_state_t \<times> 'z hub_scheme) option" where
  "hub_manifest h st s =
     (case st of
        ARM_UC_HUB_STATE_NOTIFIED \<Rightarrow> do {
          (retval, s) \<leftarrow> ARM_UCSM_GetManifest (env (plat h)) (Some (hub_front_buffer s)) 0 s;
          Some (HANDLE_ERROR retval st, s) }
      | ARM_UC_HUB_STATE_MANIFEST_FETCHED \<Rightarrow> do {
          s \<leftarrow> save_manifest h s;
          let f = mem s (hub_front_buffer s);
          let manifest_buffer = \<lparr>mb_addr = Buf_message2, mb_offset = manifestBuffer_offset h,
                mb_size_max = of_nat ARM_UC_MM_MANIFEST_BUFFER_SIZE, mb_size = bsize f\<rparr>;
          let certificates = \<lparr>mb_addr = hub_front_buffer s, mb_offset = 0, mb_size_max = size_max f,
                mb_size = bsize f\<rparr>;
          let (retval, s) = ARM_UC_mmInsert True (Some manifest_buffer) (Some certificates) s;
          Some (if retval \<noteq> MFST_ERR_PENDING
                then HANDLE_ERROR retval ARM_UC_HUB_STATE_MANIFEST_AWAIT_INSERT
                else ARM_UC_HUB_STATE_MANIFEST_AWAIT_INSERT, s) }
      | ARM_UC_HUB_STATE_MANIFEST_INSERT_DONE \<Rightarrow>
          (let (_, s) = ARM_UC_ControlCenter_ReportState (env (plat h)) ARM_UC_UPDATE_STATE_PROCESSING_MANIFEST s
           in Some (ARM_UC_HUB_STATE_MANIFEST_AWAIT_MONITOR_REPORT_DONE, s))
      | ARM_UC_HUB_STATE_MANIFEST_COMPLETE \<Rightarrow>
          (let (retval, s) = ARM_UC_mmFetchFirmwareInfo True (Some Buf_message2) s
           in Some (if retval \<noteq> MFST_ERR_PENDING then HANDLE_ERROR retval st else st, s))
      | _ \<Rightarrow> None)"

definition hub_check_version ::
    "hub_platform \<Rightarrow> (arm_uc_error_t \<Rightarrow> arm_uc_hub_state_t \<Rightarrow> 'z hub_scheme \<Rightarrow> 'z hub_scheme option) \<Rightarrow>
     'z hub_scheme \<Rightarrow> (arm_uc_hub_state_t \<times> 'z hub_scheme) option" where
  "hub_check_version h err s =
     (if \<not> ARM_UC_mmCheckFormatUint32 (format (fwinfo h s)) ARM_UC_MM_FORMAT_RAW_BINARY \<and>
         \<not> ARM_UC_mmCheckFormatUint32 (format (fwinfo h s)) ARM_UC_MM_FORMAT_BSDIFF_STREAM
      then Some (HANDLE_ERROR MFST_ERR_FORMAT ARM_UC_HUB_STATE_CHECK_VERSION, s)
      else if timestamp (fwinfo h s) > version (arm_uc_active_details s)
      then Some (ARM_UC_HUB_STATE_PREPARE_FIRMWARE_SETUP, s)
      else do {
        s \<leftarrow> err HUB_ERR_ROLLBACK_PROTECTION ARM_UC_HUB_STATE_CHECK_VERSION s;
        Some (ARM_UC_HUB_STATE_IDLE, s)
      })"

subsection \<open>Preparing the download\<close>

definition set_setup :: "(ARM_UCFM_Setup_t \<Rightarrow> ARM_UCFM_Setup_t) \<Rightarrow> 'z hub_scheme \<Rightarrow> 'z hub_scheme" where
  "set_setup f s =
     s\<lparr>setups := (setups s)(arm_uc_hub_firmware_config := f (setups s arm_uc_hub_firmware_config))\<rparr>"

abbreviation (input) hub_setup :: "'z hub_scheme \<Rightarrow> ARM_UCFM_Setup_t" where
  "hub_setup s \<equiv> setups s arm_uc_hub_firmware_config"

text \<open>The ASCII codes of \<open>default\<close>.\<close>

definition default_name :: bytes where
  "default_name = [100, 101, 102, 97, 117, 108, 116]"

definition storage_id :: "manifest_firmware_info_t \<Rightarrow> u32 option" where
  "storage_id i =
     (case strgId i of
        None \<Rightarrow> Some 0
      | Some b \<Rightarrow>
          (if bsize b = 0 then Some 0
           else do {
             location \<leftarrow> arm_uc_strnstrn (Some (ptr b)) (bsize b) (Some default_name) 7;
             if location \<noteq> 0xFFFFFFFF then Some 0
             else map_option fst (arm_uc_str2uint32 (ptr b) (Some 0) (bsize b))
           }))"

text \<open>
  The URI is cut at the end of its memory for the trace only. An unsupported cipher mode leaves the
  inner \<open>switch\<close> with the idle state as the next state, which is overwritten at the end.
\<close>

definition hub_prepare_setup ::
    "hub_platform \<Rightarrow> (arm_uc_error_t \<Rightarrow> arm_uc_hub_state_t \<Rightarrow> 'z hub_scheme \<Rightarrow> 'z hub_scheme option) \<Rightarrow>
     'z hub_scheme \<Rightarrow> (arm_uc_hub_state_t \<times> 'z hub_scheme) option" where
  "hub_prepare_setup h err s = do {
     let i = fwinfo h s;
     let s = set_setup (\<lambda>c. c\<lparr>cfg_hash := Some (installedHash i)\<rparr>) s;
     (retval, u) \<leftarrow> arm_uc_str2uri (Some (ptr (fw_uri i))) (bsize (fw_uri i)) (Some (hub_uri s));
     let s = s\<lparr>hub_uri := the u\<rparr>;
     if err_error retval \<noteq> 0 then do {
       let b = mem s Buf_message2;
       m \<leftarrow> wr (ptr b) (fw_uri_offset h (ptr b) + unat (size_max (fw_uri i) - 1)) 0;
       s \<leftarrow> err SOMA_ERR_INVALID_URI ARM_UC_HUB_STATE_PREPARE_FIRMWARE_SETUP
             (set_buf Buf_message2 (b\<lparr>ptr := m\<rparr>) s);
       Some (ARM_UC_HUB_STATE_IDLE, s)
     }
     else do {
       let s = set_setup (\<lambda>c. c\<lparr>package_size := installedSize i,
           is_delta := (if ARM_UC_mmCheckFormatUint32 (format i) ARM_UC_MM_FORMAT_BSDIFF_STREAM then 1 else 0)\<rparr>) s;
       let (retval, new_state, s) =
         (if cipherMode i = ARM_UC_MM_CIPHERMODE_NONE
          then (retval, ARM_UC_HUB_STATE_PREPARE_FIRMWARE_SETUP,
                set_setup (\<lambda>c. c\<lparr>cfg_mode := UCFM_MODE_NONE_SHA_256\<rparr>) s)
          else (MFST_ERR_CRYPTO_MODE, HANDLE_ERROR MFST_ERR_CRYPTO_MODE ARM_UC_HUB_STATE_PREPARE_FIRMWARE_SETUP, s));
       location \<leftarrow> storage_id i;
       let s = set_setup (\<lambda>c. c\<lparr>package_id := location\<rparr>) s;
       Some (ARM_UC_HUB_STATE_DOWNLOAD_AUTHORIZATION_MONITOR_REPORT, s)
     }
   }"

definition hub_download_authorization :: "hub_platform \<Rightarrow> arm_uc_hub_state_t \<Rightarrow> 'z hub_scheme \<Rightarrow>
    (arm_uc_hub_state_t \<times> 'z hub_scheme) option" where
  "hub_download_authorization h st s =
     (case st of
        ARM_UC_HUB_STATE_DOWNLOAD_AUTHORIZATION_MONITOR_REPORT \<Rightarrow>
          (let (_, s) = ARM_UC_ControlCenter_ReportState (env (plat h))
                          ARM_UC_UPDATE_STATE_AWAITING_DOWNLOAD_APPROVAL s
           in Some (ARM_UC_HUB_STATE_WAIT_FOR_DOWNLOAD_AUTHORIZATION_REPORT_DONE, s))
      | ARM_UC_HUB_STATE_REQUEST_DOWNLOAD_AUTHORIZATION \<Rightarrow> do {
          let s = s\<lparr>campaign_priority := fw_priority (fwinfo h s)\<rparr>;
          (_, s) \<leftarrow> ARM_UC_ControlCenter_GetAuthorization (env (plat h)) ARM_UCCC_REQUEST_DOWNLOAD
                     (campaign_priority s) s;
          Some (ARM_UC_HUB_STATE_WAIT_FOR_DOWNLOAD_AUTHORIZATION, s) }
      | _ \<Rightarrow> None)"

text \<open>
  The configuration holds a pointer to the hash in \<open>fwinfo\<close>, which \<open>Prepare\<close> follows; the details
  are a local variable.
\<close>

definition hub_setup_firmware ::
    "hub_platform \<Rightarrow> (arm_uc_error_t \<Rightarrow> arm_uc_hub_state_t \<Rightarrow> 'z hub_scheme \<Rightarrow> 'z hub_scheme option) \<Rightarrow>
     (uc_fn \<Rightarrow> u32 \<Rightarrow> 'z hub_scheme \<Rightarrow> 'z hub_scheme option) \<Rightarrow>
     'z hub_scheme \<Rightarrow> (arm_uc_hub_state_t \<times> 'z hub_scheme) option" where
  "hub_setup_firmware h err call s = do {
     let i = fwinfo h s;
     digest \<leftarrow> rd_block (ptr (installedHash i)) 0 ARM_UC_SHA256_SIZE;
     let details = no_details\<lparr>version := timestamp i, fsize := ucast (installedSize i), hash := digest\<rparr>;
     let s = (if is_delta (hub_setup s) = 1
              then s\<lparr>arm_uc_hub_delta_details := \<lparr>delta_is_delta = is_delta (hub_setup s),
                                                  delta_payload_size = fw_size i\<rparr>\<rparr> else s);
     let s = set_setup (\<lambda>c. c\<lparr>cfg_hash := map_option (\<lambda>_. installedHash i) (cfg_hash c)\<rparr>)
               (s\<lparr>firmware_offset := 0\<rparr>);
     (retval, s) \<leftarrow> ARM_UCFM_Prepare (plat h) call (Some arm_uc_hub_firmware_config) (Some details)
                     (Some (hub_front_buffer s)) s;
     if retval \<noteq> ERR_NONE then do {
       s \<leftarrow> err FIRM_ERR_WRITE ARM_UC_HUB_STATE_SETUP_FIRMWARE s;
       Some (HANDLE_ERROR retval ARM_UC_HUB_STATE_AWAIT_FIRMWARE_SETUP, s)
     }
     else Some (ARM_UC_HUB_STATE_AWAIT_FIRMWARE_SETUP, s)
   }"

subsection \<open>The download\<close>

definition hub_fetch_first ::
    "hub_platform \<Rightarrow> (arm_uc_error_t \<Rightarrow> arm_uc_hub_state_t \<Rightarrow> 'z hub_scheme \<Rightarrow> 'z hub_scheme option) \<Rightarrow>
     'z hub_scheme \<Rightarrow> (arm_uc_hub_state_t \<times> 'z hub_scheme) option" where
  "hub_fetch_first h err s =
     (if fw_size (fwinfo h s) = 0 then
        (let (_, s) = ARM_UC_ControlCenter_ReportState (env (plat h)) ARM_UC_UPDATE_STATE_DOWNLOADED_UPDATE s
         in Some (ARM_UC_HUB_STATE_FINALIZE_STORAGE, s))
      else do {
        let s = s\<lparr>fw_downloadSize := fw_size (fwinfo h s)\<rparr>;
        let s = set_buf (hub_front_buffer s) ((mem s (hub_front_buffer s))\<lparr>bsize := 0\<rparr>) s;
        let s = set_buf (hub_back_buffer s) ((mem s (hub_back_buffer s))\<lparr>bsize := 0\<rparr>) s;
        (retval, s) \<leftarrow> ARM_UCSM_GetFirmwareFragment (env (plat h)) (Some (hub_uri s)) (Some (hub_front_buffer s))
                        (firmware_offset s) s;
        if retval \<noteq> ERR_NONE then do {
          s \<leftarrow> err SOMA_ERR_NO_ROUTE_TO_SOURCE ARM_UC_HUB_STATE_FETCH_FIRST_FRAGMENT s;
          Some (HANDLE_ERROR retval ARM_UC_HUB_STATE_FETCH_FIRST_FRAGMENT, s)
        }
        else Some (ARM_UC_HUB_STATE_FETCH_FIRST_FRAGMENT, s)
      })"

text \<open>
  The buffers are structures that are swapped by value; a structure goes with its memory, so the
  model swaps the two names. The first part stores what was downloaded; its flag tells that
  \<open>HANDLE_ERROR\<close> left the case.
\<close>

definition hub_store ::
    "hub_platform \<Rightarrow> (arm_uc_error_t \<Rightarrow> arm_uc_hub_state_t \<Rightarrow> 'z hub_scheme \<Rightarrow> 'z hub_scheme option) \<Rightarrow>
     'z hub_scheme \<Rightarrow> (bool \<times> 'z hub_scheme) option" where
  "hub_store h err s = do {
     let s = s\<lparr>hub_front_buffer := hub_back_buffer s, hub_back_buffer := hub_front_buffer s\<rparr>;
     let b = mem s (hub_back_buffer s);
     if bsize b > 0 then do {
       let s = s\<lparr>firmware_offset := firmware_offset s + bsize b\<rparr>;
       (retval, s) \<leftarrow> ARM_UCFM_Write (plat h) (Some (hub_back_buffer s)) s;
       if retval \<noteq> ERR_NONE then do {
         s \<leftarrow> err FIRM_ERR_WRITE ARM_UC_HUB_STATE_STORE_AND_DOWNLOAD s;
         Some (err_error retval \<noteq> 0, s)
       }
       else Some (False, s)
     }
     else Some (False, s)
   }"

definition hub_fetch_next ::
    "hub_platform \<Rightarrow> (arm_uc_error_t \<Rightarrow> arm_uc_hub_state_t \<Rightarrow> 'z hub_scheme \<Rightarrow> 'z hub_scheme option) \<Rightarrow>
     'z hub_scheme \<Rightarrow> (bool \<times> arm_uc_hub_state_t \<times> 'z hub_scheme) option" where
  "hub_fetch_next h err s =
     (if firmware_offset s < fw_downloadSize s then do {
        let s = set_buf (hub_front_buffer s) ((mem s (hub_front_buffer s))\<lparr>bsize := 0\<rparr>) s;
        (retval, s) \<leftarrow> ARM_UCSM_GetFirmwareFragment (env (plat h)) (Some (hub_uri s)) (Some (hub_front_buffer s))
                        (firmware_offset s) s;
        if retval \<noteq> ERR_NONE then do {
          s \<leftarrow> err SOMA_ERR_NO_ROUTE_TO_SOURCE ARM_UC_HUB_STATE_STORE_AND_DOWNLOAD s;
          Some (err_error retval \<noteq> 0, ARM_UC_HUB_STATE_STORE_AND_DOWNLOAD, s)
        }
        else Some (False, ARM_UC_HUB_STATE_STORE_AND_DOWNLOAD, s)
      }
      else Some (False, ARM_UC_HUB_STATE_AWAIT_LAST_FRAGMENT_STORED, s))"

definition hub_store_and_download ::
    "hub_platform \<Rightarrow> (arm_uc_error_t \<Rightarrow> arm_uc_hub_state_t \<Rightarrow> 'z hub_scheme \<Rightarrow> 'z hub_scheme option) \<Rightarrow>
     'z hub_scheme \<Rightarrow> (arm_uc_hub_state_t \<times> 'z hub_scheme) option" where
  "hub_store_and_download h err s = do {
     (failed, s) \<leftarrow> hub_store h err s;
     if failed then Some (ARM_UC_HUB_STATE_IDLE, s)
     else do {
       (failed, new_state, s) \<leftarrow> hub_fetch_next h err s;
       if failed then Some (ARM_UC_HUB_STATE_IDLE, s)
       else let (_, s) = ARM_UC_ControlCenter_ReportProgress (env (plat h)) (firmware_offset s) (fw_downloadSize s) s
            in Some (new_state, s)
     }
   }"

subsection \<open>Installation\<close>

definition hub_install :: "hub_platform \<Rightarrow> arm_uc_hub_state_t \<Rightarrow> 'z hub_scheme \<Rightarrow>
    (arm_uc_hub_state_t \<times> 'z hub_scheme) option" where
  "hub_install h st s =
     (let report = (\<lambda>state s. snd (ARM_UC_ControlCenter_ReportState (env (plat h)) state s)) in
      case st of
        ARM_UC_HUB_STATE_FIRMWARE_SETUP_DONE \<Rightarrow>
          Some (ARM_UC_HUB_STATE_AWAIT_FIRMWARE_MONITOR_REPORT_DONE, report ARM_UC_UPDATE_STATE_DOWNLOADING_UPDATE s)
      | ARM_UC_HUB_STATE_LAST_FRAGMENT_STORE_DONE \<Rightarrow>
          Some (ARM_UC_HUB_STATE_AWAIT_LAST_FRAGMENT_MONITOR_REPORT_DONE,
                report ARM_UC_UPDATE_STATE_DOWNLOADED_UPDATE s)
      | ARM_UC_HUB_STATE_FINALIZE_STORAGE \<Rightarrow> do {
          (retval, s) \<leftarrow> ARM_UCFM_Finalize (plat h) (Some (hub_front_buffer s)) (Some (hub_back_buffer s)) s;
          Some (HANDLE_ERROR retval st, s) }
      | ARM_UC_HUB_STATE_STORAGE_FINALIZED \<Rightarrow> do {
          (_, s) \<leftarrow> ARM_UC_ControlCenter_GetAuthorization (env (plat h)) ARM_UCCC_REQUEST_INSTALL
                     (campaign_priority s) s;
          Some (ARM_UC_HUB_STATE_WAIT_FOR_INSTALL_AUTHORIZATION, s) }
      | ARM_UC_HUB_STATE_WAIT_FOR_INSTALL_AUTHORIZATION \<Rightarrow>
          Some (st, report ARM_UC_UPDATE_STATE_AWAITING_INSTALL_APPROVAL s)
      | ARM_UC_HUB_STATE_INSTALL_AUTHORIZED \<Rightarrow> Some (st, report ARM_UC_UPDATE_STATE_INSTALLING_UPDATE s)
      | ARM_UC_HUB_STATE_ACTIVATE_FIRMWARE \<Rightarrow>
          Some (st, snd (ARM_UCFM_Activate (plat h) (package_id (hub_setup s)) s))
      | ARM_UC_HUB_STATE_PREP_REBOOT \<Rightarrow> Some (st, report ARM_UC_UPDATE_STATE_REBOOTING s)
      | ARM_UC_HUB_STATE_REBOOT \<Rightarrow> Some (ARM_UC_HUB_STATE_IDLE, snd (ext (env (plat h)) PLAT_reboot s))
      | _ \<Rightarrow> None)"

subsection \<open>The state machine\<close>

definition hub_case ::
    "hub_platform \<Rightarrow> (arm_uc_error_t \<Rightarrow> arm_uc_hub_state_t \<Rightarrow> 'z hub_scheme \<Rightarrow> 'z hub_scheme option) \<Rightarrow>
     (uc_fn \<Rightarrow> u32 \<Rightarrow> 'z hub_scheme \<Rightarrow> 'z hub_scheme option) \<Rightarrow> arm_uc_hub_state_t \<Rightarrow>
     'z hub_scheme \<Rightarrow> (arm_uc_hub_state_t \<times> 'z hub_scheme) option"
where
  "hub_case h err call st s =
     (if st \<in> {ARM_UC_HUB_STATE_INITIALIZED, ARM_UC_HUB_STATE_GET_ACTIVE_FIRMWARE_DETAILS,
               ARM_UC_HUB_STATE_REPORT_ACTIVE_HASH, ARM_UC_HUB_STATE_REPORT_ACTIVE_VERSION,
               ARM_UC_HUB_STATE_GET_INSTALLER_DETAILS, ARM_UC_HUB_STATE_REPORT_INSTALLER_DETAILS}
      then hub_report_active h st s
      else if st = ARM_UC_HUB_STATE_IDLE then hub_idle h s
      else if st \<in> {ARM_UC_HUB_STATE_NOTIFIED, ARM_UC_HUB_STATE_MANIFEST_FETCHED,
                    ARM_UC_HUB_STATE_MANIFEST_INSERT_DONE, ARM_UC_HUB_STATE_MANIFEST_COMPLETE}
      then hub_manifest h st s
      else if st = ARM_UC_HUB_STATE_CHECK_VERSION then hub_check_version h err s
      else if st = ARM_UC_HUB_STATE_PREPARE_FIRMWARE_SETUP then hub_prepare_setup h err s
      else if st \<in> {ARM_UC_HUB_STATE_DOWNLOAD_AUTHORIZATION_MONITOR_REPORT,
                    ARM_UC_HUB_STATE_REQUEST_DOWNLOAD_AUTHORIZATION}
      then hub_download_authorization h st s
      else if st = ARM_UC_HUB_STATE_SETUP_FIRMWARE then hub_setup_firmware h err call s
      else if st = ARM_UC_HUB_STATE_FETCH_FIRST_FRAGMENT then hub_fetch_first h err s
      else if st = ARM_UC_HUB_STATE_STORE_AND_DOWNLOAD then hub_store_and_download h err s
      else if st \<in> {ARM_UC_HUB_STATE_FIRMWARE_SETUP_DONE, ARM_UC_HUB_STATE_LAST_FRAGMENT_STORE_DONE,
                    ARM_UC_HUB_STATE_FINALIZE_STORAGE, ARM_UC_HUB_STATE_STORAGE_FINALIZED,
                    ARM_UC_HUB_STATE_WAIT_FOR_INSTALL_AUTHORIZATION, ARM_UC_HUB_STATE_INSTALL_AUTHORIZED,
                    ARM_UC_HUB_STATE_ACTIVATE_FIRMWARE, ARM_UC_HUB_STATE_PREP_REBOOT, ARM_UC_HUB_STATE_REBOOT}
      then hub_install h st s
      else if st \<in> {ARM_UC_HUB_STATE_INITIALIZING, ARM_UC_HUB_STATE_MANIFEST_AWAIT_INSERT,
                    ARM_UC_HUB_STATE_MANIFEST_AWAIT_MONITOR_REPORT_DONE,
                    ARM_UC_HUB_STATE_WAIT_FOR_DOWNLOAD_AUTHORIZATION_REPORT_DONE,
                    ARM_UC_HUB_STATE_WAIT_FOR_DOWNLOAD_AUTHORIZATION, ARM_UC_HUB_STATE_AWAIT_FIRMWARE_SETUP,
                    ARM_UC_HUB_STATE_AWAIT_FIRMWARE_MONITOR_REPORT_DONE, ARM_UC_HUB_STATE_WAIT_FOR_STORAGE,
                    ARM_UC_HUB_STATE_WAIT_FOR_NETWORK, ARM_UC_HUB_STATE_AWAIT_LAST_FRAGMENT_STORED,
                    ARM_UC_HUB_STATE_AWAIT_LAST_FRAGMENT_MONITOR_REPORT_DONE,
                    ARM_UC_HUB_STATE_WAIT_FOR_ERROR_ACK, ARM_UC_HUB_STATE_UNINITIALIZED}
      then Some (st, s)
      else Some (ARM_UC_HUB_STATE_IDLE, s))"

text \<open>
  The loop and the calls that come back to it share one fuel: each round and each nested call
  has one less. \<open>None\<close> is undefined behaviour or fuel that ran out.
\<close>

primrec ARM_UC_HUB_setState ::
    "nat \<Rightarrow> hub_platform \<Rightarrow> arm_uc_hub_state_t \<Rightarrow> 'z hub_scheme \<Rightarrow> 'z hub_scheme option" where
  "ARM_UC_HUB_setState 0 = (\<lambda>h new_state s. None)"
| "ARM_UC_HUB_setState (Suc n) = (\<lambda>h new_state s. do {
     let s = s\<lparr>arm_uc_hub_state := new_state\<rparr>;
     (new_state, s) \<leftarrow> hub_case h (ARM_UC_HUB_ErrorHandler (ARM_UC_HUB_setState n h) (env (plat h)))
       (hub_handler (ARM_UC_HUB_setState n h) (env (plat h))) new_state s;
     if arm_uc_hub_state s \<noteq> new_state then ARM_UC_HUB_setState n h new_state s else Some s
   })"

end
