(* ===== verification/UC_Hub.thy ===== *)
theory UC_Hub
  imports UC_Hub_State_Machine
begin

text \<open>
  \<open>source/update_client_hub.c\<close>: the interface of the update client, and the run of a callback of the
  scheduler. The identifiers of the device are kept by the device identity component, which the
  environment answers: 0 is the vendor, 1 the class and 2 the device.
\<close>

subsection \<open>Callbacks\<close>

text \<open>
  What the scheduler calls: the handlers, and the tasks of the components with the handlers
  behind their pointers. A function of the application is never a callback.
\<close>

definition hub_call ::
    "nat \<Rightarrow> hub_platform \<Rightarrow> uc_fn \<Rightarrow> u32 \<Rightarrow> 'z hub_scheme \<Rightarrow> 'z hub_scheme option" where
  "hub_call n h = hub_handler (ARM_UC_HUB_setState n h) (env (plat h))"

definition UC_HUB_scheduler_error_handler ::
    "nat \<Rightarrow> hub_platform \<Rightarrow> u32 \<Rightarrow> 'z hub_scheme \<Rightarrow> 'z hub_scheme option" where
  "UC_HUB_scheduler_error_handler n h an_event s =
     ARM_UC_HUB_ErrorHandler (ARM_UC_HUB_setState n h) (env (plat h)) HUB_ERR_INTERNAL_ERROR
       (ARM_UC_HUB_getState s) s"

definition hub_task ::
    "nat \<Rightarrow> hub_platform \<Rightarrow> uc_fn \<Rightarrow> u32 \<Rightarrow> u32 \<Rightarrow> 'z hub_scheme \<Rightarrow> 'z hub_scheme option" where
  "hub_task n h f ctx param s =
     (case f of
        Fn_arm_uccc_override_task \<Rightarrow> arm_uccc_override_task (hub_call n h) s
      | Fn_arm_uc_internal_event_handler \<Rightarrow> arm_uc_internal_event_handler (plat h) (hub_call n h) param s
      | Fn_ARM_UCSM_DoAsyncBusyRetryGet \<Rightarrow> ARM_UCSM_DoAsyncBusyRetryGet (env (plat h)) s
      | Fn_ARM_UC_mmCallbackFSMEntry \<Rightarrow> ARM_UC_mmCallbackFSMEntry (env (plat h)) (hub_call n h) param s
      | Fn_UC_HUB_scheduler_error_handler \<Rightarrow> UC_HUB_scheduler_error_handler n h param s
      | _ \<Rightarrow> hub_call n h f param s)"

subsection \<open>Interface\<close>

fun add_sources :: "environment \<Rightarrow> nat list \<Rightarrow> 'z hub_scheme \<Rightarrow> 'z hub_scheme" where
  "add_sources w [] s = s"
| "add_sources w (x # xs) s = add_sources w xs (snd (ARM_UCSM_AddSource w x s))"

definition HANDLE_INIT_ERROR ::
    "nat \<Rightarrow> hub_platform \<Rightarrow> arm_uc_error_t \<times> 'z hub_scheme \<Rightarrow>
     ('z hub_scheme \<Rightarrow> (arm_uc_error_t \<times> 'z hub_scheme) option) \<Rightarrow> (arm_uc_error_t \<times> 'z hub_scheme) option"
where
  "HANDLE_INIT_ERROR n h r k =
     (let (retval, s) = r in
      if err_error retval \<noteq> 0
      then map_option (Pair retval) (ARM_UC_HUB_setState n h ARM_UC_HUB_STATE_UNINITIALIZED s)
      else k s)"

definition ARM_UC_HUB_Initialize ::
    "nat \<Rightarrow> hub_platform \<Rightarrow> uc_fn option \<Rightarrow> 'z hub_scheme \<Rightarrow> (arm_uc_error_t \<times> 'z hub_scheme) option" where
  "ARM_UC_HUB_Initialize n h init_cb s =
     (if ARM_UC_HUB_getState s \<noteq> ARM_UC_HUB_STATE_UNINITIALIZED then Some (ERR_INVALID_STATE, s)
      else do {
        s \<leftarrow> ARM_UC_HUB_setState n h ARM_UC_HUB_STATE_INITIALIZING s;
        let s = ARM_UC_SchedulerInit s;
        let s = ARM_UC_HUB_setInitializationCallback init_cb s;
        let s = ARM_UC_SetSchedulerErrorHandler (Some Fn_UC_HUB_scheduler_error_handler) s;
        HANDLE_INIT_ERROR n h
          (ARM_UC_ControlCenter_Initialize (Some Fn_ARM_UC_HUB_ControlCenterEventHandler) s) (\<lambda>s.
        HANDLE_INIT_ERROR n h
          (ARM_UCFM_Initialize (plat h) (Some Fn_ARM_UC_HUB_FirmwareManagerEventHandler) s) (\<lambda>s.
        HANDLE_INIT_ERROR n h
          (ARM_UCSM_Initialize (Some Fn_ARM_UC_HUB_SourceManagerEventHandler) s) (\<lambda>s.
        let s = add_sources (env (plat h)) (arm_uc_sources s) s in
        HANDLE_INIT_ERROR n h
          (ARM_UC_mmInit True (Some Fn_ARM_UC_HUB_ManifestManagerEventHandler) s) (\<lambda>s.
        Some (ERR_NONE, s)))))
      })"

definition ARM_UC_HUB_ProcessEvents ::
    "nat \<Rightarrow> hub_platform \<Rightarrow> 'z hub_scheme \<Rightarrow> (arm_uc_error_t \<times> 'z hub_scheme) option" where
  "ARM_UC_HUB_ProcessEvents n h s = map_option (Pair ERR_NONE) (ARM_UC_ProcessQueue (hub_task n h) s)"

definition ARM_UC_HUB_AddNotificationHandler :: "bool \<Rightarrow> 'z hub_scheme \<Rightarrow> arm_uc_error_t \<times> 'z hub_scheme" where
  "ARM_UC_HUB_AddNotificationHandler handler s = (ERR_NONE, ARM_UC_AddNotificationHandler handler s)"

definition ARM_UC_HUB_SetSources :: "nat list \<Rightarrow> 'z hub_scheme \<Rightarrow> arm_uc_error_t \<times> 'z hub_scheme" where
  "ARM_UC_HUB_SetSources sources s = (ERR_NONE, s\<lparr>arm_uc_sources := sources\<rparr>)"

definition ARM_UC_HUB_SetStorage ::
    "environment \<Rightarrow> nat option \<Rightarrow> 'z hub_scheme \<Rightarrow> arm_uc_error_t \<times> 'z hub_scheme" where
  "ARM_UC_HUB_SetStorage w implementation s = ARM_UCP_SetPAALUpdate w True implementation s"

definition ARM_UC_HUB_AddMonitor ::
    "environment \<Rightarrow> arm_update_monitor option \<Rightarrow> 'z hub_scheme \<Rightarrow> arm_uc_error_t \<times> 'z hub_scheme" where
  "ARM_UC_HUB_AddMonitor w monitor s = ARM_UC_ControlCenter_AddMonitor w monitor s"

definition ARM_UC_HUB_AddErrorCallback :: "uc_fn option \<Rightarrow> 'z hub_scheme \<Rightarrow> 'z hub_scheme" where
  "ARM_UC_HUB_AddErrorCallback cb s = ARM_UC_HUB_AddErrorCallbackInternal cb s"

definition ARM_UC_Authorize :: "u32 \<Rightarrow> 'z hub_scheme \<Rightarrow> arm_uc_error_t \<times> 'z hub_scheme" where
  "ARM_UC_Authorize request s = ARM_UC_ControlCenter_Authorize request s"

definition ARM_UC_Reject :: "u32 \<Rightarrow> u32 \<Rightarrow> 'z hub_scheme \<Rightarrow> (arm_uc_error_t \<times> 'z hub_scheme) option" where
  "ARM_UC_Reject request reason s = ARM_UC_ControlCenter_Reject request reason s"

definition ARM_UC_SetProgressHandler :: "uc_fn option \<Rightarrow> 'z hub_scheme \<Rightarrow> arm_uc_error_t \<times> 'z hub_scheme" where
  "ARM_UC_SetProgressHandler cb s = ARM_UC_ControlCenter_SetProgressHandler cb s"

definition ARM_UC_SetAuthorizeHandler :: "uc_fn option \<Rightarrow> 'z hub_scheme \<Rightarrow> arm_uc_error_t \<times> 'z hub_scheme" where
  "ARM_UC_SetAuthorizeHandler cb s = ARM_UC_ControlCenter_SetAuthorityHandler cb s"

definition ARM_UC_SetAuthorizePriorityHandler ::
    "uc_fn option \<Rightarrow> 'z hub_scheme \<Rightarrow> arm_uc_error_t \<times> 'z hub_scheme" where
  "ARM_UC_SetAuthorizePriorityHandler cb s = ARM_UC_ControlCenter_SetPriorityAuthorityHandler cb s"

definition ARM_UC_OverrideAuthorization :: "'z hub_scheme \<Rightarrow> 'z hub_scheme" where
  "ARM_UC_OverrideAuthorization s = ARM_UC_ControlCenter_OverrideAuthorization s"

definition ARM_UC_HUB_Uninitialize ::
    "nat \<Rightarrow> hub_platform \<Rightarrow> 'z hub_scheme \<Rightarrow> (arm_uc_error_t \<times> 'z hub_scheme) option" where
  "ARM_UC_HUB_Uninitialize n h s =
     (if ARM_UC_HUB_getState s \<le> ARM_UC_HUB_STATE_INITIALIZED then Some (ERR_INVALID_STATE, s)
      else do {
        let (err, s) = ARM_UCSM_Uninitialize (env (plat h)) s;
        s \<leftarrow> ARM_UC_HUB_setState n h ARM_UC_HUB_STATE_UNINITIALIZED s;
        Some (err, s)
      })"

text \<open>\<open>details\<close> tells whether the caller passes a structure; the result is what it holds afterwards.\<close>

definition ARM_UC_API_GetActiveFirmwareDetails ::
    "arm_uc_firmware_details_t option \<Rightarrow> 'z hub_scheme \<Rightarrow> arm_uc_error_t \<times> arm_uc_firmware_details_t option" where
  "ARM_UC_API_GetActiveFirmwareDetails details s =
     (case details of
        None \<Rightarrow> (ERR_INVALID_PARAMETER, None)
      | Some d \<Rightarrow>
          (case ARM_UC_HUB_getActiveFirmwareDetails s of
             None \<Rightarrow> (ARM_UC_HUB_ERR_NOT_AVAILABLE, Some d)
           | Some hub_details \<Rightarrow> (ERR_NONE, Some hub_details)))"

subsection \<open>Identifiers\<close>

fun guid_loop :: "bytes \<Rightarrow> bytes \<Rightarrow> nat \<Rightarrow> nat \<Rightarrow> nat \<Rightarrow> bytes option" where
  "guid_loop uuid i id_length index 0 = Some uuid"
| "guid_loop uuid i id_length index (Suc n) =
     (if index < id_length then do {
        x \<leftarrow> rd i index;
        uuid \<leftarrow> wr uuid index x;
        guid_loop uuid i id_length (Suc index) n
      }
      else Some uuid)"

definition guid_of_id :: "bytes option \<Rightarrow> u8 \<Rightarrow> bytes option" where
  "guid_of_id i id_length =
     (case i of None \<Rightarrow> Some (replicate ARM_UC_GUID_SIZE 0)
      | Some m \<Rightarrow> guid_loop (replicate ARM_UC_GUID_SIZE 0) m (unat id_length) 0 ARM_UC_GUID_SIZE)"

definition set_id ::
    "environment \<Rightarrow> nat \<Rightarrow> bytes option \<Rightarrow> u8 \<Rightarrow> 'z hub_scheme \<Rightarrow> (arm_uc_error_t \<times> 'z hub_scheme) option" where
  "set_id w kind i id_length s = do {
     uuid \<leftarrow> guid_of_id i id_length;
     let (r, s) = ext w (DI_SetGUID kind uuid) s;
     Some (rcode r, s)
   }"

definition ARM_UC_SetVendorId ::
    "environment \<Rightarrow> bytes option \<Rightarrow> u8 \<Rightarrow> 'z hub_scheme \<Rightarrow> (arm_uc_error_t \<times> 'z hub_scheme) option" where
  "ARM_UC_SetVendorId w i id_length s = set_id w 0 i id_length s"

definition ARM_UC_SetClassId ::
    "environment \<Rightarrow> bytes option \<Rightarrow> u8 \<Rightarrow> 'z hub_scheme \<Rightarrow> (arm_uc_error_t \<times> 'z hub_scheme) option" where
  "ARM_UC_SetClassId w i id_length s = set_id w 1 i id_length s"

definition ARM_UC_SetDeviceId ::
    "environment \<Rightarrow> bytes option \<Rightarrow> u8 \<Rightarrow> 'z hub_scheme \<Rightarrow> (arm_uc_error_t \<times> 'z hub_scheme) option" where
  "ARM_UC_SetDeviceId w i id_length s = set_id w 2 i id_length s"

text \<open>The caller's buffer, the size written and the status; \<open>size\<close> is \<open>None\<close> for a \<open>NULL\<close> pointer.\<close>

definition get_id ::
    "environment \<Rightarrow> nat \<Rightarrow> bytes \<Rightarrow> nat \<Rightarrow> nat option \<Rightarrow> 'z hub_scheme \<Rightarrow>
     (arm_uc_error_t \<times> bytes \<times> nat option \<times> 'z hub_scheme) option" where
  "get_id w kind i id_max id_size s =
     (if id_max < ARM_UC_GUID_SIZE then Some (ARM_UC_DI_ERR_SIZE, i, id_size, s)
      else do {
        let (r, s) = ext w (DI_GetGUID kind) s;
        if err_error (rcode r) = 0 then do {
          m \<leftarrow> memcpy i 0 (rbytes r) 0 ARM_UC_GUID_SIZE;
          Some (rcode r, m, map_option (\<lambda>_. ARM_UC_GUID_SIZE) id_size, s)
        }
        else Some (rcode r, i, id_size, s)
      })"

definition ARM_UC_GetVendorId ::
    "environment \<Rightarrow> bytes \<Rightarrow> nat \<Rightarrow> nat option \<Rightarrow> 'z hub_scheme \<Rightarrow>
     (arm_uc_error_t \<times> bytes \<times> nat option \<times> 'z hub_scheme) option" where
  "ARM_UC_GetVendorId w i id_max id_size s = get_id w 0 i id_max id_size s"

definition ARM_UC_GetClassId ::
    "environment \<Rightarrow> bytes \<Rightarrow> nat \<Rightarrow> nat option \<Rightarrow> 'z hub_scheme \<Rightarrow>
     (arm_uc_error_t \<times> bytes \<times> nat option \<times> 'z hub_scheme) option" where
  "ARM_UC_GetClassId w i id_max id_size s = get_id w 1 i id_max id_size s"

definition ARM_UC_GetDeviceId ::
    "environment \<Rightarrow> bytes \<Rightarrow> nat \<Rightarrow> nat option \<Rightarrow> 'z hub_scheme \<Rightarrow>
     (arm_uc_error_t \<times> bytes \<times> nat option \<times> 'z hub_scheme) option" where
  "ARM_UC_GetDeviceId w i id_max id_size s = get_id w 2 i id_max id_size s"

subsection \<open>Public codes\<close>

definition ARM_UC_IsValidState :: "int \<Rightarrow> bool" where
  "ARM_UC_IsValidState an_update_state =
     (an_update_state \<ge> uint ARM_UC_UPDATE_STATE_FIRST \<and> an_update_state \<le> uint ARM_UC_UPDATE_STATE_LAST)"

definition ARM_UC_IsValidResult :: "u32 \<Rightarrow> bool" where
  "ARM_UC_IsValidResult r =
     ((r \<ge> ARM_UC_UPDATE_RESULT_UPDATE_FIRST \<and> r \<le> ARM_UC_UPDATE_RESULT_UPDATE_LAST) \<or>
      (r \<ge> ARM_UC_UPDATE_RESULT_FETCHER_FIRST \<and> r \<le> ARM_UC_UPDATE_RESULT_FETCHER_LAST) \<or>
      (r \<ge> ARM_UC_UPDATE_RESULT_WRITER_FIRST \<and> r \<le> ARM_UC_UPDATE_RESULT_WRITER_LAST) \<or>
      (r \<ge> ARM_UC_UPDATE_RESULT_PROCESSOR_FIRST \<and> r \<le> ARM_UC_UPDATE_RESULT_PROCESSOR_LAST) \<or>
      (r \<ge> ARM_UC_UPDATE_RESULT_MANIFEST_FIRST \<and> r \<le> ARM_UC_UPDATE_RESULT_MANIFEST_LAST))"

end
