(* ===== verification/UC_Hub_Frame.thy ===== *)
theory UC_Hub_Frame
  imports UC_Hub
begin

text \<open>
  Frame facts about the operations that the hub calls: which of them make a call that matters to
  the state machine, and which leave the hub's own state alone. Almost all are \<open>quiet\<close>.
\<close>

subsection \<open>Notable calls\<close>

text \<open>
  The calls that the properties of the state machine are about: a state is reported, the driver is
  told to activate an img, the application is told that the client is ready, the device reboots.
\<close>

fun notable :: "ext_call \<Rightarrow> bool" where
  "notable (MON_SendState st) = True"
| "notable (PAAL_Activate location) = True"
| "notable (APP_Initialized f e) = True"
| "notable PLAT_reboot = True"
| "notable _ = False"

definition notables :: "'z uc0_scheme \<Rightarrow> ext_call list" where
  "notables s = rev (filter notable (trace s))"

text \<open>A step that makes no such call and changes no field of the hub.\<close>

definition quiet :: "'z hub_scheme \<Rightarrow> 'z hub_scheme \<Rightarrow> bool" where
  "quiet s s' \<longleftrightarrow> notables s' = notables s \<and> mm.more s' = mm.more s \<and>
     arm_uc_monitor_struct s' = arm_uc_monitor_struct s \<and> ucfm_handler s' = ucfm_handler s"

lemma notables_ext: "notables (snd (ext w c s)) = notables s @ (if notable c then [c] else [])"
  by (simp add: notables_def ext_def)

lemma hub_more:
  fixes s s' :: "'z hub_scheme"
  assumes "mm.more s' = mm.more s"
  shows "arm_uc_hub_state s' = arm_uc_hub_state s" "init_cb_called s' = init_cb_called s"
    "hub_front_buffer s' = hub_front_buffer s" "hub_back_buffer s' = hub_back_buffer s"
    "firmware_offset s' = firmware_offset s" "arm_uc_hub_init_cb s' = arm_uc_hub_init_cb s"
  using assms by (cases s; cases s'; simp)+

lemma quiet_refl [simp]: "quiet s s"
  by (simp add: quiet_def)

lemma quiet_trans [trans]: "\<lbrakk>quiet s s'; quiet s' s''\<rbrakk> \<Longrightarrow> quiet s s''"
  by (simp add: quiet_def)

lemma quiet_ext: "\<not> notable c \<Longrightarrow> quiet s (snd (ext w c s))"
  by (simp add: quiet_def notables_ext) (simp add: ext_def)

lemma quiet_ext': "\<lbrakk>ext w c s = (r, s'); \<not> notable c\<rbrakk> \<Longrightarrow> quiet s s'"
  using quiet_ext[of c s w] by simp

lemma quiet_post [simp]: "quiet s (post st f param s)"
  using post_shape[of st f param s] by (auto simp: quiet_def notables_def)

lemma quiet_updates [simp]:
  "quiet s (s\<lparr>mem := m\<rparr>)" "quiet s (s\<lparr>request_in_flight := rq\<rparr>)" "quiet s (s\<lparr>num_busy_retries := nb\<rparr>)"
  "quiet s (s\<lparr>async_retry_timer_id := ti\<rparr>)" "quiet s (s\<lparr>ucsm_last_error := e\<rparr>)"
  "quiet s (s\<lparr>arm_uc_download_token_armed := b\<rparr>)" "quiet s (s\<lparr>arm_uc_install_token_armed := b\<rparr>)"
  "quiet s (s\<lparr>mm_state := ms\<rparr>)" "quiet s (s\<lparr>getFw_info := gi\<rparr>)"
  "quiet s (s\<lparr>insert_manifest := im, insert_certificateStorage := ic\<rparr>)"
  "quiet s (set_elem a el s)" "quiet s (set_buf ba bu s)" "quiet s (init_storage st s)"
  "quiet s (s\<lparr>setups := se\<rparr>)" "quiet s (s\<lparr>cipherHandle := ch\<rparr>)" "quiet s (s\<lparr>package_offset := po\<rparr>)"
  by (simp_all add: quiet_def set_elem_def set_buf_def init_storage_def notables_def)

subsection \<open>Sources\<close>

lemma quiet_schedule: "quiet s (ARM_UCSM_ScheduleAsyncBusyRetryGet w s)"
  by (auto simp: ARM_UCSM_ScheduleAsyncBusyRetryGet_def Let_def split: prod.splits if_splits
      intro!: quiet_trans[OF _ quiet_post] quiet_trans[OF _ quiet_updates(4)]
      dest!: quiet_ext' intro: quiet_trans)

lemma quiet_cost: "source_cost w uri type src s = (r, s') \<Longrightarrow> quiet s s'"
  by (cases type) (auto simp: source_cost_def Let_def split: prod.splits if_splits
      dest!: quiet_ext' intro: quiet_trans)

lemma quiet_lowest:
  "lowest_cost_loop w uri type excl i n best s = (r, s') \<Longrightarrow> quiet s s'"
proof (induction n arbitrary: i best s)
  case (Suc n)
  show ?case
  proof (cases "source_registry s ! i = None \<or> excl ! i = 1")
    case True
    then show ?thesis using Suc by (auto split: option.splits)
  next
    case False
    then obtain src where src: "source_registry s ! i = Some src" "excl ! i \<noteq> 1" by auto
    obtain e c s1 where c: "source_cost w uri type src s = ((e, c), s1)" by (metis surj_pair)
    have "quiet s s1" using quiet_cost[OF c] .
    moreover have "quiet s1 (ARM_UCSM_SetError e s1)" by (simp add: ARM_UCSM_SetError_def)
    ultimately have q: "quiet s1 s' \<Longrightarrow> quiet s s'" "quiet (ARM_UCSM_SetError e s1) s' \<Longrightarrow> quiet s s'"
      by (blast intro: quiet_trans)+
    show ?thesis
      using src c Suc.prems Suc.IH[of "Suc i" best] Suc.IH[of "Suc i" "(c, i)"] by (auto split: if_splits intro: q)
  qed
qed simp

lemma quiet_lowest_cost:
  "ARM_UCSM_SourceRegistryGetLowestCost w uri type excl index s = (r, s') \<Longrightarrow> quiet s s'"
  by (auto simp: ARM_UCSM_SourceRegistryGetLowestCost_def ARM_UCSM_SetError_def split: prod.splits if_splits
      dest!: quiet_lowest intro: quiet_trans)

lemma quiet_source_get: "source_get w req src s = (r, s') \<Longrightarrow> quiet s s'"
  by (cases "req_type req") (auto simp: source_get_def ARM_UCSM_SetError_def split: prod.splits if_splits dest!: quiet_ext')

lemma quiet_lookup: "lookup_source w s = Some (r, k, s') \<Longrightarrow> quiet s s'"
  by (auto simp: lookup_source_def Let_def split: prod.splits if_splits option.splits
      dest!: quiet_lowest_cost quiet_source_get intro: quiet_trans)

lemma quiet_get: "ARM_UCSM_Get w s = Some (r, s') \<Longrightarrow> quiet s s'"
proof (induction w s arbitrary: r s' rule: ARM_UCSM_Get.induct)
  case (1 w s)
  obtain r1 k s1 where l: "lookup_source w s = Some (r1, k, s1)" using lookup_source_Some by blast
  let ?req = "request_in_flight (ARM_UCSM_SetError r1 s1)"
  let ?s2 = "(ARM_UCSM_SetError r1 s1)\<lparr>request_in_flight := ?req\<lparr>excludes := (excludes ?req)[k := 1]\<rparr>\<rparr>"
  have q1: "quiet s s1" using quiet_lookup[OF l] .
  have q2: "quiet s1 ?s2" by (rule quiet_trans[of _ "ARM_UCSM_SetError r1 s1"]) (simp_all add: ARM_UCSM_SetError_def)
  show ?case
  proof (cases "r1 \<noteq> SRCE_ERR_BUSY \<and> r1 \<noteq> SOMA_ERR_NO_ROUTE_TO_SOURCE \<and> err_error r1 \<noteq> 0")
    case True
    have e: "ARM_UCSM_Get w s = (if k < length (excludes ?req)
        then case ARM_UCSM_Get w ?s2 of None \<Rightarrow> None
          | Some (r, s) \<Rightarrow> Some (r, if ARM_UC_IS_ERROR r then ARM_UCSM_SetError r s else s)
        else None)"
      using l True by (subst ARM_UCSM_Get.simps) (simp add: Let_def)
    then obtain r2 s3 where g: "ARM_UCSM_Get w ?s2 = Some (r2, s3)" and i: "k < length (excludes ?req)"
      and s': "s' = (if ARM_UC_IS_ERROR r2 then ARM_UCSM_SetError r2 s3 else s3)"
      using "1.prems" by (auto split: if_splits option.splits)
    have "quiet ?s2 s3" using "1.IH"[OF l refl refl _ _ _ refl refl i g] True by simp
    moreover have "quiet s3 s'" by (simp add: s' ARM_UCSM_SetError_def)
    ultimately show ?thesis using q1 q2 by (blast intro: quiet_trans)
  next
    case False
    then show ?thesis using "1.prems" l q1
      by (subst (asm) ARM_UCSM_Get.simps) (auto simp: Let_def split: if_splits intro: quiet_trans[OF q1] quiet_schedule)
  qed
qed

lemma quiet_get_common:
  assumes "ARM_UCSM_GetCommon w uri b off ty s = Some (r, s')"
  shows "quiet s s'"
proof -
  let ?s = "s\<lparr>request_in_flight := initial_request\<lparr>req_uri := uri, req_buffer := b, req_offset := off, req_type := ty\<rparr>\<rparr>"
  obtain s1 where g: "ARM_UCSM_Get w ?s = Some (r, s1)"
    and s': "s' = (if r \<noteq> ERR_NONE then ARM_UCSM_RequestStructInit (ARM_UCSM_SetError r s1) else s1)"
    using assms by (auto simp: ARM_UCSM_GetCommon_def ARM_UCSM_RequestStructInit_def bind_eq_Some_conv)
  have "quiet s ?s" by simp
  also have "quiet ?s s1" using quiet_get[OF g] .
  also have "quiet s1 s'"
    by (simp add: s' quiet_def ARM_UCSM_RequestStructInit_def ARM_UCSM_SetError_def notables_def)
  finally show ?thesis .
qed

subsection \<open>The other components\<close>

lemma quiet_send: "\<not> notable c \<Longrightarrow> quiet s (snd (monitor_send w c s))"
  by (simp add: monitor_send_def quiet_ext)

lemma quiet_reports:
  "quiet s (snd (ARM_UC_ControlCenter_ReportProgress w p n s))"
  "quiet s (snd (ARM_UC_ControlCenter_ReportUpdateResult w r s))"
  "quiet s (snd (ARM_UC_ControlCenter_ReportName w b s))"
  "quiet s (snd (ARM_UC_ControlCenter_ReportVersion w v s))"
  "quiet s (snd (ARM_UC_ControlCenter_ReportBootloaderHash w b s))"
  "quiet s (snd (ARM_UC_ControlCenter_ReportOEMBootloaderHash w b s))"
  by (auto simp: ARM_UC_ControlCenter_ReportProgress_def ARM_UC_ControlCenter_ReportUpdateResult_def
      ARM_UC_ControlCenter_ReportName_def ARM_UC_ControlCenter_ReportVersion_def
      ARM_UC_ControlCenter_ReportBootloaderHash_def ARM_UC_ControlCenter_ReportOEMBootloaderHash_def
      quiet_send quiet_ext split: option.splits prod.splits dest!: quiet_ext')

lemma quiet_authorize: "quiet s (snd (ARM_UC_ControlCenter_Authorize request s))"
  by (auto simp: ARM_UC_ControlCenter_Authorize_def Let_def intro: quiet_trans[OF _ quiet_post])

lemma quiet_reject: "ARM_UC_ControlCenter_Reject request reason s = Some (r, s') \<Longrightarrow> quiet s s'"
  by (auto simp: ARM_UC_ControlCenter_Reject_def bind_eq_Some_conv split: if_splits
      intro: quiet_trans[OF _ quiet_post])

lemma quiet_react: "app_react as s = Some s' \<Longrightarrow> quiet s s'"
proof (induction as arbitrary: s)
  case (Cons a as)
  show ?case
  proof (cases a)
    case (Act_Authorize request)
    with Cons.prems have "quiet (snd (ARM_UC_ControlCenter_Authorize request s)) s'" by (auto intro: Cons.IH)
    with quiet_authorize show ?thesis by (rule quiet_trans)
  next
    case (Act_Reject request reason)
    with Cons.prems obtain r s1 where "ARM_UC_ControlCenter_Reject request reason s = Some (r, s1)"
      "app_react as s1 = Some s'" by (auto simp: bind_eq_Some_conv)
    then show ?thesis using quiet_reject Cons.IH by (blast intro: quiet_trans)
  qed
qed simp

lemma quiet_authority: "call_authority w request priority s = Some s' \<Longrightarrow> quiet s s'"
  by (auto simp: call_authority_def quiet_authorize split: option.splits prod.splits
      dest!: quiet_ext' quiet_react intro: quiet_trans)

lemma quiet_authorization:
  assumes "ARM_UC_ControlCenter_GetAuthorization w request priority s = Some (r, s')"
  shows "quiet s s'"
proof -
  consider "s' = s" | "call_authority w request priority (s\<lparr>arm_uc_download_token_armed := True\<rparr>) = Some s'"
    | "call_authority w request priority (s\<lparr>arm_uc_install_token_armed := True\<rparr>) = Some s'"
    using assms by (auto simp: ARM_UC_ControlCenter_GetAuthorization_def bind_eq_Some_conv split: if_splits)
  then show ?thesis
    using quiet_trans[OF quiet_updates(6) quiet_authority] quiet_trans[OF quiet_updates(7) quiet_authority]
    by cases auto
qed

lemma quiet_mm:
  "quiet s (snd (ARM_UC_mmInsert ctx b c s))" (is ?i)
  "quiet s (snd (ARM_UC_mmFetchFirmwareInfo ctx i s))" (is ?f)
proof -
  have "quiet s (init_storage st (s\<lparr>mm_state := m, insert_manifest := im, insert_certificateStorage := ic\<rparr>))"
    "quiet s (init_storage st (s\<lparr>mm_state := m, getFw_info := gi\<rparr>))" for st m im ic gi
    by (simp_all add: quiet_def init_storage_def set_elem_def notables_def)
  then show ?i ?f
    by (auto simp: ARM_UC_mmInsert_def ARM_UC_mmFetchFirmwareInfo_def ARM_UC_mmSetState_def
        intro: quiet_trans[OF _ quiet_post])
qed

lemma quiet_paal: "\<not> notable c \<Longrightarrow> paal_call w c s = (r, s') \<Longrightarrow> quiet s s'"
  by (auto simp: paal_call_def split: if_splits prod.splits dest!: quiet_ext')

lemma quiet_details:
  "ARM_UCFM_GetActiveFirmwareDetails pl d s = (r, d', s') \<Longrightarrow> quiet s s'"
  "ARM_UCFM_GetInstallerDetails pl i s = (r, i', s') \<Longrightarrow> quiet s s'"
  by (auto simp: ARM_UCFM_GetActiveFirmwareDetails_def ARM_UCP_GetActiveFirmwareDetails_def
      ARM_UCFM_GetInstallerDetails_def ARM_UCP_GetInstallerDetails_def
      split: if_splits option.splits prod.splits dest!: quiet_paal[rotated])

lemma quiet_paal_ops:
  "quiet s (snd (ARM_UCP_Write w l off b s))" "quiet s (snd (ARM_UCP_Finalize w l s))"
  "quiet s (snd (ARM_UCP_Prepare w l d b s))"
  by (auto simp: ARM_UCP_Write_def ARM_UCP_Finalize_def ARM_UCP_Prepare_def split: option.splits prod.splits
      dest!: quiet_paal[rotated])

lemma quiet_write:
  assumes "ARM_UCFM_Write pl b s = Some (r, s')"
  shows "quiet s s'"
proof -
  have w: "quiet s (snd (ARM_UCP_Write w l off c s1))"
      "quiet s ((snd (ARM_UCP_Write w l off c s1))\<lparr>package_offset := po\<rparr>)" if "quiet s s1" for w l off c s1 po
  proof -
    show "quiet s (snd (ARM_UCP_Write w l off c s1))" using that quiet_paal_ops(1) by (rule quiet_trans)
    then show "quiet s ((snd (ARM_UCP_Write w l off c s1))\<lparr>package_offset := po\<rparr>)"
      using quiet_updates(16) by (rule quiet_trans)
  qed
  have "quiet s (set_buf a bu s\<lparr>cipherHandle := h\<rparr>)" for a bu h
    by (simp add: quiet_def set_buf_def notables_def)
  then show ?thesis using assms
    by (auto simp: ARM_UCFM_Write_def bind_eq_Some_conv case_prod_unfold Let_def simp del: decrypt_loop.simps
        split: option.splits if_splits intro!: w)
qed

lemma quiet_finalize:
  assumes "ARM_UCFM_Finalize pl f b s = Some (r, s')"
  shows "quiet s s'"
proof (cases "configuration_of s")
  case None
  then show ?thesis using assms by (auto simp: ARM_UCFM_Finalize_def split: if_splits)
next
  case (Some cfg)
  let ?s1 = "(if cfg_mode cfg \<noteq> UCFM_MODE_NONE_SHA_256
      then s\<lparr>cipherHandle := \<lparr>aes_context = None, aes_iv = None\<rparr>\<rparr> else s)
      \<lparr>front_buffer := f, back_buffer := (if b = None then f else b)\<rparr>"
  obtain c s2 where f: "ARM_UCP_Finalize (env pl) (package_id cfg) ?s1 = (c, s2)" by fastforce
  show ?thesis
  proof (cases "s' = s")
    case False
    have "s' = s2\<lparr>ready_to_receive := False\<rparr>"
      using assms Some False f unfolding ARM_UCFM_Finalize_def Let_def by (simp split: if_split_asm)
    moreover have "quiet s ?s1" by (simp add: quiet_def notables_def)
    moreover have "quiet ?s1 s2" using quiet_paal_ops(2)[of ?s1 "env pl" "package_id cfg"] f by simp
    moreover have "quiet s2 (s2\<lparr>ready_to_receive := False\<rparr>)" by (simp add: quiet_def notables_def)
    ultimately show ?thesis using quiet_trans by blast
  qed simp
qed

lemma quiet_decryption: "prepare_decryption pl cfg s = Some (r, s') \<Longrightarrow> quiet s s'"
  by (auto simp: prepare_decryption_def bind_eq_Some_conv quiet_def notables_def Let_def)

text \<open>Preparing may signal an error to the hub's handler before it returns.\<close>

definition signalled :: "(uc_fn \<Rightarrow> u32 \<Rightarrow> 'z hub_scheme \<Rightarrow> 'z hub_scheme option) \<Rightarrow> 'z hub_scheme \<Rightarrow> 'z hub_scheme \<Rightarrow> bool"
where
  "signalled call s s' \<longleftrightarrow> quiet s s' \<or>
     (\<exists>s1 f e. quiet s s1 \<and> ucfm_handler s1 = Some f \<and> call f e s1 = Some s' \<and>
       e \<in> {UCFM_EVENT_FIRMWARE_TOO_LARGE_ERROR, UCFM_EVENT_PREPARE_ERROR})"

lemma quiet_prepare:
  assumes "ARM_UCFM_Prepare pl call cfg d b s = Some (r, s')"
  shows "if err_error r = 0 then quiet s s' else signalled call s s'"
proof -
  have sig: "arm_uc_signal_ucfm_handler call e x = Some s' \<Longrightarrow> quiet s x \<Longrightarrow>
      e \<in> {UCFM_EVENT_FIRMWARE_TOO_LARGE_ERROR, UCFM_EVENT_PREPARE_ERROR} \<Longrightarrow> signalled call s s'" for e x
    by (auto simp: arm_uc_signal_ucfm_handler_def signalled_def split: option.splits)
  have fin: "quiet s (x\<lparr>package_configuration := pc, package_hash := ph, package_offset := 0, ready_to_receive := True\<rparr>)"
    if "quiet s x" for x :: "'a hub_scheme" and pc ph
    by (rule quiet_trans[OF that]) (simp add: quiet_def notables_def)
  have ucp: "ARM_UCP_Prepare w l d b s = (r1, x) \<Longrightarrow> quiet s x" for w l b r1 x
    using quiet_paal_ops(3)[of s w l d b] by simp
  have dec: "prepare_decryption pl c (snd (ARM_UCP_Prepare w l d b s)) = Some (r1, x) \<Longrightarrow> quiet s x" for w l b c r1 x
    using quiet_trans[OF quiet_paal_ops(3) quiet_decryption] .
  have sigs: "signalled call s s'" if "arm_uc_signal_ucfm_handler call e x = Some s'" "e = 10 \<or> e = 11"
      "x = s \<or> (\<exists>w l b r1. ARM_UCP_Prepare w l d b s = (r1, x)) \<or>
       (\<exists>w l b c r1. prepare_decryption pl c (snd (ARM_UCP_Prepare w l d b s)) = Some (r1, x))" for e x
    using that sig[OF that(1)] ucp dec by auto
  have sigu: "\<lbrakk>arm_uc_signal_ucfm_handler call e x = Some s'; ARM_UCP_Prepare w l d b s = (r1, x); e = 10 \<or> e = 11\<rbrakk>
      \<Longrightarrow> signalled call s s'" for e x w l b r1
    using sigs[of e x] by blast
  show ?thesis using assms
    by (auto simp: ARM_UCFM_Prepare_def bind_eq_Some_conv case_prod_unfold Let_def err_error_def
        split: if_split_asm option.split_asm intro!: fin intro: ucp dec sigs sigu)
qed

end
