(* ===== verification/UC_Hub_Rounds.thy ===== *)
theory UC_Hub_Rounds
  imports UC_Hub_Frame
begin

text \<open>
  One round of the loop of \<open>ARM_UC_HUB_setState\<close> and a whole change of state, seen from outside:
  \<open>nexts\<close> and \<open>entered\<close> say which notable calls are made and which state comes next, and
  \<open>state_change\<close> that the model of the code does nothing else. The last part shows that a change
  of state ends after at most four rounds, which is the fuel that the other theories may take.
\<close>

subsection \<open>Rounds, abstractly\<close>

definition reported :: "bool \<Rightarrow> u32 \<Rightarrow> ext_call list" where
  "reported m st = (if m then [MON_SendState st] else [])"

definition ready_call :: "uc_fn option \<Rightarrow> bool \<Rightarrow> ext_call list" where
  "ready_call cb i = (if i then [] else case cb of None \<Rightarrow> [] | Some f \<Rightarrow> [APP_Initialized f ARM_UC_INIT_DONE])"

text \<open>
  One round of the loop, abstractly: the notable calls, the next state and whether the application
  has been told. \<open>m\<close> tells whether there is a monitor.
\<close>

fun nexts :: "bool \<Rightarrow> uc_fn option \<Rightarrow> bool \<Rightarrow> arm_uc_hub_state_t \<Rightarrow>
    (ext_call list \<times> arm_uc_hub_state_t \<times> bool) set" where
  "nexts m cb i ARM_UC_HUB_STATE_INITIALIZED =
     {([], ARM_UC_HUB_STATE_GET_ACTIVE_FIRMWARE_DETAILS, i)}"
| "nexts m cb i ARM_UC_HUB_STATE_GET_ACTIVE_FIRMWARE_DETAILS =
     {([], ARM_UC_HUB_STATE_GET_ACTIVE_FIRMWARE_DETAILS, i), ([], ARM_UC_HUB_STATE_IDLE, i)}"
| "nexts m cb i ARM_UC_HUB_STATE_REPORT_ACTIVE_HASH =
     {([], ARM_UC_HUB_STATE_REPORT_ACTIVE_VERSION, i)}"
| "nexts m cb i ARM_UC_HUB_STATE_REPORT_ACTIVE_VERSION =
     {([], ARM_UC_HUB_STATE_GET_INSTALLER_DETAILS, i)}"
| "nexts m cb i ARM_UC_HUB_STATE_GET_INSTALLER_DETAILS =
     {([], ARM_UC_HUB_STATE_GET_INSTALLER_DETAILS, i), ([], ARM_UC_HUB_STATE_IDLE, i)}"
| "nexts m cb i ARM_UC_HUB_STATE_REPORT_INSTALLER_DETAILS =
     {([], ARM_UC_HUB_STATE_IDLE, i)}"
| "nexts m cb i ARM_UC_HUB_STATE_IDLE =
     {(reported m 1 @ ready_call cb i, ARM_UC_HUB_STATE_IDLE, True)}"
| "nexts m cb i ARM_UC_HUB_STATE_NOTIFIED =
     {([], ARM_UC_HUB_STATE_NOTIFIED, i), ([], ARM_UC_HUB_STATE_IDLE, i)}"
| "nexts m cb i ARM_UC_HUB_STATE_MANIFEST_FETCHED =
     {([], ARM_UC_HUB_STATE_MANIFEST_AWAIT_INSERT, i), ([], ARM_UC_HUB_STATE_IDLE, i)}"
| "nexts m cb i ARM_UC_HUB_STATE_MANIFEST_INSERT_DONE =
     {(reported m 2, ARM_UC_HUB_STATE_MANIFEST_AWAIT_MONITOR_REPORT_DONE, i)}"
| "nexts m cb i ARM_UC_HUB_STATE_MANIFEST_COMPLETE =
     {([], ARM_UC_HUB_STATE_MANIFEST_COMPLETE, i), ([], ARM_UC_HUB_STATE_IDLE, i)}"
| "nexts m cb i ARM_UC_HUB_STATE_CHECK_VERSION =
     {([], ARM_UC_HUB_STATE_PREPARE_FIRMWARE_SETUP, i), ([], ARM_UC_HUB_STATE_IDLE, i)}"
| "nexts m cb i ARM_UC_HUB_STATE_PREPARE_FIRMWARE_SETUP =
     {([], ARM_UC_HUB_STATE_DOWNLOAD_AUTHORIZATION_MONITOR_REPORT, i), ([], ARM_UC_HUB_STATE_IDLE, i)}"
| "nexts m cb i ARM_UC_HUB_STATE_DOWNLOAD_AUTHORIZATION_MONITOR_REPORT =
     {(reported m 3, ARM_UC_HUB_STATE_WAIT_FOR_DOWNLOAD_AUTHORIZATION_REPORT_DONE, i)}"
| "nexts m cb i ARM_UC_HUB_STATE_REQUEST_DOWNLOAD_AUTHORIZATION =
     {([], ARM_UC_HUB_STATE_WAIT_FOR_DOWNLOAD_AUTHORIZATION, i)}"
| "nexts m cb i ARM_UC_HUB_STATE_SETUP_FIRMWARE =
     {([], ARM_UC_HUB_STATE_AWAIT_FIRMWARE_SETUP, i), ([], ARM_UC_HUB_STATE_IDLE, i)}"
| "nexts m cb i ARM_UC_HUB_STATE_FIRMWARE_SETUP_DONE =
     {(reported m 4, ARM_UC_HUB_STATE_AWAIT_FIRMWARE_MONITOR_REPORT_DONE, i)}"
| "nexts m cb i ARM_UC_HUB_STATE_FETCH_FIRST_FRAGMENT =
     {([], ARM_UC_HUB_STATE_FETCH_FIRST_FRAGMENT, i), ([], ARM_UC_HUB_STATE_IDLE, i), (reported m 5, ARM_UC_HUB_STATE_FINALIZE_STORAGE, i)}"
| "nexts m cb i ARM_UC_HUB_STATE_STORE_AND_DOWNLOAD =
     {([], ARM_UC_HUB_STATE_STORE_AND_DOWNLOAD, i), ([], ARM_UC_HUB_STATE_IDLE, i), ([], ARM_UC_HUB_STATE_AWAIT_LAST_FRAGMENT_STORED, i)}"
| "nexts m cb i ARM_UC_HUB_STATE_LAST_FRAGMENT_STORE_DONE =
     {(reported m 5, ARM_UC_HUB_STATE_AWAIT_LAST_FRAGMENT_MONITOR_REPORT_DONE, i)}"
| "nexts m cb i ARM_UC_HUB_STATE_FINALIZE_STORAGE =
     {([], ARM_UC_HUB_STATE_FINALIZE_STORAGE, i), ([], ARM_UC_HUB_STATE_IDLE, i)}"
| "nexts m cb i ARM_UC_HUB_STATE_STORAGE_FINALIZED =
     {([], ARM_UC_HUB_STATE_WAIT_FOR_INSTALL_AUTHORIZATION, i)}"
| "nexts m cb i ARM_UC_HUB_STATE_WAIT_FOR_INSTALL_AUTHORIZATION =
     {(reported m 6, ARM_UC_HUB_STATE_WAIT_FOR_INSTALL_AUTHORIZATION, i)}"
| "nexts m cb i ARM_UC_HUB_STATE_INSTALL_AUTHORIZED =
     {(reported m 7, ARM_UC_HUB_STATE_INSTALL_AUTHORIZED, i)}"
| "nexts m cb i ARM_UC_HUB_STATE_ACTIVATE_FIRMWARE =
     {(cs, ARM_UC_HUB_STATE_ACTIVATE_FIRMWARE, i) | cs. cs = [] \<or> (\<exists>l. cs = [PAAL_Activate l])}"
| "nexts m cb i ARM_UC_HUB_STATE_PREP_REBOOT =
     {(reported m 8, ARM_UC_HUB_STATE_PREP_REBOOT, i)}"
| "nexts m cb i ARM_UC_HUB_STATE_REBOOT =
     {([PLAT_reboot], ARM_UC_HUB_STATE_IDLE, i)}"
| "nexts m cb i ARM_UC_HUB_STATE_ERROR_FIRMWARE_MANAGER =
     {([], ARM_UC_HUB_STATE_IDLE, i)}"
| "nexts m cb i ARM_UC_HUB_STATE_ERROR_MANIFEST_MANAGER =
     {([], ARM_UC_HUB_STATE_IDLE, i)}"
| "nexts m cb i ARM_UC_HUB_STATE_ERROR_SOURCE_MANAGER =
     {([], ARM_UC_HUB_STATE_IDLE, i)}"
| "nexts m cb i ARM_UC_HUB_STATE_ERROR_CONTROL_CENTER =
     {([], ARM_UC_HUB_STATE_IDLE, i)}"
| "nexts m cb i ARM_UC_HUB_STATE_CERT_STORED =
     {([], ARM_UC_HUB_STATE_IDLE, i)}"
| "nexts m cb i st =
     {([], st, i)}"

text \<open>A state change: the rounds until the state stays.\<close>

fun entered :: "bool \<Rightarrow> uc_fn option \<Rightarrow> bool \<Rightarrow> arm_uc_hub_state_t \<Rightarrow>
    (ext_call list \<times> arm_uc_hub_state_t \<times> bool) set" where
  "entered m cb i ARM_UC_HUB_STATE_INITIALIZED =
     {([], ARM_UC_HUB_STATE_GET_ACTIVE_FIRMWARE_DETAILS, i), (reported m 1 @ ready_call cb i, ARM_UC_HUB_STATE_IDLE, True)}"
| "entered m cb i ARM_UC_HUB_STATE_GET_ACTIVE_FIRMWARE_DETAILS =
     {([], ARM_UC_HUB_STATE_GET_ACTIVE_FIRMWARE_DETAILS, i), (reported m 1 @ ready_call cb i, ARM_UC_HUB_STATE_IDLE, True)}"
| "entered m cb i ARM_UC_HUB_STATE_REPORT_ACTIVE_HASH =
     {([], ARM_UC_HUB_STATE_GET_INSTALLER_DETAILS, i), (reported m 1 @ ready_call cb i, ARM_UC_HUB_STATE_IDLE, True)}"
| "entered m cb i ARM_UC_HUB_STATE_REPORT_ACTIVE_VERSION =
     {([], ARM_UC_HUB_STATE_GET_INSTALLER_DETAILS, i), (reported m 1 @ ready_call cb i, ARM_UC_HUB_STATE_IDLE, True)}"
| "entered m cb i ARM_UC_HUB_STATE_GET_INSTALLER_DETAILS =
     {([], ARM_UC_HUB_STATE_GET_INSTALLER_DETAILS, i), (reported m 1 @ ready_call cb i, ARM_UC_HUB_STATE_IDLE, True)}"
| "entered m cb i ARM_UC_HUB_STATE_REPORT_INSTALLER_DETAILS =
     {(reported m 1 @ ready_call cb i, ARM_UC_HUB_STATE_IDLE, True)}"
| "entered m cb i ARM_UC_HUB_STATE_IDLE =
     {(reported m 1 @ ready_call cb i, ARM_UC_HUB_STATE_IDLE, True)}"
| "entered m cb i ARM_UC_HUB_STATE_NOTIFIED =
     {([], ARM_UC_HUB_STATE_NOTIFIED, i), (reported m 1 @ ready_call cb i, ARM_UC_HUB_STATE_IDLE, True)}"
| "entered m cb i ARM_UC_HUB_STATE_MANIFEST_FETCHED =
     {([], ARM_UC_HUB_STATE_MANIFEST_AWAIT_INSERT, i), (reported m 1 @ ready_call cb i, ARM_UC_HUB_STATE_IDLE, True)}"
| "entered m cb i ARM_UC_HUB_STATE_MANIFEST_INSERT_DONE =
     {(reported m 2, ARM_UC_HUB_STATE_MANIFEST_AWAIT_MONITOR_REPORT_DONE, i)}"
| "entered m cb i ARM_UC_HUB_STATE_MANIFEST_COMPLETE =
     {([], ARM_UC_HUB_STATE_MANIFEST_COMPLETE, i), (reported m 1 @ ready_call cb i, ARM_UC_HUB_STATE_IDLE, True)}"
| "entered m cb i ARM_UC_HUB_STATE_CHECK_VERSION =
     {(reported m 3, ARM_UC_HUB_STATE_WAIT_FOR_DOWNLOAD_AUTHORIZATION_REPORT_DONE, i), (reported m 1 @ ready_call cb i, ARM_UC_HUB_STATE_IDLE, True)}"
| "entered m cb i ARM_UC_HUB_STATE_PREPARE_FIRMWARE_SETUP =
     {(reported m 3, ARM_UC_HUB_STATE_WAIT_FOR_DOWNLOAD_AUTHORIZATION_REPORT_DONE, i), (reported m 1 @ ready_call cb i, ARM_UC_HUB_STATE_IDLE, True)}"
| "entered m cb i ARM_UC_HUB_STATE_DOWNLOAD_AUTHORIZATION_MONITOR_REPORT =
     {(reported m 3, ARM_UC_HUB_STATE_WAIT_FOR_DOWNLOAD_AUTHORIZATION_REPORT_DONE, i)}"
| "entered m cb i ARM_UC_HUB_STATE_REQUEST_DOWNLOAD_AUTHORIZATION =
     {([], ARM_UC_HUB_STATE_WAIT_FOR_DOWNLOAD_AUTHORIZATION, i)}"
| "entered m cb i ARM_UC_HUB_STATE_SETUP_FIRMWARE =
     {([], ARM_UC_HUB_STATE_AWAIT_FIRMWARE_SETUP, i), (reported m 1 @ ready_call cb i, ARM_UC_HUB_STATE_IDLE, True)}"
| "entered m cb i ARM_UC_HUB_STATE_FIRMWARE_SETUP_DONE =
     {(reported m 4, ARM_UC_HUB_STATE_AWAIT_FIRMWARE_MONITOR_REPORT_DONE, i)}"
| "entered m cb i ARM_UC_HUB_STATE_FETCH_FIRST_FRAGMENT =
     {([], ARM_UC_HUB_STATE_FETCH_FIRST_FRAGMENT, i), (reported m 1 @ ready_call cb i, ARM_UC_HUB_STATE_IDLE, True), (reported m 5, ARM_UC_HUB_STATE_FINALIZE_STORAGE, i), (reported m 5 @ reported m 1 @ ready_call cb i, ARM_UC_HUB_STATE_IDLE, True)}"
| "entered m cb i ARM_UC_HUB_STATE_STORE_AND_DOWNLOAD =
     {([], ARM_UC_HUB_STATE_STORE_AND_DOWNLOAD, i), (reported m 1 @ ready_call cb i, ARM_UC_HUB_STATE_IDLE, True), ([], ARM_UC_HUB_STATE_AWAIT_LAST_FRAGMENT_STORED, i)}"
| "entered m cb i ARM_UC_HUB_STATE_LAST_FRAGMENT_STORE_DONE =
     {(reported m 5, ARM_UC_HUB_STATE_AWAIT_LAST_FRAGMENT_MONITOR_REPORT_DONE, i)}"
| "entered m cb i ARM_UC_HUB_STATE_FINALIZE_STORAGE =
     {([], ARM_UC_HUB_STATE_FINALIZE_STORAGE, i), (reported m 1 @ ready_call cb i, ARM_UC_HUB_STATE_IDLE, True)}"
| "entered m cb i ARM_UC_HUB_STATE_STORAGE_FINALIZED =
     {(reported m 6, ARM_UC_HUB_STATE_WAIT_FOR_INSTALL_AUTHORIZATION, i)}"
| "entered m cb i ARM_UC_HUB_STATE_WAIT_FOR_INSTALL_AUTHORIZATION =
     {(reported m 6, ARM_UC_HUB_STATE_WAIT_FOR_INSTALL_AUTHORIZATION, i)}"
| "entered m cb i ARM_UC_HUB_STATE_INSTALL_AUTHORIZED =
     {(reported m 7, ARM_UC_HUB_STATE_INSTALL_AUTHORIZED, i)}"
| "entered m cb i ARM_UC_HUB_STATE_ACTIVATE_FIRMWARE =
     {(cs, ARM_UC_HUB_STATE_ACTIVATE_FIRMWARE, i) | cs. cs = [] \<or> (\<exists>l. cs = [PAAL_Activate l])}"
| "entered m cb i ARM_UC_HUB_STATE_PREP_REBOOT =
     {(reported m 8, ARM_UC_HUB_STATE_PREP_REBOOT, i)}"
| "entered m cb i ARM_UC_HUB_STATE_REBOOT =
     {(PLAT_reboot # reported m 1 @ ready_call cb i, ARM_UC_HUB_STATE_IDLE, True)}"
| "entered m cb i ARM_UC_HUB_STATE_ERROR_FIRMWARE_MANAGER =
     {(reported m 1 @ ready_call cb i, ARM_UC_HUB_STATE_IDLE, True)}"
| "entered m cb i ARM_UC_HUB_STATE_ERROR_MANIFEST_MANAGER =
     {(reported m 1 @ ready_call cb i, ARM_UC_HUB_STATE_IDLE, True)}"
| "entered m cb i ARM_UC_HUB_STATE_ERROR_SOURCE_MANAGER =
     {(reported m 1 @ ready_call cb i, ARM_UC_HUB_STATE_IDLE, True)}"
| "entered m cb i ARM_UC_HUB_STATE_ERROR_CONTROL_CENTER =
     {(reported m 1 @ ready_call cb i, ARM_UC_HUB_STATE_IDLE, True)}"
| "entered m cb i ARM_UC_HUB_STATE_CERT_STORED =
     {(reported m 1 @ ready_call cb i, ARM_UC_HUB_STATE_IDLE, True)}"
| "entered m cb i st =
     {([], st, i)}"

lemma ready_call_True [simp]: "ready_call cb True = []"
  by (simp add: ready_call_def)

lemma nexts_stay: "(cs, st, i1) \<in> nexts m cb i st \<Longrightarrow> (cs, st, i1) \<in> entered m cb i st"
  by (cases st) auto

lemma nexts_entered:
  assumes "(cs, new, i1) \<in> nexts m cb i st" and "(cs', t) \<in> entered m cb i1 new" and "new \<noteq> st \<or> cs = []"
  shows "(cs @ cs', t) \<in> entered m cb i st"
  using assms by (cases st) (auto simp: ready_call_True)

subsection \<open>The rounds of the code\<close>

text \<open>A step that makes no notable call and leaves the start-up callback and the wiring alone.\<close>

definition calm :: "'z hub_scheme \<Rightarrow> 'z hub_scheme \<Rightarrow> bool" where
  "calm s s' \<longleftrightarrow> notables s' = notables s \<and> arm_uc_hub_init_cb s' = arm_uc_hub_init_cb s \<and>
     init_cb_called s' = init_cb_called s \<and> arm_uc_monitor_struct s' = arm_uc_monitor_struct s \<and>
     ucfm_handler s' = ucfm_handler s"

lemma quiet_calm: "quiet s s' \<Longrightarrow> calm s s' \<and> arm_uc_hub_state s' = arm_uc_hub_state s"
  using hub_more by (auto simp: quiet_def calm_def)

lemma calm_refl [simp]: "calm s s"
  by (simp add: calm_def)

lemma calm_trans [trans]: "\<lbrakk>calm s s'; calm s' s''\<rbrakk> \<Longrightarrow> calm s s''"
  by (simp add: calm_def)

text \<open>The result of one round: what \<open>nexts\<close> allows, with the state as it was or waiting for an error report.\<close>

abbreviation (input) erring :: "arm_uc_hub_state_t set" where
  "erring \<equiv> {ARM_UC_HUB_STATE_CHECK_VERSION, ARM_UC_HUB_STATE_PREPARE_FIRMWARE_SETUP, ARM_UC_HUB_STATE_SETUP_FIRMWARE,
     ARM_UC_HUB_STATE_FETCH_FIRST_FRAGMENT, ARM_UC_HUB_STATE_STORE_AND_DOWNLOAD}"

definition round_ok :: "arm_uc_hub_state_t \<Rightarrow> 'z hub_scheme \<Rightarrow> (arm_uc_hub_state_t \<times> 'z hub_scheme) option \<Rightarrow> bool" where
  "round_ok st s m \<longleftrightarrow> (\<forall>new s'. m = Some (new, s') \<longrightarrow>
     (\<exists>cs. (cs, new, init_cb_called s') \<in>
         nexts (arm_uc_monitor_struct s \<noteq> None) (arm_uc_hub_init_cb s) (init_cb_called s) st \<and>
       notables s' = notables s @ cs \<and> arm_uc_hub_init_cb s' = arm_uc_hub_init_cb s \<and>
       arm_uc_monitor_struct s' = arm_uc_monitor_struct s \<and> ucfm_handler s' = ucfm_handler s \<and>
       (arm_uc_hub_state s' = st \<or>
         (arm_uc_hub_state s' = ARM_UC_HUB_STATE_WAIT_FOR_ERROR_ACK \<and> st \<in> erring \<and> (new \<noteq> st \<or> cs = [])))))"

lemma report_calls:
  "notables (snd (ARM_UC_ControlCenter_ReportState w x s)) =
     notables s @ reported (arm_uc_monitor_struct s \<noteq> None) x"
  "mm.more (snd (ARM_UC_ControlCenter_ReportState w x s)) = mm.more s"
  "arm_uc_monitor_struct (snd (ARM_UC_ControlCenter_ReportState w x s)) = arm_uc_monitor_struct s"
  "ucfm_handler (snd (ARM_UC_ControlCenter_ReportState w x s)) = ucfm_handler s"
  by (auto simp: ARM_UC_ControlCenter_ReportState_def monitor_send_def notables_ext reported_def) (auto simp: ext_def)

lemma round_report:
  assumes "m = Some (new, snd (ARM_UC_ControlCenter_ReportState w x s))" and "arm_uc_hub_state s = st"
    and "(reported (arm_uc_monitor_struct s \<noteq> None) x, new, init_cb_called s)
      \<in> nexts (arm_uc_monitor_struct s \<noteq> None) (arm_uc_hub_init_cb s) (init_cb_called s) st"
  shows "round_ok st s m"
  using assms hub_more[OF report_calls(2)[of w x s]] report_calls[of w x s] by (auto simp: round_ok_def)

lemma hub_updates [simp]:
  "calm s (s\<lparr>arm_uc_active_details := d\<rparr>)" "calm s (s\<lparr>arm_uc_active_details_available := b\<rparr>)"
  "calm s (s\<lparr>arm_uc_installer_details := i\<rparr>)" "calm s (s\<lparr>arm_uc_hub_state := st\<rparr>)"
  "calm s (s\<lparr>campaign_priority := p\<rparr>)" "calm s (s\<lparr>hub_uri := u\<rparr>)" "calm s (s\<lparr>firmware_offset := off\<rparr>)"
  "calm s (s\<lparr>fw_downloadSize := n\<rparr>)" "calm s (s\<lparr>arm_uc_hub_delta_details := dd\<rparr>)"
  "calm s (s\<lparr>hub_front_buffer := fb, hub_back_buffer := bb\<rparr>)"
  by (simp_all add: calm_def notables_def)

definition steps :: "bool \<Rightarrow> 'z hub_scheme \<Rightarrow> 'z hub_scheme \<Rightarrow> bool" where
  "steps e s s' \<longleftrightarrow> calm s s' \<and>
     (arm_uc_hub_state s' = arm_uc_hub_state s \<or> (e \<and> arm_uc_hub_state s' = ARM_UC_HUB_STATE_WAIT_FOR_ERROR_ACK))"

lemma steps_mono: "steps False s s' \<Longrightarrow> steps e s s'"
  by (auto simp: steps_def)

lemma steps_True [simp]: "steps False s s' \<Longrightarrow> steps True s s'"
  by (rule steps_mono)

lemma steps_refl [simp]: "steps e s s"
  by (simp add: steps_def)

lemma steps_trans [trans]: "\<lbrakk>steps e s s'; steps e s' s''\<rbrakk> \<Longrightarrow> steps e s s''"
  by (auto simp: steps_def calm_def)

lemma quiet_steps: "quiet s s' \<Longrightarrow> steps e s s'"
  by (simp add: steps_def quiet_calm)

lemma steps_field [simp]:
  "steps e s (s'\<lparr>arm_uc_active_details := d\<rparr>) = steps e s s'" "steps e s (s'\<lparr>arm_uc_active_details_available := b\<rparr>) = steps e s s'"
  "steps e s (s'\<lparr>arm_uc_installer_details := i\<rparr>) = steps e s s'"
  "steps e s (s'\<lparr>campaign_priority := p\<rparr>) = steps e s s'" "steps e s (s'\<lparr>hub_uri := u\<rparr>) = steps e s s'"
  "steps e s (s'\<lparr>firmware_offset := off\<rparr>) = steps e s s'"
  "steps e s (s'\<lparr>fw_downloadSize := n\<rparr>) = steps e s s'" "steps e s (s'\<lparr>arm_uc_hub_delta_details := dd\<rparr>) = steps e s s'"
  "steps e s (s'\<lparr>hub_front_buffer := fb, hub_back_buffer := bb\<rparr>) = steps e s s'"
  "steps e s (set_buf a bf s') = steps e s s'" "steps e s (set_setup f s') = steps e s s'"
  by (simp_all add: steps_def calm_def notables_def set_buf_def set_setup_def)

lemma steps_quiet: "quiet x y \<Longrightarrow> steps e s y = steps e s x"
  using quiet_calm[of x y] by (auto simp: steps_def calm_def)

lemmas steps_calls [simp] = quiet_reports[THEN steps_quiet] quiet_mm[THEN steps_quiet]

lemma round_okI:
  assumes "\<And>new s'. m = Some (new, s') \<Longrightarrow> steps (st \<in> erring) s s' \<and>
      ([], new, init_cb_called s) \<in> nexts (arm_uc_monitor_struct s \<noteq> None) (arm_uc_hub_init_cb s) (init_cb_called s) st"
    and "arm_uc_hub_state s = st"
  shows "round_ok st s m"
  unfolding round_ok_def
proof (intro allI impI)
  fix new s'
  assume "m = Some (new, s')"
  from assms(1)[OF this] assms(2) show "\<exists>cs. (cs, new, init_cb_called s') \<in>
         nexts (arm_uc_monitor_struct s \<noteq> None) (arm_uc_hub_init_cb s) (init_cb_called s) st \<and>
       notables s' = notables s @ cs \<and> arm_uc_hub_init_cb s' = arm_uc_hub_init_cb s \<and>
       arm_uc_monitor_struct s' = arm_uc_monitor_struct s \<and> ucfm_handler s' = ucfm_handler s \<and>
       (arm_uc_hub_state s' = st \<or>
         (arm_uc_hub_state s' = ARM_UC_HUB_STATE_WAIT_FOR_ERROR_ACK \<and> st \<in> erring \<and> (new \<noteq> st \<or> cs = [])))"
    by (auto simp: steps_def calm_def intro!: exI[of _ "[]"])
qed

lemma steps_active [simp]: "steps e x (snd (snd (ARM_UCFM_GetActiveFirmwareDetails pl d s))) = steps e x s"
  by (cases "ARM_UCFM_GetActiveFirmwareDetails pl d s") (simp add: steps_quiet[OF quiet_details(1)])

lemma steps_installer [simp]: "steps e x (snd (snd (ARM_UCFM_GetInstallerDetails pl i s))) = steps e x s"
  by (cases "ARM_UCFM_GetInstallerDetails pl i s") (simp add: steps_quiet[OF quiet_details(2)])

lemma active_rounds:
  assumes "arm_uc_hub_state s = st"
    and "st \<in> {ARM_UC_HUB_STATE_INITIALIZED, ARM_UC_HUB_STATE_GET_ACTIVE_FIRMWARE_DETAILS,
               ARM_UC_HUB_STATE_REPORT_ACTIVE_HASH, ARM_UC_HUB_STATE_REPORT_ACTIVE_VERSION,
               ARM_UC_HUB_STATE_GET_INSTALLER_DETAILS, ARM_UC_HUB_STATE_REPORT_INSTALLER_DETAILS}"
  shows "round_ok st s (hub_report_active h st s)"
  using assms
  by (auto simp: hub_report_active_def HANDLE_ERROR_def bind_eq_Some_conv case_prod_unfold Let_def
      split: if_splits intro!: round_okI)

lemma idle_round:
  assumes "arm_uc_hub_state s = ARM_UC_HUB_STATE_IDLE"
  shows "round_ok ARM_UC_HUB_STATE_IDLE s (hub_idle h s)"
proof -
  let ?s1 = "snd (ARM_UC_ControlCenter_ReportState (env (plat h)) ARM_UC_UPDATE_STATE_IDLE s)"
  note r = report_calls[of "env (plat h)" 1 s] hub_more[OF report_calls(2)[of "env (plat h)" 1 s]]
  {
    fix f s'
    assume "app_react (ractions (fst (ext (env (plat h)) (APP_Initialized f ARM_UC_INIT_DONE) ?s1)))
        (snd (ext (env (plat h)) (APP_Initialized f ARM_UC_INIT_DONE) ?s1)) = Some s'"
    then have "quiet (snd (ext (env (plat h)) (APP_Initialized f ARM_UC_INIT_DONE) ?s1)) s'" by (rule quiet_react)
    from this hub_more[of s', OF this[unfolded quiet_def, THEN conjunct2, THEN conjunct1]]
    have "notables s' = notables ?s1 @ [APP_Initialized f ARM_UC_INIT_DONE] \<and>
        arm_uc_hub_state s' = arm_uc_hub_state ?s1 \<and> arm_uc_hub_init_cb s' = arm_uc_hub_init_cb ?s1 \<and>
        arm_uc_monitor_struct s' = arm_uc_monitor_struct ?s1 \<and> ucfm_handler s' = ucfm_handler ?s1"
      by (simp add: quiet_def notables_ext) (simp add: ext_def)
  }
  then show ?thesis using r assms
    by (auto simp: round_ok_def hub_idle_def case_prod_unfold Let_def bind_eq_Some_conv ready_call_def notables_def
        split: if_split_asm option.split_asm)
qed

lemma steps_some [dest!]:
  "ARM_UCSM_GetCommon w uri b off ty s = Some (r, s') \<Longrightarrow> steps False s s'"
  "app_react as s = Some s' \<Longrightarrow> steps False s s'"
  "ARM_UC_ControlCenter_GetAuthorization w request priority s = Some (r, s') \<Longrightarrow> steps False s s'"
  "ARM_UCFM_Write pl f s = Some (r, s') \<Longrightarrow> steps False s s'"
  "ARM_UCFM_Finalize pl f b s = Some (r, s') \<Longrightarrow> steps False s s'"
  by (rule quiet_steps, erule quiet_get_common quiet_react quiet_authorization quiet_write quiet_finalize)+

lemma steps_from [simp]:
  "steps e (s\<lparr>campaign_priority := p\<rparr>) s' = steps e s s'" "steps e (s\<lparr>firmware_offset := off\<rparr>) s' = steps e s s'"
  "steps e (s\<lparr>hub_uri := u\<rparr>) s' = steps e s s'" "steps e (s\<lparr>fw_downloadSize := n\<rparr>) s' = steps e s s'"
  "steps e (s\<lparr>arm_uc_hub_delta_details := dd\<rparr>) s' = steps e s s'" "steps e (set_buf a bf s) s' = steps e s s'"
  "steps e (s\<lparr>hub_front_buffer := fb, hub_back_buffer := bb\<rparr>) s' = steps e s s'" "steps e (set_setup f s) s' = steps e s s'"
  by (simp_all add: steps_def calm_def notables_def set_buf_def set_setup_def)

lemma manifest_rounds:
  assumes "arm_uc_hub_state s = st"
    and "st \<in> {ARM_UC_HUB_STATE_NOTIFIED, ARM_UC_HUB_STATE_MANIFEST_FETCHED, ARM_UC_HUB_STATE_MANIFEST_COMPLETE}"
  shows "round_ok st s (hub_manifest h st s)"
  using assms
  by (auto simp: hub_manifest_def ARM_UCSM_GetManifest_def save_manifest_def HANDLE_ERROR_def bind_eq_Some_conv
      case_prod_unfold Let_def split: if_splits intro!: round_okI)

lemma report_rounds:
  assumes "arm_uc_hub_state s = st"
  shows "st = ARM_UC_HUB_STATE_MANIFEST_INSERT_DONE \<Longrightarrow> round_ok st s (hub_manifest h st s)"
    and "st = ARM_UC_HUB_STATE_DOWNLOAD_AUTHORIZATION_MONITOR_REPORT \<Longrightarrow> round_ok st s (hub_download_authorization h st s)"
    and "st \<in> {ARM_UC_HUB_STATE_FIRMWARE_SETUP_DONE, ARM_UC_HUB_STATE_LAST_FRAGMENT_STORE_DONE,
               ARM_UC_HUB_STATE_WAIT_FOR_INSTALL_AUTHORIZATION, ARM_UC_HUB_STATE_INSTALL_AUTHORIZED,
               ARM_UC_HUB_STATE_PREP_REBOOT} \<Longrightarrow> round_ok st s (hub_install h st s)"
  using assms
  by (auto simp: hub_manifest_def hub_download_authorization_def hub_install_def case_prod_unfold Let_def
      intro!: round_report[where w = "env (plat h)"])

lemma authorization_rounds:
  assumes "arm_uc_hub_state s = st"
  shows "st = ARM_UC_HUB_STATE_REQUEST_DOWNLOAD_AUTHORIZATION \<Longrightarrow> round_ok st s (hub_download_authorization h st s)"
    and "st \<in> {ARM_UC_HUB_STATE_FINALIZE_STORAGE, ARM_UC_HUB_STATE_STORAGE_FINALIZED} \<Longrightarrow>
      round_ok st s (hub_install h st s)"
  using assms
  by (auto simp: hub_download_authorization_def hub_install_def HANDLE_ERROR_def case_prod_unfold Let_def
      bind_eq_Some_conv split: if_splits intro!: round_okI)

lemma activate_round:
  assumes "arm_uc_hub_state s = st" and "st = ARM_UC_HUB_STATE_ACTIVATE_FIRMWARE"
  shows "round_ok st s (hub_install h st s)"
proof -
  let ?s = "snd (ARM_UCFM_Activate (plat h) (package_id (hub_setup s)) s)"
  have "(notables ?s = notables s \<or> (\<exists>l. notables ?s = notables s @ [PAAL_Activate l])) \<and> mm.more ?s = mm.more s \<and>
      arm_uc_monitor_struct ?s = arm_uc_monitor_struct s \<and> ucfm_handler ?s = ucfm_handler s"
    by (simp add: ARM_UCFM_Activate_def ARM_UCP_Activate_def paal_call_def case_prod_unfold notables_ext
        split: option.splits if_splits) (simp add: ext_def notables_def)
  with assms hub_more[of ?s s] show ?thesis
    by (auto simp: round_ok_def hub_install_def Let_def)
qed

lemma reboot_round:
  assumes "arm_uc_hub_state s = st" and "st = ARM_UC_HUB_STATE_REBOOT"
  shows "round_ok st s (hub_install h st s)"
proof -
  let ?s = "snd (ext (env (plat h)) PLAT_reboot s)"
  have "notables ?s = notables s @ [PLAT_reboot]" "mm.more ?s = mm.more s"
      "arm_uc_monitor_struct ?s = arm_uc_monitor_struct s" "ucfm_handler ?s = ucfm_handler s"
    by (simp add: notables_ext) (simp_all add: ext_def)
  with assms hub_more[of ?s s] show ?thesis
    by (auto simp: round_ok_def hub_install_def Let_def)
qed

subsection \<open>Errors\<close>

lemma set_state_waits:
  assumes "ARM_UC_HUB_setState n h ARM_UC_HUB_STATE_WAIT_FOR_ERROR_ACK s = Some s'"
  shows "s' = s\<lparr>arm_uc_hub_state := ARM_UC_HUB_STATE_WAIT_FOR_ERROR_ACK\<rparr>"
  using assms by (cases n) (simp_all add: hub_case_def)

text \<open>The error handler: quiet but for the change of state.\<close>

lemma error_handler_steps:
  assumes "ARM_UC_HUB_ErrorHandler set_state w e st s = Some s'"
  shows "\<exists>s1 s2. quiet s s1 \<and> set_state (snd (snd (hub_error_report e))) s1 = Some s2 \<and> quiet s2 s'"
proof -
  let ?x = "fst (hub_error_report e)" and ?m = "fst (snd (hub_error_report e))"
  let ?s1 = "snd (ARM_UC_ControlCenter_ReportUpdateResult w ?m s)"
  obtain s2 where s2: "set_state (snd (snd (hub_error_report e))) ?s1 = Some s2"
    and s': "(case arm_uc_error_callback_handler s2 of None \<Rightarrow> Some s2
      | Some f \<Rightarrow> (let (r, s) = ext w (APP_Error f ?x) s2 in app_react (ractions r) s)) = Some s'"
    using assms by (auto simp: ARM_UC_HUB_ErrorHandler_def bind_eq_Some_conv Let_def case_prod_unfold)
  have "quiet s2 s'"
  proof (cases "arm_uc_error_callback_handler s2")
    case (Some f)
    with s' have "app_react (ractions (fst (ext w (APP_Error f ?x) s2))) (snd (ext w (APP_Error f ?x) s2)) = Some s'"
      by (simp add: case_prod_unfold Let_def)
    then have "quiet (snd (ext w (APP_Error f ?x) s2)) s'" by (rule quiet_react)
    moreover have "quiet s2 (snd (ext w (APP_Error f ?x) s2))" by (rule quiet_ext) simp
    ultimately show ?thesis using quiet_trans by blast
  qed (use s' in simp)
  with s2 quiet_reports(2)[of s w ?m] show ?thesis by blast
qed

lemma error_waits:
  assumes "ARM_UC_HUB_ErrorHandler (ARM_UC_HUB_setState n h) w e st s = Some s'"
    and "snd (snd (hub_error_report e)) = ARM_UC_HUB_STATE_WAIT_FOR_ERROR_ACK"
  shows "calm s s' \<and> arm_uc_hub_state s' = ARM_UC_HUB_STATE_WAIT_FOR_ERROR_ACK"
proof -
  obtain s1 s2 where "quiet s s1" and s2: "s2 = s1\<lparr>arm_uc_hub_state := ARM_UC_HUB_STATE_WAIT_FOR_ERROR_ACK\<rparr>"
    and "quiet s2 s'"
    using error_handler_steps[OF assms(1)] assms(2) set_state_waits by metis
  moreover have "calm s1 s2" "arm_uc_hub_state s2 = ARM_UC_HUB_STATE_WAIT_FOR_ERROR_ACK" by (simp_all add: s2)
  ultimately show ?thesis using quiet_calm[of s s1] quiet_calm[of s2 s'] calm_trans by metis
qed

lemma error_steps:
  assumes "ARM_UC_HUB_ErrorHandler (ARM_UC_HUB_setState n h) w e st s = Some s'"
    and "snd (snd (hub_error_report e)) = ARM_UC_HUB_STATE_WAIT_FOR_ERROR_ACK"
  shows "steps True s s'"
  using error_waits[OF assms] by (simp add: steps_def)

lemma error_codes:
  "e \<in> {HUB_ERR_ROLLBACK_PROTECTION, SOMA_ERR_INVALID_URI, FIRM_ERR_WRITE, SOMA_ERR_NO_ROUTE_TO_SOURCE,
        FIRM_ERR_FIRMWARE_TOO_LARGE} \<Longrightarrow>
   snd (snd (hub_error_report e)) = ARM_UC_HUB_STATE_WAIT_FOR_ERROR_ACK"
  by (auto simp: hub_error_report_def hub_error_tables)

lemma error_trans:
  assumes "ARM_UC_HUB_ErrorHandler (ARM_UC_HUB_setState n h) w e st s1 = Some s'" and "steps b s s1"
    and "e \<in> {HUB_ERR_ROLLBACK_PROTECTION, SOMA_ERR_INVALID_URI, FIRM_ERR_WRITE, SOMA_ERR_NO_ROUTE_TO_SOURCE,
        FIRM_ERR_FIRMWARE_TOO_LARGE}"
  shows "steps True s s'"
proof -
  have "steps True s s1" using assms(2) by (cases b) (auto dest: steps_mono)
  also have "steps True s1 s'" by (rule error_steps[OF assms(1) error_codes[OF assms(3)]])
  finally show ?thesis .
qed

subsection \<open>The rounds that may signal an error\<close>

lemma check_version_round:
  assumes "arm_uc_hub_state s = ARM_UC_HUB_STATE_CHECK_VERSION"
  shows "round_ok ARM_UC_HUB_STATE_CHECK_VERSION s
    (hub_check_version h (ARM_UC_HUB_ErrorHandler (ARM_UC_HUB_setState n h) w) s)"
  using assms
  by (auto simp: hub_check_version_def HANDLE_ERROR_def err_error_def bind_eq_Some_conv split: if_split_asm
      intro: steps_mono intro!: round_okI elim!: error_trans intro: steps_mono)

lemma steps_setups [simp]:
  "steps e s (s'\<lparr>setups := x\<rparr>) = steps e s s'" "steps e (s\<lparr>setups := x\<rparr>) s' = steps e s s'"
  by (simp_all add: steps_def calm_def notables_def)

lemma prepare_setup_round:
  assumes "arm_uc_hub_state s = ARM_UC_HUB_STATE_PREPARE_FIRMWARE_SETUP"
  shows "round_ok ARM_UC_HUB_STATE_PREPARE_FIRMWARE_SETUP s
    (hub_prepare_setup h (ARM_UC_HUB_ErrorHandler (ARM_UC_HUB_setState n h) w) s)"
  using assms
  by (auto simp: hub_prepare_setup_def HANDLE_ERROR_def bind_eq_Some_conv case_prod_unfold Let_def
      split: if_split_asm intro: steps_mono intro!: round_okI elim!: error_trans intro: steps_mono)

lemma fetch_firmware_steps: "ARM_UCSM_GetFirmwareFragment w uri b off s = Some (r, s') \<Longrightarrow> steps False s s'"
  by (auto simp: ARM_UCSM_GetFirmwareFragment_def)

lemma fetch_first_round:
  assumes "arm_uc_hub_state s = ARM_UC_HUB_STATE_FETCH_FIRST_FRAGMENT"
  shows "round_ok ARM_UC_HUB_STATE_FETCH_FIRST_FRAGMENT s
    (hub_fetch_first h (ARM_UC_HUB_ErrorHandler (ARM_UC_HUB_setState n h) w) s)"
proof (cases "fw_size (fwinfo h s) = 0")
  case True
  then show ?thesis using assms
    by (auto simp: hub_fetch_first_def case_prod_unfold Let_def intro!: round_report[where w = "env (plat h)"])
next
  case False
  show ?thesis using False assms
    by (auto simp: hub_fetch_first_def HANDLE_ERROR_def bind_eq_Some_conv case_prod_unfold Let_def
        dest!: fetch_firmware_steps elim!: error_trans split: if_split_asm intro: steps_mono intro!: round_okI)
qed

lemma store_round:
  assumes "arm_uc_hub_state s = ARM_UC_HUB_STATE_STORE_AND_DOWNLOAD"
  shows "round_ok ARM_UC_HUB_STATE_STORE_AND_DOWNLOAD s
    (hub_store_and_download h (ARM_UC_HUB_ErrorHandler (ARM_UC_HUB_setState n h) w) s)"
proof -
  let ?err = "ARM_UC_HUB_ErrorHandler (ARM_UC_HUB_setState n h) w"
  have a: "steps True s s'" if "hub_store h ?err s = Some (f, s')" for f s'
    using that by (auto simp: hub_store_def bind_eq_Some_conv Let_def split: if_split_asm elim!: error_trans intro: steps_mono)
  have b: "steps True s1 s' \<and> (new = ARM_UC_HUB_STATE_STORE_AND_DOWNLOAD \<or> new = ARM_UC_HUB_STATE_AWAIT_LAST_FRAGMENT_STORED)"
    if "hub_fetch_next h ?err s1 = Some (f, new, s')" for s1 f new s'
    using that by (auto simp: hub_fetch_next_def bind_eq_Some_conv Let_def split: if_split_asm
        dest!: fetch_firmware_steps elim!: error_trans intro: steps_mono)
  have c: "steps True s s' \<and> (new = ARM_UC_HUB_STATE_STORE_AND_DOWNLOAD \<or> new = ARM_UC_HUB_STATE_AWAIT_LAST_FRAGMENT_STORED
        \<or> new = ARM_UC_HUB_STATE_IDLE)"
    if "hub_store_and_download h ?err s = Some (new, s')" for new s'
    using that by (auto simp: hub_store_and_download_def bind_eq_Some_conv Let_def case_prod_unfold split: if_split_asm
        dest!: a b dest: steps_trans intro: steps_mono)
  show ?thesis using assms by (auto intro: steps_mono intro!: round_okI dest!: c)
qed

text \<open>Preparing signals an error only to the hub's own handler, which reports it.\<close>

lemma setup_round:
  assumes "arm_uc_hub_state s = ARM_UC_HUB_STATE_SETUP_FIRMWARE"
    and "ucfm_handler s \<in> {None, Some Fn_ARM_UC_HUB_FirmwareManagerEventHandler}"
  shows "round_ok ARM_UC_HUB_STATE_SETUP_FIRMWARE s
    (hub_setup_firmware h (ARM_UC_HUB_ErrorHandler (ARM_UC_HUB_setState n h) (env (plat h)))
       (hub_handler (ARM_UC_HUB_setState n h) (env (plat h))) s)"
proof -
  let ?err = "ARM_UC_HUB_ErrorHandler (ARM_UC_HUB_setState n h) (env (plat h))"
  let ?call = "hub_handler (ARM_UC_HUB_setState n h) (env (plat h))"
  have p: "steps True x s'" if "ARM_UCFM_Prepare pl ?call cfg d b x = Some (r, s')"
      "ucfm_handler x \<in> {None, Some Fn_ARM_UC_HUB_FirmwareManagerEventHandler}" for pl cfg d b x r s'
  proof -
    have "quiet x s' \<or> signalled ?call x s'" using quiet_prepare[OF that(1)] by (auto split: if_splits)
    then consider "quiet x s'" | s1 f ev where "quiet x s1" "ucfm_handler s1 = Some f" "?call f ev s1 = Some s'"
        "ev \<in> {UCFM_EVENT_FIRMWARE_TOO_LARGE_ERROR, UCFM_EVENT_PREPARE_ERROR}"
      by (auto simp: signalled_def)
    then show ?thesis
    proof cases
      case 2
      then have "f = Fn_ARM_UC_HUB_FirmwareManagerEventHandler" using that(2) by (auto simp: quiet_def)
      with 2 show ?thesis
        by (auto simp: hub_handler_def ARM_UC_HUB_FirmwareManagerEventHandler_def Let_def
            elim!: error_trans intro: quiet_steps)
    qed (rule quiet_steps)
  qed
  have q: "ucfm_handler y \<in> {None, Some Fn_ARM_UC_HUB_FirmwareManagerEventHandler} \<longrightarrow> steps True y s'"
    if "ARM_UCFM_Prepare pl ?call cfg d b y = Some (r, s')" for pl cfg d b y r s'
    using p[OF that] by blast
  show ?thesis using assms
    by (auto simp: hub_setup_firmware_def HANDLE_ERROR_def bind_eq_Some_conv Let_def set_setup_def split: if_split_asm
        intro: steps_mono intro!: round_okI elim!: error_trans dest!: q)
qed

subsection \<open>A whole state change\<close>

lemma nexts_waits:
  "(cs, ARM_UC_HUB_STATE_WAIT_FOR_ERROR_ACK, i1) \<in> nexts m cb i st \<Longrightarrow> st = ARM_UC_HUB_STATE_WAIT_FOR_ERROR_ACK"
  by (cases st) auto

lemma round_stays:
  assumes "arm_uc_hub_state s = st"
    and "([], new, init_cb_called s) \<in> nexts (arm_uc_monitor_struct s \<noteq> None) (arm_uc_hub_init_cb s) (init_cb_called s) st"
  shows "round_ok st s (Some (new, s))"
  using assms by (auto intro: round_okI)

lemma hub_round:
  assumes "arm_uc_hub_state s = st" and "ucfm_handler s \<in> {None, Some Fn_ARM_UC_HUB_FirmwareManagerEventHandler}"
  shows "round_ok st s (hub_case h (ARM_UC_HUB_ErrorHandler (ARM_UC_HUB_setState n h) (env (plat h)))
      (hub_handler (ARM_UC_HUB_setState n h) (env (plat h))) st s)"
  using assms
  by (cases st) (simp_all add: hub_case_def active_rounds idle_round manifest_rounds report_rounds authorization_rounds
      activate_round reboot_round check_version_round prepare_setup_round fetch_first_round store_round setup_round
      round_stays)

lemma state_change:
  assumes "ARM_UC_HUB_setState n h st s = Some s'"
    and "ucfm_handler s \<in> {None, Some Fn_ARM_UC_HUB_FirmwareManagerEventHandler}"
  shows "\<exists>cs. (cs, arm_uc_hub_state s', init_cb_called s') \<in>
        entered (arm_uc_monitor_struct s \<noteq> None) (arm_uc_hub_init_cb s) (init_cb_called s) st \<and>
      notables s' = notables s @ cs \<and> arm_uc_hub_init_cb s' = arm_uc_hub_init_cb s \<and>
      arm_uc_monitor_struct s' = arm_uc_monitor_struct s \<and> ucfm_handler s' = ucfm_handler s"
  using assms
proof (induction n arbitrary: st s)
  case (Suc n)
  let ?s = "s\<lparr>arm_uc_hub_state := st\<rparr>"
  let ?round = "hub_case h (ARM_UC_HUB_ErrorHandler (ARM_UC_HUB_setState n h) (env (plat h)))
      (hub_handler (ARM_UC_HUB_setState n h) (env (plat h))) st ?s"
  obtain new s1 where c: "?round = Some (new, s1)"
    and s': "(if arm_uc_hub_state s1 \<noteq> new then ARM_UC_HUB_setState n h new s1 else Some s1) = Some s'"
    using Suc.prems(1) by (auto simp: bind_eq_Some_conv)
  have "round_ok st ?s ?round" using Suc.prems(2) by (intro hub_round) simp_all
  then obtain cs where cs: "(cs, new, init_cb_called s1) \<in>
         nexts (arm_uc_monitor_struct s \<noteq> None) (arm_uc_hub_init_cb s) (init_cb_called s) st"
    and f: "notables s1 = notables ?s @ cs" "arm_uc_hub_init_cb s1 = arm_uc_hub_init_cb s"
      "arm_uc_monitor_struct s1 = arm_uc_monitor_struct s" "ucfm_handler s1 = ucfm_handler s"
    and st: "arm_uc_hub_state s1 = st \<or> (arm_uc_hub_state s1 = ARM_UC_HUB_STATE_WAIT_FOR_ERROR_ACK \<and> (new \<noteq> st \<or> cs = []))"
    using c by (auto simp: round_ok_def)
  have n0: "notables ?s = notables s" by (simp add: notables_def)
  show ?case
  proof (cases "arm_uc_hub_state s1 = new")
    case True
    have "st = new"
    proof (rule ccontr)
      assume "st \<noteq> new"
      with st True have "new = ARM_UC_HUB_STATE_WAIT_FOR_ERROR_ACK" by auto
      with cs nexts_waits have "st = new" by blast
      with \<open>st \<noteq> new\<close> show False by simp
    qed
    with cs nexts_stay have "(cs, arm_uc_hub_state s1, init_cb_called s1) \<in>
        entered (arm_uc_monitor_struct s \<noteq> None) (arm_uc_hub_init_cb s) (init_cb_called s) st"
      using True by blast
    with f n0 s' True show ?thesis by (intro exI[of _ cs]) auto
  next
    case False
    then have "ARM_UC_HUB_setState n h new s1 = Some s'" using s' by simp
    from Suc.IH[OF this] Suc.prems(2) f obtain cs' where
      "(cs', arm_uc_hub_state s', init_cb_called s') \<in>
          entered (arm_uc_monitor_struct s \<noteq> None) (arm_uc_hub_init_cb s) (init_cb_called s1) new"
      "notables s' = notables s1 @ cs'" "arm_uc_hub_init_cb s' = arm_uc_hub_init_cb s"
      "arm_uc_monitor_struct s' = arm_uc_monitor_struct s" "ucfm_handler s' = ucfm_handler s"
      by auto
    with nexts_entered[OF cs this(1)] f(1) n0 False st show ?thesis
      by (intro exI[of _ "cs @ cs'"]) auto
  qed
qed simp

subsection \<open>A change of state ends\<close>

text \<open>The rounds that a change of state takes at most.\<close>

fun rounds :: "arm_uc_hub_state_t \<Rightarrow> nat" where
  "rounds ARM_UC_HUB_STATE_INITIALIZED = 3"
| "rounds ARM_UC_HUB_STATE_GET_ACTIVE_FIRMWARE_DETAILS = 2"
| "rounds ARM_UC_HUB_STATE_REPORT_ACTIVE_HASH = 4"
| "rounds ARM_UC_HUB_STATE_REPORT_ACTIVE_VERSION = 3"
| "rounds ARM_UC_HUB_STATE_GET_INSTALLER_DETAILS = 2"
| "rounds ARM_UC_HUB_STATE_REPORT_INSTALLER_DETAILS = 2"
| "rounds ARM_UC_HUB_STATE_NOTIFIED = 2"
| "rounds ARM_UC_HUB_STATE_CERT_STORED = 2"
| "rounds ARM_UC_HUB_STATE_MANIFEST_FETCHED = 2"
| "rounds ARM_UC_HUB_STATE_MANIFEST_INSERT_DONE = 2"
| "rounds ARM_UC_HUB_STATE_MANIFEST_COMPLETE = 2"
| "rounds ARM_UC_HUB_STATE_CHECK_VERSION = 4"
| "rounds ARM_UC_HUB_STATE_PREPARE_FIRMWARE_SETUP = 3"
| "rounds ARM_UC_HUB_STATE_DOWNLOAD_AUTHORIZATION_MONITOR_REPORT = 2"
| "rounds ARM_UC_HUB_STATE_REQUEST_DOWNLOAD_AUTHORIZATION = 2"
| "rounds ARM_UC_HUB_STATE_SETUP_FIRMWARE = 2"
| "rounds ARM_UC_HUB_STATE_FIRMWARE_SETUP_DONE = 2"
| "rounds ARM_UC_HUB_STATE_FETCH_FIRST_FRAGMENT = 3"
| "rounds ARM_UC_HUB_STATE_STORE_AND_DOWNLOAD = 2"
| "rounds ARM_UC_HUB_STATE_LAST_FRAGMENT_STORE_DONE = 2"
| "rounds ARM_UC_HUB_STATE_FINALIZE_STORAGE = 2"
| "rounds ARM_UC_HUB_STATE_STORAGE_FINALIZED = 2"
| "rounds ARM_UC_HUB_STATE_REBOOT = 2"
| "rounds ARM_UC_HUB_STATE_ERROR_FIRMWARE_MANAGER = 2"
| "rounds ARM_UC_HUB_STATE_ERROR_MANIFEST_MANAGER = 2"
| "rounds ARM_UC_HUB_STATE_ERROR_SOURCE_MANAGER = 2"
| "rounds ARM_UC_HUB_STATE_ERROR_CONTROL_CENTER = 2"
| "rounds st = 1"

lemma rounds_bound: "0 < rounds st" "rounds st \<le> 4"
  by (cases st; simp)+

lemma nexts_rounds: "(cs, new, i') \<in> nexts m cb i st \<Longrightarrow> new \<noteq> st \<Longrightarrow> rounds new < rounds st"
  by (cases st) auto

text \<open>The idle state and the state that waits for a report take one round.\<close>

lemma idle_state: "hub_idle h s = Some (new, s') \<Longrightarrow> arm_uc_hub_state s = ARM_UC_HUB_STATE_IDLE \<Longrightarrow>
    new = ARM_UC_HUB_STATE_IDLE \<and> arm_uc_hub_state s' = ARM_UC_HUB_STATE_IDLE"
  using idle_round[of s h] by (auto simp: round_ok_def)

lemma set_state_once:
  assumes "st \<in> {ARM_UC_HUB_STATE_IDLE, ARM_UC_HUB_STATE_WAIT_FOR_ERROR_ACK}"
  shows "ARM_UC_HUB_setState (Suc n) h st s = ARM_UC_HUB_setState 1 h st s"
proof (cases "st = ARM_UC_HUB_STATE_IDLE")
  case True
  show ?thesis
  proof (cases "hub_idle h (s\<lparr>arm_uc_hub_state := ARM_UC_HUB_STATE_IDLE\<rparr>)")
    case (Some x)
    obtain new s' where x: "x = (new, s')" by fastforce
    show ?thesis using True Some idle_state[of h "s\<lparr>arm_uc_hub_state := ARM_UC_HUB_STATE_IDLE\<rparr>" new s']
      by (simp add: x hub_case_def)
  qed (use True in \<open>simp add: hub_case_def\<close>)
qed (use assms in \<open>simp add: hub_case_def\<close>)

lemma error_next: "snd (snd (hub_error_report e)) \<in> {ARM_UC_HUB_STATE_IDLE, ARM_UC_HUB_STATE_WAIT_FOR_ERROR_ACK}"
proof -
  have "\<forall>(codes, x, m, nxt) \<in> set hub_error_cases. nxt \<in> {None, Some ARM_UC_HUB_STATE_IDLE}"
    by (simp add: hub_error_tables)
  then show ?thesis
    by (auto simp: hub_error_report_def find_Some_iff split: option.splits) (metis (mono_tags, lifting) case_prodD nth_mem option.simps(3) option.inject)
qed

lemma error_fuel:
  "ARM_UC_HUB_ErrorHandler (ARM_UC_HUB_setState (Suc n) h) w e st s =
   ARM_UC_HUB_ErrorHandler (ARM_UC_HUB_setState 1 h) w e st s"
  by (simp only: ARM_UC_HUB_ErrorHandler_def case_prod_unfold Let_def set_state_once[OF error_next[of e], of n h])

lemma handler_fuel:
  assumes "e \<in> {UCFM_EVENT_FIRMWARE_TOO_LARGE_ERROR, UCFM_EVENT_PREPARE_ERROR}"
  shows "hub_handler (ARM_UC_HUB_setState (Suc n) h) w f e s = hub_handler (ARM_UC_HUB_setState 1 h) w f e s"
  using assms
  by (auto simp: hub_handler_def ARM_UC_HUB_FirmwareManagerEventHandler_def ARM_UC_HUB_ControlCenterEventHandler_def
      ARM_UC_HUB_SourceManagerEventHandler_def ARM_UC_HUB_ManifestManagerEventHandler_def Let_def error_fuel
      simp del: ARM_UC_HUB_setState.simps One_nat_def split: uc_fn.splits)

lemma prepare_cong:
  assumes "\<And>f e s. e \<in> {UCFM_EVENT_FIRMWARE_TOO_LARGE_ERROR, UCFM_EVENT_PREPARE_ERROR} \<Longrightarrow> call f e s = call' f e s"
  shows "ARM_UCFM_Prepare pl call cfg d b s = ARM_UCFM_Prepare pl call' cfg d b s"
proof -
  have "arm_uc_signal_ucfm_handler call e s = arm_uc_signal_ucfm_handler call' e s"
    if "e \<in> {UCFM_EVENT_FIRMWARE_TOO_LARGE_ERROR, UCFM_EVENT_PREPARE_ERROR}" for e s
    using assms[OF that] by (auto simp: arm_uc_signal_ucfm_handler_def split: option.split)
  then show ?thesis by (simp add: ARM_UCFM_Prepare_def cong: if_cong)
qed

lemma case_fuel:
  assumes "0 < n \<or> rounds st < 2"
  shows "hub_case h (ARM_UC_HUB_ErrorHandler (ARM_UC_HUB_setState (Suc n) h) w) (hub_handler (ARM_UC_HUB_setState (Suc n) h) w) st s =
    hub_case h (ARM_UC_HUB_ErrorHandler (ARM_UC_HUB_setState n h) w) (hub_handler (ARM_UC_HUB_setState n h) w) st s"
proof (cases n)
  case 0
  then show ?thesis using assms by (cases st) (simp_all add: hub_case_def)
next
  case (Suc m)
  have e: "ARM_UC_HUB_ErrorHandler (ARM_UC_HUB_setState (Suc n) h) w = ARM_UC_HUB_ErrorHandler (ARM_UC_HUB_setState n h) w"
    unfolding Suc by (intro ext) (simp only: error_fuel[of "Suc m"] error_fuel[of m])
  have p: "ARM_UCFM_Prepare pl (hub_handler (ARM_UC_HUB_setState (Suc n) h) w) =
      ARM_UCFM_Prepare pl (hub_handler (ARM_UC_HUB_setState n h) w)" for pl
    unfolding Suc by (intro ext prepare_cong) (simp only: handler_fuel[of _ "Suc m"] handler_fuel[of _ m])
  show ?thesis unfolding hub_case_def hub_setup_firmware_def e p ..
qed

text \<open>The source manager returns no code but success or that there is no route.\<close>

lemma get_codes: "ARM_UCSM_Get w s = Some (r, s') \<Longrightarrow> r \<in> {ERR_NONE, SOMA_ERR_NO_ROUTE_TO_SOURCE}"
proof (induction w s arbitrary: r s' rule: ARM_UCSM_Get.induct)
  case (1 w s)
  obtain r1 k s1 where l: "lookup_source w s = Some (r1, k, s1)" using lookup_source_Some by blast
  let ?req = "request_in_flight (ARM_UCSM_SetError r1 s1)"
  show ?case
  proof (cases "r1 \<noteq> SRCE_ERR_BUSY \<and> r1 \<noteq> SOMA_ERR_NO_ROUTE_TO_SOURCE \<and> err_error r1 \<noteq> 0")
    case True
    have e: "ARM_UCSM_Get w s = (if k < length (excludes ?req)
        then case ARM_UCSM_Get w ((ARM_UCSM_SetError r1 s1)\<lparr>request_in_flight := ?req\<lparr>excludes := (excludes ?req)[k := 1]\<rparr>\<rparr>) of
            None \<Rightarrow> None
          | Some (r, s) \<Rightarrow> Some (r, if ARM_UC_IS_ERROR r then ARM_UCSM_SetError r s else s)
        else None)"
      using l True by (subst ARM_UCSM_Get.simps) (simp add: Let_def)
    then obtain s3 where "k < length (excludes ?req)"
      "ARM_UCSM_Get w ((ARM_UCSM_SetError r1 s1)\<lparr>request_in_flight := ?req\<lparr>excludes := (excludes ?req)[k := 1]\<rparr>\<rparr>) = Some (r, s3)"
      using "1.prems" by (auto split: if_splits option.splits)
    then show ?thesis using "1.IH"[OF l refl refl _ _ _ refl refl] True by blast
  next
    case False
    then show ?thesis using "1.prems" l
      by (subst (asm) ARM_UCSM_Get.simps) (auto simp: Let_def split: if_splits)
  qed
qed

text \<open>A storage driver whose write never returns a status that is neither success nor an error.\<close>

definition honest_storage :: "environment \<Rightarrow> bool" where
  "honest_storage w \<longleftrightarrow> (\<forall>t l off d. err_error (rcode (w (PAAL_Write l off d # t))) = 0 \<longrightarrow>
     rcode (w (PAAL_Write l off d # t)) = ERR_NONE)"

lemma fetch_codes:
  assumes "ARM_UCSM_GetFirmwareFragment w uri b off s = Some (r, s')" and "r \<noteq> ERR_NONE"
  shows "err_error r \<noteq> 0"
proof -
  have "r \<in> {ERR_NONE, SOMA_ERR_NO_ROUTE_TO_SOURCE}"
    using assms(1) get_codes
    by (fastforce simp: ARM_UCSM_GetFirmwareFragment_def ARM_UCSM_GetCommon_def bind_eq_Some_conv Let_def split: if_splits)
  with assms(2) show ?thesis by (simp add: err_error_def)
qed

lemma write_codes:
  assumes "ARM_UCFM_Write pl b s = Some (r, s')" and "honest_storage (env pl)" and "r \<noteq> ERR_NONE"
  shows "err_error r \<noteq> 0"
proof -
  have "err_error (fst (ARM_UCP_Write (env pl) l off c x)) = 0 \<Longrightarrow> fst (ARM_UCP_Write (env pl) l off c x) = ERR_NONE"
    for l off c x
    using assms(2) by (auto simp: ARM_UCP_Write_def paal_call_def ext_def honest_storage_def err_error_def Let_def
        case_prod_unfold split: option.splits if_splits)
  then show ?thesis using assms(1,3)
    by (auto simp: ARM_UCFM_Write_def bind_eq_Some_conv case_prod_unfold Let_def err_error_def simp del: decrypt_loop.simps
        split: option.splits if_splits)
qed

lemma write_effect:
  assumes "ARM_UCFM_Write pl b s = Some (r, s')" and "honest_storage (env pl)"
  shows "steps False s s' \<and> (r = ERR_NONE \<or> err_error r \<noteq> 0)"
  using steps_some(4)[OF assms(1)] write_codes[OF assms] by blast

lemma fetch_effect:
  assumes "ARM_UCSM_GetFirmwareFragment w uri b off s = Some (r, s')"
  shows "steps False s s' \<and> (r = ERR_NONE \<or> err_error r \<noteq> 0)"
  using fetch_firmware_steps[OF assms] fetch_codes[OF assms] by blast

lemma fetch_left:
  assumes "hub_fetch_first h err s = Some (ARM_UC_HUB_STATE_FETCH_FIRST_FRAGMENT, s')"
    and "arm_uc_hub_state s = ARM_UC_HUB_STATE_FETCH_FIRST_FRAGMENT"
  shows "arm_uc_hub_state s' = ARM_UC_HUB_STATE_FETCH_FIRST_FRAGMENT"
proof -
  obtain uri b off y where f: "ARM_UCSM_GetFirmwareFragment (env (plat h)) uri b off y = Some (ERR_NONE, s')"
    and y: "steps False s y"
    using assms(1) fetch_codes
    by (fastforce simp: hub_fetch_first_def HANDLE_ERROR_def bind_eq_Some_conv case_prod_unfold Let_def split: if_split_asm)
  have "steps False s s'" using y fetch_firmware_steps[OF f] by (rule steps_trans)
  with assms(2) show ?thesis by (simp add: steps_def)
qed

lemma store_left:
  assumes "hub_store_and_download h err s = Some (ARM_UC_HUB_STATE_STORE_AND_DOWNLOAD, s')"
    and "arm_uc_hub_state s = ARM_UC_HUB_STATE_STORE_AND_DOWNLOAD" and "honest_storage (env (plat h))"
  shows "arm_uc_hub_state s' = ARM_UC_HUB_STATE_STORE_AND_DOWNLOAD"
proof -
  have st: "steps False x y" if "hub_store h err x = Some (False, y)" for x y
    using that
    by (auto simp: hub_store_def bind_eq_Some_conv Let_def split: if_split_asm
        dest!: write_effect[OF _ assms(3)] del: steps_some)
  have fe: "steps False x y" if "hub_fetch_next h err x = Some (False, new, y)" for x y new
    using that by (auto simp: hub_fetch_next_def bind_eq_Some_conv Let_def split: if_split_asm dest!: fetch_effect)
  have "steps False s s'"
    using assms(1) by (auto simp: hub_store_and_download_def bind_eq_Some_conv Let_def case_prod_unfold split: if_split_asm
        dest!: st fe dest: steps_trans)
  with assms(2) show ?thesis by (simp add: steps_def)
qed

lemma round_left:
  assumes "hub_case h (ARM_UC_HUB_ErrorHandler (ARM_UC_HUB_setState n h) (env (plat h)))
      (hub_handler (ARM_UC_HUB_setState n h) (env (plat h))) st s = Some (new, s')"
    and "honest_storage (env (plat h))" and "arm_uc_hub_state s = st"
    and "ucfm_handler s \<in> {None, Some Fn_ARM_UC_HUB_FirmwareManagerEventHandler}"
  shows "arm_uc_hub_state s' = new \<or> (rounds new < rounds st \<and>
     ucfm_handler s' \<in> {None, Some Fn_ARM_UC_HUB_FirmwareManagerEventHandler})"
proof -
  note r = hub_round[OF assms(3,4), of h n]
  obtain cs where n: "(cs, new, init_cb_called s') \<in>
      nexts (arm_uc_monitor_struct s \<noteq> None) (arm_uc_hub_init_cb s) (init_cb_called s) st"
    and h: "ucfm_handler s' = ucfm_handler s" and st: "arm_uc_hub_state s' = st \<or> st \<in> erring"
    using r assms(1) by (auto simp: round_ok_def)
  show ?thesis
  proof (cases "new = st")
    case False
    then show ?thesis using nexts_rounds[OF n] h assms(4) by simp
  next
    case True
    consider "arm_uc_hub_state s' = st" | "st = ARM_UC_HUB_STATE_FETCH_FIRST_FRAGMENT"
      | "st = ARM_UC_HUB_STATE_STORE_AND_DOWNLOAD"
      using st n True by auto
    then show ?thesis
      using True assms fetch_left store_left by cases (auto simp: hub_case_def)
  qed
qed

lemma set_state_fuel:
  assumes "honest_storage (env (plat h))" and "ucfm_handler s \<in> {None, Some Fn_ARM_UC_HUB_FirmwareManagerEventHandler}"
    and "rounds st \<le> n"
  shows "ARM_UC_HUB_setState (Suc n) h st s = ARM_UC_HUB_setState n h st s"
  using assms(2,3)
proof (induction n arbitrary: st s)
  case 0
  then show ?case using rounds_bound(1)[of st] by simp
next
  case (Suc n)
  let ?s = "s\<lparr>arm_uc_hub_state := st\<rparr>" and ?w = "env (plat h)"
  let ?round = "hub_case h (ARM_UC_HUB_ErrorHandler (ARM_UC_HUB_setState n h) ?w)
      (hub_handler (ARM_UC_HUB_setState n h) ?w) st ?s"
  have "0 < n \<or> rounds st < 2" using Suc.prems(2) by auto
  then have "hub_case h (ARM_UC_HUB_ErrorHandler (ARM_UC_HUB_setState (Suc n) h) ?w)
      (hub_handler (ARM_UC_HUB_setState (Suc n) h) ?w) st ?s = ?round" by (rule case_fuel)
  note c = this
  have e1: "ARM_UC_HUB_setState (Suc (Suc n)) h st s = ?round \<bind>
      (\<lambda>(new, s). if arm_uc_hub_state s \<noteq> new then ARM_UC_HUB_setState (Suc n) h new s else Some s)"
    by (subst ARM_UC_HUB_setState.simps(2)) (simp only: Let_def c)
  have e2: "ARM_UC_HUB_setState (Suc n) h st s = ?round \<bind>
      (\<lambda>(new, s). if arm_uc_hub_state s \<noteq> new then ARM_UC_HUB_setState n h new s else Some s)"
    by (subst ARM_UC_HUB_setState.simps(2)) (simp only: Let_def)
  show ?case
  proof (cases ?round)
    case None
    then show ?thesis by (simp only: e1 e2 bind.simps)
  next
    case (Some x)
    obtain new s1 where x: "x = (new, s1)" by fastforce
    have "arm_uc_hub_state s1 = new \<or> (rounds new < rounds st \<and>
        ucfm_handler s1 \<in> {None, Some Fn_ARM_UC_HUB_FirmwareManagerEventHandler})"
      using Suc.prems(1) by (intro round_left[OF Some[unfolded x] assms(1)]) simp_all
    then have "arm_uc_hub_state s1 \<noteq> new \<longrightarrow> ARM_UC_HUB_setState (Suc n) h new s1 = ARM_UC_HUB_setState n h new s1"
      using Suc.IH[of s1 new] Suc.prems(2) by auto
    then show ?thesis unfolding e1 e2 Some x bind.simps prod.case
      by (cases "arm_uc_hub_state s1 = new") (simp_all del: ARM_UC_HUB_setState.simps)
  qed
qed

lemma set_state_ends:
  assumes "honest_storage (env (plat h))" and "ucfm_handler s \<in> {None, Some Fn_ARM_UC_HUB_FirmwareManagerEventHandler}"
  shows "ARM_UC_HUB_setState (4 + k) h st s = ARM_UC_HUB_setState 4 h st s"
proof (induction k)
  case (Suc k)
  have "rounds st \<le> 4 + k" using rounds_bound(2)[of st] by simp
  from set_state_fuel[OF assms this] Suc show ?case by simp
qed simp

end
