(* ===== verification/UC_Hub_System.thy ===== *)
theory UC_Hub_System
  imports UC_Hub_Rounds "HOL-Library.Sublist"
begin

text \<open>
  The update client as a whole: the hub and the components around it, driven by events in any
  order. \<open>spec_run\<close> is the abstract machine, \<open>hub_run\<close> the runs of the program, and \<open>hub_run_spec\<close>
  the simulation between them; the invariants are proved on the abstract machine.
\<close>

subsection \<open>The transitions\<close>

abbreviation (input) "CC \<equiv> Fn_ARM_UC_HUB_ControlCenterEventHandler"
abbreviation (input) "FM \<equiv> Fn_ARM_UC_HUB_FirmwareManagerEventHandler"
abbreviation (input) "SM \<equiv> Fn_ARM_UC_HUB_SourceManagerEventHandler"
abbreviation (input) "MM \<equiv> Fn_ARM_UC_HUB_ManifestManagerEventHandler"

definition hub_handlers :: "uc_fn set" where
  "hub_handlers = {CC, FM, SM, MM}"

text \<open>The states that an event enters from the state that it arrives in.\<close>

fun follows :: "arm_uc_hub_state_t \<Rightarrow> uc_fn \<times> u32 \<Rightarrow> arm_uc_hub_state_t set" where
  "follows ARM_UC_HUB_STATE_INITIALIZING ev =
     (if ev = (MM, ARM_UC_MM_RC_DONE) then {ARM_UC_HUB_STATE_INITIALIZED} else {})"
| "follows ARM_UC_HUB_STATE_IDLE ev =
     (if ev = (SM, ARM_UC_SM_EVENT_NOTIFICATION) then {ARM_UC_HUB_STATE_NOTIFIED} else {})"
| "follows ARM_UC_HUB_STATE_NOTIFIED ev =
     (if ev = (SM, ARM_UC_SM_EVENT_MANIFEST) then {ARM_UC_HUB_STATE_MANIFEST_FETCHED} else {})"
| "follows ARM_UC_HUB_STATE_MANIFEST_AWAIT_INSERT ev =
     (if ev = (MM, ARM_UC_MM_RC_DONE) then {ARM_UC_HUB_STATE_MANIFEST_INSERT_DONE} else {})"
| "follows ARM_UC_HUB_STATE_MANIFEST_AWAIT_MONITOR_REPORT_DONE ev =
     (if ev = (CC, ARM_UCCC_EVENT_MONITOR_SEND_DONE) then {ARM_UC_HUB_STATE_MANIFEST_COMPLETE} else {})"
| "follows ARM_UC_HUB_STATE_MANIFEST_COMPLETE ev =
     (if ev = (MM, ARM_UC_MM_RC_NEED_FW) then {ARM_UC_HUB_STATE_CHECK_VERSION} else {})"
| "follows ARM_UC_HUB_STATE_WAIT_FOR_DOWNLOAD_AUTHORIZATION_REPORT_DONE ev =
     (if ev = (CC, ARM_UCCC_EVENT_MONITOR_SEND_DONE) then {ARM_UC_HUB_STATE_REQUEST_DOWNLOAD_AUTHORIZATION} else {})"
| "follows ARM_UC_HUB_STATE_WAIT_FOR_DOWNLOAD_AUTHORIZATION ev =
     (if ev = (CC, ARM_UCCC_EVENT_AUTHORIZE_DOWNLOAD) then {ARM_UC_HUB_STATE_SETUP_FIRMWARE} else {})"
| "follows ARM_UC_HUB_STATE_AWAIT_FIRMWARE_SETUP ev =
     (if ev = (FM, UCFM_EVENT_PREPARE_DONE) then {ARM_UC_HUB_STATE_FIRMWARE_SETUP_DONE} else {})"
| "follows ARM_UC_HUB_STATE_AWAIT_FIRMWARE_MONITOR_REPORT_DONE ev =
     (if ev = (CC, ARM_UCCC_EVENT_MONITOR_SEND_DONE) then {ARM_UC_HUB_STATE_FETCH_FIRST_FRAGMENT} else {})"
| "follows ARM_UC_HUB_STATE_FETCH_FIRST_FRAGMENT ev =
     (if ev = (SM, ARM_UC_SM_EVENT_FIRMWARE) then {ARM_UC_HUB_STATE_STORE_AND_DOWNLOAD} else {})"
| "follows ARM_UC_HUB_STATE_STORE_AND_DOWNLOAD ev =
     (if ev = (SM, ARM_UC_SM_EVENT_FIRMWARE) then {ARM_UC_HUB_STATE_WAIT_FOR_STORAGE}
      else if ev = (FM, UCFM_EVENT_WRITE_DONE) then {ARM_UC_HUB_STATE_WAIT_FOR_NETWORK} else {})"
| "follows ARM_UC_HUB_STATE_WAIT_FOR_STORAGE ev =
     (if ev = (FM, UCFM_EVENT_WRITE_DONE) then {ARM_UC_HUB_STATE_STORE_AND_DOWNLOAD} else {})"
| "follows ARM_UC_HUB_STATE_WAIT_FOR_NETWORK ev =
     (if ev = (SM, ARM_UC_SM_EVENT_FIRMWARE) then {ARM_UC_HUB_STATE_STORE_AND_DOWNLOAD} else {})"
| "follows ARM_UC_HUB_STATE_AWAIT_LAST_FRAGMENT_STORED ev =
     (if ev = (FM, UCFM_EVENT_WRITE_DONE) then {ARM_UC_HUB_STATE_LAST_FRAGMENT_STORE_DONE} else {})"
| "follows ARM_UC_HUB_STATE_AWAIT_LAST_FRAGMENT_MONITOR_REPORT_DONE ev =
     (if ev = (CC, ARM_UCCC_EVENT_MONITOR_SEND_DONE) then {ARM_UC_HUB_STATE_FINALIZE_STORAGE} else {})"
| "follows ARM_UC_HUB_STATE_FINALIZE_STORAGE ev =
     (if ev = (FM, UCFM_EVENT_FINALIZE_DONE) then {ARM_UC_HUB_STATE_STORAGE_FINALIZED} else {})"
| "follows ARM_UC_HUB_STATE_WAIT_FOR_INSTALL_AUTHORIZATION ev =
     (if ev = (CC, ARM_UCCC_EVENT_AUTHORIZE_INSTALL) then {ARM_UC_HUB_STATE_INSTALL_AUTHORIZED} else {})"
| "follows ARM_UC_HUB_STATE_INSTALL_AUTHORIZED ev =
     (if ev = (CC, ARM_UCCC_EVENT_MONITOR_SEND_DONE) then {ARM_UC_HUB_STATE_ACTIVATE_FIRMWARE} else {})"
| "follows ARM_UC_HUB_STATE_ACTIVATE_FIRMWARE ev =
     (if ev = (FM, UCFM_EVENT_ACTIVATE_DONE) then {ARM_UC_HUB_STATE_PREP_REBOOT} else {})"
| "follows ARM_UC_HUB_STATE_PREP_REBOOT ev =
     (if ev = (CC, ARM_UCCC_EVENT_MONITOR_SEND_DONE) then {ARM_UC_HUB_STATE_REBOOT} else {})"
| "follows st ev = {}"

text \<open>The states that an event, or an error, may enter from every state.\<close>

definition interrupts :: "arm_uc_hub_state_t set" where
  "interrupts = {ARM_UC_HUB_STATE_IDLE, ARM_UC_HUB_STATE_WAIT_FOR_ERROR_ACK, ARM_UC_HUB_STATE_REPORT_ACTIVE_HASH,
     ARM_UC_HUB_STATE_REPORT_INSTALLER_DETAILS, ARM_UC_HUB_STATE_GET_INSTALLER_DETAILS,
     ARM_UC_HUB_STATE_UNINITIALIZED}"

definition handled :: "nat \<Rightarrow> hub_platform \<Rightarrow> arm_uc_hub_state_t set \<Rightarrow> 'z hub_scheme \<Rightarrow> 'z hub_scheme \<Rightarrow> bool" where
  "handled n h sts s s' \<longleftrightarrow> quiet s s' \<or>
     (\<exists>st s1 s2. st \<in> sts \<and> quiet s s1 \<and> ARM_UC_HUB_setState n h st s1 = Some s2 \<and> quiet s2 s')"

lemma handled_error:
  "ARM_UC_HUB_ErrorHandler (ARM_UC_HUB_setState n h) w e st s = Some s' \<Longrightarrow> interrupts \<subseteq> sts \<Longrightarrow> handled n h sts s s'"
  using error_handler_steps[of "ARM_UC_HUB_setState n h" w e st s s'] error_next[of e]
  by (auto simp: handled_def interrupts_def)

lemma handled_set: "ARM_UC_HUB_setState n h st s = Some s' \<Longrightarrow> st \<in> sts \<Longrightarrow> handled n h sts s s'"
  unfolding handled_def using quiet_refl by blast

lemma handled_same [simp]: "handled n h sts s s"
  by (simp add: handled_def)

lemma handled_events:
  "ARM_UC_HUB_ControlCenterEventHandler (ARM_UC_HUB_setState n h) w e s = Some s' \<Longrightarrow>
     handled n h (follows (arm_uc_hub_state s) (CC, e) \<union> interrupts) s s'"
  "ARM_UC_HUB_FirmwareManagerEventHandler (ARM_UC_HUB_setState n h) w e s = Some s' \<Longrightarrow>
     handled n h (follows (arm_uc_hub_state s) (FM, e) \<union> interrupts) s s'"
  "ARM_UC_HUB_SourceManagerEventHandler (ARM_UC_HUB_setState n h) w e s = Some s' \<Longrightarrow>
     handled n h (follows (arm_uc_hub_state s) (SM, e) \<union> interrupts) s s'"
  "ARM_UC_HUB_ManifestManagerEventHandler (ARM_UC_HUB_setState n h) w e s = Some s' \<Longrightarrow>
     handled n h (follows (arm_uc_hub_state s) (MM, e) \<union> interrupts) s s'"
proof -
  note [elim] = handled_error[OF _ Un_upper2] handled_error[OF _ order_refl] handled_error[OF _ subset_insertI] handled_set
  have i: "ARM_UC_HUB_STATE_IDLE \<in> interrupts" "ARM_UC_HUB_STATE_REPORT_ACTIVE_HASH \<in> interrupts"
    "ARM_UC_HUB_STATE_REPORT_INSTALLER_DETAILS \<in> interrupts" "ARM_UC_HUB_STATE_GET_INSTALLER_DETAILS \<in> interrupts"
    by (simp_all add: interrupts_def)
  show "ARM_UC_HUB_ControlCenterEventHandler (ARM_UC_HUB_setState n h) w e s = Some s' \<Longrightarrow>
     handled n h (follows (arm_uc_hub_state s) (CC, e) \<union> interrupts) s s'"
    by (cases "arm_uc_hub_state s") (auto simp: ARM_UC_HUB_ControlCenterEventHandler_def hub_report_done_def
        ARM_UC_HUB_getState_def Let_def i bind_eq_Some_conv split: if_split_asm)
  show "ARM_UC_HUB_FirmwareManagerEventHandler (ARM_UC_HUB_setState n h) w e s = Some s' \<Longrightarrow>
     handled n h (follows (arm_uc_hub_state s) (FM, e) \<union> interrupts) s s'"
    by (auto simp: ARM_UC_HUB_FirmwareManagerEventHandler_def ARM_UC_HUB_getState_def Let_def i split: if_split_asm)
  show "ARM_UC_HUB_SourceManagerEventHandler (ARM_UC_HUB_setState n h) w e s = Some s' \<Longrightarrow>
     handled n h (follows (arm_uc_hub_state s) (SM, e) \<union> interrupts) s s'"
    by (auto simp: ARM_UC_HUB_SourceManagerEventHandler_def ARM_UC_HUB_getState_def Let_def i split: if_split_asm)
  show "ARM_UC_HUB_ManifestManagerEventHandler (ARM_UC_HUB_setState n h) w e s = Some s' \<Longrightarrow>
     handled n h (follows (arm_uc_hub_state s) (MM, e) \<union> interrupts) s s'"
    by (auto simp: ARM_UC_HUB_ManifestManagerEventHandler_def ARM_UC_HUB_getState_def Let_def i split: if_split_asm)
qed

lemma hub_call_handled:
  assumes "hub_call n h f e s = Some s'"
  shows "handled n h (follows (arm_uc_hub_state s) (f, e) \<union> interrupts) s s' \<and> f \<in> hub_handlers"
  using assms handled_events
  by (simp add: hub_call_def hub_handler_def hub_handlers_def split: uc_fn.splits)

subsection \<open>The client as an abstract machine\<close>

text \<open>
  The events that reached the hub, the notable calls, the state, whether the application has been
  told that the client is ready, and whether there is a monitor.
\<close>

inductive spec_run :: "(uc_fn \<times> u32) list \<Rightarrow> ext_call list \<Rightarrow> arm_uc_hub_state_t \<Rightarrow> bool \<Rightarrow> bool \<Rightarrow> bool" where
  boot: "spec_run [] [] ARM_UC_HUB_STATE_UNINITIALIZED False m"
| ignored: "spec_run evs calls st i m \<Longrightarrow> spec_run (evs @ [ev]) calls st i m"
| event: "\<lbrakk>spec_run evs calls st i m; st1 \<in> follows st ev; (cs, st', i') \<in> entered m cb i st1\<rbrakk> \<Longrightarrow>
    spec_run (evs @ [ev]) (calls @ cs) st' i' m"
| interrupt: "\<lbrakk>spec_run evs calls st i m; st1 \<in> interrupts; (cs, st', i') \<in> entered m cb i st1\<rbrakk> \<Longrightarrow>
    spec_run evs (calls @ cs) st' i' m"
| initialize: "spec_run evs calls ARM_UC_HUB_STATE_UNINITIALIZED i m \<Longrightarrow>
    spec_run evs calls ARM_UC_HUB_STATE_INITIALIZING i m"
| monitor: "spec_run evs calls st i m \<Longrightarrow> spec_run evs calls st i True"

subsection \<open>Every activation is earned\<close>

text \<open>The events of an update up to its activation, and how many of them each state stands for.\<close>

definition full_update :: "(uc_fn \<times> u32) list" where
  "full_update =
    [(SM, ARM_UC_SM_EVENT_NOTIFICATION), (SM, ARM_UC_SM_EVENT_MANIFEST), (MM, ARM_UC_MM_RC_DONE),
     (CC, ARM_UCCC_EVENT_MONITOR_SEND_DONE), (MM, ARM_UC_MM_RC_NEED_FW), (CC, ARM_UCCC_EVENT_MONITOR_SEND_DONE),
     (CC, ARM_UCCC_EVENT_AUTHORIZE_DOWNLOAD), (FM, UCFM_EVENT_PREPARE_DONE),
     (CC, ARM_UCCC_EVENT_MONITOR_SEND_DONE), (FM, UCFM_EVENT_FINALIZE_DONE),
     (CC, ARM_UCCC_EVENT_AUTHORIZE_INSTALL), (CC, ARM_UCCC_EVENT_MONITOR_SEND_DONE)]"

fun stage :: "arm_uc_hub_state_t \<Rightarrow> nat" where
  "stage ARM_UC_HUB_STATE_NOTIFIED = 1"
| "stage ARM_UC_HUB_STATE_MANIFEST_FETCHED = 2"
| "stage ARM_UC_HUB_STATE_MANIFEST_AWAIT_INSERT = 2"
| "stage ARM_UC_HUB_STATE_MANIFEST_INSERT_DONE = 3"
| "stage ARM_UC_HUB_STATE_MANIFEST_AWAIT_MONITOR_REPORT_DONE = 3"
| "stage ARM_UC_HUB_STATE_MANIFEST_COMPLETE = 4"
| "stage ARM_UC_HUB_STATE_CHECK_VERSION = 5"
| "stage ARM_UC_HUB_STATE_PREPARE_FIRMWARE_SETUP = 5"
| "stage ARM_UC_HUB_STATE_DOWNLOAD_AUTHORIZATION_MONITOR_REPORT = 5"
| "stage ARM_UC_HUB_STATE_WAIT_FOR_DOWNLOAD_AUTHORIZATION_REPORT_DONE = 5"
| "stage ARM_UC_HUB_STATE_REQUEST_DOWNLOAD_AUTHORIZATION = 6"
| "stage ARM_UC_HUB_STATE_WAIT_FOR_DOWNLOAD_AUTHORIZATION = 6"
| "stage ARM_UC_HUB_STATE_SETUP_FIRMWARE = 7"
| "stage ARM_UC_HUB_STATE_AWAIT_FIRMWARE_SETUP = 7"
| "stage ARM_UC_HUB_STATE_FIRMWARE_SETUP_DONE = 8"
| "stage ARM_UC_HUB_STATE_AWAIT_FIRMWARE_MONITOR_REPORT_DONE = 8"
| "stage ARM_UC_HUB_STATE_FETCH_FIRST_FRAGMENT = 9"
| "stage ARM_UC_HUB_STATE_STORE_AND_DOWNLOAD = 9"
| "stage ARM_UC_HUB_STATE_WAIT_FOR_STORAGE = 9"
| "stage ARM_UC_HUB_STATE_WAIT_FOR_NETWORK = 9"
| "stage ARM_UC_HUB_STATE_AWAIT_LAST_FRAGMENT_STORED = 9"
| "stage ARM_UC_HUB_STATE_LAST_FRAGMENT_STORE_DONE = 9"
| "stage ARM_UC_HUB_STATE_AWAIT_LAST_FRAGMENT_MONITOR_REPORT_DONE = 9"
| "stage ARM_UC_HUB_STATE_FINALIZE_STORAGE = 9"
| "stage ARM_UC_HUB_STATE_STORAGE_FINALIZED = 10"
| "stage ARM_UC_HUB_STATE_WAIT_FOR_INSTALL_AUTHORIZATION = 10"
| "stage ARM_UC_HUB_STATE_INSTALL_AUTHORIZED = 11"
| "stage st = 0"

definition activations :: "ext_call list \<Rightarrow> nat" where
  "activations calls = length (filter (\<lambda>c. case c of PAAL_Activate _ \<Rightarrow> True | _ \<Rightarrow> False) calls)"

lemma activations_append [simp]: "activations (xs @ ys) = activations xs + activations ys"
  by (simp add: activations_def)

lemma activations_calls [simp]:
  "activations [] = 0" "activations (PAAL_Activate l # cs) = Suc (activations cs)"
  "activations (PLAT_reboot # cs) = activations cs" "activations (reported m x) = 0" "activations (ready_call cb i) = 0"
  by (simp_all add: activations_def reported_def ready_call_def split: option.split)

text \<open>An event takes the state at most one stage further, and only the event that is due.\<close>

lemma event_stage:
  assumes "st1 \<in> follows st ev" and "(cs, st', i') \<in> entered m cb i st1"
  shows "(activations cs = 0 \<and> (stage st' \<le> stage st \<or> stage st' = Suc (stage st) \<and> full_update ! stage st = ev)) \<or>
    (activations cs \<le> 1 \<and> stage st' = 0 \<and> stage st = 11 \<and> full_update ! 11 = ev)"
  using assms by (cases st) (auto simp: full_update_def split: if_split_asm)

lemma interrupt_stage:
  assumes "st1 \<in> interrupts" and "(cs, st', i') \<in> entered m cb i st1"
  shows "activations cs = 0 \<and> stage st' = 0"
  using assms by (auto simp: interrupts_def)

lemma take_stage: "stage st < length full_update"
  by (cases st) (simp_all add: full_update_def)

definition earned :: "(uc_fn \<times> u32) list \<Rightarrow> ext_call list \<Rightarrow> arm_uc_hub_state_t \<Rightarrow> bool" where
  "earned evs calls st \<longleftrightarrow>
     subseq (concat (replicate (activations calls) full_update) @ take (stage st) full_update) evs"

lemma earned_less:
  assumes "earned evs calls st" and "stage st' \<le> stage st" and "activations cs = 0"
  shows "earned evs (calls @ cs) st'"
proof -
  have "subseq (take (stage st') full_update) (take (stage st) full_update)"
    using assms(2) by (metis min.absorb1 prefix_imp_subseq take_is_prefix take_take)
  then have "subseq (concat (replicate (activations calls) full_update) @ take (stage st') full_update)
      (concat (replicate (activations calls) full_update) @ take (stage st) full_update)"
    by (rule list_emb_append_mono[OF subseq_order.refl])
  with assms show ?thesis unfolding earned_def by (simp add: subseq_order.trans)
qed

lemma earned_more: "earned evs calls st \<Longrightarrow> earned (evs @ [ev]) calls st"
  unfolding earned_def by (rule subseq_rev_drop_many)

lemma earned_next:
  assumes "earned evs calls st" and "full_update ! stage st = ev"
  shows "subseq (concat (replicate (activations calls) full_update) @ take (Suc (stage st)) full_update) (evs @ [ev])"
proof -
  have "take (Suc (stage st)) full_update = take (stage st) full_update @ [ev]"
    using assms(2) take_stage[of st] by (simp add: take_Suc_conv_app_nth)
  with assms(1) show ?thesis
    unfolding earned_def by (metis append_assoc subseq_append)
qed

lemma concat_replicate_Suc: "concat (replicate (Suc k) xs) = concat (replicate k xs) @ xs"
  by (induction k) simp_all

lemma spec_earned: "spec_run evs calls st i m \<Longrightarrow> earned evs calls st"
proof (induction rule: spec_run.induct)
  case (boot m)
  then show ?case by (simp add: earned_def)
next
  case (event evs calls st i m st1 ev cs st' i' cb)
  from event_stage[OF event.hyps(2,3)] show ?case
  proof (elim disjE conjE)
    assume "activations cs = 0" "stage st' \<le> stage st"
    then show ?thesis using earned_less earned_more event.IH by blast
  next
    assume "activations cs = 0" "stage st' = Suc (stage st)" "full_update ! stage st = ev"
    then show ?thesis using earned_next[OF event.IH] by (simp add: earned_def)
  next
    assume a: "activations cs \<le> 1" "stage st' = 0" "stage st = 11" "full_update ! 11 = ev"
    have "take 12 full_update = full_update" by (simp add: full_update_def)
    then have "subseq (concat (replicate (activations calls) full_update) @ full_update) (evs @ [ev])"
      using earned_next[OF event.IH] a by simp
    then have e: "subseq (concat (replicate (Suc (activations calls)) full_update)) (evs @ [ev])"
      by (simp only: concat_replicate_Suc)
    show ?thesis
    proof (cases "activations cs = 0")
      case True
      then show ?thesis using earned_less[OF earned_more[OF event.IH]] a by simp
    next
      case False
      then have "activations (calls @ cs) = Suc (activations calls)" using a(1) by simp
      then show ?thesis using e a(2) by (simp only: earned_def take_0 append_Nil2)
    qed
  qed
next
  case (interrupt evs calls st i m st1 cs st' i' cb)
  then show ?case using interrupt_stage earned_less[OF interrupt.IH] by (metis le0)
next
  case (initialize evs calls i m)
  then show ?case by (simp add: earned_def)
qed (auto intro: earned_more)

subsection \<open>The application is told once\<close>

definition readiness :: "ext_call list \<Rightarrow> nat" where
  "readiness calls = length (filter (\<lambda>c. case c of APP_Initialized _ _ \<Rightarrow> True | _ \<Rightarrow> False) calls)"

lemma readiness_append [simp]: "readiness (xs @ ys) = readiness xs + readiness ys"
  by (simp add: readiness_def)

lemma readiness_calls [simp]:
  "readiness [] = 0" "readiness (PAAL_Activate l # cs) = readiness cs" "readiness (PLAT_reboot # cs) = readiness cs"
  "readiness (reported m x) = 0" "readiness (ready_call cb True) = 0" "readiness (ready_call cb i) \<le> Suc 0"
  by (auto simp: readiness_def reported_def ready_call_def split: option.split)

lemma entered_told:
  "(cs, st', i') \<in> entered m cb i st \<Longrightarrow> readiness cs \<le> (if i then 0 else if i' then 1 else 0) \<and> (i \<longrightarrow> i')"
  by (cases st; cases i) auto

lemma spec_told: "spec_run evs calls st i m \<Longrightarrow> readiness calls \<le> (if i then 1 else 0)"
proof (induction rule: spec_run.induct)
  case (event evs calls st i m st1 ev cs st' i' cb)
  then show ?case using entered_told[OF event.hyps(3)] by (cases i; cases i') auto
next
  case (interrupt evs calls st i m st1 cs st' i' cb)
  then show ?case using entered_told[OF interrupt.hyps(3)] by (cases i; cases i') auto
qed simp_all

subsection \<open>The states that are reported\<close>

fun public_state :: "ext_call \<Rightarrow> u32 list" where
  "public_state (MON_SendState st) = [st]"
| "public_state _ = []"

definition public_states :: "ext_call list \<Rightarrow> u32 list" where
  "public_states calls = concat (map public_state calls)"

text \<open>The state that the monitor was told last, while the hub is in a state; none where it may be any.\<close>

fun shown :: "arm_uc_hub_state_t \<Rightarrow> u32 option" where
  "shown ARM_UC_HUB_STATE_IDLE = Some 1"
| "shown ARM_UC_HUB_STATE_NOTIFIED = Some 1"
| "shown ARM_UC_HUB_STATE_MANIFEST_AWAIT_INSERT = Some 1"
| "shown ARM_UC_HUB_STATE_MANIFEST_AWAIT_MONITOR_REPORT_DONE = Some 2"
| "shown ARM_UC_HUB_STATE_MANIFEST_COMPLETE = Some 2"
| "shown ARM_UC_HUB_STATE_WAIT_FOR_DOWNLOAD_AUTHORIZATION_REPORT_DONE = Some 3"
| "shown ARM_UC_HUB_STATE_WAIT_FOR_DOWNLOAD_AUTHORIZATION = Some 3"
| "shown ARM_UC_HUB_STATE_AWAIT_FIRMWARE_SETUP = Some 3"
| "shown ARM_UC_HUB_STATE_AWAIT_FIRMWARE_MONITOR_REPORT_DONE = Some 4"
| "shown ARM_UC_HUB_STATE_FETCH_FIRST_FRAGMENT = Some 4"
| "shown ARM_UC_HUB_STATE_STORE_AND_DOWNLOAD = Some 4"
| "shown ARM_UC_HUB_STATE_WAIT_FOR_STORAGE = Some 4"
| "shown ARM_UC_HUB_STATE_WAIT_FOR_NETWORK = Some 4"
| "shown ARM_UC_HUB_STATE_AWAIT_LAST_FRAGMENT_STORED = Some 4"
| "shown ARM_UC_HUB_STATE_AWAIT_LAST_FRAGMENT_MONITOR_REPORT_DONE = Some 5"
| "shown ARM_UC_HUB_STATE_FINALIZE_STORAGE = Some 5"
| "shown ARM_UC_HUB_STATE_WAIT_FOR_INSTALL_AUTHORIZATION = Some 6"
| "shown ARM_UC_HUB_STATE_INSTALL_AUTHORIZED = Some 7"
| "shown ARM_UC_HUB_STATE_ACTIVATE_FIRMWARE = Some 7"
| "shown ARM_UC_HUB_STATE_PREP_REBOOT = Some 8"
| "shown st = None"

definition in_order :: "u32 \<Rightarrow> u32 \<Rightarrow> bool" where
  "in_order a b \<longleftrightarrow> b = 1 \<or> b = a + 1"

text \<open>What a change of state reports follows what the monitor was told last.\<close>

definition continues :: "u32 option \<Rightarrow> u32 list \<Rightarrow> u32 option \<Rightarrow> bool" where
  "continues before xs after \<longleftrightarrow> length xs \<le> 2 \<and> successively in_order xs \<and>
     (xs \<noteq> [] \<longrightarrow> (case before of Some x \<Rightarrow> in_order x (hd xs) | None \<Rightarrow> hd xs = 1)) \<and>
     (case after of None \<Rightarrow> True | Some y \<Rightarrow> if xs = [] then before = Some y else last xs = y)"

lemma public_calls [simp]:
  "public_states [] = []" "public_states (xs @ ys) = public_states xs @ public_states ys"
  "public_states (PAAL_Activate l # cs) = public_states cs" "public_states (PLAT_reboot # cs) = public_states cs"
  "public_states (reported m x) = (if m then [x] else [])" "public_states (ready_call cb i) = []"
  by (auto simp: public_states_def reported_def ready_call_def split: option.split)

lemma event_reports:
  assumes "st1 \<in> follows st ev" and "(cs, st', i') \<in> entered True cb i st1"
  shows "continues (shown st) (public_states cs) (shown st')"
  using assms by (cases st) (auto simp: continues_def in_order_def split: if_split_asm)

lemma interrupt_reports:
  assumes "st1 \<in> interrupts" and "(cs, st', i') \<in> entered True cb i st1"
  shows "continues None (public_states cs) (shown st') \<and> continues (shown st) (public_states cs) (shown st')"
  using assms by (auto simp: interrupts_def continues_def in_order_def split: option.split)

lemma silent_reports: "(cs, st', i') \<in> entered False cb i st \<Longrightarrow> public_states cs = []"
  by (cases st) auto

definition reports_ok :: "u32 list \<Rightarrow> arm_uc_hub_state_t \<Rightarrow> bool" where
  "reports_ok xs st \<longleftrightarrow> successively in_order xs \<and> (xs \<noteq> [] \<longrightarrow> shown st \<in> {None, Some (last xs)})"

lemma reports_continue:
  assumes "reports_ok xs st" and "continues (shown st) ys (shown st')"
  shows "reports_ok (xs @ ys) st'"
proof (cases "xs = []")
  case True
  with assms(2) show ?thesis by (auto simp: reports_ok_def continues_def split: option.splits)
next
  case False
  with assms show ?thesis
    by (cases "ys = []") (auto simp: reports_ok_def continues_def successively_append_iff in_order_def split: option.splits)
qed

lemma spec_reports:
  "spec_run evs calls st i m \<Longrightarrow> reports_ok (public_states calls) st \<and> (\<not> m \<longrightarrow> public_states calls = [])"
proof (induction rule: spec_run.induct)
  case (event evs calls st i m st1 ev cs st' i' cb)
  show ?case
  proof (cases m)
    case True
    with event.hyps(2,3) event.IH show ?thesis by (simp add: reports_continue[OF _ event_reports])
  next
    case False
    with event show ?thesis using silent_reports[of cs st' i' cb i st1] by (simp add: reports_ok_def)
  qed
next
  case (interrupt evs calls st i m st1 cs st' i' cb)
  show ?case
  proof (cases m)
    case True
    then show ?thesis
      using interrupt.hyps(2,3) interrupt.IH interrupt_reports[of st1 cs st' i' cb i st]
      by (simp add: reports_continue)
  next
    case False
    with interrupt show ?thesis using silent_reports[of cs st' i' cb i st1] by (simp add: reports_ok_def)
  qed
qed (auto simp: reports_ok_def)

subsection \<open>The client refines the abstract machine\<close>

text \<open>A step of another component: it makes no notable call, and the application keeps its monitor.\<close>

definition elsewhere :: "'z hub_scheme \<Rightarrow> 'z hub_scheme \<Rightarrow> bool" where
  "elsewhere s s' \<longleftrightarrow> notables s' = notables s \<and> arm_uc_hub_state s' = arm_uc_hub_state s \<and>
     init_cb_called s' = init_cb_called s \<and> ucfm_handler s' = ucfm_handler s \<and>
     (arm_uc_monitor_struct s \<noteq> None \<longrightarrow> arm_uc_monitor_struct s' \<noteq> None)"

text \<open>
  A run of the client: the hub's handlers are called with any event at any time, the client is
  initialized and uninitialized, and the other components run in between.
\<close>

inductive hub_run :: "nat \<Rightarrow> hub_platform \<Rightarrow> (uc_fn \<times> u32) list \<Rightarrow> hub \<Rightarrow> bool" for n h where
  boot: "\<lbrakk>arm_uc_hub_state s = ARM_UC_HUB_STATE_UNINITIALIZED; \<not> init_cb_called s; ucfm_handler s = None;
      notables s = []\<rbrakk> \<Longrightarrow> hub_run n h [] s"
| handler: "\<lbrakk>hub_run n h evs s; hub_call n h f e s = Some s'\<rbrakk> \<Longrightarrow> hub_run n h (evs @ [(f, e)]) s'"
| scheduler_error: "\<lbrakk>hub_run n h evs s; UC_HUB_scheduler_error_handler n h e s = Some s'\<rbrakk> \<Longrightarrow> hub_run n h evs s'"
| initialize: "\<lbrakk>hub_run n h evs s; ARM_UC_HUB_Initialize n h cb s = Some (r, s')\<rbrakk> \<Longrightarrow> hub_run n h evs s'"
| uninitialize: "\<lbrakk>hub_run n h evs s; ARM_UC_HUB_Uninitialize n h s = Some (r, s')\<rbrakk> \<Longrightarrow> hub_run n h evs s'"
| elsewhere: "\<lbrakk>hub_run n h evs s; elsewhere s s'\<rbrakk> \<Longrightarrow> hub_run n h evs s'"

definition own_handler :: "'z hub_scheme \<Rightarrow> bool" where
  "own_handler s \<longleftrightarrow> ucfm_handler s \<in> {None, Some Fn_ARM_UC_HUB_FirmwareManagerEventHandler}"

definition spec_of :: "(uc_fn \<times> u32) list \<Rightarrow> 'z hub_scheme \<Rightarrow> bool" where
  "spec_of evs s \<longleftrightarrow> own_handler s \<and>
     spec_run evs (notables s) (arm_uc_hub_state s) (init_cb_called s) (arm_uc_monitor_struct s \<noteq> None)"

text \<open>Initialization and the end of it.\<close>

definition still :: "'z hub_scheme \<Rightarrow> 'z hub_scheme \<Rightarrow> bool" where
  "still s s' \<longleftrightarrow> notables s' = notables s \<and> init_cb_called s' = init_cb_called s \<and>
     arm_uc_monitor_struct s' = arm_uc_monitor_struct s \<and>
     (ucfm_handler s' = ucfm_handler s \<or> ucfm_handler s' = Some Fn_ARM_UC_HUB_FirmwareManagerEventHandler)"

lemma still_refl [simp]: "still s s"
  by (simp add: still_def)

lemma still_trans [trans]: "\<lbrakk>still s s'; still s' s''\<rbrakk> \<Longrightarrow> still s s''"
  by (auto simp: still_def)

lemma quiet_still: "quiet s s' \<Longrightarrow> still s s' \<and> arm_uc_hub_state s' = arm_uc_hub_state s"
  using hub_more[of s' s] by (auto simp: quiet_def still_def)

lemma set_state_stays:
  assumes "ARM_UC_HUB_setState n h st s = Some s'"
    and "st \<in> {ARM_UC_HUB_STATE_UNINITIALIZED, ARM_UC_HUB_STATE_INITIALIZING}"
  shows "s' = s\<lparr>arm_uc_hub_state := st\<rparr>"
  using assms by (cases n) (auto simp: hub_case_def)

lemma still_state [simp]: "still s (s'\<lparr>arm_uc_hub_state := st\<rparr>) = still s s'"
  by (simp add: still_def notables_def)

lemma quiet_uninit: "quiet s (uninit_loop w i n s)"
proof (induction n arbitrary: i s)
  case (Suc n)
  show ?case
  proof (cases "source_registry s ! i")
    case None
    with Suc show ?thesis by simp
  next
    case (Some src)
    let ?s1 = "snd (ext w (SRC_Uninitialize src) s)"
    let ?s2 = "?s1\<lparr>source_registry := (source_registry ?s1)[i := None]\<rparr>"
    have "quiet s ?s1" by (rule quiet_ext) simp
    also have "quiet ?s1 ?s2" by (simp add: quiet_def notables_def)
    also have "quiet ?s2 (uninit_loop w (Suc i) n ?s2)" by (rule Suc.IH)
    finally show ?thesis using Some by (simp add: case_prod_unfold Let_def)
  qed
qed simp

lemma quiet_add_source: "quiet s (snd (ARM_UCSM_AddSource w src s))"
proof -
  have "quiet s (snd (ARM_UCSM_SourceRegistryAdd src (snd (ext w (SRC_Initialize src) s))))"
    by (rule quiet_trans[OF quiet_ext[of "SRC_Initialize src"]])
      (simp_all add: ARM_UCSM_SourceRegistryAdd_def ARM_UCSM_SetError_def quiet_def notables_def Let_def)
  then show ?thesis by (simp add: ARM_UCSM_AddSource_def case_prod_unfold Let_def)
qed

lemma quiet_add_sources: "quiet s (add_sources w xs s)"
  by (induction xs arbitrary: s) (auto intro: quiet_trans[OF quiet_add_source])

lemma still_inits:
  "still s (ARM_UC_SchedulerInit s) \<and> arm_uc_hub_state (ARM_UC_SchedulerInit s) = arm_uc_hub_state s"
  "still s (snd (ARM_UCFM_Initialize pl (Some FM) s)) \<and>
     arm_uc_hub_state (snd (ARM_UCFM_Initialize pl (Some FM) s)) = arm_uc_hub_state s"
  "still s (snd (ARM_UC_mmInit ctx f s)) \<and> arm_uc_hub_state (snd (ARM_UC_mmInit ctx f s)) = arm_uc_hub_state s"
proof -
  show "still s (ARM_UC_SchedulerInit s) \<and> arm_uc_hub_state (ARM_UC_SchedulerInit s) = arm_uc_hub_state s"
    using SchedulerInit_shape[of s] by (auto simp: still_def notables_def)
  have "quiet s (snd (ARM_UCP_Initialize (env pl) s))"
    by (auto simp: ARM_UCP_Initialize_def split: prod.splits dest!: quiet_paal[rotated])
  from quiet_still[OF this] show "still s (snd (ARM_UCFM_Initialize pl (Some FM) s)) \<and>
     arm_uc_hub_state (snd (ARM_UCFM_Initialize pl (Some FM) s)) = arm_uc_hub_state s"
    by (auto simp: ARM_UCFM_Initialize_def still_def notables_def case_prod_unfold Let_def)
  have "quiet s (snd (ARM_UC_mmInit ctx f s))"
    by (auto simp: ARM_UC_mmInit_def Let_def intro!: quiet_trans[OF _ quiet_post])
      (simp add: quiet_def init_storage_def set_elem_def notables_def)
  from quiet_still[OF this] show "still s (snd (ARM_UC_mmInit ctx f s)) \<and>
      arm_uc_hub_state (snd (ARM_UC_mmInit ctx f s)) = arm_uc_hub_state s" .
qed

lemma init_error_still:
  assumes "HANDLE_INIT_ERROR n h x k = Some (r, s')" and "still s (snd x)"
    and "k (snd x) = Some (r, s') \<Longrightarrow> still s s' \<and> arm_uc_hub_state s' \<in> sts"
    and "ARM_UC_HUB_STATE_UNINITIALIZED \<in> sts"
  shows "still s s' \<and> arm_uc_hub_state s' \<in> sts"
  using assms by (auto simp: HANDLE_INIT_ERROR_def case_prod_unfold split: if_splits dest!: set_state_stays)

lemma initialize_still:
  assumes "ARM_UC_HUB_Initialize n h cb s = Some (r, s')"
  shows "s' = s \<or> (arm_uc_hub_state s = ARM_UC_HUB_STATE_UNINITIALIZED \<and> still s s' \<and>
     arm_uc_hub_state s' \<in> {ARM_UC_HUB_STATE_UNINITIALIZED, ARM_UC_HUB_STATE_INITIALIZING})"
proof (cases "arm_uc_hub_state s = ARM_UC_HUB_STATE_UNINITIALIZED")
  case False
  then show ?thesis using assms by (simp add: ARM_UC_HUB_Initialize_def ARM_UC_HUB_getState_def)
next
  case True
  let ?S = "{ARM_UC_HUB_STATE_UNINITIALIZED, ARM_UC_HUB_STATE_INITIALIZING}"
  let ?ok = "\<lambda>s1. still s s1 \<and> arm_uc_hub_state s1 = ARM_UC_HUB_STATE_INITIALIZING"
  let ?E = "env (plat h)"
  have sched: "?ok x \<Longrightarrow> ?ok (ARM_UC_SchedulerInit x)" for x using still_inits(1)[of x] still_trans by auto
  have fm: "?ok x \<Longrightarrow> ?ok (snd (ARM_UCFM_Initialize (plat h) (Some FM) x))" for x
    using still_inits(2)[of x "plat h"] still_trans by auto
  have mm: "?ok x \<Longrightarrow> ?ok (snd (ARM_UC_mmInit True (Some MM) x))" for x
    using still_inits(3)[of x True "Some MM"] still_trans by auto
  have add: "?ok x \<Longrightarrow> ?ok (add_sources ?E xs x)" for x xs
    using quiet_still[OF quiet_add_sources[of x ?E xs]] still_trans by auto
  have cc: "?ok x \<Longrightarrow> ?ok (snd (ARM_UC_ControlCenter_Initialize (Some CC) x))" for x
    by (simp add: ARM_UC_ControlCenter_Initialize_def still_def notables_def)
  have sm: "?ok x \<Longrightarrow> ?ok (snd (ARM_UCSM_Initialize (Some SM) x))" for x
    by (simp add: ARM_UCSM_Initialize_def ARM_UCSM_SourceRegistryInit_def still_def notables_def)
  have cfg: "?ok x \<Longrightarrow> ?ok (ARM_UC_SetSchedulerErrorHandler e (ARM_UC_HUB_setInitializationCallback cb x))" for x e
    by (simp add: ARM_UC_SetSchedulerErrorHandler_def ARM_UC_HUB_setInitializationCallback_def still_def notables_def)
  obtain s1 where s1: "ARM_UC_HUB_setState n h ARM_UC_HUB_STATE_INITIALIZING s = Some s1"
    using assms True by (auto simp: ARM_UC_HUB_Initialize_def ARM_UC_HUB_getState_def bind_eq_Some_conv)
  then have "?ok s1" using set_state_stays[OF s1] by simp
  let ?s2 = "ARM_UC_SetSchedulerErrorHandler (Some Fn_UC_HUB_scheduler_error_handler)
      (ARM_UC_HUB_setInitializationCallback cb (ARM_UC_SchedulerInit s1))"
  have s2: "?ok ?s2" by (rule cfg[OF sched[OF \<open>?ok s1\<close>]])
  have "HANDLE_INIT_ERROR n h (ARM_UC_ControlCenter_Initialize (Some CC) ?s2) (\<lambda>s.
        HANDLE_INIT_ERROR n h (ARM_UCFM_Initialize (plat h) (Some FM) s) (\<lambda>s.
        HANDLE_INIT_ERROR n h (ARM_UCSM_Initialize (Some SM) s) (\<lambda>s.
        let s = add_sources ?E (arm_uc_sources s) s in
        HANDLE_INIT_ERROR n h (ARM_UC_mmInit True (Some MM) s) (\<lambda>s. Some (ERR_NONE, s))))) = Some (r, s')"
    using assms True s1 by (simp add: ARM_UC_HUB_Initialize_def ARM_UC_HUB_getState_def Let_def)
  then have "still s s' \<and> arm_uc_hub_state s' \<in> ?S"
  proof (rule init_error_still)
    let ?s3 = "snd (ARM_UC_ControlCenter_Initialize (Some CC) ?s2)"
    have s3: "?ok ?s3" by (rule cc[OF s2])
    then show "still s ?s3" by simp
    let ?s4 = "snd (ARM_UCFM_Initialize (plat h) (Some FM) ?s3)"
    have s4: "?ok ?s4" by (rule fm[OF s3])
    let ?s5 = "snd (ARM_UCSM_Initialize (Some SM) ?s4)"
    have s5: "?ok ?s5" by (rule sm[OF s4])
    let ?s6 = "add_sources ?E (arm_uc_sources ?s5) ?s5"
    have s6: "?ok ?s6" by (rule add[OF s5])
    have s7: "?ok (snd (ARM_UC_mmInit True (Some MM) ?s6))" by (rule mm[OF s6])
    assume "HANDLE_INIT_ERROR n h (ARM_UCFM_Initialize (plat h) (Some FM) ?s3) (\<lambda>s.
        HANDLE_INIT_ERROR n h (ARM_UCSM_Initialize (Some SM) s) (\<lambda>s.
        let s = add_sources ?E (arm_uc_sources s) s in
        HANDLE_INIT_ERROR n h (ARM_UC_mmInit True (Some MM) s) (\<lambda>s. Some (ERR_NONE, s)))) = Some (r, s')"
    then show "still s s' \<and> arm_uc_hub_state s' \<in> ?S"
    proof (rule init_error_still)
      show "still s ?s4" using s4 by simp
      assume "HANDLE_INIT_ERROR n h (ARM_UCSM_Initialize (Some SM) ?s4) (\<lambda>s.
          let s = add_sources ?E (arm_uc_sources s) s in
          HANDLE_INIT_ERROR n h (ARM_UC_mmInit True (Some MM) s) (\<lambda>s. Some (ERR_NONE, s))) = Some (r, s')"
      then show "still s s' \<and> arm_uc_hub_state s' \<in> ?S"
      proof (rule init_error_still)
        show "still s ?s5" using s5 by simp
        assume "(let s = add_sources ?E (arm_uc_sources ?s5) ?s5 in
            HANDLE_INIT_ERROR n h (ARM_UC_mmInit True (Some MM) s) (\<lambda>s. Some (ERR_NONE, s))) = Some (r, s')"
        then show "still s s' \<and> arm_uc_hub_state s' \<in> ?S"
          unfolding Let_def by (rule init_error_still) (use s7 in auto)
      qed simp
    qed simp
  qed simp
  with True show ?thesis by simp
qed

lemma uninitialize_effect:
  assumes "ARM_UC_HUB_Uninitialize n h s = Some (r, s')"
  shows "s' = s \<or> (quiet s (s'\<lparr>arm_uc_hub_state := arm_uc_hub_state s\<rparr>) \<and>
     arm_uc_hub_state s' = ARM_UC_HUB_STATE_UNINITIALIZED)"
proof (cases "ARM_UC_HUB_getState s \<le> ARM_UC_HUB_STATE_INITIALIZED")
  case False
  let ?s1 = "uninit_loop (env (plat h)) 0 MAX_SOURCES s"
  have "s' = ?s1\<lparr>arm_uc_hub_state := ARM_UC_HUB_STATE_UNINITIALIZED\<rparr>"
    using assms False set_state_stays[of n h ARM_UC_HUB_STATE_UNINITIALIZED ?s1]
    by (auto simp: ARM_UC_HUB_Uninitialize_def ARM_UCSM_Uninitialize_def bind_eq_Some_conv)
  moreover have q: "quiet s ?s1" by (rule quiet_uninit)
  have "arm_uc_hub_state ?s1 = arm_uc_hub_state s" using quiet_still[OF q] by simp
  then have "?s1\<lparr>arm_uc_hub_state := arm_uc_hub_state s\<rparr> = ?s1" by (cases ?s1) simp
  ultimately show ?thesis using q by simp
qed (use assms in \<open>simp add: ARM_UC_HUB_Uninitialize_def\<close>)

text \<open>What a call of a handler does to what the abstract machine sees.\<close>

lemma handled_spec:
  assumes "handled n h sts s s'" and "own_handler s"
  shows "own_handler s' \<and> arm_uc_monitor_struct s' = arm_uc_monitor_struct s \<and>
    (elsewhere s s' \<or> (\<exists>st\<in>sts. \<exists>cs cb. notables s' = notables s @ cs \<and> (cs, arm_uc_hub_state s', init_cb_called s') \<in>
       entered (arm_uc_monitor_struct s \<noteq> None) cb (init_cb_called s) st))"
proof -
  consider "quiet s s'" | st s1 s2 where "st \<in> sts" "quiet s s1" "ARM_UC_HUB_setState n h st s1 = Some s2" "quiet s2 s'"
    using assms(1) by (auto simp: handled_def)
  then show ?thesis
  proof cases
    case 1
    with assms(2) quiet_still[OF 1] show ?thesis by (auto simp: elsewhere_def quiet_def still_def own_handler_def)
  next
    case 2
    have o: "ucfm_handler s1 \<in> {None, Some FM}" using assms(2) 2(2) by (simp add: own_handler_def quiet_def)
    obtain cs where cs: "(cs, arm_uc_hub_state s2, init_cb_called s2) \<in>
        entered (arm_uc_monitor_struct s1 \<noteq> None) (arm_uc_hub_init_cb s1) (init_cb_called s1) st"
      "notables s2 = notables s1 @ cs" "arm_uc_monitor_struct s2 = arm_uc_monitor_struct s1"
      "ucfm_handler s2 = ucfm_handler s1"
      using state_change[OF 2(3) o] by blast
    have f: "arm_uc_monitor_struct s1 = arm_uc_monitor_struct s" "notables s1 = notables s"
      "init_cb_called s1 = init_cb_called s" "ucfm_handler s1 = ucfm_handler s"
      "arm_uc_monitor_struct s' = arm_uc_monitor_struct s2" "notables s' = notables s2"
      "init_cb_called s' = init_cb_called s2" "ucfm_handler s' = ucfm_handler s2"
      "arm_uc_hub_state s' = arm_uc_hub_state s2"
      using 2(2,4) quiet_still[OF 2(2)] quiet_still[OF 2(4)] by (simp_all add: quiet_def still_def)
    show ?thesis using cs 2(1) assms(2) unfolding own_handler_def by (simp add: f) blast
  qed
qed

lemma spec_handled:
  assumes "spec_of evs s" and "handled n h (follows (arm_uc_hub_state s) ev \<union> interrupts) s s'"
  shows "spec_of (evs @ [ev]) s'"
proof -
  have o: "own_handler s" and sp: "spec_run evs (notables s) (arm_uc_hub_state s) (init_cb_called s)
      (arm_uc_monitor_struct s \<noteq> None)"
    using assms(1) by (simp_all add: spec_of_def)
  note e = handled_spec[OF assms(2) o]
  show ?thesis
  proof (cases "elsewhere s s'")
    case True
    with e spec_run.ignored[OF sp, of ev] show ?thesis by (simp add: spec_of_def elsewhere_def)
  next
    case False
    with e obtain st cs cb where st: "st \<in> follows (arm_uc_hub_state s) ev \<union> interrupts"
      and cs: "notables s' = notables s @ cs" "(cs, arm_uc_hub_state s', init_cb_called s') \<in>
       entered (arm_uc_monitor_struct s \<noteq> None) cb (init_cb_called s) st" by blast
    have "spec_run (evs @ [ev]) (notables s @ cs) (arm_uc_hub_state s') (init_cb_called s') (arm_uc_monitor_struct s \<noteq> None)"
      using st spec_run.event[OF sp _ cs(2)] spec_run.interrupt[OF spec_run.ignored[OF sp] _ cs(2)] by blast
    with e cs(1) show ?thesis by (simp add: spec_of_def)
  qed
qed

lemma spec_interrupted:
  assumes "spec_of evs s" and "handled n h interrupts s s'"
  shows "spec_of evs s'"
proof -
  have o: "own_handler s" and sp: "spec_run evs (notables s) (arm_uc_hub_state s) (init_cb_called s)
      (arm_uc_monitor_struct s \<noteq> None)"
    using assms(1) by (simp_all add: spec_of_def)
  note e = handled_spec[OF assms(2) o]
  show ?thesis
  proof (cases "elsewhere s s'")
    case True
    with e sp show ?thesis by (simp add: spec_of_def elsewhere_def)
  next
    case False
    with e obtain st cs cb where "st \<in> interrupts"
      and cs: "notables s' = notables s @ cs" "(cs, arm_uc_hub_state s', init_cb_called s') \<in>
       entered (arm_uc_monitor_struct s \<noteq> None) cb (init_cb_called s) st" by blast
    from spec_run.interrupt[OF sp this(1) cs(2)] e cs(1) show ?thesis by (simp add: spec_of_def)
  qed
qed

lemma spec_elsewhere: "spec_of evs s \<Longrightarrow> elsewhere s s' \<Longrightarrow> spec_of evs s'"
  using spec_run.monitor[of evs "notables s" "arm_uc_hub_state s" "init_cb_called s" "arm_uc_monitor_struct s \<noteq> None"]
  by (cases "arm_uc_monitor_struct s"; cases "arm_uc_monitor_struct s'") (auto simp: spec_of_def elsewhere_def own_handler_def)

lemma hub_run_spec: "hub_run n h evs s \<Longrightarrow> spec_of evs s"
proof (induction rule: hub_run.induct)
  case (boot s)
  then show ?case using spec_run.boot by (simp add: spec_of_def own_handler_def)
next
  case (handler evs s f e s')
  then show ?case using spec_handled hub_call_handled by blast
next
  case (scheduler_error evs s e s')
  then show ?case using spec_interrupted handled_error[OF _ order_refl]
    unfolding UC_HUB_scheduler_error_handler_def by blast
next
  case (initialize evs s cb r s')
  from initialize_still[OF initialize.hyps(2)] show ?case
  proof
    assume "s' = s"
    with initialize.IH show ?thesis by simp
  next
    assume a: "arm_uc_hub_state s = ARM_UC_HUB_STATE_UNINITIALIZED \<and> still s s' \<and>
     arm_uc_hub_state s' \<in> {ARM_UC_HUB_STATE_UNINITIALIZED, ARM_UC_HUB_STATE_INITIALIZING}"
    with initialize.IH spec_run.initialize[of evs "notables s" "init_cb_called s"] show ?thesis
      by (auto simp: spec_of_def still_def own_handler_def)
  qed
next
  case (uninitialize evs s r s')
  from uninitialize_effect[OF uninitialize.hyps(2)] show ?case
  proof
    assume a: "quiet s (s'\<lparr>arm_uc_hub_state := arm_uc_hub_state s\<rparr>) \<and>
     arm_uc_hub_state s' = ARM_UC_HUB_STATE_UNINITIALIZED"
    then have f: "notables s' = notables s" "init_cb_called s' = init_cb_called s"
      "arm_uc_monitor_struct s' = arm_uc_monitor_struct s" "ucfm_handler s' = ucfm_handler s"
      using quiet_still[of s "s'\<lparr>arm_uc_hub_state := arm_uc_hub_state s\<rparr>"]
      by (auto simp: still_def quiet_def notables_def)
    have "ARM_UC_HUB_STATE_UNINITIALIZED \<in> interrupts" by (simp add: interrupts_def)
    from spec_run.interrupt[OF _ this, of evs "notables s" "arm_uc_hub_state s" "init_cb_called s"
        "arm_uc_monitor_struct s \<noteq> None" "[]" ARM_UC_HUB_STATE_UNINITIALIZED "init_cb_called s" None]
    show ?thesis using uninitialize.IH a f by (simp add: spec_of_def own_handler_def)
  qed (use uninitialize.IH in simp)
next
  case (elsewhere evs s s')
  then show ?case using spec_elsewhere by blast
qed

subsection \<open>The scheduler runs the client\<close>

text \<open>A step of the program that, for the hub, is a run of some events.\<close>

definition via :: "nat \<Rightarrow> hub_platform \<Rightarrow> hub \<Rightarrow> hub \<Rightarrow> bool" where
  "via n h s s' \<longleftrightarrow> (\<exists>evs'. \<forall>evs. hub_run n h evs s \<longrightarrow> hub_run n h (evs @ evs') s')"

lemma via_refl [simp]: "via n h s s"
  unfolding via_def by (rule exI[of _ "[]"]) simp

lemma via_trans [trans]:
  assumes "via n h s s'" and "via n h s' s''"
  shows "via n h s s''"
proof -
  obtain a b where "\<forall>evs. hub_run n h evs s \<longrightarrow> hub_run n h (evs @ a) s'"
    "\<forall>evs. hub_run n h evs s' \<longrightarrow> hub_run n h (evs @ b) s''"
    using assms unfolding via_def by blast
  then have "\<forall>evs. hub_run n h evs s \<longrightarrow> hub_run n h (evs @ (a @ b)) s''" by (metis append.assoc)
  then show ?thesis unfolding via_def by blast
qed

lemma via_elsewhere: "elsewhere s s' \<Longrightarrow> via n h s s'"
  unfolding via_def by (rule exI[of _ "[]"]) (simp add: hub_run.elsewhere)

lemma quiet_elsewhere: "quiet s s' \<Longrightarrow> elsewhere s s'"
  using quiet_still[of s s'] by (simp add: elsewhere_def quiet_def still_def)

lemma via_quiet: "quiet s s' \<Longrightarrow> via n h s s'"
  by (simp add: via_elsewhere quiet_elsewhere)

lemma via_call: "hub_call n h f e s = Some s' \<Longrightarrow> via n h s s'"
  unfolding via_def by (rule exI[of _ "[(f, e)]"]) (simp add: hub_run.handler)

lemma via_update [simp]:
  "via n h s (s'\<lparr>package_hash := ph\<rparr>) = via n h s s'" 
  "via n h s (s'\<lparr>front_buffer := fb, back_buffer := bb\<rparr>) = via n h s s'"
  "via n h s (s'\<lparr>arm_uc_authority_callback := ac\<rparr>) = via n h s s'"
  "via n h s (s'\<lparr>mdHandle := md\<rparr>) = via n h s s'"
proof -
  have "via n h s x \<longleftrightarrow> via n h s s'" if "quiet s' x" "quiet x s'" for x
    using that via_quiet via_trans by blast
  moreover have "quiet s' (s'\<lparr>package_hash := ph\<rparr>)" "quiet (s'\<lparr>package_hash := ph\<rparr>) s'"
    "quiet s' (s'\<lparr>front_buffer := fb, back_buffer := bb\<rparr>)" "quiet (s'\<lparr>front_buffer := fb, back_buffer := bb\<rparr>) s'"
    "quiet s' (s'\<lparr>mdHandle := md\<rparr>)" "quiet (s'\<lparr>mdHandle := md\<rparr>) s'"
    "quiet s' (s'\<lparr>arm_uc_authority_callback := ac\<rparr>)" "quiet (s'\<lparr>arm_uc_authority_callback := ac\<rparr>) s'"
    by (simp_all add: quiet_def notables_def)
  ultimately show "via n h s (s'\<lparr>package_hash := ph\<rparr>) = via n h s s'" 
    "via n h s (s'\<lparr>front_buffer := fb, back_buffer := bb\<rparr>) = via n h s s'"
    "via n h s (s'\<lparr>arm_uc_authority_callback := ac\<rparr>) = via n h s s'"
    "via n h s (s'\<lparr>mdHandle := md\<rparr>) = via n h s s'" by blast+
qed

lemma via_signal:
  "arm_uc_signal_ucfm_handler (hub_call n h) e x = Some s' \<Longrightarrow> quiet s x \<Longrightarrow> via n h s s'"
  by (auto simp: arm_uc_signal_ucfm_handler_def split: option.splits intro: via_quiet via_trans[OF via_quiet via_call])

subsubsection \<open>The tasks of the components\<close>

lemma quiet_read: "ARM_UCP_Read w l off b s = Some (r, s') \<Longrightarrow> quiet s s'"
  by (auto simp: ARM_UCP_Read_def bind_eq_Some_conv split: option.splits prod.splits dest!: quiet_paal[rotated]
      intro!: quiet_trans[OF _ quiet_updates(12)])

lemma quiet_read_back:
  assumes "read_back_buffer pl s = Some (r, s')"
  shows "quiet s s'"
proof -
  obtain w l off b bf where "ARM_UCP_Read w l off (Some b) (set_buf b bf s) = Some (r, s')"
    using assms by (auto simp: read_back_buffer_def bind_eq_Some_conv Let_def)
  then have "quiet (set_buf b bf s) s'" by (rule quiet_read)
  with quiet_updates(12) show ?thesis by (rule quiet_trans)
qed

lemma via_finish:
  assumes "finish_hash pl (hub_call n h) s = Some (r, e, s')"
  shows "via n h s s'"
  using assms by (auto simp: finish_hash_def bind_eq_Some_conv split: if_splits intro: via_signal[OF _ quiet_refl])

lemma via_from [simp]:
  "via n h (s\<lparr>mdHandle := md\<rparr>) s' = via n h s s'" "via n h (s\<lparr>package_offset := po\<rparr>) s' = via n h s s'"
  "via n h (set_buf b bf s) s' = via n h s s'"
proof -
  have "via n h x s' \<longleftrightarrow> via n h s s'" if "quiet s x" "quiet x s" for x
    using that via_quiet via_trans by blast
  moreover have "quiet s (s\<lparr>mdHandle := md\<rparr>)" "quiet (s\<lparr>mdHandle := md\<rparr>) s" "quiet s (s\<lparr>package_offset := po\<rparr>)"
    "quiet (s\<lparr>package_offset := po\<rparr>) s" "quiet (set_buf b bf s) s"
    by (simp_all add: quiet_def set_buf_def notables_def)
  ultimately show "via n h (s\<lparr>mdHandle := md\<rparr>) s' = via n h s s'"
    "via n h (s\<lparr>package_offset := po\<rparr>) s' = via n h s s'" "via n h (set_buf b bf s) s' = via n h s s'"
    using quiet_updates(12) by blast+
qed

lemma via_signalled: "arm_uc_signal_ucfm_handler (hub_call n h) e s = Some s' \<Longrightarrow> via n h s s'"
  by (rule via_signal[OF _ quiet_refl])

lemmas via_steps = quiet_read_back[THEN via_quiet] quiet_read[THEN via_quiet] via_finish via_signalled

lemma via_process_hash:
  assumes "arm_uc_internal_process_hash pl (hub_call n h) s = Some s'"
  shows "via n h s s'"
proof -
  let ?double = "front_buffer s \<noteq> back_buffer s"
  obtain cfg where c: "configuration_of s = Some cfg"
    using assms by (auto simp: arm_uc_internal_process_hash_def bind_eq_Some_conv Let_def)
  let ?more = "package_offset s < package_size cfg"
  let ?hash = "\<lambda>status s. if err_error status = 0 then do {
          (_, md) \<leftarrow> ARM_UC_cryptoHashUpdate (crypto pl) (Some (mdHandle s)) (map_option (mem s) (front_buffer s));
          h' \<leftarrow> md;
          let s = s\<lparr>mdHandle := h'\<rparr>;
          (status, error_event, s) \<leftarrow>
            (if ?more then do {
               (status, s) \<leftarrow> (if \<not> ?double then read_back_buffer pl s else Some (status, s));
               Some (status, UCFM_EVENT_FINALIZE_ERROR, s) }
             else finish_hash pl (hub_call n h) s);
          Some (status, error_event, s\<lparr>front_buffer := back_buffer s, back_buffer := front_buffer s\<rparr>)
        }
        else Some (status, UCFM_EVENT_FINALIZE_ERROR, s)"
  have hash: "via n h x y" if "?hash st x = Some (st', e, y)" for st x st' e y
    using that by (auto simp: bind_eq_Some_conv Let_def split: if_split_asm dest!: via_steps)
  obtain st1 x1 st2 e x2 where
    1: "(if ?double \<and> ?more then read_back_buffer pl s else Some (ERR_NONE, s)) = Some (st1, x1)" and
    2: "?hash st1 x1 = Some (st2, e, x2)" and
    3: "(if err_error st2 \<noteq> 0 then arm_uc_signal_ucfm_handler (hub_call n h) e x2 else Some x2) = Some s'"
    using assms c unfolding arm_uc_internal_process_hash_def Let_def by (auto simp: bind_eq_Some_conv simp del: split_paired_Ex)
  have "via n h s x1" using 1 by (auto split: if_splits dest: via_steps)
  also have "via n h x1 x2" by (rule hash[OF 2])
  also have "via n h x2 s'" using 3 by (auto split: if_splits dest: via_steps)
  finally show ?thesis .
qed

lemma via_internal:
  assumes "arm_uc_internal_event_handler pl (hub_call n h) e s = Some s'"
  shows "via n h s s'"
proof -
  have f: "via n h s s'" if "event_handler_finalize pl (hub_call n h) s = Some s'"
  proof -
    have rd: "via n h s y" if "ARM_UCP_Read w l off b (set_buf a bf (s\<lparr>mdHandle := md, package_offset := po\<rparr>)) = Some (r, x)"
      "via n h x y" for w l off b a bf md po r x y
      using via_trans[OF via_quiet[OF quiet_read[OF that(1)]] that(2)] by simp
    from that show ?thesis
      by (auto simp: event_handler_finalize_def bind_eq_Some_conv Let_def case_prod_unfold split: if_split_asm
          dest!: via_signalled intro: rd rd[OF _ via_refl])
  qed
  have r: "via n h s s'" if "event_handler_read pl (hub_call n h) s = Some s'"
    using that by (auto simp: event_handler_read_def bind_eq_Some_conv Let_def split: if_split_asm
        dest!: via_signalled via_process_hash)
  show ?thesis
    using assms f r via_signalled unfolding arm_uc_internal_event_handler_def by (auto split: if_split_asm)
qed


lemma quiet_retry: "ARM_UCSM_DoAsyncBusyRetryGet w s = Some s' \<Longrightarrow> quiet s s'"
proof -
  assume a: "ARM_UCSM_DoAsyncBusyRetryGet w s = Some s'"
  let ?s1 = "s\<lparr>num_busy_retries := num_busy_retries s + 1\<rparr>"
  have q: "quiet s ?s1" by simp
  show "quiet s s'"
  proof (cases "num_busy_retries ?s1 > MAX_BUSY_RETRIES")
    case True
    let ?s2 = "ARM_UCSM_SetError SOMA_ERR_UNSPECIFIED (ARM_UCSM_RequestStructInit (s\<lparr>num_busy_retries := 0\<rparr>))"
    have "quiet s ?s2"
      by (simp add: ARM_UCSM_SetError_def ARM_UCSM_RequestStructInit_def quiet_def notables_def)
    also have "quiet ?s2 s'"
      using a True by (auto simp: ARM_UCSM_DoAsyncBusyRetryGet_def Let_def ARM_UCSM_SetError_def ARM_UCSM_RequestStructInit_def)
    finally show ?thesis .
  next
    case False
    then obtain r s2 where g: "ARM_UCSM_Get w ?s1 = Some (r, s2)"
      and s': "s' = (if err_error r \<noteq> 0 then ARM_UCSM_ScheduleAsyncBusyRetryGet w s2 else s2)"
      using a by (auto simp: ARM_UCSM_DoAsyncBusyRetryGet_def Let_def bind_eq_Some_conv)
    have "quiet s s2" using q quiet_get[OF g] by (rule quiet_trans)
    also have "quiet s2 s'" by (simp add: s' quiet_schedule)
    finally show ?thesis .
  qed
qed

lemma quiet_mm_round: "mm_round w e s = Some (r, s') \<Longrightarrow> quiet s s'"
proof -
  have set: "quiet s (s'\<lparr>mm_state := st\<rparr>) = quiet s s'" for s s' :: "'z hub_scheme" and st
    by (simp add: quiet_def notables_def)
  have fin: "quiet s y" if "mm_finish err x = (r, y)" "quiet s x" for s x y :: "'z hub_scheme" and err r
    using that by (auto simp: mm_finish_def ARM_UC_mmSetState_def set split: if_splits intro!: quiet_trans[OF _ quiet_post])
  have ins: "quiet s y" if "ARM_UC_mmInsertFSM w e s = Some (r, y)" for s y :: "'z hub_scheme" and r
    using that by (auto simp: ARM_UC_mmInsertFSM_def case_prod_unfold Let_def quiet_ext)
  have fw: "quiet s y" if "ARM_UC_mmFetchFirmwareInfoFSM w e s = Some (r, y)" for s y :: "'z hub_scheme" and r
    using that quiet_ext[of "MM_FetchFirmwareInfoFSM e" s w]
    by (auto simp: ARM_UC_mmFetchFirmwareInfoFSM_def case_prod_unfold Let_def bind_eq_Some_conv
        intro!: quiet_trans[OF _ quiet_post] quiet_trans[OF _ quiet_updates(12)])
  assume "mm_round w e s = Some (r, s')"
  then show "quiet s s'"
    by (auto simp: mm_round_def split: arm_uc_mmState_t.splits dest: ins fw intro: fin)
qed

lemma quiet_mmFSM: "ARM_UC_mmFSM w e s = Some (r, s') \<Longrightarrow> quiet s s'"
proof (induction w e s rule: ARM_UC_mmFSM.induct)
  case (1 w e s)
  then show ?case
    by (subst (asm) (2) ARM_UC_mmFSM.simps) (auto split: option.splits if_splits dest!: quiet_mm_round intro: quiet_trans)
qed

lemma via_task:
  assumes "hub_task n h f ctx param s = Some s'"
  shows "via n h s s'"
proof -
  have cc: "via n h s s'" if "arm_uccc_override_task (hub_call n h) s = Some s'"
  proof -
    have "via n h s y" if "hub_call n h g e (s\<lparr>arm_uc_download_token_armed := b\<rparr>) = Some y" for g e b y
      using via_call[OF that] via_trans via_quiet[OF quiet_updates(6)] by blast
    moreover have "via n h s y" if "hub_call n h g e (s\<lparr>arm_uc_install_token_armed := b\<rparr>) = Some y" for g e b y
      using via_call[OF that] via_trans via_quiet[OF quiet_updates(7)] by blast
    ultimately show ?thesis using that
      by (auto simp: arm_uccc_override_task_def bind_eq_Some_conv Let_def via_quiet split: if_splits option.splits)
  qed
  have mm: "via n h s s'" if m: "ARM_UC_mmCallbackFSMEntry w (hub_call n h) e s = Some s'" for w e
  proof -
    obtain err s1 where 1: "ARM_UC_mmFSM w e s = Some (err, s1)"
      and 2: "s' = s1 \<or> (\<exists>g c. hub_call n h g c (s1\<lparr>reportedError := err\<rparr>) = Some s')"
      using m by (auto simp: ARM_UC_mmCallbackFSMEntry_def bind_eq_Some_conv split: if_splits)
    have "quiet s1 (s1\<lparr>reportedError := err\<rparr>)" by (simp add: quiet_def notables_def)
    with 2 have "via n h s1 s'" using via_call via_quiet via_trans via_refl by blast
    with via_quiet[OF quiet_mmFSM[OF 1]] show ?thesis by (rule via_trans)
  qed
  have err: "via n h s s'" if "UC_HUB_scheduler_error_handler n h param s = Some s'"
    unfolding via_def using that hub_run.scheduler_error by (intro exI[of _ "[]"]) auto
  show ?thesis
    using assms cc mm err via_internal[of "plat h" n h param s s'] quiet_retry[of "env (plat h)" s s', THEN via_quiet]
      via_call[of n h _ param s s']
    unfolding hub_task_def by (simp split: uc_fn.splits; blast)
qed

text \<open>The queue: taking an element out of it and clearing the flag is a step elsewhere.\<close>

lemma quiet_next: "sched_next s = Some (e, s') \<Longrightarrow> quiet s s'"
  by (auto simp: sched_next_def bind_eq_Some_conv quiet_def notables_def split: if_splits)

lemma quiet_release: "sched_release e s = (x, s') \<Longrightarrow> quiet s s'"
  by (auto simp: sched_release_def callback_pool_free_def callback_pool_insert.simps aq_atomic_cas_uintptr_def set_elem_def quiet_def notables_def Let_def
      split: prod.splits if_splits)

lemma quiet_clear: "quiet s (snd (try_clear_callbacks_pending s))"
  by (auto simp: try_clear_eq quiet_def notables_def)

lemma via_element:
  assumes "ARM_UC_ProcessSingleCallback (hub_task n h) s = Some (b, s')"
  shows "via n h s s'"
proof -
  obtain el s1 where nx: "sched_next s = Some (el, s1)"
    using assms by (auto simp: ARM_UC_ProcessSingleCallback_def ARM_UC_ProcessElement_def bind_eq_Some_conv)
  show ?thesis
  proof (cases el)
    case None
    then have "s' = snd (try_clear_callbacks_pending s1)"
      using assms nx by (simp add: ARM_UC_ProcessSingleCallback_def ARM_UC_ProcessElement_def case_prod_unfold Let_def)
    with nx show ?thesis using quiet_next quiet_clear quiet_trans via_quiet by blast
  next
    case (Some e)
    obtain cb ctx param s2 where rel: "sched_release e s1 = ((cb, ctx, param), s2)" by (metis surj_pair)
    then obtain f s3 where t: "hub_task n h f ctx param s2 = Some s3"
      and cl: "s' = snd (try_clear_callbacks_pending s3)"
      using assms nx Some
      by (auto simp: ARM_UC_ProcessSingleCallback_def ARM_UC_ProcessElement_def bind_eq_Some_conv case_prod_unfold Let_def)
    have "via n h s s1" using nx quiet_next via_quiet by blast
    also have "via n h s1 s2" using rel quiet_release via_quiet by blast
    also have "via n h s2 s3" using t by (rule via_task)
    also have "via n h s3 s'" using cl quiet_clear via_quiet by blast
    finally show ?thesis .
  qed
qed

lemma via_queue:
  assumes "ARM_UC_ProcessQueue (hub_task n h) s = Some s'"
  shows "via n h s s'"
proof -
  have "exec = hub_task n h \<longrightarrow> via n h s s'" if "ARM_UC_ProcessQueue exec s = Some s'" for exec s s'
  proof (rule ARM_UC_ProcessQueue.raw_induct[where P = "\<lambda>exec s s'. exec = hub_task n h \<longrightarrow> via n h s s'", OF _ that])
    fix Q exec s s'
    assume IH: "\<And>exec s s'. Q exec s = Some s' \<Longrightarrow> exec = hub_task n h \<longrightarrow> via n h s s'"
      and prem: "ARM_UC_ProcessSingleCallback exec s \<bind> (\<lambda>(again, s). if again then Q exec s else Some s) = Some s'"
    show "exec = hub_task n h \<longrightarrow> via n h s s'"
    proof
      assume e: "exec = hub_task n h"
      obtain again s1 where c: "ARM_UC_ProcessSingleCallback exec s = Some (again, s1)"
        and k: "(if again then Q exec s1 else Some s1) = Some s'"
        using prem by (auto simp: bind_eq_Some_conv)
      have "via n h s s1" using c via_element unfolding e by blast
      moreover have "via n h s1 s'" using k IH[of exec s1 s'] e by (cases again) auto
      ultimately show "via n h s s'" by (rule via_trans)
    qed
  qed
  with assms show ?thesis by blast
qed

lemma hub_run_events:
  assumes "hub_run n h evs s" and "ARM_UC_HUB_ProcessEvents n h s = Some (r, s')"
  shows "\<exists>evs'. hub_run n h (evs @ evs') s'"
proof -
  have "via n h s s'" using assms(2) via_queue by (auto simp: ARM_UC_HUB_ProcessEvents_def)
  with assms(1) show ?thesis by (auto simp: via_def)
qed

end
