(* ===== verification/UC_Hub_Properties.thy ===== *)
theory UC_Hub_Properties
  imports UC_Hub_System
begin

text \<open>
  The properties of the hub and of the client as a whole, with an example of a client for their
  witnesses: a platform whose parts all answer with success, and one source.
\<close>

subsection \<open>An example client\<close>

definition no_uri :: arm_uc_uri_t where
  "no_uri = \<lparr>uri_size_max = 64, uri_size = 0, uri_ptr = Some (replicate 64 0), scheme = URI_SCHEME_NONE, port = 0, host = None, path = None\<rparr>"

definition hub_static :: hub where
  "hub_static = \<lparr>elems = (\<lambda>_. zero_element), arm_uc_queue = None, callback_pool_root = None,
     callbacks_pending = 0, plugin_error_pending = 0, notification_set = True, notifications = 0,
     scheduler_error_cb = None, trace = [], mem = (\<lambda>_. \<lparr>size_max = 64, bsize = 0, ptr = replicate 64 0\<rparr>),
     arm_uccc_event_handler = None, arm_uc_authority_callback = None, arm_uc_authority_priority_callback = None,
     arm_uc_download_token_armed = False, arm_uc_install_token_armed = False,
     arm_uc_progress_callback = None,
     arm_uc_monitor_struct = Some \<lparr>has_SetBootloaderHash = True, has_SetOEMBootloaderHash = True\<rparr>,
     paal_update_implementation = Some ARM_UCP_DELTA_PAAL, ucfm_handler = None, setups = (\<lambda>_. test_setup),
     package_configuration = Some 0, package_hash = replicate 32 7, package_offset = 0,
     ready_to_receive = False, mdHandle = [], cipherHandle = \<lparr>aes_context = None, aes_iv = None\<rparr>,
     front_buffer = Some Buf_message, back_buffer = Some Buf_message2,
     source_registry = Some 5 # replicate 9 None, event_cb = None, ucsm_last_error = 0,
     request_in_flight = initial_request, async_retry_timer_id = 0, num_busy_retries = 0,
     mm_state = ARM_UC_MM_STATE_IDLE, applicationEventHandler = None, reportedError = ERR_NONE,
     insert_manifest = None, insert_certificateStorage = None, getFw_info = None,
     arm_uc_hub_state = ARM_UC_HUB_STATE_UNINITIALIZED, arm_uc_hub_init_cb = Some (Fn_App 1),
     hub_front_buffer = Buf_message, hub_back_buffer = Buf_message2, campaign_priority = 0,
     arm_uc_active_details = no_details, arm_uc_active_details_available = False,
     arm_uc_hub_delta_details = \<lparr>delta_is_delta = 0, delta_payload_size = 0\<rparr>,
     arm_uc_installer_details = rinstaller no_reply, firmware_offset = 0, fw_downloadSize = 0, hub_uri = no_uri,
     init_cb_called = False, arm_uc_error_callback_handler = Some (Fn_App 2), arm_uc_sources = [5]\<rparr>"

text \<open>The manifest describes an empty img at \<open>http://a/b\<close>.\<close>

definition test_fwinfo :: manifest_firmware_info_t where
  "test_fwinfo = \<lparr>timestamp = 1, format = (0, 0, 0, htobe 1), fw_priority = 0, fw_size = 0,
     fw_uri = \<lparr>size_max = 10, bsize = 10, ptr = [104, 116, 116, 112, 58, 47, 47, 97, 47, 98]\<rparr>,
     strgId = None, installedSize = 0, installedHash = \<lparr>size_max = 32, bsize = 32, ptr = replicate 32 7\<rparr>,
     cipherMode = 0\<rparr>"

definition hub_test :: hub_platform where
  "hub_test = \<lparr>plat = (test_platform [])\<lparr>env := three_sources\<rparr>, fw_view = (\<lambda>_. test_fwinfo), fw_uri_offset = (\<lambda>_. 0),
     manifestSize_offset = 0, manifestBuffer_offset = 4\<rparr>"

fun hub_calls :: "nat \<Rightarrow> hub_platform \<Rightarrow> (uc_fn \<times> u32) list \<Rightarrow> hub \<Rightarrow> hub option" where
  "hub_calls n h [] s = Some s"
| "hub_calls n h ((f, e) # evs) s = hub_call n h f e s \<bind> hub_calls n h evs"


lemma set_state_code [code]:
  "ARM_UC_HUB_setState n h st s =
    (case n of 0 \<Rightarrow> None | Suc n \<Rightarrow>
      hub_case h (ARM_UC_HUB_ErrorHandler (ARM_UC_HUB_setState n h) (env (plat h)))
        (hub_handler (ARM_UC_HUB_setState n h) (env (plat h))) st (s\<lparr>arm_uc_hub_state := st\<rparr>) \<bind>
      (\<lambda>(new, s). if arm_uc_hub_state s \<noteq> new then ARM_UC_HUB_setState n h new s else Some s))"
  by (cases n) (simp_all add: Let_def)

lemma hub_calls_run:
  assumes "hub_run n h evs s" and "hub_calls n h evs' s = Some s'"
  shows "hub_run n h (evs @ evs') s'"
  using assms
proof (induction evs' arbitrary: evs s)
  case (Cons ev evs')
  obtain f e where ev: "ev = (f, e)" by fastforce
  obtain s1 where s1: "hub_call n h f e s = Some s1" "hub_calls n h evs' s1 = Some s'"
    using Cons.prems(2) by (auto simp: ev bind_eq_Some_conv)
  from Cons.IH[OF hub_run.handler[OF Cons.prems(1) s1(1)] s1(2)] show ?case by (simp add: ev)
qed simp

text \<open>The client starts and a notification arrives.\<close>

lemma notified_run:
  "\<exists>s. hub_run 4 hub_test [(FM, UCFM_EVENT_GET_INSTALLER_DETAILS_ERROR), (SM, ARM_UC_SM_EVENT_NOTIFICATION)] s \<and>
     notables s = [MON_SendState 1, APP_Initialized (Fn_App 1) 0] \<and> arm_uc_hub_state s = ARM_UC_HUB_STATE_NOTIFIED"
proof -
  have b: "hub_run 4 hub_test [] hub_static"
    by (rule hub_run.boot) (simp_all add: hub_static_def notables_def)
  have "map_option (\<lambda>s. (notables s, arm_uc_hub_state s)) (hub_calls 4 hub_test
       [(FM, UCFM_EVENT_GET_INSTALLER_DETAILS_ERROR), (SM, ARM_UC_SM_EVENT_NOTIFICATION)] hub_static) =
     Some ([MON_SendState 1, APP_Initialized (Fn_App 1) 0], ARM_UC_HUB_STATE_NOTIFIED)"
    by code_simp
  then show ?thesis using hub_calls_run[OF b] by fastforce
qed

text \<open>A posted event waits when the application processes the events.\<close>

lemmas queue_code [code] = ARM_UC_ProcessQueue.simps aq_pop_walk.simps

definition hub_posted :: hub where
  "hub_posted = hub_static\<lparr>elems := (\<lambda>_. zero_element)(Static Cb_event_cb_storage :=
       \<lparr>next = None, lock = 1, callback = Some FM, parameter = UCFM_EVENT_GET_INSTALLER_DETAILS_ERROR\<rparr>),
     arm_uc_queue := Some (Static Cb_event_cb_storage), callbacks_pending := 1\<rparr>"

lemma posted_run:
  "hub_run 4 hub_test [] hub_posted \<and> map_option (arm_uc_hub_state \<circ> snd) (ARM_UC_HUB_ProcessEvents 4 hub_test hub_posted) =
     Some ARM_UC_HUB_STATE_IDLE"
proof
  show b: "hub_run 4 hub_test [] hub_posted"
    by (rule hub_run.boot) (simp_all add: hub_posted_def hub_static_def notables_def)
  show "map_option (arm_uc_hub_state \<circ> snd) (ARM_UC_HUB_ProcessEvents 4 hub_test hub_posted) =
     Some ARM_UC_HUB_STATE_IDLE"
    by code_simp
qed

subsection \<open>Runs of the client\<close>

text \<open>
  C1. No firmware is activated unless a whole update went before. In every run of the client,
  whatever events reach the hub, in whatever order, and whatever the application, the storage and
  the network answer, the twelve events of a full update - the notification, the manifest and its
  verification, the permission to download, the storage prepared and finalized with the right
  hash, the permission to install, with the reports in between - occur in this order before the
  first call of \<open>Activate\<close>, again before the second, and so on.
\<close>

theorem each_activation_earned:
  assumes "hub_run n h evs s"
  shows "subseq (concat (replicate (activations (notables s)) full_update)) evs"
proof -
  have "earned evs (notables s) (arm_uc_hub_state s)"
    using spec_earned hub_run_spec[OF assms] unfolding spec_of_def by blast
  then show ?thesis unfolding earned_def using list_emb_append2 subseq_order.trans prefix_imp_subseq by (metis prefixI)
qed

theorem each_activation_earned_witness:
  "\<exists>s :: hub. arm_uc_hub_state s = ARM_UC_HUB_STATE_NOTIFIED \<and>
     subseq (concat (replicate (activations (notables s)) full_update))
       [(FM, UCFM_EVENT_GET_INSTALLER_DETAILS_ERROR), (SM, ARM_UC_SM_EVENT_NOTIFICATION)]"
  using each_activation_earned notified_run by blast

text \<open>
  C4. The service sees the states of an update in their order. In every run, the states that are
  sent to the monitor go up by one at a time, or fall back to idle.
\<close>

theorem states_reported_in_order:
  assumes "hub_run n h evs s"
  shows "successively (\<lambda>a b. b = ARM_UC_UPDATE_STATE_IDLE \<or> b = a + 1) (public_states (notables s))"
  using spec_reports hub_run_spec[OF assms] unfolding spec_of_def reports_ok_def in_order_def by blast

theorem states_reported_in_order_witness:
  "\<exists>s :: hub. public_states (notables s) = [1] \<and>
     successively (\<lambda>a b. b = ARM_UC_UPDATE_STATE_IDLE \<or> b = a + 1) (public_states (notables s))"
proof -
  obtain s where "hub_run 4 hub_test [(FM, UCFM_EVENT_GET_INSTALLER_DETAILS_ERROR), (SM, ARM_UC_SM_EVENT_NOTIFICATION)] s"
    "notables s = [MON_SendState 1, APP_Initialized (Fn_App 1) 0]" using notified_run by blast
  from states_reported_in_order[OF this(1)] this(2) show ?thesis by (intro exI[of _ s]) (simp add: public_states_def)
qed







subsection \<open>What an error and an old version lead to\<close>

text \<open>An application that answers no request from inside of a callback.\<close>

definition unanswering :: "environment \<Rightarrow> bool" where
  "unanswering w \<longleftrightarrow> (\<forall>calls. ractions (w calls) = [])"

lemma three_unanswering: "unanswering three_sources"
  by (simp add: unanswering_def three_sources_def no_reply_def split: list.split ext_call.split)

lemma error_table_valid:
  "\<forall>(codes, x, m, nxt) \<in> set hub_error_cases. (case x of None \<Rightarrow> True | Some e \<Rightarrow> e \<le> ARM_UC_UNKNOWN) \<and>
     (case m of None \<Rightarrow> True | Some r \<Rightarrow> ARM_UC_IsValidResult r) \<and>
     (if nxt = None then HUB_ERR_CONNECTION \<notin> set codes
      else nxt = Some ARM_UC_HUB_STATE_IDLE \<and> codes = [HUB_ERR_CONNECTION])"
  unfolding hub_error_cases_def list_all_iff[symmetric] list_all_append
proof (intro conjI)
  show "list_all (\<lambda>(codes, x, m, nxt). (case x of None \<Rightarrow> True | Some e \<Rightarrow> e \<le> ARM_UC_UNKNOWN) \<and>
     (case m of None \<Rightarrow> True | Some r \<Rightarrow> ARM_UC_IsValidResult r) \<and>
     (if nxt = None then HUB_ERR_CONNECTION \<notin> set codes
      else nxt = Some ARM_UC_HUB_STATE_IDLE \<and> codes = [HUB_ERR_CONNECTION])) hub_client_errors"
    by (simp add: hub_client_errors_def ARM_UC_IsValidResult_def)
  show "list_all (\<lambda>(codes, x, m, nxt). (case x of None \<Rightarrow> True | Some e \<Rightarrow> e \<le> ARM_UC_UNKNOWN) \<and>
     (case m of None \<Rightarrow> True | Some r \<Rightarrow> ARM_UC_IsValidResult r) \<and>
     (if nxt = None then HUB_ERR_CONNECTION \<notin> set codes
      else nxt = Some ARM_UC_HUB_STATE_IDLE \<and> codes = [HUB_ERR_CONNECTION])) hub_manifest_errors"
    by (simp add: hub_manifest_errors_def ARM_UC_IsValidResult_def)
  show "list_all (\<lambda>(codes, x, m, nxt). (case x of None \<Rightarrow> True | Some e \<Rightarrow> e \<le> ARM_UC_UNKNOWN) \<and>
     (case m of None \<Rightarrow> True | Some r \<Rightarrow> ARM_UC_IsValidResult r) \<and>
     (if nxt = None then HUB_ERR_CONNECTION \<notin> set codes
      else nxt = Some ARM_UC_HUB_STATE_IDLE \<and> codes = [HUB_ERR_CONNECTION])) hub_source_errors"
    by (simp add: hub_source_errors_def ARM_UC_IsValidResult_def)
qed

lemma error_report_valid:
  "case hub_error_report e of (external, result, nxt) \<Rightarrow>
     external \<le> ARM_UC_UNKNOWN \<and> ARM_UC_IsValidResult result \<and>
     nxt = (if e = HUB_ERR_CONNECTION then ARM_UC_HUB_STATE_IDLE else ARM_UC_HUB_STATE_WAIT_FOR_ERROR_ACK)"
proof (cases "find (\<lambda>(codes, _). e \<in> set codes) hub_error_cases")
  case None
  have "HUB_ERR_CONNECTION \<in> \<Union> (set (map (set \<circ> fst) hub_error_cases))" by (simp add: hub_error_tables)
  then obtain c where "c \<in> set hub_error_cases" "HUB_ERR_CONNECTION \<in> set (fst c)" by auto
  with None have "e \<noteq> HUB_ERR_CONNECTION" by (cases c) (fastforce simp: find_None_iff)
  with None show ?thesis by (simp add: hub_error_report_def ARM_UC_IsValidResult_def)
next
  case (Some c)
  obtain codes x m nxt where c: "c = (codes, x, m, nxt)" by (cases c)
  have i: "(codes, x, m, nxt) \<in> set hub_error_cases" "e \<in> set codes"
    using Some c by (auto simp: find_Some_iff) (metis nth_mem)
  then have "(case x of None \<Rightarrow> True | Some e \<Rightarrow> e \<le> ARM_UC_UNKNOWN)" "(case m of None \<Rightarrow> True | Some r \<Rightarrow> ARM_UC_IsValidResult r)"
    "(if nxt = None then HUB_ERR_CONNECTION \<notin> set codes
      else nxt = Some ARM_UC_HUB_STATE_IDLE \<and> codes = [HUB_ERR_CONNECTION])"
    using error_table_valid by fastforce+
  with Some c i(2) show ?thesis
    by (auto simp: hub_error_report_def ARM_UC_IsValidResult_def split: option.splits if_split_asm)
qed

lemma set_state_round:
  "ARM_UC_HUB_setState (Suc n) h st s =
     hub_case h (ARM_UC_HUB_ErrorHandler (ARM_UC_HUB_setState n h) (env (plat h)))
       (hub_handler (ARM_UC_HUB_setState n h) (env (plat h))) st (s\<lparr>arm_uc_hub_state := st\<rparr>) \<bind>
     (\<lambda>(new, s). if arm_uc_hub_state s \<noteq> new then ARM_UC_HUB_setState n h new s else Some s)"
  by (simp add: Let_def)

lemma error_handled:
  assumes "unanswering w" and "arm_uc_monitor_struct s \<noteq> None" and "arm_uc_error_callback_handler s = Some f"
    and "hub_error_report e = (external, result, ARM_UC_HUB_STATE_WAIT_FOR_ERROR_ACK)"
  shows "ARM_UC_HUB_ErrorHandler (ARM_UC_HUB_setState (Suc n) h) w e st s =
    Some (s\<lparr>arm_uc_hub_state := ARM_UC_HUB_STATE_WAIT_FOR_ERROR_ACK,
            trace := APP_Error f external # MON_SendUpdateResult result # trace s\<rparr>)"
  using assms
  by (simp add: ARM_UC_HUB_ErrorHandler_def ARM_UC_ControlCenter_ReportUpdateResult_def monitor_send_def ext_def
      hub_case_def unanswering_def)

text \<open>
  The error handler maps every 32-bit code to a code of the public interface, a result that
  the service knows, and a state that waits for the report, except for the loss of the connection,
  after which the client is idle at once.
\<close>

theorem error_report:
  "case hub_error_report e of (external, result, nxt) \<Rightarrow>
     external \<le> ARM_UC_UNKNOWN \<and> ARM_UC_IsValidResult result \<and>
     nxt = (if e = HUB_ERR_CONNECTION then ARM_UC_HUB_STATE_IDLE else ARM_UC_HUB_STATE_WAIT_FOR_ERROR_ACK)"
  by (rule error_report_valid)



text \<open>
  C12. A manifest that is not newer than the active firmware is rejected: the service and the
  application are told about the rollback, the hub is idle, and nothing else happens.
\<close>

theorem old_version_rejected:
  assumes "unanswering (env (plat h))" and "arm_uc_monitor_struct s \<noteq> None"
    and "arm_uc_error_callback_handler s = Some f" and "init_cb_called s"
    and "timestamp (fwinfo h s) \<le> version (arm_uc_active_details s)"
    and "ARM_UC_mmCheckFormatUint32 (format (fwinfo h s)) ARM_UC_MM_FORMAT_RAW_BINARY \<or>
         ARM_UC_mmCheckFormatUint32 (format (fwinfo h s)) ARM_UC_MM_FORMAT_BSDIFF_STREAM"
  shows "ARM_UC_HUB_setState (Suc (Suc n)) h ARM_UC_HUB_STATE_CHECK_VERSION s =
    Some (s\<lparr>arm_uc_hub_state := ARM_UC_HUB_STATE_IDLE,
      trace := MON_SendState ARM_UC_UPDATE_STATE_IDLE # APP_Error f ARM_UC_WARNING_ROLLBACK_PROTECTION #
        MON_SendUpdateResult ARM_UC_UPDATE_RESULT_MANIFEST_ROLLBACK_PROTECTION # trace s\<rparr>)"
proof -
  let ?s = "s\<lparr>arm_uc_hub_state := ARM_UC_HUB_STATE_CHECK_VERSION\<rparr>"
  have r: "hub_error_report HUB_ERR_ROLLBACK_PROTECTION = (ARM_UC_WARNING_ROLLBACK_PROTECTION,
      ARM_UC_UPDATE_RESULT_MANIFEST_ROLLBACK_PROTECTION, ARM_UC_HUB_STATE_WAIT_FOR_ERROR_ACK)"
    by (simp add: hub_error_report_def hub_error_tables)
  have e: "ARM_UC_HUB_ErrorHandler (ARM_UC_HUB_setState (Suc n) h) (env (plat h)) HUB_ERR_ROLLBACK_PROTECTION
      ARM_UC_HUB_STATE_CHECK_VERSION ?s = Some (s\<lparr>arm_uc_hub_state := ARM_UC_HUB_STATE_WAIT_FOR_ERROR_ACK,
            trace := APP_Error f ARM_UC_WARNING_ROLLBACK_PROTECTION #
              MON_SendUpdateResult ARM_UC_UPDATE_RESULT_MANIFEST_ROLLBACK_PROTECTION # trace s\<rparr>)"
    using error_handled[OF assms(1) _ _ r, of ?s f n h] assms(2,3) by simp
  have c: "hub_check_version h (ARM_UC_HUB_ErrorHandler (ARM_UC_HUB_setState (Suc n) h) (env (plat h))) ?s =
      Some (ARM_UC_HUB_STATE_IDLE, s\<lparr>arm_uc_hub_state := ARM_UC_HUB_STATE_WAIT_FOR_ERROR_ACK,
            trace := APP_Error f ARM_UC_WARNING_ROLLBACK_PROTECTION #
              MON_SendUpdateResult ARM_UC_UPDATE_RESULT_MANIFEST_ROLLBACK_PROTECTION # trace s\<rparr>)"
    using assms(5,6) e by (auto simp: hub_check_version_def fwinfo_def simp del: ARM_UC_HUB_setState.simps)
  show ?thesis
    using assms(2,4)
    by (simp del: ARM_UC_HUB_setState.simps add: set_state_round[of "Suc n"] set_state_round[of n] hub_case_def c hub_idle_def ARM_UC_ControlCenter_ReportState_def monitor_send_def ext_def Let_def)
qed

theorem old_version_rejected_witness:
  "\<exists>s. arm_uc_hub_state s = ARM_UC_HUB_STATE_IDLE \<and>
     ARM_UC_HUB_setState 2 (hub_test\<lparr>fw_view := (\<lambda>_. test_fwinfo\<lparr>timestamp := 0\<rparr>)\<rparr>)
       ARM_UC_HUB_STATE_CHECK_VERSION (hub_static\<lparr>init_cb_called := True\<rparr>) = Some s"
proof -
  let ?h = "hub_test\<lparr>fw_view := (\<lambda>_. test_fwinfo\<lparr>timestamp := 0\<rparr>)\<rparr>" and ?s = "hub_static\<lparr>init_cb_called := True\<rparr>"
  have "unanswering (env (plat ?h))" using three_unanswering by (simp add: hub_test_def)
  moreover have "arm_uc_monitor_struct ?s \<noteq> None" "arm_uc_error_callback_handler ?s = Some (Fn_App 2)" "init_cb_called ?s"
    "timestamp (fwinfo ?h ?s) \<le> version (arm_uc_active_details ?s)"
    "ARM_UC_mmCheckFormatUint32 (format (fwinfo ?h ?s)) ARM_UC_MM_FORMAT_RAW_BINARY"
    by (simp_all add: hub_static_def fwinfo_def hub_test_def test_fwinfo_def no_details_def)
  ultimately have "ARM_UC_HUB_setState (Suc (Suc 0)) ?h ARM_UC_HUB_STATE_CHECK_VERSION ?s =
    Some (?s\<lparr>arm_uc_hub_state := ARM_UC_HUB_STATE_IDLE,
      trace := MON_SendState 1 # APP_Error (Fn_App 2) 10 # MON_SendUpdateResult 221 # trace ?s\<rparr>)"
    by (intro old_version_rejected) auto
  from this[folded numeral_2_eq_2] show ?thesis by (intro exI conjI[rotated], assumption) simp
qed

text \<open>
  C20. A cipher mode that the client does not support is not rejected: the error is lost, the
  service is asked to approve the download, and the setup keeps the mode of an earlier update.
\<close>

theorem cipher_mode_ignored:
  assumes "cipherMode (fwinfo h s) \<noteq> ARM_UC_MM_CIPHERMODE_NONE" and "arm_uc_monitor_struct s \<noteq> None"
    and "arm_uc_str2uri (Some (ptr (fw_uri (fwinfo h s)))) (bsize (fw_uri (fwinfo h s))) (Some (hub_uri s)) = Some (r, Some u)"
    and "err_error r = 0" and "storage_id (fwinfo h s) = Some loc"
  shows "\<exists>s'. ARM_UC_HUB_setState (Suc (Suc (Suc n))) h ARM_UC_HUB_STATE_PREPARE_FIRMWARE_SETUP s = Some s' \<and>
    arm_uc_hub_state s' = ARM_UC_HUB_STATE_WAIT_FOR_DOWNLOAD_AUTHORIZATION_REPORT_DONE \<and>
    trace s' = MON_SendState ARM_UC_UPDATE_STATE_AWAITING_DOWNLOAD_APPROVAL # trace s \<and>
    cfg_mode (setups s' arm_uc_hub_firmware_config) = cfg_mode (setups s arm_uc_hub_firmware_config)"
proof -
  let ?s = "s\<lparr>arm_uc_hub_state := ARM_UC_HUB_STATE_PREPARE_FIRMWARE_SETUP\<rparr>"
  let ?err = "ARM_UC_HUB_ErrorHandler (ARM_UC_HUB_setState (Suc (Suc n)) h) (env (plat h))"
  have f: "fwinfo h (set_setup g x) = fwinfo h x" "fwinfo h ?s = fwinfo h s" "fwinfo h (x\<lparr>hub_uri := v\<rparr>) = fwinfo h x" for g x v
    by (simp_all add: fwinfo_def set_setup_def)
  let ?c = "(setups s)(arm_uc_hub_firmware_config := (setups s arm_uc_hub_firmware_config)
      \<lparr>cfg_hash := Some (installedHash (fwinfo h s)), package_size := installedSize (fwinfo h s),
        is_delta := (if ARM_UC_mmCheckFormatUint32 (format (fwinfo h s)) ARM_UC_MM_FORMAT_BSDIFF_STREAM then 1 else 0),
        package_id := loc\<rparr>)"
  have c: "hub_prepare_setup h ?err ?s = Some (ARM_UC_HUB_STATE_DOWNLOAD_AUTHORIZATION_MONITOR_REPORT,
      ?s\<lparr>hub_uri := u, setups := ?c\<rparr>)"
    using assms by (simp add: hub_prepare_setup_def Let_def f set_setup_def del: ARM_UC_HUB_setState.simps)
  show ?thesis
    using assms(2)
    by (simp del: ARM_UC_HUB_setState.simps add: set_state_round[of "Suc (Suc n)"] set_state_round[of "Suc n"] set_state_round[of n]
        hub_case_def c hub_download_authorization_def ARM_UC_ControlCenter_ReportState_def monitor_send_def ext_def Let_def)
qed

theorem cipher_mode_ignored_witness:
  "\<exists>s. ARM_UC_HUB_setState 3 (hub_test\<lparr>fw_view := (\<lambda>_. test_fwinfo\<lparr>cipherMode := ARM_UC_MM_CIPHERMODE_PSK\<rparr>)\<rparr>)
       ARM_UC_HUB_STATE_PREPARE_FIRMWARE_SETUP hub_static = Some s \<and>
     arm_uc_hub_state s = ARM_UC_HUB_STATE_WAIT_FOR_DOWNLOAD_AUTHORIZATION_REPORT_DONE"
proof -
  let ?h = "hub_test\<lparr>fw_view := (\<lambda>_. test_fwinfo\<lparr>cipherMode := ARM_UC_MM_CIPHERMODE_PSK\<rparr>)\<rparr>"
  have i: "fwinfo ?h hub_static = test_fwinfo\<lparr>cipherMode := ARM_UC_MM_CIPHERMODE_PSK\<rparr>" by (simp add: fwinfo_def hub_test_def)
  have "map_option (\<lambda>(r, u). (err_error r, u \<noteq> None)) (arm_uc_str2uri (Some (ptr (fw_uri test_fwinfo))) (bsize (fw_uri test_fwinfo)) (Some no_uri)) = Some (0, True)"
    by code_simp
  then obtain r u where u: "arm_uc_str2uri (Some (ptr (fw_uri test_fwinfo))) (bsize (fw_uri test_fwinfo)) (Some no_uri) = Some (r, Some u)"
    "err_error r = 0" by auto
  have s: "arm_uc_monitor_struct hub_static \<noteq> None" "hub_uri hub_static = no_uri" by (simp_all add: hub_static_def)
  have "\<exists>s'. ARM_UC_HUB_setState (Suc (Suc (Suc 0))) ?h ARM_UC_HUB_STATE_PREPARE_FIRMWARE_SETUP hub_static = Some s' \<and>
    arm_uc_hub_state s' = ARM_UC_HUB_STATE_WAIT_FOR_DOWNLOAD_AUTHORIZATION_REPORT_DONE \<and>
    trace s' = MON_SendState 3 # trace hub_static \<and>
    cfg_mode (setups s' 0) = cfg_mode (setups hub_static 0)"
    by (rule cipher_mode_ignored[where r = r and u = u and loc = 0])
      (use u s in \<open>simp_all add: i, simp_all add: test_fwinfo_def storage_id_def\<close>)
  then show ?thesis by (simp only: numeral_3_eq_3) blast
qed

end
