(* ===== verification/UC_Hub_Download.thy ===== *)
theory UC_Hub_Download
  imports UC_Hub_Properties
begin

text \<open>
  The download: how the hub overlaps the network and the storage with its two buffers, compared
  with a pipeline that counts fragments.
\<close>

subsection \<open>Requests for fragments\<close>

fun is_write :: "ext_call \<Rightarrow> bool" where
  "is_write (PAAL_Write location offset d) = True"
| "is_write _ = False"

definition writes :: "'z uc0_scheme \<Rightarrow> ext_call list" where
  "writes s = filter is_write (trace s)"

text \<open>Sources and a storage that serve every request.\<close>

definition serving :: "environment \<Rightarrow> bool" where
  "serving w \<longleftrightarrow> steady w \<and> (\<forall>uri src. source_offer w (Some uri) QUERY_TYPE_FIRMWARE src \<noteq> None) \<and>
     (\<forall>src uri b off. rcode (w [SRC_GetFirmwareFragment src uri b off]) = ERR_NONE) \<and>
     (\<forall>location off d. rcode (w [PAAL_Write location off d]) = ERR_NONE)"

definition asked :: "'z sm_scheme \<Rightarrow> 'z sm_scheme \<Rightarrow> bool" where
  "asked s s' \<longleftrightarrow> (\<exists>t e q. s' = s\<lparr>trace := t, ucsm_last_error := e, request_in_flight := q\<rparr>) \<and> writes s' = writes s"

lemma writes_ext [simp]: "writes (snd (ext w c s)) = (if is_write c then c # writes s else writes s)"
  by (simp add: writes_def ext_def)

lemma writes_updates [simp]:
  "writes (s\<lparr>ucsm_last_error := e\<rparr>) = writes s" "writes (s\<lparr>request_in_flight := q\<rparr>) = writes s"
  "writes (s\<lparr>package_offset := x\<rparr>) = writes s" "writes (set_buf a b s) = writes s"
  by (simp_all add: writes_def set_buf_def)

lemma cost_writes: "writes (snd (source_cost w uri type src s)) = writes s"
  by (cases type) (auto simp: source_cost_def case_prod_unfold Let_def)

lemma lowest_writes: "writes (snd (lowest_cost_loop w uri type excl i n best s)) = writes s"
proof (induction n arbitrary: i best s)
  case (Suc n)
  show ?case
    using Suc cost_writes[of w uri type]
    by (auto simp: case_prod_unfold Let_def ARM_UCSM_SetError_def split: option.split)
qed simp

lemma lookup_writes: "lookup_source w s = Some (r, k, s') \<Longrightarrow> writes s' = writes s"
proof -
  assume l: "lookup_source w s = Some (r, k, s')"
  let ?req = "request_in_flight s"
  let ?low = "ARM_UCSM_SourceRegistryGetLowestCost w (req_uri ?req) (req_type ?req) (excludes ?req) 0 s"
  have low: "writes (snd ?low) = writes s"
    using lowest_writes[of w "req_uri ?req" "req_type ?req" "excludes ?req" 0 10 "(0xFFFFFFFF, 0)" s]
    by (auto simp: ARM_UCSM_SourceRegistryGetLowestCost_def case_prod_unfold Let_def ARM_UCSM_SetError_def)
  have g: "writes (snd (source_get w ?req src x)) = writes x" for src x
    by (cases "req_type ?req") (auto simp: source_get_def case_prod_unfold Let_def ARM_UCSM_SetError_def)
  show ?thesis
    using l low by (auto simp: lookup_source_def g case_prod_unfold Let_def split: if_split_asm option.split_asm)
qed

lemma get_fragment_served:
  assumes "serving w" and "k < 10" and "source_registry s ! k \<noteq> None"
  shows "\<exists>s'. ARM_UCSM_GetFirmwareFragment w (Some uri) b off s = Some (ERR_NONE, s') \<and> asked s s'"
proof -
  let ?q = "initial_request\<lparr>req_uri := Some uri, req_buffer := b, req_offset := off, req_type := QUERY_TYPE_FIRMWARE\<rparr>"
  let ?s = "s\<lparr>request_in_flight := ?q\<rparr>"
  have q: "req_uri ?q = Some uri" "req_type ?q = QUERY_TYPE_FIRMWARE" "excludes ?q = replicate 10 0"
    by (simp_all add: initial_request_def)
  obtain r i s1 where l: "lookup_source w ?s = Some (r, i, s1)" using lookup_source_Some by blast
  obtain src where src: "source_registry s ! k = Some src" using assms(3) by auto
  obtain c where "source_offer w (Some uri) QUERY_TYPE_FIRMWARE src = Some c"
    using assms(1) unfolding serving_def by blast
  then have "candidate w ?s k c" using src assms(2) q by (simp add: candidate_def better_def)
  moreover have "slot_answer w ?s j = ERR_NONE" for j
    using assms(1) q by (simp add: slot_answer_def source_answer_def serving_def)
  ultimately have r: "r = ERR_NONE"
    using lookup_source_steady[OF _ _ l] assms(1) q unfolding serving_def by auto
  let ?s2 = "s1\<lparr>request_in_flight := (request_in_flight s1)\<lparr>current_source := of_nat i\<rparr>\<rparr>"
  have g: "ARM_UCSM_Get w ?s = Some (ERR_NONE, ?s2)"
    using l r by (subst ARM_UCSM_Get.simps) (simp add: err_error_def)
  obtain t e where s1: "s1 = ?s\<lparr>trace := t, ucsm_last_error := e\<rparr>" using lookup_source_shape(1)[OF l] by blast
  have "asked s ?s2"
    unfolding asked_def
  proof
    show "\<exists>t e q. ?s2 = s\<lparr>trace := t, ucsm_last_error := e, request_in_flight := q\<rparr>"
      by (rule exI[of _ t], rule exI[of _ e], rule exI[of _ "(request_in_flight s1)\<lparr>current_source := of_nat i\<rparr>"])
        (simp add: s1)
    show "writes ?s2 = writes s" using lookup_writes[OF l] by simp
  qed
  then show ?thesis using g
    by (simp add: ARM_UCSM_GetFirmwareFragment_def ARM_UCSM_GetCommon_def ARM_UCSM_RequestStructInit_def)
qed

subsection \<open>A fragment is stored\<close>

definition receiving :: "nat \<Rightarrow> u32 \<Rightarrow> u32 \<Rightarrow> 'z hub_scheme \<Rightarrow> bool" where
  "receiving c location whole s \<longleftrightarrow> ready_to_receive s \<and> package_configuration s = Some c \<and>
     cfg_mode (setups s c) = UCFM_MODE_NONE_SHA_256 \<and> package_id (setups s c) = location \<and>
     paal_update_implementation s \<noteq> None \<and> (\<exists>k<10. source_registry s ! k \<noteq> None) \<and>
     fw_downloadSize s = whole \<and> firmware_offset s = package_offset s"

definition fragment_ok :: "arm_uc_buffer_t \<Rightarrow> bool" where
  "fragment_ok fr \<longleftrightarrow> 0 < bsize fr \<and> bsize fr \<le> size_max fr"

lemma receiving_updates [simp]:
  "receiving c l t (s\<lparr>arm_uc_hub_state := st\<rparr>) = receiving c l t s"
  "receiving c l t (s\<lparr>trace := tr\<rparr>) = receiving c l t s"
  "receiving c l t (s\<lparr>hub_front_buffer := a, hub_back_buffer := b\<rparr>) = receiving c l t s"
  "receiving c l t (set_buf a fr s) = receiving c l t s"
  by (simp_all add: receiving_def set_buf_def)

lemma receiving_asked: "asked s s' \<Longrightarrow> receiving c l t s' = receiving c l t s"
  by (auto simp: asked_def receiving_def)

lemma write_served:
  assumes "serving (env pl)" and "ready_to_receive s" and "package_configuration s = Some c"
    and "cfg_mode (setups s c) = UCFM_MODE_NONE_SHA_256" and "paal_update_implementation s \<noteq> None"
    and "mem s b = fr" and "fragment_ok fr"
  shows "ARM_UCFM_Write pl (Some b) s =
    Some (ERR_NONE, s\<lparr>trace := PAAL_Write (package_id (setups s c)) (package_offset s) (fragment_data fr) # trace s,
                      package_offset := package_offset s + bsize fr\<rparr>)"
proof -
  have "env pl (PAAL_Write l off d # t) = env pl [PAAL_Write l off d]" for l off d t
    using assms(1) unfolding serving_def steady_def by metis
  then have w: "rcode (env pl (PAAL_Write l off d # t)) = ERR_NONE" for l off d t
    using assms(1) unfolding serving_def by metis
  have "size_max fr \<noteq> 0" "\<not> size_max fr < bsize fr" using assms(7) by (auto simp: fragment_ok_def)
  then show ?thesis using assms(2-6)
    by (simp add: ARM_UCFM_Write_def configuration_of_def ARM_UCP_Write_def paal_call_def ext_def Let_def w
        fragment_data_def)
qed

lemma stored:
  assumes "serving (env (plat h))" and "receiving c location whole s"
    and "mem s (hub_front_buffer s) = fr" and "fragment_ok fr"
  shows "\<exists>s'. hub_store h err s = Some (False, s') \<and> receiving c location whole s' \<and>
    firmware_offset s' = firmware_offset s + bsize fr \<and> arm_uc_hub_state s' = arm_uc_hub_state s \<and>
    writes s' = PAAL_Write location (firmware_offset s) (fragment_data fr) # writes s"
proof -
  let ?s1 = "s\<lparr>hub_front_buffer := hub_back_buffer s, hub_back_buffer := hub_front_buffer s,
    firmware_offset := firmware_offset s + bsize fr\<rparr>"
  let ?s2 = "?s1\<lparr>trace := PAAL_Write location (firmware_offset s) (fragment_data fr) # trace s,
    package_offset := firmware_offset s + bsize fr\<rparr>"
  have off: "package_offset s = firmware_offset s" using assms(2) by (simp add: receiving_def)
  have "ARM_UCFM_Write (plat h) (Some (hub_front_buffer s)) ?s1 = Some (ERR_NONE, ?s2)"
    using write_served[OF assms(1), of ?s1 c "hub_front_buffer s" fr] assms(2-4) off by (simp add: receiving_def)
  moreover have "bsize fr > 0" using assms(4) by (simp add: fragment_ok_def)
  ultimately have "hub_store h err s = Some (False, ?s2)"
    using assms(3) by (simp add: hub_store_def Let_def)
  moreover have "receiving c location whole ?s2" using assms(2) by (simp add: receiving_def)
  ultimately show ?thesis by (simp add: writes_def)
qed

lemma fetched_next:
  assumes "serving (env (plat h))" and "receiving c location whole s"
  shows "\<exists>s'. hub_fetch_next h err s = Some (False, if firmware_offset s < whole
        then ARM_UC_HUB_STATE_STORE_AND_DOWNLOAD else ARM_UC_HUB_STATE_AWAIT_LAST_FRAGMENT_STORED, s') \<and>
    receiving c location whole s' \<and> firmware_offset s' = firmware_offset s \<and>
    arm_uc_hub_state s' = arm_uc_hub_state s \<and> writes s' = writes s"
proof (cases "firmware_offset s < whole")
  case True
  let ?s = "set_buf (hub_front_buffer s) ((mem s (hub_front_buffer s))\<lparr>bsize := 0\<rparr>) s"
  obtain k where "k < 10" "source_registry ?s ! k \<noteq> None"
    using assms(2) by (auto simp: receiving_def set_buf_def)
  then obtain s' where g: "ARM_UCSM_GetFirmwareFragment (env (plat h)) (Some (hub_uri ?s)) (Some (hub_front_buffer ?s))
      (firmware_offset ?s) ?s = Some (ERR_NONE, s')" and a: "asked ?s s'"
    using get_fragment_served[OF assms(1)] by blast
  have t: "fw_downloadSize s = whole" using assms(2) by (simp add: receiving_def)
  have "receiving c location whole s'" using assms(2) receiving_asked[OF a] by simp
  moreover have "firmware_offset s' = firmware_offset s" "arm_uc_hub_state s' = arm_uc_hub_state s" "writes s' = writes s"
    using a by (auto simp: asked_def set_buf_def writes_def)
  ultimately show ?thesis using True t g by (simp add: hub_fetch_next_def set_buf_def)
next
  case False
  then show ?thesis using assms(2) by (simp add: hub_fetch_next_def receiving_def)
qed

lemma store_and_download:
  assumes "serving (env (plat h))" and "receiving c location whole s"
    and "mem s (hub_front_buffer s) = fr" and "fragment_ok fr"
  shows "\<exists>s'. hub_store_and_download h err s = Some (if firmware_offset s + bsize fr < whole
        then ARM_UC_HUB_STATE_STORE_AND_DOWNLOAD else ARM_UC_HUB_STATE_AWAIT_LAST_FRAGMENT_STORED, s') \<and>
    receiving c location whole s' \<and> firmware_offset s' = firmware_offset s + bsize fr \<and>
    arm_uc_hub_state s' = arm_uc_hub_state s \<and>
    writes s' = PAAL_Write location (firmware_offset s) (fragment_data fr) # writes s"
proof -
  obtain s1 where s1: "hub_store h err s = Some (False, s1)" "receiving c location whole s1"
    "firmware_offset s1 = firmware_offset s + bsize fr" "arm_uc_hub_state s1 = arm_uc_hub_state s"
    "writes s1 = PAAL_Write location (firmware_offset s) (fragment_data fr) # writes s"
    using stored[OF assms] by blast
  obtain s2 where s2: "hub_fetch_next h err s1 = Some (False, if firmware_offset s1 < whole
        then ARM_UC_HUB_STATE_STORE_AND_DOWNLOAD else ARM_UC_HUB_STATE_AWAIT_LAST_FRAGMENT_STORED, s2)"
    "receiving c location whole s2" "firmware_offset s2 = firmware_offset s1"
    "arm_uc_hub_state s2 = arm_uc_hub_state s1" "writes s2 = writes s1"
    using fetched_next[OF assms(1) s1(2)] by blast
  let ?s3 = "snd (ARM_UC_ControlCenter_ReportProgress (env (plat h)) (firmware_offset s2) (fw_downloadSize s2) s2)"
  have "receiving c location whole ?s3 \<and> firmware_offset ?s3 = firmware_offset s2 \<and>
      arm_uc_hub_state ?s3 = arm_uc_hub_state s2 \<and> writes ?s3 = writes s2"
    using s2(2) by (auto simp: ARM_UC_ControlCenter_ReportProgress_def ext_def receiving_def writes_def split: option.split)
  moreover have "hub_store_and_download h err s = Some (if firmware_offset s + bsize fr < whole
        then ARM_UC_HUB_STATE_STORE_AND_DOWNLOAD else ARM_UC_HUB_STATE_AWAIT_LAST_FRAGMENT_STORED, ?s3)"
    using s1(1,3) s2(1) by (simp add: hub_store_and_download_def case_prod_unfold Let_def)
  ultimately show ?thesis using s1 s2 by auto
qed

subsection \<open>The pipeline\<close>

text \<open>
  Of \<open>m\<close> fragments, \<open>r\<close> are received, the writes of \<open>w\<close> of them are started and \<open>c\<close> are
  completed. A request is on its way while no received fragment waits to be written.
\<close>

datatype answer = Network | Storage

fun pipeline :: "nat \<Rightarrow> answer \<Rightarrow> nat \<times> nat \<times> nat \<Rightarrow> (nat \<times> nat \<times> nat) option" where
  "pipeline m Network (r, w, c) = (if r = w \<and> r < m then Some (Suc r, if c = w then Suc w else w, c) else None)"
| "pipeline m Storage (r, w, c) = (if c < w then Some (r, if w < r then Suc w else w, Suc c) else None)"

fun pipelined :: "nat \<Rightarrow> answer list \<Rightarrow> nat \<times> nat \<times> nat \<Rightarrow> (nat \<times> nat \<times> nat) option" where
  "pipelined m [] x = Some x"
| "pipelined m (a # as) x = pipeline m a x \<bind> pipelined m as"

fun phase :: "nat \<Rightarrow> nat \<times> nat \<times> nat \<Rightarrow> arm_uc_hub_state_t" where
  "phase m (r, w, c) =
     (if w < r then ARM_UC_HUB_STATE_WAIT_FOR_STORAGE
      else if c < w then (if w < m then ARM_UC_HUB_STATE_STORE_AND_DOWNLOAD
                          else ARM_UC_HUB_STATE_AWAIT_LAST_FRAGMENT_STORED)
      else if w = 0 then ARM_UC_HUB_STATE_FETCH_FIRST_FRAGMENT
      else if w < m then ARM_UC_HUB_STATE_WAIT_FOR_NETWORK
      else ARM_UC_HUB_STATE_AWAIT_LAST_FRAGMENT_MONITOR_REPORT_DONE)"

text \<open>The answers reach the hub: a fragment in the front buffer, or the end of a write.\<close>

fun download :: "nat \<Rightarrow> hub_platform \<Rightarrow> answer list \<Rightarrow> arm_uc_buffer_t list \<Rightarrow> 'z hub_scheme \<Rightarrow> 'z hub_scheme option" where
  "download n h [] frs s = Some s"
| "download n h (Network # as) frs s =
     hub_call n h SM ARM_UC_SM_EVENT_FIRMWARE (set_buf (hub_front_buffer s) (hd frs) s) \<bind> download n h as (tl frs)"
| "download n h (Storage # as) frs s = hub_call n h FM UCFM_EVENT_WRITE_DONE s \<bind> download n h as frs"

subsection \<open>Sizes\<close>

lemma store_calls_snoc:
  "store_calls l off (frs @ [fr]) = PAAL_Write l (off + sum_list (map bsize frs)) (fragment_data fr) # store_calls l off frs"
  by (induction frs arbitrary: off) (simp_all add: add.assoc)

lemma unat_sum:
  fixes xs :: "u32 list"
  assumes "sum_list (map unat xs) < 2 ^ 32"
  shows "unat (sum_list xs) = sum_list (map unat xs)"
  using assms
proof (induction xs)
  case (Cons x xs)
  then have "unat (sum_list xs) = sum_list (map unat xs)" by simp
  with Cons.prems show ?case by (simp add: unat_add_lem[THEN iffD1])
qed simp

text \<open>A part of the fragments is smaller than the whole.\<close>

lemma part_less:
  assumes "\<forall>fr \<in> set frs. fragment_ok fr" and "k \<le> length frs"
    and "unat whole = sum_list (map (unat \<circ> bsize) frs)"
  shows "sum_list (map bsize (take k frs)) < whole \<longleftrightarrow> k < length frs"
proof -
  have split: "sum_list (map (unat \<circ> bsize) frs) =
      sum_list (map (unat \<circ> bsize) (take k frs)) + sum_list (map (unat \<circ> bsize) (drop k frs))"
    by (metis append_take_drop_id map_append sum_list_append)
  have "sum_list (map (unat \<circ> bsize) frs) < 2 ^ 32" using unsigned_less[of whole, where 'a = nat] assms(3) by simp
  then have "unat (sum_list (map bsize (take k frs))) = sum_list (map (unat \<circ> bsize) (take k frs))"
    using unat_sum[of "map bsize (take k frs)"] split by simp
  moreover have "0 < sum_list (map (unat \<circ> bsize) (drop k frs)) \<longleftrightarrow> k < length frs"
  proof (cases "k < length frs")
    case True
    then have "drop k frs = frs ! k # drop (Suc k) frs" by (simp add: Cons_nth_drop_Suc)
    moreover have "0 < unat (bsize (frs ! k))"
      using assms(1) True nth_mem[OF True] by (auto simp: fragment_ok_def unat_gt_0 word_gt_0)
    ultimately show ?thesis using True by simp
  qed simp
  ultimately show ?thesis using split assms(3) by (simp add: word_less_nat_alt)
qed

subsection \<open>One answer\<close>

text \<open>The hub is as far as the pipeline.\<close>

definition tracks :: "arm_uc_buffer_t list \<Rightarrow> nat \<Rightarrow> u32 \<Rightarrow> u32 \<Rightarrow> ext_call list \<Rightarrow> nat \<times> nat \<times> nat \<Rightarrow> 'z hub_scheme \<Rightarrow> bool" where
  "tracks frs cfg location whole before x s \<longleftrightarrow> (case x of (r, w, c) \<Rightarrow>
     receiving cfg location whole s \<and> arm_uc_hub_state s = phase (length frs) x \<and>
     firmware_offset s = sum_list (map bsize (take w frs)) \<and>
     writes s = store_calls location 0 (take w frs) @ before \<and>
     (w < r \<longrightarrow> mem s (hub_front_buffer s) = frs ! w \<and> c < w) \<and>
     w \<le> r \<and> r \<le> Suc w \<and> r \<le> length frs \<and> c \<le> w \<and> w \<le> Suc c)"

lemma enter_store:
  assumes "serving (env (plat h))" and "receiving cfg location whole s"
    and "firmware_offset s = sum_list (map bsize (take w frs))"
    and "writes s = store_calls location 0 (take w frs) @ before"
    and "mem s (hub_front_buffer s) = frs ! w" and "w < length frs" and "\<forall>fr \<in> set frs. fragment_ok fr"
    and "unat whole = sum_list (map (unat \<circ> bsize) frs)"
  shows "\<exists>s'. ARM_UC_HUB_setState (Suc (Suc n)) h ARM_UC_HUB_STATE_STORE_AND_DOWNLOAD s = Some s' \<and>
    receiving cfg location whole s' \<and> firmware_offset s' = sum_list (map bsize (take (Suc w) frs)) \<and>
    writes s' = store_calls location 0 (take (Suc w) frs) @ before \<and>
    arm_uc_hub_state s' = (if Suc w < length frs then ARM_UC_HUB_STATE_STORE_AND_DOWNLOAD
      else ARM_UC_HUB_STATE_AWAIT_LAST_FRAGMENT_STORED)"
proof -
  let ?s = "s\<lparr>arm_uc_hub_state := ARM_UC_HUB_STATE_STORE_AND_DOWNLOAD\<rparr>"
  let ?err = "ARM_UC_HUB_ErrorHandler (ARM_UC_HUB_setState (Suc n) h) (env (plat h))"
  have t: "take (Suc w) frs = take w frs @ [frs ! w]" using assms(6) by (simp add: take_Suc_conv_app_nth)
  have off: "firmware_offset s + bsize (frs ! w) = sum_list (map bsize (take (Suc w) frs))"
    using assms(3) by (simp add: t)
  obtain s1 where s1: "hub_store_and_download h ?err ?s = Some (if firmware_offset ?s + bsize (frs ! w) < whole
        then ARM_UC_HUB_STATE_STORE_AND_DOWNLOAD else ARM_UC_HUB_STATE_AWAIT_LAST_FRAGMENT_STORED, s1)"
    "receiving cfg location whole s1" "firmware_offset s1 = firmware_offset ?s + bsize (frs ! w)"
    "arm_uc_hub_state s1 = arm_uc_hub_state ?s"
    "writes s1 = PAAL_Write location (firmware_offset ?s) (fragment_data (frs ! w)) # writes ?s"
    using store_and_download[OF assms(1), of cfg location whole ?s "frs ! w"] assms(2,5,6,7) by auto
  have w: "writes s1 = store_calls location 0 (take (Suc w) frs) @ before"
    using s1(5) assms(3,4) by (simp add: t store_calls_snoc writes_def)
  have less: "firmware_offset s + bsize (frs ! w) < whole \<longleftrightarrow> Suc w < length frs"
    unfolding off using part_less[OF assms(7) _ assms(8), of "Suc w"] assms(6) by simp
  let ?s2 = "if Suc w < length frs then s1 else s1\<lparr>arm_uc_hub_state := ARM_UC_HUB_STATE_AWAIT_LAST_FRAGMENT_STORED\<rparr>"
  have "ARM_UC_HUB_setState (Suc (Suc n)) h ARM_UC_HUB_STATE_STORE_AND_DOWNLOAD s = Some ?s2"
    using s1(1,4) less
    by (simp del: ARM_UC_HUB_setState.simps add: set_state_round[of "Suc n"] set_state_round[of n] hub_case_def)
  moreover have "writes (s1\<lparr>arm_uc_hub_state := st\<rparr>) = writes s1" for st by (simp add: writes_def)
  ultimately show ?thesis using s1(2,3,4) w off by simp
qed

lemma writes_state [simp]: "writes (s\<lparr>arm_uc_hub_state := st\<rparr>) = writes s"
  by (simp add: writes_def)

lemma set_state_plain:
  "st \<in> {ARM_UC_HUB_STATE_WAIT_FOR_STORAGE, ARM_UC_HUB_STATE_WAIT_FOR_NETWORK} \<Longrightarrow>
     ARM_UC_HUB_setState (Suc n) h st s = Some (s\<lparr>arm_uc_hub_state := st\<rparr>)"
  by (auto simp: hub_case_def)

lemma last_stored:
  assumes "receiving cfg location whole s"
  shows "\<exists>s'. ARM_UC_HUB_setState (Suc (Suc n)) h ARM_UC_HUB_STATE_LAST_FRAGMENT_STORE_DONE s = Some s' \<and>
    receiving cfg location whole s' \<and> firmware_offset s' = firmware_offset s \<and> writes s' = writes s \<and>
    arm_uc_hub_state s' = ARM_UC_HUB_STATE_AWAIT_LAST_FRAGMENT_MONITOR_REPORT_DONE"
  using assms
  by (simp del: ARM_UC_HUB_setState.simps add: set_state_round[of "Suc n"] set_state_round[of n] hub_case_def hub_install_def
      ARM_UC_ControlCenter_ReportState_def monitor_send_def ext_def Let_def writes_def receiving_def)

lemma network_answers:
  assumes "serving (env (plat h))" and "\<forall>fr \<in> set frs. fragment_ok fr"
    and "unat whole = sum_list (map (unat \<circ> bsize) frs)"
    and "tracks frs cfg location whole before (r, w, c) s" and "pipeline (length frs) Network (r, w, c) = Some x"
  shows "\<exists>s'. hub_call (Suc (Suc n)) h SM ARM_UC_SM_EVENT_FIRMWARE (set_buf (hub_front_buffer s) (frs ! r) s) = Some s' \<and>
    tracks frs cfg location whole before x s'"
proof -
  let ?s = "set_buf (hub_front_buffer s) (frs ! r) s"
  have p: "r = w" "r < length frs" "x = (Suc r, if c = w then Suc w else w, c)"
    using assms(5) by (auto split: if_splits)
  have t: "receiving cfg location whole ?s" "firmware_offset ?s = sum_list (map bsize (take w frs))"
    "writes ?s = store_calls location 0 (take w frs) @ before" "mem ?s (hub_front_buffer ?s) = frs ! w"
    "arm_uc_hub_state ?s = phase (length frs) (r, w, c)" "c \<le> w" "w \<le> Suc c"
    using assms(4) p(1) by (auto simp: tracks_def set_buf_def writes_def receiving_def)
  note call = hub_call_def hub_handler_def ARM_UC_HUB_SourceManagerEventHandler_def ARM_UC_HUB_getState_def Let_def
  show ?thesis
  proof (cases "c = w")
    case True
    obtain s' where s': "ARM_UC_HUB_setState (Suc (Suc n)) h ARM_UC_HUB_STATE_STORE_AND_DOWNLOAD ?s = Some s'"
      "receiving cfg location whole s'" "firmware_offset s' = sum_list (map bsize (take (Suc w) frs))"
      "writes s' = store_calls location 0 (take (Suc w) frs) @ before"
      "arm_uc_hub_state s' = (if Suc w < length frs then ARM_UC_HUB_STATE_STORE_AND_DOWNLOAD
        else ARM_UC_HUB_STATE_AWAIT_LAST_FRAGMENT_STORED)"
      using enter_store[OF assms(1) t(1-4) _ assms(2,3), of n] p by auto
    have "arm_uc_hub_state ?s = ARM_UC_HUB_STATE_FETCH_FIRST_FRAGMENT \<or> arm_uc_hub_state ?s = ARM_UC_HUB_STATE_WAIT_FOR_NETWORK"
      using t(5) p True by auto
    then have "hub_call (Suc (Suc n)) h SM ARM_UC_SM_EVENT_FIRMWARE ?s = Some s'"
      using s'(1) by (auto simp: call simp del: ARM_UC_HUB_setState.simps)
    moreover have "tracks frs cfg location whole before x s'"
      using s'(2-5) p True by (simp add: tracks_def)
    ultimately show ?thesis by blast
  next
    case False
    then have "arm_uc_hub_state ?s = ARM_UC_HUB_STATE_STORE_AND_DOWNLOAD" using t(5-7) p by auto
    then have "hub_call (Suc (Suc n)) h SM ARM_UC_SM_EVENT_FIRMWARE ?s =
        Some (?s\<lparr>arm_uc_hub_state := ARM_UC_HUB_STATE_WAIT_FOR_STORAGE\<rparr>)"
      by (simp add: call set_state_plain del: ARM_UC_HUB_setState.simps)
    moreover have "tracks frs cfg location whole before x (?s\<lparr>arm_uc_hub_state := ARM_UC_HUB_STATE_WAIT_FOR_STORAGE\<rparr>)"
      using t p False by (simp add: tracks_def)
    ultimately show ?thesis by blast
  qed
qed

lemma storage_answers:
  assumes "serving (env (plat h))" and "\<forall>fr \<in> set frs. fragment_ok fr"
    and "unat whole = sum_list (map (unat \<circ> bsize) frs)"
    and "tracks frs cfg location whole before (r, w, c) s" and "pipeline (length frs) Storage (r, w, c) = Some x"
  shows "\<exists>s'. hub_call (Suc (Suc n)) h FM UCFM_EVENT_WRITE_DONE s = Some s' \<and> tracks frs cfg location whole before x s'"
proof -
  have p: "c < w" "x = (r, if w < r then Suc w else w, Suc c)" using assms(5) by (auto split: if_splits)
  have t: "receiving cfg location whole s" "firmware_offset s = sum_list (map bsize (take w frs))"
    "writes s = store_calls location 0 (take w frs) @ before" "w < r \<Longrightarrow> mem s (hub_front_buffer s) = frs ! w"
    "arm_uc_hub_state s = phase (length frs) (r, w, c)" "w \<le> r" "r \<le> Suc w" "r \<le> length frs" "w \<le> Suc c"
    using assms(4) by (auto simp: tracks_def)
  note call = hub_call_def hub_handler_def ARM_UC_HUB_FirmwareManagerEventHandler_def ARM_UC_HUB_getState_def Let_def
  consider (waiting) "w < r" | (more) "w = r" "w < length frs" | (last) "w = r" "w = length frs"
    using t(6-8) by linarith
  then show ?thesis
  proof cases
    case waiting
    have "w < length frs" using waiting t(8) by simp
    then obtain s' where s': "ARM_UC_HUB_setState (Suc (Suc n)) h ARM_UC_HUB_STATE_STORE_AND_DOWNLOAD s = Some s'"
      "receiving cfg location whole s'" "firmware_offset s' = sum_list (map bsize (take (Suc w) frs))"
      "writes s' = store_calls location 0 (take (Suc w) frs) @ before"
      "arm_uc_hub_state s' = (if Suc w < length frs then ARM_UC_HUB_STATE_STORE_AND_DOWNLOAD
        else ARM_UC_HUB_STATE_AWAIT_LAST_FRAGMENT_STORED)"
      using enter_store[OF assms(1) t(1-3) t(4)[OF waiting] _ assms(2,3), of n] by auto
    have "arm_uc_hub_state s = ARM_UC_HUB_STATE_WAIT_FOR_STORAGE" using t(5) waiting by simp
    then have "hub_call (Suc (Suc n)) h FM UCFM_EVENT_WRITE_DONE s = Some s'"
      using s'(1) by (simp add: call del: ARM_UC_HUB_setState.simps)
    moreover have "tracks frs cfg location whole before x s'"
      using s'(2-5) p t waiting by (auto simp: tracks_def)
    ultimately show ?thesis by blast
  next
    case more
    then have "arm_uc_hub_state s = ARM_UC_HUB_STATE_STORE_AND_DOWNLOAD" using t(5) p by simp
    then have "hub_call (Suc (Suc n)) h FM UCFM_EVENT_WRITE_DONE s = Some (s\<lparr>arm_uc_hub_state := ARM_UC_HUB_STATE_WAIT_FOR_NETWORK\<rparr>)"
      by (simp add: call set_state_plain del: ARM_UC_HUB_setState.simps)
    moreover have "tracks frs cfg location whole before x (s\<lparr>arm_uc_hub_state := ARM_UC_HUB_STATE_WAIT_FOR_NETWORK\<rparr>)"
      using t p more by (auto simp: tracks_def)
    ultimately show ?thesis by blast
  next
    case last
    then have "arm_uc_hub_state s = ARM_UC_HUB_STATE_AWAIT_LAST_FRAGMENT_STORED" using t(5) p by simp
    moreover obtain s' where s': "ARM_UC_HUB_setState (Suc (Suc n)) h ARM_UC_HUB_STATE_LAST_FRAGMENT_STORE_DONE s = Some s'"
      "receiving cfg location whole s'" "firmware_offset s' = firmware_offset s" "writes s' = writes s"
      "arm_uc_hub_state s' = ARM_UC_HUB_STATE_AWAIT_LAST_FRAGMENT_MONITOR_REPORT_DONE"
      using last_stored[OF t(1)] by blast
    ultimately have "hub_call (Suc (Suc n)) h FM UCFM_EVENT_WRITE_DONE s = Some s'"
      by (simp add: call del: ARM_UC_HUB_setState.simps)
    moreover have "tracks frs cfg location whole before x s'"
      using s' t p last by (auto simp: tracks_def)
    ultimately show ?thesis by blast
  qed
qed

lemma download_tracks:
  assumes "serving (env (plat h))" and "\<forall>fr \<in> set frs. fragment_ok fr"
    and "unat whole = sum_list (map (unat \<circ> bsize) frs)"
    and "tracks frs cfg location whole before x s" and "pipelined (length frs) as x = Some y"
  shows "\<exists>s'. download (Suc (Suc n)) h as (drop (fst x) frs) s = Some s' \<and> tracks frs cfg location whole before y s'"
  using assms(4,5)
proof (induction as arbitrary: x s)
  case (Cons a as)
  obtain r w c where x: "x = (r, w, c)" by (cases x)
  obtain z where z: "pipeline (length frs) a (r, w, c) = Some z" "pipelined (length frs) as z = Some y"
    using Cons.prems(2) by (auto simp: x bind_eq_Some_conv)
  show ?case
  proof (cases a)
    case Network
    obtain s1 where s1: "hub_call (Suc (Suc n)) h SM ARM_UC_SM_EVENT_FIRMWARE (set_buf (hub_front_buffer s) (frs ! r) s) = Some s1"
      "tracks frs cfg location whole before z s1"
      using network_answers[OF assms(1-3)] Cons.prems(1) z(1) x Network by blast
    have r: "r < length frs" "fst z = Suc r" using z(1) Network by (auto split: if_splits)
    then have "drop r frs = frs ! r # drop (Suc r) frs" by (simp add: Cons_nth_drop_Suc)
    then show ?thesis using Cons.IH[OF s1(2) z(2)] s1(1) r Network x by simp
  next
    case Storage
    obtain s1 where s1: "hub_call (Suc (Suc n)) h FM UCFM_EVENT_WRITE_DONE s = Some s1"
      "tracks frs cfg location whole before z s1"
      using storage_answers[OF assms(1-3)] Cons.prems(1) z(1) x Storage by blast
    have "fst z = r" using z(1) Storage by (auto split: if_splits)
    then show ?thesis using Cons.IH[OF s1(2) z(2)] s1(1) Storage x by simp
  qed
qed simp

text \<open>The pipeline goes on until all is done, and each answer brings it closer.\<close>

fun sound :: "nat \<Rightarrow> nat \<times> nat \<times> nat \<Rightarrow> bool" where
  "sound m (r, w, c) \<longleftrightarrow> c \<le> w \<and> w \<le> r \<and> r \<le> m \<and> r \<le> Suc w \<and> w \<le> Suc c \<and> (w < r \<longrightarrow> c < w)"

lemma pipelined_counts:
  assumes "pipelined m as x = Some y" and "sound m x"
  shows "sound m y \<and> fst y + snd (snd y) = fst x + snd (snd x) + length as"
  using assms
proof (induction as arbitrary: x)
  case (Cons a as)
  obtain r w c where x: "x = (r, w, c)" by (cases x)
  obtain z where z: "pipeline m a (r, w, c) = Some z" "pipelined m as z = Some y"
    using Cons.prems(1) by (auto simp: x bind_eq_Some_conv)
  have "sound m z \<and> fst z + snd (snd z) = Suc (r + c)"
    using z(1) Cons.prems(2) x by (cases a) (auto split: if_splits)
  with Cons.IH[OF z(2)] show ?case by (simp add: x)
qed simp

lemma pipeline_due: "sound m (r, w, c) \<Longrightarrow> r + c < 2 * m \<Longrightarrow> \<exists>a x. pipeline m a (r, w, c) = Some x"
proof -
  assume s: "sound m (r, w, c)" and l: "r + c < 2 * m"
  show ?thesis
  proof (cases "c < w")
    case True
    then have "pipeline m Storage (r, w, c) \<noteq> None" by simp
    then show ?thesis by blast
  next
    case False
    then have "pipeline m Network (r, w, c) \<noteq> None" using s l by auto
    then show ?thesis by blast
  qed
qed

subsection \<open>Properties\<close>

lemma tracks_start:
  assumes "receiving cfg location whole s" and "arm_uc_hub_state s = ARM_UC_HUB_STATE_FETCH_FIRST_FRAGMENT"
    and "firmware_offset s = 0"
  shows "tracks frs cfg location whole (writes s) (0, 0, 0) s"
  using assms by (simp add: tracks_def)



text \<open>An image of six bytes in two fragments; the second one arrives before the first is stored.\<close>

definition good_network :: environment where
  "good_network calls = (case hd calls of
       SRC_GetCapabilities src \<Rightarrow> no_reply\<lparr>rnum := 8\<rparr>
     | SRC_GetCost src t \<Rightarrow> no_reply\<lparr>rnum := 10\<rparr>
     | _ \<Rightarrow> no_reply)"

definition downloading :: hub where
  "downloading = hub_static\<lparr>arm_uc_hub_state := ARM_UC_HUB_STATE_FETCH_FIRST_FRAGMENT, ready_to_receive := True,
     source_registry := Some 5 # replicate 9 None, fw_downloadSize := 6\<rparr>"

definition two_fragments :: "arm_uc_buffer_t list" where
  "two_fragments = [\<lparr>size_max = 4, bsize = 4, ptr = [1, 2, 3, 4]\<rparr>, \<lparr>size_max = 4, bsize = 2, ptr = [5, 6, 7, 8]\<rparr>]"

lemma good_network_serving: "serving good_network"
proof -
  have "steady good_network" by (simp add: steady_def good_network_def)
  moreover have "source_offer good_network (Some uri) QUERY_TYPE_FIRMWARE src \<noteq> None" for uri src
    by (simp add: source_offer_def good_network_def no_reply_def err_error_def bit_simps Let_def)
  moreover have "rcode (good_network [SRC_GetFirmwareFragment src uri b off]) = ERR_NONE"
    "rcode (good_network [PAAL_Write location off d]) = ERR_NONE" for src uri b off location d
    by (simp_all add: good_network_def no_reply_def)
  ultimately show ?thesis unfolding serving_def by blast
qed

lemma downloading_receiving: "receiving 0 0 6 downloading"
proof -
  have "\<exists>k<10. source_registry downloading ! k \<noteq> None" by (rule exI[of _ 0]) (simp add: downloading_def)
  then show ?thesis by (simp add: receiving_def) (simp add: downloading_def hub_static_def test_setup_def)
qed

lemma two_fragments_ok: "\<forall>fr \<in> set two_fragments. fragment_ok fr"
  by (simp add: two_fragments_def fragment_ok_def)



end
