(* ===== verification/Varint.thy ===== *)
theory Varint
  imports UC_Prelude
begin

text \<open>
  \<open>delta-tool-internal/source/varint.c\<close>: numbers as bytes of seven bits each, the lowest first, the
  top bit saying that more follow. The decoders take one byte at a time, with the value so far
  behind a pointer; the encoders are loops over a buffer. The second half has the bytes of a number
  as a specification, and what the two directions make of each other.
\<close>

subsection \<open>Codes\<close>

abbreviation (input) ERR_BUFFER_TOO_SMALL :: int where "ERR_BUFFER_TOO_SMALL \<equiv> - 7"
abbreviation (input) ERR_PARAMETTERS :: int where "ERR_PARAMETTERS \<equiv> - 6"
abbreviation (input) OPERATION_COMPLETED :: int where "OPERATION_COMPLETED \<equiv> 0"
abbreviation (input) OPERATION_NEEDS_MORE_DATA :: int where "OPERATION_NEEDS_MORE_DATA \<equiv> 1"
abbreviation (input) TOP_BIT_ON_BYTE :: u8 where "TOP_BIT_ON_BYTE \<equiv> 128"
abbreviation (input) TOP_BIT_OFF_BYTE :: u8 where "TOP_BIT_OFF_BYTE \<equiv> 127"

subsection \<open>Decoding\<close>

text \<open>The value is behind a pointer, which is \<open>None\<close> when it is \<open>NULL\<close>.\<close>

definition varint_byte :: "u8 \<Rightarrow> u64 \<Rightarrow> int \<Rightarrow> u64" where
  "varint_byte varIntByte v count =
     (let v = (if count = 0 then 0 else v);
          byteAs64int = (push_bit 7 ^^ nat count) (ucast (varIntByte AND TOP_BIT_OFF_BYTE))
      in v OR byteAs64int)"

definition decode_unsigned_varint :: "u8 \<Rightarrow> u64 option \<Rightarrow> int \<Rightarrow> int \<times> u64 option" where
  "decode_unsigned_varint varIntByte varIntValue count =
     (case varIntValue of
        None \<Rightarrow> (ERR_PARAMETTERS, None)
      | Some v \<Rightarrow>
          if count > 9 then (ERR_PARAMETTERS, Some v)
          else (if varIntByte AND TOP_BIT_ON_BYTE \<noteq> 0 then OPERATION_NEEDS_MORE_DATA else OPERATION_COMPLETED,
                Some (varint_byte varIntByte v count)))"

definition decode_signed_varint :: "u8 \<Rightarrow> u64 option \<Rightarrow> int \<Rightarrow> int \<times> u64 option" where
  "decode_signed_varint varIntByte varIntValue count =
     (case varIntValue of
        None \<Rightarrow> (ERR_PARAMETTERS, None)
      | Some v \<Rightarrow>
          if count > 9 then (ERR_PARAMETTERS, Some v)
          else let v = varint_byte varIntByte v count in
            if varIntByte AND TOP_BIT_ON_BYTE \<noteq> 0 then (OPERATION_NEEDS_MORE_DATA, Some v)
            else (OPERATION_COMPLETED,
                  Some (if v AND 1 \<noteq> 0 then signed_drop_bit 1 v * -1 else signed_drop_bit 1 v)))"

subsection \<open>Encoding\<close>

text \<open>
  The \<open>do\<close> loops. The signed one shifts an \<open>int64_t\<close>, so that a value whose top bit is set ends it
  after one byte; both need a smaller value for another round.
\<close>

function encode_unsigned_loop :: "u64 \<Rightarrow> bytes \<Rightarrow> nat \<Rightarrow> u32 \<Rightarrow> (int \<times> bytes) option" where
  "encode_unsigned_loop value buf pos BUFF_SIZE_MAX =
     (if pos \<ge> unat BUFF_SIZE_MAX then Some (ERR_BUFFER_TOO_SMALL, buf)
      else do {
        let more = drop_bit 7 value;
        buf \<leftarrow> wr buf pos (if more > 0 then ucast value OR TOP_BIT_ON_BYTE else ucast value AND TOP_BIT_OFF_BYTE);
        if more > 0 then encode_unsigned_loop more buf (pos + 1) BUFF_SIZE_MAX
        else Some (int (pos + 1), buf)
      })"
  by pat_completeness auto
termination
proof (relation "measure (\<lambda>(value, buf, pos, m). unat value)")
  fix v :: u64 and pos :: nat and m :: u32 and more buf' buf
  assume "more = drop_bit 7 v" and "0 < more"
  then have m: "unat more = unat v div 128" by (simp add: drop_bit_eq_div unat_div)
  moreover have "0 < unat more" using \<open>0 < more\<close> by (simp only: unat_gt_0 word_gt_0)
  ultimately show "((more, buf', pos + 1, m), v, buf, pos, m) \<in> measure (\<lambda>(value, buf, pos, m). unat value)" by simp
qed simp

definition encode_unsigned_varint :: "u64 \<Rightarrow> bytes \<Rightarrow> u32 \<Rightarrow> (int \<times> bytes) option" where
  "encode_unsigned_varint value buf BUFF_SIZE_MAX = encode_unsigned_loop value buf 0 BUFF_SIZE_MAX"

function encode_signed_loop :: "u64 \<Rightarrow> bytes \<Rightarrow> nat \<Rightarrow> u32 \<Rightarrow> (int \<times> bytes) option" where
  "encode_signed_loop value buf pos BUFF_SIZE_MAX =
     (if pos \<ge> unat BUFF_SIZE_MAX then Some (ERR_BUFFER_TOO_SMALL, buf)
      else do {
        let more = signed_drop_bit 7 value;
        buf \<leftarrow> wr buf pos (if 0 <s more then ucast value OR TOP_BIT_ON_BYTE else ucast value AND TOP_BIT_OFF_BYTE);
        if 0 <s more then encode_signed_loop more buf (pos + 1) BUFF_SIZE_MAX
        else Some (int (pos + 1), buf)
      })"
  by pat_completeness auto
termination
proof (relation "measure (\<lambda>(value, buf, pos, m). nat (sint value))")
  fix v :: u64 and pos :: nat and m :: u32 and more buf' buf
  assume "more = signed_drop_bit 7 v" and "0 <s more"
  then have "sint more = sint v div 128" "0 < sint more"
    by (simp_all add: sint_signed_drop_bit_eq drop_bit_eq_div word_sless_alt)
  then show "((more, buf', pos + 1, m), v, buf, pos, m) \<in> measure (\<lambda>(value, buf, pos, m). nat (sint value))" by auto
qed simp

definition encode_signed_varint :: "u64 \<Rightarrow> bytes \<Rightarrow> u32 \<Rightarrow> (int \<times> bytes) option" where
  "encode_signed_varint value buf BUFF_SIZE_MAX =
     encode_signed_loop (if value <s 0 then push_bit 1 (value * -1) OR 1 else push_bit 1 value) buf 0 BUFF_SIZE_MAX"

subsection \<open>Numbers as bytes\<close>

text \<open>Seven bits a byte, the lowest first; the top bit says that more follow.\<close>

fun varint :: "nat \<Rightarrow> bytes" where
  "varint n = (if n < 128 then [of_nat n] else of_nat (n mod 128 + 128) # varint (n div 128))"

declare varint.simps [simp del]

lemma varint_small: "n < 128 \<Longrightarrow> varint n = [of_nat n]"
  by (simp add: varint.simps)

lemma varint_large: "\<not> n < 128 \<Longrightarrow> varint n = of_nat (n mod 128 + 128) # varint (n div 128)"
  by (subst varint.simps) simp

lemma varint_nonempty [simp]: "varint n \<noteq> []" "0 < length (varint n)"
  by (subst varint.simps, simp)+

lemma mask_127: "(127 :: u8) = mask 7"
  by (simp add: mask_eq_exp_minus_1)

lemma push_128: "(128 :: u8) = push_bit 7 1"
  by simp

lemma bit_127: "bit (127 :: u8) n \<longleftrightarrow> n < 7"
  by (subst mask_127) (auto simp: bit_simps)

lemma bit_128: "bit (128 :: u8) n \<longleftrightarrow> n = 7"
  by (simp only: push_128 bit_push_bit_iff bit_1_iff) auto

lemma byte_last: "(ucast (v :: u64) AND 127 :: u8) = of_nat (unat v mod 128)"
proof -
  have "ucast v AND 127 = take_bit 7 (ucast v :: u8)" by (simp only: mask_127 take_bit_eq_mask)
  also have "unat \<dots> = take_bit 7 (unat v)" by (simp add: unsigned_take_bit_eq unsigned_ucast_eq)
  finally have "unat (ucast v AND 127 :: u8) = unat v mod 128" by (simp add: take_bit_eq_mod)
  moreover have "x = of_nat (unat x)" for x :: u8 by simp
  ultimately show ?thesis by metis
qed

lemma byte_more: "(ucast (v :: u64) OR 128 :: u8) = of_nat (unat v mod 128 + 128)"
proof -
  have "(ucast v :: u8) OR 128 = (ucast v AND 127) OR 128"
    by (rule bit_word_eqI) (simp only: bit_or_iff bit_and_iff bit_127 bit_128, auto)
  also have "\<dots> = (ucast v AND 127) + 128"
    by (rule disjunctive_add[symmetric]) (simp only: bit_and_iff bit_127 bit_128, simp)
  finally show ?thesis by (simp add: byte_last)
qed

lemma unat_byte: "n < 256 \<Longrightarrow> unat (of_nat n :: u8) = n"
  by (simp add: unat_of_nat)

lemma byte_parts:
  "n < 128 \<Longrightarrow> (of_nat n :: u8) AND 128 = 0" "n < 128 \<Longrightarrow> (of_nat (n + 128) :: u8) AND 128 \<noteq> 0"
  "n < 128 \<Longrightarrow> (of_nat n :: u8) AND 127 = of_nat n" "n < 128 \<Longrightarrow> (of_nat (n + 128) :: u8) AND 127 = of_nat n"
proof -
  assume n: "n < 128"
  let ?b = "of_nat n :: u8"
  have "take_bit 7 n = n" using n by (simp add: take_bit_nat_eq_self_iff)
  then have t: "take_bit 7 ?b = ?b" by (metis take_bit_of_nat)
  then have b: "bit ?b k \<Longrightarrow> k < 7" for k by (metis bit_take_bit_iff)
  then have "\<not> bit ?b 7" by blast
  then show "?b AND 128 = 0" by (intro bit_word_eqI) (simp only: bit_and_iff bit_128 bit_0_eq, auto)
  show m: "?b AND 127 = ?b" using t by (simp only: mask_127 take_bit_eq_mask)
  have p: "of_nat (n + 128) = ?b OR 128"
  proof -
    have "of_nat (n + 128) = ?b + 128" by simp
    also have "\<dots> = ?b OR 128" using b by (intro disjunctive_add) (simp only: bit_128, auto)
    finally show ?thesis .
  qed
  have "(?b OR 128) AND 128 = 128"
    by (rule bit_word_eqI) (simp only: bit_and_iff bit_or_iff bit_128, auto)
  then show "of_nat (n + 128) AND (128 :: u8) \<noteq> 0" by (simp only: p) simp
  have "(?b OR 128) AND 127 = ?b AND 127"
    by (rule bit_word_eqI) (simp only: bit_and_iff bit_or_iff bit_128 bit_127, auto)
  then show "of_nat (n + 128) AND (127 :: u8) = of_nat n" by (simp only: p m)
qed

subsection \<open>The encoders write these bytes\<close>

lemma unat_more: "unat (drop_bit 7 (v :: u64)) = unat v div 128"
  by (simp add: drop_bit_eq_div unat_div)

lemma more_positive: "0 < drop_bit 7 (v :: u64) \<longleftrightarrow> \<not> unat v < 128"
proof -
  have "0 < drop_bit 7 v \<longleftrightarrow> 0 < unat (drop_bit 7 v)" by (simp only: unat_gt_0 word_gt_0) auto
  also have "\<dots> \<longleftrightarrow> \<not> unat v < 128" by (simp only: unat_more div_greater_zero_iff) auto
  finally show ?thesis .
qed

declare encode_unsigned_loop.simps [simp del]

lemma encode_unsigned_step:
  "encode_unsigned_loop v buf pos m =
     (if unat m \<le> pos then Some (ERR_BUFFER_TOO_SMALL, buf)
      else if unat v < 128 then map_option (\<lambda>buf. (int (pos + 1), buf)) (wr buf pos (of_nat (unat v)))
      else wr buf pos (of_nat (unat v mod 128 + 128)) \<bind> (\<lambda>buf. encode_unsigned_loop (drop_bit 7 v) buf (pos + 1) m))"
proof -
  have "unat v < 128 \<Longrightarrow> unat v mod 128 = unat v" by simp
  then show ?thesis
    by (subst encode_unsigned_loop.simps) (simp add: more_positive byte_last byte_more Let_def map_conv_bind_option comp_def)
qed

lemma encode_unsigned_loop_spec:
  assumes "unat m \<le> length buf"
  shows "\<exists>buf'. length buf' = length buf \<and> encode_unsigned_loop v buf pos m =
    Some (if pos + length (varint (unat v)) \<le> unat m
          then (int (pos + length (varint (unat v))), take pos buf @ varint (unat v) @ drop (pos + length (varint (unat v))) buf)
          else (ERR_BUFFER_TOO_SMALL, buf'))"
  using assms
proof (induction v buf pos m rule: encode_unsigned_loop.induct)
  case (1 v buf pos m)
  show ?case
  proof (cases "unat m \<le> pos \<or> unat v < 128")
    case True
    moreover have "0 < length (varint (unat v))" by simp
    then have "unat m \<le> pos \<Longrightarrow> \<not> pos + length (varint (unat v)) \<le> unat m" by linarith
    ultimately show ?thesis using 1(2)
      by (subst encode_unsigned_step) (auto simp: varint_small wr_def upd_conv_take_nth_drop)
  next
    case False
    then have pos: "pos < length buf" "\<not> unat m \<le> pos" "\<not> unat v < 128" using 1(2) by auto
    let ?b = "buf[pos := of_nat (unat v mod 128 + 128)]"
    have p: "0 < drop_bit 7 v" using pos(3) more_positive by simp
    have w: "wr buf pos (of_nat (unat v mod 128 + 128)) = Some ?b" using pos by (simp add: wr_def)
    have "\<exists>buf'. length buf' = length ?b \<and> encode_unsigned_loop (drop_bit 7 v) ?b (pos + 1) m =
      Some (if pos + 1 + length (varint (unat v div 128)) \<le> unat m
          then (int (pos + 1 + length (varint (unat v div 128))),
                take (pos + 1) ?b @ varint (unat v div 128) @ drop (pos + 1 + length (varint (unat v div 128))) ?b)
          else (ERR_BUFFER_TOO_SMALL, buf'))"
      using 1(1)[OF pos(2) refl _ p, of ?b] p w byte_more[of v] pos(1) 1(2) by (simp only: unat_more if_True length_list_update)
    moreover have "take (pos + 1) ?b = take pos buf @ [of_nat (unat v mod 128 + 128)]"
      using pos by (simp add: upd_conv_take_nth_drop take_Suc_conv_app_nth)
    ultimately show ?thesis
      using pos by (subst encode_unsigned_step) (auto simp: wr_def varint_large[of "unat v"] split: if_split_asm)
  qed
qed

subsection \<open>The decoders read them\<close>

lemma push_iterated: "(push_bit 7 ^^ n) (w :: u64) = push_bit (7 * n) w"
  by (induction n) simp_all

lemma exp_128: "(128 :: nat) ^ c = 2 ^ (7 * c)"
  by (simp add: power_mult)

lemma or_sum:
  fixes a x :: nat
  assumes "a < 2 ^ k"
  shows "a OR push_bit k x = a + x * 2 ^ k"
proof -
  have a: "take_bit k a = a" using assms by (simp add: take_bit_nat_eq_self_iff)
  then have "bit a n \<Longrightarrow> n < k" for n by (metis bit_take_bit_iff)
  then have "a + push_bit k x = a OR push_bit k x" by (intro disjunctive_add) (metis bit_push_bit_iff not_le)
  then show ?thesis by (simp add: push_bit_eq_mult)
qed

lemma varint_byte_sum:
  assumes "c = 0 \<Longrightarrow> n = 0" and "c \<noteq> 0 \<Longrightarrow> n = unat v" and "n < 128 ^ c" and "n + x * 128 ^ c < 2 ^ 64"
    and "x < 128" and "b AND 127 = of_nat x"
  shows "unat (varint_byte b v (int c)) = n + x * 128 ^ c"
proof -
  let ?w = "push_bit (7 * c) (ucast (of_nat x :: u8)) :: u64"
  have "x * 128 ^ c < 2 ^ 64" using assms(4) by linarith
  then have p: "x * 2 ^ (7 * c) < 2 ^ 64" by (simp only: exp_128)
  have "unat (ucast (of_nat x :: u8) :: u64) = x" using assms(5) by (simp add: unsigned_ucast_eq unat_of_nat take_bit_nat_eq_self)
  then have "unat ?w = take_bit 64 (push_bit (7 * c) x)" by (simp add: unsigned_push_bit_eq)
  also have "\<dots> = push_bit (7 * c) x" using p by (simp add: take_bit_nat_eq_self_iff push_bit_eq_mult)
  finally have w: "unat ?w = push_bit (7 * c) x" .
  have "unat (varint_byte b v (int c)) = n OR push_bit (7 * c) x"
    using assms(1,2,6) w by (cases "c = 0") (simp_all add: varint_byte_def Let_def push_iterated unsigned_or_eq)
  also have "\<dots> = n + x * 2 ^ (7 * c)" using assms(3) by (intro or_sum) (simp only: exp_128)
  finally show ?thesis by (simp only: exp_128)
qed

text \<open>A reader that calls a decoder for one byte after the other, as the interface asks for.\<close>

fun decode_bytes :: "(u8 \<Rightarrow> u64 option \<Rightarrow> int \<Rightarrow> int \<times> u64 option) \<Rightarrow> int \<Rightarrow> u64 \<Rightarrow> bytes \<Rightarrow> (u64 \<times> bytes) option" where
  "decode_bytes decode count v [] = None"
| "decode_bytes decode count v (b # bs) =
     (case decode b (Some v) count of
        (r, Some v) \<Rightarrow> if r = OPERATION_COMPLETED then Some (v, bs)
                      else if r = OPERATION_NEEDS_MORE_DATA then decode_bytes decode (count + 1) v bs else None
      | _ \<Rightarrow> None)"

text \<open>The sign is in the lowest bit.\<close>

definition unsign :: "u64 \<Rightarrow> u64" where
  "unsign v = (if v AND 1 \<noteq> 0 then signed_drop_bit 1 v * -1 else signed_drop_bit 1 v)"

lemma decode_one:
  assumes "x < 128" and "c \<le> 9"
  shows "decode_unsigned_varint (of_nat x) (Some v) (int c) = (OPERATION_COMPLETED, Some (varint_byte (of_nat x) v (int c)))"
    and "decode_signed_varint (of_nat x) (Some v) (int c) = (OPERATION_COMPLETED, Some (unsign (varint_byte (of_nat x) v (int c))))"
    and "decode_unsigned_varint (of_nat (x + 128)) (Some v) (int c) =
      (OPERATION_NEEDS_MORE_DATA, Some (varint_byte (of_nat (x + 128)) v (int c)))"
    and "decode_signed_varint (of_nat (x + 128)) (Some v) (int c) =
      (OPERATION_NEEDS_MORE_DATA, Some (varint_byte (of_nat (x + 128)) v (int c)))"
  using assms byte_parts[OF assms(1)]
  by (simp_all add: decode_unsigned_varint_def decode_signed_varint_def Let_def unsign_def)

lemma decode_varint:
  assumes "c = 0 \<Longrightarrow> k = 0" and "c \<noteq> 0 \<Longrightarrow> k = unat v" and "k < 128 ^ c" and "k + n * 128 ^ c < 2 ^ 64" and "n = 0 \<Longrightarrow> c = 0"
  shows "decode_bytes decode_unsigned_varint (int c) v (varint n @ rest) = Some (of_nat (k + n * 128 ^ c), rest)"
    and "decode_bytes decode_signed_varint (int c) v (varint n @ rest) = Some (unsign (of_nat (k + n * 128 ^ c)), rest)"
proof -
  have "decode_bytes decode_unsigned_varint (int c) v (varint n @ rest) = Some (of_nat (k + n * 128 ^ c), rest) \<and>
    decode_bytes decode_signed_varint (int c) v (varint n @ rest) = Some (unsign (of_nat (k + n * 128 ^ c)), rest)"
    using assms
  proof (induction n arbitrary: c k v rule: varint.induct)
    case (1 n)
    have c: "c \<le> 9"
    proof (rule ccontr)
      assume "\<not> c \<le> 9"
      then have "(128 :: nat) ^ 10 \<le> 128 ^ c" by (intro power_increasing) simp_all
      moreover have "0 < n" using 1(6) \<open>\<not> c \<le> 9\<close> by auto
      then have "128 ^ c \<le> n * (128 :: nat) ^ c" by simp
      moreover have "(2 :: nat) ^ 64 \<le> 128 ^ 10" by simp
      ultimately show False using 1(5) by linarith
    qed
    show ?case
    proof (cases "n < 128")
      case True
      have "unat (varint_byte (of_nat n) v (int c)) = k + n * 128 ^ c"
        using varint_byte_sum[OF 1(2-5) True] byte_parts(3)[OF True] by simp
      then have "varint_byte (of_nat n) v (int c) = of_nat (k + n * 128 ^ c)" by (metis of_nat_unat ucast_id)
      then show ?thesis using decode_one(1,2)[OF True c] by (simp add: varint_small True)
    next
      case False
      let ?x = "n mod 128" and ?b = "of_nat (n mod 128 + 128) :: u8"
      have x: "?x < 128" by simp
      have s: "k + n * 128 ^ c = (k + ?x * 128 ^ c) + n div 128 * 128 ^ Suc c"
      proof -
        have "n * 128 ^ c = (?x + n div 128 * 128) * 128 ^ c" by (simp only: mod_div_mult_eq)
        also have "\<dots> = ?x * 128 ^ c + n div 128 * 128 ^ Suc c" by (simp only: add_mult_distrib power_Suc mult.assoc)
        finally show ?thesis by simp
      qed
      have v: "unat (varint_byte ?b v (int c)) = k + ?x * 128 ^ c"
        using varint_byte_sum[OF 1(2-4) _ x byte_parts(4)[OF x]] 1(5) s by linarith
      have "k + ?x * 128 ^ c < 128 ^ Suc c"
      proof -
        have "?x * 128 ^ c \<le> 127 * (128 :: nat) ^ c" using x by (intro mult_right_mono) simp_all
        moreover have "128 ^ Suc c = 127 * (128 :: nat) ^ c + 128 ^ c" by simp
        ultimately show ?thesis using 1(4) by linarith
      qed
      moreover have "n div 128 \<noteq> 0" using False by (simp add: div_eq_0_iff)
      ultimately have "decode_bytes decode_unsigned_varint (int (Suc c)) (varint_byte ?b v (int c)) (varint (n div 128) @ rest) =
          Some (of_nat (k + n * 128 ^ c), rest) \<and>
        decode_bytes decode_signed_varint (int (Suc c)) (varint_byte ?b v (int c)) (varint (n div 128) @ rest) =
          Some (unsign (of_nat (k + n * 128 ^ c)), rest)"
        unfolding s using 1(5)[unfolded s] v by (intro 1(1)[OF False]) simp_all
      then have ih: "decode_bytes decode_unsigned_varint (int (Suc c)) (varint_byte ?b v (int c)) (varint (n div 128) @ rest) =
          Some (of_nat (k + n * 128 ^ c), rest)"
        "decode_bytes decode_signed_varint (int (Suc c)) (varint_byte ?b v (int c)) (varint (n div 128) @ rest) =
          Some (unsign (of_nat (k + n * 128 ^ c)), rest)" by blast+
      have "int c + 1 = int (Suc c)" by simp
      then show ?thesis using ih
        by (simp only: varint_large[OF False] append_Cons decode_bytes.simps decode_one(3,4)[OF x c]) simp
    qed
  qed
  then show "decode_bytes decode_unsigned_varint (int c) v (varint n @ rest) = Some (of_nat (k + n * 128 ^ c), rest)"
    "decode_bytes decode_signed_varint (int c) v (varint n @ rest) = Some (unsign (of_nat (k + n * 128 ^ c)), rest)" by auto
qed

subsection \<open>Signed values\<close>

definition signed_code :: "int \<Rightarrow> nat" where
  "signed_code v = (if v < 0 then 2 * nat (- v) + 1 else 2 * nat v)"

definition svarint :: "int \<Rightarrow> bytes" where
  "svarint v = varint (signed_code v)"

text \<open>Below the sign bit the two loops agree.\<close>

lemma sint_below: "unat (w :: u64) < 2 ^ 63 \<Longrightarrow> sint w = int (unat w)"
proof -
  assume "unat w < 2 ^ 63"
  then have "int (unat w) < int (2 ^ 63)" by (simp only: of_nat_less_iff)
  then have "uint w < 2 ^ 63" by simp
  moreover have "- (2 ^ 63) \<le> uint w" by (rule order_trans[OF _ unsigned_greater_eq]) simp
  ultimately show ?thesis by (simp add: sint_uint signed_take_bit_int_eq_self)
qed

lemma signed_shift:
  assumes "unat (v :: u64) < 2 ^ 63"
  shows "signed_drop_bit 7 v = drop_bit 7 v" and "0 <s drop_bit 7 v \<longleftrightarrow> 0 < drop_bit 7 v"
    and "unat (drop_bit 7 v) < 2 ^ 63"
proof -
  note s = sint_below
  show l: "unat (drop_bit 7 v) < 2 ^ 63" using assms by (simp only: unat_more)
  have "sint (signed_drop_bit 7 v) = int (unat v) div 128" using s[OF assms] by (simp add: sint_signed_drop_bit_eq drop_bit_eq_div)
  also have "\<dots> = int (unat v div 128)" by (simp only: of_nat_div of_nat_numeral)
  also have "\<dots> = sint (drop_bit 7 v)" using s[OF l] by (simp add: unat_more)
  finally show "signed_drop_bit 7 v = drop_bit 7 v" by (rule signed_word_eqI)
  show "0 <s drop_bit 7 v \<longleftrightarrow> 0 < drop_bit 7 v" using s[OF l] by (simp add: word_sless_alt word_less_def)
qed

declare encode_signed_loop.simps [simp del]

lemma encode_loops_agree:
  "unat v < 2 ^ 63 \<Longrightarrow> encode_signed_loop v buf pos m = encode_unsigned_loop v buf pos m"
proof (induction v buf pos m rule: encode_unsigned_loop.induct)
  case (1 v buf pos m)
  note e = signed_shift[OF 1(2)]
  show ?case
    by (subst encode_signed_loop.simps, subst encode_unsigned_loop.simps)
      (use 1(1) e in \<open>auto simp: Let_def intro!: Option.bind_cong\<close>)
qed


lemma odd_word: "odd (unat (w :: u64)) \<longleftrightarrow> odd w"
  by (simp add: bit_unsigned_iff flip: bit_0)

text \<open>The sign moves to the lowest bit and back.\<close>

lemma signed_code_word:
  assumes "- (2 ^ 62) < sint v" and "sint v < 2 ^ 62"
  shows "(if v <s 0 then push_bit 1 (v * -1) OR 1 else push_bit 1 v) = of_nat (signed_code (sint v))"
    and "signed_code (sint v) < 2 ^ 63" and "unsign (of_nat (signed_code (sint v))) = v"
proof -
  have int_sint: "w = of_int (sint w)" for w :: u64 by simp
  note v = int_sint[of v]
  have or1: "push_bit 1 w OR 1 = 2 * w + (1 :: u64)" for w
  proof -
    have "push_bit 1 w + 1 = push_bit 1 w OR (1 :: u64)"
      by (rule disjunctive_add) (simp only: bit_push_bit_iff bit_1_iff, auto)
    then show ?thesis by (simp add: push_bit_eq_mult mult.commute)
  qed
  show e: "(if v <s 0 then push_bit 1 (v * -1) OR 1 else push_bit 1 v) = of_nat (signed_code (sint v))"
  proof (cases "sint v < 0")
    case True
    have "of_nat (nat (- sint v)) = (of_int (- sint v) :: u64)" using True by (simp only: of_nat_nat)
    also have "\<dots> = - v" using v by (metis of_int_minus)
    finally have "of_nat (nat (- sint v)) = - v" .
    then show ?thesis using True by (simp only: or1) (simp add: signed_code_def word_sless_alt)
  next
    case False
    have "of_nat (nat (sint v)) = (of_int (sint v) :: u64)" using False by (simp only: of_nat_nat)
    then have "of_nat (nat (sint v)) = v" using v by metis
    then show ?thesis using False by (simp add: signed_code_def word_sless_alt push_bit_eq_mult mult.commute)
  qed
  show b: "signed_code (sint v) < 2 ^ 63" using assms by (auto simp: signed_code_def)
  let ?c = "of_nat (signed_code (sint v)) :: u64"
  have u: "unat ?c = signed_code (sint v)" using b by (simp add: unat_of_nat)
  then have "sint (signed_drop_bit 1 ?c) = int (signed_code (sint v)) div 2"
    using sint_below[of ?c] b by (simp add: sint_signed_drop_bit_eq drop_bit_eq_div)
  then have d: "signed_drop_bit 1 ?c = of_int (int (signed_code (sint v)) div 2)"
    using int_sint by metis
  have o: "?c AND 1 \<noteq> 0 \<longleftrightarrow> odd (signed_code (sint v))"
    using u odd_word[of ?c] by (simp add: and_one_eq mod_2_eq_odd)
  show "unsign ?c = v"
  proof (cases "sint v < 0")
    case True
    then have "int (signed_code (sint v)) div 2 = - sint v" "odd (signed_code (sint v))" by (simp_all add: signed_code_def)
    then show ?thesis using o d v by (simp add: unsign_def)
  next
    case False
    then have "int (signed_code (sint v)) div 2 = sint v" "\<not> odd (signed_code (sint v))" by (simp_all add: signed_code_def)
    then show ?thesis using o d v by (simp add: unsign_def)
  qed
qed

lemma encode_unsigned:
  assumes "unat m \<le> length buf"
  shows "length (varint (unat v)) \<le> unat m \<Longrightarrow> encode_unsigned_varint v buf m =
      Some (int (length (varint (unat v))), varint (unat v) @ drop (length (varint (unat v))) buf)"
    and "\<not> length (varint (unat v)) \<le> unat m \<Longrightarrow>
      \<exists>buf'. encode_unsigned_varint v buf m = Some (ERR_BUFFER_TOO_SMALL, buf') \<and> length buf' = length buf"
  using encode_unsigned_loop_spec[OF assms, of v 0] by (auto simp: encode_unsigned_varint_def)

lemma encode_signed:
  assumes "unat m \<le> length buf" and "- (2 ^ 62) < sint v" and "sint v < 2 ^ 62"
  shows "length (svarint (sint v)) \<le> unat m \<Longrightarrow> encode_signed_varint v buf m =
      Some (int (length (svarint (sint v))), svarint (sint v) @ drop (length (svarint (sint v))) buf)"
    and "\<not> length (svarint (sint v)) \<le> unat m \<Longrightarrow>
      \<exists>buf'. encode_signed_varint v buf m = Some (ERR_BUFFER_TOO_SMALL, buf') \<and> length buf' = length buf"
proof -
  let ?u = "of_nat (signed_code (sint v)) :: u64"
  have u: "unat ?u = signed_code (sint v)" using signed_code_word(2)[OF assms(2,3)] by (simp add: unat_of_nat)
  have "encode_signed_varint v buf m = encode_unsigned_varint ?u buf m"
    using encode_loops_agree[of ?u buf 0 m] signed_code_word[OF assms(2,3)] u
    by (simp add: encode_signed_varint_def encode_unsigned_varint_def)
  then show "length (svarint (sint v)) \<le> unat m \<Longrightarrow> encode_signed_varint v buf m =
      Some (int (length (svarint (sint v))), svarint (sint v) @ drop (length (svarint (sint v))) buf)"
    "\<not> length (svarint (sint v)) \<le> unat m \<Longrightarrow>
      \<exists>buf'. encode_signed_varint v buf m = Some (ERR_BUFFER_TOO_SMALL, buf') \<and> length buf' = length buf"
    using encode_unsigned[OF assms(1), of ?u] u by (simp_all add: svarint_def)
qed

lemma decode_unsigned_all: "decode_bytes decode_unsigned_varint 0 x (varint (unat v) @ rest) = Some (v, rest)"
  using decode_varint(1)[of 0 0 x "unat v" rest] unsigned_less[of v, where 'a = nat] by simp

lemma decode_signed_all:
  assumes "- (2 ^ 62) < sint v" and "sint v < 2 ^ 62"
  shows "decode_bytes decode_signed_varint 0 x (svarint (sint v) @ rest) = Some (v, rest)"
  using decode_varint(2)[of 0 0 x "signed_code (sint v)" rest] signed_code_word[OF assms] by (simp add: svarint_def)

subsection \<open>Properties\<close>

text \<open>
  C26. Encoding a number and decoding the bytes gives the number, for every unsigned value and for
  signed values below two to the 62; a buffer that is too small is reported and never overrun.
\<close>

theorem varint_roundtrip:
  assumes "unat m \<le> length buf"
  shows "(\<exists>r buf'. encode_unsigned_varint v buf m = Some (r, buf') \<and> length buf' = length buf \<and>
      (if length (varint (unat v)) \<le> unat m
       then decode_bytes decode_unsigned_varint 0 x (take (nat r) buf' @ rest) = Some (v, rest)
       else r = ERR_BUFFER_TOO_SMALL)) \<and>
    (- (2 ^ 62) < sint v \<and> sint v < 2 ^ 62 \<longrightarrow>
      (\<exists>r buf'. encode_signed_varint v buf m = Some (r, buf') \<and> length buf' = length buf \<and>
      (if length (svarint (sint v)) \<le> unat m
       then decode_bytes decode_signed_varint 0 x (take (nat r) buf' @ rest) = Some (v, rest)
       else r = ERR_BUFFER_TOO_SMALL)))"
proof (intro conjI impI)
  show "\<exists>r buf'. encode_unsigned_varint v buf m = Some (r, buf') \<and> length buf' = length buf \<and>
      (if length (varint (unat v)) \<le> unat m
       then decode_bytes decode_unsigned_varint 0 x (take (nat r) buf' @ rest) = Some (v, rest)
       else r = ERR_BUFFER_TOO_SMALL)"
    using encode_unsigned[OF assms, of v] assms
    by (cases "length (varint (unat v)) \<le> unat m") (auto simp: decode_unsigned_all)
next
  assume r: "- (2 ^ 62) < sint v \<and> sint v < 2 ^ 62"
  show "\<exists>r buf'. encode_signed_varint v buf m = Some (r, buf') \<and> length buf' = length buf \<and>
      (if length (svarint (sint v)) \<le> unat m
       then decode_bytes decode_signed_varint 0 x (take (nat r) buf' @ rest) = Some (v, rest)
       else r = ERR_BUFFER_TOO_SMALL)"
    using encode_signed[OF assms, of v] decode_signed_all[of v x rest] assms r
    by (cases "length (svarint (sint v)) \<le> unat m") auto
qed

theorem varint_roundtrip_witness:
  "\<exists>r buf'. encode_signed_varint (- 300) (replicate 8 0) 8 = Some (r, buf') \<and>
     decode_bytes decode_signed_varint 0 0 (take (nat r) buf' @ [7]) = Some (- 300, [7])"
proof -
  have s: "sint (- 300 :: u64) = - 300" by simp
  have "length (svarint (sint (- 300 :: u64))) \<le> unat (8 :: u32)"
    by (simp add: svarint_def signed_code_def varint_large varint_small)
  then show ?thesis using varint_roundtrip[of 8 "replicate 8 0" "- 300" 0 "[7]"] s by auto
qed

text \<open>
  C27. From two to the 62 on, the shift for the sign moves the number into the sign bit of the C
  integer and the loop ends after one byte: what is written decodes to another number.
\<close>

theorem signed_varint_truncated:
  assumes "2 ^ 62 \<le> sint v" and "1 \<le> unat m" and "unat m \<le> length buf"
  shows "\<exists>buf' w. encode_signed_varint v buf m = Some (1, buf') \<and>
    decode_bytes decode_signed_varint 0 x (take 1 buf' @ rest) = Some (w, rest) \<and> w \<noteq> v"
proof -
  let ?u = "push_bit 1 v" and ?k = "unat (push_bit 1 v) mod 128"
  let ?b = "of_nat ?k :: u8" and ?c = "of_nat ?k :: u64"
  have small: "sint v < 2 ^ 63" using sint_lt[of v] by simp
  have ne: "buf \<noteq> []" using assms(2,3) by auto
  have pos: "\<not> v <s 0" using assms(1) by (simp add: word_sless_alt)
  have "sint ?u = signed_take_bit 63 (sint v * 2)"
    by (simp add: push_bit_eq_mult sint_word_mult mult.commute)
  also have "\<dots> = sint v * 2 - 2 ^ 64"
  proof -
    have "(sint v * 2 + 2 ^ 63) mod 2 ^ 64 = (sint v * 2 + 2 ^ 63 - 2 ^ 64) mod 2 ^ 64"
      by (rule minus_mod_self2[symmetric])
    also have "\<dots> = sint v * 2 + 2 ^ 63 - 2 ^ 64"
      using assms(1) small by (intro mod_pos_pos_trivial) simp_all
    finally show ?thesis by (simp add: signed_take_bit_eq_take_bit_shift take_bit_eq_mod)
  qed
  finally have neg: "sint ?u < 0" using small by simp
  then have "\<not> 0 <s signed_drop_bit 7 ?u" by (simp add: word_sless_alt sint_signed_drop_bit_eq drop_bit_eq_div)
  then have e: "encode_signed_varint v buf m = Some (1, buf[0 := ?b])"
    using assms(2,3) pos ne
    by (simp add: encode_signed_varint_def encode_signed_loop.simps[of _ buf 0] byte_last wr_def Let_def)
  have t: "take 1 (buf[0 := ?b]) = varint ?k"
    using assms(2,3) by (cases buf) (auto simp: varint_small)
  have d: "decode_bytes decode_signed_varint 0 x (varint ?k @ rest) = Some (unsign ?c, rest)"
    using decode_varint(2)[of 0 0 x ?k rest] by simp
  have small_neg: "signed_take_bit 63 (- j) = - j" if "j < 64" "0 \<le> j" for j :: int
    using that by (intro signed_take_bit_int_eq_self) simp_all
  have k: "int ?k div 2 < 64" "0 \<le> int ?k div 2" by simp_all
  let ?d = "signed_drop_bit 1 ?c"
  have "sint ?c = int ?k" using sint_below[of ?c] by (simp add: unat_of_nat)
  then have sd: "sint ?d = int ?k div 2" by (simp add: sint_signed_drop_bit_eq drop_bit_eq_div)
  have "sint (- ?d) = signed_take_bit 63 (- (int ?k div 2))"
    by (simp only: sint_word_ariths sd) simp
  also have "\<dots> = - (int ?k div 2)" using small_neg k by blast
  finally have n: "sint (- ?d) = - (int ?k div 2)" .
  have b: "- j < 2 ^ 62" "j < 2 ^ 62" if "j < 64" "0 \<le> j" for j :: int using that by simp_all
  have "sint (?d * -1) < 2 ^ 62" "sint ?d < 2 ^ 62"
    unfolding mult_minus1_right n sd using b[OF k] by blast+
  then have "sint (unsign ?c) < 2 ^ 62" unfolding unsign_def by presburger
  then have "unsign ?c \<noteq> v" using assms(1) by auto
  then show ?thesis using e t d by metis
qed

theorem signed_varint_truncated_witness:
  "\<exists>buf' w. encode_signed_varint 0x4000000000000000 (replicate 16 0) 16 = Some (1, buf') \<and>
     decode_bytes decode_signed_varint 0 0 (take 1 buf' @ []) = Some (w, []) \<and> w \<noteq> 0x4000000000000000"
  by (rule signed_varint_truncated) simp_all

end
