(* ===== verification/BsPatch.thy ===== *)
theory BsPatch
  imports Varint
begin

text \<open>
  \<open>delta-tool-internal/source/bspatch.c\<close>: a state machine that applies a binary difference. It
  reads the patch and the old file and writes the new one through four functions of its client, each
  of which completes at once, later - then the client posts an event - or with an error.

  The client's state extends the record of the stream, so that its functions work on the whole. The
  buffers are in the memory at the end of the structure, as in the configuration with
  \<open>BS_PATCH_COMPILE_TIME_MEMORY_ALLOC\<close> = 1024, and pointers are 32 bit wide. An \<open>int64_t\<close> is a word
  that is compared as a signed number. LZ4 is a parameter: from the compressed bytes and the
  capacity it makes the result and the bytes it writes to the destination.
\<close>

subsection \<open>Codes\<close>

abbreviation (input) EBSAPI_START_PATCH_PROCESSING :: int where "EBSAPI_START_PATCH_PROCESSING \<equiv> 300"
abbreviation (input) EBSAPI_READ_PATCH_DONE :: int where "EBSAPI_READ_PATCH_DONE \<equiv> 301"
abbreviation (input) EBSAPI_READ_OLD_DONE :: int where "EBSAPI_READ_OLD_DONE \<equiv> 302"
abbreviation (input) EBSAPI_SEEK_OLD_DONE :: int where "EBSAPI_SEEK_OLD_DONE \<equiv> 303"
abbreviation (input) EBSAPI_WRITE_NEW_DONE :: int where "EBSAPI_WRITE_NEW_DONE \<equiv> 304"

abbreviation (input) EBSAPI_ERR_INVALID_STATE :: int where "EBSAPI_ERR_INVALID_STATE \<equiv> - 7"
abbreviation (input) EBSAPI_ERR_UNEXPECTED_EVENT :: int where "EBSAPI_ERR_UNEXPECTED_EVENT \<equiv> - 6"
abbreviation (input) EBSAPI_ERR_ALREADY_INIT :: int where "EBSAPI_ERR_ALREADY_INIT \<equiv> - 5"
abbreviation (input) EBSAPI_ERR_OUT_OF_MEMORY :: int where "EBSAPI_ERR_OUT_OF_MEMORY \<equiv> - 4"
abbreviation (input) EBSAPI_ERR_PARAMETERS :: int where "EBSAPI_ERR_PARAMETERS \<equiv> - 3"
abbreviation (input) EBSAPI_ERR_FILE_IO :: int where "EBSAPI_ERR_FILE_IO \<equiv> - 2"
abbreviation (input) EBSAPI_ERR_CORRUPTED_PATCH :: int where "EBSAPI_ERR_CORRUPTED_PATCH \<equiv> - 1"
abbreviation (input) EBSAPI_OPERATION_DONE_IMMEDIATELY :: int where "EBSAPI_OPERATION_DONE_IMMEDIATELY \<equiv> 0"
abbreviation (input) EBSAPI_PATCH_DONE :: int where "EBSAPI_PATCH_DONE \<equiv> 1"
abbreviation (input) EBSAPI_OPERATION_PATCH_READ_WILL_COMPLETE_LATER :: int where
  "EBSAPI_OPERATION_PATCH_READ_WILL_COMPLETE_LATER \<equiv> 400"
abbreviation (input) EBSAPI_OPERATION_OLD_FILE_READ_WILL_COMPLETE_LATER :: int where
  "EBSAPI_OPERATION_OLD_FILE_READ_WILL_COMPLETE_LATER \<equiv> 401"
abbreviation (input) EBSAPI_OPERATION_OLD_FILE_SEEK_WILL_COMPLETE_LATER :: int where
  "EBSAPI_OPERATION_OLD_FILE_SEEK_WILL_COMPLETE_LATER \<equiv> 402"
abbreviation (input) EBSAPI_OPERATION_NEW_FILE_WRITE_WILL_COMPLETE_LATER :: int where
  "EBSAPI_OPERATION_NEW_FILE_WRITE_WILL_COMPLETE_LATER \<equiv> 403"

abbreviation (input) FILE_MAGIC_LEN :: nat where "FILE_MAGIC_LEN \<equiv> 16"
abbreviation (input) FILE_HEADER_LEN :: nat where "FILE_HEADER_LEN \<equiv> 40"
abbreviation (input) BS_PATCH_COMPILE_TIME_MEMORY_ALLOC :: u32 where "BS_PATCH_COMPILE_TIME_MEMORY_ALLOC \<equiv> 1024"

text \<open>\<open>"PELION/BSDIFF001"\<close>\<close>

definition FILE_MAGIC :: bytes where
  "FILE_MAGIC = [0x50, 0x45, 0x4C, 0x49, 0x4F, 0x4E, 0x2F, 0x42, 0x53, 0x44, 0x49, 0x46, 0x46, 0x30, 0x30, 0x31]"

subsection \<open>State\<close>

text \<open>\<open>EBsNone\<close> is the value 0, which \<open>memset\<close> leaves and no enumerator has.\<close>

datatype bs_patch_state_t =
  EBsNone | EBsInitial | EBsInitialPatchReadDone | EBsAllocWorkingBuffer | EBsReadInitialHeader
  | EBsReadControlSegmentHeader | EBsReadControlSegment | EBsReadDataSegment
  | EBspatch_processDiffBytes_readHeaderPiece | EBspatch_processDiffBytes_processSinglePiece
  | EBspatch_processDiffBytes_processSinglePieceContinue | EBspatch_processDiffBytes_processSinglePieceInit
  | EBspatch_processDiffBytes_processSinglePieceContinue2
  | EBspatch_processDiffBytes_processSinglePieceContinue_writePart
  | EBspatch_processDiffBytes_processSinglePieceContinue_postActions
  | EBsProcessExtraLen | EBsProcessExtraLen_readHeader | EBsProcessExtraLen_singleItem
  | EBsProcessExtraLen_singleItemContinue | EBsProcessExtraLen_singleItemContinuePostStep
  | EBsProcessExtraLen_postStep | EBspatch_read_frame_len | EBspatch_read_frame_len_piece_read
  | EBspatch_read_varintPiece | EReadCtrl_diff_str_len | EReadCtrl_extra_str_len_y
  | EReadCtrl_old_file_ctrl_off_set_jump | EBsPatch_process_varintPiece

text \<open>The three numbers of \<open>ctrl\<close> are fields of their own.\<close>

record bspatch_stream =
  undeCompressBuffer_len :: u64
  total_undeCompressBuffer :: u64
  var_int :: u64
  var_int_len :: u64
  frame_len :: u64
  newpos :: u64
  bs_i :: u64
  ctrl_DIFF_STR_LEN_X :: u64
  ctrl_EXTRA_STR_LEN_Y :: u64
  ctrl_OLD_FILE_CTRL_OFF_SET_JUMP :: u64
  nonCompressedDataBuffer :: u32
  bufferForCompressedData :: u32
  new_size :: u32
  max_compressedDataBuffer :: u32
  max_deCompressBuffer :: u32
  readRequestSize :: u32
  bs_header :: bytes
  next_state :: bs_patch_state_t
  expectedExternalEvent :: int
  stateAfterReadVarInt :: bs_patch_state_t
  isSignedVarInt :: bool
  bsMemoryBuffer :: bytes
  bs_address :: u32

text \<open>
  The address of \<open>bsMemoryBuffer\<close> is a multiple of eight; the memory goes on to the end of the
  structure, with the fourteen bytes of \<open>allignmentBuffer\<close> and two of padding.
\<close>

abbreviation (input) bs_memory_size :: nat where "bs_memory_size \<equiv> 1040"

text \<open>What a pointer into the structure points to.\<close>

datatype bs_buffer = Bs_header | Bs_at u32

definition bs_load :: "'z bspatch_stream_scheme \<Rightarrow> bs_buffer \<Rightarrow> nat \<Rightarrow> nat \<Rightarrow> bytes option" where
  "bs_load s b i n =
     (case b of Bs_header \<Rightarrow> rd_block (bs_header s) i n
      | Bs_at p \<Rightarrow> rd_block (bsMemoryBuffer s) (unat (p - bs_address s) + i) n)"

definition bs_store :: "bs_buffer \<Rightarrow> nat \<Rightarrow> bytes \<Rightarrow> 'z bspatch_stream_scheme \<Rightarrow> 'z bspatch_stream_scheme option" where
  "bs_store b i bs s =
     (case b of Bs_header \<Rightarrow> map_option (\<lambda>m. s\<lparr>bs_header := m\<rparr>) (wr_block (bs_header s) i bs)
      | Bs_at p \<Rightarrow> map_option (\<lambda>m. s\<lparr>bsMemoryBuffer := m\<rparr>)
          (wr_block (bsMemoryBuffer s) (unat (p - bs_address s) + i) bs))"

subsection \<open>The client\<close>

record 's bs_client =
  read_patch :: "(bs_buffer \<Rightarrow> u64 \<Rightarrow> 's \<Rightarrow> (int \<times> 's) option) option"
  read_old :: "(bs_buffer \<Rightarrow> u64 \<Rightarrow> 's \<Rightarrow> (int \<times> 's) option) option"
  seek_old :: "(u64 \<Rightarrow> 's \<Rightarrow> (int \<times> 's) option) option"
  write_new :: "(bs_buffer \<Rightarrow> u64 \<Rightarrow> 's \<Rightarrow> (int \<times> 's) option) option"

type_synonym lz4 = "bytes \<Rightarrow> u32 \<Rightarrow> int \<times> bytes"

text \<open>
  A request must stay inside the buffer that it passes: the client may access all of it.
\<close>

definition bs_request ::
    "(bs_buffer \<Rightarrow> u64 \<Rightarrow> 'z bspatch_stream_scheme \<Rightarrow> (int \<times> 'z bspatch_stream_scheme) option) option \<Rightarrow>
     bs_buffer \<Rightarrow> u64 \<Rightarrow> 'z bspatch_stream_scheme \<Rightarrow> (int \<times> 'z bspatch_stream_scheme) option" where
  "bs_request f b n s = (if bs_load s b 0 (unat n) = None then None else f \<bind> (\<lambda>f. f b n s))"

definition sendPatchReadRequest where
  "sendPatchReadRequest c b n s = bs_request (read_patch c) b n s"

definition sendReadOldRequest where
  "sendReadOldRequest c b n s = bs_request (read_old c) b n s"

definition sendWriteNewRequest where
  "sendWriteNewRequest c b n s = bs_request (write_new c) b n s"

definition sendSeekOldRequest ::
    "'z bspatch_stream_scheme bs_client \<Rightarrow> u64 \<Rightarrow> 'z bspatch_stream_scheme \<Rightarrow> (int \<times> 'z bspatch_stream_scheme) option" where
  "sendSeekOldRequest c seek_diff s = seek_old c \<bind> (\<lambda>f. f seek_diff s)"

subsection \<open>Parts of the state machine\<close>

definition offtin :: "bytes \<Rightarrow> u64" where
  "offtin buf =
     (let y = ucast (buf ! 7 AND 0x7F);
          y = y * 256 + ucast (buf ! 6);
          y = y * 256 + ucast (buf ! 5);
          y = y * 256 + ucast (buf ! 4);
          y = y * 256 + ucast (buf ! 3);
          y = y * 256 + ucast (buf ! 2);
          y = y * 256 + ucast (buf ! 1);
          y = y * 256 + ucast (buf ! 0)
      in if buf ! 7 AND 0x80 \<noteq> 0 then - y else y)"

definition isPatchingDone :: "'z bspatch_stream_scheme \<Rightarrow> bool" where
  "isPatchingDone s \<longleftrightarrow> new_size s \<noteq> 0 \<and> ucast (new_size s) \<le>s newpos s"

definition bspatch_readInitialHeaderAndContinue ::
    "'z bspatch_stream_scheme bs_client \<Rightarrow> 'z bspatch_stream_scheme \<Rightarrow> (int \<times> 'z bspatch_stream_scheme) option" where
  "bspatch_readInitialHeaderAndContinue c s =
     (if read_old c = None \<or> read_patch c = None \<or> seek_old c = None \<or> write_new c = None
      then Some (EBSAPI_ERR_PARAMETERS, s)
      else if new_size s = 0 then sendPatchReadRequest c Bs_header (of_nat FILE_HEADER_LEN) s
      else Some (EBSAPI_ERR_ALREADY_INIT, s))"

definition header_field :: "'z bspatch_stream_scheme \<Rightarrow> nat \<Rightarrow> u64 option" where
  "header_field s i = map_option offtin (bs_load s Bs_header i 8)"

definition out_of_u32 :: "u64 \<Rightarrow> bool" where
  "out_of_u32 v \<longleftrightarrow> v <s 0 \<or> 0xFFFFFFFF <s v"

definition bspatch_readInitialHeaderAndContinueReadOfPatchDone ::
    "'z bspatch_stream_scheme \<Rightarrow> (int \<times> 'z bspatch_stream_scheme) option" where
  "bspatch_readInitialHeaderAndContinueReadOfPatchDone s = do {
     magic \<leftarrow> bs_load s Bs_header 0 FILE_MAGIC_LEN;
     if magic \<noteq> FILE_MAGIC then Some (EBSAPI_ERR_CORRUPTED_PATCH, s)
     else do {
       newSize64 \<leftarrow> header_field s FILE_MAGIC_LEN;
       if out_of_u32 newSize64 then Some (EBSAPI_ERR_CORRUPTED_PATCH, s)
       else do {
         let s = s\<lparr>new_size := ucast newSize64\<rparr>;
         max_compressDataBuffer64 \<leftarrow> header_field s (FILE_MAGIC_LEN + 8);
         if out_of_u32 max_compressDataBuffer64 then Some (EBSAPI_ERR_CORRUPTED_PATCH, s)
         else do {
           let s = s\<lparr>max_compressedDataBuffer := ucast max_compressDataBuffer64\<rparr>;
           max_deCompressBuffer64 \<leftarrow> header_field s (FILE_MAGIC_LEN + 8);
           if out_of_u32 max_deCompressBuffer64 then Some (EBSAPI_ERR_CORRUPTED_PATCH, s)
           else let s = s\<lparr>max_deCompressBuffer := ucast max_deCompressBuffer64\<rparr> in
             if max_deCompressBuffer s > max_compressedDataBuffer s \<or> max_compressedDataBuffer s < 64 \<or>
                max_deCompressBuffer s < 1
             then Some (EBSAPI_ERR_CORRUPTED_PATCH, s)
             else Some (0, s)
         }
       }
     }
   }"

definition allignTo8ByteBoundary :: "u64 \<Rightarrow> u64" where
  "allignTo8ByteBoundary address = (if address mod 8 \<noteq> 0 then address + (8 - address mod 8) else address)"

definition bspatch_allocWorkingBuffers :: "'z bspatch_stream_scheme \<Rightarrow> int \<times> 'z bspatch_stream_scheme" where
  "bspatch_allocWorkingBuffers s =
     (if BS_PATCH_COMPILE_TIME_MEMORY_ALLOC < max_compressedDataBuffer s + max_deCompressBuffer s
      then (EBSAPI_ERR_OUT_OF_MEMORY, s)
      else let s = s\<lparr>nonCompressedDataBuffer := ucast (allignTo8ByteBoundary (ucast (bs_address s)))\<rparr>;
               s = s\<lparr>bufferForCompressedData := bs_address s + max_compressedDataBuffer s\<rparr>;
               s = s\<lparr>bufferForCompressedData := ucast (allignTo8ByteBoundary (ucast (bufferForCompressedData s)))\<rparr>
           in if bufferForCompressedData s + max_deCompressBuffer s > bs_address s + of_nat bs_memory_size
              then (EBSAPI_ERR_OUT_OF_MEMORY, s) else (0, s))"

abbreviation (input) at_nonCompressed :: "'z bspatch_stream_scheme \<Rightarrow> bs_buffer" where
  "at_nonCompressed s \<equiv> Bs_at (nonCompressedDataBuffer s)"
abbreviation (input) at_compressed :: "'z bspatch_stream_scheme \<Rightarrow> bs_buffer" where
  "at_compressed s \<equiv> Bs_at (bufferForCompressedData s)"

definition read_deCompressBuffer ::
    "'z bspatch_stream_scheme bs_client \<Rightarrow> u64 \<Rightarrow> 'z bspatch_stream_scheme \<Rightarrow> (int \<times> 'z bspatch_stream_scheme) option" where
  "read_deCompressBuffer c len s =
     (if ucast (max_deCompressBuffer s) <s len then Some (EBSAPI_ERR_CORRUPTED_PATCH, s)
      else sendPatchReadRequest c (at_compressed s) len s)"

definition read_deCompressBuffer_process ::
    "lz4 \<Rightarrow> u64 \<Rightarrow> 'z bspatch_stream_scheme \<Rightarrow> (int \<times> 'z bspatch_stream_scheme) option" where
  "read_deCompressBuffer_process LZ4_decompress_safe len s = do {
     src \<leftarrow> bs_load s (at_compressed s) 0 (unat (ucast len :: u32));
     let (r, dst) = LZ4_decompress_safe src (max_compressedDataBuffer s);
     s \<leftarrow> bs_store (at_nonCompressed s) 0 dst s;
     let s = s\<lparr>undeCompressBuffer_len := of_int r\<rparr>;
     Some (if 0 <s undeCompressBuffer_len s then 0 else EBSAPI_ERR_CORRUPTED_PATCH, s)
   }"

definition bspatch_processSingeExtraStrLenCompress ::
    "lz4 \<Rightarrow> 'z bspatch_stream_scheme bs_client \<Rightarrow> 'z bspatch_stream_scheme \<Rightarrow> (int \<times> 'z bspatch_stream_scheme) option" where
  "bspatch_processSingeExtraStrLenCompress lz4 c s = do {
     (result, s) \<leftarrow> read_deCompressBuffer_process lz4 (frame_len s) s;
     if result \<noteq> 0 then Some (result, s)
     else sendWriteNewRequest c (at_nonCompressed s) (undeCompressBuffer_len s) s
   }"

definition bspatch_processDiffBytesPost :: "'z bspatch_stream_scheme \<Rightarrow> int \<times> 'z bspatch_stream_scheme" where
  "bspatch_processDiffBytesPost s = (0, s\<lparr>newpos := newpos s + ctrl_DIFF_STR_LEN_X s\<rparr>)"

text \<open>The loop that adds the difference to the bytes of the old file.\<close>

fun add_diff_loop :: "nat \<Rightarrow> nat \<Rightarrow> 'z bspatch_stream_scheme \<Rightarrow> 'z bspatch_stream_scheme option" where
  "add_diff_loop i 0 s = Some s"
| "add_diff_loop i (Suc n) s = do {
     old \<leftarrow> bs_load s (at_compressed s) i 1;
     diff \<leftarrow> bs_load s (at_nonCompressed s) (unat (bs_i s) + i) 1;
     s \<leftarrow> bs_store (at_compressed s) i [hd old + hd diff] s;
     add_diff_loop (Suc i) n s
   }"

definition readVarIntEventified :: "bool \<Rightarrow> 'z bspatch_stream_scheme \<Rightarrow> (int \<times> 'z bspatch_stream_scheme) option" where
  "readVarIntEventified isSigned s = do {
     b \<leftarrow> bs_load s (at_nonCompressed s) 0 1;
     let (status, v) = (if isSigned then decode_signed_varint else decode_unsigned_varint)
                         (hd b) (Some (var_int s)) (sint (ucast (var_int_len s) :: u32));
     let s = s\<lparr>var_int := the v, var_int_len := var_int_len s + 1\<rparr>;
     let status = (if var_int_len s \<ge> 8 \<or> status < 0 then EBSAPI_ERR_CORRUPTED_PATCH else status);
     Some (if status = OPERATION_NEEDS_MORE_DATA then (0, s\<lparr>next_state := EBspatch_read_varintPiece\<rparr>)
           else (status, s\<lparr>var_int_len := 0, next_state := stateAfterReadVarInt s, stateAfterReadVarInt := EBsNone\<rparr>))
   }"

subsection \<open>Waiting\<close>

definition setExpectedExternalEventByState ::
    "int \<Rightarrow> bs_patch_state_t \<Rightarrow> int \<Rightarrow> 'z bspatch_stream_scheme \<Rightarrow> int \<times> 'z bspatch_stream_scheme" where
  "setExpectedExternalEventByState status nextState event s =
     (if status < 0 then (1, s)
      else if status = EBSAPI_OPERATION_DONE_IMMEDIATELY
      then (0, s\<lparr>expectedExternalEvent := 0, next_state := nextState\<rparr>)
      else if status = EBSAPI_OPERATION_PATCH_READ_WILL_COMPLETE_LATER \<or>
              status = EBSAPI_OPERATION_OLD_FILE_READ_WILL_COMPLETE_LATER \<or>
              status = EBSAPI_OPERATION_OLD_FILE_SEEK_WILL_COMPLETE_LATER \<or>
              status = EBSAPI_OPERATION_NEW_FILE_WRITE_WILL_COMPLETE_LATER
      then (1, s\<lparr>expectedExternalEvent := event, next_state := nextState\<rparr>)
      else (1, s))"

definition WAIT_FOR :: "int \<Rightarrow> bs_patch_state_t \<Rightarrow> int \<times> 'z bspatch_stream_scheme \<Rightarrow> int \<times> 'z bspatch_stream_scheme" where
  "WAIT_FOR event nextState r =
     (let (status, s) = r; (wait, s) = setExpectedExternalEventByState status nextState event s
      in (status, if wait \<noteq> 0 then s\<lparr>next_state := nextState\<rparr> else s))"

definition SET_NEXT_STATE :: "bs_patch_state_t \<Rightarrow> int \<times> 'z bspatch_stream_scheme \<Rightarrow> int \<times> 'z bspatch_stream_scheme" where
  "SET_NEXT_STATE nextState r = (fst r, (snd r)\<lparr>next_state := nextState\<rparr>)"

subsection \<open>The state machine\<close>

text \<open>One round of the loop: the status and the stream.\<close>

definition bs_step ::
    "lz4 \<Rightarrow> 'z bspatch_stream_scheme bs_client \<Rightarrow> 'z bspatch_stream_scheme \<Rightarrow> (int \<times> 'z bspatch_stream_scheme) option" where
  "bs_step lz4 c s =
     (case next_state s of
        EBsInitial \<Rightarrow>
          map_option (WAIT_FOR EBSAPI_READ_PATCH_DONE EBsInitialPatchReadDone) (bspatch_readInitialHeaderAndContinue c s)
      | EBsInitialPatchReadDone \<Rightarrow>
          map_option (SET_NEXT_STATE EBsAllocWorkingBuffer) (bspatch_readInitialHeaderAndContinueReadOfPatchDone s)
      | EBsAllocWorkingBuffer \<Rightarrow> Some (SET_NEXT_STATE EBsReadControlSegmentHeader (bspatch_allocWorkingBuffers s))
      | EBsReadControlSegmentHeader \<Rightarrow> Some (SET_NEXT_STATE EBsReadControlSegment (0, s))
      | EBsReadControlSegment \<Rightarrow> Some (SET_NEXT_STATE EReadCtrl_diff_str_len (0, s))
      | EReadCtrl_diff_str_len \<Rightarrow>
          let s = s\<lparr>stateAfterReadVarInt := EReadCtrl_extra_str_len_y, isSignedVarInt := False\<rparr> in
          map_option (WAIT_FOR EBSAPI_READ_PATCH_DONE EBsPatch_process_varintPiece)
            (sendPatchReadRequest c (at_nonCompressed s) 1 s)
      | EReadCtrl_extra_str_len_y \<Rightarrow>
          let s = s\<lparr>ctrl_DIFF_STR_LEN_X := var_int s, stateAfterReadVarInt := EReadCtrl_old_file_ctrl_off_set_jump,
                    isSignedVarInt := False\<rparr> in
          map_option (WAIT_FOR EBSAPI_READ_PATCH_DONE EBsPatch_process_varintPiece)
            (sendPatchReadRequest c (at_nonCompressed s) 1 s)
      | EReadCtrl_old_file_ctrl_off_set_jump \<Rightarrow>
          let s = s\<lparr>ctrl_EXTRA_STR_LEN_Y := var_int s, stateAfterReadVarInt := EBsReadDataSegment, isSignedVarInt := True\<rparr> in
          map_option (WAIT_FOR EBSAPI_READ_PATCH_DONE EBsPatch_process_varintPiece)
            (sendPatchReadRequest c (at_nonCompressed s) 1 s)
      | EBsReadDataSegment \<Rightarrow>
          let s = s\<lparr>ctrl_OLD_FILE_CTRL_OFF_SET_JUMP := var_int s\<rparr>;
              status = (if ucast (new_size s) <s newpos s + ctrl_DIFF_STR_LEN_X s then EBSAPI_ERR_CORRUPTED_PATCH else 0)
          in Some (if 0 <s ctrl_DIFF_STR_LEN_X s
                   then SET_NEXT_STATE EBspatch_processDiffBytes_readHeaderPiece (status, s\<lparr>total_undeCompressBuffer := 0\<rparr>)
                   else SET_NEXT_STATE EBsProcessExtraLen (status, s))
      | EBspatch_processDiffBytes_readHeaderPiece \<Rightarrow>
          Some (SET_NEXT_STATE EBspatch_read_frame_len
                 (0, s\<lparr>stateAfterReadVarInt := EBspatch_processDiffBytes_processSinglePiece\<rparr>))
      | EBspatch_read_frame_len \<Rightarrow>
          let s = s\<lparr>isSignedVarInt := False\<rparr> in
          map_option (WAIT_FOR EBSAPI_READ_PATCH_DONE EBsPatch_process_varintPiece)
            (sendPatchReadRequest c (at_nonCompressed s) 1 s)
      | EBspatch_read_varintPiece \<Rightarrow>
          map_option (WAIT_FOR EBSAPI_READ_PATCH_DONE EBsPatch_process_varintPiece)
            (sendPatchReadRequest c (at_nonCompressed s) 1 s)
      | EBsPatch_process_varintPiece \<Rightarrow> readVarIntEventified (isSignedVarInt s) s
      | EBspatch_processDiffBytes_processSinglePiece \<Rightarrow>
          let s = s\<lparr>frame_len := var_int s\<rparr> in
          map_option (WAIT_FOR EBSAPI_READ_PATCH_DONE EBspatch_processDiffBytes_processSinglePieceContinue)
            (read_deCompressBuffer c (frame_len s) s)
      | EBspatch_processDiffBytes_processSinglePieceContinue \<Rightarrow>
          map_option (SET_NEXT_STATE EBspatch_processDiffBytes_processSinglePieceInit)
            (read_deCompressBuffer_process lz4 (frame_len s) s)
      | EBspatch_processDiffBytes_processSinglePieceInit \<Rightarrow>
          Some (SET_NEXT_STATE EBspatch_processDiffBytes_processSinglePieceContinue2 (0, s\<lparr>bs_i := 0\<rparr>))
      | EBspatch_processDiffBytes_processSinglePieceContinue2 \<Rightarrow>
          if bs_i s <s undeCompressBuffer_len s
          then let dataLeft = ucast (undeCompressBuffer_len s - bs_i s) :: u32;
                   s = s\<lparr>readRequestSize := (if max_deCompressBuffer s \<le> dataLeft then max_deCompressBuffer s else dataLeft)\<rparr>
               in map_option (WAIT_FOR EBSAPI_READ_OLD_DONE EBspatch_processDiffBytes_processSinglePieceContinue_writePart)
                    (sendReadOldRequest c (at_compressed s) (ucast (readRequestSize s)) s)
          else Some (SET_NEXT_STATE EBspatch_processDiffBytes_processSinglePieceContinue_postActions (0, s))
      | EBspatch_processDiffBytes_processSinglePieceContinue_writePart \<Rightarrow> do {
          s \<leftarrow> add_diff_loop 0 (unat (readRequestSize s)) s;
          (status, s) \<leftarrow> sendWriteNewRequest c (at_compressed s) (ucast (readRequestSize s)) s;
          let s = s\<lparr>bs_i := bs_i s + ucast (readRequestSize s)\<rparr>;
          Some (WAIT_FOR EBSAPI_WRITE_NEW_DONE EBspatch_processDiffBytes_processSinglePieceContinue2 (status, s))
        }
      | EBspatch_processDiffBytes_processSinglePieceContinue_postActions \<Rightarrow>
          let s = s\<lparr>total_undeCompressBuffer := total_undeCompressBuffer s + undeCompressBuffer_len s\<rparr> in
          Some (if total_undeCompressBuffer s <s ctrl_DIFF_STR_LEN_X s
                then SET_NEXT_STATE EBspatch_processDiffBytes_readHeaderPiece (0, s)
                else SET_NEXT_STATE EBsProcessExtraLen (bspatch_processDiffBytesPost s))
      | EBsProcessExtraLen \<Rightarrow>
          Some (if ucast (new_size s) <s newpos s + ctrl_EXTRA_STR_LEN_Y s then (EBSAPI_ERR_CORRUPTED_PATCH, s)
                else if 0 <s ctrl_EXTRA_STR_LEN_Y s
                then SET_NEXT_STATE EBsProcessExtraLen_readHeader (0, s\<lparr>total_undeCompressBuffer := 0\<rparr>)
                else SET_NEXT_STATE EBsProcessExtraLen_postStep (0, s))
      | EBsProcessExtraLen_readHeader \<Rightarrow>
          Some (SET_NEXT_STATE EBspatch_read_frame_len (0, s\<lparr>stateAfterReadVarInt := EBsProcessExtraLen_singleItem\<rparr>))
      | EBsProcessExtraLen_singleItem \<Rightarrow>
          let s = s\<lparr>frame_len := var_int s\<rparr> in
          map_option (WAIT_FOR EBSAPI_READ_PATCH_DONE EBsProcessExtraLen_singleItemContinue)
            (read_deCompressBuffer c (frame_len s) s)
      | EBsProcessExtraLen_singleItemContinue \<Rightarrow>
          map_option (WAIT_FOR EBSAPI_WRITE_NEW_DONE EBsProcessExtraLen_singleItemContinuePostStep)
            (bspatch_processSingeExtraStrLenCompress lz4 c s)
      | EBsProcessExtraLen_singleItemContinuePostStep \<Rightarrow>
          let s = s\<lparr>total_undeCompressBuffer := total_undeCompressBuffer s + undeCompressBuffer_len s\<rparr> in
          Some (if total_undeCompressBuffer s <s ctrl_EXTRA_STR_LEN_Y s
                then SET_NEXT_STATE EBsProcessExtraLen_readHeader (0, s)
                else SET_NEXT_STATE EBsProcessExtraLen_postStep (0, s))
      | EBsProcessExtraLen_postStep \<Rightarrow>
          let s = s\<lparr>newpos := newpos s + ctrl_EXTRA_STR_LEN_Y s\<rparr> in
          map_option (WAIT_FOR EBSAPI_SEEK_OLD_DONE EBsReadControlSegmentHeader)
            (sendSeekOldRequest c (ctrl_OLD_FILE_CTRL_OFF_SET_JUMP s) s)
      | _ \<Rightarrow> Some (EBSAPI_ERR_INVALID_STATE, s))"

partial_function (option) bs_loop ::
    "lz4 \<Rightarrow> 'z bspatch_stream_scheme bs_client \<Rightarrow> 'z bspatch_stream_scheme \<Rightarrow> (int \<times> 'z bspatch_stream_scheme) option" where
  "bs_loop lz4 c s = do {
     (status, s) \<leftarrow> bs_step lz4 c s;
     if \<not> isPatchingDone s \<and> status = 0 then bs_loop lz4 c s else Some (status, s)
   }"

declare bs_loop.simps [code]

subsection \<open>Interface\<close>

text \<open>\<open>memset\<close> and the fields that \<open>ARM_BS_Init\<close> sets; the functions of the client are an argument of the others.\<close>

definition ARM_BS_Init :: "'z bspatch_stream_scheme \<Rightarrow> 'z bspatch_stream_scheme" where
  "ARM_BS_Init s =
     s\<lparr>undeCompressBuffer_len := 0, total_undeCompressBuffer := 0, var_int := 0, var_int_len := 0, frame_len := 0,
       newpos := 0, bs_i := 0, ctrl_DIFF_STR_LEN_X := 0, ctrl_EXTRA_STR_LEN_Y := 0,
       ctrl_OLD_FILE_CTRL_OFF_SET_JUMP := 0, nonCompressedDataBuffer := 0, bufferForCompressedData := 0,
       new_size := 0, max_compressedDataBuffer := 0, max_deCompressBuffer := 0, readRequestSize := 0,
       bs_header := replicate FILE_HEADER_LEN 0, next_state := EBsInitial,
       expectedExternalEvent := EBSAPI_START_PATCH_PROCESSING, stateAfterReadVarInt := EBsNone,
       isSignedVarInt := False, bsMemoryBuffer := replicate bs_memory_size 0\<rparr>"

definition ARM_BS_ProcessPatchEvent ::
    "lz4 \<Rightarrow> 'z bspatch_stream_scheme bs_client \<Rightarrow> int \<Rightarrow> 'z bspatch_stream_scheme \<Rightarrow>
     (int \<times> 'z bspatch_stream_scheme) option" where
  "ARM_BS_ProcessPatchEvent lz4 c bsApiEvent s =
     (if bsApiEvent \<noteq> expectedExternalEvent s then Some (EBSAPI_ERR_UNEXPECTED_EVENT, s)
      else do {
        (status, s) \<leftarrow> bs_loop lz4 c (s\<lparr>expectedExternalEvent := 0\<rparr>);
        Some (if isPatchingDone s then EBSAPI_PATCH_DONE else status, s)
      })"

definition ARM_BS_Free :: "'z bspatch_stream_scheme \<Rightarrow> int \<times> 'z bspatch_stream_scheme" where
  "ARM_BS_Free s = (0, s\<lparr>nonCompressedDataBuffer := 0, bufferForCompressedData := 0\<rparr>)"

end
