(* ===== verification/BsPatch_Client.thy ===== *)
theory BsPatch_Client
  imports BsPatch
begin

text \<open>
  What the patcher needs of its client, as a locale, and the rounds of its loop seen from the
  client: \<open>finishes\<close> is the total correctness of the rounds that are left, for every delay of the
  client's answers, and \<open>served\<close> the same for the events of the interface. Then the abstract view
  of a patch: frames, segments, and the file that they make of the old one.
\<close>

subsection \<open>Rounds\<close>

text \<open>
  What a client may not touch: everything but the memory, the header and its own fields. \<open>control\<close> is
  what the loop sets between rounds.
\<close>

definition regs where
  "regs s = ((undeCompressBuffer_len s, total_undeCompressBuffer s, var_int s, var_int_len s, frame_len s, newpos s, bs_i s),
     (ctrl_DIFF_STR_LEN_X s, ctrl_EXTRA_STR_LEN_Y s, ctrl_OLD_FILE_CTRL_OFF_SET_JUMP s),
     (nonCompressedDataBuffer s, bufferForCompressedData s, new_size s, max_compressedDataBuffer s, max_deCompressBuffer s,
      readRequestSize s, stateAfterReadVarInt s, isSignedVarInt s, bs_address s))"

definition control where
  "control s = (next_state s, expectedExternalEvent s)"

definition view where
  "view s = (bsMemoryBuffer s, bs_header s)"

lemma regs_updates [simp]:
  "regs (s\<lparr>next_state := x\<rparr>) = regs s" "regs (s\<lparr>expectedExternalEvent := e\<rparr>) = regs s"
  "regs (s\<lparr>bsMemoryBuffer := m\<rparr>) = regs s" "regs (s\<lparr>bs_header := m\<rparr>) = regs s"
  by (simp_all add: regs_def)

lemma view_updates [simp]:
  "view (s\<lparr>next_state := x\<rparr>) = view s" "view (s\<lparr>expectedExternalEvent := e\<rparr>) = view s"
  by (simp_all add: view_def)

lemma more_updates [simp]:
  "bspatch_stream.more (s\<lparr>next_state := x\<rparr>) = bspatch_stream.more s"
  "bspatch_stream.more (s\<lparr>expectedExternalEvent := e\<rparr>) = bspatch_stream.more s"
  by simp_all

lemma done_regs: "regs s = regs t \<Longrightarrow> isPatchingDone s = isPatchingDone t"
  by (simp add: regs_def isPatchingDone_def)

lemma done_updates [simp]:
  "isPatchingDone (s\<lparr>next_state := x\<rparr>) = isPatchingDone s" "isPatchingDone (s\<lparr>expectedExternalEvent := e\<rparr>) = isPatchingDone s"
  by (simp_all add: isPatchingDone_def)

text \<open>
  An operation that the client answers at once, or later with the code \<open>delay\<close>. \<open>t\<close> is the stream as
  the operation leaves it; \<open>later u v\<close> is what the client does between a delayed answer and
  the event that it posts.
\<close>

definition performs ::
    "('z bspatch_stream_scheme \<Rightarrow> 'z bspatch_stream_scheme \<Rightarrow> bool) \<Rightarrow> int \<Rightarrow> (int \<times> 'z bspatch_stream_scheme) option \<Rightarrow>
     'z bspatch_stream_scheme \<Rightarrow> ('z \<Rightarrow> bool) \<Rightarrow> bool" where
  "performs later delay r t P \<longleftrightarrow> (\<exists>code s. r = Some (code, s) \<and> regs s = regs t \<and> control s = control t \<and>
     (code = EBSAPI_OPERATION_DONE_IMMEDIATELY \<and> view s = view t \<and> P (bspatch_stream.more s) \<or>
      code = delay \<and> (\<forall>u. view u = view s \<and> bs_address u = bs_address s \<and> bspatch_stream.more u = bspatch_stream.more s \<longrightarrow>
        (\<exists>v. later u v) \<and>
        (\<forall>v. later u v \<longrightarrow> regs v = regs u \<and> control v = control u \<and> view v = view t \<and> P (bspatch_stream.more v)))))"

definition delays :: "int set" where
  "delays = {EBSAPI_OPERATION_PATCH_READ_WILL_COMPLETE_LATER, EBSAPI_OPERATION_OLD_FILE_READ_WILL_COMPLETE_LATER,
     EBSAPI_OPERATION_OLD_FILE_SEEK_WILL_COMPLETE_LATER, EBSAPI_OPERATION_NEW_FILE_WRITE_WILL_COMPLETE_LATER}"

text \<open>
  The patch is finished in a state with \<open>Q\<close> after finitely many rounds, however the client delays
  its answers; each of them can come.
\<close>

inductive finishes ::
    "lz4 \<Rightarrow> 'z bspatch_stream_scheme bs_client \<Rightarrow> ('z bspatch_stream_scheme \<Rightarrow> 'z bspatch_stream_scheme \<Rightarrow> bool) \<Rightarrow>
     ('z bspatch_stream_scheme \<Rightarrow> bool) \<Rightarrow> 'z bspatch_stream_scheme \<Rightarrow> bool" for lz4 c later Q where
  finish: "\<lbrakk>bs_step lz4 c s = Some (status, s'); isPatchingDone s'; Q s'\<rbrakk> \<Longrightarrow> finishes lz4 c later Q s"
| round: "\<lbrakk>bs_step lz4 c s = Some (0, s'); \<not> isPatchingDone s'; finishes lz4 c later Q s'\<rbrakk> \<Longrightarrow> finishes lz4 c later Q s"
| wait: "\<lbrakk>bs_step lz4 c s = Some (status, s'); \<not> isPatchingDone s'; status \<in> delays; \<exists>v. later s' v;
     \<forall>v. later s' v \<longrightarrow> expectedExternalEvent v = expectedExternalEvent s' \<and> finishes lz4 c later Q (v\<lparr>expectedExternalEvent := 0\<rparr>)\<rbrakk>
     \<Longrightarrow> finishes lz4 c later Q s"

text \<open>The same for the interface: the client posts the event that is expected.\<close>

inductive served ::
    "lz4 \<Rightarrow> 'z bspatch_stream_scheme bs_client \<Rightarrow> ('z bspatch_stream_scheme \<Rightarrow> 'z bspatch_stream_scheme \<Rightarrow> bool) \<Rightarrow>
     ('z bspatch_stream_scheme \<Rightarrow> bool) \<Rightarrow> int \<Rightarrow> 'z bspatch_stream_scheme \<Rightarrow> bool" for lz4 c later Q where
  patched: "\<lbrakk>ARM_BS_ProcessPatchEvent lz4 c e s = Some (EBSAPI_PATCH_DONE, s'); Q s'\<rbrakk> \<Longrightarrow> served lz4 c later Q e s"
| delayed: "\<lbrakk>ARM_BS_ProcessPatchEvent lz4 c e s = Some (r, s'); r \<in> delays; \<exists>v. later s' v;
     \<forall>v. later s' v \<longrightarrow> served lz4 c later Q (expectedExternalEvent s') v\<rbrakk> \<Longrightarrow> served lz4 c later Q e s"

lemma loop_served:
  assumes "bs_loop lz4 c (s\<lparr>expectedExternalEvent := 0\<rparr>) = Some (st, t)" and "expectedExternalEvent s = e"
    and "isPatchingDone t \<and> Q t \<or> \<not> isPatchingDone t \<and> st \<in> delays \<and> (\<exists>v. later t v) \<and>
       (\<forall>v. later t v \<longrightarrow> served lz4 c later Q (expectedExternalEvent t) v)"
  shows "served lz4 c later Q e s"
proof -
  have p: "ARM_BS_ProcessPatchEvent lz4 c e s = Some (if isPatchingDone t then EBSAPI_PATCH_DONE else st, t)"
    using assms(1,2) by (simp add: ARM_BS_ProcessPatchEvent_def)
  from assms(3) show ?thesis
  proof (elim disjE conjE)
    assume "isPatchingDone t" "Q t"
    then show ?thesis using p by (intro served.patched) simp_all
  next
    assume "\<not> isPatchingDone t" "st \<in> delays" "\<exists>v. later t v" "\<forall>v. later t v \<longrightarrow> served lz4 c later Q (expectedExternalEvent t) v"
    then show ?thesis using p by (intro served.delayed[of lz4 c _ _ st t]) simp_all
  qed
qed

lemma finishes_loop:
  assumes "finishes lz4 c later Q s"
  shows "\<exists>status s'. bs_loop lz4 c s = Some (status, s') \<and>
    (isPatchingDone s' \<and> Q s' \<or> \<not> isPatchingDone s' \<and> status \<in> delays \<and> (\<exists>v. later s' v) \<and>
     (\<forall>v. later s' v \<longrightarrow> served lz4 c later Q (expectedExternalEvent s') v))"
  using assms
proof (induction rule: finishes.induct)
  case (finish s status s')
  then show ?case by (subst bs_loop.simps) simp
next
  case (round s s')
  then show ?case by (subst bs_loop.simps) simp
next
  case (wait s status s')
  have "status \<noteq> 0" using wait(3) by (auto simp: delays_def)
  then have l: "bs_loop lz4 c s = Some (status, s')" using wait(1,2) by (subst bs_loop.simps) simp
  have "served lz4 c later Q (expectedExternalEvent s') v" if "later s' v" for v
  proof -
    obtain st t where "bs_loop lz4 c (v\<lparr>expectedExternalEvent := 0\<rparr>) = Some (st, t)" and
      "isPatchingDone t \<and> Q t \<or> \<not> isPatchingDone t \<and> st \<in> delays \<and> (\<exists>v. later t v) \<and>
       (\<forall>v. later t v \<longrightarrow> served lz4 c later Q (expectedExternalEvent t) v)"
      and "expectedExternalEvent v = expectedExternalEvent s'"
      using wait(5) \<open>later s' v\<close> by blast
    then show ?thesis by (intro loop_served)
  qed
  then show ?case using l wait(2-4) by blast
qed

lemma finishes_served:
  assumes "finishes lz4 c later Q (s\<lparr>expectedExternalEvent := 0\<rparr>)" and "expectedExternalEvent s = e"
  shows "served lz4 c later Q e s"
proof -
  obtain st t where "bs_loop lz4 c (s\<lparr>expectedExternalEvent := 0\<rparr>) = Some (st, t)" and
    "isPatchingDone t \<and> Q t \<or> \<not> isPatchingDone t \<and> st \<in> delays \<and> (\<exists>v. later t v) \<and>
       (\<forall>v. later t v \<longrightarrow> served lz4 c later Q (expectedExternalEvent t) v)"
    using finishes_loop[OF assms(1)] by blast
  then show ?thesis using assms(2) by (intro loop_served)
qed

lemma WAIT_FOR_delay:
  assumes "delay \<in> delays"
  shows "WAIT_FOR event N (delay, s) = (delay, s\<lparr>expectedExternalEvent := event, next_state := N\<rparr>)"
proof -
  have "\<not> delay < 0" "delay \<noteq> 0" and d: "delay = 400 \<or> delay = 401 \<or> delay = 402 \<or> delay = 403"
    using assms by (auto simp: delays_def)
  then show ?thesis by (simp add: WAIT_FOR_def setExpectedExternalEventByState_def)
qed

text \<open>A round with an operation of the client; \<open>g\<close> is what the round does after it.\<close>

lemma finishes_operation:
  fixes g :: "'z bspatch_stream_scheme \<Rightarrow> 'z bspatch_stream_scheme"
  assumes step: "bs_step lz4 c s = map_option (\<lambda>r. WAIT_FOR event N (fst r, g (snd r))) r"
    and perf: "performs later delay r t P" and delay: "delay \<in> delays"
    and keep: "\<And>x. view (g x) = view x" "\<And>x. bspatch_stream.more (g x) = bspatch_stream.more x"
      "\<And>x. control (g x) = control x" "\<And>x. bs_address (g x) = bs_address x"
      "\<And>x y. regs x = regs y \<Longrightarrow> regs (g x) = regs (g y)"
    and goon: "\<not> isPatchingDone (g t)"
    and cont: "\<And>v. \<lbrakk>regs v = regs (g t); next_state v = N; view v = view t; P (bspatch_stream.more v)\<rbrakk> \<Longrightarrow>
      finishes lz4 c later Q v"
  shows "finishes lz4 c later Q s"
proof -
  obtain code s' where r: "r = Some (code, s')" "regs s' = regs t"
    and ans: "code = EBSAPI_OPERATION_DONE_IMMEDIATELY \<and> view s' = view t \<and> P (bspatch_stream.more s') \<or>
      code = delay \<and> (\<forall>u. view u = view s' \<and> bs_address u = bs_address s' \<and> bspatch_stream.more u = bspatch_stream.more s' \<longrightarrow>
        (\<exists>v. later u v) \<and>
        (\<forall>v. later u v \<longrightarrow> regs v = regs u \<and> control v = control u \<and> view v = view t \<and> P (bspatch_stream.more v)))"
    using perf unfolding performs_def by blast
  have g: "regs (g s') = regs (g t)" using keep(5)[OF r(2)] .
  show ?thesis
    using ans
  proof (elim disjE conjE)
    assume a: "code = EBSAPI_OPERATION_DONE_IMMEDIATELY" "view s' = view t" "P (bspatch_stream.more s')"
    let ?v = "(g s')\<lparr>expectedExternalEvent := 0, next_state := N\<rparr>"
    have "bs_step lz4 c s = Some (0, ?v)"
      using step r(1) a(1) by (simp add: WAIT_FOR_def setExpectedExternalEventByState_def)
    moreover have "\<not> isPatchingDone ?v" using goon done_regs[OF g] by simp
    moreover have "finishes lz4 c later Q ?v"
    proof (rule cont)
      show "regs ?v = regs (g t)" "next_state ?v = N" using g by simp_all
      show "view ?v = view t" unfolding view_updates keep(1) by (fact a(2))
      show "P (bspatch_stream.more ?v)" unfolding more_updates keep(2) by (fact a(3))
    qed
    ultimately show ?thesis by (rule finishes.round)
  next
    assume a: "code = delay" and later: "\<forall>u. view u = view s' \<and> bs_address u = bs_address s' \<and>
        bspatch_stream.more u = bspatch_stream.more s' \<longrightarrow> (\<exists>v. later u v) \<and>
        (\<forall>v. later u v \<longrightarrow> regs v = regs u \<and> control v = control u \<and> view v = view t \<and> P (bspatch_stream.more v))"
    let ?u = "(g s')\<lparr>expectedExternalEvent := event, next_state := N\<rparr>"
    have "bs_step lz4 c s = Some (delay, ?u)"
      unfolding step r(1) a using WAIT_FOR_delay[OF delay] by simp
    moreover have "\<not> isPatchingDone ?u" using goon done_regs[OF g] by simp
    moreover have u: "view ?u = view s'" "bs_address ?u = bs_address s'" "bspatch_stream.more ?u = bspatch_stream.more s'"
      using keep(1,2,4) by (simp_all add: view_def)
    moreover have "\<exists>v. later ?u v" using later u by blast
    moreover have "expectedExternalEvent v = expectedExternalEvent ?u \<and> finishes lz4 c later Q (v\<lparr>expectedExternalEvent := 0\<rparr>)"
      if "later ?u v" for v
    proof -
      have v: "regs v = regs ?u" "control v = control ?u" "view v = view t" "P (bspatch_stream.more v)"
        using later u that by blast+
      have "finishes lz4 c later Q (v\<lparr>expectedExternalEvent := 0\<rparr>)"
        by (rule cont) (use v g in \<open>simp_all add: control_def\<close>)
      then show ?thesis using v(2) by (simp add: control_def)
    qed
    ultimately show ?thesis using delay by (intro finishes.wait[of lz4 c s delay ?u]) simp_all
  qed
qed

text \<open>A round without one.\<close>

lemma finishes_internal:
  assumes "bs_step lz4 c s = Some (0, t)" and "\<not> isPatchingDone t" and "finishes lz4 c later Q t"
  shows "finishes lz4 c later Q s"
  using assms by (rule finishes.round)

subsection \<open>What the patcher needs of its client\<close>

text \<open>
  When the client is ready, \<open>io\<close> of its fields is the patch that is not read yet, the position
  in the old file and what is written of the new one.
\<close>

locale patch_io =
  fixes client :: "'z bspatch_stream_scheme bs_client"
    and later :: "'z bspatch_stream_scheme \<Rightarrow> 'z bspatch_stream_scheme \<Rightarrow> bool"
    and io :: "'z \<Rightarrow> (bytes \<times> int \<times> bytes) option"
    and old :: bytes and longest :: nat
  assumes complete: "read_patch client \<noteq> None" "read_old client \<noteq> None" "seek_old client \<noteq> None" "write_new client \<noteq> None"
    and reads_patch: "\<lbrakk>io (bspatch_stream.more s) = Some (bs @ r, p, w); bs \<noteq> []; length bs \<le> longest;
        unat n = length bs; bs_store b 0 bs s = Some t\<rbrakk> \<Longrightarrow>
      performs later EBSAPI_OPERATION_PATCH_READ_WILL_COMPLETE_LATER (the (read_patch client) b n s) t
        (\<lambda>z. io z = Some (r, p, w))"
    and reads_old: "\<lbrakk>io (bspatch_stream.more s) = Some (r, p, w); 0 \<le> p; nat p + unat n \<le> length old; 0 < unat n;
        unat n \<le> longest; bs_store b 0 (take (unat n) (drop (nat p) old)) s = Some t\<rbrakk> \<Longrightarrow>
      performs later EBSAPI_OPERATION_OLD_FILE_READ_WILL_COMPLETE_LATER (the (read_old client) b n s) t
        (\<lambda>z. io z = Some (r, p + int (unat n), w))"
    and writes_new: "\<lbrakk>io (bspatch_stream.more s) = Some (r, p, w); bs_load s b 0 (unat n) = Some bs; 0 < unat n;
        unat n \<le> longest\<rbrakk> \<Longrightarrow>
      performs later EBSAPI_OPERATION_NEW_FILE_WRITE_WILL_COMPLETE_LATER (the (write_new client) b n s) s
        (\<lambda>z. io z = Some (r, p, w @ bs))"
    and seeks_old: "\<lbrakk>io (bspatch_stream.more s) = Some (r, p, w); \<bar>p\<bar> < 2 ^ 61; \<bar>sint d\<bar> < 2 ^ 61\<rbrakk> \<Longrightarrow>
      performs later EBSAPI_OPERATION_OLD_FILE_SEEK_WILL_COMPLETE_LATER (the (seek_old client) d s) s
        (\<lambda>z. io z = Some (r, p + sint d, w))"
    and seek_keeps: "\<lbrakk>io (bspatch_stream.more s) = Some (r, p, w); the (seek_old client) d s = Some (code, t)\<rbrakk> \<Longrightarrow>
      \<exists>p'. io (bspatch_stream.more t) = Some (r, p', w)"

subsection \<open>Patches\<close>

text \<open>
  A frame is a compressed block with its contents. A segment has frames of differences to the
  old file, frames of new bytes, and a jump in the old file.
\<close>

type_synonym frames = "(bytes \<times> bytes) list"
type_synonym segment = "frames \<times> frames \<times> int"

definition plain :: "frames \<Rightarrow> bytes" where
  "plain fs = concat (map snd fs)"

definition frame_bytes :: "frames \<Rightarrow> bytes" where
  "frame_bytes fs = concat (map (\<lambda>(z, d). varint (length z) @ z) fs)"

fun segment_bytes :: "segment \<Rightarrow> bytes" where
  "segment_bytes (ds, es, j) =
     varint (length (plain ds)) @ varint (length (plain es)) @ svarint j @ frame_bytes ds @ frame_bytes es"

definition little_endian :: "u64 \<Rightarrow> bytes" where
  "little_endian v = map (\<lambda>i. ucast (drop_bit (8 * i) v)) [0..<8]"

definition patch_header :: "nat \<Rightarrow> nat \<Rightarrow> bytes \<Rightarrow> bytes" where
  "patch_header whole M unused = FILE_MAGIC @ little_endian (of_nat whole) @ little_endian (of_nat M) @ unused"

text \<open>What the patch makes of the old file from a position on.\<close>

fun patched :: "bytes \<Rightarrow> int \<Rightarrow> segment list \<Rightarrow> bytes" where
  "patched old p [] = []"
| "patched old p ((ds, es, j) # segs) =
     map2 (+) (drop (nat p) old) (plain ds) @ plain es @ patched old (p + int (length (plain ds)) + j) segs"

definition frame_ok :: "lz4 \<Rightarrow> nat \<Rightarrow> bytes \<times> bytes \<Rightarrow> bool" where
  "frame_ok lz4 M f = (case f of (z, d) \<Rightarrow>
     lz4 z (of_nat M) = (int (length d), d) \<and> 0 < length d \<and> length d \<le> M \<and> 0 < length z \<and> length z \<le> M)"

fun segments_ok :: "lz4 \<Rightarrow> nat \<Rightarrow> bytes \<Rightarrow> int \<Rightarrow> segment list \<Rightarrow> bool" where
  "segments_ok lz4 M old p [] \<longleftrightarrow> True"
| "segments_ok lz4 M old p ((ds, es, j) # segs) \<longleftrightarrow>
     (\<forall>f \<in> set (ds @ es). frame_ok lz4 M f) \<and> \<bar>j\<bar> < 2 ^ 47 \<and> \<bar>p\<bar> < 2 ^ 60 \<and>
     (ds \<noteq> [] \<longrightarrow> 0 \<le> p \<and> nat p + length (plain ds) \<le> length old) \<and> (segs = [] \<longrightarrow> ds @ es \<noteq> []) \<and>
     segments_ok lz4 M old (p + int (length (plain ds)) + j) segs"

lemma plain_Cons [simp]: "plain ((z, d) # fs) = d @ plain fs" "plain [] = []"
  by (simp_all add: plain_def)

lemma frame_bytes_Cons [simp]: "frame_bytes ((z, d) # fs) = varint (length z) @ z @ frame_bytes fs" "frame_bytes [] = []"
  by (simp_all add: frame_bytes_def)

lemma plain_empty: "\<forall>f \<in> set fs. frame_ok lz4 M f \<Longrightarrow> plain fs = [] \<longleftrightarrow> fs = []"
  by (cases fs) (auto simp: frame_ok_def)

text \<open>Where the patch is not at its end, something is still to be written.\<close>

lemma patched_nonempty: "segments_ok lz4 M old p segs \<Longrightarrow> segs \<noteq> [] \<Longrightarrow> patched old p segs \<noteq> []"
proof (induction segs arbitrary: p)
  case (Cons s segs)
  obtain ds es j where s: "s = (ds, es, j)" by (cases s)
  show ?case
  proof (cases "segs = []")
    case False
    then show ?thesis using Cons by (simp add: s)
  next
    case True
    have f: "\<forall>f \<in> set ds. frame_ok lz4 M f" "\<forall>f \<in> set es. frame_ok lz4 M f" using Cons(2) by (auto simp: s)
    have "ds \<noteq> [] \<or> es \<noteq> []" using Cons(2) True by (simp add: s)
    then show ?thesis
    proof
      assume "ds \<noteq> []"
      then have "0 < length (plain ds)" using plain_empty[OF f(1)] by simp
      moreover have "nat p + length (plain ds) \<le> length old" using Cons(2) \<open>ds \<noteq> []\<close> by (simp add: s)
      ultimately have "length (map2 (+) (drop (nat p) old) (plain ds)) \<noteq> 0" by simp
      then have "map2 (+) (drop (nat p) old) (plain ds) \<noteq> []" by (metis list.size(3))
      then show ?thesis by (simp add: s)
    next
      assume "es \<noteq> []"
      then show ?thesis using plain_empty[OF f(2)] by (simp add: s)
    qed
  qed
qed simp

subsection \<open>Buffers\<close>

definition prepared :: "nat \<Rightarrow> nat \<Rightarrow> 'z bspatch_stream_scheme \<Rightarrow> bool" where
  "prepared M whole s \<longleftrightarrow> length (bsMemoryBuffer s) = bs_memory_size \<and> nonCompressedDataBuffer s = bs_address s \<and>
     (\<exists>off. bufferForCompressedData s = bs_address s + of_nat off \<and> M \<le> off \<and> off + M \<le> bs_memory_size) \<and>
     max_compressedDataBuffer s = of_nat M \<and> max_deCompressBuffer s = of_nat M \<and> new_size s = of_nat whole \<and>
     64 \<le> M \<and> whole < 2 ^ 32"

lemma prepared_cong: "regs s = regs t \<Longrightarrow> view s = view t \<Longrightarrow> prepared M whole s = prepared M whole t"
  by (auto simp: prepared_def regs_def view_def)

lemma load_cong: "view s = view t \<Longrightarrow> bs_address s = bs_address t \<Longrightarrow> bs_load s b i n = bs_load t b i n"
  by (simp add: bs_load_def view_def split: bs_buffer.split)

lemma store_nonCompressed:
  assumes "prepared M whole s" and "length bs \<le> M"
  shows "\<exists>t. bs_store (at_nonCompressed s) 0 bs s = Some t \<and> regs t = regs s \<and> prepared M whole t \<and>
    bspatch_stream.more t = bspatch_stream.more s \<and> bs_load t (at_nonCompressed s) 0 (length bs) = Some bs"
proof -
  have m: "length bs \<le> length (bsMemoryBuffer s)" "nonCompressedDataBuffer s = bs_address s" using assms by (auto simp: prepared_def)
  obtain m' where w: "wr_block (bsMemoryBuffer s) 0 bs = Some m'" using m by (simp add: mem_simps)
  then have "length m' = length (bsMemoryBuffer s)" by (rule wr_block_length)
  then show ?thesis using w assms(1) m rd_block_wr_block_same[OF w refl]
    by (auto simp: bs_store_def bs_load_def prepared_def)
qed

lemma unat_below: "off < 2 ^ 32 \<Longrightarrow> unat (of_nat off :: u32) = off"
  by (simp add: unat_of_nat)

lemma store_compressed:
  assumes "prepared M whole s" and "length bs \<le> M"
  shows "\<exists>t. bs_store (at_compressed s) 0 bs s = Some t \<and> regs t = regs s \<and> prepared M whole t \<and>
    bspatch_stream.more t = bspatch_stream.more s \<and> bs_load t (at_compressed s) 0 (length bs) = Some bs \<and>
    (\<forall>i n. i + n \<le> M \<longrightarrow> bs_load t (at_nonCompressed s) i n = bs_load s (at_nonCompressed s) i n)"
proof -
  obtain off where off: "bufferForCompressedData s = bs_address s + of_nat off" "M \<le> off" "off + M \<le> bs_memory_size"
    using assms(1) by (auto simp: prepared_def)
  then have u: "unat (of_nat off :: u32) = off" by (intro unat_below) simp
  have l: "length (bsMemoryBuffer s) = bs_memory_size" "nonCompressedDataBuffer s = bs_address s" using assms(1) by (auto simp: prepared_def)
  obtain m' where w: "wr_block (bsMemoryBuffer s) off bs = Some m'" using off l assms(2) by (simp add: mem_simps)
  then have m': "length m' = length (bsMemoryBuffer s)" by (rule wr_block_length)
  have st: "bs_store (at_compressed s) 0 bs s = Some (s\<lparr>bsMemoryBuffer := m'\<rparr>)"
    using w by (simp add: bs_store_def off(1) u)
  have "bs_load (s\<lparr>bsMemoryBuffer := m'\<rparr>) (at_compressed s) 0 (length bs) = Some bs"
    using rd_block_wr_block_same[OF w refl] by (simp add: bs_load_def off(1) u)
  moreover have "bs_load (s\<lparr>bsMemoryBuffer := m'\<rparr>) (at_nonCompressed s) i n = bs_load s (at_nonCompressed s) i n" if "i + n \<le> M" for i n
    using rd_block_wr_block_other[OF w, of i n] that off(2) l(2) by (simp add: bs_load_def)
  moreover have "prepared M whole (s\<lparr>bsMemoryBuffer := m'\<rparr>)" using assms(1) m' by (simp add: prepared_def)
  ultimately show ?thesis using st by simp
qed

end
