(* ===== verification/BsPatch_Frames.thy ===== *)
theory BsPatch_Frames
  imports BsPatch_Client
begin

text \<open>
  The patcher reads numbers, frames of differences and frames of new bytes, each by rules that say
  what has been read and written when the next round begins.
\<close>

subsection \<open>Reading numbers\<close>

lemma varint_bound: "n < 128 ^ length (varint n)"
proof (induction n rule: varint.induct)
  case (1 n)
  show ?case
  proof (cases "n < 128")
    case False
    then have "n div 128 < 128 ^ length (varint (n div 128))" using 1 by simp
    then have "n < 128 * 128 ^ length (varint (n div 128))" by (simp add: div_less_iff_less_mult mult.commute)
    then show ?thesis using False by (simp add: varint_large)
  qed (simp add: varint_small)
qed

lemma varint_length: "0 < k \<Longrightarrow> n < 128 ^ k \<Longrightarrow> length (varint n) \<le> k"
proof (induction n arbitrary: k rule: varint.induct)
  case (1 n)
  show ?case
  proof (cases "n < 128")
    case False
    then obtain j where k: "k = Suc j" "0 < j" using 1(2,3) by (cases k; cases "k = 1") auto
    have "n div 128 < 128 ^ j" using 1(3) by (simp add: k div_less_iff_less_mult mult.commute)
    then show ?thesis using 1(1)[OF False k(2)] False by (simp add: k varint_large)
  qed (use 1(2) in \<open>simp add: varint_small\<close>)
qed

lemma small_count: "c < 8 \<Longrightarrow> sint (ucast (of_nat c :: u64) :: u32) = int c"
proof -
  assume "c < 8"
  then have "c = 0 \<or> c = 1 \<or> c = 2 \<or> c = 3 \<or> c = 4 \<or> c = 5 \<or> c = 6 \<or> c = 7" by linarith
  then show ?thesis by (elim disjE) simp_all
qed

lemma count_limit: "c < 7 \<Longrightarrow> \<not> 8 \<le> (of_nat c :: u64) + 1"
proof -
  assume "c < 7"
  then have "c = 0 \<or> c = 1 \<or> c = 2 \<or> c = 3 \<or> c = 4 \<or> c = 5 \<or> c = 6" by linarith
  then show ?thesis by (elim disjE) (simp_all add: word_le_nat_alt)
qed

text \<open>One byte of a number; signed numbers are converted at the end.\<close>

definition number :: "bool \<Rightarrow> u64 \<Rightarrow> u64" where
  "number is_signed v = (if is_signed then unsign v else v)"

lemma readVarInt_last:
  assumes "bs_load s (at_nonCompressed s) 0 1 = Some [of_nat x]" and "x < 128" and "var_int_len s = of_nat c" and "c < 7"
  shows "readVarIntEventified (isSignedVarInt s) s =
    Some (0, s\<lparr>var_int := number (isSignedVarInt s) (varint_byte (of_nat x) (var_int s) (int c)), var_int_len := 0,
               next_state := stateAfterReadVarInt s, stateAfterReadVarInt := EBsNone\<rparr>)"
  using assms decode_one(1,2)[OF assms(2), of c "var_int s"] small_count[of c] count_limit[of c]
  by (simp add: readVarIntEventified_def number_def)

lemma readVarInt_more:
  assumes "bs_load s (at_nonCompressed s) 0 1 = Some [of_nat (x + 128)]" and "x < 128" and "var_int_len s = of_nat c" and "c < 7"
  shows "readVarIntEventified (isSignedVarInt s) s =
    Some (0, s\<lparr>var_int := varint_byte (of_nat (x + 128)) (var_int s) (int c), var_int_len := of_nat (Suc c),
               next_state := EBspatch_read_varintPiece\<rparr>)"
  using assms decode_one(3,4)[OF assms(2), of c "var_int s"] small_count[of c] count_limit[of c]
  by (simp add: readVarIntEventified_def add.commute)

lemma store_load: "bs_store b i bs s = Some t \<Longrightarrow> bs_load s b i (length bs) \<noteq> None"
  by (auto simp: bs_store_def bs_load_def wr_block_def rd_block_def split: bs_buffer.splits if_splits)

context patch_io
begin

lemma reading_block:
  assumes step: "bs_step lz4 client s = map_option (WAIT_FOR EBSAPI_READ_PATCH_DONE N) (sendPatchReadRequest client b n s0)"
    and io: "io (bspatch_stream.more s0) = Some (bs @ r, p, w)" "bs \<noteq> []" "length bs \<le> longest" "unat n = length bs"
    and st: "bs_store b 0 bs s0 = Some t" "regs t = regs s0" "\<not> isPatchingDone s0"
    and cont: "\<And>v. \<lbrakk>regs v = regs s0; next_state v = N; view v = view t; io (bspatch_stream.more v) = Some (r, p, w)\<rbrakk> \<Longrightarrow>
      finishes lz4 client later Q v"
  shows "finishes lz4 client later Q s"
proof (rule finishes_operation[where g = "\<lambda>x. x"])
  show "bs_step lz4 client s =
      map_option (\<lambda>r. WAIT_FOR EBSAPI_READ_PATCH_DONE N (fst r, snd r)) (the (read_patch client) b n s0)"
    using complete(1) store_load[OF st(1)] io(4) by (auto simp: step sendPatchReadRequest_def bs_request_def)
  show "performs later EBSAPI_OPERATION_PATCH_READ_WILL_COMPLETE_LATER (the (read_patch client) b n s0) t
      (\<lambda>z. io z = Some (r, p, w))"
    using reads_patch[OF io st(1)] .
  show "EBSAPI_OPERATION_PATCH_READ_WILL_COMPLETE_LATER \<in> delays" by (simp add: delays_def)
  show "\<not> isPatchingDone t" using st(2,3) done_regs by blast
qed (use st(2) cont in auto)

text \<open>The next byte of the patch goes to the start of the buffer for numbers.\<close>

lemma reading_byte:
  assumes step: "bs_step lz4 client s = map_option (WAIT_FOR EBSAPI_READ_PATCH_DONE EBsPatch_process_varintPiece)
      (sendPatchReadRequest client (at_nonCompressed s0) 1 s0)"
    and "prepared M whole s0" and "\<not> isPatchingDone s0" and "io (bspatch_stream.more s0) = Some (b # r, p, w)" and "0 < longest"
    and cont: "\<And>v. \<lbrakk>regs v = regs s0; next_state v = EBsPatch_process_varintPiece; prepared M whole v;
      bs_load v (at_nonCompressed v) 0 1 = Some [b]; io (bspatch_stream.more v) = Some (r, p, w)\<rbrakk> \<Longrightarrow>
      finishes lz4 client later Q v"
  shows "finishes lz4 client later Q s"
proof -
  have "length [b] \<le> M" using assms(2) by (simp add: prepared_def)
  then obtain t where t: "bs_store (at_nonCompressed s0) 0 [b] s0 = Some t" "regs t = regs s0" "prepared M whole t"
      "bs_load t (at_nonCompressed s0) 0 1 = Some [b]"
    using store_nonCompressed[OF assms(2), of "[b]"] by auto
  show ?thesis
  proof (rule reading_block[OF step, of "[b]" r p w])
    show "bs_store (at_nonCompressed s0) 0 [b] s0 = Some t" "regs t = regs s0" using t(1,2) by auto
    fix v
    assume v: "regs v = regs s0" "next_state v = EBsPatch_process_varintPiece" "view v = view t"
      "io (bspatch_stream.more v) = Some (r, p, w)"
    have "nonCompressedDataBuffer v = nonCompressedDataBuffer s0" "bs_address v = bs_address t"
      using v(1) t(2) by (simp_all add: regs_def)
    then show "finishes lz4 client later Q v"
      using v t prepared_cong[of v t M whole] load_cong[of v t] by (intro cont) simp_all
  qed (use assms in auto)
qed

end

context patch_io
begin

lemma reading_number:
  assumes "varint n = b # bs" and "prepared M whole s" and "\<not> isPatchingDone s" and "next_state s = EBsPatch_process_varintPiece"
    and "bs_load s (at_nonCompressed s) 0 1 = Some [b]" and "io (bspatch_stream.more s) = Some (bs @ r, p, w)" and "0 < longest"
    and "var_int_len s = of_nat c" and "c + length (varint n) \<le> 7" and "c = 0 \<Longrightarrow> k = 0" and "c \<noteq> 0 \<Longrightarrow> k = unat (var_int s)"
    and "k < 128 ^ c" and "n = 0 \<Longrightarrow> c = 0"
    and cont: "\<And>v. \<lbrakk>regs v = regs (s\<lparr>var_int := number (isSignedVarInt s) (of_nat (k + n * 128 ^ c)), var_int_len := 0,
        stateAfterReadVarInt := EBsNone\<rparr>); next_state v = stateAfterReadVarInt s; prepared M whole v;
        io (bspatch_stream.more v) = Some (r, p, w)\<rbrakk> \<Longrightarrow> finishes lz4 client later Q v"
  shows "finishes lz4 client later Q s"
  using assms
proof (induction n arbitrary: b bs s c k rule: varint.induct)
  case (1 n)
  have "0 < length (varint n)" by simp
  then have c: "c < 7" using 1(10) by linarith
  have "n * 128 ^ c + k < 128 ^ length (varint n) * 128 ^ c"
  proof -
    have "n * 128 ^ c + k < n * 128 ^ c + 128 ^ c" using 1(13) by simp
    also have "\<dots> = Suc n * 128 ^ c" by simp
    also have "\<dots> \<le> 128 ^ length (varint n) * 128 ^ c" using varint_bound[of n] by (intro mult_right_mono) simp_all
    finally show ?thesis .
  qed
  also have "\<dots> = 128 ^ (length (varint n) + c)" by (simp add: power_add)
  also have "\<dots> \<le> 128 ^ 7" using 1(10) by (intro power_increasing) simp_all
  finally have less: "k + n * 128 ^ c < 2 ^ 64" by (simp add: add.commute)
  show ?case
  proof (cases "n < 128")
    case True
    have b: "b = of_nat n" "bs = []" using 1(2) True by (simp_all add: varint_small)
    have "unat (varint_byte (of_nat n) (var_int s) (int c)) = k + n * 128 ^ c"
      using varint_byte_sum[OF 1(11-13) less True byte_parts(3)[OF True]] by blast
    then have v: "varint_byte (of_nat n) (var_int s) (int c) = of_nat (k + n * 128 ^ c)" by (metis of_nat_unat ucast_id)
    let ?t = "s\<lparr>var_int := number (isSignedVarInt s) (of_nat (k + n * 128 ^ c)), var_int_len := 0,
               next_state := stateAfterReadVarInt s, stateAfterReadVarInt := EBsNone\<rparr>"
    have "readVarIntEventified (isSignedVarInt s) s = Some (0, ?t)"
      using readVarInt_last[OF 1(6)[unfolded b] True 1(9) c] by (simp only: v)
    then have "bs_step lz4 client s = Some (0, ?t)" using 1(5) by (simp add: bs_step_def)
    moreover have "\<not> isPatchingDone ?t" using 1(4) by (simp add: isPatchingDone_def)
    moreover have "finishes lz4 client later Q ?t"
      by (rule 1(15)) (use 1(3,7) b in \<open>simp_all add: regs_def prepared_def\<close>)
    ultimately show ?thesis by (rule finishes_internal)
  next
    case False
    let ?x = "n mod 128" and ?b = "of_nat (n mod 128 + 128) :: u8"
    have x: "?x < 128" by simp
    have b: "b = ?b" "bs = varint (n div 128)" using 1(2) False by (simp_all add: varint_large)
    obtain b' bs' where n: "varint (n div 128) = b' # bs'" by (cases "varint (n div 128)") auto
    have s: "k + n * 128 ^ c = (k + ?x * 128 ^ c) + n div 128 * 128 ^ Suc c"
    proof -
      have "n * 128 ^ c = (?x + n div 128 * 128) * 128 ^ c" by (simp only: mod_div_mult_eq)
      also have "\<dots> = ?x * 128 ^ c + n div 128 * 128 ^ Suc c" by (simp only: add_mult_distrib power_Suc mult.assoc)
      finally show ?thesis by simp
    qed
    let ?v = "varint_byte ?b (var_int s) (int c)"
    have v: "unat ?v = k + ?x * 128 ^ c"
      using varint_byte_sum[OF 1(11-13) _ x byte_parts(4)[OF x]] less s by linarith
    have k: "k + ?x * 128 ^ c < 128 ^ Suc c"
    proof -
      have "?x * 128 ^ c \<le> 127 * (128 :: nat) ^ c" using x by (intro mult_right_mono) simp_all
      moreover have "128 ^ Suc c = 127 * (128 :: nat) ^ c + 128 ^ c" by simp
      ultimately show ?thesis using 1(13) by linarith
    qed
    let ?t = "s\<lparr>var_int := ?v, var_int_len := of_nat (Suc c), next_state := EBspatch_read_varintPiece\<rparr>"
    have "bs_step lz4 client s = Some (0, ?t)"
      using readVarInt_more[OF 1(6)[unfolded b] x 1(9) c] 1(5) by (simp add: bs_step_def)
    moreover have "\<not> isPatchingDone ?t" using 1(4) by (simp add: isPatchingDone_def)
    moreover have "finishes lz4 client later Q ?t"
    proof (rule reading_byte)
      show "bs_step lz4 client ?t = map_option (WAIT_FOR EBSAPI_READ_PATCH_DONE EBsPatch_process_varintPiece)
          (sendPatchReadRequest client (at_nonCompressed ?t) 1 ?t)" by (simp add: bs_step_def)
      show "prepared M whole ?t" "\<not> isPatchingDone ?t" "io (bspatch_stream.more ?t) = Some (b' # bs' @ r, p, w)"
        using 1(3,4,7) n b by (simp_all add: prepared_def isPatchingDone_def)
      fix u
      assume u: "regs u = regs ?t" "next_state u = EBsPatch_process_varintPiece" "prepared M whole u"
        "bs_load u (at_nonCompressed u) 0 1 = Some [b']" "io (bspatch_stream.more u) = Some (bs' @ r, p, w)"
      have l: "Suc c + length (varint (n div 128)) \<le> 7" using 1(10) False by (simp add: varint_large)
      have f: "var_int_len u = of_nat (Suc c)" "var_int u = ?v" "isSignedVarInt u = isSignedVarInt s"
        "stateAfterReadVarInt u = stateAfterReadVarInt s" using u(1) by (simp_all add: regs_def)
      have g: "\<not> isPatchingDone u" using done_regs[OF u(1)] 1(4) by (simp add: isPatchingDone_def)
      show "finishes lz4 client later Q u"
      proof (rule 1(1)[OF False n u(3) g u(2) u(4,5) 1(8) f(1) l, of "k + ?x * 128 ^ c"])
        show "n div 128 = 0 \<Longrightarrow> Suc c = 0" using False by (simp add: div_eq_0_iff)
        fix v'
        assume "regs v' = regs (u\<lparr>var_int := number (isSignedVarInt u) (of_nat (k + ?x * 128 ^ c + n div 128 * 128 ^ Suc c)),
            var_int_len := 0, stateAfterReadVarInt := EBsNone\<rparr>)" "next_state v' = stateAfterReadVarInt u" "prepared M whole v'"
          "io (bspatch_stream.more v') = Some (r, p, w)"
        then show "finishes lz4 client later Q v'"
          using u(1) f by (intro 1(15)) (simp_all add: s regs_def)
      qed (use k f v in simp_all)
    qed (use 1(8) in simp)
    ultimately show ?thesis by (rule finishes_internal)
  qed
qed

end

subsection \<open>Lengths\<close>

lemma of_nat_sless:
  assumes "m < 2 ^ 63" and "n < 2 ^ 63"
  shows "((of_nat m :: u64) <s of_nat n) = (m < n)"
proof -
  have "sint (of_nat k :: u64) = int k" if "k < 2 ^ 63" for k
  proof -
    have "unat (of_nat k :: u64) = k" using that by (simp add: unat_of_nat)
    then show ?thesis using sint_below[of "of_nat k"] that by simp
  qed
  then show ?thesis using assms by (simp add: word_sless_alt)
qed

lemma ucast_of_nat: "n < 2 ^ 32 \<Longrightarrow> ucast (of_nat n :: u32) = (of_nat n :: u64)"
  by (simp add: unsigned_ucast_eq word_unat_eq_iff unat_of_nat take_bit_nat_eq_self_iff)

lemma ucast_down: "ucast (of_nat n :: u64) = (of_nat n :: u32)"
  by (simp add: of_nat_take_bit unsigned_ucast_eq word_unat_eq_iff unat_of_nat take_bit_eq_mod mod_mod_cancel)

subsection \<open>Adding the difference\<close>

lemma add_diff:
  assumes "length (bsMemoryBuffer s) = bs_memory_size" and "nonCompressedDataBuffer s = bs_address s"
    and "bufferForCompressedData s = bs_address s + of_nat off" and "bs_i s = 0"
    and "i + n \<le> off" and "off + i + n \<le> bs_memory_size"
  shows "\<exists>m. add_diff_loop i n s = Some (s\<lparr>bsMemoryBuffer := m\<rparr>) \<and> length m = bs_memory_size \<and>
    (\<forall>j < bs_memory_size. m ! j = (if off + i \<le> j \<and> j < off + i + n then bsMemoryBuffer s ! j + bsMemoryBuffer s ! (j - off)
                                   else bsMemoryBuffer s ! j))"
  using assms
proof (induction n arbitrary: i s)
  case 0
  then show ?case by (auto intro!: exI[of _ "bsMemoryBuffer s"])
next
  case (Suc n)
  let ?m = "bsMemoryBuffer s"
  have u: "unat (of_nat off :: u32) = off" using Suc.prems(6) by (intro unat_below) simp
  have one: "rd_block ?m k 1 = Some [?m ! k]" if "k < bs_memory_size" for k
    using that Suc.prems(1) by (simp add: rd_block_def take_Suc_conv_app_nth)
  have a: "bs_load s (at_compressed s) i 1 = Some [?m ! (off + i)]"
    using one[of "off + i"] Suc.prems by (simp add: bs_load_def u)
  have b: "bs_load s (at_nonCompressed s) (unat (bs_i s) + i) 1 = Some [?m ! i]"
    using one[of i] Suc.prems by (simp add: bs_load_def)
  let ?m1 = "?m[off + i := ?m ! (off + i) + ?m ! i]"
  have "wr_block ?m (off + i) [?m ! (off + i) + ?m ! i] = Some ?m1"
    using Suc.prems by (simp add: wr_block_def upd_conv_take_nth_drop)
  then have c: "bs_store (at_compressed s) i [?m ! (off + i) + ?m ! i] s = Some (s\<lparr>bsMemoryBuffer := ?m1\<rparr>)"
    using Suc.prems by (simp add: bs_store_def u)
  obtain m where m: "add_diff_loop (Suc i) n (s\<lparr>bsMemoryBuffer := ?m1\<rparr>) = Some (s\<lparr>bsMemoryBuffer := m\<rparr>)" "length m = bs_memory_size"
    "\<forall>j < bs_memory_size. m ! j = (if off + Suc i \<le> j \<and> j < off + Suc i + n then ?m1 ! j + ?m1 ! (j - off) else ?m1 ! j)"
    using Suc.IH[of "s\<lparr>bsMemoryBuffer := ?m1\<rparr>" "Suc i"] Suc.prems by auto
  have "m ! j = (if off + i \<le> j \<and> j < off + i + Suc n then ?m ! j + ?m ! (j - off) else ?m ! j)" if "j < bs_memory_size" for j
    using m(3)[rule_format, OF that] that Suc.prems by (cases "j = off + i") (auto simp: nth_list_update)
  then show ?case using a b c m(1,2) by (intro exI[of _ m]) simp
qed

lemma add_diff_frame:
  assumes "prepared M whole s" and "bs_i s = 0" and "length d \<le> M" and "length xs = length d"
    and "bs_load s (at_compressed s) 0 (length d) = Some xs" and "bs_load s (at_nonCompressed s) 0 (length d) = Some d"
  shows "\<exists>t. add_diff_loop 0 (length d) s = Some t \<and> regs t = regs s \<and> prepared M whole t \<and> control t = control s \<and>
    bspatch_stream.more t = bspatch_stream.more s \<and> bs_load t (at_compressed s) 0 (length d) = Some (map2 (+) xs d)"
proof -
  obtain off where off: "bufferForCompressedData s = bs_address s + of_nat off" "M \<le> off" "off + M \<le> bs_memory_size"
    using assms(1) by (auto simp: prepared_def)
  have u: "unat (of_nat off :: u32) = off" using off by (intro unat_below) simp
  have l: "length (bsMemoryBuffer s) = bs_memory_size" "nonCompressedDataBuffer s = bs_address s" using assms(1) by (auto simp: prepared_def)
  obtain m where m: "add_diff_loop 0 (length d) s = Some (s\<lparr>bsMemoryBuffer := m\<rparr>)" "length m = bs_memory_size"
    "\<forall>j < bs_memory_size. m ! j = (if off \<le> j \<and> j < off + length d then bsMemoryBuffer s ! j + bsMemoryBuffer s ! (j - off)
                                   else bsMemoryBuffer s ! j)"
    using add_diff[OF l off(1) assms(2), of 0 "length d"] off assms(3) by auto
  have o: "xs = take (length d) (drop off (bsMemoryBuffer s))" and d: "d = take (length d) (bsMemoryBuffer s)"
    using assms(5,6) l off(1) u by (auto simp: bs_load_def rd_block_def split: if_splits)
  have "take (length d) (drop off m) = map2 (+) xs d"
  proof (rule nth_equalityI)
    show "length (take (length d) (drop off m)) = length (map2 (+) xs d)"
      using m(2) off assms(3,4) by simp
    fix k assume "k < length (take (length d) (drop off m))"
    then have k: "k < length d" "off + k < bs_memory_size" using m(2) off assms(3) by auto
    have "xs ! k = bsMemoryBuffer s ! (off + k)" using o k l off assms(3) by simp
    moreover have "d ! k = bsMemoryBuffer s ! k" using d k by (metis nth_take)
    ultimately show "take (length d) (drop off m) ! k = map2 (+) xs d ! k" using m(2,3) k off assms(3,4) by simp
  qed
  moreover have "bs_load (s\<lparr>bsMemoryBuffer := m\<rparr>) (at_compressed s) 0 (length d) = Some (take (length d) (drop off m))"
    using m(2) off assms(3) by (simp add: bs_load_def u rd_block_def)
  ultimately show ?thesis using m(1,2) assms(1) by (intro exI[of _ "s\<lparr>bsMemoryBuffer := m\<rparr>"]) (simp add: control_def prepared_def)
qed

subsection \<open>Frames\<close>

definition core where
  "core s = (total_undeCompressBuffer s, var_int_len s, newpos s, ctrl_DIFF_STR_LEN_X s, ctrl_EXTRA_STR_LEN_Y s,
     ctrl_OLD_FILE_CTRL_OFF_SET_JUMP s, new_size s)"

lemma core_done: "core s = core t \<Longrightarrow> isPatchingDone s = isPatchingDone t"
  by (simp add: core_def isPatchingDone_def)

lemma regs_core: "regs s = regs t \<Longrightarrow> core s = core t"
  by (simp add: core_def regs_def)

lemma short_varint: "n \<le> bs_memory_size \<Longrightarrow> length (varint n) \<le> 7"
  by (rule varint_length) simp_all

lemma decompressed:
  assumes "prepared M whole s" and "frame_len s = of_nat (length z)" and "frame_ok lz4 M (z, d)"
    and "bs_load s (at_compressed s) 0 (length z) = Some z"
  shows "\<exists>t. read_deCompressBuffer_process lz4 (frame_len s) s = Some (0, t) \<and> prepared M whole t \<and> core t = core s \<and>
    undeCompressBuffer_len t = of_nat (length d) \<and> bs_load t (at_nonCompressed t) 0 (length d) = Some d \<and>
    bspatch_stream.more t = bspatch_stream.more s"
proof -
  have M: "M \<le> bs_memory_size" using assms(1) by (auto simp: prepared_def)
  have f: "lz4 z (of_nat M) = (int (length d), d)" "0 < length d" "length d \<le> M" "length z \<le> M"
    using assms(3) by (simp_all add: frame_ok_def)
  have z: "unat (ucast (frame_len s) :: u32) = length z"
    using f(4) M by (simp only: assms(2) ucast_down) (simp add: unat_below)
  obtain t where t: "bs_store (at_nonCompressed s) 0 d s = Some t" "regs t = regs s" "prepared M whole t"
    "bspatch_stream.more t = bspatch_stream.more s" "bs_load t (at_nonCompressed s) 0 (length d) = Some d"
    using store_nonCompressed[OF assms(1) f(3)] by blast
  let ?t = "t\<lparr>undeCompressBuffer_len := of_nat (length d)\<rparr>"
  have p: "0 <s (of_nat (length d) :: u64)"
    using of_nat_sless[of 0 "length d"] f(2,3) M by simp
  have "max_compressedDataBuffer s = of_nat M" using assms(1) by (simp add: prepared_def)
  then have "read_deCompressBuffer_process lz4 (frame_len s) s = Some (0, ?t)"
    using assms(4) z f(1) t(1) p by (simp add: read_deCompressBuffer_process_def)
  moreover have "nonCompressedDataBuffer t = nonCompressedDataBuffer s" using t(2) by (simp add: regs_def)
  ultimately show ?thesis
    using t by (intro exI[of _ ?t]) (auto simp: prepared_def core_def regs_def bs_load_def)
qed

context patch_io
begin

lemma reading_varint:
  assumes step: "bs_step lz4 client s = map_option (WAIT_FOR EBSAPI_READ_PATCH_DONE EBsPatch_process_varintPiece)
      (sendPatchReadRequest client (at_nonCompressed s0) 1 s0)"
    and "prepared M whole s0" and "\<not> isPatchingDone s0" and "io (bspatch_stream.more s0) = Some (varint n @ r, p, w)"
    and "0 < longest" and "var_int_len s0 = 0" and "length (varint n) \<le> 7"
    and cont: "\<And>v. \<lbrakk>regs v = regs (s0\<lparr>var_int := number (isSignedVarInt s0) (of_nat n), var_int_len := 0,
        stateAfterReadVarInt := EBsNone\<rparr>); next_state v = stateAfterReadVarInt s0; prepared M whole v;
        io (bspatch_stream.more v) = Some (r, p, w)\<rbrakk> \<Longrightarrow> finishes lz4 client later Q v"
  shows "finishes lz4 client later Q s"
proof -
  obtain b bs where n: "varint n = b # bs" by (cases "varint n") auto
  show ?thesis
  proof (rule reading_byte[OF step assms(2,3)])
    show "io (bspatch_stream.more s0) = Some (b # bs @ r, p, w)" using assms(4) n by simp
    fix v
    assume v: "regs v = regs s0" "next_state v = EBsPatch_process_varintPiece" "prepared M whole v"
      "bs_load v (at_nonCompressed v) 0 1 = Some [b]" "io (bspatch_stream.more v) = Some (bs @ r, p, w)"
    have f: "var_int_len v = of_nat 0" "isSignedVarInt v = isSignedVarInt s0" "stateAfterReadVarInt v = stateAfterReadVarInt s0"
      using v(1) assms(6) by (simp_all add: regs_def)
    have "\<not> isPatchingDone v" using done_regs[OF v(1)] assms(3) by simp
    then show "finishes lz4 client later Q v"
    proof (rule reading_number[OF n v(3) _ v(2,4,5) assms(5) f(1), of 0])
      fix u
      assume "regs u = regs (v\<lparr>var_int := number (isSignedVarInt v) (of_nat (0 + n * 128 ^ 0)), var_int_len := 0,
          stateAfterReadVarInt := EBsNone\<rparr>)" "next_state u = stateAfterReadVarInt v" "prepared M whole u"
        "io (bspatch_stream.more u) = Some (r, p, w)"
      then show "finishes lz4 client later Q u" using v(1) f by (intro cont) (simp_all add: regs_def)
    qed (use assms(7) in simp_all)
  qed (rule assms(5))
qed

text \<open>The length of a frame and its bytes.\<close>

lemma reading_frame:
  assumes head: "bs_step lz4 client s = Some (SET_NEXT_STATE EBspatch_read_frame_len (0, s\<lparr>stateAfterReadVarInt := A\<rparr>))"
    and body: "\<And>u. next_state u = A \<Longrightarrow> bs_step lz4 client u =
      map_option (WAIT_FOR EBSAPI_READ_PATCH_DONE N) (read_deCompressBuffer client (var_int u) (u\<lparr>frame_len := var_int u\<rparr>))"
    and "prepared M whole s" and "\<not> isPatchingDone s" and "io (bspatch_stream.more s) = Some (varint (length z) @ z @ r, p, w)"
    and "0 < length z" and "length z \<le> M" and "M \<le> longest" and "var_int_len s = 0"
    and cont: "\<And>v. \<lbrakk>core v = core s; next_state v = N; frame_len v = of_nat (length z); prepared M whole v;
        bs_load v (at_compressed v) 0 (length z) = Some z; io (bspatch_stream.more v) = Some (r, p, w)\<rbrakk> \<Longrightarrow>
      finishes lz4 client later Q v"
  shows "finishes lz4 client later Q s"
proof (rule finishes_internal[OF head[unfolded SET_NEXT_STATE_def fst_conv snd_conv]])
  let ?s = "s\<lparr>stateAfterReadVarInt := A, next_state := EBspatch_read_frame_len\<rparr>"
  have M: "M \<le> bs_memory_size" "0 < longest" using assms(3,8) by (auto simp: prepared_def)
  show d: "\<not> isPatchingDone ?s" using assms(4) by (simp add: isPatchingDone_def)
  show "finishes lz4 client later Q ?s"
  proof (rule reading_varint)
    show "bs_step lz4 client ?s = map_option (WAIT_FOR EBSAPI_READ_PATCH_DONE EBsPatch_process_varintPiece)
        (sendPatchReadRequest client (at_nonCompressed (?s\<lparr>isSignedVarInt := False\<rparr>)) 1 (?s\<lparr>isSignedVarInt := False\<rparr>))"
      by (simp add: bs_step_def)
    show "length (varint (length z)) \<le> 7" using assms(7) M by (intro short_varint) simp
    fix u
    assume u: "regs u = regs (?s\<lparr>isSignedVarInt := False, var_int := number (isSignedVarInt (?s\<lparr>isSignedVarInt := False\<rparr>)) (of_nat (length z)),
        var_int_len := 0, stateAfterReadVarInt := EBsNone\<rparr>)" "next_state u = stateAfterReadVarInt (?s\<lparr>isSignedVarInt := False\<rparr>)"
      "prepared M whole u" "io (bspatch_stream.more u) = Some (z @ r, p, w)"
    let ?u = "u\<lparr>frame_len := var_int u\<rparr>"
    have f: "var_int u = of_nat (length z)" "max_deCompressBuffer u = of_nat M" "core u = core s" "next_state u = A"
      using u assms(9) by (simp_all add: regs_def number_def core_def prepared_def)
    have "\<not> ucast (max_deCompressBuffer u) <s var_int u"
      using of_nat_sless[of M "length z"] ucast_of_nat[of M] assms(7) M f by simp
    then have st: "bs_step lz4 client u = map_option (WAIT_FOR EBSAPI_READ_PATCH_DONE N)
        (sendPatchReadRequest client (at_compressed ?u) (var_int u) ?u)"
      using body[OF f(4)] by (simp add: read_deCompressBuffer_def)
    have p: "prepared M whole ?u" using u(3) by (simp add: prepared_def)
    obtain t where t: "bs_store (at_compressed ?u) 0 z ?u = Some t" "regs t = regs ?u" "prepared M whole t"
      "bs_load t (at_compressed ?u) 0 (length z) = Some z"
      using store_compressed[OF p assms(7)] by blast
    show "finishes lz4 client later Q u"
    proof (rule reading_block[OF st, of z r p w])
      show "bs_store (at_compressed ?u) 0 z ?u = Some t" "regs t = regs ?u" by (fact t)+
      show "unat (var_int u) = length z" using assms(7) M by (simp add: f(1) unat_of_nat take_bit_nat_eq_self)
      show "\<not> isPatchingDone ?u" using core_done[OF f(3)] assms(4) by (simp add: isPatchingDone_def)
      fix v
      assume v: "regs v = regs ?u" "next_state v = N" "view v = view t" "io (bspatch_stream.more v) = Some (r, p, w)"
      have "core v = core ?u" using regs_core[OF v(1)] .
      then have "core v = core s" using f(3) by (simp add: core_def)
      moreover have "prepared M whole v" using prepared_cong[of v t] v t by simp
      moreover have "bufferForCompressedData v = bufferForCompressedData ?u" "bs_address v = bs_address t" "frame_len v = var_int u"
        using v(1) t(2) by (simp_all add: regs_def)
      ultimately show "finishes lz4 client later Q v"
        using v t f(1) load_cong[OF v(3)] by (intro cont) simp_all
    qed (use u assms in auto)
  qed (use d M assms in \<open>simp_all add: prepared_def isPatchingDone_def\<close>)
qed

end

lemma map2_take: "map2 f (take (length ys) xs) ys = map2 f xs ys"
proof -
  have "zip xs ys = take (length ys) (zip xs ys)" by simp
  also have "\<dots> = zip (take (length ys) xs) ys" by (simp only: take_zip take_all order_refl)
  finally show ?thesis by simp
qed

context patch_io
begin

text \<open>The old bytes are read over the compressed frame, the difference is added and the sum written.\<close>

lemma diff_written:
  assumes "prepared M whole s" and "\<not> isPatchingDone s" and "bs_i s = 0" and "undeCompressBuffer_len s = of_nat (length d)"
    and "readRequestSize s = of_nat (length d)" and "0 < length d" and "length d \<le> M" and "M \<le> longest"
    and "next_state s = EBspatch_processDiffBytes_processSinglePieceContinue_writePart" and "length xs = length d"
    and "bs_load s (at_compressed s) 0 (length d) = Some xs" and "bs_load s (at_nonCompressed s) 0 (length d) = Some d"
    and "io (bspatch_stream.more s) = Some (r, p, w)"
    and cont: "\<And>v. \<lbrakk>core v = core s; next_state v = EBspatch_processDiffBytes_processSinglePieceContinue_postActions;
        undeCompressBuffer_len v = of_nat (length d); prepared M whole v;
        io (bspatch_stream.more v) = Some (r, p, w @ map2 (+) xs d)\<rbrakk> \<Longrightarrow> finishes lz4 client later Q v"
  shows "finishes lz4 client later Q s"
proof -
  have M: "M \<le> bs_memory_size" using assms(1) by (auto simp: prepared_def)
  have n: "unat (readRequestSize s) = length d" "unat (ucast (readRequestSize s) :: u64) = length d"
    "ucast (readRequestSize s) = (of_nat (length d) :: u64)"
    using assms(5,7) M ucast_of_nat[of "length d"] by (simp_all add: unat_of_nat take_bit_nat_eq_self)
  obtain t where t: "add_diff_loop 0 (length d) s = Some t" "regs t = regs s" "prepared M whole t"
    "bspatch_stream.more t = bspatch_stream.more s" "bs_load t (at_compressed s) 0 (length d) = Some (map2 (+) xs d)"
    using add_diff_frame[OF assms(1,3,7,10,11,12)] by blast
  have c: "bufferForCompressedData t = bufferForCompressedData s" "readRequestSize t = readRequestSize s"
    using t(2) by (simp_all add: regs_def)
  let ?g = "\<lambda>x :: 'a bspatch_stream_scheme. x\<lparr>bs_i := bs_i x + ucast (readRequestSize x)\<rparr>"
  show ?thesis
  proof (rule finishes_operation[where g = ?g])
    show "bs_step lz4 client s = map_option (\<lambda>r. WAIT_FOR EBSAPI_WRITE_NEW_DONE
        EBspatch_processDiffBytes_processSinglePieceContinue2 (fst r, ?g (snd r)))
        (the (write_new client) (at_compressed s) (ucast (readRequestSize s)) t)"
      using complete(4) assms(9) n t(1,5) c
      by (auto simp: bs_step_def sendWriteNewRequest_def bs_request_def map_conv_bind_option comp_def case_prod_unfold)
    show "performs later EBSAPI_OPERATION_NEW_FILE_WRITE_WILL_COMPLETE_LATER
        (the (write_new client) (at_compressed s) (ucast (readRequestSize s)) t) t (\<lambda>z. io z = Some (r, p, w @ map2 (+) xs d))"
      using writes_new[of t r p w "at_compressed s" "ucast (readRequestSize s)"] t(4,5) assms(6-8,13) n by simp
    show "EBSAPI_OPERATION_NEW_FILE_WRITE_WILL_COMPLETE_LATER \<in> delays" by (simp add: delays_def)
    have dt: "\<not> isPatchingDone t" using done_regs[OF t(2)] assms(2) by simp
    then show "\<not> isPatchingDone (?g t)" by (simp add: isPatchingDone_def)
    fix v
    assume v: "regs v = regs (?g t)" "next_state v = EBspatch_processDiffBytes_processSinglePieceContinue2"
      "view v = view t" "io (bspatch_stream.more v) = Some (r, p, w @ map2 (+) xs d)"
    let ?v = "v\<lparr>next_state := EBspatch_processDiffBytes_processSinglePieceContinue_postActions\<rparr>"
    have f: "bs_i v = of_nat (length d)" "undeCompressBuffer_len v = of_nat (length d)" "core v = core s"
      using v(1) t(2) assms(3,4) n by (simp_all add: regs_def core_def)
    have "view (?g t) = view v" "prepared M whole (?g t)" using v(3) t(3) by (simp_all add: view_def prepared_def)
    then have p: "prepared M whole v" using prepared_cong[of v "?g t"] v(1) by simp
    have "bs_step lz4 client v = Some (0, ?v)" using v(2) f by (simp add: bs_step_def SET_NEXT_STATE_def)
    moreover have "\<not> isPatchingDone ?v" using core_done[OF f(3)] assms(2) by simp
    moreover have "finishes lz4 client later Q ?v"
      by (rule cont) (use v f p in \<open>simp_all add: core_def prepared_def\<close>)
    ultimately show "finishes lz4 client later Q v" by (rule finishes_internal)
  qed (auto simp: view_def control_def regs_def)
qed

lemma diff_frame:
  assumes "next_state s = EBspatch_processDiffBytes_readHeaderPiece" and "prepared M whole s" and "\<not> isPatchingDone s"
    and "var_int_len s = 0" and "frame_ok lz4 M (z, d)" and "M \<le> longest"
    and "io (bspatch_stream.more s) = Some (varint (length z) @ z @ r, p, w)" and "0 \<le> p" and "nat p + length d \<le> length old"
    and cont: "\<And>v. \<lbrakk>core v = core s; next_state v = EBspatch_processDiffBytes_processSinglePieceContinue_postActions;
        undeCompressBuffer_len v = of_nat (length d); prepared M whole v;
        io (bspatch_stream.more v) = Some (r, p + int (length d), w @ map2 (+) (drop (nat p) old) d)\<rbrakk> \<Longrightarrow>
      finishes lz4 client later Q v"
  shows "finishes lz4 client later Q s"
proof (rule reading_frame[where A = EBspatch_processDiffBytes_processSinglePiece and
      N = EBspatch_processDiffBytes_processSinglePieceContinue])
  have f: "0 < length d" "length d \<le> M" "0 < length z" "length z \<le> M" using assms(5) by (simp_all add: frame_ok_def)
  have M: "M \<le> bs_memory_size" using assms(2) by (auto simp: prepared_def)
  show "0 < length z" "length z \<le> M" by (fact f)+
  show "bs_step lz4 client s = Some (SET_NEXT_STATE EBspatch_read_frame_len
      (0, s\<lparr>stateAfterReadVarInt := EBspatch_processDiffBytes_processSinglePiece\<rparr>))"
    using assms(1) by (simp add: bs_step_def)
  fix v
  assume v: "core v = core s" "next_state v = EBspatch_processDiffBytes_processSinglePieceContinue" "frame_len v = of_nat (length z)"
    "prepared M whole v" "bs_load v (at_compressed v) 0 (length z) = Some z" "io (bspatch_stream.more v) = Some (r, p, w)"
  obtain t where t: "read_deCompressBuffer_process lz4 (frame_len v) v = Some (0, t)" "prepared M whole t" "core t = core v"
    "undeCompressBuffer_len t = of_nat (length d)" "bs_load t (at_nonCompressed t) 0 (length d) = Some d"
    "bspatch_stream.more t = bspatch_stream.more v"
    using decompressed[OF v(4,3) assms(5) v(5)] by blast
  let ?t1 = "t\<lparr>next_state := EBspatch_processDiffBytes_processSinglePieceInit\<rparr>"
  let ?t2 = "t\<lparr>bs_i := 0, next_state := EBspatch_processDiffBytes_processSinglePieceContinue2\<rparr>"
  let ?t3 = "?t2\<lparr>readRequestSize := of_nat (length d)\<rparr>"
  have d: "\<not> isPatchingDone t" using core_done[of t s] t(3) v(1) assms(3) by simp
  have n: "unat (of_nat (length d) :: u64) = length d" "unat (of_nat (length d) :: u32) = length d"
    using f(2) M by (simp_all add: unat_of_nat take_bit_nat_eq_self)
  have m: "max_deCompressBuffer t = of_nat M" using t(2) by (simp add: prepared_def)
  have r: "max_deCompressBuffer t = of_nat (length d)" if "max_deCompressBuffer t \<le> of_nat (length d)"
  proof -
    have "M = length d"
      using that f(2) M n(2) by (simp add: m word_le_nat_alt unat_of_nat take_bit_nat_eq_self)
    then show ?thesis by (simp add: m)
  qed
  have n3: "ucast (of_nat (length d) :: u32) = (of_nat (length d) :: u64)" using ucast_of_nat[of "length d"] f(2) M by simp
  have i: "0 <s (of_nat (length d) :: u64)" using of_nat_sless[of 0 "length d"] f M by simp
  have s2: "bs_step lz4 client ?t2 = map_option (WAIT_FOR EBSAPI_READ_OLD_DONE
      EBspatch_processDiffBytes_processSinglePieceContinue_writePart)
      (sendReadOldRequest client (at_compressed t) (of_nat (length d)) ?t3)"
    using t(4) i r n3 by (cases "max_deCompressBuffer t \<le> of_nat (length d)") (simp_all add: bs_step_def Let_def ucast_down)
  show "finishes lz4 client later Q v"
  proof (rule finishes_internal[of lz4 client v ?t1])
    show "bs_step lz4 client v = Some (0, ?t1)" using v(2) t(1) by (simp add: bs_step_def SET_NEXT_STATE_def)
    show "finishes lz4 client later Q ?t1"
    proof (rule finishes_internal[of lz4 client ?t1 ?t2])
      show "bs_step lz4 client ?t1 = Some (0, ?t2)" by (simp add: bs_step_def SET_NEXT_STATE_def)
      have p3: "prepared M whole ?t3" using t(2) by (simp add: prepared_def)
      let ?xs = "take (length d) (drop (nat p) old)"
      have xs: "length ?xs = length d" using assms(9) by simp
      obtain u where u: "bs_store (at_compressed ?t3) 0 ?xs ?t3 = Some u" "regs u = regs ?t3" "prepared M whole u"
        "bs_load u (at_compressed ?t3) 0 (length ?xs) = Some ?xs"
        "\<forall>i n. i + n \<le> M \<longrightarrow> bs_load u (at_nonCompressed ?t3) i n = bs_load ?t3 (at_nonCompressed ?t3) i n"
        using store_compressed[OF p3, of ?xs] f(2) xs by auto
      show "finishes lz4 client later Q ?t2"
      proof (rule finishes_operation[where g = "\<lambda>x. x"])
        show "bs_step lz4 client ?t2 = map_option (\<lambda>r. WAIT_FOR EBSAPI_READ_OLD_DONE
            EBspatch_processDiffBytes_processSinglePieceContinue_writePart (fst r, snd r))
            (the (read_old client) (at_compressed t) (of_nat (length d)) ?t3)"
          using complete(2) store_load[OF u(1)] n(1) xs by (auto simp: s2 sendReadOldRequest_def bs_request_def)
        show "performs later EBSAPI_OPERATION_OLD_FILE_READ_WILL_COMPLETE_LATER
            (the (read_old client) (at_compressed t) (of_nat (length d)) ?t3) u (\<lambda>z. io z = Some (r, p + int (length d), w))"
          using reads_old[of ?t3 r p w "of_nat (length d)" "at_compressed t" u] u(1) t(6) v(6) assms(6,8,9) f n(1) by simp
        show "EBSAPI_OPERATION_OLD_FILE_READ_WILL_COMPLETE_LATER \<in> delays" by (simp add: delays_def)
        show "\<not> isPatchingDone u" using done_regs[OF u(2)] d by (simp add: isPatchingDone_def)
        fix x
        assume x: "regs x = regs u" "next_state x = EBspatch_processDiffBytes_processSinglePieceContinue_writePart"
          "view x = view u" "io (bspatch_stream.more x) = Some (r, p + int (length d), w)"
        have lt: "bs_load ?t3 b i n = bs_load t b i n" for b i n by (rule load_cong) (simp_all add: view_def)
        have rx: "regs x = regs ?t3" using x(1) u(2) by simp
        have e: "bufferForCompressedData x = bufferForCompressedData ?t3" "nonCompressedDataBuffer x = nonCompressedDataBuffer ?t3"
          "bs_address x = bs_address u" "bs_i x = 0" "undeCompressBuffer_len x = of_nat (length d)"
          "readRequestSize x = of_nat (length d)" "core x = core ?t3"
          using rx u(2) t(4) regs_core[OF rx] by (simp_all add: regs_def)
        have cx: "core x = core s" using e(7) t(3) v(1) by (simp add: core_def)
        have "\<not> isPatchingDone x" using core_done[OF cx] assms(3) by simp
        moreover have "prepared M whole x" using prepared_cong[of x u] x u(3) by simp
        moreover have "bs_load x (at_compressed x) 0 (length d) = Some ?xs" "bs_load x (at_nonCompressed x) 0 (length d) = Some d"
          unfolding load_cong[OF x(3) e(3)] using e(1,2) u(4) u(5)[rule_format, of 0 "length d"] xs t(5) f(2) lt
          by simp_all
        ultimately show "finishes lz4 client later Q x"
          using e(4-6) f(1,2) x(2,4) xs assms(6) cont cx
          by (intro diff_written[of M whole x d ?xs r "p + int (length d)" w]) (simp_all add: map2_take)
      qed auto
    qed (use d in \<open>simp_all add: isPatchingDone_def\<close>)
  qed (use d in simp)
qed (use assms in \<open>simp_all add: bs_step_def Let_def\<close>)

end

lemma finishes_or:
  "bs_step lz4 c s = Some (0, v) \<Longrightarrow> isPatchingDone v \<and> Q v \<or> \<not> isPatchingDone v \<and> finishes lz4 c later Q v \<Longrightarrow>
   finishes lz4 c later Q s"
  by (auto intro: finishes.intros)

lemma add_of_nat: "(of_nat a :: u64) + of_nat b = of_nat (a + b)"
  by simp

lemma map2_append: "length d \<le> length xs \<Longrightarrow> map2 f xs (d @ ys) = map2 f xs d @ map2 f (drop (length d) xs) ys"
  using map2_take[of f d xs] by (simp add: zip_append2)

context patch_io
begin

lemma diff_frames:
  assumes "next_state s = EBspatch_processDiffBytes_readHeaderPiece" and "prepared M whole s" and "\<not> isPatchingDone s"
    and "var_int_len s = 0" and "ds \<noteq> []" and "\<forall>f \<in> set ds. frame_ok lz4 M f" and "M \<le> longest"
    and "io (bspatch_stream.more s) = Some (frame_bytes ds @ r, p, w)" and "0 \<le> p" and "nat p + length (plain ds) \<le> length old"
    and "total_undeCompressBuffer s = of_nat n" and "ctrl_DIFF_STR_LEN_X s = of_nat (n + length (plain ds))"
    and "n + length (plain ds) < 2 ^ 32"
    and cont: "\<And>v. \<lbrakk>next_state v = EBsProcessExtraLen; prepared M whole v; var_int_len v = 0;
        newpos v = newpos s + ctrl_DIFF_STR_LEN_X s; ctrl_EXTRA_STR_LEN_Y v = ctrl_EXTRA_STR_LEN_Y s;
        ctrl_OLD_FILE_CTRL_OFF_SET_JUMP v = ctrl_OLD_FILE_CTRL_OFF_SET_JUMP s;
        io (bspatch_stream.more v) = Some (r, p + int (length (plain ds)), w @ map2 (+) (drop (nat p) old) (plain ds))\<rbrakk> \<Longrightarrow>
      isPatchingDone v \<and> Q v \<or> \<not> isPatchingDone v \<and> finishes lz4 client later Q v"
  shows "finishes lz4 client later Q s"
  using assms
proof (induction ds arbitrary: s p w n)
  case Nil
  then show ?case by simp
next
  case (Cons f ds)
  obtain z d where f: "f = (z, d)" by (cases f)
  have ok: "frame_ok lz4 M (z, d)" using Cons.prems(6) f by simp
  show ?case
  proof (rule diff_frame[OF Cons.prems(1-4) ok Cons.prems(7)])
    show "io (bspatch_stream.more s) = Some (varint (length z) @ z @ (frame_bytes ds @ r), p, w)" using Cons.prems(8) by (simp add: f)
    show "0 \<le> p" "nat p + length d \<le> length old" using Cons.prems(9,10) by (simp_all add: f)
    fix v
    assume v: "core v = core s" "next_state v = EBspatch_processDiffBytes_processSinglePieceContinue_postActions"
      "undeCompressBuffer_len v = of_nat (length d)" "prepared M whole v"
      "io (bspatch_stream.more v) = Some (frame_bytes ds @ r, p + int (length d), w @ map2 (+) (drop (nat p) old) d)"
    let ?u = "v\<lparr>total_undeCompressBuffer := of_nat (n + length d)\<rparr>"
    have e: "total_undeCompressBuffer v = of_nat n" "ctrl_DIFF_STR_LEN_X v = of_nat (n + length (plain (f # ds)))"
      "newpos v = newpos s" "var_int_len v = 0" "ctrl_EXTRA_STR_LEN_Y v = ctrl_EXTRA_STR_LEN_Y s"
      "ctrl_OLD_FILE_CTRL_OFF_SET_JUMP v = ctrl_OLD_FILE_CTRL_OFF_SET_JUMP s"
      using v(1) Cons.prems(4,11,12) by (simp_all add: core_def)
    have less: "(of_nat (n + length d) :: u64) <s of_nat (n + length (plain (f # ds))) \<longleftrightarrow> ds \<noteq> []"
      using of_nat_sless[of "n + length d" "n + length (plain (f # ds))"] Cons.prems(13) plain_empty[of ds lz4 M] Cons.prems(6)
      by (simp add: f)
    have step: "bs_step lz4 client v = Some (if ds \<noteq> [] then SET_NEXT_STATE EBspatch_processDiffBytes_readHeaderPiece (0, ?u)
        else SET_NEXT_STATE EBsProcessExtraLen (bspatch_processDiffBytesPost ?u))"
      using v(2,3) e(1,2) less by (simp add: bs_step_def Let_def add_of_nat del: of_nat_add)
    show "finishes lz4 client later Q v"
    proof (cases "ds = []")
      case True
      let ?t = "?u\<lparr>newpos := newpos v + ctrl_DIFF_STR_LEN_X v, next_state := EBsProcessExtraLen\<rparr>"
      have "bs_step lz4 client v = Some (0, ?t)"
        using step True by (simp add: bspatch_processDiffBytesPost_def SET_NEXT_STATE_def)
      then show ?thesis
      proof (rule finishes_or)
        show "isPatchingDone ?t \<and> Q ?t \<or> \<not> isPatchingDone ?t \<and> finishes lz4 client later Q ?t"
          by (rule Cons.prems(14)) (use v e True Cons.prems(12) f in \<open>simp_all add: prepared_def\<close>)
      qed
    next
      case False
      let ?t = "?u\<lparr>next_state := EBspatch_processDiffBytes_readHeaderPiece\<rparr>"
      have d: "\<not> isPatchingDone v" using core_done[OF v(1)] Cons.prems(3) by simp
      have len: "length (drop (nat p) old) \<ge> length d + length (plain ds)" using Cons.prems(10) by (simp add: f)
      have "nat (p + int (length d)) = nat p + length d" using Cons.prems(9) by simp
      then have map: "map2 (+) (drop (nat p) old) (d @ plain ds) =
          map2 (+) (drop (nat p) old) d @ map2 (+) (drop (nat (p + int (length d))) old) (plain ds)"
        using map2_append[of d "drop (nat p) old" "(+)" "plain ds"] len by (simp add: add.commute)
      show ?thesis
      proof (rule finishes_internal[of lz4 client v ?t])
        show "bs_step lz4 client v = Some (0, ?t)" using step False by (simp add: SET_NEXT_STATE_def)
        show "\<not> isPatchingDone ?t" using d by (simp add: isPatchingDone_def)
        show "finishes lz4 client later Q ?t"
        proof (rule Cons.IH[of ?t "p + int (length d)" "w @ map2 (+) (drop (nat p) old) d" "n + length d"])
          show "\<not> isPatchingDone ?t" using d by (simp add: isPatchingDone_def)
          show "nat (p + int (length d)) + length (plain ds) \<le> length old"
            using Cons.prems(9,10) by (simp add: f nat_add_distrib)
          fix x
          assume "next_state x = EBsProcessExtraLen" "prepared M whole x" "var_int_len x = 0"
            "newpos x = newpos ?t + ctrl_DIFF_STR_LEN_X ?t" "ctrl_EXTRA_STR_LEN_Y x = ctrl_EXTRA_STR_LEN_Y ?t"
            "ctrl_OLD_FILE_CTRL_OFF_SET_JUMP x = ctrl_OLD_FILE_CTRL_OFF_SET_JUMP ?t"
            "io (bspatch_stream.more x) = Some (r, p + int (length d) + int (length (plain ds)),
              (w @ map2 (+) (drop (nat p) old) d) @ map2 (+) (drop (nat (p + int (length d))) old) (plain ds))"
          then show "isPatchingDone x \<and> Q x \<or> \<not> isPatchingDone x \<and> finishes lz4 client later Q x"
            using e Cons.prems(12) by (intro Cons.prems(14)) (simp_all add: f map)
        qed (use v e False Cons.prems(6,7,9,13) f in \<open>simp_all add: prepared_def\<close>)
      qed
    qed
  qed
qed

end

context patch_io
begin

lemma extra_frame:
  assumes "next_state s = EBsProcessExtraLen_readHeader" and "prepared M whole s" and "\<not> isPatchingDone s"
    and "var_int_len s = 0" and "frame_ok lz4 M (z, d)" and "M \<le> longest"
    and "io (bspatch_stream.more s) = Some (varint (length z) @ z @ r, p, w)"
    and cont: "\<And>v. \<lbrakk>core v = core s; next_state v = EBsProcessExtraLen_singleItemContinuePostStep;
        undeCompressBuffer_len v = of_nat (length d); prepared M whole v; io (bspatch_stream.more v) = Some (r, p, w @ d)\<rbrakk> \<Longrightarrow>
      finishes lz4 client later Q v"
  shows "finishes lz4 client later Q s"
proof (rule reading_frame[where A = EBsProcessExtraLen_singleItem and N = EBsProcessExtraLen_singleItemContinue])
  have f: "0 < length d" "length d \<le> M" "0 < length z" "length z \<le> M" using assms(5) by (simp_all add: frame_ok_def)
  have M: "M \<le> bs_memory_size" using assms(2) by (auto simp: prepared_def)
  show "0 < length z" "length z \<le> M" by (fact f)+
  show "bs_step lz4 client s = Some (SET_NEXT_STATE EBspatch_read_frame_len
      (0, s\<lparr>stateAfterReadVarInt := EBsProcessExtraLen_singleItem\<rparr>))"
    using assms(1) by (simp add: bs_step_def)
  fix v
  assume v: "core v = core s" "next_state v = EBsProcessExtraLen_singleItemContinue" "frame_len v = of_nat (length z)"
    "prepared M whole v" "bs_load v (at_compressed v) 0 (length z) = Some z" "io (bspatch_stream.more v) = Some (r, p, w)"
  obtain t where t: "read_deCompressBuffer_process lz4 (frame_len v) v = Some (0, t)" "prepared M whole t" "core t = core v"
    "undeCompressBuffer_len t = of_nat (length d)" "bs_load t (at_nonCompressed t) 0 (length d) = Some d"
    "bspatch_stream.more t = bspatch_stream.more v"
    using decompressed[OF v(4,3) assms(5) v(5)] by blast
  have n: "unat (of_nat (length d) :: u64) = length d" using f(2) M by (simp add: unat_of_nat take_bit_nat_eq_self)
  show "finishes lz4 client later Q v"
  proof (rule finishes_operation[where g = "\<lambda>x. x"])
    show "bs_step lz4 client v = map_option (\<lambda>r. WAIT_FOR EBSAPI_WRITE_NEW_DONE
        EBsProcessExtraLen_singleItemContinuePostStep (fst r, snd r))
        (the (write_new client) (at_nonCompressed t) (of_nat (length d)) t)"
      using complete(4) v(2) t(1,4,5) n
      by (auto simp: bs_step_def bspatch_processSingeExtraStrLenCompress_def sendWriteNewRequest_def bs_request_def)
    show "performs later EBSAPI_OPERATION_NEW_FILE_WRITE_WILL_COMPLETE_LATER
        (the (write_new client) (at_nonCompressed t) (of_nat (length d)) t) t (\<lambda>z. io z = Some (r, p, w @ d))"
      using writes_new[of t r p w "at_nonCompressed t" "of_nat (length d)" d] t(5,6) v(6) f assms(6) n by simp
    show "EBSAPI_OPERATION_NEW_FILE_WRITE_WILL_COMPLETE_LATER \<in> delays" by (simp add: delays_def)
    show "\<not> isPatchingDone t" using core_done[of t s] t(3) v(1) assms(3) by simp
    fix x
    assume x: "regs x = regs t" "next_state x = EBsProcessExtraLen_singleItemContinuePostStep" "view x = view t"
      "io (bspatch_stream.more x) = Some (r, p, w @ d)"
    then show "finishes lz4 client later Q x"
      using t(2-4) v(1) regs_core[OF x(1)] prepared_cong[OF x(1,3)] by (intro cont) (simp_all add: regs_def)
  qed auto
qed (use assms in \<open>simp_all add: bs_step_def Let_def\<close>)

lemma extra_frames:
  assumes "next_state s = EBsProcessExtraLen_readHeader" and "prepared M whole s" and "\<not> isPatchingDone s"
    and "var_int_len s = 0" and "es \<noteq> []" and "\<forall>f \<in> set es. frame_ok lz4 M f" and "M \<le> longest"
    and "io (bspatch_stream.more s) = Some (frame_bytes es @ r, p, w)"
    and "total_undeCompressBuffer s = of_nat n" and "ctrl_EXTRA_STR_LEN_Y s = of_nat (n + length (plain es))"
    and "n + length (plain es) < 2 ^ 32"
    and cont: "\<And>v. \<lbrakk>next_state v = EBsProcessExtraLen_postStep; prepared M whole v; var_int_len v = 0;
        newpos v = newpos s; ctrl_EXTRA_STR_LEN_Y v = ctrl_EXTRA_STR_LEN_Y s;
        ctrl_OLD_FILE_CTRL_OFF_SET_JUMP v = ctrl_OLD_FILE_CTRL_OFF_SET_JUMP s;
        io (bspatch_stream.more v) = Some (r, p, w @ plain es)\<rbrakk> \<Longrightarrow> finishes lz4 client later Q v"
  shows "finishes lz4 client later Q s"
  using assms
proof (induction es arbitrary: s w n)
  case Nil
  then show ?case by simp
next
  case (Cons f es)
  obtain z d where f: "f = (z, d)" by (cases f)
  have ok: "frame_ok lz4 M (z, d)" using Cons.prems(6) f by simp
  show ?case
  proof (rule extra_frame[OF Cons.prems(1-4) ok Cons.prems(7)])
    show "io (bspatch_stream.more s) = Some (varint (length z) @ z @ (frame_bytes es @ r), p, w)" using Cons.prems(8) by (simp add: f)
    fix v
    assume v: "core v = core s" "next_state v = EBsProcessExtraLen_singleItemContinuePostStep"
      "undeCompressBuffer_len v = of_nat (length d)" "prepared M whole v"
      "io (bspatch_stream.more v) = Some (frame_bytes es @ r, p, w @ d)"
    let ?u = "v\<lparr>total_undeCompressBuffer := of_nat (n + length d)\<rparr>"
    let ?N = "if es \<noteq> [] then EBsProcessExtraLen_readHeader else EBsProcessExtraLen_postStep"
    let ?t = "?u\<lparr>next_state := ?N\<rparr>"
    have e: "total_undeCompressBuffer v = of_nat n" "ctrl_EXTRA_STR_LEN_Y v = of_nat (n + length (plain (f # es)))"
      "newpos v = newpos s" "var_int_len v = 0" "ctrl_EXTRA_STR_LEN_Y v = ctrl_EXTRA_STR_LEN_Y s"
      "ctrl_OLD_FILE_CTRL_OFF_SET_JUMP v = ctrl_OLD_FILE_CTRL_OFF_SET_JUMP s"
      using v(1) Cons.prems(4,9,10) by (simp_all add: core_def)
    have less: "(of_nat (n + length d) :: u64) <s of_nat (n + length (plain (f # es))) \<longleftrightarrow> es \<noteq> []"
      using of_nat_sless[of "n + length d" "n + length (plain (f # es))"] Cons.prems(11) plain_empty[of es lz4 M] Cons.prems(6)
      by (simp add: f)
    have d: "\<not> isPatchingDone ?t" using core_done[OF v(1)] Cons.prems(3) by (simp add: isPatchingDone_def)
    have "bs_step lz4 client v = Some (0, ?t)"
      using v(2,3) e(1,2) less by (simp add: bs_step_def Let_def add_of_nat SET_NEXT_STATE_def del: of_nat_add)
    then show "finishes lz4 client later Q v"
    proof (rule finishes_internal[OF _ d])
      show "finishes lz4 client later Q ?t"
      proof (cases "es = []")
        case True
        show ?thesis by (rule Cons.prems(12)) (use v e True f in \<open>simp_all add: prepared_def\<close>)
      next
        case False
        show ?thesis
        proof (rule Cons.IH[of ?t "w @ d" "n + length d"])
          show "\<not> isPatchingDone ?t" by (fact d)
          fix x
          assume "next_state x = EBsProcessExtraLen_postStep" "prepared M whole x" "var_int_len x = 0"
            "newpos x = newpos ?t" "ctrl_EXTRA_STR_LEN_Y x = ctrl_EXTRA_STR_LEN_Y ?t"
            "ctrl_OLD_FILE_CTRL_OFF_SET_JUMP x = ctrl_OLD_FILE_CTRL_OFF_SET_JUMP ?t"
            "io (bspatch_stream.more x) = Some (r, p, (w @ d) @ plain es)"
          then show "finishes lz4 client later Q x" using e f by (intro Cons.prems(12)) simp_all
        qed (use v e False Cons.prems(6,7,11) f in \<open>simp_all add: prepared_def\<close>)
      qed
    qed
  qed
qed

end

end
