(* ===== verification/BsPatch_Segments.thy ===== *)
theory BsPatch_Segments
  imports BsPatch_Frames
begin

text \<open>
  Segments, the header and the working buffers, and a whole patch: a client that keeps its laws has
  the new file written when the patcher says \<open>EBSAPI_PATCH_DONE\<close>.
\<close>

subsection \<open>Segments\<close>

lemma done_iff:
  assumes "prepared M whole s" and "newpos s = of_nat k" and "k < 2 ^ 63"
  shows "isPatchingDone s \<longleftrightarrow> 0 < whole \<and> whole \<le> k"
proof -
  have w: "whole < 2 ^ 32" "new_size s = of_nat whole" using assms(1) by (simp_all add: prepared_def)
  have sle: "(a \<le>s b) = (\<not> b <s a)" for a b :: u64 by (auto simp: word_sle_eq word_sless_alt)
  have "((of_nat whole :: u64) \<le>s of_nat k) = (whole \<le> k)"
    using of_nat_sless[of k whole] w(1) assms(3) sle by auto
  moreover have "(of_nat whole :: u32) = 0 \<longleftrightarrow> whole = 0" using w(1) by (simp add: word_unat_eq_iff unat_below)
  ultimately show ?thesis using assms(2) w ucast_of_nat[OF w(1)] by (simp add: isPatchingDone_def)
qed

lemma WAIT_FOR_shape: "\<exists>e n. WAIT_FOR event N (status, s) = (status, s\<lparr>expectedExternalEvent := e, next_state := n\<rparr>)"
proof (cases "status = 0 \<or> status \<in> delays")
  case True
  then show ?thesis
  proof
    assume "status = 0"
    then have "WAIT_FOR event N (status, s) = (status, s\<lparr>expectedExternalEvent := 0, next_state := N\<rparr>)"
      by (simp add: WAIT_FOR_def setExpectedExternalEventByState_def)
    then show ?thesis by blast
  next
    assume "status \<in> delays"
    then show ?thesis using WAIT_FOR_delay by blast
  qed
next
  case False
  then have "setExpectedExternalEventByState status N event s = (1, s)"
    by (simp add: setExpectedExternalEventByState_def delays_def)
  then have "WAIT_FOR event N (status, s) =
      (status, s\<lparr>expectedExternalEvent := expectedExternalEvent s, next_state := N\<rparr>)" by (simp add: WAIT_FOR_def)
  then show ?thesis by blast
qed

lemma jump_word:
  assumes "\<bar>j\<bar> < 2 ^ 62"
  shows "sint (of_int j :: u64) = j"
proof -
  have "sint (of_int j :: u64) = signed_take_bit 63 j" by (simp add: signed_of_int)
  also have "\<dots> = j" using assms by (intro signed_take_bit_int_eq_self) auto
  finally show ?thesis .
qed

context patch_io
begin

lemma post_step:
  assumes "next_state s = EBsProcessExtraLen_postStep" and "prepared M whole s" and "var_int_len s = 0"
    and "newpos s = of_nat k" and "ctrl_EXTRA_STR_LEN_Y s = of_nat y" and "ctrl_OLD_FILE_CTRL_OFF_SET_JUMP s = of_int j"
    and "io (bspatch_stream.more s) = Some (r, p, w)" and "\<bar>p\<bar> < 2 ^ 61" and "\<bar>j\<bar> < 2 ^ 61" and "k + y \<le> whole" and "0 < whole"
    and finish: "\<And>t p. k + y = whole \<Longrightarrow> io (bspatch_stream.more t) = Some (r, p, w) \<Longrightarrow> Q t"
    and cont: "\<And>v. \<lbrakk>k + y < whole; next_state v = EBsReadControlSegmentHeader; prepared M whole v; var_int_len v = 0;
        newpos v = of_nat (k + y); io (bspatch_stream.more v) = Some (r, p + j, w)\<rbrakk> \<Longrightarrow> finishes lz4 client later Q v"
  shows "finishes lz4 client later Q s"
proof -
  let ?t = "s\<lparr>newpos := of_nat (k + y)\<rparr>"
  let ?r = "the (seek_old client) (of_int j) ?t"
  have step: "bs_step lz4 client s = map_option (WAIT_FOR EBSAPI_SEEK_OLD_DONE EBsReadControlSegmentHeader) ?r"
    using complete(3) assms(1,4-6) by (auto simp: bs_step_def sendSeekOldRequest_def Let_def)
  have j: "sint (of_int j :: u64) = j" using assms(9) by (intro jump_word) simp
  have perf: "performs later EBSAPI_OPERATION_OLD_FILE_SEEK_WILL_COMPLETE_LATER ?r ?t (\<lambda>z. io z = Some (r, p + j, w))"
    using seeks_old[of ?t r p w "of_int j"] assms(7-9) j by simp
  have w: "whole < 2 ^ 32" using assms(2) by (simp add: prepared_def)
  have pt: "prepared M whole ?t" using assms(2) by (simp add: prepared_def)
  have "isPatchingDone ?t \<longleftrightarrow> 0 < whole \<and> whole \<le> k + y" by (rule done_iff[OF pt]) (use w assms(10) in simp_all)
  then have dn: "isPatchingDone ?t \<longleftrightarrow> k + y = whole" using assms(10,11) by auto
  show ?thesis
  proof (cases "k + y = whole")
    case True
    obtain code s' where r: "?r = Some (code, s')" "regs s' = regs ?t" using perf unfolding performs_def by blast
    obtain p' where io: "io (bspatch_stream.more s') = Some (r, p', w)"
      using seek_keeps[OF _ r(1)] assms(7) by auto
    obtain e n where "WAIT_FOR EBSAPI_SEEK_OLD_DONE EBsReadControlSegmentHeader (code, s') =
        (code, s'\<lparr>expectedExternalEvent := e, next_state := n\<rparr>)" using WAIT_FOR_shape by blast
    then have "bs_step lz4 client s = Some (code, s'\<lparr>expectedExternalEvent := e, next_state := n\<rparr>)" using step r(1) by simp
    then show ?thesis
    proof (rule finishes.finish)
      show "isPatchingDone (s'\<lparr>expectedExternalEvent := e, next_state := n\<rparr>)" using done_regs[OF r(2)] dn True by simp
      show "Q (s'\<lparr>expectedExternalEvent := e, next_state := n\<rparr>)" by (rule finish[OF True]) (simp add: io)
    qed
  next
    case False
    show ?thesis
    proof (rule finishes_operation[where g = "\<lambda>x. x", OF _ perf])
      show "bs_step lz4 client s =
          map_option (\<lambda>r. WAIT_FOR EBSAPI_SEEK_OLD_DONE EBsReadControlSegmentHeader (fst r, snd r)) ?r" by (simp add: step)
      show "\<not> isPatchingDone ?t" using dn False by simp
      fix v
      assume v: "regs v = regs ?t" "next_state v = EBsReadControlSegmentHeader" "view v = view ?t"
        "io (bspatch_stream.more v) = Some (r, p + j, w)"
      then show "finishes lz4 client later Q v"
        using prepared_cong[OF v(1,3)] pt False assms(3,10) by (intro cont) (simp_all add: regs_def)
    qed (auto simp: delays_def)
  qed
qed

lemma process_extra:
  assumes "next_state s = EBsProcessExtraLen" and "prepared M whole s" and "var_int_len s = 0" and "M \<le> longest"
    and "newpos s = of_nat k" and "ctrl_EXTRA_STR_LEN_Y s = of_nat (length (plain es))" and "ctrl_OLD_FILE_CTRL_OFF_SET_JUMP s = of_int j"
    and "\<forall>f \<in> set es. frame_ok lz4 M f"
    and "io (bspatch_stream.more s) = Some (frame_bytes es @ r, p, w)" and "\<bar>p\<bar> < 2 ^ 61" and "\<bar>j\<bar> < 2 ^ 61"
    and "k + length (plain es) \<le> whole" and "k < whole"
    and finish: "\<And>t p. k + length (plain es) = whole \<Longrightarrow> io (bspatch_stream.more t) = Some (r, p, w @ plain es) \<Longrightarrow> Q t"
    and cont: "\<And>v. \<lbrakk>k + length (plain es) < whole; next_state v = EBsReadControlSegmentHeader; prepared M whole v; var_int_len v = 0;
        newpos v = of_nat (k + length (plain es)); io (bspatch_stream.more v) = Some (r, p + j, w @ plain es)\<rbrakk> \<Longrightarrow>
      finishes lz4 client later Q v"
  shows "finishes lz4 client later Q s"
proof -
  have w: "whole < 2 ^ 32" "new_size s = of_nat whole" using assms(2) by (simp_all add: prepared_def)
  let ?y = "length (plain es)"
  have nd: "\<not> isPatchingDone s" using done_iff[OF assms(2,5)] assms(13) w by simp
  have a: "\<not> ucast (new_size s) <s newpos s + ctrl_EXTRA_STR_LEN_Y s"
    using of_nat_sless[of whole "k + ?y"] assms(5,6,12) w ucast_of_nat[OF w(1)] by simp
  have b: "0 <s ctrl_EXTRA_STR_LEN_Y s \<longleftrightarrow> es \<noteq> []"
    using of_nat_sless[of 0 ?y] assms(6,12) w plain_empty[OF assms(8)] by simp
  show ?thesis
  proof (cases "es = []")
    case True
    let ?t = "s\<lparr>next_state := EBsProcessExtraLen_postStep\<rparr>"
    have "bs_step lz4 client s = Some (0, ?t)" using assms(1) a b True by (simp add: bs_step_def SET_NEXT_STATE_def)
    moreover have "finishes lz4 client later Q ?t"
      by (rule post_step[of _ M whole k 0 j r p w])
        (use assms True in \<open>simp_all add: prepared_def\<close>)
    ultimately show ?thesis using nd by (intro finishes_internal[of lz4 client s ?t]) simp_all
  next
    case False
    let ?t = "s\<lparr>total_undeCompressBuffer := 0, next_state := EBsProcessExtraLen_readHeader\<rparr>"
    have nt: "\<not> isPatchingDone ?t" using nd by (simp add: isPatchingDone_def)
    have "bs_step lz4 client s = Some (0, ?t)" using assms(1) a b False by (simp add: bs_step_def SET_NEXT_STATE_def)
    moreover have "finishes lz4 client later Q ?t"
    proof (rule extra_frames[of ?t M whole es lz4 r p w 0])
      fix v
      assume v: "next_state v = EBsProcessExtraLen_postStep" "prepared M whole v" "var_int_len v = 0" "newpos v = newpos ?t"
        "ctrl_EXTRA_STR_LEN_Y v = ctrl_EXTRA_STR_LEN_Y ?t" "ctrl_OLD_FILE_CTRL_OFF_SET_JUMP v = ctrl_OLD_FILE_CTRL_OFF_SET_JUMP ?t"
        "io (bspatch_stream.more v) = Some (r, p, w @ plain es)"
      show "finishes lz4 client later Q v"
        by (rule post_step[OF v(1-3) _ _ _ v(7) assms(10,11,12)]) (use v assms in simp_all)
    qed (use assms nt False w in \<open>simp_all add: prepared_def\<close>)
    ultimately show ?thesis using nt by (intro finishes_internal[of lz4 client s ?t])
  qed
qed

end

lemma signed_number:
  assumes "\<bar>j\<bar> < 2 ^ 47"
  shows "length (varint (signed_code j)) \<le> 7" and "number True (of_nat (signed_code j)) = of_int j"
proof -
  have "signed_code j < 128 ^ 7" using assms by (auto simp: signed_code_def)
  then show "length (varint (signed_code j)) \<le> 7" by (intro varint_length) simp_all
  have j: "sint (of_int j :: u64) = j" using assms by (intro jump_word) simp
  then show "number True (of_nat (signed_code j)) = of_int j"
    using signed_code_word(3)[of "of_int j"] assms by (simp add: number_def)
qed

lemma length_number: "n < 2 ^ 32 \<Longrightarrow> length (varint n) \<le> 7"
  by (rule varint_length) simp_all

lemma length_patched:
  assumes "segments_ok lz4 M old p ((ds, es, j) # segs)"
  shows "length (patched old p ((ds, es, j) # segs)) =
    length (plain ds) + length (plain es) + length (patched old (p + int (length (plain ds)) + j) segs)"
proof (cases "ds = []")
  case False
  then have "nat p + length (plain ds) \<le> length old" using assms by simp
  then show ?thesis by simp
qed simp

lemma more_control [simp]:
  "bspatch_stream.more (s\<lparr>stateAfterReadVarInt := a\<rparr>) = bspatch_stream.more s"
  "bspatch_stream.more (s\<lparr>isSignedVarInt := b\<rparr>) = bspatch_stream.more s"
  "bspatch_stream.more (s\<lparr>ctrl_DIFF_STR_LEN_X := x\<rparr>) = bspatch_stream.more s"
  "bspatch_stream.more (s\<lparr>ctrl_EXTRA_STR_LEN_Y := x\<rparr>) = bspatch_stream.more s"
  by simp_all

text \<open>A number of the control segment is read after the previous one is stored.\<close>

lemma prepared_control [simp]:
  "prepared M whole (s\<lparr>next_state := n\<rparr>) = prepared M whole s"
  "prepared M whole (s\<lparr>stateAfterReadVarInt := a\<rparr>) = prepared M whole s"
  "prepared M whole (s\<lparr>isSignedVarInt := b\<rparr>) = prepared M whole s"
  "prepared M whole (s\<lparr>ctrl_DIFF_STR_LEN_X := x\<rparr>) = prepared M whole s"
  "prepared M whole (s\<lparr>ctrl_EXTRA_STR_LEN_Y := x\<rparr>) = prepared M whole s"
  by (simp_all add: prepared_def)

lemma done_control [simp]:
  "isPatchingDone (s\<lparr>stateAfterReadVarInt := a\<rparr>) = isPatchingDone s"
  "isPatchingDone (s\<lparr>isSignedVarInt := b\<rparr>) = isPatchingDone s"
  "isPatchingDone (s\<lparr>ctrl_DIFF_STR_LEN_X := x\<rparr>) = isPatchingDone s"
  "isPatchingDone (s\<lparr>ctrl_EXTRA_STR_LEN_Y := x\<rparr>) = isPatchingDone s"
  by (simp_all add: isPatchingDone_def)

context patch_io
begin

lemma control_numbers:
  assumes "next_state s = EBsReadControlSegmentHeader" and "prepared M whole s" and "\<not> isPatchingDone s" and "var_int_len s = 0"
    and "0 < longest" and "x < 2 ^ 32" and "y < 2 ^ 32" and "\<bar>j\<bar> < 2 ^ 47"
    and "io (bspatch_stream.more s) = Some (varint x @ varint y @ svarint j @ r, p, w)"
    and cont: "\<And>v. \<lbrakk>next_state v = EBsReadDataSegment; prepared M whole v; var_int_len v = 0; newpos v = newpos s;
        ctrl_DIFF_STR_LEN_X v = of_nat x; ctrl_EXTRA_STR_LEN_Y v = of_nat y; var_int v = of_int j;
        io (bspatch_stream.more v) = Some (r, p, w)\<rbrakk> \<Longrightarrow> finishes lz4 client later Q v"
  shows "finishes lz4 client later Q s"
proof -
  let ?s1 = "s\<lparr>next_state := EBsReadControlSegment\<rparr>" and ?s2 = "s\<lparr>next_state := EReadCtrl_diff_str_len\<rparr>"
  let ?a = "?s2\<lparr>stateAfterReadVarInt := EReadCtrl_extra_str_len_y, isSignedVarInt := False\<rparr>"
  have "finishes lz4 client later Q ?s2"
  proof (rule reading_varint[of lz4 ?s2 ?a M whole x "varint y @ svarint j @ r" p w])
    show "bs_step lz4 client ?s2 = map_option (WAIT_FOR EBSAPI_READ_PATCH_DONE EBsPatch_process_varintPiece)
        (sendPatchReadRequest client (at_nonCompressed ?a) 1 ?a)" by (simp add: bs_step_def)
    show "length (varint x) \<le> 7" using assms(6) by (rule length_number)
    fix v
    assume "regs v = regs (?a\<lparr>var_int := number (isSignedVarInt ?a) (of_nat x), var_int_len := 0, stateAfterReadVarInt := EBsNone\<rparr>)"
      "next_state v = stateAfterReadVarInt ?a" and v: "prepared M whole v"
      "io (bspatch_stream.more v) = Some (varint y @ svarint j @ r, p, w)"
    then have v': "next_state v = EReadCtrl_extra_str_len_y" "var_int v = of_nat x" "var_int_len v = 0" "newpos v = newpos s"
      "isPatchingDone v = isPatchingDone s" by (simp_all add: regs_def number_def isPatchingDone_def)
    let ?b = "v\<lparr>ctrl_DIFF_STR_LEN_X := var_int v, stateAfterReadVarInt := EReadCtrl_old_file_ctrl_off_set_jump, isSignedVarInt := False\<rparr>"
    show "finishes lz4 client later Q v"
    proof (rule reading_varint[of lz4 v ?b M whole y "svarint j @ r" p w])
      show "bs_step lz4 client v = map_option (WAIT_FOR EBSAPI_READ_PATCH_DONE EBsPatch_process_varintPiece)
          (sendPatchReadRequest client (at_nonCompressed ?b) 1 ?b)" using v'(1) by (simp add: bs_step_def)
      show "length (varint y) \<le> 7" using assms(7) by (rule length_number)
      fix u
      assume "regs u = regs (?b\<lparr>var_int := number (isSignedVarInt ?b) (of_nat y), var_int_len := 0, stateAfterReadVarInt := EBsNone\<rparr>)"
        "next_state u = stateAfterReadVarInt ?b" and u: "prepared M whole u" "io (bspatch_stream.more u) = Some (svarint j @ r, p, w)"
      then have u': "next_state u = EReadCtrl_old_file_ctrl_off_set_jump" "var_int u = of_nat y" "var_int_len u = 0"
        "newpos u = newpos s" "isPatchingDone u = isPatchingDone s" "ctrl_DIFF_STR_LEN_X u = of_nat x"
        using v' by (simp_all add: regs_def number_def isPatchingDone_def)
      let ?c = "u\<lparr>ctrl_EXTRA_STR_LEN_Y := var_int u, stateAfterReadVarInt := EBsReadDataSegment, isSignedVarInt := True\<rparr>"
      show "finishes lz4 client later Q u"
      proof (rule reading_varint[of lz4 u ?c M whole "signed_code j" r p w])
        show "bs_step lz4 client u = map_option (WAIT_FOR EBSAPI_READ_PATCH_DONE EBsPatch_process_varintPiece)
            (sendPatchReadRequest client (at_nonCompressed ?c) 1 ?c)" using u'(1) by (simp add: bs_step_def)
        show "length (varint (signed_code j)) \<le> 7" using signed_number(1)[OF assms(8)] .
        fix z
        assume "regs z = regs (?c\<lparr>var_int := number (isSignedVarInt ?c) (of_nat (signed_code j)), var_int_len := 0,
            stateAfterReadVarInt := EBsNone\<rparr>)" "next_state z = stateAfterReadVarInt ?c"
          "prepared M whole z" "io (bspatch_stream.more z) = Some (r, p, w)"
        then show "finishes lz4 client later Q z"
          using u' signed_number(2)[OF assms(8)] by (intro cont) (simp_all add: regs_def)
      next
        show "prepared M whole ?c" "\<not> isPatchingDone ?c" using u(1) u'(5) assms(3) by simp_all
        show "io (bspatch_stream.more ?c) = Some (varint (signed_code j) @ r, p, w)" using u(2) by (simp add: svarint_def)
        show "0 < longest" by (fact assms(5))
        show "var_int_len ?c = 0" using u'(3) by simp
      qed
    next
      show "prepared M whole ?b" "\<not> isPatchingDone ?b" using v(1) v'(5) assms(3) by simp_all
      show "io (bspatch_stream.more ?b) = Some (varint y @ svarint j @ r, p, w)" using v(2) by simp
      show "0 < longest" by (fact assms(5))
      show "var_int_len ?b = 0" using v'(3) by simp
    qed
  next
    show "prepared M whole ?a" "\<not> isPatchingDone ?a" using assms(2,3) by simp_all
    show "io (bspatch_stream.more ?a) = Some (varint x @ varint y @ svarint j @ r, p, w)" using assms(9) by simp
    show "0 < longest" by (fact assms(5))
    show "var_int_len ?a = 0" using assms(4) by simp
  qed
  then have "finishes lz4 client later Q ?s1"
    using assms(3) by (intro finishes_internal[of lz4 client ?s1 ?s2]) (simp_all add: bs_step_def SET_NEXT_STATE_def)
  then show ?thesis
    using assms(1,3) by (intro finishes_internal[of lz4 client s ?s1]) (simp_all add: bs_step_def SET_NEXT_STATE_def)
qed

text \<open>The frames of a segment; the jump that follows is part of its end.\<close>

lemma data_segment:
  assumes v: "next_state s = EBsReadDataSegment" "prepared M whole s" "var_int_len s = 0" "M \<le> longest" "newpos s = of_nat k"
      "ctrl_DIFF_STR_LEN_X s = of_nat (length (plain ds))" "ctrl_EXTRA_STR_LEN_Y s = of_nat (length (plain es))" "var_int s = of_int j"
    and ok: "\<forall>f \<in> set ds. frame_ok lz4 M f" "\<forall>f \<in> set es. frame_ok lz4 M f"
    and p: "\<bar>p + int (length (plain ds))\<bar> < 2 ^ 61" "\<bar>j\<bar> < 2 ^ 61" "ds \<noteq> [] \<Longrightarrow> 0 \<le> p \<and> nat p + length (plain ds) \<le> length old"
    and len: "k < whole" "k + length (plain ds) + length (plain es) \<le> whole"
    and io: "io (bspatch_stream.more s) = Some (frame_bytes ds @ frame_bytes es @ r, p, w)"
    and finish: "\<And>t p'. \<lbrakk>k + length (plain ds) + length (plain es) = whole;
        io (bspatch_stream.more t) = Some (r, p', w @ map2 (+) (drop (nat p) old) (plain ds) @ plain es)\<rbrakk> \<Longrightarrow> Q t"
    and cont: "\<And>u. \<lbrakk>k + length (plain ds) + length (plain es) < whole; next_state u = EBsReadControlSegmentHeader; prepared M whole u;
        var_int_len u = 0; newpos u = of_nat (k + length (plain ds) + length (plain es));
        io (bspatch_stream.more u) = Some (r, p + int (length (plain ds)) + j, w @ map2 (+) (drop (nat p) old) (plain ds) @ plain es)\<rbrakk> \<Longrightarrow>
      finishes lz4 client later Q u"
  shows "finishes lz4 client later Q s"
proof -
  let ?x = "length (plain ds)" and ?y = "length (plain es)" and ?p = "p + int (length (plain ds))"
  have w: "whole < 2 ^ 32" "new_size s = of_nat whole" using v(2) by (simp_all add: prepared_def)
  have a: "\<not> ucast (new_size s) <s newpos s + ctrl_DIFF_STR_LEN_X s"
    using of_nat_sless[of whole "k + ?x"] v(5,6) len w ucast_of_nat[OF w(1)] by simp
  have b: "0 <s ctrl_DIFF_STR_LEN_X s \<longleftrightarrow> ds \<noteq> []"
    using of_nat_sless[of 0 ?x] v(6) len w plain_empty[OF ok(1)] by simp
  have nd: "\<not> isPatchingDone s" using done_iff[OF v(2,5)] len w by simp
  have extra: "finishes lz4 client later Q t"
    if t: "next_state t = EBsProcessExtraLen" "prepared M whole t" "var_int_len t = 0" "newpos t = of_nat (k + ?x)"
      "ctrl_EXTRA_STR_LEN_Y t = of_nat ?y" "ctrl_OLD_FILE_CTRL_OFF_SET_JUMP t = of_int j"
      "io (bspatch_stream.more t) = Some (frame_bytes es @ r, ?p, w @ map2 (+) (drop (nat p) old) (plain ds))" "k + ?x < whole" for t
    by (rule process_extra[OF t(1-3) v(4) t(4-6) ok(2) t(7) p(1,2)]) (use len t(8) in \<open>simp_all add: finish cont\<close>)
  show ?thesis
  proof (cases "ds = []")
    case True
    let ?t = "s\<lparr>ctrl_OLD_FILE_CTRL_OFF_SET_JUMP := of_int j, next_state := EBsProcessExtraLen\<rparr>"
    have "bs_step lz4 client s = Some (0, ?t)" using v(1,8) a b True by (simp add: bs_step_def SET_NEXT_STATE_def Let_def)
    moreover have "finishes lz4 client later Q ?t"
      by (rule extra) (use v(2,3,5,7) io True len in \<open>simp_all add: prepared_def\<close>)
    ultimately show ?thesis using nd by (intro finishes_internal[of lz4 client s ?t]) (simp_all add: isPatchingDone_def)
  next
    case False
    let ?t = "s\<lparr>ctrl_OLD_FILE_CTRL_OFF_SET_JUMP := of_int j, total_undeCompressBuffer := 0,
      next_state := EBspatch_processDiffBytes_readHeaderPiece\<rparr>"
    have nt: "\<not> isPatchingDone ?t" using nd by (simp add: isPatchingDone_def)
    have "bs_step lz4 client s = Some (0, ?t)" using v(1,8) a b False by (simp add: bs_step_def SET_NEXT_STATE_def Let_def)
    moreover have "finishes lz4 client later Q ?t"
    proof (rule diff_frames[of ?t M whole ds lz4 "frame_bytes es @ r" p w 0])
      show "\<not> isPatchingDone ?t" by (fact nt)
      fix u
      assume u: "next_state u = EBsProcessExtraLen" "prepared M whole u" "var_int_len u = 0"
        "newpos u = newpos ?t + ctrl_DIFF_STR_LEN_X ?t" "ctrl_EXTRA_STR_LEN_Y u = ctrl_EXTRA_STR_LEN_Y ?t"
        "ctrl_OLD_FILE_CTRL_OFF_SET_JUMP u = ctrl_OLD_FILE_CTRL_OFF_SET_JUMP ?t"
        "io (bspatch_stream.more u) = Some (frame_bytes es @ r, ?p, w @ map2 (+) (drop (nat p) old) (plain ds))"
      have f: "newpos u = of_nat (k + ?x)" "ctrl_EXTRA_STR_LEN_Y u = of_nat ?y" "ctrl_OLD_FILE_CTRL_OFF_SET_JUMP u = of_int j"
        using u(4-6) v(5-7) by simp_all
      have d: "isPatchingDone u \<longleftrightarrow> whole \<le> k + ?x" using done_iff[OF u(2) f(1)] len w(1) by simp
      show "isPatchingDone u \<and> Q u \<or> \<not> isPatchingDone u \<and> finishes lz4 client later Q u"
      proof (cases "whole \<le> k + ?x")
        case True
        then have z: "k + ?x + ?y = whole" "?y = 0" using len by linarith+
        then have "es = []" using plain_empty[OF ok(2)] by simp
        then have "Q u" by (intro finish[of u ?p]) (use u(7) z in simp_all)
        then show ?thesis using d True by simp
      next
        case False
        then show ?thesis using d extra[OF u(1-3) f u(7)] by simp
      qed
    qed (use v(2,3,4,6) io False ok(1) p(3) len w in \<open>simp_all add: prepared_def\<close>)
    ultimately show ?thesis using nt by (intro finishes_internal[of lz4 client s ?t])
  qed
qed

lemma segments:
  assumes "next_state s = EBsReadControlSegmentHeader" and "prepared M whole s" and "var_int_len s = 0" and "M \<le> longest"
    and "newpos s = of_nat k" and "k + length (patched old p segs) = whole" and "segs \<noteq> []" and "segments_ok lz4 M old p segs"
    and "io (bspatch_stream.more s) = Some (concat (map segment_bytes segs) @ r, p, w)"
    and finish: "\<And>t p'. io (bspatch_stream.more t) = Some (r, p', w @ patched old p segs) \<Longrightarrow> Q t"
  shows "finishes lz4 client later Q s"
  using assms
proof (induction segs arbitrary: s p w k)
  case Nil
  then show ?case by simp
next
  case (Cons seg segs)
  obtain ds es j where seg: "seg = (ds, es, j)" by (cases seg)
  let ?x = "length (plain ds)" and ?y = "length (plain es)" and ?p = "p + int (length (plain ds))"
  have ok: "\<forall>f \<in> set ds. frame_ok lz4 M f" "\<forall>f \<in> set es. frame_ok lz4 M f" "\<bar>j\<bar> < 2 ^ 47" "\<bar>p\<bar> < 2 ^ 60"
    "ds \<noteq> [] \<Longrightarrow> 0 \<le> p \<and> nat p + ?x \<le> length old" "segments_ok lz4 M old (?p + j) segs"
    using Cons.prems(8) by (auto simp: seg)
  have w: "whole < 2 ^ 32" "64 \<le> M" using Cons.prems(2) by (simp_all add: prepared_def)
  have len: "k + ?x + ?y + length (patched old (?p + j) segs) = whole"
    using Cons.prems(6) length_patched[OF Cons.prems(8)[unfolded seg]] by (simp add: seg)
  have more: "segs \<noteq> [] \<Longrightarrow> 0 < length (patched old (?p + j) segs)"
    using patched_nonempty[OF ok(6)] by simp
  have ne: "0 < length (patched old p (seg # segs))" using patched_nonempty[OF Cons.prems(8)] by simp
  have p: "\<bar>?p\<bar> < 2 ^ 61" "\<bar>j\<bar> < 2 ^ 61" using ok(3,4) len w(1) by auto
  have lens: "?x < 2 ^ 32" "?y < 2 ^ 32" "k < whole" "k + ?x + ?y \<le> whole" using len w(1) ne Cons.prems(6) by auto
  have nd: "\<not> isPatchingDone s" using done_iff[OF Cons.prems(2,5)] lens w(1) by simp
  show ?case
  proof (rule control_numbers[OF Cons.prems(1,2) nd Cons.prems(3) _ lens(1,2) ok(3)])
    show "0 < longest" using w(2) Cons.prems(4) by simp
    show "io (bspatch_stream.more s) = Some (varint ?x @ varint ?y @ svarint j @
        (frame_bytes ds @ frame_bytes es @ concat (map segment_bytes segs) @ r), p, w)" using Cons.prems(9) by (simp add: seg)
    fix v
    assume v: "next_state v = EBsReadDataSegment" "prepared M whole v" "var_int_len v = 0" "newpos v = newpos s"
      "ctrl_DIFF_STR_LEN_X v = of_nat ?x" "ctrl_EXTRA_STR_LEN_Y v = of_nat ?y" "var_int v = of_int j"
      "io (bspatch_stream.more v) = Some (frame_bytes ds @ frame_bytes es @ concat (map segment_bytes segs) @ r, p, w)"
    have "newpos v = of_nat k" using v(4) Cons.prems(5) by simp
    from v(1-3) Cons.prems(4) this v(5-7) ok(1,2) p ok(5) lens(3,4) v(8) show "finishes lz4 client later Q v"
    proof (rule data_segment)
      fix t p'
      assume t: "k + ?x + ?y = whole" "io (bspatch_stream.more t) = Some (concat (map segment_bytes segs) @ r, p',
        w @ map2 (+) (drop (nat p) old) (plain ds) @ plain es)"
      then have "segs = []" using len more by (cases "segs = []") simp_all
      then show "Q t" using t(2) by (intro Cons.prems(10)[of t p']) (simp add: seg)
    next
      fix u
      assume u: "k + ?x + ?y < whole" "next_state u = EBsReadControlSegmentHeader" "prepared M whole u" "var_int_len u = 0"
        "newpos u = of_nat (k + ?x + ?y)" "io (bspatch_stream.more u) = Some (concat (map segment_bytes segs) @ r, ?p + j,
          w @ map2 (+) (drop (nat p) old) (plain ds) @ plain es)"
      have "segs \<noteq> []" using u(1) len by auto
      then show "finishes lz4 client later Q u"
        by (rule Cons.IH[OF u(2-4) Cons.prems(4) u(5) len _ ok(6) u(6)]) (rule Cons.prems(10), simp add: seg)
    qed
  qed
qed

end

subsection \<open>The header\<close>

lemma little_endian_byte: "little_endian v = map (\<lambda>i. of_nat (unat v div 256 ^ i mod 256)) [0..<8]"
proof -
  have "(ucast (drop_bit (8 * i) v) :: u8) = of_nat (unat v div 256 ^ i mod 256)" for i
  proof -
    have "unat (ucast (drop_bit (8 * i) v) :: u8) = unat v div 256 ^ i mod 256"
    proof -
      have "unat (drop_bit (8 * i) v) = unat v div 256 ^ i"
        using unat_drop_bit_eq[of "8 * i" v] by (simp only: drop_bit_eq_div power_mult) simp
      then show ?thesis by (simp only: unsigned_ucast_eq take_bit_eq_mod) simp
    qed
    also have "\<dots> = unat (of_nat (unat v div 256 ^ i mod 256) :: u8)" by (simp add: unat_byte)
    finally show ?thesis by (simp only: word_unat_eq_iff)
  qed
  then show ?thesis by (simp add: little_endian_def)
qed

lemma horner: "(of_nat (n div 256 ^ Suc i) :: u64) * 256 + ucast (of_nat (n div 256 ^ i mod 256) :: u8) = of_nat (n div 256 ^ i)"
proof -
  have "(ucast (of_nat k :: u8) :: u64) = of_nat k" if "k < 256" for k
    using that by (simp add: unsigned_ucast_eq word_unat_eq_iff unat_of_nat take_bit_nat_eq_self_iff)
  then have "(of_nat (n div 256 ^ Suc i) :: u64) * 256 + ucast (of_nat (n div 256 ^ i mod 256) :: u8) =
      of_nat (n div 256 ^ Suc i * 256 + n div 256 ^ i mod 256)" by simp
  also have "n div 256 ^ Suc i * 256 + n div 256 ^ i mod 256 = n div 256 ^ i"
    by (simp only: power_Suc2 div_mult2_eq div_mult_mod_eq)
  finally show ?thesis .
qed

lemma offtin_little_endian:
  assumes "unat v < 2 ^ 63"
  shows "offtin (little_endian v) = v"
proof -
  let ?b = "\<lambda>i. of_nat (unat v div 256 ^ i mod 256) :: u8"
  have top: "unat v div 256 ^ 7 < 128" using assms by (simp add: div_less_iff_less_mult)
  then have b7: "?b 7 = of_nat (unat v div 256 ^ 7)" by simp
  have t: "?b 7 AND 0x80 = 0" "?b 7 AND 0x7F = ?b 7" using byte_parts(1,3)[OF top] by (simp_all only: b7)
  have h0: "ucast (?b 7) = (of_nat (unat v div 256 ^ 7) :: u64)" using horner[of "unat v" 7] assms by simp
  have n: "little_endian v ! i = ?b i" if "i < 8" for i using that by (simp add: little_endian_byte)
  have h: "of_nat (unat v div 256 ^ 7) * 256 + ucast (?b 6) = (of_nat (unat v div 256 ^ 6) :: u64)"
    "of_nat (unat v div 256 ^ 6) * 256 + ucast (?b 5) = (of_nat (unat v div 256 ^ 5) :: u64)"
    "of_nat (unat v div 256 ^ 5) * 256 + ucast (?b 4) = (of_nat (unat v div 256 ^ 4) :: u64)"
    "of_nat (unat v div 256 ^ 4) * 256 + ucast (?b 3) = (of_nat (unat v div 256 ^ 3) :: u64)"
    "of_nat (unat v div 256 ^ 3) * 256 + ucast (?b 2) = (of_nat (unat v div 256 ^ 2) :: u64)"
    "of_nat (unat v div 256 ^ 2) * 256 + ucast (?b 1) = (of_nat (unat v div 256 ^ 1) :: u64)"
    "of_nat (unat v div 256 ^ 1) * 256 + ucast (?b 0) = (of_nat (unat v div 256 ^ 0) :: u64)"
    using horner[of "unat v" 6] horner[of "unat v" 5] horner[of "unat v" 4] horner[of "unat v" 3] horner[of "unat v" 2]
      horner[of "unat v" 1] horner[of "unat v" 0] by (simp_all only: eval_nat_numeral One_nat_def BitM.simps)
  have z: "(of_nat (unat v div 256 ^ 0) :: u64) = v" by simp
  have i: "0 < (8::nat)" "1 < (8::nat)" "2 < (8::nat)" "3 < (8::nat)" "4 < (8::nat)" "5 < (8::nat)" "6 < (8::nat)" "7 < (8::nat)"
    by simp_all
  show ?thesis
    unfolding offtin_def Let_def i[THEN n] t h0 h z by simp
qed

lemma little_endian_length [simp]: "length (little_endian v) = 8"
  by (simp add: little_endian_def)

lemma FILE_MAGIC_length [simp]: "length FILE_MAGIC = FILE_MAGIC_LEN"
  by (simp add: FILE_MAGIC_def)

lemma patch_header_length: "length unused = 8 \<Longrightarrow> length (patch_header whole M unused) = FILE_HEADER_LEN"
  by (simp add: patch_header_def)

lemma header_fields:
  assumes "bs_header s = patch_header whole M unused" and "length unused = 8"
  shows "bs_load s Bs_header 0 FILE_MAGIC_LEN = Some FILE_MAGIC"
    and "header_field s FILE_MAGIC_LEN = Some (offtin (little_endian (of_nat whole)))"
    and "header_field s (FILE_MAGIC_LEN + 8) = Some (offtin (little_endian (of_nat M)))"
  using assms by (simp_all add: bs_load_def rd_block_def header_field_def patch_header_def)

lemma header_parsed:
  assumes "bs_header s = patch_header whole M unused" and "length unused = 8" and "whole < 2 ^ 32" and "64 \<le> M" and "M < 2 ^ 32"
  shows "bspatch_readInitialHeaderAndContinueReadOfPatchDone s =
    Some (0, s\<lparr>new_size := of_nat whole, max_compressedDataBuffer := of_nat M, max_deCompressBuffer := of_nat M\<rparr>)"
proof -
  have f: "header_field (s\<lparr>new_size := n, max_compressedDataBuffer := m\<rparr>) i = header_field s i"
    "header_field (s\<lparr>new_size := n\<rparr>) i = header_field s i" for n m i
    by (simp_all add: header_field_def bs_load_def)
  have v: "unat (of_nat n :: u64) = n" if "n < 2 ^ 32" for n using that by (simp add: unat_of_nat take_bit_nat_eq_self_iff)
  have oo: "offtin (little_endian (of_nat n)) = of_nat n" "\<not> out_of_u32 (of_nat n)" if "n < 2 ^ 32" for n
  proof -
    show "offtin (little_endian (of_nat n)) = of_nat n" using v[OF that] that by (intro offtin_little_endian) simp
    show "\<not> out_of_u32 (of_nat n)" using of_nat_sless[of n 0] of_nat_sless[of "0xFFFFFFFF" n] that by (simp add: out_of_u32_def)
  qed
  have m: "\<not> (of_nat M :: u32) < 64" "\<not> (of_nat M :: u32) < 1"
    using assms(4) by (simp_all add: word_less_nat_alt unat_below[OF assms(5)])
  show ?thesis
    using oo[OF assms(3)] oo[OF assms(5)] m header_fields[OF assms(1,2)]
    unfolding bspatch_readInitialHeaderAndContinueReadOfPatchDone_def Let_def by (simp add: f ucast_down)
qed

subsection \<open>The working buffers\<close>

definition align8 :: "nat \<Rightarrow> nat" where
  "align8 n = (if n mod 8 \<noteq> 0 then n + (8 - n mod 8) else n)"

lemma align8_bounds: "n \<le> align8 n" "align8 n \<le> n + 7" "8 dvd align8 n"
proof -
  show "n \<le> align8 n" "align8 n \<le> n + 7" by (auto simp: align8_def)
  show "8 dvd align8 n" unfolding align8_def by presburger
qed

lemma align8_add: "8 dvd a \<Longrightarrow> align8 (a + n) = a + align8 n"
  by (auto simp: align8_def mod_add_left_eq[symmetric])

lemma allign_of_nat:
  assumes "n < 2 ^ 63"
  shows "allignTo8ByteBoundary (of_nat n) = of_nat (align8 n)"
proof -
  have u: "unat (of_nat n :: u64) = n" using assms by (simp add: unat_of_nat take_bit_nat_eq_self_iff)
  have m: "(of_nat n :: u64) mod 8 = of_nat (n mod 8)"
    by (simp only: word_unat_eq_iff unat_mod u) (simp add: unat_of_nat take_bit_nat_eq_self_iff)
  have z: "(of_nat (n mod 8) :: u64) = 0 \<longleftrightarrow> n mod 8 = 0"
    by (simp add: word_unat_eq_iff unat_of_nat take_bit_nat_eq_self_iff)
  have "n mod 8 \<le> 8" by simp
  then have "(of_nat n :: u64) + (8 - of_nat (n mod 8)) = of_nat (n + (8 - n mod 8))" by (simp only: of_nat_add of_nat_diff of_nat_numeral)
  then show ?thesis using m z by (simp add: allignTo8ByteBoundary_def align8_def)
qed

lemma allign_pointer:
  fixes a :: u32
  assumes "8 dvd unat a" and "unat a + n < 2 ^ 32"
  shows "ucast (allignTo8ByteBoundary (ucast (a + of_nat n))) = a + of_nat (align8 n)"
proof -
  have "a + of_nat n = of_nat (unat a + n)" by simp
  then have "(ucast (a + of_nat n) :: u64) = of_nat (unat a + n)" using ucast_of_nat[OF assms(2)] by (simp only:)
  then have "allignTo8ByteBoundary (ucast (a + of_nat n)) = of_nat (unat a + align8 n)"
    using allign_of_nat[of "unat a + n"] assms(2) align8_add[OF assms(1), of n] by simp
  then show ?thesis using ucast_down[of "unat a + align8 n"] by simp
qed

lemma working_buffers:
  assumes "max_compressedDataBuffer s = of_nat M" and "max_deCompressBuffer s = of_nat M" and "M \<le> 512"
    and "8 dvd unat (bs_address s)" and "unat (bs_address s) + bs_memory_size < 2 ^ 32"
  shows "bspatch_allocWorkingBuffers s = (0, s\<lparr>nonCompressedDataBuffer := bs_address s,
    bufferForCompressedData := bs_address s + of_nat (align8 M)\<rparr>)"
proof -
  have u: "unat (of_nat k :: u32) = k" if "k < 2 ^ 32" for k using that by (rule unat_below)
  have "(of_nat M :: u32) + of_nat M = of_nat (M + M)" by simp
  then have a: "\<not> BS_PATCH_COMPILE_TIME_MEMORY_ALLOC < (of_nat M :: u32) + of_nat M"
    using u[of "M + M"] assms(3) by (simp only: word_less_nat_alt) simp
  have p: "ucast (allignTo8ByteBoundary (ucast (bs_address s))) = bs_address s"
    using allign_pointer[OF assms(4), of 0] assms(5) by (simp add: align8_def)
  have q: "ucast (allignTo8ByteBoundary (ucast (bs_address s + of_nat M))) = bs_address s + of_nat (align8 M)"
    using assms(3,5) by (intro allign_pointer assms(4)) simp
  have e: "bs_address s + of_nat k = of_nat (unat (bs_address s) + k)" for k by simp
  have "\<not> of_nat (unat (bs_address s) + bs_memory_size) < (of_nat (unat (bs_address s) + (align8 M + M)) :: u32)"
    using assms(3,5) align8_bounds(2)[of M] u by (simp only: word_less_nat_alt)
  moreover have "bs_address s + of_nat (align8 M) + of_nat M = of_nat (unat (bs_address s) + (align8 M + M))" by simp
  ultimately have b: "\<not> bs_address s + of_nat (align8 M) + of_nat M > bs_address s + of_nat bs_memory_size"
    by (simp only: e not_False_eq_True)
  show ?thesis using a b by (simp add: bspatch_allocWorkingBuffers_def Let_def assms(1,2) p q)
qed

lemma prepared_allocated:
  assumes "length (bsMemoryBuffer s) = bs_memory_size" and "new_size s = of_nat whole" and "whole < 2 ^ 32"
    and "max_compressedDataBuffer s = of_nat M" and "max_deCompressBuffer s = of_nat M" and "64 \<le> M" and "M \<le> 512"
  shows "prepared M whole (s\<lparr>nonCompressedDataBuffer := bs_address s, bufferForCompressedData := bs_address s + of_nat (align8 M)\<rparr>)"
  using assms align8_bounds(1,2)[of M] by (auto simp: prepared_def intro!: exI[of _ "align8 M"])

subsection \<open>A whole patch\<close>

definition patch_ok :: "lz4 \<Rightarrow> nat \<Rightarrow> bytes \<Rightarrow> segment list \<Rightarrow> bool" where
  "patch_ok lz4 M old segs \<longleftrightarrow> 64 \<le> M \<and> M \<le> 512 \<and> segs \<noteq> [] \<and> segments_ok lz4 M old 0 segs \<and>
     length (patched old 0 segs) < 2 ^ 32"

definition patch_bytes :: "nat \<Rightarrow> bytes \<Rightarrow> bytes \<Rightarrow> segment list \<Rightarrow> bytes" where
  "patch_bytes M unused old segs =
     patch_header (length (patched old 0 segs)) M unused @ concat (map segment_bytes segs)"

definition aligned :: "u32 \<Rightarrow> bool" where
  "aligned a \<longleftrightarrow> 8 dvd unat a \<and> unat a + bs_memory_size < 2 ^ 32"

context patch_io
begin

lemma patch_started:
  assumes "patch_ok lz4 M old segs" and "length unused = 8" and "aligned (bs_address s)"
    and "M \<le> longest" and "FILE_HEADER_LEN \<le> longest"
    and "io (bspatch_stream.more s) = Some (patch_bytes M unused old segs @ r, 0, [])"
    and finish: "\<And>t p. io (bspatch_stream.more t) = Some (r, p, patched old 0 segs) \<Longrightarrow> Q t"
  shows "served lz4 client later Q EBSAPI_START_PATCH_PROCESSING (ARM_BS_Init s)"
proof (rule finishes_served)
  let ?i = "(ARM_BS_Init s)\<lparr>expectedExternalEvent := 0\<rparr>" and ?n = "length (patched old 0 segs)"
  let ?h = "patch_header ?n M unused"
  have ok: "64 \<le> M" "M \<le> 512" "segs \<noteq> []" "segments_ok lz4 M old 0 segs" "?n < 2 ^ 32"
    using assms(1) by (simp_all add: patch_ok_def)
  obtain f1 f2 f3 f4 where c: "read_old client = Some f1" "read_patch client = Some f2" "seek_old client = Some f3"
    "write_new client = Some f4"
    using complete by blast
  show "finishes lz4 client later Q ?i"
  proof (rule reading_block)
    show "bs_step lz4 client ?i = map_option (WAIT_FOR EBSAPI_READ_PATCH_DONE EBsInitialPatchReadDone)
        (sendPatchReadRequest client Bs_header (of_nat FILE_HEADER_LEN) ?i)"
      using c by (simp add: bs_step_def ARM_BS_Init_def bspatch_readInitialHeaderAndContinue_def)
    show "io (bspatch_stream.more ?i) = Some (?h @ (concat (map segment_bytes segs) @ r), 0, [])"
      using assms(6) by (simp add: ARM_BS_Init_def patch_bytes_def)
    show "?h \<noteq> []" by (simp add: patch_header_def FILE_MAGIC_def)
    show "length ?h \<le> longest" "unat (of_nat FILE_HEADER_LEN :: u64) = length ?h"
      using assms(2,5) patch_header_length[OF assms(2)] by simp_all
    show "bs_store Bs_header 0 ?h ?i = Some (?i\<lparr>bs_header := ?h\<rparr>)"
      using patch_header_length[OF assms(2)] by (simp add: bs_store_def ARM_BS_Init_def wr_block_def)
    show "regs (?i\<lparr>bs_header := ?h\<rparr>) = regs ?i" by simp
    show "\<not> isPatchingDone ?i" by (simp add: isPatchingDone_def ARM_BS_Init_def)
    fix v
    assume v: "regs v = regs ?i" "next_state v = EBsInitialPatchReadDone" "view v = view (?i\<lparr>bs_header := ?h\<rparr>)"
      "io (bspatch_stream.more v) = Some (concat (map segment_bytes segs) @ r, 0, [])"
    then have f: "bs_header v = ?h" "length (bsMemoryBuffer v) = bs_memory_size" "bs_address v = bs_address s" "newpos v = 0"
      "var_int_len v = 0"
      by (simp_all add: regs_def view_def ARM_BS_Init_def)
    let ?a = "v\<lparr>new_size := of_nat ?n, max_compressedDataBuffer := of_nat M, max_deCompressBuffer := of_nat M\<rparr>"
    let ?b = "?a\<lparr>nonCompressedDataBuffer := bs_address v, bufferForCompressedData := bs_address v + of_nat (align8 M)\<rparr>"
    have p: "prepared M ?n ?b" using prepared_allocated[of ?a ?n M] f(2) ok by simp
    have "0 < ?n" using patched_nonempty[OF ok(4,3)] by simp
    then have nd: "\<not> isPatchingDone ?b" using done_iff[OF p, of 0] f(4) by simp
    let ?c = "?b\<lparr>next_state := EBsReadControlSegmentHeader\<rparr>" and ?d = "?a\<lparr>next_state := EBsAllocWorkingBuffer\<rparr>"
    have fin: "finishes lz4 client later Q ?c"
    proof (rule segments)
      show "prepared M ?n ?c" using p by (simp only: prepared_control)
      show "newpos ?c = of_nat 0" using f(4) by simp
      show "0 + length (patched old 0 segs) = ?n" by simp
      show "io (bspatch_stream.more ?c) = Some (concat (map segment_bytes segs) @ r, 0, [])" using v(4) by simp
      show "var_int_len ?c = 0" using f(5) by simp
      fix t p
      assume "io (bspatch_stream.more t) = Some (r, p, [] @ patched old 0 segs)"
      then show "Q t" by (intro finish) simp
    qed (use ok(3,4) assms(4) in simp_all)
    have al: "bspatch_allocWorkingBuffers ?d = (0, ?b\<lparr>next_state := EBsAllocWorkingBuffer\<rparr>)"
      using working_buffers[of ?d M] ok(2) assms(3) f(3) by (simp add: aligned_def)
    have "bs_step lz4 client ?d = Some (0, ?c)"
      unfolding bs_step_def by (simp add: SET_NEXT_STATE_def al)
    moreover have "\<not> isPatchingDone ?c" using nd by (simp only: done_updates not_False_eq_True)
    ultimately have "finishes lz4 client later Q ?d" using fin by (rule finishes_internal)
    moreover have "bs_step lz4 client v = Some (0, ?d)"
      using header_parsed[OF f(1) assms(2) ok(5,1)] ok(2) unfolding bs_step_def v(2) by (simp add: SET_NEXT_STATE_def)
    moreover have "\<not> isPatchingDone ?d" using nd by (simp add: isPatchingDone_def)
    ultimately show "finishes lz4 client later Q v" by (intro finishes_internal[of lz4 client v ?d])
  qed
next
  show "expectedExternalEvent (ARM_BS_Init s) = EBSAPI_START_PATCH_PROCESSING" by (simp add: ARM_BS_Init_def)
qed

end

end
