(* ===== verification/UC_Delta_PAAL.thy ===== *)
theory UC_Delta_PAAL
  imports BsPatch UC_Firmware_Manager
begin

text \<open>
  \<open>delta-paal/source/arm_uc_pal_delta_paal_implementation.c\<close>: a storage interface on top of
  another one. Where the update is a delta, the fragments that the hub writes are fed to the
  patcher, and what the patcher writes goes to the storage below in full buffers; else the calls
  are passed on. The storage below and the reader of the active image are parameters.
\<close>

subsection \<open>State\<close>

datatype delta_cb = Cb_arm_uc_deltapaal_event_handler_callback | Cb_arm_uc_deltapaal_write_async_callback
datatype delta_fn = Fn_arm_uc_deltapaal_internal_event_handler | Fn_ARM_UC_DeltaPaal_AsyncWrite_Handler

text \<open>
  The stream \<open>delta_paal_bs_patch\<close> comes first. \<open>storage_calls\<close> and \<open>upstream_events\<close> are what
  was asked of the storage below and signalled to the firmware manager above, newest first. The
  buffer that the hub passes to \<open>Write\<close> keeps its contents until its write is done.
\<close>

record delta = bspatch_stream +
  delta_sched :: "(delta_cb, delta_fn) sched"
  storage_calls :: "ext_call list"
  upstream_events :: "u32 list"
  paal_storage_implementation :: bool
  pal_deltapaal_upstream_event_handler :: bool
  bspatch_seek_diff :: u64
  bspatch_new_offset :: u32
  incoming_hub_buf_ref_offset :: u32
  bspatch_read_patch_buffer_ptr :: "bs_buffer option"
  bspatch_read_patch_buffer_length :: u64
  bspatch_read_patch_buffer_remaining :: u64
  bspatch_write_new_buffer_ptr :: "bs_buffer option"
  bspatch_write_patch_buffer_length :: u64
  bspatch_write_new_buffer_remaining :: u64
  incoming_buf_ref :: "arm_uc_buffer_t option"
  nextEventToPostToBsPatch :: int
  current_slot_id :: u32
  delta_patch_full_size :: u64
  delta_patch_full_offset :: u64
  delta_incoming :: u8
  update_payload_full :: bool
  outgoing_new_buffer :: arm_uc_buffer_t

text \<open>The storage below, the reader of the active image (\<open>None\<close> is an error) and LZ4.\<close>

record delta_platform =
  storage :: environment
  original_reader :: "u64 \<Rightarrow> u32 \<Rightarrow> bytes option"
  decompress :: lz4

definition storage_call :: "delta_platform \<Rightarrow> ext_call \<Rightarrow> 'z delta_scheme \<Rightarrow> reply \<times> 'z delta_scheme" where
  "storage_call p c s = (storage p (c # storage_calls s), s\<lparr>storage_calls := c # storage_calls s\<rparr>)"

definition write_outgoing :: "delta_platform \<Rightarrow> 'z delta_scheme \<Rightarrow> arm_uc_error_t \<times> 'z delta_scheme" where
  "write_outgoing p s =
     (let b = outgoing_new_buffer s;
          (r, s) = storage_call p (PAAL_Write (current_slot_id s) (bspatch_new_offset s) (take (unat (bsize b)) (ptr b))) s
      in (rcode r, s))"

subsection \<open>The functions that the patcher calls\<close>

definition arm_uc_deltapaal_original_seek :: "u64 \<Rightarrow> 'z delta_scheme \<Rightarrow> (int \<times> 'z delta_scheme) option" where
  "arm_uc_deltapaal_original_seek seek_diff s =
     Some (EBSAPI_OPERATION_DONE_IMMEDIATELY,
       s\<lparr>bspatch_seek_diff := bspatch_seek_diff s + seek_diff, nextEventToPostToBsPatch := EBSAPI_SEEK_OLD_DONE\<rparr>)"

definition arm_uc_deltapaal_original_read ::
    "delta_platform \<Rightarrow> bs_buffer \<Rightarrow> u64 \<Rightarrow> 'z delta_scheme \<Rightarrow> (int \<times> 'z delta_scheme) option" where
  "arm_uc_deltapaal_original_read p buffer n s =
     (case original_reader p n (ucast (bspatch_seek_diff s)) of
        None \<Rightarrow> Some (EBSAPI_ERR_FILE_IO, s)
      | Some bs \<Rightarrow> do {
          s \<leftarrow> bs_store buffer 0 bs s;
          Some (EBSAPI_OPERATION_DONE_IMMEDIATELY, s\<lparr>bspatch_seek_diff := bspatch_seek_diff s + n\<rparr>)
        })"

text \<open>\<open>incoming\<close> is what is left of the buffer of the hub: \<open>size - offset\<close> in 32 bits.\<close>

definition incoming :: "'z delta_scheme \<Rightarrow> u32 option" where
  "incoming s = map_option (\<lambda>b. bsize b - incoming_hub_buf_ref_offset s) (incoming_buf_ref s)"

definition arm_uc_deltapaal_patch_read ::
    "bs_buffer \<Rightarrow> u64 \<Rightarrow> 'z delta_scheme \<Rightarrow> (int \<times> 'z delta_scheme) option" where
  "arm_uc_deltapaal_patch_read buffer n s = do {
     let s = s\<lparr>bspatch_read_patch_buffer_ptr := Some buffer, bspatch_read_patch_buffer_length := n,
               bspatch_read_patch_buffer_remaining := n\<rparr>;
     buf \<leftarrow> incoming_buf_ref s;
     available \<leftarrow> incoming s;
     let (copy_amount, return_code) =
       (if ucast available < n then (ucast available, EBSAPI_OPERATION_PATCH_READ_WILL_COMPLETE_LATER)
        else (n, EBSAPI_OPERATION_DONE_IMMEDIATELY));
     bs \<leftarrow> rd_block (ptr buf) (unat (incoming_hub_buf_ref_offset s)) (unat copy_amount);
     s \<leftarrow> bs_store buffer 0 bs s;
     Some (return_code,
       s\<lparr>bspatch_read_patch_buffer_remaining := bspatch_read_patch_buffer_remaining s - copy_amount,
         incoming_hub_buf_ref_offset := incoming_hub_buf_ref_offset s + ucast copy_amount,
         nextEventToPostToBsPatch := EBSAPI_READ_PATCH_DONE\<rparr>)
   }"

text \<open>The end of \<open>new_write\<close>: a full buffer goes to the storage.\<close>

definition flush_outgoing :: "delta_platform \<Rightarrow> int \<Rightarrow> 'z delta_scheme \<Rightarrow> int \<times> 'z delta_scheme" where
  "flush_outgoing p return_code s =
     (if bsize (outgoing_new_buffer s) = size_max (outgoing_new_buffer s) then
        let (result, s) = write_outgoing p s in
        if result \<noteq> ERR_NONE then (EBSAPI_ERR_FILE_IO, s)
        else (EBSAPI_OPERATION_NEW_FILE_WRITE_WILL_COMPLETE_LATER,
              s\<lparr>bspatch_new_offset := bspatch_new_offset s + bsize (outgoing_new_buffer s)\<rparr>)
      else (return_code, s))"

definition arm_uc_deltapaal_new_write ::
    "delta_platform \<Rightarrow> bs_buffer \<Rightarrow> u64 \<Rightarrow> 'z delta_scheme \<Rightarrow> (int \<times> 'z delta_scheme) option" where
  "arm_uc_deltapaal_new_write p buffer n s = do {
     let s = s\<lparr>bspatch_write_new_buffer_ptr := Some buffer, bspatch_write_patch_buffer_length := n,
               bspatch_write_new_buffer_remaining := n, nextEventToPostToBsPatch := EBSAPI_WRITE_NEW_DONE\<rparr>;
     let b = outgoing_new_buffer s;
     let (copy_amount, return_code) =
       (if (ucast n :: u32) \<le> size_max b - bsize b then (n, EBSAPI_OPERATION_DONE_IMMEDIATELY)
        else (ucast (size_max b - bsize b), EBSAPI_OPERATION_NEW_FILE_WRITE_WILL_COMPLETE_LATER));
     bs \<leftarrow> bs_load s buffer 0 (unat copy_amount);
     m \<leftarrow> wr_block (ptr b) (unat (bsize b)) bs;
     let s = s\<lparr>outgoing_new_buffer := b\<lparr>ptr := m, bsize := bsize b + ucast copy_amount\<rparr>,
               bspatch_write_new_buffer_remaining := bspatch_write_new_buffer_remaining s - copy_amount\<rparr>;
     Some (flush_outgoing p return_code s)
   }"

definition delta_client :: "delta_platform \<Rightarrow> 'z delta_scheme bs_client" where
  "delta_client p = \<lparr>read_patch = Some arm_uc_deltapaal_patch_read,
                     read_old = Some (arm_uc_deltapaal_original_read p),
                     seek_old = Some arm_uc_deltapaal_original_seek,
                     write_new = Some (arm_uc_deltapaal_new_write p)\<rparr>"

definition process_patch_event :: "delta_platform \<Rightarrow> 'z delta_scheme \<Rightarrow> (int \<times> 'z delta_scheme) option" where
  "process_patch_event p s =
     ARM_BS_ProcessPatchEvent (decompress p) (delta_client p) (nextEventToPostToBsPatch s) s"

subsection \<open>Events\<close>

definition arm_uc_deltapaal_reset_internals :: "'z delta_scheme \<Rightarrow> 'z delta_scheme" where
  "arm_uc_deltapaal_reset_internals s =
     s\<lparr>bspatch_seek_diff := 0, bspatch_new_offset := 0, incoming_hub_buf_ref_offset := 0,
       bspatch_read_patch_buffer_ptr := None, bspatch_read_patch_buffer_length := 0,
       bspatch_read_patch_buffer_remaining := 0, bspatch_write_new_buffer_ptr := None,
       bspatch_write_patch_buffer_length := 0, bspatch_write_new_buffer_remaining := 0,
       incoming_buf_ref := None, nextEventToPostToBsPatch := EBSAPI_START_PATCH_PROCESSING,
       current_slot_id := 0, delta_patch_full_size := 0, delta_patch_full_offset := 0, delta_incoming := 0,
       update_payload_full := True, outgoing_new_buffer := (outgoing_new_buffer s)\<lparr>bsize := 0\<rparr>\<rparr>"

definition arm_uc_deltapaal_signal_ucfm_handler :: "u32 \<Rightarrow> 'z delta_scheme \<Rightarrow> 'z delta_scheme" where
  "arm_uc_deltapaal_signal_ucfm_handler event s =
     (if pal_deltapaal_upstream_event_handler s then s\<lparr>upstream_events := event # upstream_events s\<rparr> else s)"

definition delta_post :: "delta_cb \<Rightarrow> delta_fn \<Rightarrow> u32 \<Rightarrow> 'z delta_scheme \<Rightarrow> bool \<times> 'z delta_scheme" where
  "delta_post st f event s =
     (let (ok, q) = ARM_UC_PostCallback (Some st) (Some f) event (delta_sched s) in (ok, s\<lparr>delta_sched := q\<rparr>))"

definition ARM_UC_DeltaPaal_PALEventHandler :: "u32 \<Rightarrow> 'z delta_scheme \<Rightarrow> 'z delta_scheme" where
  "ARM_UC_DeltaPaal_PALEventHandler event s =
     snd (delta_post Cb_arm_uc_deltapaal_event_handler_callback Fn_arm_uc_deltapaal_internal_event_handler event s)"

text \<open>\<open>memcpy\<close> of what \<open>new_write\<close> could not take, from the buffer of the patcher to the start of the own one.\<close>

definition copy_leftover :: "u64 \<Rightarrow> 'z delta_scheme \<Rightarrow> 'z delta_scheme option" where
  "copy_leftover n s = do {
     src \<leftarrow> bspatch_write_new_buffer_ptr s;
     bs \<leftarrow> bs_load s src (unat (ucast (bspatch_write_patch_buffer_length s - bspatch_write_new_buffer_remaining s) :: u32))
            (unat n);
     m \<leftarrow> wr_block (ptr (outgoing_new_buffer s)) 0 bs;
     Some (s\<lparr>outgoing_new_buffer := (outgoing_new_buffer s)\<lparr>ptr := m, bsize := ucast n\<rparr>,
             bspatch_write_new_buffer_remaining := bspatch_write_new_buffer_remaining s - n\<rparr>)
   }"

text \<open>The buffer after a write below is done; the flag says that the handler is finished.\<close>

definition outgoing_written :: "delta_platform \<Rightarrow> 'z delta_scheme \<Rightarrow> (bool \<times> 'z delta_scheme) option" where
  "outgoing_written p s =
     (let remaining = bspatch_write_new_buffer_remaining s; b = outgoing_new_buffer s in
      if 0 < remaining \<and> remaining \<le> ucast (size_max b) then map_option (Pair False) (copy_leftover remaining s)
      else if ucast (size_max b) < remaining then do {
        s \<leftarrow> copy_leftover (ucast (size_max b)) s;
        let (result, s) = write_outgoing p s;
        if result \<noteq> ERR_NONE then Some (True, arm_uc_deltapaal_signal_ucfm_handler ARM_UC_PAAL_EVENT_WRITE_ERROR s)
        else Some (True, s\<lparr>bspatch_new_offset := bspatch_new_offset s + bsize (outgoing_new_buffer s)\<rparr>)
      }
      else if bsize b < size_max b then Some (False, s)
      else Some (False, s\<lparr>outgoing_new_buffer := b\<lparr>bsize := 0\<rparr>\<rparr>))"

text \<open>The last part of the new image, which need not fill the buffer.\<close>

definition write_last :: "delta_platform \<Rightarrow> 'z delta_scheme \<Rightarrow> 'z delta_scheme" where
  "write_last p s =
     (let (result, s) = write_outgoing p s in
      if result = ERR_NONE then s\<lparr>bspatch_new_offset := bspatch_new_offset s + bsize (outgoing_new_buffer s)\<rparr> else s)"

text \<open>The patcher goes on within the handler of events.\<close>

definition resume_patch :: "delta_platform \<Rightarrow> u32 \<Rightarrow> 'z delta_scheme \<Rightarrow> 'z delta_scheme option" where
  "resume_patch p event s = do {
     (bs_result, s) \<leftarrow> process_patch_event p s;
     Some (if bs_result = EBSAPI_PATCH_DONE
           then (write_last p s)\<lparr>nextEventToPostToBsPatch := EBSAPI_PATCH_DONE\<rparr>
           else if bs_result = EBSAPI_OPERATION_PATCH_READ_WILL_COMPLETE_LATER
           then arm_uc_deltapaal_signal_ucfm_handler event s
           else if bs_result = EBSAPI_OPERATION_NEW_FILE_WRITE_WILL_COMPLETE_LATER
           then s\<lparr>nextEventToPostToBsPatch := EBSAPI_WRITE_NEW_DONE\<rparr>
           else if bs_result < 0
           then arm_uc_deltapaal_signal_ucfm_handler ARM_UC_PAAL_EVENT_WRITE_ERROR s
           else s)
   }"

definition arm_uc_deltapaal_internal_event_handler ::
    "delta_platform \<Rightarrow> u32 \<Rightarrow> 'z delta_scheme \<Rightarrow> 'z delta_scheme option" where
  "arm_uc_deltapaal_internal_event_handler p event s =
     (if event \<noteq> ARM_UC_PAAL_EVENT_WRITE_DONE \<or> delta_incoming s = 0
      then Some (arm_uc_deltapaal_signal_ucfm_handler event s)
      else do {
        (finished, s) \<leftarrow> outgoing_written p s;
        if finished then Some s
        else do {
          available \<leftarrow> incoming s;
          if 0 < available \<or>
             delta_patch_full_size s = delta_patch_full_offset s \<and> nextEventToPostToBsPatch s \<noteq> EBSAPI_PATCH_DONE
          then resume_patch p event s
          else Some (arm_uc_deltapaal_signal_ucfm_handler event s)
        }
      })"

text \<open>A read of the patch that the last buffer of the hub did not complete.\<close>

definition finish_patch_read :: "'z delta_scheme \<Rightarrow> (arm_uc_error_t \<times> 'z delta_scheme) option" where
  "finish_patch_read s = do {
     buf \<leftarrow> incoming_buf_ref s;
     let remaining = bspatch_read_patch_buffer_remaining s;
     if 0 < remaining \<and> remaining \<le> ucast (bsize buf) then do {
       dst \<leftarrow> bspatch_read_patch_buffer_ptr s;
       bs \<leftarrow> rd_block (ptr buf) 0 (unat remaining);
       s \<leftarrow> bs_store dst (unat (ucast (bspatch_read_patch_buffer_length s - remaining) :: u32)) bs s;
       Some (ERR_NONE, s\<lparr>incoming_hub_buf_ref_offset := incoming_hub_buf_ref_offset s + ucast remaining,
                         bspatch_read_patch_buffer_remaining := 0\<rparr>)
     }
     else Some (ERR_INVALID_PARAMETER, s)
   }"

partial_function (option) async_write_loop :: "delta_platform \<Rightarrow> 'z delta_scheme \<Rightarrow> 'z delta_scheme option" where
  "async_write_loop p s = do {
     (bs_result, s) \<leftarrow> process_patch_event p s;
     if bs_result = EBSAPI_PATCH_DONE then
       Some ((snd (ARM_BS_Free (write_last p s)))\<lparr>nextEventToPostToBsPatch := EBSAPI_PATCH_DONE\<rparr>)
     else if bs_result = EBSAPI_OPERATION_NEW_FILE_WRITE_WILL_COMPLETE_LATER \<and>
             delta_patch_full_size s \<ge> delta_patch_full_offset s then Some s
     else if bs_result = EBSAPI_OPERATION_PATCH_READ_WILL_COMPLETE_LATER then
       Some (ARM_UC_DeltaPaal_PALEventHandler ARM_UC_PAAL_EVENT_WRITE_DONE s)
     else if bs_result < 0 then Some (ARM_UC_DeltaPaal_PALEventHandler ARM_UC_PAAL_EVENT_WRITE_ERROR s)
     else do {
       available \<leftarrow> incoming s;
       if 0 < available then async_write_loop p s else Some s
     }
   }"

declare async_write_loop.simps [code]

definition ARM_UC_DeltaPaal_AsyncWrite_Handler :: "delta_platform \<Rightarrow> u32 \<Rightarrow> 'z delta_scheme \<Rightarrow> 'z delta_scheme option" where
  "ARM_UC_DeltaPaal_AsyncWrite_Handler p event s = do {
     (result, s) \<leftarrow>
       (if nextEventToPostToBsPatch s = EBSAPI_READ_PATCH_DONE then finish_patch_read s
        else if nextEventToPostToBsPatch s = EBSAPI_WRITE_NEW_DONE \<or>
                nextEventToPostToBsPatch s = EBSAPI_START_PATCH_PROCESSING then Some (ERR_NONE, s)
        else Some (ERR_INVALID_PARAMETER, s));
     if result = ERR_NONE then async_write_loop p s else Some s
   }"

definition delta_task :: "delta_platform \<Rightarrow> delta_fn \<Rightarrow> u32 \<Rightarrow> 'z delta_scheme \<Rightarrow> 'z delta_scheme option" where
  "delta_task p f param s =
     (case f of
        Fn_arm_uc_deltapaal_internal_event_handler \<Rightarrow> arm_uc_deltapaal_internal_event_handler p param s
      | Fn_ARM_UC_DeltaPaal_AsyncWrite_Handler \<Rightarrow> ARM_UC_DeltaPaal_AsyncWrite_Handler p param s)"

subsection \<open>Interface\<close>

definition ARM_UC_DeltaPaal_SetPAALStorage :: "bool \<Rightarrow> 'z delta_scheme \<Rightarrow> arm_uc_error_t \<times> 'z delta_scheme" where
  "ARM_UC_DeltaPaal_SetPAALStorage implementation s = (ERR_NONE, s\<lparr>paal_storage_implementation := implementation\<rparr>)"

definition ARM_UC_PAL_DeltaPaal_Initialize ::
    "delta_platform \<Rightarrow> bool \<Rightarrow> 'z delta_scheme \<Rightarrow> arm_uc_error_t \<times> 'z delta_scheme" where
  "ARM_UC_PAL_DeltaPaal_Initialize p handler s =
     (let s = s\<lparr>nextEventToPostToBsPatch := EBSAPI_START_PATCH_PROCESSING\<rparr>;
          (result, s) =
            (if paal_storage_implementation s \<and> handler
             then let (r, s) = storage_call p PAAL_Initialize (s\<lparr>pal_deltapaal_upstream_event_handler := True\<rparr>)
                  in (rcode r, s)
             else (ERR_INVALID_PARAMETER, s))
      in (result, ARM_BS_Init s))"

definition ARM_UC_PAL_DeltaPaal_GetCapabilities :: "u32" where
  "ARM_UC_PAL_DeltaPaal_GetCapabilities = 0xC8"

definition ARM_UC_PAL_DeltaPaal_GetMaxID :: "delta_platform \<Rightarrow> u32 \<Rightarrow> 'z delta_scheme \<Rightarrow> u32 \<times> 'z delta_scheme" where
  "ARM_UC_PAL_DeltaPaal_GetMaxID p STORAGE_LOCATIONS s =
     (if paal_storage_implementation s then let (r, s) = storage_call p PAAL_GetMaxID s in (rnum r, s)
      else (STORAGE_LOCATIONS, s))"

text \<open>What the hub knows about the delta is an argument.\<close>

definition ARM_UC_PAL_DeltaPaal_Prepare ::
    "delta_platform \<Rightarrow> u8 \<Rightarrow> u32 \<Rightarrow> u32 \<Rightarrow> arm_uc_firmware_details_t option \<Rightarrow> buf_addr option \<Rightarrow>
     'z delta_scheme \<Rightarrow> arm_uc_error_t \<times> 'z delta_scheme" where
  "ARM_UC_PAL_DeltaPaal_Prepare p hub_is_delta payload_size slot_id details buffer s =
     (case (details, buffer) of
        (Some d, Some b) \<Rightarrow>
          if paal_storage_implementation s then
            let s = (arm_uc_deltapaal_reset_internals s)\<lparr>delta_incoming := hub_is_delta\<rparr>;
                s = (if delta_incoming s \<noteq> 0 then ARM_BS_Init (s\<lparr>delta_patch_full_size := ucast payload_size\<rparr>)
                     else s\<lparr>delta_patch_full_size := fsize d\<rparr>);
                s = s\<lparr>nextEventToPostToBsPatch := EBSAPI_START_PATCH_PROCESSING\<rparr>;
                (r, s) = storage_call p (PAAL_Prepare slot_id d b) s
            in (rcode r, s)
          else (ERR_INVALID_PARAMETER, s)
      | _ \<Rightarrow> (ERR_INVALID_PARAMETER, s))"

definition ARM_UC_PAL_DeltaPaal_Write ::
    "delta_platform \<Rightarrow> u32 \<Rightarrow> u32 \<Rightarrow> arm_uc_buffer_t \<Rightarrow> 'z delta_scheme \<Rightarrow> (arm_uc_error_t \<times> 'z delta_scheme) option" where
  "ARM_UC_PAL_DeltaPaal_Write p slot_id offset buffer s = do {
     let s = s\<lparr>incoming_buf_ref := Some buffer, incoming_hub_buf_ref_offset := 0, current_slot_id := slot_id,
               delta_patch_full_offset := delta_patch_full_offset s + ucast (bsize buffer)\<rparr>;
     s \<leftarrow> (if offset = 0 then do {
             magic \<leftarrow> rd_block (ptr buffer) 0 FILE_MAGIC_LEN;
             Some (if magic = FILE_MAGIC then s\<lparr>update_payload_full := False\<rparr> else s)
           } else Some s);
     if \<not> update_payload_full s then
       let (ok, s) = delta_post Cb_arm_uc_deltapaal_write_async_callback Fn_ARM_UC_DeltaPaal_AsyncWrite_Handler
                       ARM_UC_PAAL_EVENT_WRITE_DONE s
       in Some (if ok then ERR_NONE else ERR_INVALID_PARAMETER, s)
     else if paal_storage_implementation s then
       let (r, s) = storage_call p (PAAL_Write slot_id offset (take (unat (bsize buffer)) (ptr buffer))) s
       in Some (rcode r, s)
     else Some (ERR_INVALID_PARAMETER, s)
   }"

definition ARM_UC_PAL_DeltaPaal_Finalize :: "delta_platform \<Rightarrow> u32 \<Rightarrow> 'z delta_scheme \<Rightarrow> arm_uc_error_t \<times> 'z delta_scheme" where
  "ARM_UC_PAL_DeltaPaal_Finalize p slot_id s =
     (let s = snd (ARM_BS_Free s) in
      if paal_storage_implementation s then let (r, s) = storage_call p (PAAL_Finalize slot_id) s in (rcode r, s)
      else (ERR_NONE, s))"

definition ARM_UC_PAL_DeltaPaal_Activate :: "delta_platform \<Rightarrow> u32 \<Rightarrow> 'z delta_scheme \<Rightarrow> arm_uc_error_t \<times> 'z delta_scheme" where
  "ARM_UC_PAL_DeltaPaal_Activate p slot_id s =
     (if paal_storage_implementation s then let (r, s) = storage_call p (PAAL_Activate slot_id) s in (rcode r, s)
      else (ERR_NONE, s))"

text \<open>\<open>Read\<close> gives what the storage below puts in the buffer.\<close>

definition ARM_UC_PAL_DeltaPaal_Read ::
    "delta_platform \<Rightarrow> u32 \<Rightarrow> u32 \<Rightarrow> (buf_addr \<times> u32) option \<Rightarrow> 'z delta_scheme \<Rightarrow>
     (arm_uc_error_t \<times> reply option) \<times> 'z delta_scheme" where
  "ARM_UC_PAL_DeltaPaal_Read p slot_id offset buffer s =
     (case buffer of
        Some (b, n) \<Rightarrow>
          if paal_storage_implementation s
          then let (r, s) = storage_call p (PAAL_Read slot_id offset b n) s in ((rcode r, Some r), s)
          else ((ERR_INVALID_PARAMETER, None), s)
      | None \<Rightarrow> ((ERR_INVALID_PARAMETER, None), s))"

definition delta_details :: "delta_platform \<Rightarrow> arm_uc_error_t \<Rightarrow> bool \<Rightarrow> ext_call \<Rightarrow> 'z delta_scheme \<Rightarrow>
    (arm_uc_error_t \<times> reply option) \<times> 'z delta_scheme" where
  "delta_details p otherwise details c s =
     (if paal_storage_implementation s \<and> details
      then let (r, s) = storage_call p c s in ((rcode r, Some r), s) else ((otherwise, None), s))"

definition ARM_UC_PAL_DeltaPaal_GetFirmwareDetails where
  "ARM_UC_PAL_DeltaPaal_GetFirmwareDetails p slot_id details s =
     delta_details p ERR_INVALID_PARAMETER details (PAAL_GetFirmwareDetails slot_id) s"

definition ARM_UC_PAL_DeltaPaal_GetActiveDetails where
  "ARM_UC_PAL_DeltaPaal_GetActiveDetails p details s = delta_details p ERR_NONE details PAAL_GetActiveFirmwareDetails s"

definition ARM_UC_PAL_DeltaPaal_GetInstallerDetails where
  "ARM_UC_PAL_DeltaPaal_GetInstallerDetails p details s = delta_details p ERR_NONE details PAAL_GetInstallerDetails s"

end
