(* ===== verification/UC_Delta_Client.thy ===== *)
theory UC_Delta_Client
  imports BsPatch_Segments UC_Delta_PAAL
begin

text \<open>
  The driver as the client of the patcher. Its view is the patch that is not read yet - in the
  buffer of the hub and in the fragments to come -, the position in the old image, and what has
  been written of the new one, to the storage or to the buffer for it. With this view the driver
  meets the laws of the patcher's clients.
\<close>

subsection \<open>The client of the patcher, seen by the patcher\<close>

text \<open>
  The rest of the patch is what is left of the buffer of the hub and the fragments that the hub has
  still to write. \<open>slot_image\<close> is what a slot holds after writes that follow one another.
\<close>

record delta_run = delta +
  future :: "arm_uc_buffer_t list"
  answered :: nat
  told :: nat

text \<open>How often the storage has been asked to write; \<open>answered\<close> of these writes are done.\<close>

definition write_count :: "ext_call list \<Rightarrow> nat" where
  "write_count cs = length (filter (\<lambda>c. case c of PAAL_Write _ _ _ \<Rightarrow> True | _ \<Rightarrow> False) cs)"

definition fragment_bytes :: "arm_uc_buffer_t \<Rightarrow> bytes" where
  "fragment_bytes b = take (unat (bsize b)) (ptr b)"

fun slot_image :: "u32 \<Rightarrow> ext_call list \<Rightarrow> bytes option" where
  "slot_image slot [] = Some []"
| "slot_image slot (PAAL_Prepare _ _ _ # cs) = Some []"
| "slot_image slot (PAAL_Write i offset bs # cs) =
     do { w \<leftarrow> slot_image slot cs; if i = slot \<and> offset = of_nat (length w) then Some (w @ bs) else None }"
| "slot_image slot (_ # cs) = slot_image slot cs"

definition incoming_ok :: "'z delta_scheme \<Rightarrow> bool" where
  "incoming_ok s \<longleftrightarrow> (\<exists>b. incoming_buf_ref s = Some b \<and> incoming_hub_buf_ref_offset s \<le> bsize b \<and> buf_ok b)"

definition unread :: "delta_run \<Rightarrow> bytes" where
  "unread s = drop (unat (incoming_hub_buf_ref_offset s)) (fragment_bytes (the (incoming_buf_ref s))) @
     concat (map fragment_bytes (future s))"

definition outgoing_ok :: "nat \<Rightarrow> 'z delta_scheme \<Rightarrow> bool" where
  "outgoing_ok L s \<longleftrightarrow> (let b = outgoing_new_buffer s in
     bsize b < size_max b \<and> length (ptr b) = unat (size_max b) \<and> L \<le> unat (size_max b) \<and>
     bspatch_write_new_buffer_remaining s = 0 \<and>
     slot_image (current_slot_id s) (storage_calls s) \<noteq> None \<and>
     bspatch_new_offset s = of_nat (length (the (slot_image (current_slot_id s) (storage_calls s)))))"

definition written :: "'z delta_scheme \<Rightarrow> bytes" where
  "written s = the (slot_image (current_slot_id s) (storage_calls s)) @ fragment_bytes (outgoing_new_buffer s)"

text \<open>A read is never longer than a fragment, the last fragment apart.\<close>

definition fragments_ok :: "nat \<Rightarrow> arm_uc_buffer_t list \<Rightarrow> bool" where
  "fragments_ok L fs \<longleftrightarrow> (\<forall>f \<in> set fs. buf_ok f \<and> 0 < bsize f) \<and> (\<forall>f \<in> set (butlast fs). L \<le> unat (bsize f))"

definition delta_view :: "nat \<Rightarrow> delta_run \<Rightarrow> (bytes \<times> int \<times> bytes) option" where
  "delta_view L s =
     (if incoming_ok s \<and> outgoing_ok L s \<and> fragments_ok L (future s) \<and> write_count (storage_calls s) = answered s
      then Some (unread s, sint (bspatch_seek_diff s), written s) else None)"

lemma delta_fields:
  assumes "bspatch_stream.more u = bspatch_stream.more (s :: 'z delta_scheme)"
  shows "delta_sched u = delta_sched s" "storage_calls u = storage_calls s" "upstream_events u = upstream_events s"
    "paal_storage_implementation u = paal_storage_implementation s"
    "pal_deltapaal_upstream_event_handler u = pal_deltapaal_upstream_event_handler s"
    "bspatch_seek_diff u = bspatch_seek_diff s" "bspatch_new_offset u = bspatch_new_offset s"
    "incoming_hub_buf_ref_offset u = incoming_hub_buf_ref_offset s"
    "bspatch_read_patch_buffer_ptr u = bspatch_read_patch_buffer_ptr s"
    "bspatch_read_patch_buffer_length u = bspatch_read_patch_buffer_length s"
    "bspatch_read_patch_buffer_remaining u = bspatch_read_patch_buffer_remaining s"
    "bspatch_write_new_buffer_ptr u = bspatch_write_new_buffer_ptr s"
    "bspatch_write_patch_buffer_length u = bspatch_write_patch_buffer_length s"
    "bspatch_write_new_buffer_remaining u = bspatch_write_new_buffer_remaining s"
    "incoming_buf_ref u = incoming_buf_ref s" "nextEventToPostToBsPatch u = nextEventToPostToBsPatch s"
    "current_slot_id u = current_slot_id s" "delta_patch_full_size u = delta_patch_full_size s"
    "delta_patch_full_offset u = delta_patch_full_offset s" "delta_incoming u = delta_incoming s"
    "update_payload_full u = update_payload_full s" "outgoing_new_buffer u = outgoing_new_buffer s"
    "delta.more u = delta.more s"
  using assms by (cases u, cases s, simp)+

lemma run_fields:
  assumes "bspatch_stream.more u = bspatch_stream.more (s :: delta_run)"
  shows "future u = future s" "answered u = answered s" "told u = told s"
  using assms by (cases u, cases s, simp)+

subsection \<open>Parts of a block\<close>

lemma wr_block_append:
  assumes "wr_block m i (xs @ ys) = Some m'"
  shows "\<exists>m1. wr_block m i xs = Some m1 \<and> wr_block m1 (i + length xs) ys = Some m'"
proof -
  have l: "i + length xs + length ys \<le> length m" and m': "m' = take i m @ (xs @ ys) @ drop (i + length (xs @ ys)) m"
    using assms by (auto simp: wr_block_def split: if_splits)
  let ?m1 = "take i m @ xs @ drop (i + length xs) m"
  have "wr_block m i xs = Some ?m1" using l by (simp add: wr_block_def)
  moreover have "wr_block ?m1 (i + length xs) ys = Some m'"
    using l by (cases "xs = []") (auto simp: wr_block_def m' min_def add.commute add.left_commute neq_Nil_conv)
  ultimately show ?thesis by blast
qed

lemma store_append:
  assumes "bs_store b i (xs @ ys) s = Some t"
  shows "\<exists>u. bs_store b i xs s = Some u \<and> bs_store b (i + length xs) ys u = Some t"
proof (cases b)
  case Bs_header
  then show ?thesis using assms wr_block_append[of "bs_header s" i xs ys] by (auto simp: bs_store_def)
next
  case (Bs_at p)
  then show ?thesis using assms wr_block_append[of "bsMemoryBuffer s" "unat (p - bs_address s) + i" xs ys]
    by (auto simp: bs_store_def add.assoc)
qed

text \<open>A store changes the memory and the header, and depends on nothing else.\<close>

lemma store_shape:
  assumes "bs_store b i bs s = Some t"
  obtains m h where "t = s\<lparr>bsMemoryBuffer := m, bs_header := h\<rparr>"
    and "\<And>u. view u = view s \<Longrightarrow> bs_address u = bs_address s \<Longrightarrow> bs_store b i bs u = Some (u\<lparr>bsMemoryBuffer := m, bs_header := h\<rparr>)"
proof (cases b)
  case Bs_header
  then obtain h where "wr_block (bs_header s) i bs = Some h" "t = s\<lparr>bs_header := h\<rparr>"
    using assms by (auto simp: bs_store_def)
  then show ?thesis using Bs_header by (intro that[where m = "bsMemoryBuffer s" and h = h]) (auto simp: bs_store_def view_def)
next
  case (Bs_at p)
  then obtain m where "wr_block (bsMemoryBuffer s) (unat (p - bs_address s) + i) bs = Some m" "t = s\<lparr>bsMemoryBuffer := m\<rparr>"
    using assms by (auto simp: bs_store_def)
  then show ?thesis using Bs_at by (intro that[where m = m and h = "bs_header s"]) (auto simp: bs_store_def view_def)
qed

subsection \<open>Answers that come later\<close>

text \<open>
  Between an answer and the event, the storage tells that a write is done, the hub writes its next
  fragment, and the queue, the events and the counters of the client change.
\<close>

definition next_fragment :: "delta_run \<Rightarrow> delta_run" where
  "next_fragment s = s\<lparr>incoming_buf_ref := Some (hd (future s)), incoming_hub_buf_ref_offset := 0, future := tl (future s)\<rparr>"

definition counters :: "(delta_cb, delta_fn) sched \<Rightarrow> u32 list \<Rightarrow> u64 \<Rightarrow> nat \<Rightarrow> delta_run \<Rightarrow> delta_run" where
  "counters q es n k s = s\<lparr>delta_sched := q, upstream_events := es, delta_patch_full_offset := n, told := k\<rparr>"

definition all_written :: "delta_run \<Rightarrow> bool" where
  "all_written s \<longleftrightarrow> bspatch_write_new_buffer_remaining s = 0 \<and>
     bsize (outgoing_new_buffer s) < size_max (outgoing_new_buffer s) \<and> write_count (storage_calls s) = answered s"

definition write_answered :: "delta_platform \<Rightarrow> delta_run \<Rightarrow> delta_run \<Rightarrow> bool" where
  "write_answered p u w \<longleftrightarrow> incoming u \<noteq> None \<and> write_count (storage_calls u) = answered u + 1 \<and>
     outgoing_written p (u\<lparr>answered := answered u + 1\<rparr>) = Some (False, w)"

definition delta_later :: "delta_platform \<Rightarrow> delta_run \<Rightarrow> delta_run \<Rightarrow> bool" where
  "delta_later p u v \<longleftrightarrow> (\<exists>q es n k w. v = counters q es n k w \<and>
     (if nextEventToPostToBsPatch u = EBSAPI_READ_PATCH_DONE
      then future u \<noteq> [] \<and> incoming u = Some 0 \<and> all_written u \<and> finish_patch_read (next_fragment u) = Some (ERR_NONE, w)
      else nextEventToPostToBsPatch u = EBSAPI_WRITE_NEW_DONE \<and>
        (write_answered p u w \<or> (\<exists>w'. write_answered p u w' \<and> incoming w' = Some 0 \<and> future w' \<noteq> [] \<and> w = next_fragment w'))))"

lemma later_read:
  "\<lbrakk>nextEventToPostToBsPatch u = EBSAPI_READ_PATCH_DONE; future u \<noteq> []; incoming u = Some 0; all_written u;
     finish_patch_read (next_fragment u) = Some (ERR_NONE, w)\<rbrakk> \<Longrightarrow> delta_later p u (counters q es n k w)"
  unfolding delta_later_def
  by (rule exI[of _ q], rule exI[of _ es], rule exI[of _ n], rule exI[of _ k], rule exI[of _ w]) auto

lemma later_write:
  "\<lbrakk>nextEventToPostToBsPatch u = EBSAPI_WRITE_NEW_DONE; write_answered p u w\<rbrakk> \<Longrightarrow> delta_later p u (counters q es n k w)"
  unfolding delta_later_def
  by (rule exI[of _ q], rule exI[of _ es], rule exI[of _ n], rule exI[of _ k], rule exI[of _ w]) auto

lemma later_write_next:
  "\<lbrakk>nextEventToPostToBsPatch u = EBSAPI_WRITE_NEW_DONE; write_answered p u w; incoming w = Some 0; future w \<noteq> []\<rbrakk> \<Longrightarrow>
     delta_later p u (counters q es n k (next_fragment w))"
  unfolding delta_later_def
  by (rule exI[of _ q], rule exI[of _ es], rule exI[of _ n], rule exI[of _ k], rule exI[of _ "next_fragment w"]) auto

lemma counters_view [simp]:
  "delta_view L (counters q es n k s) = delta_view L s" "regs (counters q es n k s) = regs s"
  "control (counters q es n k s) = control s" "view (counters q es n k s) = view s"
  by (auto simp: counters_def delta_view_def incoming_ok_def outgoing_ok_def unread_def written_def regs_def control_def view_def)

lemma next_fragment_stream [simp]:
  "regs (next_fragment s) = regs s" "control (next_fragment s) = control s" "view (next_fragment s) = view s"
  by (simp_all add: next_fragment_def regs_def control_def view_def)

lemma fragment_bytes_length: "buf_ok b \<Longrightarrow> length (fragment_bytes b) = unat (bsize b)"
  by (simp add: fragment_bytes_def buf_ok_def word_le_nat_alt)

text \<open>What is left of the buffer of the hub.\<close>

lemma incoming_left:
  assumes "incoming_buf_ref s = Some b" and "incoming_hub_buf_ref_offset s \<le> bsize b"
  shows "incoming s = Some (bsize b - incoming_hub_buf_ref_offset s)"
    and "unat (bsize b - incoming_hub_buf_ref_offset s) = unat (bsize b) - unat (incoming_hub_buf_ref_offset s)"
  using assms by (simp_all add: incoming_def unat_sub)

lemma unread_next:
  assumes "delta_view L s = Some (r, p, w)" and "incoming s = Some 0" and "future s \<noteq> []"
  shows "delta_view L (next_fragment s) = Some (r, p, w)"
proof -
  have ok: "incoming_ok s" "outgoing_ok L s" "fragments_ok L (future s)" "write_count (storage_calls s) = answered s" and r: "r = unread s" "p = sint (bspatch_seek_diff s)" "w = written s"
    using assms(1) by (simp_all add: delta_view_def split: if_splits)
  obtain b where b: "incoming_buf_ref s = Some b" "incoming_hub_buf_ref_offset s \<le> bsize b" "buf_ok b"
    using ok(1) by (auto simp: incoming_ok_def)
  obtain f fs where f: "future s = f # fs" using assms(3) by (cases "future s") auto
  have "bsize b = incoming_hub_buf_ref_offset s" using incoming_left(1)[OF b(1,2)] assms(2) by simp
  then have "unread s = concat (map fragment_bytes (future s))"
    using fragment_bytes_length[OF b(3)] by (simp add: unread_def b(1))
  then have "unread (next_fragment s) = r" by (simp add: unread_def next_fragment_def f r(1))
  moreover have "fragments_ok L fs" "buf_ok f" using ok(3) by (auto simp: fragments_ok_def f split: if_splits)
  ultimately show ?thesis using ok(2,4) r
    by (simp add: delta_view_def next_fragment_def incoming_ok_def outgoing_ok_def written_def f)
qed

subsection \<open>Reading the patch\<close>

text \<open>The view is as it was but for the rest of the patch.\<close>

lemma delta_view_read:
  assumes "delta_view L s = Some (r', p, w)" and "incoming_buf_ref t = Some b" and "incoming_hub_buf_ref_offset t \<le> bsize b" and "buf_ok b"
    and "fragments_ok L (future t)" and "unread t = r"
    and "outgoing_new_buffer t = outgoing_new_buffer s" and "storage_calls t = storage_calls s" and "current_slot_id t = current_slot_id s"
    and "bspatch_write_new_buffer_remaining t = bspatch_write_new_buffer_remaining s" and "bspatch_new_offset t = bspatch_new_offset s"
    and "bspatch_seek_diff t = bspatch_seek_diff s" and "answered t = answered s"
  shows "delta_view L t = Some (r, p, w)"
  using assms by (simp add: delta_view_def incoming_ok_def outgoing_ok_def written_def split: if_splits)

lemma long_enough:
  assumes "fragments_ok L (f # fs)" and "concat (map fragment_bytes (f # fs)) = ys @ r" and "length ys \<le> L"
  shows "length ys \<le> unat (bsize f)" and "take (length ys) (fragment_bytes f) = ys" and "buf_ok f" and "fragments_ok L fs"
    and "drop (length ys) (fragment_bytes f) @ concat (map fragment_bytes fs) = r"
proof -
  show f: "buf_ok f" "fragments_ok L fs" using assms(1) by (auto simp: fragments_ok_def split: if_splits)
  have l: "length (fragment_bytes f) = unat (bsize f)" using f(1) by (rule fragment_bytes_length)
  show n: "length ys \<le> unat (bsize f)"
  proof (cases "fs = []")
    case True
    then have "length (fragment_bytes f) = length (ys @ r)" using assms(2) by simp
    then show ?thesis using l by simp
  next
    case False
    then show ?thesis using assms(1,3) by (simp add: fragments_ok_def)
  qed
  have e: "fragment_bytes f @ concat (map fragment_bytes fs) = ys @ r" using assms(2) by simp
  show t: "take (length ys) (fragment_bytes f) = ys" using arg_cong[OF e, of "take (length ys)"] n l by simp
  show "drop (length ys) (fragment_bytes f) @ concat (map fragment_bytes fs) = r"
    using arg_cong[OF e, of "drop (length ys)"] n l by simp
qed

lemma read_fragment: "buf_ok f \<Longrightarrow> i + n \<le> unat (bsize f) \<Longrightarrow> rd_block (ptr f) i n = Some (take n (drop i (fragment_bytes f)))"
  by (simp add: rd_block_def fragment_bytes_def buf_ok_def word_le_nat_alt drop_take min_def)

lemma ucast_32: "unat (n :: u64) < 2 ^ 32 \<Longrightarrow> unat (ucast n :: u32) = unat n"
  by (simp add: unsigned_ucast_eq take_bit_nat_eq_self_iff)

lemma unat_32: "unat (a :: u32) < 2 ^ 32"
  using unsigned_less[of a, where 'a = nat] by simp

lemma ucast_64: "unat (ucast (a :: u32) :: u64) = unat a"
  using unsigned_less[of a, where 'a = nat] by (simp add: unsigned_ucast_eq take_bit_nat_eq_self_iff)

lemma ucast_round: "ucast (ucast (a :: u32) :: u64) = a"
proof -
  have "unat (ucast a :: u64) < 2 ^ 32" by (simp only: ucast_64 unat_32)
  then show ?thesis by (simp only: word_unat_eq_iff ucast_32 ucast_64)
qed

text \<open>What \<open>finish_patch_read\<close> does with the next fragment.\<close>

lemma read_finished:
  assumes "future u = f # fs" and "buf_ok f" and "length ys \<le> unat (bsize f)" and "take (length ys) (fragment_bytes f) = ys"
    and "0 < length ys" and "bspatch_read_patch_buffer_ptr u = Some b" and "unat (bspatch_read_patch_buffer_remaining u) = length ys"
    and "unat (bspatch_read_patch_buffer_length u) = i + length ys" and "i + length ys < 2 ^ 32"
    and st: "\<And>v :: delta_run. view v = view u \<Longrightarrow> bs_address v = bs_address u \<Longrightarrow> bs_store b i ys v = Some (v\<lparr>bsMemoryBuffer := m, bs_header := h\<rparr>)"
  shows "finish_patch_read (next_fragment u) = Some (ERR_NONE, (next_fragment u)\<lparr>bsMemoryBuffer := m, bs_header := h,
    incoming_hub_buf_ref_offset := of_nat (length ys), bspatch_read_patch_buffer_remaining := 0\<rparr>)"
proof -
  let ?r = "bspatch_read_patch_buffer_remaining u" and ?l = "bspatch_read_patch_buffer_length u"
  have "unat (?l - ?r) = i" using assms(7,8) by (simp add: unat_sub word_le_nat_alt)
  then have i: "unat (ucast (?l - ?r) :: u32) = i" using assms(9) by (subst ucast_32) simp_all
  have r: "0 < ?r" "?r \<le> ucast (bsize f)" using assms(3,5,7) by (simp_all add: word_less_nat_alt word_le_nat_alt ucast_64)
  have "unat ?r < 2 ^ 32" using assms(7,9) by simp
  then have c: "(ucast ?r :: u32) = of_nat (length ys)" using assms(7,9) unat_below[of "length ys"] by (simp only: word_unat_eq_iff ucast_32)
  have rd: "rd_block (ptr f) 0 (unat ?r) = Some ys" using read_fragment[OF assms(2), of 0 "length ys"] assms(3,4,7) by simp
  have st': "bs_store b i ys (next_fragment u) = Some ((next_fragment u)\<lparr>bsMemoryBuffer := m, bs_header := h\<rparr>)"
    by (rule st) (simp_all add: next_fragment_def view_def)
  have fl: "incoming_buf_ref (next_fragment u) = Some f" "bspatch_read_patch_buffer_remaining (next_fragment u) = ?r"
    "bspatch_read_patch_buffer_length (next_fragment u) = ?l" "bspatch_read_patch_buffer_ptr (next_fragment u) = Some b"
    "incoming_hub_buf_ref_offset (next_fragment u) = 0"
    using assms(1,6) by (simp_all add: next_fragment_def)
  show ?thesis using r by (simp add: finish_patch_read_def fl i c rd st' Let_def)
qed

lemma delta_reads_now:
  assumes view: "delta_view L s = Some (bs @ r, p, w)" and n: "unat n = length bs" and st: "bs_store b 0 bs s = Some t"
    and B: "incoming_buf_ref s = Some B" "incoming_hub_buf_ref_offset s \<le> bsize B" "buf_ok B"
    and len: "length bs \<le> unat (bsize B) - unat (incoming_hub_buf_ref_offset s)"
  shows "\<exists>u. arm_uc_deltapaal_patch_read b n s = Some (0, u) \<and> regs u = regs t \<and> control u = control t \<and> view u = view t \<and>
    delta_view L u = Some (r, p, w)"
proof -
  let ?o = "incoming_hub_buf_ref_offset s"
  let ?s = "s\<lparr>bspatch_read_patch_buffer_ptr := Some b, bspatch_read_patch_buffer_length := n, bspatch_read_patch_buffer_remaining := n\<rparr>"
  obtain m h where t: "t = s\<lparr>bsMemoryBuffer := m, bs_header := h\<rparr>" and sh: "\<And>u :: delta_run. view u = view s \<Longrightarrow>
      bs_address u = bs_address s \<Longrightarrow> bs_store b 0 bs u = Some (u\<lparr>bsMemoryBuffer := m, bs_header := h\<rparr>)"
    using store_shape[OF st] by blast
  have s: "bs_store b 0 bs ?s = Some (?s\<lparr>bsMemoryBuffer := m, bs_header := h\<rparr>)" by (rule sh) (simp_all add: view_def)
  have a: "incoming ?s = Some (bsize B - ?o)" "unat (bsize B - ?o) = unat (bsize B) - unat ?o"
    using incoming_left[of ?s B] B by simp_all
  have oo: "unat ?o \<le> unat (bsize B)" using B(2) by (simp add: word_le_nat_alt)
  have all: "\<not> ucast (bsize B - ?o) < n" using len n by (simp add: word_less_nat_alt ucast_64 a(2))
  have r: "drop (unat ?o) (fragment_bytes B) @ concat (map fragment_bytes (future s)) = bs @ r"
    using view B(1) by (simp add: delta_view_def unread_def split: if_splits)
  have l: "length (drop (unat ?o) (fragment_bytes B)) = unat (bsize B) - unat ?o" using fragment_bytes_length[OF B(3)] by simp
  have bs: "take (length bs) (drop (unat ?o) (fragment_bytes B)) = bs" using arg_cong[OF r, of "take (length bs)"] len l by simp
  have rd: "rd_block (ptr B) (unat ?o) (unat n) = Some bs" using read_fragment[OF B(3), of "unat ?o" "length bs"] n bs len oo by simp
  let ?u = "?s\<lparr>bsMemoryBuffer := m, bs_header := h, bspatch_read_patch_buffer_remaining := 0,
    incoming_hub_buf_ref_offset := ?o + ucast n, nextEventToPostToBsPatch := EBSAPI_READ_PATCH_DONE\<rparr>"
  have "arm_uc_deltapaal_patch_read b n s = Some (0, ?u)"
    using all a(1) rd s B(1) by (simp add: arm_uc_deltapaal_patch_read_def Let_def)
  moreover have "delta_view L ?u = Some (r, p, w)"
  proof (rule delta_view_read[OF view])
    have "unat n < 2 ^ 32" using n len unsigned_less[of "bsize B", where 'a = nat] by simp
    then have "unat (ucast n :: u32) = length bs" using n by (simp only: ucast_32)
    moreover have "unat ?o + length bs < 2 ^ 32"
      using len oo unat_32[of "bsize B"] by linarith
    ultimately have off: "unat (?o + ucast n) = unat ?o + length bs" by (simp add: unat_plus_if_size word_size)
    then show "incoming_hub_buf_ref_offset ?u \<le> bsize B" using len oo by (simp add: word_le_nat_alt)
    show "unread ?u = r" using arg_cong[OF r, of "drop (length bs)"] len l B(1)
      by (simp add: unread_def off add.commute)
    show "fragments_ok L (future ?u)" using view by (simp add: delta_view_def split: if_splits)
  qed (use B in simp_all)
  ultimately show ?thesis by (intro exI[of _ ?u]) (simp add: t regs_def control_def view_def)
qed

lemma delta_reads_later:
  assumes view: "delta_view L s = Some (bs @ r, p, w)" and n: "unat n = length bs" and st: "bs_store b 0 bs s = Some t"
    and B: "incoming_buf_ref s = Some B" "incoming_hub_buf_ref_offset s \<le> bsize B" "buf_ok B"
    and len: "unat (bsize B) - unat (incoming_hub_buf_ref_offset s) < length bs" and L: "length bs \<le> L"
  shows "\<exists>u. arm_uc_deltapaal_patch_read b n s = Some (EBSAPI_OPERATION_PATCH_READ_WILL_COMPLETE_LATER, u) \<and>
    regs u = regs t \<and> control u = control t \<and>
    (\<forall>v. view v = view u \<and> bs_address v = bs_address u \<and> bspatch_stream.more v = bspatch_stream.more u \<longrightarrow>
      (\<exists>v'. delta_later P v v') \<and>
      (\<forall>v'. delta_later P v v' \<longrightarrow>
        regs v' = regs v \<and> control v' = control v \<and> view v' = view t \<and> delta_view L v' = Some (r, p, w)))"
proof -
  let ?o = "incoming_hub_buf_ref_offset s" and ?a = "unat (bsize B) - unat (incoming_hub_buf_ref_offset s)"
  let ?s = "s\<lparr>bspatch_read_patch_buffer_ptr := Some b, bspatch_read_patch_buffer_length := n, bspatch_read_patch_buffer_remaining := n\<rparr>"
  let ?xs = "drop (unat ?o) (fragment_bytes B)" and ?ys = "drop ?a bs"
  have ok: "fragments_ok L (future s)" "L \<le> unat (size_max (outgoing_new_buffer s))"
    using view by (simp_all add: delta_view_def outgoing_ok_def Let_def split: if_splits)
  have n32: "length bs < 2 ^ 32" using ok(2) L unat_32[of "size_max (outgoing_new_buffer s)"] by linarith
  have r: "?xs @ concat (map fragment_bytes (future s)) = bs @ r"
    using view B(1) by (simp add: delta_view_def unread_def split: if_splits)
  have xl: "length ?xs = ?a" using fragment_bytes_length[OF B(3)] by simp
  have xs: "take ?a bs = ?xs" using arg_cong[OF r, of "take ?a"] len xl by simp
  have ys: "concat (map fragment_bytes (future s)) = ?ys @ r" using arg_cong[OF r, of "drop ?a"] len xl by simp
  have yl: "0 < length ?ys" "length ?ys \<le> L" "?a + length ?ys = length bs" using len L by simp_all
  then have "future s \<noteq> []" using ys by auto
  then obtain f fs where f: "future s = f # fs" by (cases "future s") auto
  note F = long_enough[OF ok(1)[unfolded f] ys[unfolded f] yl(2)]
  have "bs_store b 0 (?xs @ ?ys) s = Some t" using st by (simp add: xs[symmetric])
  then obtain t1 where t1: "bs_store b 0 ?xs s = Some t1" "bs_store b ?a ?ys t1 = Some t" using store_append[of b 0] xl by force
  obtain m h where m: "t1 = s\<lparr>bsMemoryBuffer := m, bs_header := h\<rparr>" and sh: "\<And>u :: delta_run. view u = view s \<Longrightarrow>
      bs_address u = bs_address s \<Longrightarrow> bs_store b 0 ?xs u = Some (u\<lparr>bsMemoryBuffer := m, bs_header := h\<rparr>)"
    using store_shape[OF t1(1)] by blast
  obtain m' h' where m': "t = t1\<lparr>bsMemoryBuffer := m', bs_header := h'\<rparr>" and sh': "\<And>u :: delta_run. view u = view t1 \<Longrightarrow>
      bs_address u = bs_address t1 \<Longrightarrow> bs_store b ?a ?ys u = Some (u\<lparr>bsMemoryBuffer := m', bs_header := h'\<rparr>)"
    using store_shape[OF t1(2)] by blast
  have s: "bs_store b 0 ?xs ?s = Some (?s\<lparr>bsMemoryBuffer := m, bs_header := h\<rparr>)" by (rule sh) (simp_all add: view_def)
  have a: "incoming ?s = Some (bsize B - ?o)" "unat (bsize B - ?o) = ?a" using incoming_left[of ?s B] B by simp_all
  have ol: "unat ?o \<le> unat (bsize B)" using B(2) by (simp add: word_le_nat_alt)
  have part: "ucast (bsize B - ?o) < n" using len n by (simp add: word_less_nat_alt ucast_64 a(2))
  have rd: "rd_block (ptr B) (unat ?o) (unat (ucast (bsize B - ?o) :: u64)) = Some ?xs"
    using read_fragment[OF B(3), of "unat ?o" ?a] ol xl by (simp add: ucast_64 a(2))
  let ?rem = "n - ucast (bsize B - ?o) :: u64"
  have rem: "unat ?rem = length ?ys" using part n a(2) by (simp add: unat_sub word_le_nat_alt word_less_nat_alt ucast_64)
  let ?u = "?s\<lparr>bsMemoryBuffer := m, bs_header := h, bspatch_read_patch_buffer_remaining := ?rem,
    incoming_hub_buf_ref_offset := ?o + ucast (ucast (bsize B - ?o) :: u64), nextEventToPostToBsPatch := EBSAPI_READ_PATCH_DONE\<rparr>"
  have res: "arm_uc_deltapaal_patch_read b n s = Some (EBSAPI_OPERATION_PATCH_READ_WILL_COMPLETE_LATER, ?u)"
    using part a(1) rd s B(1) by (simp add: arm_uc_deltapaal_patch_read_def Let_def)
  have later: "(\<exists>v'. delta_later P v v') \<and> (\<forall>v'. delta_later P v v' \<longrightarrow>
      regs v' = regs v \<and> control v' = control v \<and> view v' = view t \<and> delta_view L v' = Some (r, p, w))"
    if v: "view v = view ?u" "bs_address v = bs_address ?u" "bspatch_stream.more v = bspatch_stream.more ?u" for v
  proof (intro conjI allI impI)
    have fl: "future v = f # fs" "nextEventToPostToBsPatch v = EBSAPI_READ_PATCH_DONE" "bspatch_read_patch_buffer_ptr v = Some b"
      "bspatch_read_patch_buffer_remaining v = ?rem" "bspatch_read_patch_buffer_length v = n"
      using f by (simp_all only: run_fields[OF v(3)] delta_fields[OF v(3)]) simp_all
    let ?w = "(next_fragment v)\<lparr>bsMemoryBuffer := m', bs_header := h', incoming_hub_buf_ref_offset := of_nat (length ?ys),
      bspatch_read_patch_buffer_remaining := 0\<rparr>"
    have vt: "view v = view t1" "bs_address v = bs_address t1" using v(1,2) by (simp_all add: m view_def)
    have fin: "finish_patch_read (next_fragment v) = Some (ERR_NONE, ?w)"
    proof (rule read_finished[OF fl(1) F(3,1,2) yl(1) fl(3)])
      show "unat (bspatch_read_patch_buffer_remaining v) = length ?ys" by (simp only: fl(4) rem)
      show "unat (bspatch_read_patch_buffer_length v) = ?a + length ?ys" by (simp only: fl(5) n yl(3))
      show "?a + length ?ys < 2 ^ 32" by (simp only: yl(3) n32)
      fix x :: delta_run
      assume "view x = view v" "bs_address x = bs_address v"
      then show "bs_store b ?a ?ys x = Some (x\<lparr>bsMemoryBuffer := m', bs_header := h'\<rparr>)" using vt by (intro sh') simp_all
    qed
    have aw: "all_written v" "incoming v = Some 0"
    proof -
      obtain st where "bspatch_write_new_buffer_remaining s = 0"
        using view by (auto simp: delta_view_def outgoing_ok_def Let_def split: if_splits)
      then show "all_written v" using view
        by (simp add: all_written_def delta_fields[OF v(3)] run_fields[OF v(3)] delta_view_def outgoing_ok_def Let_def split: if_splits)
      have "(ucast (ucast (bsize B - ?o) :: u64) :: u32) = bsize B - ?o" by (rule ucast_round)
      then show "incoming v = Some 0" using B(1) by (simp add: incoming_def delta_fields[OF v(3)])
    qed
    show "\<exists>v'. delta_later P v v'"
    proof (rule exI)
      have "future v \<noteq> []" using fl(1) by simp
      then show "delta_later P v (counters (delta_sched v) [] 0 0 ?w)" by (rule later_read[OF fl(2) _ aw(2,1) fin])
    qed
    fix v'
    assume later: "delta_later P v v'"
    obtain q es k e where v': "v' = counters q es k e ?w" using later fin fl(1,2) by (auto simp: delta_later_def)
    have "delta_view L ?w = Some (r, p, w)"
    proof (rule delta_view_read[OF view])
      have c: "unat (of_nat (length ?ys) :: u32) = length ?ys" using yl(3) n32 by (intro unat_below) simp
      show "incoming_hub_buf_ref_offset ?w \<le> bsize f" using F(1) by (simp add: word_le_nat_alt c[simplified])
      show "unread ?w = r" using F(5) c by (simp add: unread_def next_fragment_def fl(1))
      show "fragments_ok L (future ?w)" using F(4) by (simp add: next_fragment_def fl(1))
    qed (simp_all add: next_fragment_def fl(1) F(3) delta_fields[OF v(3)] run_fields[OF v(3)])
    then show "delta_view L v' = Some (r, p, w)" by (simp only: v' counters_view)
    show "regs v' = regs v" "control v' = control v" by (simp_all add: v') (simp_all add: next_fragment_def regs_def control_def)
    show "view v' = view t" by (simp add: v' m' m) (simp add: view_def)
  qed
  have rc: "regs ?u = regs t" "control ?u = control t" by (simp_all add: m' m regs_def control_def)
  show ?thesis by (intro exI[of _ ?u] conjI, fact res, fact rc(1), fact rc(2), intro allI impI, elim conjE, rule later)
qed

subsection \<open>Reading the old image\<close>

definition reads_image :: "delta_platform \<Rightarrow> bytes \<Rightarrow> bool" where
  "reads_image P old \<longleftrightarrow> length old < 2 ^ 32 \<and> (\<forall>n off. unat off + unat n \<le> length old \<longrightarrow>
     original_reader P n off = Some (take (unat n) (drop (unat off) old)))"

definition storage_accepts :: "delta_platform \<Rightarrow> bool" where
  "storage_accepts P \<longleftrightarrow> (\<forall>cs. rcode (storage P cs) = ERR_NONE)"

lemma sint_unat: "0 \<le> sint (x :: u64) \<Longrightarrow> unat x = nat (sint x)"
proof -
  assume "0 \<le> sint x"
  then have "uint x = sint x" by (simp add: uint_sint[of x] take_bit_int_eq_self_iff) (use sint_lt[of x] in simp)
  then show "unat x = nat (sint x)" by (metis unat_eq_nat_uint)
qed

lemma sint_add:
  assumes "\<bar>sint (a :: u64) + sint b\<bar> < 2 ^ 62"
  shows "sint (a + b) = sint a + sint b"
proof -
  have "a + b = of_int (sint a + sint b)" by simp
  then show ?thesis using jump_word[OF assms] by (simp only:)
qed

lemma delta_reads_old:
  assumes view: "delta_view L s = Some (r, p, w)" and p: "0 \<le> p" "nat p + unat n \<le> length old"
    and st: "bs_store b 0 (take (unat n) (drop (nat p) old)) s = Some t" and old: "reads_image P old"
  shows "\<exists>u. arm_uc_deltapaal_original_read P b n s = Some (0, u) \<and> regs u = regs t \<and> control u = control t \<and> view u = view t \<and>
    delta_view L u = Some (r, p + int (unat n), w)"
proof -
  have sk: "sint (bspatch_seek_diff s) = p" using view by (simp add: delta_view_def split: if_splits)
  have len: "length old < 2 ^ 32" using old by (simp add: reads_image_def)
  have pos: "unat (bspatch_seek_diff s) = nat p" using sint_unat[of "bspatch_seek_diff s"] sk p(1) by simp
  then have u: "unat (ucast (bspatch_seek_diff s) :: u32) = nat p" using p(2) len by (subst ucast_32) simp_all
  then have rd: "original_reader P n (ucast (bspatch_seek_diff s)) = Some (take (unat n) (drop (nat p) old))"
    using old p(2) by (simp add: reads_image_def)
  have n: "sint n = int (unat n)" using p(2) len by (intro sint_below) simp
  have "nat p + unat n < 2 ^ 32" using p(2) len by linarith
  then have sk': "sint (bspatch_seek_diff s + n) = p + int (unat n)" proof -
    assume "nat p + unat n < 2 ^ 32"
    then have "int (nat p + unat n) < int (2 ^ 32)" by (simp only: of_nat_less_iff)
    moreover have "int (2 ^ 32) < (2 :: int) ^ 62" by simp
    ultimately have l: "int (nat p + unat n) < 2 ^ 62" by (rule order.strict_trans)
    have e: "p + int (unat n) = int (nat p + unat n)" using p(1) by simp
    have "\<bar>sint (bspatch_seek_diff s) + sint n\<bar> < 2 ^ 62"
      unfolding sk n e abs_of_nat by (fact l)
    then show ?thesis by (simp only: sint_add sk n)
  qed
  obtain m h where t: "t = s\<lparr>bsMemoryBuffer := m, bs_header := h\<rparr>" using store_shape[OF st] by blast
  let ?u = "t\<lparr>bspatch_seek_diff := bspatch_seek_diff t + n\<rparr>"
  have "arm_uc_deltapaal_original_read P b n s = Some (0, ?u)" by (simp add: arm_uc_deltapaal_original_read_def rd st)
  moreover have "regs ?u = regs t" "control ?u = control t" "view ?u = view t"
    by (simp_all add: regs_def control_def view_def)
  moreover have "delta_view L ?u = Some (r, p + int (unat n), w)"
    using view sk' unfolding t delta_view_def incoming_ok_def outgoing_ok_def unread_def written_def by (simp split: if_splits)
  ultimately show ?thesis by blast
qed

lemma delta_seeks:
  assumes view: "delta_view L s = Some (r, p, w)"
  shows "\<exists>u. arm_uc_deltapaal_original_seek d s = Some (0, u) \<and> regs u = regs s \<and> control u = control s \<and> view u = view s \<and>
    delta_view L u = Some (r, sint (bspatch_seek_diff s + d), w)"
  using view unfolding delta_view_def incoming_ok_def outgoing_ok_def unread_def written_def
  by (auto simp: arm_uc_deltapaal_original_seek_def regs_def control_def view_def split: if_splits)

subsection \<open>Writing the new image\<close>

lemma outgoing_parts:
  assumes "delta_view L s = Some (r, p, w)"
  obtains st where "slot_image (current_slot_id s) (storage_calls s) = Some st" "bspatch_new_offset s = of_nat (length st)"
    "w = st @ fragment_bytes (outgoing_new_buffer s)" "bsize (outgoing_new_buffer s) < size_max (outgoing_new_buffer s)"
    "length (ptr (outgoing_new_buffer s)) = unat (size_max (outgoing_new_buffer s))" "L \<le> unat (size_max (outgoing_new_buffer s))"
    "bspatch_write_new_buffer_remaining s = 0" "write_count (storage_calls s) = answered s"
  using assms by (auto simp: delta_view_def outgoing_ok_def written_def Let_def split: if_splits)

lemma delta_view_write:
  assumes "delta_view L s = Some (r, p, w)" and "incoming_buf_ref t = incoming_buf_ref s"
    and "incoming_hub_buf_ref_offset t = incoming_hub_buf_ref_offset s" and "future t = future s" and "bspatch_seek_diff t = bspatch_seek_diff s"
    and "slot_image (current_slot_id t) (storage_calls t) = Some st" and "bspatch_new_offset t = of_nat (length st)"
    and "w' = st @ fragment_bytes (outgoing_new_buffer t)" and "bsize (outgoing_new_buffer t) < size_max (outgoing_new_buffer t)"
    and "length (ptr (outgoing_new_buffer t)) = unat (size_max (outgoing_new_buffer t))" and "L \<le> unat (size_max (outgoing_new_buffer t))"
    and "bspatch_write_new_buffer_remaining t = 0" and "write_count (storage_calls t) = answered t"
  shows "delta_view L t = Some (r, p, w')"
  using assms by (simp add: delta_view_def incoming_ok_def outgoing_ok_def unread_def written_def Let_def split: if_splits)

text \<open>A block that the buffer has room for.\<close>

lemma buffer_append:
  assumes "length (ptr b) = unat (size_max b)" and "unat (bsize b) + length bs \<le> unat (size_max b)"
  shows "\<exists>m. wr_block (ptr b) (unat (bsize b)) bs = Some m \<and> length m = unat (size_max b) \<and>
    unat (bsize b + of_nat (length bs)) = unat (bsize b) + length bs \<and>
    take (unat (bsize b) + length bs) m = fragment_bytes b @ bs"
proof -
  have "length bs < 2 ^ 32" "unat (bsize b) + length bs < 2 ^ 32" using assms(2) unat_32[of "size_max b"] by linarith+
  then have "unat (bsize b + of_nat (length bs)) = unat (bsize b) + length bs" using unat_below[of "length bs"]
    by (simp add: unat_plus_if_size word_size)
  then show ?thesis using assms by (cases "bs = []") (auto simp: wr_block_def fragment_bytes_def min_def neq_Nil_conv)
qed

text \<open>Without a full buffer.\<close>

lemma delta_writes_now:
  assumes view: "delta_view L s = Some (r, p, w)" and load: "bs_load s b 0 (unat n) = Some bs"
    and room: "unat (bsize (outgoing_new_buffer s)) + unat n < unat (size_max (outgoing_new_buffer s))"
  shows "\<exists>u. arm_uc_deltapaal_new_write P b n s = Some (0, u) \<and> regs u = regs s \<and> control u = control s \<and> view u = view s \<and>
    delta_view L u = Some (r, p, w @ bs)"
proof -
  let ?b = "outgoing_new_buffer s"
  obtain st where st: "slot_image (current_slot_id s) (storage_calls s) = Some st" "bspatch_new_offset s = of_nat (length st)"
    "w = st @ fragment_bytes ?b" "bsize ?b < size_max ?b" "length (ptr ?b) = unat (size_max ?b)" "L \<le> unat (size_max ?b)"
    "bspatch_write_new_buffer_remaining s = 0" "write_count (storage_calls s) = answered s"
    using view by (rule outgoing_parts)
  have bs: "length bs = unat n" using load rd_block_length by (auto simp: bs_load_def split: bs_buffer.splits)
  have n: "unat (ucast n :: u32) = length bs" "(ucast n :: u32) = of_nat (length bs)"
  proof -
    have "unat n < 2 ^ 32" using room unat_32[of "size_max ?b"] by linarith
    then show "unat (ucast n :: u32) = length bs" by (simp only: ucast_32 bs)
    then show "(ucast n :: u32) = of_nat (length bs)" by (metis word_unat_eq_iff \<open>unat n < 2 ^ 32\<close> bs unat_below)
  qed
  obtain m where m: "wr_block (ptr ?b) (unat (bsize ?b)) bs = Some m" "length m = unat (size_max ?b)"
    "unat (bsize ?b + of_nat (length bs)) = unat (bsize ?b) + length bs" "take (unat (bsize ?b) + length bs) m = fragment_bytes ?b @ bs"
    using buffer_append[of ?b bs] st(5) room bs by auto
  let ?s = "s\<lparr>bspatch_write_new_buffer_ptr := Some b, bspatch_write_patch_buffer_length := n,
      bspatch_write_new_buffer_remaining := n, nextEventToPostToBsPatch := EBSAPI_WRITE_NEW_DONE\<rparr>"
  let ?c = "?b\<lparr>ptr := m, bsize := bsize ?b + of_nat (length bs)\<rparr>"
  have l: "bs_load ?s b 0 (unat n) = Some bs" using load by (simp add: bs_load_def split: bs_buffer.splits)
  have u: "unat (size_max ?b - bsize ?b) = unat (size_max ?b) - unat (bsize ?b)" using st(4) by (intro unat_sub) simp
  have "unat (of_nat (length bs) :: u32) = length bs" using n by (simp only:)
  then have free: "(of_nat (length bs) :: u32) \<le> size_max ?b - bsize ?b"
    unfolding word_le_nat_alt u using room bs by linarith
  have "unat (bsize ?b + of_nat (length bs)) < unat (size_max ?b)" unfolding m(3) by (simp only: bs room)
  then have lt: "bsize ?b + of_nat (length bs) < size_max ?b" by (simp only: word_less_nat_alt)
  let ?u = "s\<lparr>bspatch_write_new_buffer_ptr := Some b, bspatch_write_patch_buffer_length := n,
      bspatch_write_new_buffer_remaining := 0, nextEventToPostToBsPatch := EBSAPI_WRITE_NEW_DONE, outgoing_new_buffer := ?c\<rparr>"
  have "arm_uc_deltapaal_new_write P b n s = Some (0, ?u)"
    using l m(1) free lt by (simp add: arm_uc_deltapaal_new_write_def flush_outgoing_def Let_def n(2) less_imp_neq)
  moreover have "delta_view L ?u = Some (r, p, w @ bs)"
    by (rule delta_view_write[OF view]) (use st lt m in \<open>simp_all add: fragment_bytes_def\<close>)
  moreover have "regs ?u = regs s" "control ?u = control s" "view ?u = view s" by (simp_all add: regs_def control_def view_def)
  ultimately show ?thesis by blast
qed

lemma load_parts:
  assumes "bs_load s b 0 n = Some bs" and "k \<le> n" and "view v = view s" and "bs_address v = bs_address s"
  shows "bs_load v b 0 k = Some (take k bs)" and "bs_load v b k (n - k) = Some (drop k bs)"
proof -
  have "bs_load s b 0 k = Some (take k bs)" "bs_load s b k (n - k) = Some (drop k bs)"
    using assms(1,2) by (auto simp: bs_load_def rd_block_def min_def drop_take add.commute split: bs_buffer.splits if_splits)
  then show "bs_load v b 0 k = Some (take k bs)" "bs_load v b k (n - k) = Some (drop k bs)"
    using load_cong[OF assms(3,4)] by simp_all
qed

text \<open>The buffer has been written; what did not fit goes to its start.\<close>

lemma rest_written:
  assumes full: "bsize (outgoing_new_buffer v) = size_max (outgoing_new_buffer v)" "0 < size_max (outgoing_new_buffer v)"
    and len: "length (ptr (outgoing_new_buffer v)) = unat (size_max (outgoing_new_buffer v))"
    and src: "bspatch_write_new_buffer_ptr v = Some b" "unat (bspatch_write_patch_buffer_length v) = k + length ys" "k + length ys < 2 ^ 32"
    and rem: "unat (bspatch_write_new_buffer_remaining v) = length ys" "length ys < unat (size_max (outgoing_new_buffer v))"
    and load: "bs_load v b k (length ys) = Some ys"
  shows "\<exists>c. outgoing_written P v = Some (False, v\<lparr>outgoing_new_buffer := c, bspatch_write_new_buffer_remaining := 0\<rparr>) \<and>
    fragment_bytes c = ys \<and> bsize c < size_max c \<and> size_max c = size_max (outgoing_new_buffer v) \<and> length (ptr c) = unat (size_max c)"
proof (cases "ys = []")
  case True
  let ?c = "(outgoing_new_buffer v)\<lparr>bsize := 0\<rparr>"
  have z: "bspatch_write_new_buffer_remaining v = 0" using rem(1) True by (simp add: word_unat_eq_iff)
  have "outgoing_written P v = Some (False, v\<lparr>outgoing_new_buffer := ?c\<rparr>)"
    using full by (simp add: outgoing_written_def z Let_def)
  moreover have "v\<lparr>outgoing_new_buffer := ?c\<rparr> = v\<lparr>outgoing_new_buffer := ?c, bspatch_write_new_buffer_remaining := 0\<rparr>"
    using z by simp
  ultimately show ?thesis using full len True by (intro exI[of _ ?c]) (simp add: fragment_bytes_def)
next
  case False
  let ?r = "bspatch_write_new_buffer_remaining v" and ?l = "bspatch_write_patch_buffer_length v"
  have r: "0 < ?r" "?r \<le> ucast (size_max (outgoing_new_buffer v))"
    using rem False by (simp_all add: word_less_nat_alt word_le_nat_alt ucast_64)
  have r32: "unat ?r < 2 ^ 32" using rem(1) src(3) by simp
  have ur: "unat (ucast ?r :: u32) = length ys" using ucast_32[OF r32] rem(1) by (simp only:)
  have "?r \<le> ?l" using rem(1) src(2) by (simp add: word_le_nat_alt)
  then have lr: "unat (?l - ?r) = k" using rem(1) src(2) by (simp add: unat_sub)
  then have at: "unat (ucast (?l - ?r) :: u32) = k" using src(3) by (subst ucast_32) simp_all
  let ?m = "ys @ drop (length ys) (ptr (outgoing_new_buffer v))"
  let ?c = "(outgoing_new_buffer v)\<lparr>ptr := ?m, bsize := ucast ?r\<rparr>"
  have wr: "wr_block (ptr (outgoing_new_buffer v)) 0 ys = Some ?m" using rem(2) len by (simp add: wr_block_def)
  have "copy_leftover ?r v = Some (v\<lparr>outgoing_new_buffer := ?c, bspatch_write_new_buffer_remaining := 0\<rparr>)"
    using load by (simp add: copy_leftover_def src(1) at rem(1) wr)
  then have "outgoing_written P v = Some (False, v\<lparr>outgoing_new_buffer := ?c, bspatch_write_new_buffer_remaining := 0\<rparr>)"
    using r by (simp add: outgoing_written_def Let_def)
  moreover have "fragment_bytes ?c = ys" by (simp add: fragment_bytes_def ur)
  moreover have "bsize ?c < size_max ?c" using rem(2) by (simp add: word_less_nat_alt ur)
  ultimately show ?thesis using len rem(2) by (intro exI[of _ ?c]) simp
qed

lemma delta_writes_later:
  assumes view: "delta_view L s = Some (r, p, w)" and load: "bs_load s b 0 (unat n) = Some bs"
    and full: "unat (size_max (outgoing_new_buffer s)) \<le> unat (bsize (outgoing_new_buffer s)) + unat n" and L: "unat n \<le> L"
    and P: "storage_accepts P"
  shows "\<exists>u. arm_uc_deltapaal_new_write P b n s = Some (EBSAPI_OPERATION_NEW_FILE_WRITE_WILL_COMPLETE_LATER, u) \<and>
    regs u = regs s \<and> control u = control s \<and>
    (\<forall>v. view v = view u \<and> bs_address v = bs_address u \<and> bspatch_stream.more v = bspatch_stream.more u \<longrightarrow>
      (\<exists>v'. delta_later P v v') \<and>
      (\<forall>v'. delta_later P v v' \<longrightarrow>
        regs v' = regs v \<and> control v' = control v \<and> view v' = view s \<and> delta_view L v' = Some (r, p, w @ bs)))"
proof -
  let ?b = "outgoing_new_buffer s"
  obtain st where st: "slot_image (current_slot_id s) (storage_calls s) = Some st" "bspatch_new_offset s = of_nat (length st)"
    "w = st @ fragment_bytes ?b" "bsize ?b < size_max ?b" "length (ptr ?b) = unat (size_max ?b)" "L \<le> unat (size_max ?b)"
    "bspatch_write_new_buffer_remaining s = 0" "write_count (storage_calls s) = answered s"
    using view by (rule outgoing_parts)
  define k where "k = unat (size_max ?b) - unat (bsize ?b)"
  have lt: "unat (bsize ?b) < unat (size_max ?b)" using st(4) by (simp only: word_less_nat_alt)
  have k: "0 < k" "k \<le> unat n" "unat (bsize ?b) + k = unat (size_max ?b)" using lt full by (simp_all add: k_def)
  have bs: "length bs = unat n" using load rd_block_length by (auto simp: bs_load_def split: bs_buffer.splits)
  have n32: "unat n < 2 ^ 32" using L st(6) unat_32[of "size_max ?b"] by linarith
  have u: "unat (size_max ?b - bsize ?b) = k" unfolding k_def using st(4) by (intro unat_sub) simp
  define a :: u64 where "a = (if (ucast n :: u32) \<le> size_max ?b - bsize ?b then n else ucast (size_max ?b - bsize ?b))"
  have a: "unat a = k" using k(2) u by (auto simp: a_def word_le_nat_alt ucast_32[OF n32] ucast_64)
  have ak: "(ucast a :: u32) = of_nat k"
  proof -
    have "k < 2 ^ 32" using k(2) n32 by linarith
    then show ?thesis using ucast_32[of a] a unat_below[of k] by (simp only: word_unat_eq_iff)
  qed
  have xl: "length (take k bs) = k" using k(2) bs by simp
  obtain m where m: "wr_block (ptr ?b) (unat (bsize ?b)) (take k bs) = Some m" "length m = unat (size_max ?b)"
    "unat (bsize ?b + of_nat k) = unat (bsize ?b) + k" "take (unat (bsize ?b) + k) m = fragment_bytes ?b @ take k bs"
    using buffer_append[of ?b "take k bs", unfolded xl, OF st(5) eq_imp_le[OF k(3)]] by blast
  let ?s = "s\<lparr>bspatch_write_new_buffer_ptr := Some b, bspatch_write_patch_buffer_length := n,
      bspatch_write_new_buffer_remaining := n, nextEventToPostToBsPatch := EBSAPI_WRITE_NEW_DONE\<rparr>"
  let ?c = "?b\<lparr>ptr := m, bsize := bsize ?b + of_nat k\<rparr>"
  have c: "bsize ?b + of_nat k = size_max ?b" using m(3) k(3) by (simp only: word_unat_eq_iff)
  have mm: "take (unat (size_max ?b)) m = fragment_bytes ?b @ take k bs" using m(4) k(3) by simp
  have l: "bs_load ?s b 0 (unat a) = Some (take k bs)" unfolding a by (rule load_parts(1)[OF load k(2)]) (simp_all add: view_def)
  let ?calls = "PAAL_Write (current_slot_id s) (bspatch_new_offset s) (fragment_bytes ?b @ take k bs) # storage_calls s"
  let ?u = "s\<lparr>bspatch_write_new_buffer_ptr := Some b, bspatch_write_patch_buffer_length := n,
      bspatch_write_new_buffer_remaining := n - a, nextEventToPostToBsPatch := EBSAPI_WRITE_NEW_DONE,
      outgoing_new_buffer := ?c, storage_calls := ?calls, bspatch_new_offset := bspatch_new_offset s + size_max ?b\<rparr>"
  have rc: "rcode (storage P cs) = ERR_NONE" for cs using P by (simp add: storage_accepts_def)
  have res: "arm_uc_deltapaal_new_write P b n s = Some (EBSAPI_OPERATION_NEW_FILE_WRITE_WILL_COMPLETE_LATER, ?u)"
  proof (cases "(ucast n :: u32) \<le> size_max ?b - bsize ?b")
    case True
    then have an: "a = n" by (simp add: a_def)
    show ?thesis using l ak True m(1)
      by (simp add: an arm_uc_deltapaal_new_write_def flush_outgoing_def Let_def c mm write_outgoing_def storage_call_def rc)
  next
    case False
    then have an: "a = ucast (size_max ?b - bsize ?b)" by (simp add: a_def)
    show ?thesis using l ak False m(1)
      by (simp add: an arm_uc_deltapaal_new_write_def flush_outgoing_def Let_def c mm write_outgoing_def storage_call_def rc)
  qed
  have later: "(\<exists>v'. delta_later P v v') \<and> (\<forall>v'. delta_later P v v' \<longrightarrow>
      regs v' = regs v \<and> control v' = control v \<and> view v' = view s \<and> delta_view L v' = Some (r, p, w @ bs))"
    if v: "view v = view ?u" "bs_address v = bs_address ?u" "bspatch_stream.more v = bspatch_stream.more ?u" for v
  proof (intro conjI allI impI)
    note fl = delta_fields[OF v(3)] run_fields[OF v(3)]
    let ?v = "v\<lparr>answered := answered v + 1\<rparr>"
    have vs: "view ?v = view s" "bs_address ?v = bs_address s" using v(1,2) by (simp_all add: view_def)
    have na: "unat (n - a) = length (drop k bs)" using a k(2) bs by (simp add: unat_sub word_le_nat_alt)
    have "\<exists>c'. outgoing_written P ?v = Some (False, ?v\<lparr>outgoing_new_buffer := c', bspatch_write_new_buffer_remaining := 0\<rparr>) \<and>
      fragment_bytes c' = drop k bs \<and> bsize c' < size_max c' \<and> size_max c' = size_max (outgoing_new_buffer ?v) \<and>
      length (ptr c') = unat (size_max c')"
    proof (rule rest_written)
      show "bs_load ?v b k (length (drop k bs)) = Some (drop k bs)" using load_parts(2)[OF load k(2) vs] bs by simp
      show "bspatch_write_new_buffer_ptr ?v = Some b" "unat (bspatch_write_patch_buffer_length ?v) = k + length (drop k bs)"
        "k + length (drop k bs) < 2 ^ 32" "unat (bspatch_write_new_buffer_remaining ?v) = length (drop k bs)"
        using k(2) bs n32 na by (simp_all add: fl)
      show "length (drop k bs) < unat (size_max (outgoing_new_buffer ?v))" using k(1) bs L st(6) lt by (simp add: fl)
    qed (use c m(2) lt in \<open>simp_all add: fl word_less_nat_alt\<close>)
    then obtain c' where c': "outgoing_written P ?v = Some (False, ?v\<lparr>outgoing_new_buffer := c', bspatch_write_new_buffer_remaining := 0\<rparr>)"
      "fragment_bytes c' = drop k bs" "bsize c' < size_max c'" "size_max c' = size_max ?b" "length (ptr c') = unat (size_max c')"
      by (auto simp: fl)
    let ?w = "?v\<lparr>outgoing_new_buffer := c', bspatch_write_new_buffer_remaining := 0\<rparr>"
    have "incoming v \<noteq> None" using view by (auto simp: incoming_def fl delta_view_def incoming_ok_def split: if_splits)
    then have ans: "write_answered P v x \<longleftrightarrow> x = ?w" for x using c'(1) st(8) by (auto simp: write_answered_def fl write_count_def)
    have nx: "nextEventToPostToBsPatch v = EBSAPI_WRITE_NEW_DONE" by (simp add: fl)
    show "\<exists>v'. delta_later P v v'"
      using later_write[OF nx] ans by blast
    have vw: "delta_view L ?w = Some (r, p, w @ bs)"
      by (rule delta_view_write[OF view, where st = "st @ fragment_bytes ?b @ take k bs"])
        (use st(1-3,6,8) c' mm m(2) arg_cong[OF mm, of length] in \<open>simp_all add: fl write_count_def\<close>)
    fix v'
    assume "delta_later P v v'"
    then obtain q es i e x where x: "v' = counters q es i e x" "x = ?w \<or> incoming ?w = Some 0 \<and> future ?w \<noteq> [] \<and> x = next_fragment ?w"
      using nx ans by (auto simp: delta_later_def)
    have "regs x = regs v" "control x = control v" "view x = view v" using x(2) by (auto simp: regs_def control_def view_def next_fragment_def)
    moreover have "delta_view L x = Some (r, p, w @ bs)" using x(2) vw unread_next[OF vw] by blast
    ultimately show "regs v' = regs v" "control v' = control v" "view v' = view s" "delta_view L v' = Some (r, p, w @ bs)"
      using v(1) by (simp_all add: x(1)) (simp_all add: view_def)
  qed
  have rc: "regs ?u = regs s" "control ?u = control s" by (simp_all add: regs_def control_def)
  show ?thesis by (intro exI[of _ ?u] conjI, fact res, fact rc(1), fact rc(2), intro allI impI, elim conjE, rule later)
qed

subsection \<open>The client meets what the patcher needs\<close>

definition no_stream :: bspatch_stream where
  "no_stream = \<lparr>undeCompressBuffer_len = 0, total_undeCompressBuffer = 0, var_int = 0, var_int_len = 0, frame_len = 0,
     newpos = 0, bs_i = 0, ctrl_DIFF_STR_LEN_X = 0, ctrl_EXTRA_STR_LEN_Y = 0, ctrl_OLD_FILE_CTRL_OFF_SET_JUMP = 0,
     nonCompressedDataBuffer = 0, bufferForCompressedData = 0, new_size = 0, max_compressedDataBuffer = 0,
     max_deCompressBuffer = 0, readRequestSize = 0, bs_header = [], next_state = EBsNone, expectedExternalEvent = 0,
     stateAfterReadVarInt = EBsNone, isSignedVarInt = False, bsMemoryBuffer = [], bs_address = 0\<rparr>"

text \<open>Nothing is said where the reader of the old image or the storage fails.\<close>

definition delta_io where
  "delta_io P old L z = (if reads_image P old \<and> storage_accepts P then delta_view L (bspatch_stream.extend no_stream z) else None)"

lemma more_extend: "bspatch_stream.more (bspatch_stream.extend b z) = z"
  by (cases b) (simp add: bspatch_stream.defs)

lemma delta_io_view:
  "delta_io P old L (bspatch_stream.more s) = (if reads_image P old \<and> storage_accepts P then delta_view L s else None)"
proof -
  have m: "bspatch_stream.more (bspatch_stream.extend no_stream (bspatch_stream.more s)) = bspatch_stream.more s"
    by (rule more_extend)
  show ?thesis
    unfolding delta_io_def delta_view_def incoming_ok_def outgoing_ok_def unread_def written_def
    by (simp only: delta_fields[OF m] run_fields[OF m])
qed

lemma performs_now:
  assumes "\<exists>u. a = Some (0, u) \<and> regs u = regs t \<and> control u = control t \<and> view u = view t \<and> R (bspatch_stream.more u)"
  shows "performs later delay a t R"
  using assms unfolding performs_def by blast

lemma performs_later:
  assumes "\<exists>u. a = Some (delay, u) \<and> regs u = regs t \<and> control u = control t \<and>
    (\<forall>v. view v = view u \<and> bs_address v = bs_address u \<and> bspatch_stream.more v = bspatch_stream.more u \<longrightarrow>
      (\<exists>v'. later v v') \<and>
      (\<forall>v'. later v v' \<longrightarrow> regs v' = regs v \<and> control v' = control v \<and> view v' = view t \<and> R (bspatch_stream.more v')))"
  shows "performs later delay a t R"
  using assms unfolding performs_def by blast

interpretation delta: patch_io "delta_client P" "delta_later P" "delta_io P old L" old L for P old L
proof
  show "read_patch (delta_client P) \<noteq> None" "read_old (delta_client P) \<noteq> None" "seek_old (delta_client P) \<noteq> None"
    "write_new (delta_client P) \<noteq> None" by (simp_all add: delta_client_def)
next
  fix s t :: delta_run and bs r p w n b
  assume io: "delta_io P old L (bspatch_stream.more s) = Some (bs @ r, p, w)" and len: "length bs \<le> L"
    and n: "unat (n :: u64) = length bs" and st: "bs_store b 0 bs s = Some t"
  have ok: "reads_image P old" "storage_accepts P" and v: "delta_view L s = Some (bs @ r, p, w)"
    using io by (simp_all add: delta_io_view split: if_splits)
  obtain B where B: "incoming_buf_ref s = Some B" "incoming_hub_buf_ref_offset s \<le> bsize B" "buf_ok B"
    using v by (auto simp: delta_view_def incoming_ok_def split: if_splits)
  show "performs (delta_later P) EBSAPI_OPERATION_PATCH_READ_WILL_COMPLETE_LATER (the (read_patch (delta_client P)) b n s) t
      (\<lambda>z. delta_io P old L z = Some (r, p, w))"
  proof (cases "length bs \<le> unat (bsize B) - unat (incoming_hub_buf_ref_offset s)")
    case True
    show ?thesis using delta_reads_now[OF v n st B True] ok by (intro performs_now) (simp add: delta_client_def delta_io_view)
  next
    case False
    then have "unat (bsize B) - unat (incoming_hub_buf_ref_offset s) < length bs" by simp
    from delta_reads_later[OF v n st B this len, of P] ok show ?thesis
      by (intro performs_later) (simp add: delta_client_def delta_io_view)
  qed
next
  fix s t :: delta_run and r p w and n :: u64 and b
  assume io: "delta_io P old L (bspatch_stream.more s) = Some (r, p, w)" and p: "0 \<le> p" "nat p + unat n \<le> length old"
    and st: "bs_store b 0 (take (unat n) (drop (nat p) old)) s = Some t"
  have ok: "reads_image P old" "storage_accepts P" and v: "delta_view L s = Some (r, p, w)"
    using io by (simp_all add: delta_io_view split: if_splits)
  show "performs (delta_later P) EBSAPI_OPERATION_OLD_FILE_READ_WILL_COMPLETE_LATER (the (read_old (delta_client P)) b n s) t
      (\<lambda>z. delta_io P old L z = Some (r, p + int (unat n), w))"
    using delta_reads_old[OF v p st ok(1)] ok by (intro performs_now) (simp add: delta_client_def delta_io_view)
next
  fix s :: delta_run and r p w bs and n :: u64 and b
  assume io: "delta_io P old L (bspatch_stream.more s) = Some (r, p, w)" and load: "bs_load s b 0 (unat n) = Some bs"
    and n: "unat n \<le> L"
  have ok: "reads_image P old" "storage_accepts P" and v: "delta_view L s = Some (r, p, w)"
    using io by (simp_all add: delta_io_view split: if_splits)
  show "performs (delta_later P) EBSAPI_OPERATION_NEW_FILE_WRITE_WILL_COMPLETE_LATER (the (write_new (delta_client P)) b n s) s
      (\<lambda>z. delta_io P old L z = Some (r, p, w @ bs))"
  proof (cases "unat (bsize (outgoing_new_buffer s)) + unat n < unat (size_max (outgoing_new_buffer s))")
    case True
    show ?thesis using delta_writes_now[OF v load True, of P] ok by (intro performs_now) (simp add: delta_client_def delta_io_view)
  next
    case False
    then have "unat (size_max (outgoing_new_buffer s)) \<le> unat (bsize (outgoing_new_buffer s)) + unat n" by simp
    from delta_writes_later[OF v load this n ok(2)] ok show ?thesis
      by (intro performs_later) (simp add: delta_client_def delta_io_view)
  qed
next
  fix s :: delta_run and r p w and d :: u64
  assume io: "delta_io P old L (bspatch_stream.more s) = Some (r, p, w)" and p: "\<bar>p\<bar> < 2 ^ 61" "\<bar>sint d\<bar> < 2 ^ 61"
  have ok: "reads_image P old" "storage_accepts P" and v: "delta_view L s = Some (r, p, w)"
    using io by (simp_all add: delta_io_view split: if_splits)
  have "sint (bspatch_seek_diff s) = p" using v by (simp add: delta_view_def split: if_splits)
  then have "sint (bspatch_seek_diff s + d) = p + sint d" using p by (subst sint_add) auto
  then show "performs (delta_later P) EBSAPI_OPERATION_OLD_FILE_SEEK_WILL_COMPLETE_LATER (the (seek_old (delta_client P)) d s) s
      (\<lambda>z. delta_io P old L z = Some (r, p + sint d, w))"
    using delta_seeks[OF v, of d] ok by (intro performs_now) (simp add: delta_client_def delta_io_view)
next
  fix s t :: delta_run and r p w and d :: u64 and code
  assume io: "delta_io P old L (bspatch_stream.more s) = Some (r, p, w)" and t: "the (seek_old (delta_client P)) d s = Some (code, t)"
  then have ok: "reads_image P old" "storage_accepts P" and v: "delta_view L s = Some (r, p, w)"
    by (simp_all add: delta_io_view split: if_splits)
  show "\<exists>p'. delta_io P old L (bspatch_stream.more t) = Some (r, p', w)"
    using delta_seeks[OF v, of d] t ok by (auto simp: delta_client_def delta_io_view)
qed

end
