(* ===== verification/UC_Delta_Update.thy ===== *)
theory UC_Delta_Update
  imports UC_Delta_Client
begin

text \<open>
  A whole update with the driver: its queue, the storage that answers its writes and the hub that
  answers its events with the next fragment. The patch may be cut anywhere, as long as no fragment
  but the last is shorter than the longest read.
\<close>

subsection \<open>What a round leaves alone\<close>

definition ledger :: "delta_run \<Rightarrow> _" where
  "ledger s = (delta_sched s, upstream_events s, paal_storage_implementation s, pal_deltapaal_upstream_event_handler s,
     current_slot_id s, delta_patch_full_size s, delta_patch_full_offset s, delta_incoming s, update_payload_full s,
     future s, answered s, told s)"

text \<open>A round that waits has left the event that it waits for in \<open>nextEventToPostToBsPatch\<close>.\<close>

definition waits_for :: "int \<Rightarrow> int \<Rightarrow> bool" where
  "waits_for st e \<longleftrightarrow> st = EBSAPI_OPERATION_PATCH_READ_WILL_COMPLETE_LATER \<and> e = EBSAPI_READ_PATCH_DONE \<or>
     st = EBSAPI_OPERATION_NEW_FILE_WRITE_WILL_COMPLETE_LATER \<and> e = EBSAPI_WRITE_NEW_DONE"

definition tidy :: "delta_run \<Rightarrow> int \<times> delta_run \<Rightarrow> bool" where
  "tidy s r \<longleftrightarrow> ledger (snd r) = ledger s \<and>
     (fst r \<in> delays \<longrightarrow> expectedExternalEvent (snd r) = nextEventToPostToBsPatch (snd r) \<and>
        waits_for (fst r) (nextEventToPostToBsPatch (snd r)))"

definition asks :: "int \<Rightarrow> delta_run \<Rightarrow> int \<times> delta_run \<Rightarrow> bool" where
  "asks e s r \<longleftrightarrow> ledger (snd r) = ledger s \<and>
     (fst r \<in> delays \<longrightarrow> nextEventToPostToBsPatch (snd r) = e \<and> waits_for (fst r) e)"

lemma ledger_stream [simp]:
  "ledger (s\<lparr>next_state := a\<rparr>) = ledger s" "ledger (s\<lparr>expectedExternalEvent := e\<rparr>) = ledger s"
  "ledger (s\<lparr>stateAfterReadVarInt := a\<rparr>) = ledger s" "ledger (s\<lparr>isSignedVarInt := b\<rparr>) = ledger s"
  "ledger (s\<lparr>ctrl_DIFF_STR_LEN_X := x\<rparr>) = ledger s" "ledger (s\<lparr>ctrl_EXTRA_STR_LEN_Y := x\<rparr>) = ledger s"
  "ledger (s\<lparr>ctrl_OLD_FILE_CTRL_OFF_SET_JUMP := x\<rparr>) = ledger s" "ledger (s\<lparr>frame_len := x\<rparr>) = ledger s"
  "ledger (s\<lparr>total_undeCompressBuffer := x\<rparr>) = ledger s" "ledger (s\<lparr>undeCompressBuffer_len := x\<rparr>) = ledger s"
  "ledger (s\<lparr>bs_i := x\<rparr>) = ledger s" "ledger (s\<lparr>newpos := x\<rparr>) = ledger s" "ledger (s\<lparr>var_int := x\<rparr>) = ledger s"
  "ledger (s\<lparr>var_int_len := x\<rparr>) = ledger s" "ledger (s\<lparr>readRequestSize := y\<rparr>) = ledger s"
  "ledger (s\<lparr>new_size := y\<rparr>) = ledger s" "ledger (s\<lparr>max_compressedDataBuffer := y\<rparr>) = ledger s"
  "ledger (s\<lparr>max_deCompressBuffer := y\<rparr>) = ledger s" "ledger (s\<lparr>nonCompressedDataBuffer := y\<rparr>) = ledger s"
  "ledger (s\<lparr>bufferForCompressedData := y\<rparr>) = ledger s" "ledger (s\<lparr>bsMemoryBuffer := m\<rparr>) = ledger s"
  "ledger (s\<lparr>bs_header := m\<rparr>) = ledger s"
  by (simp_all add: ledger_def)

lemma ledger_store: "bs_store b i bs s = Some t \<Longrightarrow> ledger t = ledger s"
  by (auto simp: bs_store_def split: bs_buffer.splits)

lemma not_delay: "st \<le> 0 \<Longrightarrow> st \<notin> delays"
  by (auto simp: delays_def)

lemma tidy_now: "st \<le> 0 \<Longrightarrow> ledger t = ledger s \<Longrightarrow> tidy s (st, t)"
  by (auto simp: tidy_def dest: not_delay)

lemma tidy_wait:
  assumes "asks e s r"
  shows "tidy s (WAIT_FOR e N r)"
proof -
  obtain st t where r: "r = (st, t)" by (cases r)
  show ?thesis
  proof (cases "st \<in> delays")
    case True
    then have "WAIT_FOR e N (st, t) = (st, t\<lparr>expectedExternalEvent := e, next_state := N\<rparr>)" by (rule WAIT_FOR_delay)
    then show ?thesis using assms True by (simp add: r tidy_def asks_def)
  next
    case False
    obtain e' n where "WAIT_FOR e N (st, t) = (st, t\<lparr>expectedExternalEvent := e', next_state := n\<rparr>)"
      using WAIT_FOR_shape by blast
    then show ?thesis using assms False by (simp add: r tidy_def asks_def)
  qed
qed

lemma ledger_delta [simp]:
  "ledger (s\<lparr>bspatch_seek_diff := x\<rparr>) = ledger s" "ledger (s\<lparr>bspatch_new_offset := o1\<rparr>) = ledger s"
  "ledger (s\<lparr>incoming_hub_buf_ref_offset := o1\<rparr>) = ledger s" "ledger (s\<lparr>bspatch_read_patch_buffer_ptr := b\<rparr>) = ledger s"
  "ledger (s\<lparr>bspatch_read_patch_buffer_length := x\<rparr>) = ledger s" "ledger (s\<lparr>bspatch_read_patch_buffer_remaining := x\<rparr>) = ledger s"
  "ledger (s\<lparr>bspatch_write_new_buffer_ptr := b\<rparr>) = ledger s" "ledger (s\<lparr>bspatch_write_patch_buffer_length := x\<rparr>) = ledger s"
  "ledger (s\<lparr>bspatch_write_new_buffer_remaining := x\<rparr>) = ledger s" "ledger (s\<lparr>nextEventToPostToBsPatch := e\<rparr>) = ledger s"
  "ledger (s\<lparr>outgoing_new_buffer := w\<rparr>) = ledger s" "ledger (s\<lparr>storage_calls := c\<rparr>) = ledger s"
  "ledger (s\<lparr>incoming_buf_ref := i\<rparr>) = ledger s"
  by (simp_all add: ledger_def)

lemma asks_read:
  assumes "sendPatchReadRequest (delta_client P) b n t = Some r" and "ledger t = ledger s"
  shows "asks EBSAPI_READ_PATCH_DONE s r"
proof -
  have "arm_uc_deltapaal_patch_read b n t = Some r"
    using assms(1) by (auto simp: sendPatchReadRequest_def bs_request_def delta_client_def split: if_splits)
  then show ?thesis using assms(2)
    by (auto simp: arm_uc_deltapaal_patch_read_def Let_def asks_def delays_def waits_for_def dest!: ledger_store split: if_splits Option.bind_splits)
qed

lemma asks_old:
  assumes "sendReadOldRequest (delta_client P) b n t = Some r" and "ledger t = ledger s"
  shows "asks EBSAPI_READ_OLD_DONE s r"
proof -
  have "arm_uc_deltapaal_original_read P b n t = Some r"
    using assms(1) by (auto simp: sendReadOldRequest_def bs_request_def delta_client_def split: if_splits)
  then show ?thesis using assms(2)
    by (auto simp: arm_uc_deltapaal_original_read_def asks_def delays_def dest!: ledger_store split: option.splits Option.bind_splits)
qed

lemma asks_seek: "sendSeekOldRequest (delta_client P) d t = Some r \<Longrightarrow> ledger t = ledger s \<Longrightarrow> asks EBSAPI_SEEK_OLD_DONE s r"
  by (auto simp: sendSeekOldRequest_def delta_client_def arm_uc_deltapaal_original_seek_def asks_def delays_def)

lemma ledger_written: "ledger (snd (write_outgoing P s)) = ledger s"
  "nextEventToPostToBsPatch (snd (write_outgoing P s)) = nextEventToPostToBsPatch s"
  by (simp_all add: write_outgoing_def storage_call_def Let_def)

lemma asks_flush:
  assumes "ledger u = ledger s" and "nextEventToPostToBsPatch u = EBSAPI_WRITE_NEW_DONE"
    and "code = 0 \<or> code = EBSAPI_OPERATION_NEW_FILE_WRITE_WILL_COMPLETE_LATER"
  shows "asks EBSAPI_WRITE_NEW_DONE s (flush_outgoing P code u)"
proof -
  obtain res v where v: "write_outgoing P u = (res, v)" by (cases "write_outgoing P u")
  then have "ledger v = ledger s" "nextEventToPostToBsPatch v = EBSAPI_WRITE_NEW_DONE"
    using ledger_written[of P u] assms(1,2) by simp_all
  then show ?thesis using assms v by (auto simp: flush_outgoing_def asks_def delays_def waits_for_def)
qed

lemma asks_write:
  assumes "sendWriteNewRequest (delta_client P) b n t = Some r" and "ledger t = ledger s"
  shows "asks EBSAPI_WRITE_NEW_DONE s r"
proof -
  have "arm_uc_deltapaal_new_write P b n t = Some r"
    using assms(1) by (auto simp: sendWriteNewRequest_def bs_request_def delta_client_def split: if_splits)
  then show ?thesis using assms(2)
    by (auto simp: arm_uc_deltapaal_new_write_def Let_def intro!: asks_flush split: Option.bind_splits if_splits)
qed

lemma ledger_decompress: "read_deCompressBuffer_process lz4 n s = Some (st, t) \<Longrightarrow> st \<le> 0 \<and> ledger t = ledger s"
  by (auto simp: read_deCompressBuffer_process_def Let_def dest!: ledger_store split: prod.splits if_splits Option.bind_splits)

lemma ledger_add: "add_diff_loop i n s = Some t \<Longrightarrow> ledger t = ledger s"
  by (induction n arbitrary: i s) (auto dest!: ledger_store split: Option.bind_splits)

lemma ledger_header:
  "bspatch_readInitialHeaderAndContinueReadOfPatchDone s = Some (st, t) \<Longrightarrow> st \<le> 0 \<and> ledger t = ledger s"
  by (auto simp: bspatch_readInitialHeaderAndContinueReadOfPatchDone_def Let_def split: if_splits Option.bind_splits)

lemma ledger_alloc: "bspatch_allocWorkingBuffers s = (st, t) \<Longrightarrow> st \<le> 0 \<and> ledger t = ledger s"
  by (auto simp: bspatch_allocWorkingBuffers_def Let_def split: if_splits)

lemma decode_status:
  "fst (decode_unsigned_varint b v c) \<le> 0 \<or> fst (decode_unsigned_varint b v c) = OPERATION_NEEDS_MORE_DATA"
  "fst (decode_signed_varint b v c) \<le> 0 \<or> fst (decode_signed_varint b v c) = OPERATION_NEEDS_MORE_DATA"
  by (auto simp: decode_unsigned_varint_def decode_signed_varint_def Let_def split: option.splits if_splits)

lemma ledger_varint: "readVarIntEventified b s = Some (st, t) \<Longrightarrow> st \<le> 0 \<and> ledger t = ledger s"
proof -
  assume a: "readVarIntEventified b s = Some (st, t)"
  then obtain x where x: "bs_load s (at_nonCompressed s) 0 1 = Some x"
    by (auto simp: readVarIntEventified_def split: Option.bind_splits)
  let ?d = "(if b then decode_signed_varint else decode_unsigned_varint) (hd x) (Some (var_int s)) (sint (ucast (var_int_len s) :: u32))"
  obtain c v where d: "?d = (c, v)" by (cases ?d)
  have "fst ?d \<le> 0 \<or> fst ?d = OPERATION_NEEDS_MORE_DATA" using decode_status by (cases b) simp_all
  then have "c \<le> 0 \<or> c = OPERATION_NEEDS_MORE_DATA" unfolding d by simp
  then show ?thesis using a unfolding readVarIntEventified_def x Option.bind.bind_lunit d prod.case Let_def
    by (auto split: if_splits)
qed

lemma tidy_set: "tidy s (SET_NEXT_STATE n (st, t)) = tidy s (st, t)" if "st \<le> 0"
  using that by (auto simp: SET_NEXT_STATE_def tidy_def dest: not_delay)

lemma asks_error: "st \<le> 0 \<Longrightarrow> ledger t = ledger s \<Longrightarrow> asks e s (st, t)"
  by (auto simp: asks_def dest: not_delay)

lemma step_tidy:
  assumes "bs_step lz4 (delta_client P) s = Some r"
  shows "tidy s r"
proof (cases "next_state s")
  case EBsInitial
  then show ?thesis using assms
    by (auto simp: bs_step_def bspatch_readInitialHeaderAndContinue_def intro!: tidy_wait intro: asks_error asks_read split: if_splits)
next
  case EBsInitialPatchReadDone
  then show ?thesis using assms
    by (auto simp: bs_step_def SET_NEXT_STATE_def intro!: tidy_now dest: ledger_header)
next
  case EBsAllocWorkingBuffer
  then show ?thesis using assms ledger_alloc[of s]
    by (cases "bspatch_allocWorkingBuffers s") (auto simp: bs_step_def SET_NEXT_STATE_def intro!: tidy_now)
next
  case EBspatch_processDiffBytes_processSinglePiece
  then show ?thesis using assms
    by (auto simp: bs_step_def Let_def read_deCompressBuffer_def intro!: tidy_wait intro: asks_error asks_read split: if_splits)
next
  case EBsProcessExtraLen_singleItem
  then show ?thesis using assms
    by (auto simp: bs_step_def Let_def read_deCompressBuffer_def intro!: tidy_wait intro: asks_error asks_read split: if_splits)
next
  case EBspatch_processDiffBytes_processSinglePieceContinue
  then show ?thesis using assms
    by (auto simp: bs_step_def SET_NEXT_STATE_def intro!: tidy_now dest: ledger_decompress)
next
  case EBspatch_processDiffBytes_processSinglePieceContinue2
  then show ?thesis using assms
    by (auto simp: bs_step_def SET_NEXT_STATE_def Let_def intro!: tidy_wait tidy_now asks_old split: if_splits)
next
  case EBspatch_processDiffBytes_processSinglePieceContinue_writePart
  then obtain t st u where t: "add_diff_loop 0 (unat (readRequestSize s)) s = Some t"
    "sendWriteNewRequest (delta_client P) (at_compressed t) (ucast (readRequestSize t)) t = Some (st, u)"
    "r = WAIT_FOR EBSAPI_WRITE_NEW_DONE EBspatch_processDiffBytes_processSinglePieceContinue2
      (st, u\<lparr>bs_i := bs_i u + ucast (readRequestSize u)\<rparr>)"
    using assms by (auto simp: bs_step_def Let_def split: Option.bind_splits)
  have "asks EBSAPI_WRITE_NEW_DONE s (st, u)" using asks_write[OF t(2)] ledger_add[OF t(1)] by simp
  then show ?thesis unfolding t(3) by (intro tidy_wait) (simp add: asks_def)
next
  case EBsProcessExtraLen_singleItemContinue
  then show ?thesis using assms
    by (auto simp: bs_step_def bspatch_processSingeExtraStrLenCompress_def intro!: tidy_wait intro: asks_error asks_write
        dest!: ledger_decompress split: if_splits Option.bind_splits)
next
  case EBsPatch_process_varintPiece
  then show ?thesis using assms by (cases r) (auto simp: bs_step_def intro!: tidy_now dest: ledger_varint)
qed (use assms in \<open>auto simp: bs_step_def SET_NEXT_STATE_def Let_def bspatch_processDiffBytesPost_def
      intro!: tidy_wait tidy_now asks_read asks_seek split: if_splits\<close>)

lemma loop_tidy: "bs_loop lz4 c s = Some r \<Longrightarrow> c = delta_client P \<Longrightarrow> tidy s r"
proof (induction lz4 c s r rule: bs_loop.raw_induct[rotated, consumes 1, case_names step])
  case (step bs_loop lz4 c s r)
  obtain st t where t: "bs_step lz4 c s = Some (st, t)"
    and r: "(if \<not> isPatchingDone t \<and> st = 0 then bs_loop lz4 c t else Some (st, t)) = Some r"
    using step(2) by (auto split: Option.bind_splits)
  have s: "tidy s (st, t)" using step_tidy t step(3) by blast
  show ?case
  proof (cases "\<not> isPatchingDone t \<and> st = 0")
    case True
    then have "tidy t r" using step(1)[of lz4 c t r] r step(3) by simp
    then show ?thesis using s by (simp add: tidy_def)
  next
    case False
    then show ?thesis using s r by auto
  qed
qed

text \<open>The event that the patcher waits for is the one that is posted next.\<close>

lemma process_tidy:
  assumes "process_patch_event P s = Some (r, t)"
  shows "ledger t = ledger s \<and>
    (r \<in> delays \<longrightarrow> expectedExternalEvent t = nextEventToPostToBsPatch t \<and> waits_for r (nextEventToPostToBsPatch t))"
proof (cases "nextEventToPostToBsPatch s = expectedExternalEvent s")
  case False
  then have "r = EBSAPI_ERR_UNEXPECTED_EVENT" "t = s" using assms by (simp_all add: process_patch_event_def ARM_BS_ProcessPatchEvent_def)
  then show ?thesis by (simp add: delays_def)
next
  case True
  then obtain st where l: "bs_loop (decompress P) (delta_client P) (s\<lparr>expectedExternalEvent := 0\<rparr>) = Some (st, t)"
    and r: "r = (if isPatchingDone t then EBSAPI_PATCH_DONE else st)"
    using assms by (auto simp: process_patch_event_def ARM_BS_ProcessPatchEvent_def split: Option.bind_splits)
  have "tidy (s\<lparr>expectedExternalEvent := 0\<rparr>) (st, t)" using loop_tidy[OF l refl] .
  then show ?thesis using r by (auto simp: tidy_def delays_def)
qed

subsection \<open>The storage and the hub\<close>

text \<open>
  What happens next around the driver: a callback of its queue is run; else a write that the
  storage has been asked for is done; else the hub answers \<open>WRITE_DONE\<close> with its next fragment.
\<close>

definition delta_dispatch :: "delta_platform \<Rightarrow> delta_run \<Rightarrow> delta_run option" where
  "delta_dispatch P s = do {
     (element, q) \<leftarrow> sched_next (delta_sched s);
     case element of
       None \<Rightarrow> Some s
     | Some e \<Rightarrow> (let ((cb, ctx, param), q) = sched_release e q in
         do { f \<leftarrow> cb; delta_task P f param (s\<lparr>delta_sched := q\<rparr>) })
   }"

definition delta_turn :: "delta_platform \<Rightarrow> delta_run \<Rightarrow> delta_run option" where
  "delta_turn P s =
     (if arm_uc_queue (delta_sched s) \<noteq> None then delta_dispatch P s
      else if answered s < write_count (storage_calls s)
      then Some (ARM_UC_DeltaPaal_PALEventHandler ARM_UC_PAAL_EVENT_WRITE_DONE (s\<lparr>answered := answered s + 1\<rparr>))
      else if told s < length (upstream_events s) \<and> hd (upstream_events s) = ARM_UC_PAAL_EVENT_WRITE_DONE \<and> future s \<noteq> []
      then map_option snd (ARM_UC_PAL_DeltaPaal_Write P (current_slot_id s) (ucast (delta_patch_full_offset s)) (hd (future s))
             (s\<lparr>told := told s + 1, future := tl (future s)\<rparr>))
      else Some s)"

fun delta_turns :: "delta_platform \<Rightarrow> nat \<Rightarrow> delta_run \<Rightarrow> delta_run option" where
  "delta_turns P 0 s = Some s"
| "delta_turns P (Suc n) s = delta_turn P s \<bind> delta_turns P n"

text \<open>The driver at rest between two events.\<close>

definition at_rest :: "delta_run \<Rightarrow> bool" where
  "at_rest s \<longleftrightarrow> pending_rep (delta_sched s) [] \<and> plugin_error_pending (delta_sched s) = 0 \<and>
     told s = length (upstream_events s) \<and> pal_deltapaal_upstream_event_handler s \<and> delta_incoming s \<noteq> 0 \<and>
     \<not> update_payload_full s \<and> (\<forall>f \<in> set (future s). buf_ok f \<and> 0 < bsize f) \<and> 0 < delta_patch_full_offset s \<and>
     unat (delta_patch_full_offset s) + (\<Sum>f \<leftarrow> future s. unat (bsize f)) = unat (delta_patch_full_size s) \<and>
     unat (delta_patch_full_size s) < 2 ^ 32"

lemma quiet_ledger: "ledger t = ledger s \<Longrightarrow> at_rest t = at_rest s"
  by (simp add: ledger_def at_rest_def)

text \<open>A queue with one callback.\<close>

definition single :: "delta_fn \<Rightarrow> u32 \<Rightarrow> (delta_cb, delta_fn) sched \<Rightarrow> bool" where
  "single f param q \<longleftrightarrow> pending_rep q [(f, ATOMIC_QUEUE_NO_CONTEXT, param)] \<and> plugin_error_pending q = 0"

lemma post_single:
  assumes "pending_rep (delta_sched s) []" and "plugin_error_pending (delta_sched s) = 0"
  shows "\<exists>q. delta_post st f param s = (True, s\<lparr>delta_sched := q\<rparr>) \<and> single f param q"
proof -
  obtain ok q where q: "ARM_UC_PostCallback (Some st) (Some f) param (delta_sched s) = (ok, q)"
    by (cases "ARM_UC_PostCallback (Some st) (Some f) param (delta_sched s)")
  have c: "ARM_UC_PostCallbackCtx (Some st) ATOMIC_QUEUE_NO_CONTEXT (Some f) param (delta_sched s) = (ok, q)"
    using q by (simp add: ARM_UC_PostCallback_def)
  have ok: ok using post_room[OF assms(1), of ATOMIC_QUEUE_NO_CONTEXT "Some st" f param] c by simp
  have "pending_rep q [(f, ATOMIC_QUEUE_NO_CONTEXT, param)]" using post_pending[OF assms(1) _ c] ok by simp
  moreover have "plugin_error_pending q = plugin_error_pending (delta_sched s)"
    using post_frame[OF c] by auto
  ultimately show ?thesis using q ok assms(2) by (auto simp: delta_post_def single_def)
qed

lemma dispatch_single:
  assumes "single f param (delta_sched s)"
  shows "\<exists>q. delta_turn P s = delta_task P f param (s\<lparr>delta_sched := q\<rparr>) \<and> pending_rep q [] \<and> plugin_error_pending q = 0"
proof -
  obtain e q1 q2 where n: "sched_next (delta_sched s) = Some (Some e, q1)" "sched_release e q1 = ((Some f, ATOMIC_QUEUE_NO_CONTEXT, param), q2)"
    "pending_rep q2 []" and q2: "\<exists>h q r. q2 = (delta_sched s)\<lparr>elems := h, arm_uc_queue := q, callback_pool_root := r\<rparr>"
    using next_pending[of "delta_sched s" f ATOMIC_QUEUE_NO_CONTEXT param "[]"] assms unfolding single_def by blast
  have "arm_uc_queue (delta_sched s) \<noteq> None" using pending_queue_empty assms by (fastforce simp: single_def)
  moreover have "plugin_error_pending q2 = 0" using q2 assms by (auto simp: single_def)
  ultimately show ?thesis using n by (auto simp: delta_turn_def delta_dispatch_def)
qed

subsection \<open>Counters do not matter to the transfers\<close>

lemma counters_fields [simp]:
  "storage_calls (counters q es n k s) = storage_calls s" "outgoing_new_buffer (counters q es n k s) = outgoing_new_buffer s"
  "bspatch_write_new_buffer_remaining (counters q es n k s) = bspatch_write_new_buffer_remaining s"
  "bspatch_write_patch_buffer_length (counters q es n k s) = bspatch_write_patch_buffer_length s"
  "bspatch_write_new_buffer_ptr (counters q es n k s) = bspatch_write_new_buffer_ptr s"
  "bspatch_read_patch_buffer_ptr (counters q es n k s) = bspatch_read_patch_buffer_ptr s"
  "bspatch_read_patch_buffer_length (counters q es n k s) = bspatch_read_patch_buffer_length s"
  "bspatch_read_patch_buffer_remaining (counters q es n k s) = bspatch_read_patch_buffer_remaining s"
  "incoming_buf_ref (counters q es n k s) = incoming_buf_ref s"
  "incoming_hub_buf_ref_offset (counters q es n k s) = incoming_hub_buf_ref_offset s"
  "current_slot_id (counters q es n k s) = current_slot_id s" "bspatch_new_offset (counters q es n k s) = bspatch_new_offset s"
  "nextEventToPostToBsPatch (counters q es n k s) = nextEventToPostToBsPatch s" "future (counters q es n k s) = future s"
  "answered (counters q es n k s) = answered s" "told (counters q es n k s) = k" "delta_sched (counters q es n k s) = q"
  "upstream_events (counters q es n k s) = es" "delta_patch_full_offset (counters q es n k s) = n"
  "delta_patch_full_size (counters q es n k s) = delta_patch_full_size s" "delta_incoming (counters q es n k s) = delta_incoming s"
  "update_payload_full (counters q es n k s) = update_payload_full s"
  "pal_deltapaal_upstream_event_handler (counters q es n k s) = pal_deltapaal_upstream_event_handler s"
  "expectedExternalEvent (counters q es n k s) = expectedExternalEvent s"
  by (simp_all add: counters_def)

lemma next_fragment_fields [simp]:
  "update_payload_full (next_fragment s) = update_payload_full s" "delta_incoming (next_fragment s) = delta_incoming s"
  "pal_deltapaal_upstream_event_handler (next_fragment s) = pal_deltapaal_upstream_event_handler s"
  "delta_patch_full_size (next_fragment s) = delta_patch_full_size s" "current_slot_id (next_fragment s) = current_slot_id s"
  "future (next_fragment s) = tl (future s)" "nextEventToPostToBsPatch (next_fragment s) = nextEventToPostToBsPatch s"
  "answered (next_fragment s) = answered s" "storage_calls (next_fragment s) = storage_calls s"
  by (simp_all add: next_fragment_def)

lemma incoming_counters [simp]: "incoming (counters q es n k s) = incoming s"
  by (simp add: incoming_def)

lemma store_counters: "bs_store b i bs (counters q es n k s) = map_option (counters q es n k) (bs_store b i bs s)"
  by (auto simp: bs_store_def counters_def option.map_comp o_def split: bs_buffer.split intro!: option.map_cong)

lemma load_counters: "bs_load (counters q es n k s) b i m = bs_load s b i m"
  by (simp add: bs_load_def counters_def split: bs_buffer.split)

lemma finish_counters: "finish_patch_read (counters q es n k s) = map_option (map_prod id (counters q es n k)) (finish_patch_read s)"
  by (auto simp: finish_patch_read_def Let_def store_counters map_option_bind split: Option.bind_splits)
    (auto simp: counters_def)

lemma copy_counters: "copy_leftover m (counters q es n k s) = map_option (counters q es n k) (copy_leftover m s)"
  by (auto simp: copy_leftover_def load_counters split: Option.bind_splits) (auto simp: counters_def)

lemma write_outgoing_counters:
  "write_outgoing P (counters q es n k s) = map_prod id (counters q es n k) (write_outgoing P s)"
  by (simp add: write_outgoing_def storage_call_def Let_def) (simp add: counters_def)

lemma written_counters:
  assumes "outgoing_written P s = Some (False, w)"
  shows "outgoing_written P (counters q es n k s) = Some (False, counters q es n k w)"
  using assms by (auto simp: outgoing_written_def Let_def copy_counters split: if_splits Option.bind_splits prod.splits)
    (auto simp: counters_def)

definition reaches :: "delta_platform \<Rightarrow> delta_run \<Rightarrow> delta_run \<Rightarrow> bool" where
  "reaches P s t \<longleftrightarrow> (\<exists>n. delta_turns P n s = Some t)"

lemma reaches_refl: "reaches P s s"
  unfolding reaches_def by (rule exI[of _ 0]) simp

lemma reaches_step: "delta_turn P s = Some u \<Longrightarrow> reaches P u t \<Longrightarrow> reaches P s t"
  unfolding reaches_def by (metis delta_turns.simps(2) Option.bind.bind_lunit)

text \<open>
  On the way to \<open>N\<close> fragments: \<open>future\<close> are still to be written, and every fragment but the one in
  work has been answered.
\<close>

definition on_course :: "u32 \<Rightarrow> nat \<Rightarrow> u32 list \<Rightarrow> delta_run \<Rightarrow> bool" where
  "on_course slot N base s \<longleftrightarrow> at_rest s \<and> current_slot_id s = slot \<and> length (future s) < N \<and>
     upstream_events s = replicate (N - 1 - length (future s)) ARM_UC_PAAL_EVENT_WRITE_DONE @ base"

lemma on_course_ledger: "ledger t = ledger s \<Longrightarrow> on_course slot N base t = on_course slot N base s"
  using quiet_ledger[of t s] by (simp add: on_course_def ledger_def)

text \<open>The driver has told the hub, which writes its next fragment.\<close>

lemma offset_next:
  assumes "unat (n :: u64) + (unat (b :: u32) + m) = unat (t :: u64)"
  shows "unat (n + ucast b) = unat n + unat b" and "unat (n + ucast b) + m = unat t"
proof -
  have "unat n + unat (ucast b :: u64) < 2 ^ 64" using assms unsigned_less[of t, where 'a = nat] by (simp add: ucast_64)
  then show *: "unat (n + ucast b) = unat n + unat b" by (simp add: unat_plus_if_size word_size ucast_64)
  show "unat (n + ucast b) + m = unat t" using assms by (simp add: *)
qed

lemma hub_writes:
  assumes s: "on_course slot N base s" "future s = f # fs" "write_count (storage_calls s) = answered s"
    and q: "pending_rep q []" "plugin_error_pending q = 0"
  obtains q' n k where "on_course slot N base (counters q' (ARM_UC_PAAL_EVENT_WRITE_DONE # upstream_events s) n k (next_fragment s))"
    and "\<And>u t. ARM_UC_DeltaPaal_AsyncWrite_Handler P ARM_UC_PAAL_EVENT_WRITE_DONE
        (counters q' (ARM_UC_PAAL_EVENT_WRITE_DONE # upstream_events s) n k (next_fragment s)) = Some u \<Longrightarrow> reaches P u t \<Longrightarrow>
      reaches P (s\<lparr>delta_sched := q, upstream_events := ARM_UC_PAAL_EVENT_WRITE_DONE # upstream_events s\<rparr>) t"
proof -
  let ?es = "ARM_UC_PAAL_EVENT_WRITE_DONE # upstream_events s" and ?n = "delta_patch_full_offset s + ucast (bsize f)" and ?k = "Suc (told s)"
  let ?u = "s\<lparr>delta_sched := q, upstream_events := ?es\<rparr>"
  let ?w = "\<lambda>q. counters q ?es ?n ?k (next_fragment s)"
  have qs: "at_rest s" using s(1) by (simp add: on_course_def)
  have off: "unat (delta_patch_full_offset s) < 2 ^ 32" "0 < unat (delta_patch_full_offset s)"
    using qs by (simp_all add: at_rest_def word_less_nat_alt)
  then have nz: "(ucast (delta_patch_full_offset s) :: u32) \<noteq> 0"
    using ucast_32[OF off(1)] by (simp only: word_unat_eq_iff) simp
  have p: "pending_rep (delta_sched (?w q)) []" "plugin_error_pending (delta_sched (?w q)) = 0" using q by simp_all
  obtain q1 where q1: "delta_post Cb_arm_uc_deltapaal_write_async_callback Fn_ARM_UC_DeltaPaal_AsyncWrite_Handler
      ARM_UC_PAAL_EVENT_WRITE_DONE (?w q) = (True, (?w q)\<lparr>delta_sched := q1\<rparr>)"
    "single Fn_ARM_UC_DeltaPaal_AsyncWrite_Handler ARM_UC_PAAL_EVENT_WRITE_DONE q1"
    using post_single[OF p] by blast
  obtain q2 where q2: "delta_turn P (?w q1) = delta_task P Fn_ARM_UC_DeltaPaal_AsyncWrite_Handler ARM_UC_PAAL_EVENT_WRITE_DONE
      ((?w q1)\<lparr>delta_sched := q2\<rparr>)" "pending_rep q2 []" "plugin_error_pending q2 = 0"
    using dispatch_single[of Fn_ARM_UC_DeltaPaal_AsyncWrite_Handler ARM_UC_PAAL_EVENT_WRITE_DONE "?w q1" P] q1(2) by auto
  have w: "(?w q)\<lparr>delta_sched := q'\<rparr> = ?w q'" for q q' by (simp add: counters_def)
  have eq: "?u\<lparr>told := ?k, future := fs, incoming_buf_ref := Some f, incoming_hub_buf_ref_offset := 0,
      delta_patch_full_offset := ?n\<rparr> = ?w q"
    using s(2) by (cases s) (simp add: counters_def next_fragment_def)
  have empty: "arm_uc_queue q = None" using pending_queue_empty[OF q(1)] by simp
  have "ARM_UC_PAL_DeltaPaal_Write P (current_slot_id s) (ucast (delta_patch_full_offset s)) f (?u\<lparr>told := ?k, future := fs\<rparr>) =
      Some (ERR_NONE, ?w q1)"
  proof -
    have "\<not> update_payload_full s" using qs by (simp add: at_rest_def)
    then show ?thesis using nz q1(1) unfolding w by (simp add: ARM_UC_PAL_DeltaPaal_Write_def Let_def eq)
  qed
  then have t1: "delta_turn P ?u = Some (?w q1)"
    using empty s(2,3) qs by (simp add: delta_turn_def at_rest_def)
  have t2: "delta_turn P (?w q1) = ARM_UC_DeltaPaal_AsyncWrite_Handler P ARM_UC_PAAL_EVENT_WRITE_DONE (?w q2)"
    unfolding q2(1) w by (simp add: delta_task_def)
  have f: "unat (delta_patch_full_offset s) + (unat (bsize f) + (\<Sum>f \<leftarrow> fs. unat (bsize f))) = unat (delta_patch_full_size s)"
    using qs s(2) by (simp add: at_rest_def)
  have "0 < ?n" using offset_next(1)[OF f] off(2) by (simp add: word_less_nat_alt)
  then have "at_rest (?w q2)"
    using qs q2(2,3) offset_next(2)[OF f] s(2) by (simp add: at_rest_def next_fragment_def)
  moreover have "Suc (length fs) < N" using s(1,2) by (simp add: on_course_def)
  then have "N - Suc (length fs) = Suc (N - Suc (Suc (length fs)))" by linarith
  ultimately have oc: "on_course slot N base (?w q2)" using s(1,2) by (simp add: on_course_def)
  show ?thesis
  proof (rule that[OF oc])
    fix u t
    assume "ARM_UC_DeltaPaal_AsyncWrite_Handler P ARM_UC_PAAL_EVENT_WRITE_DONE (?w q2) = Some u" "reaches P u t"
    then show "reaches P ?u t" using t1 t2 by (auto intro: reaches_step)
  qed
qed

subsection \<open>After the patcher has returned\<close>

definition ended :: "delta_platform \<Rightarrow> u32 \<Rightarrow> nat \<Rightarrow> u32 list \<Rightarrow> bytes \<Rightarrow> delta_run \<Rightarrow> bool" where
  "ended P slot N base new t \<longleftrightarrow> delta_turn P t = Some t \<and> future t = [] \<and> slot_image slot (storage_calls t) = Some new \<and>
     upstream_events t = replicate N ARM_UC_PAAL_EVENT_WRITE_DONE @ base \<and> nextEventToPostToBsPatch t = EBSAPI_PATCH_DONE"

definition will_end :: "delta_platform \<Rightarrow> u32 \<Rightarrow> nat \<Rightarrow> u32 list \<Rightarrow> bytes \<Rightarrow> delta_run \<Rightarrow> bool" where
  "will_end P slot N base new s \<longleftrightarrow> (\<exists>t. reaches P s t \<and> ended P slot N base new t)"

lemma will_end_step: "delta_turn P s = Some u \<Longrightarrow> will_end P slot N base new u \<Longrightarrow> will_end P slot N base new s"
  unfolding will_end_def using reaches_step by blast

text \<open>The handler of events, when the buffer needs nothing.\<close>

lemma outgoing_idle:
  "bspatch_write_new_buffer_remaining s = 0 \<Longrightarrow> bsize (outgoing_new_buffer s) < size_max (outgoing_new_buffer s) \<Longrightarrow>
     outgoing_written P s = Some (False, s)"
  by (simp add: outgoing_written_def Let_def)

lemma signals:
  assumes "delta_incoming s \<noteq> 0" and "outgoing_written P s = Some (False, w)" and "incoming w = Some 0"
    and "delta_patch_full_size w = delta_patch_full_offset w \<Longrightarrow> nextEventToPostToBsPatch w = EBSAPI_PATCH_DONE"
    and "pal_deltapaal_upstream_event_handler w"
  shows "arm_uc_deltapaal_internal_event_handler P ARM_UC_PAAL_EVENT_WRITE_DONE s =
    Some (w\<lparr>upstream_events := ARM_UC_PAAL_EVENT_WRITE_DONE # upstream_events w\<rparr>)"
  using assms by (auto simp: arm_uc_deltapaal_internal_event_handler_def arm_uc_deltapaal_signal_ucfm_handler_def)

lemma goes_on:
  assumes "delta_incoming s \<noteq> 0" and "outgoing_written P s = Some (False, w)" and "incoming w = Some a"
    and "0 < a \<or> delta_patch_full_size w = delta_patch_full_offset w \<and> nextEventToPostToBsPatch w \<noteq> EBSAPI_PATCH_DONE"
  shows "arm_uc_deltapaal_internal_event_handler P ARM_UC_PAAL_EVENT_WRITE_DONE s = resume_patch P ARM_UC_PAAL_EVENT_WRITE_DONE w"
  using assms by (auto simp: arm_uc_deltapaal_internal_event_handler_def)

lemma posted_event:
  assumes "pending_rep (delta_sched s) []" and "plugin_error_pending (delta_sched s) = 0"
  shows "\<exists>q q'. ARM_UC_DeltaPaal_PALEventHandler ARM_UC_PAAL_EVENT_WRITE_DONE s = s\<lparr>delta_sched := q\<rparr> \<and>
    delta_turn P (s\<lparr>delta_sched := q\<rparr>) =
      arm_uc_deltapaal_internal_event_handler P ARM_UC_PAAL_EVENT_WRITE_DONE (s\<lparr>delta_sched := q'\<rparr>) \<and>
    pending_rep q' [] \<and> plugin_error_pending q' = 0"
proof -
  obtain q where q: "delta_post Cb_arm_uc_deltapaal_event_handler_callback Fn_arm_uc_deltapaal_internal_event_handler
      ARM_UC_PAAL_EVENT_WRITE_DONE s = (True, s\<lparr>delta_sched := q\<rparr>)"
    "single Fn_arm_uc_deltapaal_internal_event_handler ARM_UC_PAAL_EVENT_WRITE_DONE q"
    using post_single[OF assms] by blast
  then have "single Fn_arm_uc_deltapaal_internal_event_handler ARM_UC_PAAL_EVENT_WRITE_DONE (delta_sched (s\<lparr>delta_sched := q\<rparr>))" by simp
  from dispatch_single[OF this, of P] obtain q' where "delta_turn P (s\<lparr>delta_sched := q\<rparr>) =
      delta_task P Fn_arm_uc_deltapaal_internal_event_handler ARM_UC_PAAL_EVENT_WRITE_DONE (s\<lparr>delta_sched := q\<rparr>\<lparr>delta_sched := q'\<rparr>)"
    "pending_rep q' []" "plugin_error_pending q' = 0" by blast
  then show ?thesis using q(1) by (auto simp: ARM_UC_DeltaPaal_PALEventHandler_def delta_task_def)
qed

text \<open>The storage answers a write.\<close>

lemma write_reported:
  assumes "pending_rep (delta_sched s) []" and "plugin_error_pending (delta_sched s) = 0" and "answered s < write_count (storage_calls s)"
  obtains q where "pending_rep q []" and "plugin_error_pending q = 0"
    and "\<And>u. arm_uc_deltapaal_internal_event_handler P ARM_UC_PAAL_EVENT_WRITE_DONE
          (s\<lparr>answered := answered s + 1, delta_sched := q\<rparr>) = Some u \<Longrightarrow>
        will_end P slot N base new u \<Longrightarrow> will_end P slot N base new s"
proof -
  let ?s = "s\<lparr>answered := answered s + 1\<rparr>"
  have "pending_rep (delta_sched ?s) []" "plugin_error_pending (delta_sched ?s) = 0" using assms by simp_all
  from posted_event[OF this, of P] obtain q q' where q: "ARM_UC_DeltaPaal_PALEventHandler ARM_UC_PAAL_EVENT_WRITE_DONE ?s = ?s\<lparr>delta_sched := q\<rparr>"
    "delta_turn P (?s\<lparr>delta_sched := q\<rparr>) =
      arm_uc_deltapaal_internal_event_handler P ARM_UC_PAAL_EVENT_WRITE_DONE (?s\<lparr>delta_sched := q'\<rparr>)"
    "pending_rep q' []" "plugin_error_pending q' = 0" by blast
  have "delta_turn P s = Some (?s\<lparr>delta_sched := q\<rparr>)"
    using pending_queue_empty[OF assms(1)] assms(3) q(1) by (simp add: delta_turn_def)
  then show ?thesis using q(2-4) will_end_step by (intro that[of q']) metis+
qed

lemma unread_none:
  assumes "delta_view L t = Some ([], p, w)"
  shows "incoming t = Some 0" and "future t = []"
proof -
  obtain b where b: "incoming_buf_ref t = Some b" "incoming_hub_buf_ref_offset t \<le> bsize b" "buf_ok b"
    using assms by (auto simp: delta_view_def incoming_ok_def split: if_splits)
  have u: "drop (unat (incoming_hub_buf_ref_offset t)) (fragment_bytes b) = []" "concat (map fragment_bytes (future t)) = []"
    using assms b(1) by (auto simp: delta_view_def unread_def split: if_splits)
  have "unat (bsize b) \<le> unat (incoming_hub_buf_ref_offset t)" using u(1) fragment_bytes_length[OF b(3)] by simp
  then have "bsize b = incoming_hub_buf_ref_offset t" using b(2) by (simp add: word_le_nat_alt word_unat_eq_iff)
  then show "incoming t = Some 0" using b(1) by (simp add: incoming_def)
  have "fragment_bytes f \<noteq> []" if "f \<in> set (future t)" for f
  proof -
    have "buf_ok f" "0 < bsize f" using assms that by (auto simp: delta_view_def fragments_ok_def split: if_splits)
    then have "0 < length (fragment_bytes f)" using fragment_bytes_length[of f] by (simp add: word_less_nat_alt)
    then show ?thesis by simp
  qed
  then show "future t = []" using u(2) by (cases "future t") auto
qed

lemma last_written:
  assumes "storage_accepts P"
  shows "write_last P t = t\<lparr>storage_calls := PAAL_Write (current_slot_id t) (bspatch_new_offset t) (fragment_bytes (outgoing_new_buffer t)) # storage_calls t,
    bspatch_new_offset := bspatch_new_offset t + bsize (outgoing_new_buffer t)\<rparr>"
  using assms by (simp add: write_last_def write_outgoing_def storage_call_def Let_def storage_accepts_def fragment_bytes_def)

text \<open>The patch is done: the last part is written, and the storage's answer is the last event.\<close>

lemma finished_ends:
  assumes s: "on_course slot N base s" "future s = []" "write_count (storage_calls s) = answered s + 1" and "incoming s = Some 0"
    and "bspatch_write_new_buffer_remaining s = 0" and "bsize (outgoing_new_buffer s) < size_max (outgoing_new_buffer s)"
    and "slot_image slot (storage_calls s) = Some new" and "nextEventToPostToBsPatch s = EBSAPI_PATCH_DONE"
  shows "will_end P slot N base new s"
proof -
  have q: "at_rest s" using s(1) by (simp add: on_course_def)
  then have p: "pending_rep (delta_sched s) []" "plugin_error_pending (delta_sched s) = 0" by (simp_all add: at_rest_def)
  have "answered s < write_count (storage_calls s)" using s(3) by simp
  from write_reported[OF p this, of P slot N base new] obtain q' where q': "pending_rep q' []" and
    fin: "\<And>u. arm_uc_deltapaal_internal_event_handler P ARM_UC_PAAL_EVENT_WRITE_DONE
          (s\<lparr>answered := answered s + 1, delta_sched := q'\<rparr>) = Some u \<Longrightarrow>
        will_end P slot N base new u \<Longrightarrow> will_end P slot N base new s" by blast
  let ?s = "s\<lparr>answered := answered s + 1, delta_sched := q'\<rparr>"
  let ?u = "?s\<lparr>upstream_events := ARM_UC_PAAL_EVENT_WRITE_DONE # upstream_events ?s\<rparr>"
  show ?thesis
  proof (rule fin)
    show "arm_uc_deltapaal_internal_event_handler P ARM_UC_PAAL_EVENT_WRITE_DONE ?s = Some ?u"
    proof (rule signals)
      show "outgoing_written P ?s = Some (False, ?s)" using assms(5,6) by (intro outgoing_idle) simp_all
      show "incoming ?s = Some 0" using assms(4) by (simp add: incoming_def)
    qed (use q assms(8) in \<open>simp_all add: at_rest_def\<close>)
    obtain N' where N: "N = Suc N'" using s(1) by (cases N) (simp_all add: on_course_def)
    have "upstream_events ?u = replicate N ARM_UC_PAAL_EVENT_WRITE_DONE @ base"
      using s(1,2) by (simp add: on_course_def N)
    moreover have "delta_turn P ?u = Some ?u" using pending_queue_empty[OF q'] s(2,3) by (simp add: delta_turn_def)
    ultimately have "ended P slot N base new ?u" using s(2) assms(7,8) by (simp add: ended_def)
    then show "will_end P slot N base new ?u" unfolding will_end_def using reaches_refl by blast
  qed
qed

text \<open>What both callers of the patcher do when it is done.\<close>

lemma patch_ends:
  assumes "on_course slot N base t" and "delta_view L t = Some ([], p, new)" and "storage_accepts P"
    and u: "u = (write_last P t)\<lparr>nextEventToPostToBsPatch := EBSAPI_PATCH_DONE\<rparr> \<or>
      u = (snd (ARM_BS_Free (write_last P t)))\<lparr>nextEventToPostToBsPatch := EBSAPI_PATCH_DONE\<rparr>"
  shows "will_end P slot N base new u"
proof (rule finished_ends)
  obtain st where st: "slot_image (current_slot_id t) (storage_calls t) = Some st" "bspatch_new_offset t = of_nat (length st)"
    "new = st @ fragment_bytes (outgoing_new_buffer t)" "bsize (outgoing_new_buffer t) < size_max (outgoing_new_buffer t)"
    "length (ptr (outgoing_new_buffer t)) = unat (size_max (outgoing_new_buffer t))" "L \<le> unat (size_max (outgoing_new_buffer t))"
    "bspatch_write_new_buffer_remaining t = 0" "write_count (storage_calls t) = answered t"
    using assms(2) by (rule outgoing_parts)
  have slot: "current_slot_id t = slot" using assms(1) by (simp add: on_course_def)
  note w = last_written[OF assms(3), of t] unread_none[OF assms(2)]
  have "ledger u = ledger t" using u by (auto simp: w(1) ARM_BS_Free_def)
  then show "on_course slot N base u" using assms(1) on_course_ledger by blast
  show "write_count (storage_calls u) = answered u + 1" using u st(8) by (auto simp: w(1) ARM_BS_Free_def write_count_def)
  show "slot_image slot (storage_calls u) = Some new" using u st(1-3) slot by (auto simp: w(1) ARM_BS_Free_def)
  show "future u = []" "incoming u = Some 0" using u w(2,3) by (auto simp: w(1) ARM_BS_Free_def incoming_def)
  show "bspatch_write_new_buffer_remaining u = 0" "bsize (outgoing_new_buffer u) < size_max (outgoing_new_buffer u)"
    "nextEventToPostToBsPatch u = EBSAPI_PATCH_DONE"
    using u st(4,7) by (auto simp: w(1) ARM_BS_Free_def)
qed

subsection \<open>The whole update\<close>

text \<open>The two callers of the patcher, with the state in which they call it.\<close>

definition both_end :: "delta_platform \<Rightarrow> u32 \<Rightarrow> nat \<Rightarrow> u32 list \<Rightarrow> bytes \<Rightarrow> delta_run \<Rightarrow> bool" where
  "both_end P slot N base new s \<longleftrightarrow>
     (\<exists>u. async_write_loop P s = Some u \<and> will_end P slot N base new u) \<and>
     (\<exists>u. resume_patch P ARM_UC_PAAL_EVENT_WRITE_DONE s = Some u \<and> will_end P slot N base new u)"

lemma both_end_done:
  assumes "process_patch_event P s = Some (EBSAPI_PATCH_DONE, t)" and "on_course slot N base t"
    and "delta_view L t = Some ([], p, new)" and "storage_accepts P"
  shows "both_end P slot N base new s"
  using patch_ends[OF assms(2-4)] assms(1)
  by (auto simp: both_end_def resume_patch_def async_write_loop.simps[of P s])

lemma quiet_more: "at_rest s \<Longrightarrow> future s \<noteq> [] \<Longrightarrow> delta_patch_full_size s \<noteq> delta_patch_full_offset s"
  by (cases "future s") (auto simp: at_rest_def word_less_nat_alt)

lemma quiet_size: "at_rest s \<Longrightarrow> delta_patch_full_offset s \<le> delta_patch_full_size s"
  by (auto simp: at_rest_def word_le_nat_alt)

lemma quiet_queue: "at_rest s \<Longrightarrow> pending_rep (delta_sched s) [] \<and> plugin_error_pending (delta_sched s) = 0"
  by (simp add: at_rest_def)

lemma with_queue: "s\<lparr>delta_sched := q, upstream_events := es\<rparr> = counters q es (delta_patch_full_offset s) (told s) s"
  by (cases s) (simp add: counters_def)

lemma ledger_finish:
  assumes "finish_patch_read s = Some (ERR_NONE, t)"
  shows "ledger t = ledger s" and "nextEventToPostToBsPatch t = nextEventToPostToBsPatch s"
proof -
  have n: "bs_store b i bs x = Some y \<Longrightarrow> nextEventToPostToBsPatch y = nextEventToPostToBsPatch x" for b i bs and x y :: delta_run
    by (auto simp: bs_store_def split: bs_buffer.splits)
  show "ledger t = ledger s"
    using assms by (auto simp: finish_patch_read_def Let_def dest!: ledger_store split: Option.bind_splits if_splits)
  show "nextEventToPostToBsPatch t = nextEventToPostToBsPatch s"
    using assms by (auto simp: finish_patch_read_def Let_def dest!: n split: Option.bind_splits if_splits)
qed

lemma written_keeps:
  assumes "outgoing_written P s = Some (False, w)"
  shows "ledger w = ledger s" and "incoming w = incoming s" and "nextEventToPostToBsPatch w = nextEventToPostToBsPatch s"
    and "storage_calls w = storage_calls s"
  using assms by (auto simp: outgoing_written_def Let_def copy_leftover_def incoming_def split: if_splits Option.bind_splits prod.splits)

lemma counters_counters: "counters q es n k (counters q' es' n' k' s) = counters q es n k s"
  "next_fragment (counters q es n k s) = counters q es n k (next_fragment s)"
  by (simp_all add: counters_def next_fragment_def)

text \<open>The rest of a read comes with the next fragment.\<close>

lemma read_continues:
  assumes s: "on_course slot N base s" "future s \<noteq> []" "incoming s = Some 0" "all_written s"
    "nextEventToPostToBsPatch s = EBSAPI_READ_PATCH_DONE" "finish_patch_read (next_fragment s) = Some (ERR_NONE, w)"
    and later: "\<And>q es n k. on_course slot N base (counters q es n k w) \<Longrightarrow> both_end P slot N base new (counters q es n k w)"
    and q: "pending_rep q []" "plugin_error_pending q = 0"
  shows "will_end P slot N base new (s\<lparr>delta_sched := q, upstream_events := ARM_UC_PAAL_EVENT_WRITE_DONE # upstream_events s\<rparr>)"
proof -
  obtain f fs where f: "future s = f # fs" using s(2) by (cases "future s") auto
  have w: "write_count (storage_calls s) = answered s" using s(4) by (simp add: all_written_def)
  obtain q' n k where c: "on_course slot N base (counters q' (ARM_UC_PAAL_EVENT_WRITE_DONE # upstream_events s) n k (next_fragment s))"
    and r: "\<And>u t. ARM_UC_DeltaPaal_AsyncWrite_Handler P ARM_UC_PAAL_EVENT_WRITE_DONE
        (counters q' (ARM_UC_PAAL_EVENT_WRITE_DONE # upstream_events s) n k (next_fragment s)) = Some u \<Longrightarrow> reaches P u t \<Longrightarrow>
      reaches P (s\<lparr>delta_sched := q, upstream_events := ARM_UC_PAAL_EVENT_WRITE_DONE # upstream_events s\<rparr>) t"
    using hub_writes[OF s(1) f w q, of P] by blast
  let ?c = "counters q' (ARM_UC_PAAL_EVENT_WRITE_DONE # upstream_events s) n k"
  have fin: "finish_patch_read (?c (next_fragment s)) = Some (ERR_NONE, ?c w)" using s(6) by (simp add: finish_counters)
  have "ledger (?c w) = ledger (?c (next_fragment s))"
    using fin by (rule ledger_finish(1))
  then have "on_course slot N base (?c w)" using c on_course_ledger by blast
  then obtain u where u: "async_write_loop P (?c w) = Some u" "will_end P slot N base new u"
    using later unfolding both_end_def by blast
  have "ARM_UC_DeltaPaal_AsyncWrite_Handler P ARM_UC_PAAL_EVENT_WRITE_DONE (?c (next_fragment s)) = Some u"
    using s(5) fin u(1) by (simp add: ARM_UC_DeltaPaal_AsyncWrite_Handler_def)
  then show ?thesis using r u(2) unfolding will_end_def by blast
qed

text \<open>A write that the storage has answered.\<close>

lemma write_continues:
  assumes s: "on_course slot N base s" "write_answered P s w" "nextEventToPostToBsPatch s = EBSAPI_WRITE_NEW_DONE"
    and later: "\<And>q es n k. on_course slot N base (counters q es n k w) \<Longrightarrow> both_end P slot N base new (counters q es n k w)"
    and later': "\<And>q es n k. incoming w = Some 0 \<Longrightarrow> future w \<noteq> [] \<Longrightarrow> on_course slot N base (counters q es n k (next_fragment w)) \<Longrightarrow>
      both_end P slot N base new (counters q es n k (next_fragment w))"
  shows "will_end P slot N base new s"
proof -
  have q: "at_rest s" using s(1) by (simp add: on_course_def)
  have inc0: "incoming s \<noteq> None" using s(2) by (simp add: write_answered_def)
  have wa: "write_count (storage_calls s) = answered s + 1" "outgoing_written P (s\<lparr>answered := answered s + 1\<rparr>) = Some (False, w)"
    using s(2) by (simp_all add: write_answered_def)
  then have "answered s < write_count (storage_calls s)" by simp
  with quiet_queue[OF q] obtain q' where q': "pending_rep q' []" "plugin_error_pending q' = 0"
    and fin: "\<And>u. arm_uc_deltapaal_internal_event_handler P ARM_UC_PAAL_EVENT_WRITE_DONE
          (s\<lparr>answered := answered s + 1, delta_sched := q'\<rparr>) = Some u \<Longrightarrow>
        will_end P slot N base new u \<Longrightarrow> will_end P slot N base new s"
    using write_reported[of s P slot N base new] by blast
  let ?c = "counters q' (upstream_events s) (delta_patch_full_offset s) (told s)"
  let ?s = "s\<lparr>answered := answered s + 1\<rparr>"
  have x: "s\<lparr>answered := answered s + 1, delta_sched := q'\<rparr> = ?c ?s" by (cases s) (simp add: counters_def)
  have out: "outgoing_written P (?c ?s) = Some (False, ?c w)" by (rule written_counters) (rule wa(2))
  note k = written_keeps[OF out]
  have "at_rest (?c ?s)" using q q' by (simp add: at_rest_def)
  then have "on_course slot N base (?c ?s)" using s(1) by (simp add: on_course_def)
  then have oc: "on_course slot N base (?c w)" using on_course_ledger[OF k(1)] by blast
  obtain a where a: "incoming (?c w) = Some a" using inc0 k(2) by (auto simp: incoming_def)
  have nx: "nextEventToPostToBsPatch (?c w) = EBSAPI_WRITE_NEW_DONE" using k(3) s(3) by simp
  have inc: "delta_incoming (?c ?s) \<noteq> 0" using q by (simp add: at_rest_def)
  show ?thesis
  proof (cases "0 < a \<or> delta_patch_full_size (?c w) = delta_patch_full_offset (?c w)")
    case True
    then have "arm_uc_deltapaal_internal_event_handler P ARM_UC_PAAL_EVENT_WRITE_DONE (?c ?s) =
        resume_patch P ARM_UC_PAAL_EVENT_WRITE_DONE (?c w)" using nx by (intro goes_on[OF inc out a]) simp
    moreover obtain u where "resume_patch P ARM_UC_PAAL_EVENT_WRITE_DONE (?c w) = Some u" "will_end P slot N base new u"
      using later[OF oc] unfolding both_end_def by blast
    ultimately show ?thesis using fin unfolding x by simp
  next
    case False
    then have a0: "a = 0" and size: "delta_patch_full_size (?c w) \<noteq> delta_patch_full_offset (?c w)"
      by (simp_all add: word_neq_0_conv[symmetric])
    let ?u = "(?c w)\<lparr>upstream_events := ARM_UC_PAAL_EVENT_WRITE_DONE # upstream_events (?c w)\<rparr>"
    have qw: "at_rest (?c w)" using oc unfolding on_course_def by (rule conjunct1)
    have h: "arm_uc_deltapaal_internal_event_handler P ARM_UC_PAAL_EVENT_WRITE_DONE (?c ?s) = Some ?u"
      using size a a0 qw by (intro signals[OF inc out]) (simp_all add: at_rest_def)
    have "future (?c w) \<noteq> []" using qw size by (auto simp: at_rest_def word_unat_eq_iff)
    then obtain f fs where f: "future (?c w) = f # fs" by (cases "future (?c w)") auto
    have wr: "write_count (storage_calls (?c w)) = answered (?c w)" using k(1,4) wa(1) by (simp add: ledger_def)
    have u: "?u = (?c w)\<lparr>delta_sched := q', upstream_events := ARM_UC_PAAL_EVENT_WRITE_DONE # upstream_events (?c w)\<rparr>"
      by (simp add: counters_def)
    obtain q2 n k2 where c: "on_course slot N base (counters q2 (ARM_UC_PAAL_EVENT_WRITE_DONE # upstream_events (?c w)) n k2 (next_fragment (?c w)))"
      and r: "\<And>u t. ARM_UC_DeltaPaal_AsyncWrite_Handler P ARM_UC_PAAL_EVENT_WRITE_DONE
          (counters q2 (ARM_UC_PAAL_EVENT_WRITE_DONE # upstream_events (?c w)) n k2 (next_fragment (?c w))) = Some u \<Longrightarrow>
        reaches P u t \<Longrightarrow> reaches P ?u t"
      using hub_writes[OF oc f wr q', of P] unfolding u by blast
    let ?d = "counters q2 (ARM_UC_PAAL_EVENT_WRITE_DONE # upstream_events (?c w)) n k2 (next_fragment w)"
    have d: "counters q2 (ARM_UC_PAAL_EVENT_WRITE_DONE # upstream_events (?c w)) n k2 (next_fragment (?c w)) = ?d"
      by (simp only: counters_counters)
    have "both_end P slot N base new ?d" using a a0 f c unfolding d by (intro later') simp_all
    then obtain v where v: "async_write_loop P ?d = Some v" "will_end P slot N base new v" unfolding both_end_def by blast
    have "ARM_UC_DeltaPaal_AsyncWrite_Handler P ARM_UC_PAAL_EVENT_WRITE_DONE ?d = Some v"
      using v(1) nx by (simp add: ARM_UC_DeltaPaal_AsyncWrite_Handler_def)
    then have "will_end P slot N base new ?u" using r v(2) unfolding d will_end_def by blast
    then show ?thesis using fin h unfolding x by blast
  qed
qed

lemma same_event: "nextEventToPostToBsPatch (t :: delta_run) = e \<Longrightarrow> t\<lparr>nextEventToPostToBsPatch := e\<rparr> = t"
  by (cases t) simp

lemma served_ends:
  assumes "served lz4 client later Q e s" and "lz4 = decompress P" and "client = delta_client P" and "later = delta_later P"
    and "Q = (\<lambda>t. \<exists>p. delta_view L t = Some ([], p, new))" and "storage_accepts P"
    and "e = nextEventToPostToBsPatch s" and "on_course slot N base s"
  shows "both_end P slot N base new s"
  using assms
proof (induction rule: served.induct)
  case (patched e s t)
  have p: "process_patch_event P s = Some (EBSAPI_PATCH_DONE, t)"
    using patched.hyps(1) unfolding process_patch_event_def patched.prems(1,2,6) .
  then have "on_course slot N base t" using process_tidy[OF p] patched.prems(7) on_course_ledger by blast
  moreover obtain p' where "delta_view L t = Some ([], p', new)" using patched.hyps(2) patched.prems(4) by blast
  ultimately show ?case using p patched.prems(5) by (intro both_end_done)
next
  case (delayed e s r t)
  have p: "process_patch_event P s = Some (r, t)"
    using delayed.hyps(1) unfolding process_patch_event_def delayed.prems(1,2,6) .
  note tidy = process_tidy[OF p]
  have oc: "on_course slot N base t" using tidy delayed.prems(7) on_course_ledger by blast
  then have qt: "at_rest t" by (simp add: on_course_def)
  have ev: "expectedExternalEvent t = nextEventToPostToBsPatch t" and w: "waits_for r (nextEventToPostToBsPatch t)"
    using tidy delayed.hyps(2) by simp_all
  have later: "both_end P slot N base new v" if "delta_later P t v" "on_course slot N base v"
    "nextEventToPostToBsPatch v = nextEventToPostToBsPatch t" for v
    using delayed.IH that delayed.prems ev by simp
  obtain v0 where v0: "delta_later P t v0" using delayed.hyps(3) delayed.prems(3) by blast
  show ?case
  proof (cases "r = EBSAPI_OPERATION_PATCH_READ_WILL_COMPLETE_LATER")
    case True
    then have nx: "nextEventToPostToBsPatch t = EBSAPI_READ_PATCH_DONE" using w by (simp add: waits_for_def)
    then obtain z where z: "future t \<noteq> []" "incoming t = Some 0" "all_written t" "finish_patch_read (next_fragment t) = Some (ERR_NONE, z)"
      using v0 by (auto simp: delta_later_def)
    have nz: "nextEventToPostToBsPatch z = nextEventToPostToBsPatch t" using ledger_finish(2)[OF z(4)] by simp
    have go: "both_end P slot N base new (counters q es n k z)" if "on_course slot N base (counters q es n k z)" for q es n k
      using that nz by (intro later later_read[OF nx z]) simp_all
    have sig: "will_end P slot N base new (t\<lparr>delta_sched := q, upstream_events := ARM_UC_PAAL_EVENT_WRITE_DONE # upstream_events t\<rparr>)"
      if "pending_rep q []" "plugin_error_pending q = 0" for q
      using read_continues[OF oc z(1,2,3) nx z(4) go that] by blast
    show ?thesis unfolding both_end_def
    proof (intro conjI)
      obtain q q' where q: "ARM_UC_DeltaPaal_PALEventHandler ARM_UC_PAAL_EVENT_WRITE_DONE t = t\<lparr>delta_sched := q\<rparr>"
        "delta_turn P (t\<lparr>delta_sched := q\<rparr>) = arm_uc_deltapaal_internal_event_handler P ARM_UC_PAAL_EVENT_WRITE_DONE (t\<lparr>delta_sched := q'\<rparr>)"
        "pending_rep q' []" "plugin_error_pending q' = 0"
        using posted_event[of t P] quiet_queue[OF qt] by blast
      let ?t = "t\<lparr>delta_sched := q'\<rparr>"
      have "arm_uc_deltapaal_internal_event_handler P ARM_UC_PAAL_EVENT_WRITE_DONE ?t =
          Some (?t\<lparr>upstream_events := ARM_UC_PAAL_EVENT_WRITE_DONE # upstream_events ?t\<rparr>)"
      proof (rule signals)
        show "outgoing_written P ?t = Some (False, ?t)" using z(3) by (intro outgoing_idle) (simp_all add: all_written_def)
        show "incoming ?t = Some 0" using z(2) by (simp add: incoming_def)
      qed (use qt quiet_more[OF qt z(1)] in \<open>simp_all add: at_rest_def\<close>)
      then have "will_end P slot N base new (t\<lparr>delta_sched := q\<rparr>)" using sig[OF q(3,4)] q(2) will_end_step by simp
      moreover have "async_write_loop P s = Some (t\<lparr>delta_sched := q\<rparr>)"
        using p True q(1) by (subst async_write_loop.simps) simp
      ultimately show "\<exists>u. async_write_loop P s = Some u \<and> will_end P slot N base new u" by blast
    next
      have "resume_patch P ARM_UC_PAAL_EVENT_WRITE_DONE s = Some (t\<lparr>upstream_events := ARM_UC_PAAL_EVENT_WRITE_DONE # upstream_events t\<rparr>)"
        using p True qt by (simp add: resume_patch_def arm_uc_deltapaal_signal_ucfm_handler_def at_rest_def)
      moreover have e: "t\<lparr>upstream_events := ARM_UC_PAAL_EVENT_WRITE_DONE # upstream_events t\<rparr> =
          t\<lparr>delta_sched := delta_sched t, upstream_events := ARM_UC_PAAL_EVENT_WRITE_DONE # upstream_events t\<rparr>" by simp
      have "will_end P slot N base new (t\<lparr>upstream_events := ARM_UC_PAAL_EVENT_WRITE_DONE # upstream_events t\<rparr>)"
        unfolding e by (rule sig) (use quiet_queue[OF qt] in blast)+
      ultimately show "\<exists>u. resume_patch P ARM_UC_PAAL_EVENT_WRITE_DONE s = Some u \<and> will_end P slot N base new u" by blast
    qed
  next
    case False
    then have r: "r = EBSAPI_OPERATION_NEW_FILE_WRITE_WILL_COMPLETE_LATER" and nx: "nextEventToPostToBsPatch t = EBSAPI_WRITE_NEW_DONE"
      using w by (simp_all add: waits_for_def)
    then obtain z where z: "write_answered P t z" using v0 by (auto simp: delta_later_def)
    have nz: "nextEventToPostToBsPatch z = nextEventToPostToBsPatch t"
      using z written_keeps(3) by (fastforce simp: write_answered_def)
    have "will_end P slot N base new t"
    proof (rule write_continues[OF oc z nx])
      show "both_end P slot N base new (counters q es n k z)" if "on_course slot N base (counters q es n k z)" for q es n k
        using that nz by (intro later later_write[OF nx z]) simp_all
      show "both_end P slot N base new (counters q es n k (next_fragment z))"
        if "incoming z = Some 0" "future z \<noteq> []" "on_course slot N base (counters q es n k (next_fragment z))" for q es n k
        using that nz by (intro later later_write_next[OF nx z]) simp_all
    qed
    moreover have "async_write_loop P s = Some t" using p r quiet_size[OF qt] by (subst async_write_loop.simps) simp
    moreover have "resume_patch P ARM_UC_PAAL_EVENT_WRITE_DONE s = Some t"
      using p r by (simp add: resume_patch_def same_event[OF nx])
    ultimately show ?thesis by (simp add: both_end_def)
  qed
qed

subsection \<open>From the first fragment to the last\<close>

text \<open>The driver before an update.\<close>

definition driver_ready :: "nat \<Rightarrow> delta_run \<Rightarrow> bool" where
  "driver_ready L s \<longleftrightarrow> pending_rep (delta_sched s) [] \<and> plugin_error_pending (delta_sched s) = 0 \<and>
     paal_storage_implementation s \<and> pal_deltapaal_upstream_event_handler s \<and> told s = length (upstream_events s) \<and>
     answered s = write_count (storage_calls s) \<and> aligned (bs_address s) \<and>
     length (ptr (outgoing_new_buffer s)) = unat (size_max (outgoing_new_buffer s)) \<and> L \<le> unat (size_max (outgoing_new_buffer s))"

lemma fragments_length:
  "\<forall>f \<in> set fs. buf_ok f \<Longrightarrow> (\<Sum>f \<leftarrow> fs. unat (bsize f)) = length (concat (map fragment_bytes fs))"
  by (induction fs) (simp_all add: fragment_bytes_length)

lemma first_fragment:
  assumes "concat (map fragment_bytes (f # fs)) = patch_bytes M unused old segs" and "length unused = 8"
    and "fragments_ok L (f # fs)" and "FILE_HEADER_LEN \<le> L"
  shows "rd_block (ptr f) 0 FILE_MAGIC_LEN = Some FILE_MAGIC"
proof -
  let ?h = "patch_header (length (patched old 0 segs)) M unused"
  have b: "buf_ok f" using assms(3) by (simp add: fragments_ok_def)
  have e: "fragment_bytes f @ concat (map fragment_bytes fs) = ?h @ concat (map segment_bytes segs)"
    using assms(1) by (simp add: patch_bytes_def)
  have l: "length ?h = FILE_HEADER_LEN" using patch_header_length[OF assms(2)] by simp
  have n: "FILE_MAGIC_LEN \<le> length (fragment_bytes f)"
  proof (cases "fs = []")
    case True
    then have "length (fragment_bytes f) = length (?h @ concat (map segment_bytes segs))" using e by simp
    then show ?thesis using l by simp
  next
    case False
    then have "L \<le> unat (bsize f)" using assms(3) by (simp add: fragments_ok_def)
    then show ?thesis using fragment_bytes_length[OF b] assms(4) by simp
  qed
  have "take FILE_MAGIC_LEN (fragment_bytes f) = FILE_MAGIC"
    using arg_cong[OF e, of "take FILE_MAGIC_LEN"] n by (simp add: patch_header_def)
  then show ?thesis using read_fragment[OF b, of 0 FILE_MAGIC_LEN] n fragment_bytes_length[OF b] by simp
qed

definition started :: "u8 \<Rightarrow> u32 \<Rightarrow> u32 \<Rightarrow> arm_uc_firmware_details_t \<Rightarrow> buf_addr \<Rightarrow> arm_uc_buffer_t \<Rightarrow> (delta_cb, delta_fn) sched \<Rightarrow>
    delta_run \<Rightarrow> delta_run" where
  "started h payload slot d b f q s =
     (ARM_BS_Init (arm_uc_deltapaal_reset_internals s))\<lparr>delta_incoming := h, delta_patch_full_size := ucast payload,
       nextEventToPostToBsPatch := EBSAPI_START_PATCH_PROCESSING, storage_calls := PAAL_Prepare slot d b # storage_calls s,
       incoming_buf_ref := Some f, incoming_hub_buf_ref_offset := 0, current_slot_id := slot,
       delta_patch_full_offset := ucast (bsize f), update_payload_full := False, delta_sched := q\<rparr>"

lemma started_stream: "ARM_BS_Init (started h payload slot d b f q s) = started h payload slot d b f q s"
  by (cases s) (simp add: started_def ARM_BS_Init_def arm_uc_deltapaal_reset_internals_def)

lemma started_view:
  assumes "driver_ready L s" and "fragments_ok L (f # future s)" and "0 < L"
  shows "delta_view L (started h payload slot d b f q s) = Some (concat (map fragment_bytes (f # future s)), 0, [])"
proof -
  have "0 < unat (size_max (outgoing_new_buffer s))" using assms(1,3) by (simp add: driver_ready_def)
  then have "0 < size_max (outgoing_new_buffer s)" by (simp add: word_less_nat_alt)
  moreover have "fragments_ok L (future s)" "buf_ok f" using assms(2) by (auto simp: fragments_ok_def split: if_splits)
  ultimately show ?thesis using assms(1)
    by (simp add: delta_view_def started_def ARM_BS_Init_def arm_uc_deltapaal_reset_internals_def incoming_ok_def outgoing_ok_def
        unread_def written_def driver_ready_def Let_def write_count_def fragment_bytes_def)
qed

lemma started_course:
  assumes "driver_ready L s" and "fragments_ok L (f # future s)" and "h \<noteq> 0"
    and "unat payload = length (concat (map fragment_bytes (f # future s)))" and "pending_rep q []" and "plugin_error_pending q = 0"
  shows "on_course slot (Suc (length (future s))) (upstream_events s) (started h payload slot d b f q s)"
proof -
  have f: "\<forall>f \<in> set (future s). buf_ok f \<and> 0 < bsize f" "buf_ok f" "0 < bsize f" using assms(2) by (auto simp: fragments_ok_def)
  have sum: "unat (bsize f) + (\<Sum>f \<leftarrow> future s. unat (bsize f)) = unat payload"
    using fragments_length[of "future s"] f fragment_bytes_length[OF f(2)] assms(4) by simp
  have pos: "0 < (ucast (bsize f) :: u64)" using f(3) by (simp add: word_less_nat_alt ucast_64)
  have "at_rest (started h payload slot d b f q s)"
    using assms(1,3,5,6) f sum pos unat_32[of payload]
    by (simp add: at_rest_def started_def driver_ready_def ARM_BS_Init_def arm_uc_deltapaal_reset_internals_def ucast_64)
  then show ?thesis
    by (simp add: on_course_def) (simp add: started_def ARM_BS_Init_def arm_uc_deltapaal_reset_internals_def)
qed

lemma update_started:
  assumes "driver_ready L s" and "storage_accepts P" and "h \<noteq> 0" and "rd_block (ptr f) 0 FILE_MAGIC_LEN = Some FILE_MAGIC"
  obtains s1 s2 q where "ARM_UC_PAL_DeltaPaal_Prepare P h payload slot (Some d) (Some b) s = (ERR_NONE, s1)"
    and "ARM_UC_PAL_DeltaPaal_Write P slot 0 f s1 = Some (ERR_NONE, s2)"
    and "delta_turn P s2 = ARM_UC_DeltaPaal_AsyncWrite_Handler P ARM_UC_PAAL_EVENT_WRITE_DONE (started h payload slot d b f q s)"
    and "pending_rep q []" and "plugin_error_pending q = 0"
proof -
  let ?q = "delta_sched s" and ?s = "started h payload slot d b f (delta_sched s) s"
  let ?s1 = "(ARM_BS_Init (arm_uc_deltapaal_reset_internals s))\<lparr>delta_incoming := h, delta_patch_full_size := ucast payload,
       nextEventToPostToBsPatch := EBSAPI_START_PATCH_PROCESSING, storage_calls := PAAL_Prepare slot d b # storage_calls s\<rparr>"
  have r: "pending_rep ?q []" "plugin_error_pending ?q = 0" "paal_storage_implementation s"
    using assms(1) by (simp_all add: driver_ready_def)
  then have p: "pending_rep (delta_sched ?s) []" "plugin_error_pending (delta_sched ?s) = 0" by (simp_all add: started_def)
  have s1: "ARM_UC_PAL_DeltaPaal_Prepare P h payload slot (Some d) (Some b) s = (ERR_NONE, ?s1)"
    using assms(2,3) r(3) by (cases s)
      (simp add: ARM_UC_PAL_DeltaPaal_Prepare_def storage_call_def storage_accepts_def Let_def ARM_BS_Init_def arm_uc_deltapaal_reset_internals_def)
  obtain q where q: "delta_post Cb_arm_uc_deltapaal_write_async_callback Fn_ARM_UC_DeltaPaal_AsyncWrite_Handler
      ARM_UC_PAAL_EVENT_WRITE_DONE ?s = (True, ?s\<lparr>delta_sched := q\<rparr>)"
    "single Fn_ARM_UC_DeltaPaal_AsyncWrite_Handler ARM_UC_PAAL_EVENT_WRITE_DONE q"
    using post_single[OF p] by blast
  let ?s2 = "?s\<lparr>delta_sched := q\<rparr>"
  have e: "?s1\<lparr>incoming_buf_ref := Some f, incoming_hub_buf_ref_offset := 0, current_slot_id := slot,
      delta_patch_full_offset := delta_patch_full_offset ?s1 + ucast (bsize f), update_payload_full := False\<rparr> = ?s"
    by (cases s) (simp add: started_def ARM_BS_Init_def arm_uc_deltapaal_reset_internals_def)
  define s1 where "s1 = ?s1"
  have s2: "ARM_UC_PAL_DeltaPaal_Write P slot 0 f s1 = Some (ERR_NONE, ?s2)"
    using assms(4) q(1) e unfolding s1_def[symmetric] by (simp add: ARM_UC_PAL_DeltaPaal_Write_def Let_def)
  have "single Fn_ARM_UC_DeltaPaal_AsyncWrite_Handler ARM_UC_PAAL_EVENT_WRITE_DONE (delta_sched ?s2)" using q(2) by simp
  from dispatch_single[OF this, of P] obtain q2 where q2: "delta_turn P ?s2 =
      delta_task P Fn_ARM_UC_DeltaPaal_AsyncWrite_Handler ARM_UC_PAAL_EVENT_WRITE_DONE (?s2\<lparr>delta_sched := q2\<rparr>)"
    "pending_rep q2 []" "plugin_error_pending q2 = 0" by blast
  have "?s2\<lparr>delta_sched := q2\<rparr> = started h payload slot d b f q2 s" by (simp add: started_def)
  then have "delta_turn P ?s2 = ARM_UC_DeltaPaal_AsyncWrite_Handler P ARM_UC_PAAL_EVENT_WRITE_DONE (started h payload slot d b f q2 s)"
    using q2(1) by (simp add: delta_task_def)
  then show ?thesis using that[OF s1[folded s1_def] s2 _ q2(2,3)] by blast
qed

text \<open>
  C2. An update with a delta is complete: let the fragments of the hub be a patch that makes
  \<open>patched old 0 segs\<close> of the active image, cut anywhere as long as all fragments but the last have
  room for the longest read, and let the storage accept its calls. Then \<open>Prepare\<close> and the first
  \<open>Write\<close> return \<open>ERR_NONE\<close>, and after finitely many turns of the queue, the storage and the hub the
  driver is at rest: the slot holds the new image, written in parts that follow one another, the
  hub has no fragment left, and every fragment has been answered with exactly one \<open>WRITE_DONE\<close>.
\<close>

theorem delta_update:
  assumes "patch_ok (decompress P) M old segs" and "length unused = 8"
    and "concat (map fragment_bytes (f # future s)) = patch_bytes M unused old segs"
    and "fragments_ok (max M FILE_HEADER_LEN) (f # future s)" and "unat payload = length (patch_bytes M unused old segs)"
    and "reads_image P old" and "storage_accepts P" and "driver_ready (max M FILE_HEADER_LEN) s" and "h \<noteq> 0"
  shows "\<exists>s1 s2 n t. ARM_UC_PAL_DeltaPaal_Prepare P h payload slot (Some d) (Some b) s = (ERR_NONE, s1) \<and>
    ARM_UC_PAL_DeltaPaal_Write P slot 0 f s1 = Some (ERR_NONE, s2) \<and>
    delta_turns P n s2 = Some t \<and> delta_turn P t = Some t \<and>
    slot_image slot (storage_calls t) = Some (patched old 0 segs) \<and> future t = [] \<and>
    upstream_events t = replicate (Suc (length (future s))) ARM_UC_PAAL_EVENT_WRITE_DONE @ upstream_events s"
proof -
  let ?L = "max M FILE_HEADER_LEN" and ?new = "patched old 0 segs" and ?N = "Suc (length (future s))"
  have magic: "rd_block (ptr f) 0 FILE_MAGIC_LEN = Some FILE_MAGIC" using first_fragment[OF assms(3,2,4)] by simp
  obtain s1 s2 q where s12: "ARM_UC_PAL_DeltaPaal_Prepare P h payload slot (Some d) (Some b) s = (ERR_NONE, s1)"
    "ARM_UC_PAL_DeltaPaal_Write P slot 0 f s1 = Some (ERR_NONE, s2)"
    and q: "delta_turn P s2 = ARM_UC_DeltaPaal_AsyncWrite_Handler P ARM_UC_PAAL_EVENT_WRITE_DONE (started h payload slot d b f q s)"
    "pending_rep q []" "plugin_error_pending q = 0"
    using update_started[OF assms(8,7,9) magic] by blast
  let ?s = "started h payload slot d b f q s" and ?Q = "\<lambda>t. \<exists>p. delta_view ?L t = Some ([], p, ?new)"
  have io: "delta_io P old ?L (bspatch_stream.more ?s) = Some (patch_bytes M unused old segs @ [], 0, [])"
    using started_view[OF assms(8,4)] assms(3,6,7) by (simp add: delta_io_view)
  have addr: "aligned (bs_address ?s)" using assms(8)
    by (simp add: driver_ready_def started_def ARM_BS_Init_def arm_uc_deltapaal_reset_internals_def)
  have "served (decompress P) (delta_client P) (delta_later P) ?Q EBSAPI_START_PATCH_PROCESSING (ARM_BS_Init ?s)"
  proof (rule delta.patch_started[OF assms(1,2) addr _ _ io])
    fix t p
    assume "delta_io P old ?L (bspatch_stream.more t) = Some ([], p, ?new)"
    then show "?Q t" by (auto simp: delta_io_view split: if_splits)
  qed simp_all
  then have served: "served (decompress P) (delta_client P) (delta_later P) ?Q (nextEventToPostToBsPatch ?s) ?s"
    by (simp only: started_stream) (simp add: started_def)
  have oc: "on_course slot ?N (upstream_events s) ?s"
    using assms(3,5) by (intro started_course[OF assms(8,4,9) _ q(2,3)]) simp
  obtain u where u: "async_write_loop P ?s = Some u" "will_end P slot ?N (upstream_events s) ?new u"
    using served_ends[OF served refl refl refl refl assms(7) refl oc] unfolding both_end_def by blast
  have "nextEventToPostToBsPatch ?s = EBSAPI_START_PATCH_PROCESSING" by (simp add: started_def)
  then have "delta_turn P s2 = Some u" using q(1) u(1) by (simp add: ARM_UC_DeltaPaal_AsyncWrite_Handler_def)
  then have "will_end P slot ?N (upstream_events s) ?new s2" using u(2) by (rule will_end_step)
  then show ?thesis using s12 unfolding will_end_def ended_def reaches_def by blast
qed

subsection \<open>An update\<close>

text \<open>Frames are not compressed; the image of four bytes gets a one added to each, and thirty bytes more.\<close>

definition sample_old :: bytes where
  "sample_old = [10, 20, 30, 40]"

definition sample_segments :: "segment list" where
  "sample_segments = [([([1, 1, 1, 1], [1, 1, 1, 1])], [(replicate 30 9, replicate 30 9)], 0)]"

definition sample_platform :: delta_platform where
  "sample_platform =
     \<lparr>storage = (\<lambda>_. \<lparr>rcode = ERR_NONE, rnum = 0, rbytes = [], rdetails = no_details,
                       rinstaller = \<lparr>arm_hash = [], oem_hash = [], layout = 0\<rparr>, ractions = []\<rparr>),
      original_reader = (\<lambda>n off. Some (take (unat n) (drop (unat off) sample_old))),
      decompress = (\<lambda>src capacity. (int (length src), src))\<rparr>"

definition sample_patch :: bytes where
  "sample_patch = FILE_MAGIC @ [34, 0, 0, 0, 0, 0, 0, 0] @ [64, 0, 0, 0, 0, 0, 0, 0] @ replicate 8 0 @
     [4, 30, 0] @ [4, 1, 1, 1, 1] @ 30 # replicate 30 9"

definition sample_fragment :: "nat \<Rightarrow> bytes \<Rightarrow> arm_uc_buffer_t" where
  "sample_fragment n bs = \<lparr>size_max = 64, bsize = of_nat n, ptr = bs @ replicate (64 - n) 0\<rparr>"

definition sample_sched :: "(delta_cb, delta_fn) sched" where
  "sample_sched = \<lparr>elems = (\<lambda>_. zero_element), arm_uc_queue = None, callback_pool_root = None,
     callbacks_pending = 0, plugin_error_pending = 0, notification_set = True, notifications = 0, scheduler_error_cb = None\<rparr>"

definition sample_driver :: "arm_uc_buffer_t list \<Rightarrow> delta_run" where
  "sample_driver fs = \<lparr>undeCompressBuffer_len = 0, total_undeCompressBuffer = 0, var_int = 0, var_int_len = 0, frame_len = 0,
     newpos = 0, bs_i = 0, ctrl_DIFF_STR_LEN_X = 0, ctrl_EXTRA_STR_LEN_Y = 0, ctrl_OLD_FILE_CTRL_OFF_SET_JUMP = 0,
     nonCompressedDataBuffer = 0, bufferForCompressedData = 0, new_size = 0, max_compressedDataBuffer = 0,
     max_deCompressBuffer = 0, readRequestSize = 0, bs_header = [], next_state = EBsNone, expectedExternalEvent = 0,
     stateAfterReadVarInt = EBsNone, isSignedVarInt = False, bsMemoryBuffer = [], bs_address = 0x20000000,
     delta_sched = ARM_UC_SchedulerInit sample_sched, storage_calls = [], upstream_events = [],
     paal_storage_implementation = True, pal_deltapaal_upstream_event_handler = True, bspatch_seek_diff = 0,
     bspatch_new_offset = 0, incoming_hub_buf_ref_offset = 0, bspatch_read_patch_buffer_ptr = None,
     bspatch_read_patch_buffer_length = 0, bspatch_read_patch_buffer_remaining = 0, bspatch_write_new_buffer_ptr = None,
     bspatch_write_patch_buffer_length = 0, bspatch_write_new_buffer_remaining = 0, incoming_buf_ref = None,
     nextEventToPostToBsPatch = EBSAPI_START_PATCH_PROCESSING, current_slot_id = 0, delta_patch_full_size = 0,
     delta_patch_full_offset = 0, delta_incoming = 0, update_payload_full = True,
     outgoing_new_buffer = \<lparr>size_max = 64, bsize = 0, ptr = replicate 64 0\<rparr>, future = fs, answered = 0, told = 0\<rparr>"

lemma sample_bytes: "patch_bytes 64 (replicate 8 0) sample_old sample_segments = sample_patch"
  by code_simp

lemma sample_ok: "patch_ok (decompress sample_platform) 64 sample_old sample_segments"
  by (simp add: patch_ok_def sample_segments_def sample_old_def frame_ok_def sample_platform_def plain_def)

lemma sample_ready: "driver_ready 64 (sample_driver fs)"
proof -
  have "pending_rep (ARM_UC_SchedulerInit sample_sched) []"
    by (rule init_pending) (simp_all add: sample_sched_def zero_element_def)
  moreover have "plugin_error_pending (ARM_UC_SchedulerInit sample_sched) = 0" by code_simp
  moreover have "(8 :: nat) dvd 0x20000000" by presburger
  ultimately show ?thesis by (simp add: driver_ready_def sample_driver_def write_count_def aligned_def)
qed

theorem delta_update_witness:
  "\<exists>s1 s2 n t. ARM_UC_PAL_DeltaPaal_Prepare sample_platform 1 79 7 (Some no_details) (Some Buf_message)
      (sample_driver [sample_fragment 15 (drop 64 sample_patch)]) = (ERR_NONE, s1) \<and>
    ARM_UC_PAL_DeltaPaal_Write sample_platform 7 0 (sample_fragment 64 (take 64 sample_patch)) s1 = Some (ERR_NONE, s2) \<and>
    delta_turns sample_platform n s2 = Some t \<and> delta_turn sample_platform t = Some t \<and>
    slot_image 7 (storage_calls t) = Some ([11, 21, 31, 41] @ replicate 30 9) \<and> future t = [] \<and>
    upstream_events t = [ARM_UC_PAAL_EVENT_WRITE_DONE, ARM_UC_PAAL_EVENT_WRITE_DONE]"
proof -
  let ?f = "sample_fragment 64 (take 64 sample_patch)" and ?s = "sample_driver [sample_fragment 15 (drop 64 sample_patch)]"
  have fut: "future ?s = [sample_fragment 15 (drop 64 sample_patch)]" by (simp add: sample_driver_def)
  have len: "length sample_patch = 79" by code_simp
  have bytes: "concat (map fragment_bytes (?f # future ?s)) = patch_bytes 64 (replicate 8 0) sample_old sample_segments"
    by (simp add: fut sample_bytes) (simp add: fragment_bytes_def sample_fragment_def len)
  have ok: "fragments_ok (max 64 FILE_HEADER_LEN) (?f # future ?s)"
    by (simp add: fut fragments_ok_def) (simp add: sample_fragment_def buf_ok_def len)
  have image: "patched sample_old 0 sample_segments = [11, 21, 31, 41] @ replicate 30 9" by code_simp
  have r: "reads_image sample_platform sample_old" "storage_accepts sample_platform"
    by (simp_all add: reads_image_def storage_accepts_def sample_platform_def sample_old_def)
  have "upstream_events ?s = []" by (simp add: sample_driver_def)
  then show ?thesis
    using delta_update[OF sample_ok _ bytes ok, where payload = 79 and h = 1 and d = no_details and b = Buf_message and slot = 7] r sample_ready by (simp add: sample_bytes len image fut)
qed

end
