(* ===== verification/BsPatch_Safety.thy ===== *)
theory BsPatch_Safety
  imports BsPatch_Segments
begin

text \<open>
  The patcher with a patch that nobody has checked. \<open>bounded_client\<close> is a client that stays inside
  the buffers it is given, whatever it puts there; with it and a header that announces frames of
  less than two to the 31, \<open>ready\<close> is an invariant of the rounds: all accesses are inside of the
  memory, and \<open>effort\<close> decreases until the patcher asks for more of the patch. At the end, the
  header that is let through and should not be.
\<close>

subsection \<open>Clients that keep to their buffers\<close>

text \<open>
  The sizes of the memory and the header, and the address, never change. A client may write to the
  buffers that it is given, and keeps the registers of the patcher.
\<close>

definition shape where
  "shape s = (length (bsMemoryBuffer s), length (bs_header s), bs_address s)"

definition kept :: "'z bspatch_stream_scheme \<Rightarrow> 'z bspatch_stream_scheme \<Rightarrow> bool" where
  "kept s t \<longleftrightarrow> regs t = regs s \<and> control t = control s \<and> shape t = shape s"

text \<open>The size of frames that a header announces is refused or below two to the 31.\<close>

definition small_header :: "'z bspatch_stream_scheme \<Rightarrow> bool" where
  "small_header s \<longleftrightarrow> (\<forall>v. header_field s (FILE_MAGIC_LEN + 8) = Some v \<longrightarrow> out_of_u32 v \<or> v < 2 ^ 31)"

text \<open>LZ4 stays inside the destination and returns the number of bytes that it wrote, or a negative code.\<close>

definition lz4_bounded :: "lz4 \<Rightarrow> bool" where
  "lz4_bounded lz4 \<longleftrightarrow> (\<forall>src n. (let (r, dst) = lz4 src n in - (2 ^ 31) \<le> r \<and> r \<le> int (unat n) \<and> length dst \<le> unat n))"

text \<open>
  \<open>ok\<close> is what the client needs between calls, and \<open>stock\<close> what it can give of the patch at once.
\<close>

locale bounded_client =
  fixes client :: "'z bspatch_stream_scheme bs_client"
    and ok :: "'z bspatch_stream_scheme \<Rightarrow> bool" and stock :: "'z \<Rightarrow> nat"
  assumes complete: "read_patch client \<noteq> None" "read_old client \<noteq> None" "seek_old client \<noteq> None" "write_new client \<noteq> None"
    and ok_frame: "\<lbrakk>ok s; shape t = shape s; bspatch_stream.more t = bspatch_stream.more s\<rbrakk> \<Longrightarrow> ok t"
    and reads: "\<lbrakk>ok s; bs_load s b 0 (unat n) \<noteq> None\<rbrakk> \<Longrightarrow> \<exists>code t. the (read_patch client) b n s = Some (code, t) \<and>
      kept s t \<and> ok t \<and> (code = EBSAPI_OPERATION_DONE_IMMEDIATELY \<and>
        stock (bspatch_stream.more s) = stock (bspatch_stream.more t) + unat n \<or>
        code = EBSAPI_OPERATION_PATCH_READ_WILL_COMPLETE_LATER \<or> code < 0)"
    and old_reads: "\<lbrakk>ok s; bs_load s b 0 (unat n) \<noteq> None\<rbrakk> \<Longrightarrow> \<exists>code t. the (read_old client) b n s = Some (code, t) \<and>
      kept s t \<and> ok t \<and> stock (bspatch_stream.more t) = stock (bspatch_stream.more s) \<and>
      (code = EBSAPI_OPERATION_DONE_IMMEDIATELY \<or> code < 0)"
    and seeks: "ok s \<Longrightarrow> \<exists>code t. the (seek_old client) d s = Some (code, t) \<and>
      kept s t \<and> ok t \<and> stock (bspatch_stream.more t) = stock (bspatch_stream.more s) \<and>
      (code = EBSAPI_OPERATION_DONE_IMMEDIATELY \<or> code < 0)"
    and writes: "\<lbrakk>ok s; bs_load s b 0 (unat n) \<noteq> None\<rbrakk> \<Longrightarrow> \<exists>code t. the (write_new client) b n s = Some (code, t) \<and>
      kept s t \<and> ok t \<and> stock (bspatch_stream.more t) = stock (bspatch_stream.more s) \<and>
      (code = EBSAPI_OPERATION_DONE_IMMEDIATELY \<or> code = EBSAPI_OPERATION_NEW_FILE_WRITE_WILL_COMPLETE_LATER \<or> code < 0)"

subsection \<open>What holds between rounds\<close>

text \<open>The two buffers are inside the memory, with room for a frame of the announced size.\<close>

definition in_bounds :: "'z bspatch_stream_scheme \<Rightarrow> bool" where
  "in_bounds s \<longleftrightarrow> (let M = unat (max_deCompressBuffer s) in
     max_compressedDataBuffer s = max_deCompressBuffer s \<and> 1 \<le> M \<and> M \<le> 512 \<and>
     unat (nonCompressedDataBuffer s - bs_address s) + M \<le> bs_memory_size \<and>
     unat (bufferForCompressedData s - bs_address s) + M \<le> bs_memory_size)"

text \<open>A number is at most seven bytes long; a length of a frame is not negative.\<close>

definition frame_len_next :: "'z bspatch_stream_scheme \<Rightarrow> bool" where
  "frame_len_next s \<longleftrightarrow> stateAfterReadVarInt s \<in> {EBspatch_processDiffBytes_processSinglePiece, EBsProcessExtraLen_singleItem}"

definition number_next :: "'z bspatch_stream_scheme \<Rightarrow> bool" where
  "number_next s \<longleftrightarrow> frame_len_next s \<and> \<not> isSignedVarInt s \<or>
     stateAfterReadVarInt s \<in> {EReadCtrl_extra_str_len_y, EReadCtrl_old_file_ctrl_off_set_jump, EBsReadDataSegment}"

definition number_ok :: "'z bspatch_stream_scheme \<Rightarrow> bool" where
  "number_ok s \<longleftrightarrow> unat (var_int_len s) \<le> 7 \<and> (var_int_len s = 0 \<or> \<not> bit (var_int s) 63) \<and> number_next s"

definition step_ok :: "'z bspatch_stream_scheme \<Rightarrow> bool" where
  "step_ok s \<longleftrightarrow> in_bounds s \<and> (let M = unat (max_deCompressBuffer s) in
     case next_state s of
       EBspatch_read_varintPiece \<Rightarrow> number_ok s
     | EBsPatch_process_varintPiece \<Rightarrow> number_ok s
     | EBspatch_read_frame_len \<Rightarrow> var_int_len s = 0 \<and> frame_len_next s
     | EBspatch_processDiffBytes_processSinglePiece \<Rightarrow> var_int_len s = 0 \<and> \<not> bit (var_int s) 63
     | EBsProcessExtraLen_singleItem \<Rightarrow> var_int_len s = 0 \<and> \<not> bit (var_int s) 63
     | EBspatch_processDiffBytes_processSinglePieceContinue \<Rightarrow> var_int_len s = 0 \<and> unat (frame_len s) \<le> M
     | EBsProcessExtraLen_singleItemContinue \<Rightarrow> var_int_len s = 0 \<and> unat (frame_len s) \<le> M
     | EBspatch_processDiffBytes_processSinglePieceInit \<Rightarrow> var_int_len s = 0 \<and> unat (undeCompressBuffer_len s) \<le> M
     | EBspatch_processDiffBytes_processSinglePieceContinue2 \<Rightarrow>
         var_int_len s = 0 \<and> unat (undeCompressBuffer_len s) \<le> M \<and> bs_i s \<le> undeCompressBuffer_len s
     | EBspatch_processDiffBytes_processSinglePieceContinue_writePart \<Rightarrow>
         var_int_len s = 0 \<and> unat (undeCompressBuffer_len s) \<le> M \<and> 0 < readRequestSize s \<and>
         unat (bs_i s) + unat (readRequestSize s) \<le> unat (undeCompressBuffer_len s)
     | _ \<Rightarrow> var_int_len s = 0)"

definition ready :: "'z bspatch_stream_scheme \<Rightarrow> bool" where
  "ready s \<longleftrightarrow> length (bsMemoryBuffer s) = bs_memory_size \<and> length (bs_header s) = FILE_HEADER_LEN \<and>
     (case next_state s of
        EBsInitial \<Rightarrow> False
      | EBsInitialPatchReadDone \<Rightarrow> var_int_len s = 0 \<and> small_header s
      | EBsAllocWorkingBuffer \<Rightarrow> var_int_len s = 0 \<and> max_compressedDataBuffer s = max_deCompressBuffer s \<and>
          64 \<le> max_deCompressBuffer s \<and> max_deCompressBuffer s < 2 ^ 31
      | _ \<Rightarrow> step_ok s)"

text \<open>How many rounds are left at most until the next read of the patch.\<close>

definition rank :: "'z bspatch_stream_scheme \<Rightarrow> nat" where
  "rank s = (let left = unat (undeCompressBuffer_len s) - unat (bs_i s) in
     case next_state s of
       EBsInitial \<Rightarrow> 5 | EBsInitialPatchReadDone \<Rightarrow> 4 | EBsAllocWorkingBuffer \<Rightarrow> 3
     | EBsReadControlSegmentHeader \<Rightarrow> 2 | EBsReadControlSegment \<Rightarrow> 1
     | EBsPatch_process_varintPiece \<Rightarrow> 1103
     | EBsReadDataSegment \<Rightarrow> 5
     | EBspatch_processDiffBytes_readHeaderPiece \<Rightarrow> 1
     | EBspatch_processDiffBytes_processSinglePiece \<Rightarrow> 1102
     | EBspatch_processDiffBytes_processSinglePieceContinue \<Rightarrow> 1101
     | EBspatch_processDiffBytes_processSinglePieceInit \<Rightarrow> 1100
     | EBspatch_processDiffBytes_processSinglePieceContinue2 \<Rightarrow> 6 + 2 * left
     | EBspatch_processDiffBytes_processSinglePieceContinue_writePart \<Rightarrow> 5 + 2 * left
     | EBspatch_processDiffBytes_processSinglePieceContinue_postActions \<Rightarrow> 5
     | EBsProcessExtraLen \<Rightarrow> 4 | EBsProcessExtraLen_readHeader \<Rightarrow> 1
     | EBsProcessExtraLen_singleItem \<Rightarrow> 6 | EBsProcessExtraLen_singleItemContinue \<Rightarrow> 5
     | EBsProcessExtraLen_singleItemContinuePostStep \<Rightarrow> 4 | EBsProcessExtraLen_postStep \<Rightarrow> 3
     | _ \<Rightarrow> 0)"

subsection \<open>Rounds\<close>

definition effort :: "('z \<Rightarrow> nat) \<Rightarrow> 'z bspatch_stream_scheme \<Rightarrow> nat" where
  "effort stock s = 2000 * stock (bspatch_stream.more s) + rank s"

text \<open>The states before there are buffers.\<close>

definition starting :: "bs_patch_state_t set" where
  "starting = {EBsInitial, EBsInitialPatchReadDone, EBsAllocWorkingBuffer}"

text \<open>
  A round ends with an error, or it goes on or waits in a state that is ready again; it reads the
  patch or comes closer to the next read.
\<close>

definition safe_round ::
    "('z bspatch_stream_scheme \<Rightarrow> bool) \<Rightarrow> ('z \<Rightarrow> nat) \<Rightarrow> 'z bspatch_stream_scheme \<Rightarrow>
     int \<times> 'z bspatch_stream_scheme \<Rightarrow> bool" where
  "safe_round ok stock s r \<longleftrightarrow> (let (st, t) = r in ok t \<and> shape t = shape s \<and>
     (st < 0 \<and> expectedExternalEvent t = 0 \<or>
      ready t \<and>
      (st = EBSAPI_OPERATION_DONE_IMMEDIATELY \<and> expectedExternalEvent t = 0 \<and> effort stock t < effort stock s \<or>
       next_state t \<notin> starting \<and>
       (st = EBSAPI_OPERATION_PATCH_READ_WILL_COMPLETE_LATER \<and> expectedExternalEvent t = EBSAPI_READ_PATCH_DONE \<or>
        st = EBSAPI_OPERATION_NEW_FILE_WRITE_WILL_COMPLETE_LATER \<and> expectedExternalEvent t = EBSAPI_WRITE_NEW_DONE \<and>
        effort stock t < effort stock s))))"

lemma kept_fields:
  assumes "kept s t"
  shows "undeCompressBuffer_len t = undeCompressBuffer_len s" "total_undeCompressBuffer t = total_undeCompressBuffer s"
    "var_int t = var_int s" "var_int_len t = var_int_len s" "frame_len t = frame_len s" "newpos t = newpos s"
    "bs_i t = bs_i s" "nonCompressedDataBuffer t = nonCompressedDataBuffer s"
    "bufferForCompressedData t = bufferForCompressedData s" "new_size t = new_size s"
    "max_compressedDataBuffer t = max_compressedDataBuffer s" "max_deCompressBuffer t = max_deCompressBuffer s"
    "readRequestSize t = readRequestSize s" "stateAfterReadVarInt t = stateAfterReadVarInt s"
    "isSignedVarInt t = isSignedVarInt s" "bs_address t = bs_address s" "next_state t = next_state s"
    "expectedExternalEvent t = expectedExternalEvent s" "length (bsMemoryBuffer t) = length (bsMemoryBuffer s)"
    "length (bs_header t) = length (bs_header s)"
  using assms by (simp_all add: kept_def regs_def control_def shape_def)

lemma shape_updates [simp]:
  "shape (s\<lparr>next_state := x\<rparr>) = shape s" "shape (s\<lparr>expectedExternalEvent := e\<rparr>) = shape s"
  "shape (s\<lparr>bs_i := i\<rparr>) = shape s" "shape (s\<lparr>readRequestSize := m\<rparr>) = shape s"
  "shape (s\<lparr>stateAfterReadVarInt := x\<rparr>) = shape s" "shape (s\<lparr>isSignedVarInt := b\<rparr>) = shape s"
  "shape (s\<lparr>ctrl_DIFF_STR_LEN_X := n\<rparr>) = shape s" "shape (s\<lparr>ctrl_EXTRA_STR_LEN_Y := n\<rparr>) = shape s"
  "shape (s\<lparr>ctrl_OLD_FILE_CTRL_OFF_SET_JUMP := n\<rparr>) = shape s" "shape (s\<lparr>total_undeCompressBuffer := n\<rparr>) = shape s"
  "shape (s\<lparr>undeCompressBuffer_len := n\<rparr>) = shape s" "shape (s\<lparr>frame_len := n\<rparr>) = shape s"
  "shape (s\<lparr>newpos := n\<rparr>) = shape s" "shape (s\<lparr>var_int := n\<rparr>) = shape s" "shape (s\<lparr>var_int_len := n\<rparr>) = shape s"
  "shape (s\<lparr>nonCompressedDataBuffer := m\<rparr>) = shape s" "shape (s\<lparr>bufferForCompressedData := m\<rparr>) = shape s"
  "shape (s\<lparr>new_size := m\<rparr>) = shape s" "shape (s\<lparr>max_compressedDataBuffer := m\<rparr>) = shape s"
  "shape (s\<lparr>max_deCompressBuffer := m\<rparr>) = shape s"
  by (simp_all add: shape_def)

lemma in_bounds_updates [simp]:
  "in_bounds (s\<lparr>next_state := x\<rparr>) = in_bounds s" "in_bounds (s\<lparr>expectedExternalEvent := e\<rparr>) = in_bounds s"
  "in_bounds (s\<lparr>bs_i := i\<rparr>) = in_bounds s" "in_bounds (s\<lparr>readRequestSize := m\<rparr>) = in_bounds s"
  "in_bounds (s\<lparr>stateAfterReadVarInt := x\<rparr>) = in_bounds s" "in_bounds (s\<lparr>isSignedVarInt := b\<rparr>) = in_bounds s"
  "in_bounds (s\<lparr>ctrl_DIFF_STR_LEN_X := n\<rparr>) = in_bounds s" "in_bounds (s\<lparr>ctrl_EXTRA_STR_LEN_Y := n\<rparr>) = in_bounds s"
  "in_bounds (s\<lparr>ctrl_OLD_FILE_CTRL_OFF_SET_JUMP := n\<rparr>) = in_bounds s" "in_bounds (s\<lparr>total_undeCompressBuffer := n\<rparr>) = in_bounds s"
  "in_bounds (s\<lparr>undeCompressBuffer_len := n\<rparr>) = in_bounds s" "in_bounds (s\<lparr>frame_len := n\<rparr>) = in_bounds s"
  "in_bounds (s\<lparr>newpos := n\<rparr>) = in_bounds s" "in_bounds (s\<lparr>var_int := n\<rparr>) = in_bounds s"
  "in_bounds (s\<lparr>var_int_len := n\<rparr>) = in_bounds s"
  by (simp_all add: in_bounds_def)

lemma shape_fields:
  assumes "shape t = shape s"
  shows "length (bsMemoryBuffer t) = length (bsMemoryBuffer s)" "length (bs_header t) = length (bs_header s)" "bs_address t = bs_address s"
  using assms by (simp_all add: shape_def)

lemma WAIT_FOR_now: "WAIT_FOR e n (EBSAPI_OPERATION_DONE_IMMEDIATELY, t) =
    (EBSAPI_OPERATION_DONE_IMMEDIATELY, t\<lparr>expectedExternalEvent := 0, next_state := n\<rparr>)"
  by (simp add: WAIT_FOR_def setExpectedExternalEventByState_def)

lemma WAIT_FOR_later: "code \<in> delays \<Longrightarrow> WAIT_FOR e n (code, t) = (code, t\<lparr>expectedExternalEvent := e, next_state := n\<rparr>)"
  unfolding WAIT_FOR_def setExpectedExternalEventByState_def delays_def by (elim insertE emptyE) simp_all

lemma WAIT_FOR_error: "code < 0 \<Longrightarrow> WAIT_FOR e n (code, t) = (code, t\<lparr>next_state := n\<rparr>)"
  by (simp add: WAIT_FOR_def setExpectedExternalEventByState_def)

text \<open>Memory that a request may use.\<close>

lemma load_some: "bs_load s b i n \<noteq> None \<longleftrightarrow> (case b of Bs_header \<Rightarrow> i + n \<le> length (bs_header s)
    | Bs_at p \<Rightarrow> unat (p - bs_address s) + i + n \<le> length (bsMemoryBuffer s))"
  by (auto simp: bs_load_def rd_block_def split: bs_buffer.split)

lemma store_some: "(\<exists>t. bs_store b i bs s = Some t) \<longleftrightarrow> bs_load s b i (length bs) \<noteq> None"
proof (cases b)
  case Bs_header
  have "(\<exists>m. wr_block (bs_header s) i bs = Some m) = (i + length bs \<le> length (bs_header s))" by (simp add: wr_block_def)
  then show ?thesis unfolding load_some Bs_header bs_store_def by (cases "wr_block (bs_header s) i bs") simp_all
next
  case (Bs_at p)
  let ?i = "unat (p - bs_address s) + i"
  have "(\<exists>m. wr_block (bsMemoryBuffer s) ?i bs = Some m) = (?i + length bs \<le> length (bsMemoryBuffer s))"
    by (simp add: wr_block_def)
  then show ?thesis unfolding load_some Bs_at bs_store_def by (cases "wr_block (bsMemoryBuffer s) ?i bs") simp_all
qed

lemma store_kept:
  assumes "bs_store b i bs s = Some t"
  shows "kept s t" "bspatch_stream.more t = bspatch_stream.more s"
proof -
  have "length m' = length m" if "wr_block m j bs = Some m'" for m m' j using wr_block_length[OF that] by simp
  then show "kept s t" using assms
    by (auto simp: bs_store_def kept_def regs_def control_def shape_def split: bs_buffer.splits)
  show "bspatch_stream.more t = bspatch_stream.more s" using assms by (auto simp: bs_store_def split: bs_buffer.splits)
qed

lemma buffers_some:
  assumes "in_bounds s" and "length (bsMemoryBuffer s) = bs_memory_size" and "i + n \<le> unat (max_deCompressBuffer s)"
  shows "bs_load s (at_nonCompressed s) i n \<noteq> None" "bs_load s (at_compressed s) i n \<noteq> None"
  using assms unfolding load_some by (simp_all add: in_bounds_def Let_def)

subsection \<open>Requests\<close>

lemma soundI_error:
  assumes "st < 0" and "ok t" and "shape t = shape s" and "expectedExternalEvent t = 0"
  shows "safe_round ok stock s (st, t)"
  using assms by (simp add: safe_round_def)

lemma soundI_now:
  assumes "ok t" and "shape t = shape s" and "expectedExternalEvent t = 0" and "ready t"
    and "effort stock t < effort stock s"
  shows "safe_round ok stock s (0, t)"
  using assms by (simp add: safe_round_def)

lemma soundI_read:
  assumes "ok t" and "shape t = shape s" and "expectedExternalEvent t = EBSAPI_READ_PATCH_DONE" and "ready t"
    and "next_state t \<notin> starting"
  shows "safe_round ok stock s (EBSAPI_OPERATION_PATCH_READ_WILL_COMPLETE_LATER, t)"
  using assms by (simp add: safe_round_def)

lemma soundI_write:
  assumes "ok t" and "shape t = shape s" and "expectedExternalEvent t = EBSAPI_WRITE_NEW_DONE" and "ready t"
    and "effort stock t < effort stock s" and "next_state t \<notin> starting"
  shows "safe_round ok stock s (EBSAPI_OPERATION_NEW_FILE_WRITE_WILL_COMPLETE_LATER, t)"
  using assms by (simp add: safe_round_def)

context bounded_client
begin

lemma ok_waiting: "ok t \<Longrightarrow> ok (t\<lparr>expectedExternalEvent := e, next_state := x\<rparr>)" "ok t \<Longrightarrow> ok (t\<lparr>next_state := x\<rparr>)"
  by (rule ok_frame, simp_all)+

text \<open>An answer of the client, when what follows is ready.\<close>

lemma answered_round:
  assumes x: "x \<notin> starting" and "ok t" and "shape t = shape s0" and "expectedExternalEvent t = 0"
    and nx: "\<And>e. ready (t\<lparr>expectedExternalEvent := e, next_state := x\<rparr>)"
    and c: "code = EBSAPI_OPERATION_DONE_IMMEDIATELY \<and> effort stock (t\<lparr>next_state := x\<rparr>) < effort stock s0 \<or>
      code = EBSAPI_OPERATION_PATCH_READ_WILL_COMPLETE_LATER \<and> e = EBSAPI_READ_PATCH_DONE \<or>
      code = EBSAPI_OPERATION_NEW_FILE_WRITE_WILL_COMPLETE_LATER \<and> e = EBSAPI_WRITE_NEW_DONE \<and>
        effort stock (t\<lparr>next_state := x\<rparr>) < effort stock s0 \<or> code < 0"
  shows "safe_round ok stock s0 (WAIT_FOR e x (code, t))"
proof -
  have eff: "effort stock (t\<lparr>expectedExternalEvent := i, next_state := x\<rparr>) = effort stock (t\<lparr>next_state := x\<rparr>)" for i
    by (simp add: effort_def rank_def)
  note k = ok_waiting[OF assms(2)]
  show ?thesis
    using c
  proof (elim disjE conjE)
    assume "code < 0"
    then show ?thesis using assms(3,4) k(2) by (simp add: WAIT_FOR_error soundI_error)
  next
    assume c: "code = EBSAPI_OPERATION_DONE_IMMEDIATELY" "effort stock (t\<lparr>next_state := x\<rparr>) < effort stock s0"
    then show ?thesis unfolding c(1) WAIT_FOR_now using assms(3) nx k(1) eff by (intro soundI_now) simp_all
  qed (use x assms(3) nx k(1) eff in \<open>simp_all add: WAIT_FOR_later delays_def soundI_read soundI_write\<close>)
qed

lemma read_round:
  assumes x: "x \<notin> starting" and "ok s" and "expectedExternalEvent s = 0" and "bs_load s b 0 (unat n) \<noteq> None"
    and "bspatch_stream.more s = bspatch_stream.more s0" and "shape s = shape s0"
    and nx: "\<And>t e. kept s t \<Longrightarrow> ready (t\<lparr>expectedExternalEvent := e, next_state := x\<rparr>)"
    and rk: "\<And>t. kept s t \<Longrightarrow> rank (t\<lparr>next_state := x\<rparr>) < (if n = 0 then rank s0 else 2000)"
  shows "\<exists>r. map_option (WAIT_FOR EBSAPI_READ_PATCH_DONE x) (sendPatchReadRequest client b n s) = Some r \<and>
    safe_round ok stock s0 r"
proof -
  obtain code t where t: "the (read_patch client) b n s = Some (code, t)" "kept s t" "ok t"
    and c: "code = EBSAPI_OPERATION_DONE_IMMEDIATELY \<and> stock (bspatch_stream.more s) = stock (bspatch_stream.more t) + unat n \<or>
      code = EBSAPI_OPERATION_PATCH_READ_WILL_COMPLETE_LATER \<or> code < 0"
    using reads[OF assms(2,4)] by blast
  obtain f where "read_patch client = Some f" using complete(1) by blast
  then have r: "sendPatchReadRequest client b n s = Some (code, t)"
    using t(1) assms(4) by (simp add: sendPatchReadRequest_def bs_request_def)
  have sh: "shape t = shape s0" "expectedExternalEvent t = 0"
    using t(2) assms(6) kept_fields(18)[OF t(2)] assms(3) by (simp_all add: kept_def)
  have "effort stock (t\<lparr>next_state := x\<rparr>) < effort stock s0"
    if "stock (bspatch_stream.more s) = stock (bspatch_stream.more t) + unat n"
  proof (cases "n = 0")
    case False
    then have "1 \<le> unat n" by (simp add: unat_gt_0 Suc_le_eq)
    then show ?thesis using rk[OF t(2)] that assms(5) False by (simp add: effort_def)
  qed (use rk[OF t(2)] that assms(5) in \<open>simp add: effort_def\<close>)
  then have "safe_round ok stock s0 (WAIT_FOR EBSAPI_READ_PATCH_DONE x (code, t))"
    using c by (intro answered_round[OF x t(3) sh nx[OF t(2)]]) blast
  then show ?thesis using r by simp
qed

lemma old_round:
  assumes x: "x \<notin> starting" and "ok s" and "expectedExternalEvent s = 0" and "bs_load s b 0 (unat n) \<noteq> None"
    and "bspatch_stream.more s = bspatch_stream.more s0" and "shape s = shape s0"
    and nx: "\<And>t e. kept s t \<Longrightarrow> ready (t\<lparr>expectedExternalEvent := e, next_state := x\<rparr>)"
    and rk: "\<And>t. kept s t \<Longrightarrow> rank (t\<lparr>next_state := x\<rparr>) < rank s0"
  shows "\<exists>r. map_option (WAIT_FOR e x) (sendReadOldRequest client b n s) = Some r \<and> safe_round ok stock s0 r"
proof -
  obtain code t where t: "the (read_old client) b n s = Some (code, t)" "kept s t" "ok t"
    and c: "stock (bspatch_stream.more t) = stock (bspatch_stream.more s)" "code = EBSAPI_OPERATION_DONE_IMMEDIATELY \<or> code < 0"
    using old_reads[OF assms(2,4)] by blast
  obtain f where "read_old client = Some f" using complete(2) by blast
  then have r: "sendReadOldRequest client b n s = Some (code, t)"
    using t(1) assms(4) by (simp add: sendReadOldRequest_def bs_request_def)
  have sh: "shape t = shape s0" "expectedExternalEvent t = 0"
    using t(2) assms(6) kept_fields(18)[OF t(2)] assms(3) by (simp_all add: kept_def)
  have "effort stock (t\<lparr>next_state := x\<rparr>) < effort stock s0" using rk[OF t(2)] c(1) assms(5) by (simp add: effort_def)
  then have "safe_round ok stock s0 (WAIT_FOR e x (code, t))"
    using c(2) by (intro answered_round[OF x t(3) sh nx[OF t(2)]]) blast
  then show ?thesis using r by simp
qed

lemma seek_round:
  assumes x: "x \<notin> starting" and "ok s" and "expectedExternalEvent s = 0"
    and "bspatch_stream.more s = bspatch_stream.more s0" and "shape s = shape s0"
    and nx: "\<And>t e. kept s t \<Longrightarrow> ready (t\<lparr>expectedExternalEvent := e, next_state := x\<rparr>)"
    and rk: "\<And>t. kept s t \<Longrightarrow> rank (t\<lparr>next_state := x\<rparr>) < rank s0"
  shows "\<exists>r. map_option (WAIT_FOR e x) (sendSeekOldRequest client d s) = Some r \<and> safe_round ok stock s0 r"
proof -
  obtain code t where t: "the (seek_old client) d s = Some (code, t)" "kept s t" "ok t"
    and c: "stock (bspatch_stream.more t) = stock (bspatch_stream.more s)" "code = EBSAPI_OPERATION_DONE_IMMEDIATELY \<or> code < 0"
    using seeks[OF assms(2)] by blast
  obtain f where "seek_old client = Some f" using complete(3) by blast
  then have r: "sendSeekOldRequest client d s = Some (code, t)" using t(1) by (simp add: sendSeekOldRequest_def)
  have sh: "shape t = shape s0" "expectedExternalEvent t = 0"
    using t(2) assms(5) kept_fields(18)[OF t(2)] assms(3) by (simp_all add: kept_def)
  have "effort stock (t\<lparr>next_state := x\<rparr>) < effort stock s0" using rk[OF t(2)] c(1) assms(4) by (simp add: effort_def)
  then have "safe_round ok stock s0 (WAIT_FOR e x (code, t))"
    using c(2) by (intro answered_round[OF x t(3) sh nx[OF t(2)]]) blast
  then show ?thesis using r by simp
qed

text \<open>A write, after which the caller may change registers of its own with \<open>g\<close>.\<close>

lemma write_round:
  assumes x: "x \<notin> starting" and "ok s" and "expectedExternalEvent s = 0" and "bs_load s b 0 (unat n) \<noteq> None"
    and "bspatch_stream.more s = bspatch_stream.more s0" and "shape s = shape s0"
    and g: "\<And>t. bspatch_stream.more (g t) = bspatch_stream.more t" "\<And>t. shape (g t) = shape t"
      "\<And>t. expectedExternalEvent (g t) = expectedExternalEvent t"
    and nx: "\<And>t e. kept s t \<Longrightarrow> ready ((g t)\<lparr>expectedExternalEvent := e, next_state := x\<rparr>)"
    and rk: "\<And>t. kept s t \<Longrightarrow> rank ((g t)\<lparr>next_state := x\<rparr>) < rank s0"
  shows "\<exists>code t. sendWriteNewRequest client b n s = Some (code, t) \<and> kept s t \<and>
    safe_round ok stock s0 (WAIT_FOR EBSAPI_WRITE_NEW_DONE x (code, g t))"
proof -
  obtain code t where t: "the (write_new client) b n s = Some (code, t)" "kept s t" "ok t"
    and c: "stock (bspatch_stream.more t) = stock (bspatch_stream.more s)"
      "code = EBSAPI_OPERATION_DONE_IMMEDIATELY \<or> code = EBSAPI_OPERATION_NEW_FILE_WRITE_WILL_COMPLETE_LATER \<or> code < 0"
    using writes[OF assms(2,4)] by blast
  obtain f where "write_new client = Some f" using complete(4) by blast
  then have r: "sendWriteNewRequest client b n s = Some (code, t)"
    using t(1) assms(4) by (simp add: sendWriteNewRequest_def bs_request_def)
  have sh: "shape (g t) = shape s0" "expectedExternalEvent (g t) = 0"
    using t(2) assms(6) kept_fields(18)[OF t(2)] assms(3) g by (simp_all add: kept_def)
  have k: "ok (g t)" using ok_frame[OF t(3) g(2,1)] .
  have "effort stock ((g t)\<lparr>next_state := x\<rparr>) < effort stock s0"
    using rk[OF t(2)] c(1) assms(5) g(1) by (simp add: effort_def)
  then have "safe_round ok stock s0 (WAIT_FOR EBSAPI_WRITE_NEW_DONE x (code, g t))"
    using c(2) by (intro answered_round[OF x k sh nx[OF t(2)]]) blast
  then show ?thesis using r t(2) by blast
qed

text \<open>A round without a request.\<close>

lemma plain_round:
  assumes "ok s0" and "bspatch_stream.more t = bspatch_stream.more s0" and "shape t = shape s0"
    and "expectedExternalEvent t = 0" and "st < 0 \<or> st = 0 \<and> ready t \<and> rank t < rank s0"
  shows "safe_round ok stock s0 (st, t)"
  using assms(5)
proof
  assume "st < 0"
  then show ?thesis using ok_frame[OF assms(1,3,2)] assms(3,4) by (intro soundI_error)
next
  assume "st = 0 \<and> ready t \<and> rank t < rank s0"
  then show ?thesis using ok_frame[OF assms(1,3,2)] assms(2-4) by (auto simp: effort_def intro!: soundI_now)
qed

end

subsection \<open>Parts of a round\<close>

lemma kept_refl: "kept s s"
  by (simp add: kept_def)

lemma kept_trans: "kept s t \<Longrightarrow> kept t u \<Longrightarrow> kept s u"
  by (simp add: kept_def)

lemma in_bounds_kept: "kept s t \<Longrightarrow> in_bounds t = in_bounds s"
  by (simp add: in_bounds_def kept_fields)

lemma add_diff_kept:
  assumes "in_bounds s" and "length (bsMemoryBuffer s) = bs_memory_size" and "unat (bs_i s) + i + n \<le> unat (max_deCompressBuffer s)"
  shows "\<exists>t. add_diff_loop i n s = Some t \<and> kept s t \<and> bspatch_stream.more t = bspatch_stream.more s"
  using assms
proof (induction n arbitrary: i s)
  case 0
  then show ?case by (simp add: kept_refl)
next
  case (Suc n)
  have l: "bs_load s (at_compressed s) i 1 \<noteq> None" "bs_load s (at_nonCompressed s) (unat (bs_i s) + i) 1 \<noteq> None"
    using Suc.prems by (intro buffers_some; simp)+
  then obtain old diff where ld: "bs_load s (at_compressed s) i 1 = Some old"
    "bs_load s (at_nonCompressed s) (unat (bs_i s) + i) 1 = Some diff" by blast
  have "\<exists>u. bs_store (at_compressed s) i [hd old + hd diff] s = Some u" using l(1) by (simp add: store_some)
  then obtain u where u: "bs_store (at_compressed s) i [hd old + hd diff] s = Some u" by blast
  note k = store_kept[OF u]
  have "\<exists>t. add_diff_loop (Suc i) n u = Some t \<and> kept u t \<and> bspatch_stream.more t = bspatch_stream.more u"
    using Suc.prems kept_fields[OF k(1)] in_bounds_kept[OF k(1)] by (intro Suc.IH) simp_all
  then obtain t where t: "add_diff_loop (Suc i) n u = Some t" "kept u t" "bspatch_stream.more t = bspatch_stream.more u" by blast
  have "add_diff_loop i (Suc n) s = Some t" using ld u t(1) by simp
  then show ?case using t k(2) kept_trans[OF k(1) t(2)] by simp
qed

lemma decompressed_bounded:
  assumes "lz4_bounded lz4" and "in_bounds s" and "length (bsMemoryBuffer s) = bs_memory_size"
    and "unat n \<le> unat (max_deCompressBuffer s)"
  shows "\<exists>st u x. read_deCompressBuffer_process lz4 n s = Some (st, u\<lparr>undeCompressBuffer_len := x\<rparr>) \<and> kept s u \<and>
    bspatch_stream.more u = bspatch_stream.more s \<and> (st = 0 \<and> unat x \<le> unat (max_deCompressBuffer s) \<or> st < 0)"
proof -
  let ?M = "unat (max_deCompressBuffer s)"
  have M: "?M \<le> 512" "max_compressedDataBuffer s = max_deCompressBuffer s" using assms(2) by (simp_all add: in_bounds_def Let_def)
  have "unat n < 2 ^ 32" using assms(4) M(1) by simp
  then have "unat (ucast n :: u32) = unat n" by (simp add: unsigned_ucast_eq take_bit_nat_eq_self_iff)
  then have "bs_load s (at_compressed s) 0 (unat (ucast n :: u32)) \<noteq> None" using buffers_some(2)[OF assms(2,3)] assms(4) by simp
  then obtain src where src: "bs_load s (at_compressed s) 0 (unat (ucast n :: u32)) = Some src" by blast
  obtain r dst where z: "lz4 src (max_compressedDataBuffer s) = (r, dst)" by (cases "lz4 src (max_compressedDataBuffer s)")
  then have b: "- (2 ^ 31) \<le> r" "r \<le> int ?M" "length dst \<le> ?M"
    using assms(1) M(2) unfolding lz4_bounded_def by (metis (no_types, lifting) case_prod_conv)+
  have "\<exists>u. bs_store (at_nonCompressed s) 0 dst s = Some u"
    using buffers_some(1)[OF assms(2,3)] b(3) by (simp add: store_some)
  then obtain u where u: "bs_store (at_nonCompressed s) 0 dst s = Some u" by blast
  have "read_deCompressBuffer_process lz4 n s =
      Some (if 0 <s (of_int r :: u64) then 0 else EBSAPI_ERR_CORRUPTED_PATCH, u\<lparr>undeCompressBuffer_len := of_int r\<rparr>)"
    using src z u by (simp add: read_deCompressBuffer_process_def Let_def)
  moreover have "unat (of_int r :: u64) \<le> ?M" if "0 <s (of_int r :: u64)"
  proof -
    have "r \<le> 512" using b(2) M(1) by linarith
    then have "sint (of_int r :: u64) = r" using b(1) by (simp add: signed_of_int signed_take_bit_int_eq_self)
    then have "0 \<le> r" using that by (simp add: word_sless_alt)
    then obtain k where k: "r = int k" by (rule nonneg_eq_int)
    then have "unat (of_nat k :: u64) = k" using \<open>r \<le> 512\<close> by (simp add: unat_of_nat take_bit_nat_eq_self_iff)
    then have "unat (of_int r :: u64) \<le> nat r" unfolding k by simp
    moreover have "nat r \<le> ?M" using b(2) by (simp only: nat_le_iff)
    ultimately show ?thesis by (rule order_trans)
  qed
  ultimately show ?thesis using store_kept[OF u] by auto
qed

text \<open>A number of at most seven bytes does not reach the top bit.\<close>

lemma varint_byte_top:
  assumes "k = 0 \<or> \<not> bit v 63" and "0 \<le> k" and "k \<le> 7"
  shows "\<not> bit (varint_byte b v k) 63"
proof -
  have "\<not> bit ((push_bit 7 ^^ nat k) (ucast (b AND TOP_BIT_OFF_BYTE) :: u64)) 63"
  proof
    assume a: "bit ((push_bit 7 ^^ nat k) (ucast (b AND TOP_BIT_OFF_BYTE) :: u64)) 63"
    have "bit (push_bit (7 * nat k) (ucast (b AND TOP_BIT_OFF_BYTE) :: u64)) 63" using a by (simp add: push_iterated)
    then have "bit (b AND TOP_BIT_OFF_BYTE) (63 - 7 * nat k)" by (simp add: bit_simps)
    moreover have "8 \<le> 63 - 7 * nat k" using assms(3) by simp
    ultimately show False using bit_imp_le_length[of "b AND TOP_BIT_OFF_BYTE" "63 - 7 * nat k"] by simp
  qed
  then show ?thesis using assms(1) by (auto simp: varint_byte_def Let_def bit_simps)
qed

lemma number_count: "unat (n :: u64) \<le> 7 \<Longrightarrow> sint (ucast n :: u32) = int (unat n)"
proof -
  assume a: "unat n \<le> 7"
  then have "unat (ucast n :: u32) = unat n" by (simp add: unsigned_ucast_eq take_bit_nat_eq_self_iff)
  moreover have "sint (ucast n :: u32) = signed_take_bit 31 (int (unat (ucast n :: u32)))" by (simp add: sint_uint)
  moreover have "signed_take_bit 31 (int k) = int k" if "k \<le> 7" for k
    using that by (intro signed_take_bit_int_eq_self) simp_all
  note this[OF a]
  ultimately show ?thesis by (simp only:)
qed

lemma decoded:
  assumes "number_ok s" and "c = int (unat (var_int_len s))"
  obtains (more) "(if isSignedVarInt s then decode_signed_varint else decode_unsigned_varint) b (Some (var_int s)) c =
      (OPERATION_NEEDS_MORE_DATA, Some (varint_byte b (var_int s) c))" "\<not> bit (varint_byte b (var_int s) c) 63"
    | (last) v where "(if isSignedVarInt s then decode_signed_varint else decode_unsigned_varint) b (Some (var_int s)) c =
      (OPERATION_COMPLETED, Some v)" "\<not> isSignedVarInt s \<Longrightarrow> \<not> bit v 63"
proof -
  have n: "\<not> bit (varint_byte b (var_int s) c) 63" "\<not> 9 < c"
  proof -
    have c: "0 \<le> c" "c \<le> 7" using assms by (simp_all only: number_ok_def of_nat_0_le_iff) linarith
    have "c = 0 \<or> \<not> bit (var_int s) 63" using assms by (auto simp: number_ok_def)
    then show "\<not> bit (varint_byte b (var_int s) c) 63" "\<not> 9 < c" using c varint_byte_top by simp_all
  qed
  then show ?thesis using more last
    by (cases "isSignedVarInt s"; cases "b AND TOP_BIT_ON_BYTE = 0")
      (simp_all add: decode_signed_varint_def decode_unsigned_varint_def Let_def)
qed

lemma number_read:
  assumes "number_ok s" and "bs_load s (at_nonCompressed s) 0 1 \<noteq> None"
  shows "\<exists>st t. readVarIntEventified (isSignedVarInt s) s = Some (st, t) \<and> bspatch_stream.more t = bspatch_stream.more s \<and>
    shape t = shape s \<and> expectedExternalEvent t = expectedExternalEvent s \<and> in_bounds t = in_bounds s \<and>
    (st < 0 \<or> st = 0 \<and> (next_state t = EBspatch_read_varintPiece \<and> number_ok t \<or>
      next_state t = stateAfterReadVarInt s \<and> var_int_len t = 0 \<and> (\<not> isSignedVarInt s \<longrightarrow> \<not> bit (var_int t) 63)))"
proof -
  obtain x where x: "bs_load s (at_nonCompressed s) 0 (Suc 0) = Some x" using assms(2) by auto
  let ?n = "var_int_len s + 1"
  have l: "unat (var_int_len s) \<le> 7" using assms(1) by (simp add: number_ok_def)
  then have n: "unat ?n = Suc (unat (var_int_len s))" by (simp add: unat_word_ariths)
  show ?thesis
  proof (cases "8 \<le> ?n")
    case True
    then show ?thesis
      by (simp add: readVarIntEventified_def x Let_def case_prod_beta)
  next
    case False
    then have n7: "unat ?n \<le> 7" by (simp add: word_le_nat_alt)
    show ?thesis
    proof (rule decoded[OF assms(1) refl, of "hd x"])
      fix v
      assume a: "(if isSignedVarInt s then decode_signed_varint else decode_unsigned_varint) (hd x) (Some (var_int s))
          (int (unat (var_int_len s))) = (OPERATION_COMPLETED, Some v)" and "\<not> isSignedVarInt s \<Longrightarrow> \<not> bit v 63"
      then show ?thesis using False
        by (simp add: readVarIntEventified_def x Let_def number_count[OF l] a)
    next
      let ?v = "varint_byte (hd x) (var_int s) (int (unat (var_int_len s)))"
      assume a: "(if isSignedVarInt s then decode_signed_varint else decode_unsigned_varint) (hd x) (Some (var_int s))
          (int (unat (var_int_len s))) = (OPERATION_NEEDS_MORE_DATA, Some ?v)" and "\<not> bit ?v 63"
      then show ?thesis using False n7 assms(1)
        by (simp add: readVarIntEventified_def x Let_def number_count[OF l] a number_ok_def number_next_def frame_len_next_def)
    qed
  qed
qed

subsection \<open>The header and the buffers\<close>

lemma header_loads:
  assumes "length (bs_header s) = FILE_HEADER_LEN"
  obtains m v w where "bs_load s Bs_header 0 FILE_MAGIC_LEN = Some m" "header_field s FILE_MAGIC_LEN = Some v"
    "header_field s (FILE_MAGIC_LEN + 8) = Some w"
  using assms that by (simp add: bs_load_def rd_block_def header_field_def)

lemma header_bounded:
  assumes "small_header s" and "length (bs_header s) = FILE_HEADER_LEN"
  shows "\<exists>st t. bspatch_readInitialHeaderAndContinueReadOfPatchDone s = Some (st, t) \<and>
    bspatch_stream.more t = bspatch_stream.more s \<and> shape t = shape s \<and>
    expectedExternalEvent t = expectedExternalEvent s \<and> var_int_len t = var_int_len s \<and>
    (st < 0 \<or> st = 0 \<and> max_compressedDataBuffer t = max_deCompressBuffer t \<and> 64 \<le> max_deCompressBuffer t \<and>
      max_deCompressBuffer t < 2 ^ 31)"
proof -
  obtain m v w where l: "bs_load s Bs_header 0 FILE_MAGIC_LEN = Some m" "header_field s FILE_MAGIC_LEN = Some v"
    "header_field s (FILE_MAGIC_LEN + 8) = Some w" by (rule header_loads[OF assms(2)])
  have f: "header_field (s\<lparr>new_size := n, max_compressedDataBuffer := k\<rparr>) i = header_field s i"
    "header_field (s\<lparr>new_size := n\<rparr>) i = header_field s i" for n k i
    by (simp_all add: header_field_def bs_load_def)
  have w: "out_of_u32 w \<or> w < 2 ^ 31" using assms(1) l(3) by (simp add: small_header_def)
  have k: "(ucast w :: u32) < 2 ^ 31" if "w < 2 ^ 31"
  proof -
    have "unat w < 2 ^ 31" using that by (simp add: word_less_nat_alt)
    then have "take_bit 32 (unat w) < 2 ^ 31" using take_bit_nat_less_eq_self order_le_less_trans by blast
    then show ?thesis by (simp add: word_less_nat_alt unsigned_ucast_eq)
  qed
  show ?thesis
    using w k unfolding bspatch_readInitialHeaderAndContinueReadOfPatchDone_def Let_def f l Option.bind.bind_lunit
    by auto
qed

lemma address_round: "ucast (ucast (a :: u32) :: u64) = a"
  by (rule bit_word_eqI) (simp add: bit_simps)

lemma ucast_sum: "ucast ((x :: u64) + y) = (ucast x + ucast y :: u32)"
  by (simp add: word_unat_eq_iff unat_word_ariths unsigned_ucast_eq take_bit_eq_mod mod_simps mod_mod_cancel)

lemma allign_offset: "\<exists>d :: u32. unat d \<le> 7 \<and> ucast (allignTo8ByteBoundary (ucast a)) = a + d"
proof (cases "(ucast a :: u64) mod 8 = 0")

  case True
  then show ?thesis by (intro exI[of _ 0]) (simp add: allignTo8ByteBoundary_def address_round)
next
  case False
  let ?m = "(ucast a :: u64) mod 8"
  have m: "0 < unat ?m" using False by (simp only: unat_gt_0 not_False_eq_True)
  have m8: "unat ?m < 8" by (simp add: unat_mod)
  from m m8 have d: "unat (8 - ?m) = 8 - unat ?m" by (simp add: unat_sub_if')
  have "ucast (allignTo8ByteBoundary (ucast a)) = a + (ucast (8 - ?m) :: u32)"
    using False by (simp add: allignTo8ByteBoundary_def) (simp only: ucast_sum address_round)
  moreover have "unat (ucast (8 - ?m) :: u32) \<le> 7"
    using take_bit_nat_less_eq_self[of "LENGTH(32)" "8 - unat ?m"] m unfolding unsigned_ucast_eq d by linarith
  ultimately show ?thesis by blast
qed

lemma alloc_bounded:
  assumes "max_compressedDataBuffer s = max_deCompressBuffer s" and "64 \<le> max_deCompressBuffer s"
    and "max_deCompressBuffer s < 2 ^ 31"
  shows "\<exists>st t. bspatch_allocWorkingBuffers s = (st, t) \<and> bspatch_stream.more t = bspatch_stream.more s \<and> shape t = shape s \<and>
    expectedExternalEvent t = expectedExternalEvent s \<and> var_int_len t = var_int_len s \<and> (st < 0 \<or> st = 0 \<and> in_bounds t)"
proof -
  let ?M = "max_deCompressBuffer s"
  obtain d d' :: u32 where d: "unat d \<le> 7" "ucast (allignTo8ByteBoundary (ucast (bs_address s))) = bs_address s + d"
    and d': "unat d' \<le> 7" "ucast (allignTo8ByteBoundary (ucast (bs_address s + ?M))) = bs_address s + ?M + d'"
    using allign_offset by blast
  show ?thesis
  proof (cases "BS_PATCH_COMPILE_TIME_MEMORY_ALLOC < ?M + ?M")
    case True
    then show ?thesis using assms(1) by (simp add: bspatch_allocWorkingBuffers_def)
  next
    case False
    have "unat ?M < 2 ^ 31" using assms(3) by (simp add: word_less_nat_alt)
    then have "unat (?M + ?M) = 2 * unat ?M" by (simp add: unat_word_ariths)
    then have M: "unat ?M \<le> 512" "1 \<le> unat ?M"
      using False assms(1,2) by (simp_all add: word_less_nat_alt word_le_nat_alt not_less)
    have "unat (?M + d') \<le> unat ?M + 7" using d'(1) M(1) by (simp add: unat_word_ariths)
    then have b: "in_bounds (s\<lparr>nonCompressedDataBuffer := bs_address s + d, bufferForCompressedData := bs_address s + ?M + d'\<rparr>)"
      using M d(1) assms(1) by (simp add: in_bounds_def Let_def add.assoc)
    then show ?thesis
      using False assms(1) d(2) d'(2) by (simp add: bspatch_allocWorkingBuffers_def Let_def)
  qed
qed

subsection \<open>Every round is safe_round\<close>

lemma sint_top_clear: "\<not> bit w 63 \<Longrightarrow> sint (w :: u64) = int (unat w)"
proof -
  assume a: "\<not> bit w 63"
  have "take_bit 63 (uint w) = uint w"
  proof (rule bit_eqI)
    fix n
    show "bit (take_bit 63 (uint w)) n = bit (uint w) n"
      using a bit_imp_le_length[of w n] by (cases "n < 63"; cases "n = 63") (auto simp: bit_simps)
  qed
  then show "sint w = int (unat w)" using a by (simp add: sint_uint signed_take_bit_eq_if_positive bit_simps)
qed

lemma unat_ucast_wide: "unat (ucast (m :: u32) :: u64) = unat m"
  using unsigned_less[of m, where 'a = nat] by (simp add: unsigned_ucast_eq take_bit_nat_eq_self_iff)

lemma frame_fits:
  assumes "\<not> bit len 63" and "\<not> ucast (M :: u32) <s (len :: u64)"
  shows "unat len \<le> unat M"
proof -
  have "\<not> bit (ucast M :: u64) 63" using bit_imp_le_length[of M 63] by (auto simp: bit_simps)
  then have "sint (ucast M :: u64) = int (unat (ucast M :: u64))" by (rule sint_top_clear)
  then have "sint (ucast M :: u64) = int (unat M)" unfolding unat_ucast_wide .
  then show ?thesis using assms(2) unfolding word_sless_alt sint_top_clear[OF assms(1)] by linarith
qed

lemma ready_round: "next_state s \<notin> starting \<Longrightarrow> ready s \<longleftrightarrow>
    length (bsMemoryBuffer s) = bs_memory_size \<and> length (bs_header s) = FILE_HEADER_LEN \<and> step_ok s"
  by (auto simp: ready_def starting_def split: bs_patch_state_t.split)

lemma still_round:
  assumes "in_bounds s" and "var_int_len s = 0"
    and "next_state s \<in> {EBsReadControlSegmentHeader, EBsReadControlSegment, EReadCtrl_diff_str_len, EReadCtrl_extra_str_len_y,
      EReadCtrl_old_file_ctrl_off_set_jump, EBsReadDataSegment, EBspatch_processDiffBytes_readHeaderPiece,
      EBspatch_processDiffBytes_processSinglePieceContinue_postActions, EBsProcessExtraLen, EBsProcessExtraLen_readHeader,
      EBsProcessExtraLen_singleItemContinuePostStep, EBsProcessExtraLen_postStep}"
  shows "step_ok s"
  using assms(3,1,2) by (auto simp: step_ok_def Let_def)

context bounded_client
begin

lemma header_round:
  assumes "ok s" and "ready s" and "expectedExternalEvent s = 0" and st: "next_state s = EBsInitialPatchReadDone"
  shows "\<exists>r. bs_step lz4 client s = Some r \<and> safe_round ok stock s r"
proof -
  have rd: "length (bsMemoryBuffer s) = bs_memory_size" "length (bs_header s) = FILE_HEADER_LEN" "var_int_len s = 0"
    "small_header s" using assms(2) by (simp_all add: ready_def st)
  obtain c t where t: "bspatch_readInitialHeaderAndContinueReadOfPatchDone s = Some (c, t)"
    "bspatch_stream.more t = bspatch_stream.more s" "shape t = shape s" "expectedExternalEvent t = expectedExternalEvent s"
    "var_int_len t = var_int_len s"
    and c: "c < 0 \<or> c = 0 \<and> max_compressedDataBuffer t = max_deCompressBuffer t \<and> 64 \<le> max_deCompressBuffer t \<and>
      max_deCompressBuffer t < 2 ^ 31"
    using header_bounded[OF rd(4,2)] by blast
  let ?t = "t\<lparr>next_state := EBsAllocWorkingBuffer\<rparr>"
  have "ready ?t" "rank ?t < rank s" if "c = 0"
    using c that rd shape_fields[OF t(3)] t(5) by (simp_all add: ready_def rank_def st)
  then have "safe_round ok stock s (c, ?t)" using t assms(3) c by (intro plain_round[OF assms(1)]) auto
  then show ?thesis using t(1) by (simp add: bs_step_def st SET_NEXT_STATE_def)
qed

lemma alloc_round:
  assumes "ok s" and "ready s" and "expectedExternalEvent s = 0" and st: "next_state s = EBsAllocWorkingBuffer"
  shows "\<exists>r. bs_step lz4 client s = Some r \<and> safe_round ok stock s r"
proof -
  have rd: "length (bsMemoryBuffer s) = bs_memory_size" "length (bs_header s) = FILE_HEADER_LEN" "var_int_len s = 0"
    and m: "max_compressedDataBuffer s = max_deCompressBuffer s" "64 \<le> max_deCompressBuffer s" "max_deCompressBuffer s < 2 ^ 31"
    using assms(2) by (simp_all add: ready_def st)
  obtain c t where t: "bspatch_allocWorkingBuffers s = (c, t)"
    "bspatch_stream.more t = bspatch_stream.more s" "shape t = shape s" "expectedExternalEvent t = expectedExternalEvent s"
    "var_int_len t = var_int_len s" and c: "c < 0 \<or> c = 0 \<and> in_bounds t"
    using alloc_bounded[OF m] by blast
  let ?t = "t\<lparr>next_state := EBsReadControlSegmentHeader\<rparr>"
  have "ready ?t" "rank ?t < rank s" if "c = 0"
    using c that rd shape_fields[OF t(3)] t(5) by (simp_all add: ready_round starting_def still_round rank_def st)
  then have "safe_round ok stock s (c, ?t)" using t assms(3) c by (intro plain_round[OF assms(1)]) auto
  then show ?thesis using t(1) by (simp add: bs_step_def st SET_NEXT_STATE_def)
qed

end

context bounded_client
begin

text \<open>A byte of a number is read.\<close>

lemma number_round:
  assumes "ok s0" and "expectedExternalEvent s = 0" and "bspatch_stream.more s = bspatch_stream.more s0" and "shape s = shape s0"
    and "length (bsMemoryBuffer s0) = bs_memory_size" and "length (bs_header s0) = FILE_HEADER_LEN"
    and "in_bounds s" and "number_ok s"
  shows "\<exists>r. map_option (WAIT_FOR EBSAPI_READ_PATCH_DONE EBsPatch_process_varintPiece)
      (sendPatchReadRequest client (at_nonCompressed s) 1 s) = Some r \<and> safe_round ok stock s0 r"
proof (rule read_round[OF _ ok_frame[OF assms(1,4,3)] assms(2) _ assms(3,4)])
  show "EBsPatch_process_varintPiece \<notin> starting" by (simp add: starting_def)
next
  have "1 \<le> unat (max_deCompressBuffer s)" using assms(7) by (simp add: in_bounds_def Let_def)
  then show "bs_load s (at_nonCompressed s) 0 (unat (1 :: u64)) \<noteq> None"
    using assms(5,7) shape_fields[OF assms(4)] by (intro buffers_some) simp_all
next
  fix t e
  assume k: "kept s t"
  show "ready (t\<lparr>expectedExternalEvent := e, next_state := EBsPatch_process_varintPiece\<rparr>)"
    using assms(5-8) kept_fields[OF k] in_bounds_kept[OF k] shape_fields[OF assms(4)]
    by (simp add: ready_round starting_def step_ok_def Let_def number_ok_def number_next_def frame_len_next_def)
next
  fix t
  show "rank (t\<lparr>next_state := EBsPatch_process_varintPiece\<rparr>) < (if (1 :: u64) = 0 then rank s0 else 2000)"
    by (simp add: rank_def)
qed

text \<open>A frame is read.\<close>

lemma frame_round:
  assumes "ok s0" and "expectedExternalEvent s0 = 0"
    and "length (bsMemoryBuffer s0) = bs_memory_size" and "length (bs_header s0) = FILE_HEADER_LEN"
    and "in_bounds s0" and "var_int_len s0 = 0" and "\<not> bit (var_int s0) 63" and "s = s0\<lparr>frame_len := var_int s0\<rparr>"
    and x: "next_state s0 = EBspatch_processDiffBytes_processSinglePiece \<and> x = EBspatch_processDiffBytes_processSinglePieceContinue \<or>
      next_state s0 = EBsProcessExtraLen_singleItem \<and> x = EBsProcessExtraLen_singleItemContinue"
  shows "\<exists>r. map_option (WAIT_FOR EBSAPI_READ_PATCH_DONE x) (read_deCompressBuffer client (frame_len s) s) = Some r \<and>
    safe_round ok stock s0 r"
proof -
  have s: "bspatch_stream.more s = bspatch_stream.more s0" "shape s = shape s0" "expectedExternalEvent s = 0"
    using assms(2,8) by simp_all
  note k = ok_frame[OF assms(1) s(2,1)]
  show ?thesis
  proof (cases "ucast (max_deCompressBuffer s) <s frame_len s")
    case True
    then have "map_option (WAIT_FOR EBSAPI_READ_PATCH_DONE x) (read_deCompressBuffer client (frame_len s) s) =
        Some (EBSAPI_ERR_CORRUPTED_PATCH, s\<lparr>next_state := x\<rparr>)" by (simp add: read_deCompressBuffer_def WAIT_FOR_error)
    moreover have "safe_round ok stock s0 (EBSAPI_ERR_CORRUPTED_PATCH, s\<lparr>next_state := x\<rparr>)"
      using s by (intro plain_round[OF assms(1)]) simp_all
    ultimately show ?thesis by blast
  next
    case False
    have "\<not> bit (frame_len s) 63" using assms(7,8) by simp
    then have n: "unat (frame_len s) \<le> unat (max_deCompressBuffer s)" using False by (rule frame_fits)
    have ib: "in_bounds s" using assms(5,8) by simp
    have "\<exists>r. map_option (WAIT_FOR EBSAPI_READ_PATCH_DONE x) (sendPatchReadRequest client (at_compressed s) (frame_len s) s) = Some r \<and>
        safe_round ok stock s0 r"
    proof (rule read_round[OF _ k s(3) _ s(1,2)])
      show "x \<notin> starting" using x by (auto simp: starting_def)
    next
      show "bs_load s (at_compressed s) 0 (unat (frame_len s)) \<noteq> None"
        using n ib assms(3) shape_fields[OF s(2)] by (intro buffers_some) simp_all
    next
      fix t e
      assume t: "kept s t"
      show "ready (t\<lparr>expectedExternalEvent := e, next_state := x\<rparr>)"
        using x n ib assms(3,4,6,8) kept_fields[OF t] in_bounds_kept[OF t]
        by (auto simp: ready_round starting_def step_ok_def Let_def)
    next
      fix t
      show "rank (t\<lparr>next_state := x\<rparr>) < (if frame_len s = 0 then rank s0 else 2000)" using x by (auto simp: rank_def)
    qed
    then show ?thesis using False by (simp add: read_deCompressBuffer_def)
  qed
qed

text \<open>A number is complete, or its next byte follows.\<close>

lemma varint_round:
  assumes "ok s" and "ready s" and "expectedExternalEvent s = 0" and st: "next_state s = EBsPatch_process_varintPiece"
  shows "\<exists>r. bs_step lz4 client s = Some r \<and> safe_round ok stock s r"
proof -
  have rd: "length (bsMemoryBuffer s) = bs_memory_size" "length (bs_header s) = FILE_HEADER_LEN" "in_bounds s" "number_ok s"
    using assms(2) by (simp_all add: ready_round starting_def st step_ok_def Let_def)
  have "1 \<le> unat (max_deCompressBuffer s)" using rd(3) by (simp add: in_bounds_def Let_def)
  then have "bs_load s (at_nonCompressed s) 0 1 \<noteq> None" using rd by (intro buffers_some) simp_all
  then obtain c t where t: "readVarIntEventified (isSignedVarInt s) s = Some (c, t)" "bspatch_stream.more t = bspatch_stream.more s"
    "shape t = shape s" "expectedExternalEvent t = expectedExternalEvent s" "in_bounds t = in_bounds s"
    and c: "c < 0 \<or> c = 0 \<and> (next_state t = EBspatch_read_varintPiece \<and> number_ok t \<or>
      next_state t = stateAfterReadVarInt s \<and> var_int_len t = 0 \<and> (\<not> isSignedVarInt s \<longrightarrow> \<not> bit (var_int t) 63))"
    using number_read[OF rd(4)] by blast
  have "ready t \<and> rank t < rank s" if "c = 0"
  proof -
    have l: "length (bsMemoryBuffer t) = bs_memory_size" "length (bs_header t) = FILE_HEADER_LEN" "in_bounds t"
      using rd shape_fields[OF t(3)] t(5) by simp_all
    have nn: "number_next s" using rd(4) by (simp add: number_ok_def)
    from c that have "next_state t = EBspatch_read_varintPiece \<and> number_ok t \<or>
      next_state t = stateAfterReadVarInt s \<and> var_int_len t = 0 \<and> (\<not> isSignedVarInt s \<longrightarrow> \<not> bit (var_int t) 63)" by simp
    then show ?thesis using nn
      by (auto simp: ready_round starting_def step_ok_def Let_def l rank_def st number_next_def frame_len_next_def)
  qed
  then have "safe_round ok stock s (c, t)" using t assms(3) c by (intro plain_round[OF assms(1)]) auto
  then show ?thesis using t(1) by (simp add: bs_step_def st)
qed

end

lemma small_sless:
  assumes "unat (a :: u64) \<le> 512" and "unat b \<le> 512"
  shows "a <s b \<longleftrightarrow> unat a < unat b"
  using of_nat_sless[of "unat a" "unat b"] assms by simp

context bounded_client
begin

lemma decompress_round:
  assumes "lz4_bounded lz4" and "ok s" and "ready s" and "expectedExternalEvent s = 0"
    and st: "next_state s = EBspatch_processDiffBytes_processSinglePieceContinue"
  shows "\<exists>r. bs_step lz4 client s = Some r \<and> safe_round ok stock s r"
proof -
  have rd: "length (bsMemoryBuffer s) = bs_memory_size" "length (bs_header s) = FILE_HEADER_LEN" "in_bounds s"
    "var_int_len s = 0" "unat (frame_len s) \<le> unat (max_deCompressBuffer s)"
    using assms(3) by (simp_all add: ready_round starting_def st step_ok_def Let_def)
  obtain c u x where u: "read_deCompressBuffer_process lz4 (frame_len s) s = Some (c, u\<lparr>undeCompressBuffer_len := x\<rparr>)"
    "kept s u" "bspatch_stream.more u = bspatch_stream.more s" and c: "c = 0 \<and> unat x \<le> unat (max_deCompressBuffer s) \<or> c < 0"
    using decompressed_bounded[OF assms(1) rd(3,1,5)] by blast
  let ?t = "u\<lparr>undeCompressBuffer_len := x, next_state := EBspatch_processDiffBytes_processSinglePieceInit\<rparr>"
  note k = kept_fields[OF u(2)] in_bounds_kept[OF u(2)]
  have "ready ?t \<and> rank ?t < rank s" if "c = 0"
    using c that rd k by (simp add: ready_round starting_def step_ok_def Let_def rank_def st)
  moreover have "shape u = shape s" using u(2) by (simp add: kept_def)
  ultimately have "safe_round ok stock s (c, ?t)" using u assms(4) k c by (intro plain_round[OF assms(2)]) auto
  then show ?thesis using u(1) by (simp add: bs_step_def st SET_NEXT_STATE_def)
qed

lemma old_bytes_round:
  assumes "ok s" and "ready s" and "expectedExternalEvent s = 0"
    and st: "next_state s = EBspatch_processDiffBytes_processSinglePieceContinue2"
  shows "\<exists>r. bs_step lz4 client s = Some r \<and> safe_round ok stock s r"
proof -
  let ?M = "max_deCompressBuffer s" and ?n = "undeCompressBuffer_len s"
  have rd: "length (bsMemoryBuffer s) = bs_memory_size" "length (bs_header s) = FILE_HEADER_LEN" "in_bounds s"
    "var_int_len s = 0" "unat ?n \<le> unat ?M" "unat (bs_i s) \<le> unat ?n"
    using assms(2) by (simp_all add: ready_round starting_def st step_ok_def Let_def word_le_nat_alt)
  have M: "unat ?M \<le> 512" "1 \<le> unat ?M" using rd(3) by (simp_all add: in_bounds_def Let_def)
  show ?thesis
  proof (cases "bs_i s <s ?n")
    case False
    have "safe_round ok stock s (0, s\<lparr>next_state := EBspatch_processDiffBytes_processSinglePieceContinue_postActions\<rparr>)"
      using assms(3) rd by (intro plain_round[OF assms(1)]) (simp_all add: ready_round starting_def still_round rank_def st)
    then show ?thesis using False by (simp add: bs_step_def st SET_NEXT_STATE_def)
  next
    case True
    then have lt: "unat (bs_i s) < unat ?n" using small_sless[of "bs_i s" ?n] rd(5,6) M by simp
    let ?left = "ucast (?n - bs_i s) :: u32" and ?x = "EBspatch_processDiffBytes_processSinglePieceContinue_writePart"
    have "unat (?n - bs_i s) = unat ?n - unat (bs_i s)" using rd(6) by (simp add: unat_sub_if' word_le_nat_alt)
    then have l: "unat ?left = unat ?n - unat (bs_i s)"
      using rd(5) M(1) by (simp add: unsigned_ucast_eq take_bit_nat_eq_self_iff)
    define m where "m = (if ?M \<le> ?left then ?M else ?left)"
    have m: "unat m \<le> unat ?n - unat (bs_i s)" "unat m \<le> unat ?M" "0 < unat m"
      using l lt M(2) by (auto simp: m_def word_le_nat_alt)
    have p: "0 < m" using m(3) by (simp only: unat_gt_0 word_gt_0)
    let ?s = "s\<lparr>readRequestSize := m\<rparr>"
    have "\<exists>r. map_option (WAIT_FOR EBSAPI_READ_OLD_DONE ?x) (sendReadOldRequest client (at_compressed ?s) (ucast m) ?s) = Some r \<and>
        safe_round ok stock s r"
    proof (rule old_round)
      show "ok ?s" by (rule ok_frame[OF assms(1)]) simp_all
      show "bs_load ?s (at_compressed ?s) 0 (unat (ucast m :: u64)) \<noteq> None"
        using m(2) rd by (intro buffers_some) (simp_all add: unat_ucast_wide)
    next
      fix t e
      assume k: "kept ?s t"
      show "ready (t\<lparr>expectedExternalEvent := e, next_state := ?x\<rparr>)"
        using rd m(1) p lt kept_fields[OF k] in_bounds_kept[OF k] by (simp add: ready_round starting_def step_ok_def Let_def)
      show "rank (t\<lparr>next_state := ?x\<rparr>) < rank s" using kept_fields[OF k] by (simp add: rank_def st)
    qed (use assms(3) in \<open>simp_all add: starting_def\<close>)
    then show ?thesis using True by (simp add: bs_step_def st Let_def m_def)
  qed
qed

end

context bounded_client
begin

lemma write_part_round:
  assumes "ok s" and "ready s" and "expectedExternalEvent s = 0"
    and st: "next_state s = EBspatch_processDiffBytes_processSinglePieceContinue_writePart"
  shows "\<exists>r. bs_step lz4 client s = Some r \<and> safe_round ok stock s r"
proof -
  let ?M = "max_deCompressBuffer s" and ?n = "undeCompressBuffer_len s" and ?m = "readRequestSize s"
  let ?x = "EBspatch_processDiffBytes_processSinglePieceContinue2"
  have rd: "length (bsMemoryBuffer s) = bs_memory_size" "length (bs_header s) = FILE_HEADER_LEN" "in_bounds s"
    "var_int_len s = 0" "unat ?n \<le> unat ?M" "unat (bs_i s) + unat ?m \<le> unat ?n" "0 < ?m"
    using assms(2) by (simp_all add: ready_round starting_def st step_ok_def Let_def)
  have M: "unat ?M \<le> 512" using rd(3) by (simp add: in_bounds_def Let_def)
  have m: "0 < unat ?m" using rd(7) by (simp only: unat_gt_0 word_gt_0)
  obtain t where t: "add_diff_loop 0 (unat ?m) s = Some t" "kept s t" "bspatch_stream.more t = bspatch_stream.more s"
    using add_diff_kept[OF rd(3,1), of 0 "unat ?m"] rd(5,6) by auto
  note k = kept_fields[OF t(2)] in_bounds_kept[OF t(2)]
  have sh: "shape t = shape s" using t(2) by (simp add: kept_def)
  let ?g = "\<lambda>u. u\<lparr>bs_i := bs_i u + ucast (readRequestSize u)\<rparr>"
  have "\<exists>code u. sendWriteNewRequest client (at_compressed t) (ucast (readRequestSize t)) t = Some (code, u) \<and> kept t u \<and>
      safe_round ok stock s (WAIT_FOR EBSAPI_WRITE_NEW_DONE ?x (code, ?g u))"
  proof (rule write_round[OF _ ok_frame[OF assms(1) sh t(3)] _ _ t(3) sh])
    show "expectedExternalEvent t = 0" using k assms(3) by simp
    have "in_bounds t" "length (bsMemoryBuffer t) = bs_memory_size" using k rd by simp_all
    moreover have "0 + unat (readRequestSize t) \<le> unat (max_deCompressBuffer t)" using k rd by simp
    ultimately show "bs_load t (at_compressed t) 0 (unat (ucast (readRequestSize t) :: u64)) \<noteq> None"
      unfolding unat_ucast_wide by (rule buffers_some(2))
  next
    fix u e
    assume "kept t u"
    then have u: "kept s u" by (rule kept_trans[OF t(2)])
    note k = kept_fields[OF u] in_bounds_kept[OF u]
    have i: "unat (bs_i s + ucast ?m) = unat (bs_i s) + unat ?m"
      using rd(5,6) M by (simp add: unat_word_ariths unat_ucast_wide)
    show "ready ((?g u)\<lparr>expectedExternalEvent := e, next_state := ?x\<rparr>)"
      using rd k i by (simp add: ready_round starting_def step_ok_def Let_def word_le_nat_alt)
    show "rank ((?g u)\<lparr>next_state := ?x\<rparr>) < rank s" using rd(6) m k i by (simp add: rank_def st)
  qed (simp_all add: starting_def)
  then obtain code u where u: "sendWriteNewRequest client (at_compressed t) (ucast (readRequestSize t)) t = Some (code, u)"
    "safe_round ok stock s (WAIT_FOR EBSAPI_WRITE_NEW_DONE ?x (code, ?g u))" by blast
  have "bs_step lz4 client s = Some (WAIT_FOR EBSAPI_WRITE_NEW_DONE ?x (code, ?g u))"
    using t(1) u(1) by (simp add: bs_step_def st)
  then show ?thesis using u(2) by blast
qed

lemma new_bytes_round:
  assumes "lz4_bounded lz4" and "ok s" and "ready s" and "expectedExternalEvent s = 0"
    and st: "next_state s = EBsProcessExtraLen_singleItemContinue"
  shows "\<exists>r. bs_step lz4 client s = Some r \<and> safe_round ok stock s r"
proof -
  let ?x = "EBsProcessExtraLen_singleItemContinuePostStep"
  have rd: "length (bsMemoryBuffer s) = bs_memory_size" "length (bs_header s) = FILE_HEADER_LEN" "in_bounds s"
    "var_int_len s = 0" "unat (frame_len s) \<le> unat (max_deCompressBuffer s)"
    using assms(3) by (simp_all add: ready_round starting_def st step_ok_def Let_def)
  obtain c u x where u: "read_deCompressBuffer_process lz4 (frame_len s) s = Some (c, u\<lparr>undeCompressBuffer_len := x\<rparr>)"
    "kept s u" "bspatch_stream.more u = bspatch_stream.more s" and c: "c = 0 \<and> unat x \<le> unat (max_deCompressBuffer s) \<or> c < 0"
    using decompressed_bounded[OF assms(1) rd(3,1,5)] by blast
  let ?u = "u\<lparr>undeCompressBuffer_len := x\<rparr>"
  note k = kept_fields[OF u(2)] in_bounds_kept[OF u(2)]
  have sh: "shape ?u = shape s" "bspatch_stream.more ?u = bspatch_stream.more s" using u(2,3) by (simp_all add: kept_def)
  note oku = ok_frame[OF assms(2) sh]
  show ?thesis
  proof (cases "c = 0")
    case False
    then have "c < 0" using c by simp
    then have "safe_round ok stock s (WAIT_FOR EBSAPI_WRITE_NEW_DONE ?x (c, ?u))"
      using sh k assms(4) ok_waiting(2)[OF oku] by (simp add: WAIT_FOR_error soundI_error)
    then show ?thesis using u(1) False by (simp add: bs_step_def st bspatch_processSingeExtraStrLenCompress_def)
  next
    case True
    then have x: "unat x \<le> unat (max_deCompressBuffer s)" using c by simp
    have "\<exists>code t. sendWriteNewRequest client (at_nonCompressed ?u) x ?u = Some (code, t) \<and> kept ?u t \<and>
        safe_round ok stock s (WAIT_FOR EBSAPI_WRITE_NEW_DONE ?x (code, id t))"
    proof (rule write_round[OF _ oku _ _ sh(2,1)])
      show "expectedExternalEvent ?u = 0" using k assms(4) by simp
      show "bs_load ?u (at_nonCompressed ?u) 0 (unat x) \<noteq> None" using x rd k by (intro buffers_some) simp_all
    next
      fix t e
      assume "kept ?u t"
      note k = kept_fields[OF this] in_bounds_kept[OF this] k
      show "ready ((id t)\<lparr>expectedExternalEvent := e, next_state := ?x\<rparr>)"
        using rd k by (simp add: ready_round starting_def still_round)
      show "rank ((id t)\<lparr>next_state := ?x\<rparr>) < rank s" by (simp add: rank_def st)
    qed (simp_all add: starting_def)
    then obtain code t where t: "sendWriteNewRequest client (at_nonCompressed ?u) x ?u = Some (code, t)"
      "safe_round ok stock s (WAIT_FOR EBSAPI_WRITE_NEW_DONE ?x (code, t))" by auto
    have "bs_step lz4 client s = Some (WAIT_FOR EBSAPI_WRITE_NEW_DONE ?x (code, t))"
      using u(1) True t(1) by (simp add: bs_step_def st bspatch_processSingeExtraStrLenCompress_def)
    then show ?thesis using t(2) by blast
  qed
qed

lemma seek_old_round:
  assumes "ok s" and "ready s" and "expectedExternalEvent s = 0" and st: "next_state s = EBsProcessExtraLen_postStep"
  shows "\<exists>r. bs_step lz4 client s = Some r \<and> safe_round ok stock s r"
proof -
  have rd: "length (bsMemoryBuffer s) = bs_memory_size" "length (bs_header s) = FILE_HEADER_LEN" "in_bounds s" "var_int_len s = 0"
    using assms(2) by (simp_all add: ready_round starting_def st step_ok_def Let_def)
  let ?s = "s\<lparr>newpos := newpos s + ctrl_EXTRA_STR_LEN_Y s\<rparr>"
  have "\<exists>r. map_option (WAIT_FOR EBSAPI_SEEK_OLD_DONE EBsReadControlSegmentHeader)
      (sendSeekOldRequest client (ctrl_OLD_FILE_CTRL_OFF_SET_JUMP ?s) ?s) = Some r \<and> safe_round ok stock s r"
  proof (rule seek_round)
    show "ok ?s" by (rule ok_frame[OF assms(1)]) simp_all
  next
    fix t e
    assume "kept ?s t"
    note k = kept_fields[OF this] in_bounds_kept[OF this]
    show "ready (t\<lparr>expectedExternalEvent := e, next_state := EBsReadControlSegmentHeader\<rparr>)"
      using rd k by (simp add: ready_round starting_def still_round)
    show "rank (t\<lparr>next_state := EBsReadControlSegmentHeader\<rparr>) < rank s" by (simp add: rank_def st)
  qed (use assms(3) in \<open>simp_all add: starting_def\<close>)
  then show ?thesis by (simp add: bs_step_def st Let_def)
qed

lemma number_step:
  assumes "ok s" and "ready s" and "next_state s \<notin> starting"
    and "bs_step lz4 client s = map_option (WAIT_FOR EBSAPI_READ_PATCH_DONE EBsPatch_process_varintPiece)
      (sendPatchReadRequest client (at_nonCompressed u) 1 u)"
    and "bspatch_stream.more u = bspatch_stream.more s" and "shape u = shape s" and "expectedExternalEvent u = 0"
    and "in_bounds u" and "number_ok u"
  shows "\<exists>r. bs_step lz4 client s = Some r \<and> safe_round ok stock s r"
proof -
  have "length (bsMemoryBuffer s) = bs_memory_size" "length (bs_header s) = FILE_HEADER_LEN"
    using assms(2,3) by (simp_all add: ready_round)
  then show ?thesis unfolding assms(4) by (rule number_round[OF assms(1,7,5,6) _ _ assms(8,9)])
qed

lemma numbers_round:
  assumes "ok s" and "ready s" and "expectedExternalEvent s = 0"
    and st: "next_state s \<in> {EReadCtrl_diff_str_len, EReadCtrl_extra_str_len_y, EReadCtrl_old_file_ctrl_off_set_jump,
      EBspatch_read_frame_len, EBspatch_read_varintPiece}"
  shows "\<exists>r. bs_step lz4 client s = Some r \<and> safe_round ok stock s r"
proof -
  have n: "next_state s \<notin> starting" using st by (auto simp: starting_def)
  then have ro: "step_ok s" using assms(2) by (simp add: ready_round)
  note r = number_step[OF assms(1,2) n] and d = bs_step_def Let_def step_ok_def number_ok_def number_next_def frame_len_next_def
  from st show ?thesis
  proof (elim insertE emptyE)
    assume "next_state s = EReadCtrl_diff_str_len"
    then show ?thesis using ro assms(3)
      by (intro r[of lz4 "s\<lparr>stateAfterReadVarInt := EReadCtrl_extra_str_len_y, isSignedVarInt := False\<rparr>"]) (simp_all add: d)
  next
    assume "next_state s = EReadCtrl_extra_str_len_y"
    then show ?thesis using ro assms(3)
      by (intro r[of lz4 "s\<lparr>ctrl_DIFF_STR_LEN_X := var_int s, stateAfterReadVarInt := EReadCtrl_old_file_ctrl_off_set_jump,
        isSignedVarInt := False\<rparr>"]) (simp_all add: d)
  next
    assume "next_state s = EReadCtrl_old_file_ctrl_off_set_jump"
    then show ?thesis using ro assms(3)
      by (intro r[of lz4 "s\<lparr>ctrl_EXTRA_STR_LEN_Y := var_int s, stateAfterReadVarInt := EBsReadDataSegment,
        isSignedVarInt := True\<rparr>"]) (simp_all add: d)
  next
    assume "next_state s = EBspatch_read_frame_len"
    then show ?thesis using ro assms(3) by (intro r[of lz4 "s\<lparr>isSignedVarInt := False\<rparr>"]) (simp_all add: d)
  next
    assume "next_state s = EBspatch_read_varintPiece"
    then show ?thesis using ro assms(3) by (intro r[of lz4 s]) (simp_all add: d)
  qed
qed

lemma set_round:
  assumes "ok s" and "bspatch_stream.more t = bspatch_stream.more s" and "shape t = shape s" and "expectedExternalEvent t = 0"
    and "c < 0 \<or> c = 0 \<and> ready (t\<lparr>next_state := x\<rparr>) \<and> rank (t\<lparr>next_state := x\<rparr>) < rank s"
  shows "safe_round ok stock s (SET_NEXT_STATE x (c, t))"
  unfolding SET_NEXT_STATE_def fst_conv snd_conv using assms by (intro plain_round) simp_all

lemma internal_round:
  assumes "ok s" and "ready s" and "expectedExternalEvent s = 0"
    and st: "next_state s \<in> {EBsReadControlSegmentHeader, EBsReadControlSegment, EBsReadDataSegment,
      EBspatch_processDiffBytes_readHeaderPiece, EBspatch_processDiffBytes_processSinglePieceInit,
      EBspatch_processDiffBytes_processSinglePieceContinue_postActions, EBsProcessExtraLen, EBsProcessExtraLen_readHeader,
      EBsProcessExtraLen_singleItemContinuePostStep}"
  shows "\<exists>r. bs_step lz4 client s = Some r \<and> safe_round ok stock s r"
proof -
  have n: "next_state s \<notin> starting" using st by (auto simp: starting_def)
  then have rd: "length (bsMemoryBuffer s) = bs_memory_size" "length (bs_header s) = FILE_HEADER_LEN" "step_ok s"
    using assms(2) by (simp_all add: ready_round)
  then have ib: "in_bounds s" "unat (max_deCompressBuffer s) \<le> 512" by (simp_all add: step_ok_def in_bounds_def Let_def)
  have "safe_round ok stock s (EBSAPI_ERR_CORRUPTED_PATCH, s)" using assms(3) by (intro plain_round[OF assms(1)]) simp_all
  note r = set_round[OF assms(1)] this
  from st show ?thesis
  proof (elim insertE emptyE)
    assume a: "next_state s = EBspatch_processDiffBytes_processSinglePieceInit"
    then show ?thesis using rd ib assms(3) unfolding bs_step_def
      by (simp add: Let_def ready_round starting_def step_ok_def rank_def r)
  qed (use rd ib assms(3) in \<open>simp_all add: bs_step_def Let_def bspatch_processDiffBytesPost_def ready_round starting_def
      step_ok_def frame_len_next_def rank_def r\<close>)
qed

text \<open>The states that no round sets.\<close>

lemma invalid_round:
  assumes "ok s" and "expectedExternalEvent s = 0"
    and "next_state s \<in> {EBsNone, EBsReadInitialHeader, EBspatch_read_frame_len_piece_read}"
  shows "\<exists>r. bs_step lz4 client s = Some r \<and> safe_round ok stock s r"
proof -
  have "safe_round ok stock s (EBSAPI_ERR_INVALID_STATE, s)" using assms(2) by (intro plain_round[OF assms(1)]) simp_all
  moreover have "bs_step lz4 client s = Some (EBSAPI_ERR_INVALID_STATE, s)" using assms(3) by (auto simp: bs_step_def)
  ultimately show ?thesis by blast
qed

lemma round_safe:
  assumes "lz4_bounded lz4" and "ok s" and "ready s" and "expectedExternalEvent s = 0"
  shows "\<exists>r. bs_step lz4 client s = Some r \<and> safe_round ok stock s r"
proof -
  have f: ?thesis if st: "next_state s \<in> {EBspatch_processDiffBytes_processSinglePiece, EBsProcessExtraLen_singleItem}"
  proof -
    have "length (bsMemoryBuffer s) = bs_memory_size" "length (bs_header s) = FILE_HEADER_LEN" "in_bounds s"
      "var_int_len s = 0" "\<not> bit (var_int s) 63"
      using assms(3) st by (auto simp: ready_round starting_def step_ok_def Let_def)
    note f = frame_round[OF assms(2,4) this refl]
    from st show ?thesis
    proof (elim insertE emptyE)
      assume a: "next_state s = EBspatch_processDiffBytes_processSinglePiece"
      show ?thesis using f[of EBspatch_processDiffBytes_processSinglePieceContinue] by (simp add: a bs_step_def Let_def)
    next
      assume a: "next_state s = EBsProcessExtraLen_singleItem"
      show ?thesis using f[of EBsProcessExtraLen_singleItemContinue] by (simp add: a bs_step_def Let_def)
    qed
  qed
  note rounds = header_round alloc_round varint_round old_bytes_round write_part_round seek_old_round
    numbers_round internal_round
  show ?thesis
    using assms(3) by (cases "next_state s") (simp add: ready_def; fail | intro rounds[OF assms(2-4)] decompress_round[OF assms] new_bytes_round[OF assms]
      invalid_round[OF assms(2,4)] f; simp; fail)+
qed

end

subsection \<open>Events\<close>

text \<open>The patcher waits for an event in a state that is ready for it, or refuses every event.\<close>

definition waiting :: "'z bspatch_stream_scheme \<Rightarrow> bool" where
  "waiting s \<longleftrightarrow> expectedExternalEvent s = 0 \<or>
     expectedExternalEvent s \<in> {EBSAPI_READ_PATCH_DONE, EBSAPI_WRITE_NEW_DONE} \<and>
     ready s \<and> next_state s \<notin> starting"

lemma ready_event: "ready (s\<lparr>expectedExternalEvent := e\<rparr>) = ready s"
proof (cases "next_state s \<in> starting")
  case True
  then show ?thesis by (auto simp: ready_def starting_def small_header_def header_field_def bs_load_def)
next
  case False
  moreover have "step_ok (s\<lparr>expectedExternalEvent := e\<rparr>) = step_ok s"
    by (cases "next_state s") (simp_all add: step_ok_def number_ok_def number_next_def frame_len_next_def)
  ultimately show ?thesis by (simp add: ready_round)
qed

lemma effort_event: "effort stock (s\<lparr>expectedExternalEvent := e\<rparr>) = effort stock s"
  by (simp add: effort_def rank_def)

context bounded_client
begin

lemma loop_total:
  assumes "lz4_bounded lz4" and "ok s" and "ready s" and "expectedExternalEvent s = 0"
  shows "\<exists>st t. bs_loop lz4 client s = Some (st, t) \<and> ok t \<and> shape t = shape s \<and> waiting t \<and>
    (isPatchingDone t \<or> st < 0 \<or> st = EBSAPI_OPERATION_PATCH_READ_WILL_COMPLETE_LATER \<or>
     st = EBSAPI_OPERATION_NEW_FILE_WRITE_WILL_COMPLETE_LATER \<and> effort stock t < effort stock s)"
  using assms(2-4)
proof (induction "effort stock s" arbitrary: s rule: less_induct)
  case less
  obtain st t where t: "bs_step lz4 client s = Some (st, t)" "safe_round ok stock s (st, t)"
    using round_safe[OF assms(1) less.prems] by fast
  have k: "ok t" "shape t = shape s" using t(2) by (simp_all add: safe_round_def)
  show ?case
  proof (cases "\<not> isPatchingDone t \<and> st = 0")
    case True
    then have n: "ready t" "expectedExternalEvent t = 0" "effort stock t < effort stock s" using t(2) by (auto simp: safe_round_def)
    obtain st' t' where r: "bs_loop lz4 client t = Some (st', t')" "ok t'" "shape t' = shape t" "waiting t'"
      and c: "isPatchingDone t' \<or> st' < 0 \<or> st' = EBSAPI_OPERATION_PATCH_READ_WILL_COMPLETE_LATER \<or>
        st' = EBSAPI_OPERATION_NEW_FILE_WRITE_WILL_COMPLETE_LATER \<and> effort stock t' < effort stock t"
      using less.hyps[OF n(3) k(1) n(1,2)] by blast
    have "bs_loop lz4 client s = Some (st', t')" using t(1) True r(1) by (subst bs_loop.simps) simp
    then show ?thesis using r(2-4) c k(2) n(3) by (metis order.strict_trans)
  next
    case False
    then have l: "bs_loop lz4 client s = Some (st, t)" using t(1) by (subst bs_loop.simps) auto
    have "waiting t" using t(2) by (auto simp: safe_round_def waiting_def)
    moreover have "isPatchingDone t \<or> st < 0 \<or> st = EBSAPI_OPERATION_PATCH_READ_WILL_COMPLETE_LATER \<or>
        st = EBSAPI_OPERATION_NEW_FILE_WRITE_WILL_COMPLETE_LATER \<and> effort stock t < effort stock s"
      using False t(2) by (auto simp: safe_round_def)
    ultimately show ?thesis using l k by blast
  qed
qed

lemma event_total:
  assumes "lz4_bounded lz4" and "ok s" and "waiting s" and "e \<noteq> 0"
  shows "\<exists>r t. ARM_BS_ProcessPatchEvent lz4 client e s = Some (r, t) \<and> ok t \<and> shape t = shape s \<and> waiting t \<and>
    (r = EBSAPI_PATCH_DONE \<or> r < 0 \<or> r = EBSAPI_OPERATION_PATCH_READ_WILL_COMPLETE_LATER \<or>
     r = EBSAPI_OPERATION_NEW_FILE_WRITE_WILL_COMPLETE_LATER \<and> effort stock t < effort stock s)"
proof (cases "e = expectedExternalEvent s")
  case False
  then show ?thesis using assms(2,3) by (simp add: ARM_BS_ProcessPatchEvent_def)
next
  case True
  let ?s = "s\<lparr>expectedExternalEvent := 0\<rparr>"
  have "ready ?s" using assms(3,4) True unfolding ready_event by (auto simp: waiting_def)
  moreover have "ok ?s" by (rule ok_frame[OF assms(2)]) simp_all
  ultimately obtain st t where t: "bs_loop lz4 client ?s = Some (st, t)" "ok t" "shape t = shape s" "waiting t"
    and c: "isPatchingDone t \<or> st < 0 \<or> st = EBSAPI_OPERATION_PATCH_READ_WILL_COMPLETE_LATER \<or>
     st = EBSAPI_OPERATION_NEW_FILE_WRITE_WILL_COMPLETE_LATER \<and> effort stock t < effort stock s"
    using loop_total[OF assms(1), of ?s] by (auto simp: effort_event)
  have "ARM_BS_ProcessPatchEvent lz4 client e s = Some (if isPatchingDone t then EBSAPI_PATCH_DONE else st, t)"
    using t(1) True by (simp add: ARM_BS_ProcessPatchEvent_def)
  then show ?thesis using t(2-4) c by (cases "isPatchingDone t") auto
qed

end

context bounded_client
begin

text \<open>The first event, when a small header is there.\<close>

lemma first_event:
  assumes "lz4_bounded lz4" and "ok s" and "s = ARM_BS_Init s" and "new_size s = 0"
    and small: "\<And>code t. the (read_patch client) Bs_header (of_nat FILE_HEADER_LEN) (s\<lparr>expectedExternalEvent := 0\<rparr>) = Some (code, t) \<Longrightarrow>
      code = EBSAPI_OPERATION_DONE_IMMEDIATELY \<and> small_header t"
  shows "\<exists>r t. ARM_BS_ProcessPatchEvent lz4 client EBSAPI_START_PATCH_PROCESSING s = Some (r, t) \<and> ok t \<and> shape t = shape s \<and>
    waiting t \<and> (r = EBSAPI_PATCH_DONE \<or> r < 0 \<or> r = EBSAPI_OPERATION_PATCH_READ_WILL_COMPLETE_LATER \<or>
     r = EBSAPI_OPERATION_NEW_FILE_WRITE_WILL_COMPLETE_LATER)"
proof -
  have s: "next_state s = EBsInitial" "expectedExternalEvent s = EBSAPI_START_PATCH_PROCESSING" "var_int_len s = 0"
    "length (bsMemoryBuffer s) = bs_memory_size" "length (bs_header s) = FILE_HEADER_LEN"
    by (subst assms(3), simp add: ARM_BS_Init_def)+
  let ?s = "s\<lparr>expectedExternalEvent := 0\<rparr>"
  have oks: "ok ?s" by (rule ok_frame[OF assms(2)]) simp_all
  have l: "bs_load ?s Bs_header 0 (unat (of_nat FILE_HEADER_LEN :: u64)) \<noteq> None" using s(5) unfolding load_some by simp
  obtain code t where t: "the (read_patch client) Bs_header (of_nat FILE_HEADER_LEN) ?s = Some (code, t)" "kept ?s t" "ok t"
    using reads[OF oks l] by blast
  note h = small[OF t(1)] and k = kept_fields[OF t(2)]
  obtain f where "read_patch client = Some f" using complete(1) by blast
  then have r: "sendPatchReadRequest client Bs_header (of_nat FILE_HEADER_LEN) ?s = Some (0, t)"
    using t(1) l h by (simp add: sendPatchReadRequest_def bs_request_def)
  let ?t = "t\<lparr>expectedExternalEvent := 0, next_state := EBsInitialPatchReadDone\<rparr>"
  have none: "\<not> (read_old client = None \<or> read_patch client = None \<or> seek_old client = None \<or> write_new client = None)"
    using complete by simp
  have step: "bs_step lz4 client ?s = Some (0, ?t)"
    using s(1) assms(4) r
    by (simp add: bs_step_def bspatch_readInitialHeaderAndContinue_def if_not_P[OF none] WAIT_FOR_now)
  have nd: "\<not> isPatchingDone ?t" using k assms(4) by (simp add: isPatchingDone_def)
  have "ready ?t" using h k s by (simp add: ready_def small_header_def header_field_def bs_load_def)
  from loop_total[OF assms(1) ok_waiting(1)[OF t(3)] this]
  obtain st u where u: "bs_loop lz4 client ?t = Some (st, u)" "ok u" "shape u = shape t" "waiting u"
    and c: "isPatchingDone u \<or> st < 0 \<or> st = EBSAPI_OPERATION_PATCH_READ_WILL_COMPLETE_LATER \<or>
     st = EBSAPI_OPERATION_NEW_FILE_WRITE_WILL_COMPLETE_LATER" by auto
  have "bs_loop lz4 client ?s = Some (st, u)" using step nd u(1) by (subst bs_loop.simps) simp
  then have "ARM_BS_ProcessPatchEvent lz4 client EBSAPI_START_PATCH_PROCESSING s =
      Some (if isPatchingDone u then EBSAPI_PATCH_DONE else st, u)" using s(2) by (simp add: ARM_BS_ProcessPatchEvent_def)
  moreover have "shape u = shape s" using u(3) t(2) by (simp add: kept_def)
  ultimately show ?thesis using u(2,4) c by (cases "isPatchingDone u") auto
qed

end

subsection \<open>A size of frames that wraps around\<close>

text \<open>
  C19. The check of the sizes is a sum of 32 bits: a header that announces frames of two to the 31 up
  to two to the 31 and 512 bytes passes every check, \<open>bspatch_allocWorkingBuffers\<close> returns success,
  and the buffer for compressed data starts outside of the memory, so that no access to it is
  inside. The header is that of a patch as it is received.
\<close>

theorem frame_size_overflow:
  assumes "bs_header s = patch_header whole M unused" and "length unused = 8" and "whole < 2 ^ 32"
    and "2 ^ 31 \<le> M" and "M \<le> 2 ^ 31 + 512" and "length (bsMemoryBuffer s) = bs_memory_size"
    and "aligned (bs_address s)"
  shows "\<exists>t u. bspatch_readInitialHeaderAndContinueReadOfPatchDone s = Some (0, t) \<and>
    bspatch_allocWorkingBuffers t = (0, u) \<and> bs_load u (at_compressed u) 0 n = None"
proof -
  let ?M = "of_nat M :: u32"
  let ?t = "s\<lparr>new_size := of_nat whole, max_compressedDataBuffer := ?M, max_deCompressBuffer := ?M\<rparr>"
  have t: "bspatch_readInitialHeaderAndContinueReadOfPatchDone s = Some (0, ?t)"
    using assms(4,5) by (intro header_parsed[OF assms(1-3)]) simp_all
  define k where "k = M - 2 ^ 31"
  have k: "M = 2 ^ 31 + k" "k \<le> 512" using assms(4,5) by (simp_all add: k_def)
  have M: "unat ?M = M" using assms(5) by (simp add: unat_of_nat take_bit_nat_eq_self_iff)
  define K where "K = 2 * k"
  have K1: "K \<le> 1024" using k(2) by (simp add: K_def)
  then have K: "unat (of_nat K :: u32) = K" by (simp add: unat_of_nat take_bit_nat_eq_self_iff)
  note K = K K1
  have MM: "?M + ?M = of_nat K" using k by (simp add: K_def of_nat_add)
  then have a: "\<not> BS_PATCH_COMPILE_TIME_MEMORY_ALLOC < ?M + ?M"
    using K by (simp only: word_less_nat_alt) simp
  obtain d d' :: u32 where d: "unat d \<le> 7" "ucast (allignTo8ByteBoundary (ucast (bs_address s))) = bs_address s + d"
    and d': "unat d' \<le> 7" "ucast (allignTo8ByteBoundary (ucast (bs_address s + ?M))) = bs_address s + ?M + d'"
    using allign_offset by blast
  let ?u = "?t\<lparr>nonCompressedDataBuffer := bs_address s + d, bufferForCompressedData := bs_address s + ?M + d'\<rparr>"
  have "bs_address s + ?M + d' + ?M = bs_address s + (of_nat K + d')" unfolding MM[symmetric] by (simp only: ac_simps)
  moreover have "unat (of_nat K + d') \<le> 1031" using K d'(1) by (simp add: unat_word_ariths)
  moreover have "unat (bs_address s) + bs_memory_size < 2 ^ 32" using assms(7) by (simp add: aligned_def)
  moreover have "\<not> b + x > b + of_nat bs_memory_size" if "unat x \<le> 1031" "unat b + bs_memory_size < 2 ^ 32" for b x :: u32
    using that by (simp add: word_less_nat_alt unat_word_ariths)
  ultimately have "\<not> bs_address s + ?M + d' + ?M > bs_address s + of_nat bs_memory_size" by (simp only:) blast
  then have u: "bspatch_allocWorkingBuffers ?t = (0, ?u)"
    using a d(2) d'(2) by (simp add: bspatch_allocWorkingBuffers_def Let_def)
  have "unat (?M + d') = M + unat d'" using k d'(1) M by (simp add: unat_word_ariths)
  then have "bs_load ?u (at_compressed ?u) 0 n = None"
    using assms(4,6) by (simp add: bs_load_def rd_block_def add.assoc)
  then show ?thesis using t u by blast
qed

text \<open>A stream before its header is parsed.\<close>

definition crafted :: "nat \<Rightarrow> bspatch_stream" where
  "crafted M = \<lparr>undeCompressBuffer_len = 0, total_undeCompressBuffer = 0, var_int = 0, var_int_len = 0, frame_len = 0,
     newpos = 0, bs_i = 0, ctrl_DIFF_STR_LEN_X = 0, ctrl_EXTRA_STR_LEN_Y = 0, ctrl_OLD_FILE_CTRL_OFF_SET_JUMP = 0,
     nonCompressedDataBuffer = 0, bufferForCompressedData = 0, new_size = 0, max_compressedDataBuffer = 0,
     max_deCompressBuffer = 0, readRequestSize = 0, bs_header = patch_header 1000 M (replicate 8 0),
     next_state = EBsInitialPatchReadDone, expectedExternalEvent = 0, stateAfterReadVarInt = EBsNone,
     isSignedVarInt = False, bsMemoryBuffer = replicate bs_memory_size 0, bs_address = 0x20000000\<rparr>"

theorem frame_size_overflow_witness:
  "\<exists>t u. bspatch_readInitialHeaderAndContinueReadOfPatchDone (crafted (2 ^ 31 + 256)) = Some (0, t) \<and>
    bspatch_allocWorkingBuffers t = (0, u) \<and> bs_load u (at_compressed u) 0 1 = None"
proof (rule frame_size_overflow[where whole = 1000 and M = "2 ^ 31 + 256" and unused = "replicate 8 0"])
  have "(8 :: nat) dvd 0x20000000" by presburger
  then show "aligned (bs_address (crafted (2 ^ 31 + 256)))" by (simp add: crafted_def aligned_def)
qed (simp_all add: crafted_def)

end
