(* ===== verification/UC_Delta_Safety.thy ===== *)
theory UC_Delta_Safety
  imports UC_Delta_Update BsPatch_Safety
begin

text \<open>
  The driver of deltas with a patch that nobody has checked: it is a \<open>bounded_client\<close>, and its
  handlers keep \<open>contained\<close>, which lets the patcher serve the next event.
\<close>

subsection \<open>The driver keeps to the buffers\<close>

text \<open>
  A request that is not complete: its buffer is inside the memory of the patcher, and no more is
  missing than was asked for.
\<close>

definition pending_ok :: "bs_buffer option \<Rightarrow> u64 \<Rightarrow> u64 \<Rightarrow> 'z bspatch_stream_scheme \<Rightarrow> bool" where
  "pending_ok p n left s \<longleftrightarrow> left = 0 \<or> left \<le> n \<and> (\<exists>b. p = Some b \<and> bs_load s b 0 (unat n) \<noteq> None)"

definition reader_bounded :: "delta_platform \<Rightarrow> bool" where
  "reader_bounded P \<longleftrightarrow> (\<forall>n off bs. original_reader P n off = Some bs \<longrightarrow> length bs \<le> unat n)"

definition driver_ok :: "delta_platform \<Rightarrow> 'z delta_scheme \<Rightarrow> bool" where
  "driver_ok P s \<longleftrightarrow> reader_bounded P \<and> incoming_ok s \<and> buf_ok (outgoing_new_buffer s) \<and>
     length (bsMemoryBuffer s) = bs_memory_size \<and> length (bs_header s) = FILE_HEADER_LEN \<and> nextEventToPostToBsPatch s \<noteq> 0 \<and>
     pending_ok (bspatch_read_patch_buffer_ptr s) (bspatch_read_patch_buffer_length s) (bspatch_read_patch_buffer_remaining s) s \<and>
     pending_ok (bspatch_write_new_buffer_ptr s) (bspatch_write_patch_buffer_length s) (bspatch_write_new_buffer_remaining s) s"

text \<open>The size of frames that a buffer with a patch announces.\<close>

definition small_frames :: "bytes \<Rightarrow> bool" where
  "small_frames bs \<longleftrightarrow> out_of_u32 (offtin (take 8 (drop 24 bs))) \<or> offtin (take 8 (drop 24 bs)) < 2 ^ 31"

definition whole_stream :: "'z \<Rightarrow> 'z bspatch_stream_scheme" where
  "whole_stream z = bspatch_stream.extend no_stream z"

definition delta_stock where
  "delta_stock z = (case incoming (whole_stream z) of None \<Rightarrow> 0 | Some n \<Rightarrow> unat n)"

definition starts_small :: "'z delta_scheme \<Rightarrow> bool" where
  "starts_small s \<longleftrightarrow> incoming_hub_buf_ref_offset s = 0 \<and>
     (\<exists>b. incoming_buf_ref s = Some b \<and> FILE_HEADER_LEN \<le> unat (bsize b) \<and> small_frames (ptr b))"

lemma more_whole: "bspatch_stream.more (whole_stream z) = z"
  by (simp add: whole_stream_def more_extend)

lemma stock_incoming: "incoming_buf_ref s = Some b \<Longrightarrow>
    delta_stock (bspatch_stream.more s) = unat (bsize b - incoming_hub_buf_ref_offset s)"
  using delta_fields[OF more_whole[of "bspatch_stream.more s"]] by (simp add: delta_stock_def incoming_def)

lemma load_shape: "shape t = shape s \<Longrightarrow> (bs_load t b i n \<noteq> None) = (bs_load s b i n \<noteq> None)"
  unfolding load_some by (simp add: shape_def split: bs_buffer.split)

lemma load_less: "bs_load s b 0 n \<noteq> None \<Longrightarrow> shape t = shape s \<Longrightarrow> m \<le> n \<Longrightarrow> bs_load t b 0 m \<noteq> None"
  unfolding load_some by (simp add: shape_def split: bs_buffer.splits)

lemma pending_shape: "shape t = shape s \<Longrightarrow> pending_ok p n left t = pending_ok p n left s"
  using load_shape[of t s] by (simp add: pending_ok_def)

lemma driver_ok_frame:
  assumes "driver_ok P s" and "shape t = shape s" and "bspatch_stream.more t = bspatch_stream.more s"
  shows "driver_ok P t"
  using assms(1) unfolding driver_ok_def incoming_ok_def pending_shape[OF assms(2)] delta_fields[OF assms(3)]
  by (simp add: shape_fields[OF assms(2)])

lemma load_length: "bs_load s b i n \<noteq> None \<Longrightarrow> length (bsMemoryBuffer s) = bs_memory_size \<Longrightarrow>
    length (bs_header s) = FILE_HEADER_LEN \<Longrightarrow> n \<le> bs_memory_size"
  unfolding load_some by (simp split: bs_buffer.splits)

text \<open>A block of the incoming buffer goes to a buffer of the patcher.\<close>

lemma incoming_copied:
  assumes ok: "driver_ok P s" and B: "incoming_buf_ref s = Some B"
    and c: "unat (c :: u64) \<le> unat n" "unat c \<le> unat (bsize B) - unat (incoming_hub_buf_ref_offset s)"
    and load: "bs_load s b 0 (unat n) \<noteq> None"
    and u: "u = s\<lparr>bspatch_read_patch_buffer_ptr := Some b, bspatch_read_patch_buffer_length := n, bspatch_read_patch_buffer_remaining := n\<rparr>"
  shows "\<exists>bs v. rd_block (ptr B) (unat (incoming_hub_buf_ref_offset s)) (unat c) = Some bs \<and> bs_store b 0 bs u = Some v \<and>
    (let t = v\<lparr>bspatch_read_patch_buffer_remaining := bspatch_read_patch_buffer_remaining v - c,
               incoming_hub_buf_ref_offset := incoming_hub_buf_ref_offset v + ucast c,
               nextEventToPostToBsPatch := EBSAPI_READ_PATCH_DONE\<rparr>
     in kept s t \<and> driver_ok P t \<and>
       delta_stock (bspatch_stream.more s) = delta_stock (bspatch_stream.more t) + unat c)"
proof -
  let ?o = "incoming_hub_buf_ref_offset s"
  have Bo: "?o \<le> bsize B" "buf_ok B" using ok B by (auto simp: driver_ok_def incoming_ok_def)
  then have o: "unat ?o \<le> unat (bsize B)" "unat (bsize B) \<le> length (ptr B)"
    by (simp_all add: buf_ok_def word_le_nat_alt)
  have c32: "unat (ucast c :: u32) = unat c" using c(2) unat_32[of "bsize B"] by (intro ucast_32) linarith
  have off: "unat (?o + ucast c) = unat ?o + unat c"
    using c(2) o unat_32[of "bsize B"] by (simp add: unat_plus_if_size word_size c32)
  have "unat ?o + unat c \<le> length (ptr B)" using c(2) o by linarith
  then obtain bs where bs: "rd_block (ptr B) (unat ?o) (unat c) = Some bs" by (simp add: rd_block_def)
  then have l: "length bs = unat c" by (rule rd_block_length)
  have sh: "shape u = shape s" unfolding u by (simp add: shape_def)
  have "bs_load u b 0 (length bs) \<noteq> None" using c(1) l by (intro load_less[OF load sh]) simp
  then obtain v where v: "bs_store b 0 bs u = Some v" using store_some by blast
  note k = store_kept[OF v] and d = delta_fields[OF store_kept(2)[OF v]]
  have fu: "incoming_buf_ref u = Some B" "incoming_hub_buf_ref_offset u = ?o" "outgoing_new_buffer u = outgoing_new_buffer s"
    "bspatch_read_patch_buffer_ptr u = Some b" "bspatch_read_patch_buffer_length u = n" "bspatch_read_patch_buffer_remaining u = n"
    "bspatch_write_new_buffer_ptr u = bspatch_write_new_buffer_ptr s"
    "bspatch_write_patch_buffer_length u = bspatch_write_patch_buffer_length s"
    "bspatch_write_new_buffer_remaining u = bspatch_write_new_buffer_remaining s" using B by (simp_all add: u)
  let ?t = "v\<lparr>bspatch_read_patch_buffer_remaining := bspatch_read_patch_buffer_remaining v - c,
      incoming_hub_buf_ref_offset := incoming_hub_buf_ref_offset v + ucast c, nextEventToPostToBsPatch := EBSAPI_READ_PATCH_DONE\<rparr>"
  have su: "kept s u" unfolding u by (simp add: kept_def regs_def control_def shape_def)
  have vt: "kept v ?t" by (simp add: kept_def regs_def control_def shape_def)
  have st: "kept s ?t" using kept_trans[OF kept_trans[OF su k(1)] vt] .
  then have sh: "shape ?t = shape s" by (simp add: kept_def)
  have left: "n - c \<le> n" using c(1) unfolding word_le_nat_alt by (subst unat_sub) (simp_all add: word_le_nat_alt)
  have sv: "shape v = shape s" using kept_trans[OF su k(1)] by (simp add: kept_def)
  have "unat ?o + unat c \<le> unat (bsize B)" using c(2) o by linarith
  then have "driver_ok P ?t"
    using ok Bo left load off shape_fields[OF sv] unfolding driver_ok_def pending_shape[OF sh]
    by (simp add: d fu incoming_ok_def pending_ok_def shape_fields[OF sh] load_shape[OF sh] word_le_nat_alt)
  moreover have "delta_stock (bspatch_stream.more s) = delta_stock (bspatch_stream.more ?t) + unat c"
  proof -
    have "unat (bsize B - ?o) = unat (bsize B) - unat ?o" using Bo(1) by (intro unat_sub)
    moreover have "unat (bsize B - (?o + ucast c)) = unat (bsize B) - (unat ?o + unat c)"
      using c(2) o by (subst unat_sub) (simp_all add: off word_le_nat_alt)
    moreover have t: "incoming_buf_ref ?t = Some B" "incoming_hub_buf_ref_offset ?t = ?o + ucast c" by (simp_all add: d fu)
    ultimately show ?thesis using c(2) o unfolding stock_incoming[OF B] stock_incoming[OF t(1)] t(2) by linarith
  qed
  ultimately show ?thesis using bs v st by (auto simp: Let_def)
qed

lemma patch_read_bounded:
  assumes ok: "driver_ok P s" and load: "bs_load s b 0 (unat n) \<noteq> None"
  shows "\<exists>code t. arm_uc_deltapaal_patch_read b n s = Some (code, t) \<and> kept s t \<and> driver_ok P t \<and>
    (code = EBSAPI_OPERATION_DONE_IMMEDIATELY \<and>
       delta_stock (bspatch_stream.more s) = delta_stock (bspatch_stream.more t) + unat n \<or>
     code = EBSAPI_OPERATION_PATCH_READ_WILL_COMPLETE_LATER)"
proof -
  obtain B where B: "incoming_buf_ref s = Some B" "incoming_hub_buf_ref_offset s \<le> bsize B"
    using ok by (auto simp: driver_ok_def incoming_ok_def)
  let ?a = "bsize B - incoming_hub_buf_ref_offset s"
  have a: "unat (ucast ?a :: u64) = unat (bsize B) - unat (incoming_hub_buf_ref_offset s)"
    unfolding ucast_64 using B(2) by (rule unat_sub)
  note c = incoming_copied[OF ok B(1) _ _ load refl]
  show ?thesis
  proof (cases "ucast ?a < n")
    case True
    have "unat (ucast ?a :: u64) \<le> unat n" using True by (simp add: word_less_nat_alt)
    from c[OF this] a True B(1) show ?thesis
      by (auto simp: arm_uc_deltapaal_patch_read_def incoming_def Let_def)
  next
    case False
    then have "unat n \<le> unat (bsize B) - unat (incoming_hub_buf_ref_offset s)" using a by (simp add: word_less_nat_alt)
    from c[OF order_refl this] False B(1) show ?thesis
      by (auto simp: arm_uc_deltapaal_patch_read_def incoming_def Let_def)
  qed
qed

lemma header_delivered:
  assumes ok: "driver_ok P s" and small: "starts_small s" and r: "arm_uc_deltapaal_patch_read Bs_header (of_nat FILE_HEADER_LEN) s = Some (code, t)"
  shows "code = EBSAPI_OPERATION_DONE_IMMEDIATELY \<and> small_header t"
proof -
  obtain B where B: "incoming_buf_ref s = Some B" "FILE_HEADER_LEN \<le> unat (bsize B)" "small_frames (ptr B)"
    "incoming_hub_buf_ref_offset s = 0" using small by (auto simp: starts_small_def)
  have len: "length (bs_header s) = FILE_HEADER_LEN" "FILE_HEADER_LEN \<le> length (ptr B)"
    using ok B by (auto simp: driver_ok_def incoming_ok_def buf_ok_def word_le_nat_alt)
  have all: "\<not> (ucast (bsize B) :: u64) < 40" using B(2) by (simp add: word_less_nat_alt ucast_64)
  let ?h = "take FILE_HEADER_LEN (ptr B)"
  have "rd_block (ptr B) 0 FILE_HEADER_LEN = Some ?h" using len(2) by (simp add: rd_block_def)
  moreover have "wr_block (bs_header s) 0 ?h = Some ?h" using len by (simp add: wr_block_def)
  ultimately have t: "code = EBSAPI_OPERATION_DONE_IMMEDIATELY" "bs_header t = ?h"
    using r all B(1,4) by (auto simp: arm_uc_deltapaal_patch_read_def Let_def incoming_def bs_store_def)
  moreover have "take 8 (drop 24 ?h) = take 8 (drop 24 (ptr B))" by (simp add: take_drop)
  ultimately show ?thesis using B(3) len(2)
    by (simp add: small_header_def header_field_def bs_load_def rd_block_def small_frames_def)
qed

text \<open>Fields of the driver that neither the patcher nor its requests depend on.\<close>

lemma kept_delta [simp]:
  "kept s (t\<lparr>storage_calls := cs\<rparr>) = kept s t" "kept s (t\<lparr>bspatch_new_offset := o1\<rparr>) = kept s t"
  "kept s (t\<lparr>bspatch_seek_diff := d\<rparr>) = kept s t" "kept s (t\<lparr>nextEventToPostToBsPatch := e\<rparr>) = kept s t"
  "kept s (t\<lparr>outgoing_new_buffer := b\<rparr>) = kept s t" "kept s (t\<lparr>bspatch_write_new_buffer_ptr := p\<rparr>) = kept s t"
  "kept s (t\<lparr>bspatch_write_patch_buffer_length := n\<rparr>) = kept s t"
  "kept s (t\<lparr>bspatch_write_new_buffer_remaining := n\<rparr>) = kept s t"
  by (simp_all add: kept_def regs_def control_def shape_def)

lemma pending_delta [simp]:
  "pending_ok p n k (t\<lparr>storage_calls := cs\<rparr>) = pending_ok p n k t" "pending_ok p n k (t\<lparr>bspatch_new_offset := o1\<rparr>) = pending_ok p n k t"
  "pending_ok p n k (t\<lparr>bspatch_seek_diff := d\<rparr>) = pending_ok p n k t"
  "pending_ok p n k (t\<lparr>nextEventToPostToBsPatch := e\<rparr>) = pending_ok p n k t"
  "pending_ok p n k (t\<lparr>outgoing_new_buffer := b\<rparr>) = pending_ok p n k t"
  "pending_ok p n k (t\<lparr>bspatch_write_new_buffer_ptr := q\<rparr>) = pending_ok p n k t"
  "pending_ok p n k (t\<lparr>bspatch_write_patch_buffer_length := m\<rparr>) = pending_ok p n k t"
  "pending_ok p n k (t\<lparr>bspatch_write_new_buffer_remaining := m\<rparr>) = pending_ok p n k t"
  by (auto simp: pending_ok_def bs_load_def split: bs_buffer.splits)

lemma stock_delta:
  assumes "incoming_buf_ref t = incoming_buf_ref (s :: 'z delta_scheme)" and "incoming_hub_buf_ref_offset t = incoming_hub_buf_ref_offset s"
  shows "delta_stock (bspatch_stream.more t) = delta_stock (bspatch_stream.more s)"
proof -
  note d = delta_fields[OF more_whole[of "bspatch_stream.more t"]] delta_fields[OF more_whole[of "bspatch_stream.more s"]]
  show ?thesis unfolding delta_stock_def incoming_def d assms ..
qed

lemma flush_bounded:
  assumes "driver_ok P s"
  shows "\<exists>c t. flush_outgoing p code s = (c, t) \<and> kept s t \<and> driver_ok P t \<and>
    delta_stock (bspatch_stream.more t) = delta_stock (bspatch_stream.more s) \<and>
    (c = code \<or> c = EBSAPI_ERR_FILE_IO \<or> c = EBSAPI_OPERATION_NEW_FILE_WRITE_WILL_COMPLETE_LATER)"
  using assms kept_refl[of s]
  by (auto simp: flush_outgoing_def write_outgoing_def storage_call_def Let_def driver_ok_def incoming_ok_def intro!: stock_delta
      split: if_splits)

text \<open>A block of the patcher's memory goes to the buffer for writes.\<close>

lemma outgoing_copied:
  assumes ok: "driver_ok P s" and load: "bs_load s b 0 (unat n) \<noteq> None"
    and c: "unat (c :: u64) \<le> unat n" "unat c \<le> unat (size_max (outgoing_new_buffer s)) - unat (bsize (outgoing_new_buffer s))"
    and u: "u = s\<lparr>bspatch_write_new_buffer_ptr := Some b, bspatch_write_patch_buffer_length := n,
      bspatch_write_new_buffer_remaining := n, nextEventToPostToBsPatch := EBSAPI_WRITE_NEW_DONE\<rparr>"
  shows "\<exists>bs m. bs_load u b 0 (unat c) = Some bs \<and> wr_block (ptr (outgoing_new_buffer s)) (unat (bsize (outgoing_new_buffer s))) bs = Some m \<and>
    (let t = u\<lparr>outgoing_new_buffer := (outgoing_new_buffer s)\<lparr>ptr := m, bsize := bsize (outgoing_new_buffer s) + ucast c\<rparr>,
               bspatch_write_new_buffer_remaining := bspatch_write_new_buffer_remaining u - c\<rparr>
     in kept s t \<and> driver_ok P t \<and> delta_stock (bspatch_stream.more t) = delta_stock (bspatch_stream.more s))"
proof -
  let ?b = "outgoing_new_buffer s"
  have ob: "length (ptr ?b) = unat (size_max ?b)" "unat (bsize ?b) \<le> unat (size_max ?b)"
    using ok by (simp_all add: driver_ok_def buf_ok_def word_le_nat_alt)
  have sh: "shape u = shape s" unfolding u by (simp add: shape_def)
  obtain bs where bs: "bs_load u b 0 (unat c) = Some bs" using load_less[OF load sh c(1)] by blast
  then have l: "length bs = unat c" using rd_block_length by (auto simp: bs_load_def split: bs_buffer.splits)
  have fit: "unat (bsize ?b) + unat c \<le> unat (size_max ?b)" using c(2) ob(2) by linarith
  then obtain m where m: "wr_block (ptr ?b) (unat (bsize ?b)) bs = Some m" using ob(1) l by (simp add: wr_block_def)
  then have lm: "length m = unat (size_max ?b)" using wr_block_length ob(1) by metis
  have "unat (ucast c :: u32) = unat c" using fit unat_32[of "size_max ?b"] by (intro ucast_32) linarith
  then have sz: "unat (bsize ?b + ucast c) = unat (bsize ?b) + unat c"
    using fit unat_32[of "size_max ?b"] by (simp add: unat_plus_if_size word_size)
  have left: "n - c \<le> n" using c(1) unfolding word_le_nat_alt by (subst unat_sub) (simp_all add: word_le_nat_alt)
  let ?t = "u\<lparr>outgoing_new_buffer := ?b\<lparr>ptr := m, bsize := bsize ?b + ucast c\<rparr>,
      bspatch_write_new_buffer_remaining := bspatch_write_new_buffer_remaining u - c\<rparr>"
  have "kept s ?t" unfolding u by (simp add: kept_refl)
  moreover have "driver_ok P ?t"
    using ok lm sz fit left load shape_fields[OF sh] unfolding u
    by (simp add: driver_ok_def incoming_ok_def buf_ok_def word_le_nat_alt) (simp add: pending_ok_def bs_load_def word_le_nat_alt split: bs_buffer.splits)
  moreover have "delta_stock (bspatch_stream.more ?t) = delta_stock (bspatch_stream.more s)"
    by (rule stock_delta) (simp_all add: u)
  ultimately show ?thesis using bs m by (auto simp: Let_def)
qed

lemma new_write_bounded:
  assumes ok: "driver_ok P s" and load: "bs_load s b 0 (unat n) \<noteq> None"
  shows "\<exists>code t. arm_uc_deltapaal_new_write p b n s = Some (code, t) \<and> kept s t \<and> driver_ok P t \<and>
    delta_stock (bspatch_stream.more t) = delta_stock (bspatch_stream.more s) \<and>
    (code = EBSAPI_OPERATION_DONE_IMMEDIATELY \<or> code = EBSAPI_OPERATION_NEW_FILE_WRITE_WILL_COMPLETE_LATER \<or> code < 0)"
proof -
  let ?b = "outgoing_new_buffer s" and ?u = "s\<lparr>bspatch_write_new_buffer_ptr := Some b, bspatch_write_patch_buffer_length := n,
      bspatch_write_new_buffer_remaining := n, nextEventToPostToBsPatch := EBSAPI_WRITE_NEW_DONE\<rparr>"
  let ?a = "size_max ?b - bsize ?b"
  have "bsize ?b \<le> size_max ?b" using ok by (simp add: driver_ok_def buf_ok_def)
  then have a: "unat ?a = unat (size_max ?b) - unat (bsize ?b)" by (rule unat_sub)
  have "unat n \<le> 1040" using load_length[OF load] ok by (simp add: driver_ok_def)
  then have n: "unat (ucast n :: u32) = unat n" by (intro ucast_32) simp
  define c :: u64 where "c = (if (ucast n :: u32) \<le> ?a then n else ucast ?a)"
  define code where "code = (if (ucast n :: u32) \<le> ?a then EBSAPI_OPERATION_DONE_IMMEDIATELY
      else EBSAPI_OPERATION_NEW_FILE_WRITE_WILL_COMPLETE_LATER)"
  have c: "unat c \<le> unat n" "unat c \<le> unat (size_max ?b) - unat (bsize ?b)"
    using n unfolding c_def a[symmetric] by (auto simp: word_le_nat_alt ucast_64)
  obtain bs m where bs: "bs_load ?u b 0 (unat c) = Some bs" "wr_block (ptr ?b) (unat (bsize ?b)) bs = Some m"
    and t: "let t = ?u\<lparr>outgoing_new_buffer := ?b\<lparr>ptr := m, bsize := bsize ?b + ucast c\<rparr>,
               bspatch_write_new_buffer_remaining := bspatch_write_new_buffer_remaining ?u - c\<rparr>
     in kept s t \<and> driver_ok P t \<and> delta_stock (bspatch_stream.more t) = delta_stock (bspatch_stream.more s)"
    using outgoing_copied[OF ok load c refl] by blast
  let ?t = "?u\<lparr>outgoing_new_buffer := ?b\<lparr>ptr := m, bsize := bsize ?b + ucast c\<rparr>, bspatch_write_new_buffer_remaining := n - c\<rparr>"
  have t: "kept s ?t" "driver_ok P ?t" "delta_stock (bspatch_stream.more ?t) = delta_stock (bspatch_stream.more s)"
    using t by (simp_all add: Let_def)
  obtain c' v where v: "flush_outgoing p code ?t = (c', v)" "kept ?t v" "driver_ok P v"
    "delta_stock (bspatch_stream.more v) = delta_stock (bspatch_stream.more ?t)"
    "c' = code \<or> c' = EBSAPI_ERR_FILE_IO \<or> c' = EBSAPI_OPERATION_NEW_FILE_WRITE_WILL_COMPLETE_LATER"
    using flush_bounded[OF t(2)] by blast
  have "arm_uc_deltapaal_new_write p b n s = Some (c', v)"
    using bs v(1) unfolding c_def code_def by (auto simp: arm_uc_deltapaal_new_write_def Let_def)
  moreover have "c' = EBSAPI_OPERATION_DONE_IMMEDIATELY \<or> c' = EBSAPI_OPERATION_NEW_FILE_WRITE_WILL_COMPLETE_LATER \<or> c' < 0"
    using v(5) by (auto simp: code_def)
  ultimately show ?thesis using kept_trans[OF t(1) v(2)] v(3,4) t(3) by auto
qed

lemma original_read_bounded:
  assumes ok: "driver_ok P s" and load: "bs_load s b 0 (unat n) \<noteq> None"
  shows "\<exists>code t. arm_uc_deltapaal_original_read P b n s = Some (code, t) \<and> kept s t \<and> driver_ok P t \<and>
    delta_stock (bspatch_stream.more t) = delta_stock (bspatch_stream.more s) \<and> (code = EBSAPI_OPERATION_DONE_IMMEDIATELY \<or> code < 0)"
proof (cases "original_reader P n (ucast (bspatch_seek_diff s))")
  case None
  then show ?thesis using ok kept_refl[of s] by (simp add: arm_uc_deltapaal_original_read_def)
next
  case (Some bs)
  have "length bs \<le> unat n" using ok Some by (auto simp: driver_ok_def reader_bounded_def)
  then have "bs_load s b 0 (length bs) \<noteq> None" by (rule load_less[OF load refl])
  then obtain v where v: "bs_store b 0 bs s = Some v" using store_some by blast
  note k = store_kept[OF v]
  let ?t = "v\<lparr>bspatch_seek_diff := bspatch_seek_diff v + n\<rparr>"
  have "shape v = shape s" using k(1) by (simp add: kept_def)
  then have "driver_ok P v" by (rule driver_ok_frame[OF ok _ k(2)])
  then have "driver_ok P ?t" by (simp add: driver_ok_def incoming_ok_def)
  moreover have "delta_stock (bspatch_stream.more ?t) = delta_stock (bspatch_stream.more s)"
    by (rule stock_delta) (simp_all add: delta_fields[OF k(2)])
  ultimately show ?thesis using v Some k(1) by (simp add: arm_uc_deltapaal_original_read_def)
qed

interpretation feed: bounded_client "delta_client P" "driver_ok P" delta_stock for P
proof
  show "read_patch (delta_client P) \<noteq> None" "read_old (delta_client P) \<noteq> None" "seek_old (delta_client P) \<noteq> None"
    "write_new (delta_client P) \<noteq> None" by (simp_all add: delta_client_def)
next
  fix s t :: "'a delta_scheme"
  assume "driver_ok P s" "shape t = shape s" "bspatch_stream.more t = bspatch_stream.more s"
  then show "driver_ok P t" by (rule driver_ok_frame)
next
  fix s :: "'a delta_scheme" and b n
  assume "driver_ok P s" "bs_load s b 0 (unat (n :: u64)) \<noteq> None"
  from patch_read_bounded[OF this] show "\<exists>code t. the (read_patch (delta_client P)) b n s = Some (code, t) \<and> kept s t \<and> driver_ok P t \<and>
      (code = EBSAPI_OPERATION_DONE_IMMEDIATELY \<and>
        delta_stock (bspatch_stream.more s) = delta_stock (bspatch_stream.more t) + unat n \<or>
       code = EBSAPI_OPERATION_PATCH_READ_WILL_COMPLETE_LATER \<or> code < 0)"
    by (auto simp: delta_client_def)
next
  fix s :: "'a delta_scheme" and b n
  assume "driver_ok P s" "bs_load s b 0 (unat (n :: u64)) \<noteq> None"
  from original_read_bounded[OF this] show "\<exists>code t. the (read_old (delta_client P)) b n s = Some (code, t) \<and> kept s t \<and> driver_ok P t \<and>
      delta_stock (bspatch_stream.more t) = delta_stock (bspatch_stream.more s) \<and>
      (code = EBSAPI_OPERATION_DONE_IMMEDIATELY \<or> code < 0)"
    by (simp add: delta_client_def)
next
  fix s :: "'a delta_scheme" and d
  assume "driver_ok P s"
  then have "driver_ok P (s\<lparr>bspatch_seek_diff := bspatch_seek_diff s + d, nextEventToPostToBsPatch := EBSAPI_SEEK_OLD_DONE\<rparr>)"
    by (simp add: driver_ok_def incoming_ok_def)
  then show "\<exists>code t. the (seek_old (delta_client P)) d s = Some (code, t) \<and> kept s t \<and> driver_ok P t \<and>
      delta_stock (bspatch_stream.more t) = delta_stock (bspatch_stream.more s) \<and>
      (code = EBSAPI_OPERATION_DONE_IMMEDIATELY \<or> code < 0)"
    by (simp add: delta_client_def arm_uc_deltapaal_original_seek_def kept_refl) (intro stock_delta; simp)
next
  fix s :: "'a delta_scheme" and b n
  assume "driver_ok P s" "bs_load s b 0 (unat (n :: u64)) \<noteq> None"
  from new_write_bounded[OF this] show "\<exists>code t. the (write_new (delta_client P)) b n s = Some (code, t) \<and> kept s t \<and> driver_ok P t \<and>
      delta_stock (bspatch_stream.more t) = delta_stock (bspatch_stream.more s) \<and>
      (code = EBSAPI_OPERATION_DONE_IMMEDIATELY \<or> code = EBSAPI_OPERATION_NEW_FILE_WRITE_WILL_COMPLETE_LATER \<or> code < 0)"
    by (simp add: delta_client_def)
qed

subsection \<open>The handlers of the driver\<close>

lemma step_ok_kept:
  assumes "kept s t"
  shows "step_ok t = step_ok s"
  using kept_fields[OF assms] in_bounds_kept[OF assms]
  by (cases "next_state s") (simp_all add: step_ok_def number_ok_def number_next_def frame_len_next_def)

lemma waiting_kept:
  assumes "kept s t"
  shows "waiting t = waiting s"
proof -
  have "ready t = ready s" if "next_state s \<notin> starting"
    using that kept_fields[OF assms] step_ok_kept[OF assms] by (simp add: ready_round)
  then show ?thesis using kept_fields[OF assms] by (auto simp: waiting_def)
qed

text \<open>After the end of the patch no event is posted that the patcher could take.\<close>

definition contained :: "delta_platform \<Rightarrow> 'z delta_scheme \<Rightarrow> bool" where
  "contained P s \<longleftrightarrow> driver_ok P s \<and> expectedExternalEvent s \<noteq> EBSAPI_PATCH_DONE \<and>
     (nextEventToPostToBsPatch s = EBSAPI_PATCH_DONE \<or> waiting s)"

lemma contained_kept:
  assumes "contained P s" and "kept s t" and "driver_ok P t"
    and "nextEventToPostToBsPatch t \<in> {nextEventToPostToBsPatch s, EBSAPI_PATCH_DONE}"
  shows "contained P t"
  using assms waiting_kept[OF assms(2)] kept_fields[OF assms(2)] by (auto simp: contained_def)

text \<open>Fields that none of this depends on.\<close>

lemma contained_updates [simp]:
  "contained P (s\<lparr>storage_calls := cs\<rparr>) = contained P s" "contained P (s\<lparr>bspatch_new_offset := n\<rparr>) = contained P s"
  "contained P (s\<lparr>upstream_events := es\<rparr>) = contained P s" "contained P (s\<lparr>delta_sched := q\<rparr>) = contained P s"
proof -
  have k: "kept s (s\<lparr>storage_calls := cs\<rparr>)" "kept s (s\<lparr>bspatch_new_offset := n\<rparr>)" "kept s (s\<lparr>upstream_events := es\<rparr>)"
    "kept s (s\<lparr>delta_sched := q\<rparr>)" by (simp_all add: kept_def regs_def control_def shape_def)
  show "contained P (s\<lparr>storage_calls := cs\<rparr>) = contained P s" "contained P (s\<lparr>bspatch_new_offset := n\<rparr>) = contained P s"
    "contained P (s\<lparr>upstream_events := es\<rparr>) = contained P s" "contained P (s\<lparr>delta_sched := q\<rparr>) = contained P s"
    unfolding contained_def k[THEN waiting_kept] k[THEN kept_fields(18)]
    by (simp_all add: driver_ok_def incoming_ok_def pending_ok_def bs_load_def split: bs_buffer.split)
qed

lemma process_contained:
  assumes "lz4_bounded (decompress P)" and "contained P s"
  shows "\<exists>r t. process_patch_event P s = Some (r, t) \<and> contained P t \<and>
    (r < 0 \<or> waiting t \<and> (r = EBSAPI_PATCH_DONE \<or> r = EBSAPI_OPERATION_PATCH_READ_WILL_COMPLETE_LATER \<or>
     r = EBSAPI_OPERATION_NEW_FILE_WRITE_WILL_COMPLETE_LATER \<and> effort delta_stock t < effort delta_stock s))"
proof (cases "nextEventToPostToBsPatch s = EBSAPI_PATCH_DONE")
  case True
  then have "process_patch_event P s = Some (EBSAPI_ERR_UNEXPECTED_EVENT, s)"
    using assms(2) by (auto simp: process_patch_event_def ARM_BS_ProcessPatchEvent_def contained_def)
  then show ?thesis using assms(2) by simp
next
  case False
  then have s: "driver_ok P s" "waiting s" "nextEventToPostToBsPatch s \<noteq> 0"
    using assms(2) by (simp_all add: contained_def driver_ok_def)
  obtain r t where t: "process_patch_event P s = Some (r, t)" "driver_ok P t" "waiting t"
    "r = EBSAPI_PATCH_DONE \<or> r < 0 \<or> r = EBSAPI_OPERATION_PATCH_READ_WILL_COMPLETE_LATER \<or>
     r = EBSAPI_OPERATION_NEW_FILE_WRITE_WILL_COMPLETE_LATER \<and> effort delta_stock t < effort delta_stock s"
    using feed.event_total[OF assms(1) s] unfolding process_patch_event_def by blast
  have "contained P t" using t(2,3) by (auto simp: contained_def waiting_def)
  then show ?thesis using t by blast
qed

lemma signal_contained: "contained P (arm_uc_deltapaal_signal_ucfm_handler e s) = contained P s"
  by (simp add: arm_uc_deltapaal_signal_ucfm_handler_def)

lemma write_outgoing_contained:
  assumes "contained P s"
  obtains r t where "write_outgoing p s = (r, t)" "contained P t"
    "nextEventToPostToBsPatch t = nextEventToPostToBsPatch s" "kept s t"
  using assms that by (auto simp: write_outgoing_def storage_call_def Let_def kept_refl)

lemma write_last_contained:
  assumes "contained P s"
  shows "contained P (write_last p s) \<and> kept s (write_last p s)"
  using assms by (auto simp: write_last_def write_outgoing_def storage_call_def Let_def kept_refl)

lemma next_event_contained:
  assumes "contained P s" and "e \<noteq> 0" and "e = EBSAPI_PATCH_DONE \<or> waiting s"
  shows "contained P (s\<lparr>nextEventToPostToBsPatch := e\<rparr>)"
proof -
  have k: "kept s (s\<lparr>nextEventToPostToBsPatch := e\<rparr>)" by (simp add: kept_refl)
  show ?thesis using assms waiting_kept[OF k] unfolding contained_def driver_ok_def incoming_ok_def by auto
qed

lemma resume_contained:
  assumes "lz4_bounded (decompress P)" and "contained P s"
  shows "\<exists>t. resume_patch P event s = Some t \<and> contained P t"
proof -
  obtain r t where t: "process_patch_event P s = Some (r, t)" "contained P t"
    "r < 0 \<or> waiting t \<and> (r = EBSAPI_PATCH_DONE \<or> r = EBSAPI_OPERATION_PATCH_READ_WILL_COMPLETE_LATER \<or>
     r = EBSAPI_OPERATION_NEW_FILE_WRITE_WILL_COMPLETE_LATER)"
    using process_contained[OF assms] by blast
  then show ?thesis using write_last_contained[OF t(2), of P]
    by (auto simp: resume_patch_def signal_contained intro!: next_event_contained)
qed

lemma load_part: "bs_load s b 0 N \<noteq> None \<Longrightarrow> i + n \<le> N \<Longrightarrow> bs_load s b i n \<noteq> None"
  unfolding load_some by (simp split: bs_buffer.splits)

text \<open>Where a request that is not complete goes on.\<close>

lemma pending_part:
  assumes "pending_ok p n left s" and "left \<noteq> 0" and "length (bsMemoryBuffer s) = bs_memory_size"
    and "length (bs_header s) = FILE_HEADER_LEN"
  obtains b where "p = Some b" "unat left \<le> unat n" "bs_load s b 0 (unat n) \<noteq> None"
    "unat (ucast (n - left) :: u32) + unat left = unat n"
proof -
  obtain b where b: "p = Some b" "left \<le> n" "bs_load s b 0 (unat n) \<noteq> None" using assms(1,2) by (auto simp: pending_ok_def)
  have "unat n \<le> 1040" using load_length[OF b(3) assms(3,4)] by simp
  moreover have d: "unat (n - left) = unat n - unat left" using b(2) by (rule unat_sub)
  ultimately have "unat (ucast (n - left) :: u32) = unat (n - left)" by (intro ucast_32) simp
  then show ?thesis using that b d by (simp add: word_le_nat_alt)
qed

lemma contained_write:
  assumes "contained P s" and "buf_ok b" and "left \<le> bspatch_write_new_buffer_remaining s"
  shows "contained P (s\<lparr>outgoing_new_buffer := b, bspatch_write_new_buffer_remaining := left\<rparr>)"
proof (rule contained_kept[OF assms(1)])
  show "kept s (s\<lparr>outgoing_new_buffer := b, bspatch_write_new_buffer_remaining := left\<rparr>)" by (simp add: kept_refl)
  have p: "pending_ok q n m (s\<lparr>outgoing_new_buffer := b, bspatch_write_new_buffer_remaining := left\<rparr>) = pending_ok q n m s" for q n m
    by (rule pending_shape) (simp add: shape_def)
  have "pending_ok (bspatch_write_new_buffer_ptr s) (bspatch_write_patch_buffer_length s) left s"
    using assms(1,3) by (auto simp: contained_def driver_ok_def pending_ok_def)
  then show "driver_ok P (s\<lparr>outgoing_new_buffer := b, bspatch_write_new_buffer_remaining := left\<rparr>)"
    using assms(1,2) unfolding driver_ok_def p by (simp add: contained_def driver_ok_def incoming_ok_def)
qed simp

lemma leftover_copied:
  assumes "contained P s" and "unat n \<le> unat (bspatch_write_new_buffer_remaining s)"
    and "unat n \<le> unat (size_max (outgoing_new_buffer s))" and "bspatch_write_new_buffer_remaining s \<noteq> 0"
  shows "\<exists>t. copy_leftover n s = Some t \<and> contained P t"
proof -
  let ?b = "outgoing_new_buffer s" and ?r = "bspatch_write_new_buffer_remaining s" and ?n = "bspatch_write_patch_buffer_length s"
  have ok: "driver_ok P s" using assms(1) by (simp add: contained_def)
  then obtain b where b: "bspatch_write_new_buffer_ptr s = Some b" "unat ?r \<le> unat ?n" "bs_load s b 0 (unat ?n) \<noteq> None"
    "unat (ucast (?n - ?r) :: u32) + unat ?r = unat ?n"
    using pending_part[OF _ assms(4)] unfolding driver_ok_def by metis
  have "bs_load s b (unat (ucast (?n - ?r) :: u32)) (unat n) \<noteq> None" using b(4) assms(2) by (intro load_part[OF b(3)]) linarith
  then obtain bs where bs: "bs_load s b (unat (ucast (?n - ?r) :: u32)) (unat n) = Some bs" by blast
  then have l: "length bs = unat n" using rd_block_length by (auto simp: bs_load_def split: bs_buffer.splits)
  have ob: "length (ptr ?b) = unat (size_max ?b)" using ok by (simp add: driver_ok_def buf_ok_def)
  then obtain m where m: "wr_block (ptr ?b) 0 bs = Some m" using l assms(3) by (simp add: wr_block_def)
  then have lm: "length m = unat (size_max ?b)" using wr_block_length ob by metis
  have "unat (ucast n :: u32) = unat n" using assms(3) unat_32[of "size_max ?b"] by (intro ucast_32) linarith
  then have "buf_ok (?b\<lparr>ptr := m, bsize := ucast n\<rparr>)" using assms(3) lm by (simp add: buf_ok_def word_le_nat_alt)
  moreover have "?r - n \<le> ?r" using assms(2) unfolding word_le_nat_alt by (subst unat_sub) (simp_all add: word_le_nat_alt)
  ultimately show ?thesis using contained_write[OF assms(1)] b(1) bs m by (simp add: copy_leftover_def)
qed

lemma outgoing_contained:
  assumes "contained P s"
  shows "\<exists>f t. outgoing_written P s = Some (f, t) \<and> contained P t"
proof -
  let ?b = "outgoing_new_buffer s" and ?r = "bspatch_write_new_buffer_remaining s"
  have b: "buf_ok (?b\<lparr>bsize := 0\<rparr>)" using assms by (simp add: contained_def driver_ok_def buf_ok_def)
  have reset: "contained P (s\<lparr>outgoing_new_buffer := ?b\<lparr>bsize := 0\<rparr>\<rparr>)"
    using contained_write[OF assms b order_refl] by simp
  have m: "unat (ucast (size_max ?b) :: u64) = unat (size_max ?b)" by (rule ucast_64)
  consider "0 < ?r \<and> ?r \<le> ucast (size_max ?b)" | "ucast (size_max ?b) < ?r" | "?r = 0"
    by (cases "?r = 0"; cases "ucast (size_max ?b) < ?r") (auto simp: not_less word_neq_0_conv)
  then show ?thesis
  proof cases
    case 1
    then have "?r \<noteq> 0" "unat ?r \<le> unat (size_max ?b)" using m by (auto simp: word_le_nat_alt)
    then obtain t where "copy_leftover ?r s = Some t" "contained P t" using leftover_copied[OF assms order_refl] by blast
    then show ?thesis using 1 by (auto simp: outgoing_written_def Let_def)
  next
    case 2
    then have "?r \<noteq> 0" by auto
    then obtain t where t: "copy_leftover (ucast (size_max ?b)) s = Some t" "contained P t"
      using leftover_copied[OF assms, of "ucast (size_max ?b)"] 2 m by (auto simp: word_less_nat_alt)
    obtain r u where "write_outgoing P t = (r, u)" "contained P u" using t(2) by (rule write_outgoing_contained)
    then show ?thesis using 2 t(1) by (auto simp: outgoing_written_def Let_def signal_contained)
  next
    case 3
    then show ?thesis using assms reset by (auto simp: outgoing_written_def Let_def)
  qed
qed

lemma event_handler_contained:
  assumes "lz4_bounded (decompress P)" and "contained P s"
  shows "\<exists>t. arm_uc_deltapaal_internal_event_handler P event s = Some t \<and> contained P t"
proof -
  obtain f t where t: "outgoing_written P s = Some (f, t)" "contained P t" using outgoing_contained[OF assms(2)] by blast
  then obtain n where "incoming t = Some n" by (auto simp: contained_def driver_ok_def incoming_ok_def incoming_def)
  then show ?thesis using t assms(2) resume_contained[OF assms(1) t(2)]
    by (simp add: arm_uc_deltapaal_internal_event_handler_def signal_contained)
qed

lemma finish_contained:
  assumes "contained P s" and "incoming_hub_buf_ref_offset s = 0"
  shows "\<exists>r t. finish_patch_read s = Some (r, t) \<and> contained P t"
proof -
  let ?r = "bspatch_read_patch_buffer_remaining s" and ?n = "bspatch_read_patch_buffer_length s"
  have ok: "driver_ok P s" using assms(1) by (simp add: contained_def)
  then obtain B where B: "incoming_buf_ref s = Some B" "buf_ok B" by (auto simp: driver_ok_def incoming_ok_def)
  show ?thesis
  proof (cases "0 < ?r \<and> ?r \<le> ucast (bsize B)")
    case False
    then show ?thesis using B assms(1) by (simp only: finish_patch_read_def Let_def) (auto)
  next
    case True
    then have r: "?r \<noteq> 0" "unat ?r \<le> unat (bsize B)" by (auto simp: word_le_nat_alt ucast_64)
    obtain b where b: "bspatch_read_patch_buffer_ptr s = Some b" "unat ?r \<le> unat ?n" "bs_load s b 0 (unat ?n) \<noteq> None"
      "unat (ucast (?n - ?r) :: u32) + unat ?r = unat ?n"
      using pending_part[OF _ r(1)] ok unfolding driver_ok_def by metis
    have "unat ?r \<le> length (ptr B)" using r(2) B(2) by (simp add: buf_ok_def word_le_nat_alt)
    then obtain bs where bs: "rd_block (ptr B) 0 (unat ?r) = Some bs" by (simp add: rd_block_def)
    then have l: "length bs = unat ?r" by (rule rd_block_length)
    have "bs_load s b (unat (ucast (?n - ?r) :: u32)) (length bs) \<noteq> None" using b(4) l by (intro load_part[OF b(3)]) simp
    then obtain v where v: "bs_store b (unat (ucast (?n - ?r) :: u32)) bs s = Some v" using store_some by blast
    note k = store_kept[OF v] and d = delta_fields[OF store_kept(2)[OF v]]
    have sv: "shape v = shape s" using k(1) by (simp add: kept_def)
    let ?t = "v\<lparr>incoming_hub_buf_ref_offset := incoming_hub_buf_ref_offset v + ucast ?r, bspatch_read_patch_buffer_remaining := 0\<rparr>"
    have st: "kept s ?t" using k(1) by (simp add: kept_def regs_def control_def shape_def)
    then have sh: "shape ?t = shape s" by (simp add: kept_def)
    have "unat (ucast ?r :: u32) = unat ?r" using r(2) unat_32[of "bsize B"] by (intro ucast_32) linarith
    then have "driver_ok P ?t"
      using ok B r(2) shape_fields[OF sv] unfolding driver_ok_def pending_shape[OF sh]
      by (simp add: d incoming_ok_def assms(2) word_le_nat_alt) (simp add: pending_ok_def)
    then have "contained P ?t" using contained_kept[OF assms(1) st] by (simp add: d)
    then show ?thesis using B(1) True b(1) bs v by (simp add: finish_patch_read_def Let_def)
  qed
qed

lemma loop_unfold:
  assumes p: "process_patch_event P s = Some (r, t)" and t: "contained P t"
    and c: "r < 0 \<or> r = EBSAPI_PATCH_DONE \<or> r = EBSAPI_OPERATION_PATCH_READ_WILL_COMPLETE_LATER \<or>
      r = EBSAPI_OPERATION_NEW_FILE_WRITE_WILL_COMPLETE_LATER"
    and on: "r = EBSAPI_OPERATION_NEW_FILE_WRITE_WILL_COMPLETE_LATER \<Longrightarrow> \<exists>u. async_write_loop P t = Some u \<and> contained P u"
  shows "\<exists>u. async_write_loop P s = Some u \<and> contained P u"
proof -
  have free: "contained P (snd (ARM_BS_Free (write_last P t))\<lparr>nextEventToPostToBsPatch := EBSAPI_PATCH_DONE\<rparr>)"
    using write_last_contained[OF t, of P]
    by (auto simp: contained_def driver_ok_def incoming_ok_def pending_ok_def bs_load_def ARM_BS_Free_def split: bs_buffer.split)
  have post: "contained P (ARM_UC_DeltaPaal_PALEventHandler e t)" for e
    using t by (simp add: ARM_UC_DeltaPaal_PALEventHandler_def delta_post_def split_beta Let_def)
  obtain n where n: "incoming t = Some n" using t by (auto simp: contained_def driver_ok_def incoming_ok_def incoming_def)
  show ?thesis using c
  proof (elim disjE)
    assume "r = EBSAPI_OPERATION_NEW_FILE_WRITE_WILL_COMPLETE_LATER"
    then show ?thesis using p t n on by (subst async_write_loop.simps) auto
  qed (use p free post in \<open>subst async_write_loop.simps; auto\<close>)+
qed

lemma loop_contained:
  assumes "lz4_bounded (decompress P)" and "contained P s"
  shows "\<exists>u. async_write_loop P s = Some u \<and> contained P u"
  using assms(2)
proof (induction "effort delta_stock s" arbitrary: s rule: less_induct)
  case less
  obtain r t where t: "process_patch_event P s = Some (r, t)" "contained P t"
    "r < 0 \<or> waiting t \<and> (r = EBSAPI_PATCH_DONE \<or> r = EBSAPI_OPERATION_PATCH_READ_WILL_COMPLETE_LATER \<or>
     r = EBSAPI_OPERATION_NEW_FILE_WRITE_WILL_COMPLETE_LATER \<and> effort delta_stock t < effort delta_stock s)"
    using process_contained[OF assms(1) less.prems] by blast
  show ?case
  proof (rule loop_unfold[OF t(1,2)])
    show "r < 0 \<or> r = EBSAPI_PATCH_DONE \<or> r = EBSAPI_OPERATION_PATCH_READ_WILL_COMPLETE_LATER \<or>
      r = EBSAPI_OPERATION_NEW_FILE_WRITE_WILL_COMPLETE_LATER" using t(3) by blast
    assume "r = EBSAPI_OPERATION_NEW_FILE_WRITE_WILL_COMPLETE_LATER"
    then show "\<exists>u. async_write_loop P t = Some u \<and> contained P u" using t(3) less.hyps[OF _ t(2)] by auto
  qed
qed

text \<open>A fragment is handed over and taken up.\<close>

lemma handler_contained:
  assumes "lz4_bounded (decompress P)" and "contained P s" and "incoming_hub_buf_ref_offset s = 0"
  shows "\<exists>t. ARM_UC_DeltaPaal_AsyncWrite_Handler P event s = Some t \<and> contained P t"
  using assms(2) finish_contained[OF assms(2,3)] loop_contained[OF assms(1)]
  by (auto simp: ARM_UC_DeltaPaal_AsyncWrite_Handler_def)

subsection \<open>Any patch, in any fragments\<close>

text \<open>
  The hub writes a fragment, and the queue runs the callback that \<open>Write\<close> posts before any other;
  where the flag is not set the queue has no room for it. Or the storage below signals an event.
\<close>

datatype delta_event = Fragment bool u32 u32 arm_uc_buffer_t | Storage_event u32

fun delta_event_step :: "delta_platform \<Rightarrow> delta_event \<Rightarrow> 'z delta_scheme \<Rightarrow> 'z delta_scheme option" where
  "delta_event_step p (Fragment taken slot_id offset buffer) s = do {
     (result, s) \<leftarrow> ARM_UC_PAL_DeltaPaal_Write p slot_id offset buffer s;
     if taken \<and> \<not> update_payload_full s
     then delta_task p Fn_ARM_UC_DeltaPaal_AsyncWrite_Handler ARM_UC_PAAL_EVENT_WRITE_DONE s else Some s
   }"
| "delta_event_step p (Storage_event event) s = delta_task p Fn_arm_uc_deltapaal_internal_event_handler event s"

primrec delta_events :: "delta_platform \<Rightarrow> delta_event list \<Rightarrow> 'z delta_scheme \<Rightarrow> 'z delta_scheme option" where
  "delta_events p [] s = Some s"
| "delta_events p (e # es) s = do { s \<leftarrow> delta_event_step p e s; delta_events p es s }"

text \<open>A fragment is in its buffer, which has room for the magic bytes.\<close>

fun event_ok :: "delta_event \<Rightarrow> bool" where
  "event_ok (Fragment _ _ _ buffer) \<longleftrightarrow> buf_ok buffer \<and> FILE_MAGIC_LEN \<le> length (ptr buffer)"
| "event_ok (Storage_event _) \<longleftrightarrow> True"

lemma incoming_contained:
  assumes "contained P s" and "buf_ok b"
  shows "contained P (s\<lparr>incoming_buf_ref := Some b, incoming_hub_buf_ref_offset := 0, current_slot_id := slot,
    delta_patch_full_offset := n, update_payload_full := full, delta_sched := q, storage_calls := cs\<rparr>)" (is "contained P ?t")
proof (rule contained_kept[OF assms(1)])
  show "kept s ?t" by (simp add: kept_def regs_def control_def shape_def)
  have sh: "shape ?t = shape s" by (simp add: shape_def)
  show "driver_ok P ?t" using assms unfolding contained_def driver_ok_def pending_shape[OF sh] by (simp add: incoming_ok_def)
qed simp

text \<open>\<open>Write\<close> ends with a callback in the queue, or a write below, or an error.\<close>

lemma write_end:
  obtains r q cs where
    "(if \<not> update_payload_full t then
        let (ok, s) = delta_post Cb_arm_uc_deltapaal_write_async_callback Fn_ARM_UC_DeltaPaal_AsyncWrite_Handler
                        ARM_UC_PAAL_EVENT_WRITE_DONE t
        in Some (if ok then ERR_NONE else ERR_INVALID_PARAMETER, s)
      else if paal_storage_implementation t then let (r, s) = storage_call P c t in Some (rcode r, s)
      else Some (ERR_INVALID_PARAMETER, t)) = Some (r, t\<lparr>delta_sched := q, storage_calls := cs\<rparr>)"
proof -
  have q: "t\<lparr>delta_sched := q\<rparr> = t\<lparr>delta_sched := q, storage_calls := storage_calls t\<rparr>"
    and c: "t\<lparr>storage_calls := cs\<rparr> = t\<lparr>delta_sched := delta_sched t, storage_calls := cs\<rparr>"
    and s: "t = t\<lparr>delta_sched := delta_sched t, storage_calls := storage_calls t\<rparr>" for q cs
    by (rule delta.equality; simp)+
  obtain ok q' where post: "delta_post Cb_arm_uc_deltapaal_write_async_callback
      Fn_ARM_UC_DeltaPaal_AsyncWrite_Handler ARM_UC_PAAL_EVENT_WRITE_DONE t = (ok, t\<lparr>delta_sched := q'\<rparr>)"
    by (simp add: delta_post_def Let_def split_beta)
  consider "\<not> update_payload_full t" | "update_payload_full t" "paal_storage_implementation t"
    | "update_payload_full t" "\<not> paal_storage_implementation t" by blast
  then show ?thesis
  proof cases
    case 1
    show ?thesis by (rule that, subst q[symmetric]) (simp add: post 1)
  next
    case 2
    show ?thesis by (rule that, subst c[symmetric]) (simp add: storage_call_def 2)
  next
    case 3
    show ?thesis by (rule that, subst s[symmetric]) (simp add: 3)
  qed
qed

lemma write_shape:
  assumes "FILE_MAGIC_LEN \<le> length (ptr b)"
  obtains r n full q cs where "ARM_UC_PAL_DeltaPaal_Write P slot offset b s = Some (r,
      s\<lparr>incoming_buf_ref := Some b, incoming_hub_buf_ref_offset := 0, current_slot_id := slot,
        delta_patch_full_offset := n, update_payload_full := full, delta_sched := q, storage_calls := cs\<rparr>)"
    and "offset = 0 \<Longrightarrow> take FILE_MAGIC_LEN (ptr b) = FILE_MAGIC \<Longrightarrow> \<not> full"
proof -
  let ?n = "delta_patch_full_offset s + ucast (bsize b)"
  define full where "full = (if offset = 0 \<and> take FILE_MAGIC_LEN (ptr b) = FILE_MAGIC then False else update_payload_full s)"
  let ?i = "s\<lparr>incoming_buf_ref := Some b, incoming_hub_buf_ref_offset := 0, current_slot_id := slot, delta_patch_full_offset := ?n\<rparr>"
  let ?s = "?i\<lparr>update_payload_full := full\<rparr>"
  have magic: "rd_block (ptr b) 0 FILE_MAGIC_LEN = Some (take FILE_MAGIC_LEN (ptr b))" using assms by (simp add: rd_block_def)
  have i: "?i\<lparr>update_payload_full := update_payload_full s\<rparr> = ?i" by (rule delta.equality) simp_all
  have m: "(if offset = 0 then do {
           magic \<leftarrow> rd_block (ptr b) 0 FILE_MAGIC_LEN;
           Some (if magic = FILE_MAGIC then ?i\<lparr>update_payload_full := False\<rparr> else ?i)
         } else Some ?i) = Some ?s"
    unfolding full_def by (cases "offset = 0"; cases "take FILE_MAGIC_LEN (ptr b) = FILE_MAGIC")
      (simp_all only: magic i Option.bind.bind_lunit if_True if_False simp_thms)
  obtain r q cs where "ARM_UC_PAL_DeltaPaal_Write P slot offset b s = Some (r, ?s\<lparr>delta_sched := q, storage_calls := cs\<rparr>)"
    using write_end[of ?s P "PAAL_Write slot offset (take (unat (bsize b)) (ptr b))"]
    unfolding ARM_UC_PAL_DeltaPaal_Write_def Let_def m Option.bind.bind_lunit by blast
  then show ?thesis by (rule that) (simp add: full_def)
qed

lemma event_contained:
  assumes "lz4_bounded (decompress P)" and "contained P s" and "event_ok e"
  shows "\<exists>t. delta_event_step P e s = Some t \<and> contained P t"
proof (cases e)
  case (Storage_event event)
  then show ?thesis using event_handler_contained[OF assms(1,2)] by (simp add: delta_task_def)
next
  case (Fragment taken slot offset b)
  then have b: "buf_ok b" "FILE_MAGIC_LEN \<le> length (ptr b)" using assms(3) by simp_all
  obtain r n full q cs where w: "ARM_UC_PAL_DeltaPaal_Write P slot offset b s = Some (r,
      s\<lparr>incoming_buf_ref := Some b, incoming_hub_buf_ref_offset := 0, current_slot_id := slot,
        delta_patch_full_offset := n, update_payload_full := full, delta_sched := q, storage_calls := cs\<rparr>)"
    (is "_ = Some (r, ?t)") using b(2) by (rule write_shape)
  have t: "contained P ?t" using assms(2) b(1) by (rule incoming_contained)
  note h = handler_contained[OF assms(1) t]
  show ?thesis
  proof (cases "taken \<and> \<not> full")
    case True
    then show ?thesis using h[of ARM_UC_PAAL_EVENT_WRITE_DONE] w Fragment by (simp add: delta_task_def)
  next
    case False
    then show ?thesis using t w Fragment by (auto simp del: contained_updates)
  qed
qed

lemma events_contained:
  assumes "lz4_bounded (decompress P)" and "contained P s" and "\<forall>e \<in> set es. event_ok e"
  shows "\<exists>t. delta_events P es s = Some t \<and> contained P t"
  using assms(2,3)
proof (induction es arbitrary: s)
  case (Cons e es)
  then obtain t where "delta_event_step P e s = Some t" "contained P t" using event_contained[OF assms(1), of s e] by auto
  then show ?case using Cons by simp
qed simp

subsection \<open>The first fragment\<close>

text \<open>A driver that has been prepared for a delta, and has the first fragment.\<close>

definition fresh :: "delta_platform \<Rightarrow> 'z delta_scheme \<Rightarrow> bool" where
  "fresh P s \<longleftrightarrow> driver_ok P s \<and> s = ARM_BS_Init s \<and> nextEventToPostToBsPatch s = EBSAPI_START_PATCH_PROCESSING \<and> starts_small s"

lemma first_contained:
  assumes "lz4_bounded (decompress P)" and "fresh P s"
  shows "\<exists>t. ARM_UC_DeltaPaal_AsyncWrite_Handler P event s = Some t \<and> contained P t"
proof -
  have s: "driver_ok P s" "s = ARM_BS_Init s" "nextEventToPostToBsPatch s = EBSAPI_START_PATCH_PROCESSING" "starts_small s"
    using assms(2) by (simp_all add: fresh_def)
  have "new_size s = 0" by (subst s(2)) (simp add: ARM_BS_Init_def)
  moreover have "code = EBSAPI_OPERATION_DONE_IMMEDIATELY \<and> small_header t"
    if "the (read_patch (delta_client P)) Bs_header (of_nat FILE_HEADER_LEN) (s\<lparr>expectedExternalEvent := 0\<rparr>) = Some (code, t)" for code t
  proof (rule header_delivered)
    let ?s = "s\<lparr>expectedExternalEvent := 0\<rparr>"
    note d = delta_fields[of ?s s]
    show "driver_ok P ?s" by (rule driver_ok_frame[OF s(1)]) simp_all
    show "starts_small ?s" using s(4) by (simp add: starts_small_def d)
    show "arm_uc_deltapaal_patch_read Bs_header (of_nat FILE_HEADER_LEN) ?s = Some (code, t)"
      using that by (simp add: delta_client_def)
  qed
  ultimately obtain r t where t: "process_patch_event P s = Some (r, t)" "driver_ok P t" "waiting t"
    and c: "r = EBSAPI_PATCH_DONE \<or> r < 0 \<or> r = EBSAPI_OPERATION_PATCH_READ_WILL_COMPLETE_LATER \<or>
      r = EBSAPI_OPERATION_NEW_FILE_WRITE_WILL_COMPLETE_LATER"
    using feed.first_event[OF assms(1) s(1,2)] unfolding process_patch_event_def s(3) by blast
  have k: "contained P t" using t(2,3) by (auto simp: contained_def waiting_def)
  have "\<exists>u. async_write_loop P s = Some u \<and> contained P u"
    using c loop_contained[OF assms(1) k] by (intro loop_unfold[OF t(1) k]) blast+
  then show ?thesis using s(3) by (simp add: ARM_UC_DeltaPaal_AsyncWrite_Handler_def)
qed

lemma prepared_fresh:
  assumes "reader_bounded P" and "length (ptr (outgoing_new_buffer s)) = unat (size_max (outgoing_new_buffer s))"
    and "paal_storage_implementation s" and "h \<noteq> 0"
    and "ARM_UC_PAL_DeltaPaal_Prepare P h payload slot (Some d) (Some a) s = (r, s1)"
    and b: "buf_ok b" "FILE_HEADER_LEN \<le> unat (bsize b)" "small_frames (ptr b)"
  shows "fresh P (s1\<lparr>incoming_buf_ref := Some b, incoming_hub_buf_ref_offset := 0, current_slot_id := slot',
    delta_patch_full_offset := n, update_payload_full := full, delta_sched := q, storage_calls := cs\<rparr>)" (is "fresh P ?t")
proof -
  let ?s1 = "(ARM_BS_Init (arm_uc_deltapaal_reset_internals s))\<lparr>delta_incoming := h, delta_patch_full_size := ucast payload,
       nextEventToPostToBsPatch := EBSAPI_START_PATCH_PROCESSING, storage_calls := PAAL_Prepare slot d a # storage_calls s\<rparr>"
  have s1: "s1 = ?s1"
    using assms(3-5) by (cases s)
      (simp add: ARM_UC_PAL_DeltaPaal_Prepare_def storage_call_def Let_def ARM_BS_Init_def arm_uc_deltapaal_reset_internals_def)
  have "?t = ARM_BS_Init ?t" unfolding s1 by (cases s) (simp add: ARM_BS_Init_def arm_uc_deltapaal_reset_internals_def)
  moreover have "driver_ok P ?t" using assms(1,2) b(1) unfolding s1
    by (simp add: driver_ok_def incoming_ok_def pending_ok_def ARM_BS_Init_def arm_uc_deltapaal_reset_internals_def buf_ok_def)
  ultimately show ?thesis using b(2,3) by (simp add: fresh_def starts_small_def) (simp add: s1)
qed

text \<open>
  C3. No patch makes the driver of deltas use memory that it must not use, or keeps it in a loop:
  let the first fragment have the magic bytes and a header with a size of frames below two to the
  31, and let the rest be any bytes, in fragments of any sizes at any offsets, with any events of the
  storage below, any of its answers and any text that LZ4 makes of a frame, before a digest or a
  signature of the update is checked. Every \<open>Write\<close>, every callback that it posts and every event
  is served: no access is outside of its buffer, and each of the loops of the patcher and of the
  driver ends.
\<close>

theorem hostile_patch_contained:
  assumes "lz4_bounded (decompress P)" and "reader_bounded P"
    and "length (ptr (outgoing_new_buffer s)) = unat (size_max (outgoing_new_buffer s))"
    and "paal_storage_implementation s" and "hub_is_delta \<noteq> 0"
    and "ARM_UC_PAL_DeltaPaal_Prepare P hub_is_delta payload slot (Some d) (Some a) s = (r, s1)"
    and "buf_ok f" and "FILE_HEADER_LEN \<le> unat (bsize f)" and "take FILE_MAGIC_LEN (ptr f) = FILE_MAGIC" and "small_frames (ptr f)"
    and "\<forall>e \<in> set es. event_ok e"
  shows "\<exists>t. delta_events P (Fragment True slot 0 f # es) s1 = Some t"
proof -
  have "FILE_MAGIC_LEN \<le> length (ptr f)" using assms(7,8) by (simp add: buf_ok_def word_le_nat_alt)
  then obtain r n full q cs where w: "ARM_UC_PAL_DeltaPaal_Write P slot 0 f s1 = Some (r,
      s1\<lparr>incoming_buf_ref := Some f, incoming_hub_buf_ref_offset := 0, current_slot_id := slot,
        delta_patch_full_offset := n, update_payload_full := full, delta_sched := q, storage_calls := cs\<rparr>)"
    and full: "\<not> full" using write_shape[of f P slot 0 s1] assms(9) by metis
  let ?t = "s1\<lparr>incoming_buf_ref := Some f, incoming_hub_buf_ref_offset := 0, current_slot_id := slot,
      delta_patch_full_offset := n, update_payload_full := full, delta_sched := q, storage_calls := cs\<rparr>"
  have "fresh P ?t" using assms(2-8,10) by (rule prepared_fresh)
  then obtain u where u: "ARM_UC_DeltaPaal_AsyncWrite_Handler P ARM_UC_PAAL_EVENT_WRITE_DONE ?t = Some u" "contained P u"
    using first_contained[OF assms(1)] by blast
  then obtain t where "delta_events P es u = Some t" using events_contained[OF assms(1) u(2) assms(11)] by blast
  then show ?thesis using w full u(1) by (simp add: delta_task_def)
qed

text \<open>LZ4 refuses every frame; the second fragment is not a part of a patch.\<close>

definition hostile_platform :: delta_platform where
  "hostile_platform = sample_platform\<lparr>decompress := (\<lambda>_ _. (- 1, []))\<rparr>"

definition hostile_events :: "delta_event list" where
  "hostile_events =
     [Storage_event ARM_UC_PAAL_EVENT_WRITE_DONE, Fragment True 7 64 (sample_fragment 64 (replicate 64 255)),
      Fragment False 8 3 (sample_fragment 0 []), Storage_event ARM_UC_PAAL_EVENT_WRITE_DONE,
      Fragment True 7 0 (sample_fragment 64 (take 64 sample_patch)), Storage_event ARM_UC_PAAL_EVENT_WRITE_ERROR]"

theorem hostile_patch_contained_witness:
  "\<exists>t. delta_events hostile_platform (Fragment True 7 0 (sample_fragment 64 (take 64 sample_patch)) # hostile_events)
    (snd (ARM_UC_PAL_DeltaPaal_Prepare hostile_platform 1 1000 7 (Some no_details) (Some Buf_message) (sample_driver []))) = Some t"
proof -
  let ?f = "sample_fragment 64 (take 64 sample_patch)"
  have len: "length sample_patch = 79" by code_simp
  have f: "ptr ?f = take 64 sample_patch" "unat (bsize ?f) = 64" by (simp_all add: sample_fragment_def len)
  have "offtin (take 8 (drop 24 (take 64 sample_patch))) = 64" by code_simp
  then have small: "small_frames (ptr ?f)" by (simp add: f small_frames_def)
  have magic: "take FILE_MAGIC_LEN (ptr ?f) = FILE_MAGIC" unfolding f by code_simp
  have "- 1 \<le> uint n" for n :: u32 by (rule order_trans[of _ 0]) simp_all
  then have "lz4_bounded (decompress hostile_platform)" by (simp add: lz4_bounded_def hostile_platform_def)
  moreover have "reader_bounded hostile_platform"
    by (simp add: reader_bounded_def hostile_platform_def sample_platform_def)
  moreover have "length (ptr (outgoing_new_buffer (sample_driver []))) = unat (size_max (outgoing_new_buffer (sample_driver [])))"
    by (simp add: sample_driver_def)
  moreover have "paal_storage_implementation (sample_driver [])" by (simp add: sample_driver_def)
  moreover have "buf_ok ?f" by (simp add: buf_ok_def sample_fragment_def len)
  moreover have "\<forall>e \<in> set hostile_events. event_ok e"
    by (simp add: hostile_events_def buf_ok_def sample_fragment_def len)
  ultimately show ?thesis
    using magic small f(2) by (intro hostile_patch_contained[OF _ _ _ _ _ prod.collapse[symmetric]]) simp_all
qed

end
