(* ===== verification/Spec2Isabelle.thy ===== *)
theory Spec2Isabelle
  imports UC_Metadata_Header UC_Utilities UC_Scheduler UC_Pre_Shared_Key UC_Hub_Download
    UC_Delta_Safety
begin

text \<open>
  A verification library for the firmware update client of this repository,
  \<open>src/mbed-cloud-client/update-client-hub/\<close>.

  The program. The hub (\<open>source/update_client_hub*.c\<close>) runs an update: it asks the source manager
  for a manifest, the manifest manager to verify it, the control center for the permissions of the
  application, the firmware manager to store and check the image, and tells a monitor, which
  reports to the service. The components talk by callbacks that the scheduler queues; the
  application runs the queue with \<open>ARM_UC_ProcessEvents\<close>. Every component keeps its state in
  static variables.

  How it is modelled. A function of C is a definition with the name it has there; a part of a long
  function has a name of its own. The static variables of the components are one record that
  grows along the theories: \<open>sched\<close> (queue, pool, flag), \<open>uc0\<close> (calls made, buffers), \<open>cc\<close>,
  \<open>paal\<close>, \<open>fm\<close>, \<open>sm\<close>, \<open>mm\<close> and \<open>hub\<close>. Integers keep their width. Memory that is reached through a
  pointer is a list of bytes, and an access that leaves it is \<open>None\<close>, so undefined behaviour is a
  value. The code outside of the model - storage drivers, sources, the monitor, the application, the
  parser of manifests, timers - is an \<open>environment\<close>: a call is recorded in \<open>trace\<close>, newest first, and
  answered by a function of all the calls so far, so that a property for every environment holds
  whatever these parts do. Cryptography is a parameter (\<open>pal_crypto\<close>, \<open>pal_aes\<close>). A callback that
  the application or a component calls in turn is either done inside the definition (the answers to
  a request for an authorization, \<open>app_react\<close>) or posted to the queue.

  The theories and what their lemmas show.

    \<^item> \<open>UC_Prelude\<close>, \<open>UC_Types\<close>, \<open>UC_Error\<close>: checked memory, shared structures, the error codes of
      \<open>arm_uc_error.h\<close> with their values and the proof that they are distinct.
    \<^item> \<open>UC_Buffer_Utils\<close> (\<open>arm_uc_buffer_utilities.c\<close>): CRC, big-endian integers and the
      comparison in constant time; the CRC detects a change within four bytes.
    \<^item> \<open>UC_Utilities\<close> (\<open>arm_uc_utilities.c\<close>): parsers of URIs and numbers, base64, search in a
      string; the functional behaviour and the overruns.
    \<^item> \<open>UC_Crypto\<close>, \<open>UC_Metadata_Header\<close> (\<open>arm_uc_metadata_header_v2.c\<close>): the headers stored with an
      image; round trips, detection of corruption and authenticity.
    \<^item> \<open>Atomic_Queue\<close>, \<open>UC_Scheduler\<close> (\<open>atomic-queue.c\<close>, \<open>arm_uc_scheduler.c\<close>): the linked queue with
      its locks, the pool of callbacks and the pending flag. The locale \<open>fifo\<close> is what the scheduler
      needs of a queue; \<open>pending_rep\<close> abstracts the state to the list of pending callbacks, which
      posting and processing refine. Operations are atomic: interrupts are not modelled.
    \<^item> \<open>UC_World\<close>: callbacks, buffers and the environment.
    \<^item> \<open>UC_Control_Center\<close>, \<open>UC_Pre_Shared_Key\<close> (\<open>arm_uc_control_center.c\<close>,
      \<open>arm_uc_pre_shared_key.c\<close>): tokens and permissions, each of which is answered once.
    \<^item> \<open>UC_PAAL_Update\<close>, \<open>UC_Firmware_Manager\<close> (\<open>arm_uc_paal_update.c\<close>, \<open>arm_uc_firmware_manager.c\<close>):
      writing, decryption, and the hash check that reads the stored image back with two buffers.
    \<^item> \<open>UC_Source_Manager\<close> (\<open>arm_uc_source_manager.c\<close>): registry, costs, retries.
    \<^item> \<open>UC_Manifest_Manager\<close> (\<open>manifest-manager-api.c\<close>, \<open>arm_uc_mmStateSelector.c\<close>): its interface
      and the dispatch of its callback; the two machines behind it are in the environment.
    \<^item> \<open>UC_Hub_State\<close>, \<open>UC_Hub_Error_Handler\<close>, \<open>UC_Hub_Event_Handlers\<close>, \<open>UC_Hub_State_Machine\<close>,
      \<open>UC_Hub\<close>: the hub. \<open>hub_case\<close> is the \<open>switch\<close> of \<open>ARM_UC_HUB_setState\<close>, divided by phases.
    \<^item> \<open>UC_Hub_Frame\<close>, \<open>UC_Hub_Rounds\<close>: what each operation leaves alone (\<open>quiet\<close>), and one round of
      the state machine as a relation \<open>nexts\<close>, whose closure \<open>entered\<close> is a change of state.
    \<^item> \<open>UC_Hub_System\<close>: \<open>spec_run\<close>, the client as an abstract machine, and \<open>hub_run\<close>, the runs of the
      program, in which any event reaches the hub at any time; \<open>hub_run_spec\<close> is the simulation.
    \<^item> \<open>UC_Hub_Properties\<close>: the properties of the hub and of the whole client, with an example.
    \<^item> \<open>UC_Hub_Download\<close>: the download with two buffers follows a pipeline that counts fragments,
      whatever the order in which the network and the storage answer, and completes.
    \<^item> \<open>Varint\<close>, \<open>BsPatch\<close> (\<open>delta-tool-internal/source/varint.c\<close>, \<open>bspatch.c\<close>): the coding of
      numbers and the state machine that applies a delta. \<open>bs_step\<close> is one round of the loop of
      \<open>ARM_BS_ProcessPatchEvent\<close>. The memory of the stream is one block that the buffers point into.
    \<^item> \<open>BsPatch_Client\<close>, \<open>BsPatch_Frames\<close>, \<open>BsPatch_Segments\<close>: the locale \<open>patch_io\<close> is what the patcher
      needs of its client; total correctness of the rounds for every delay of the client's answers,
      from single numbers and frames up to a whole patch, against the abstract \<open>patched\<close>.
    \<^item> \<open>UC_Delta_PAAL\<close> (\<open>delta-paal/source/arm_uc_pal_delta_paal_implementation.c\<close>): the storage
      interface that takes a delta and writes the new image to the storage below.
    \<^item> \<open>UC_Delta_Client\<close>, \<open>UC_Delta_Update\<close>: the driver as an instance of \<open>patch_io\<close>, and a whole update
      with its queue, a storage that accepts its calls, and the hub, which sends the next fragment
      when the last one is answered (\<open>delta_turn\<close>).
    \<^item> \<open>BsPatch_Safety\<close>, \<open>UC_Delta_Safety\<close>: the patcher and the driver with a patch that nobody has
      checked. The locale \<open>bounded_client\<close> is a client that stays inside the buffers that it is given;
      with it every event is served, and \<open>effort\<close> bounds the rounds up to the next read of the patch.
      The driver is such a client whatever the storage answers. A fragment is taken up before the
      next event of the storage (\<open>delta_event_step\<close>), as the queue does when the storage answers each
      write once.

  Bounds and fuel. \<open>ARM_UC_HUB_setState\<close> calls itself through the error handler and loops; both use
  one fuel, and four is enough (\<open>set_state_ends\<close>). All other loops are structural, have a
  measure, or are \<open>partial_function\<close>s whose end is proved where it is claimed
  (\<open>drain_terminates\<close>). The sizes are the ones of the code: ten sources, 32 callbacks in the pool,
  hashes of 32 bytes.

  For a delta, the patcher has the memory of \<open>BS_PATCH_COMPILE_TIME_MEMORY_ALLOC\<close> = 1024 bytes and
  addresses of 32 bits, LZ4 is a parameter, assertions are off; the driver has an instance of the
  scheduler of its own. Its loops are \<open>partial_function\<close>s, whose end is part of what is proved.

  The configuration is the one of the cloud client: PAL cryptography, delta storage interface, new
  manifest format, no pre-shared keys in the hub, not rootless, metadata header version 2.

  Not modelled: output of traces; interrupts and threads inside an operation; the manifest parser
  and certificates, which stand on mbed TLS; LZ4 and the reader of the active image, which are
  parameters of the delta theories; the sources, other storage drivers, the monitor and the
  device identity behind their interfaces; the LWM2M client, CoAP, PAL, the key store and the
  application, which are other programs of the repository, partly third-party or in C++.
\<close>

end
